(* ===== verification/Prelude.thy ===== *)
theory Prelude imports Main  begin

text \<open>
  Shared vocabulary of the development.

  JavaScript values: numbers the program uses as counters, slots and millisecond
  timestamps are safe integers and are modelled as \<open>int\<close> (or \<open>nat\<close> where the code only
  counts up); a nullable value is an \<open>option\<close>; a string is a \<open>char list\<close>.

  A JavaScript \<open>Map\<close> iterates in insertion order and keeps the position of a key that is
  set again. It is a list of pairs (\<open>jmap\<close>) with \<open>mget\<close>, \<open>mput\<close>, \<open>mdel\<close>, \<open>mhas\<close>. A database
  table is a list of rows: \<open>upsert\<close> is UPSERT by key, \<open>update_where\<close> is UPDATE .. WHERE,
  \<open>delete_where\<close> is DELETE .. WHERE. The locale \<open>keyed_map\<close> is the contract the clients use.
\<close>

named_theorems guards "definitions of the boolean guards a step tests"
named_theorems inr_iff "a chain of checks succeeds iff each check does"
named_theorems table_simps "how table statements act on lookups and keys"

type_synonym time = int

section \<open>Folds\<close>

lemma fold_invar:
  "(\<And>x s. x \<in> set xs \<Longrightarrow> P s \<Longrightarrow> P (g x s)) \<Longrightarrow> P s \<Longrightarrow> P (fold g xs s)"
  by (induction xs arbitrary: s) auto

section \<open>Options\<close>

text \<open>\<open>a ?? b\<close>\<close>

definition nullish :: "'a option \<Rightarrow> 'a \<Rightarrow> 'a" where
  "nullish a b = (case a of None \<Rightarrow> b | Some x \<Rightarrow> x)"

lemma nullish_simps [simp]: "nullish None b = b" "nullish (Some x) b = x"
  by (simp_all add: nullish_def)

text \<open>\<open>a ?? b\<close> where \<open>b\<close> may itself be null.\<close>

definition orElse :: "'a option \<Rightarrow> 'a option \<Rightarrow> 'a option" where
  "orElse a b = (case a of None \<Rightarrow> b | Some x \<Rightarrow> Some x)"

lemma orElse_simps [simp]: "orElse None b = b" "orElse (Some x) b = Some x" "orElse a None = a"
  by (simp_all add: orElse_def split: option.split)

text \<open>A nullable string in a condition: null and the empty string are false.\<close>

definition truthy :: "string option \<Rightarrow> bool" where
  "truthy v = (case v of None \<Rightarrow> False | Some s \<Rightarrow> s \<noteq> [])"

section \<open>Tables: lists of rows with a key\<close>

definition upsert :: "('r \<Rightarrow> 'k) \<Rightarrow> 'r \<Rightarrow> 'r list \<Rightarrow> 'r list" where
  "upsert kf r t =
     (if kf r \<in> kf ` set t then map (\<lambda>r'. if kf r' = kf r then r else r') t else t @ [r])"

definition find_row :: "('r \<Rightarrow> 'k) \<Rightarrow> 'k \<Rightarrow> 'r list \<Rightarrow> 'r option" where
  "find_row kf k t = find (\<lambda>r. kf r = k) t"

definition update_where :: "('r \<Rightarrow> bool) \<Rightarrow> ('r \<Rightarrow> 'r) \<Rightarrow> 'r list \<Rightarrow> 'r list" where
  "update_where P f t = map (\<lambda>r. if P r then f r else r) t"

definition delete_where :: "('r \<Rightarrow> bool) \<Rightarrow> 'r list \<Rightarrow> 'r list" where
  "delete_where P t = filter (\<lambda>r. \<not> P r) t"

definition upsert_all :: "('r \<Rightarrow> 'k) \<Rightarrow> 'r list \<Rightarrow> 'r list \<Rightarrow> 'r list" where
  "upsert_all kf rs t = fold (upsert kf) rs t"

lemma find_row_Nil [simp]: "find_row kf k [] = None"
  by (simp add: find_row_def)

lemma find_row_Cons [simp]:
  "find_row kf k (r # t) = (if kf r = k then Some r else find_row kf k t)"
  by (simp add: find_row_def)

lemma find_row_append:
  "find_row kf k (s @ t) = orElse (find_row kf k s) (find_row kf k t)"
  by (induction s) auto

lemma find_row_SomeD: "find_row kf k t = Some r \<Longrightarrow> r \<in> set t \<and> kf r = k"
  by (induction t) (auto split: if_splits)

lemma find_row_None_iff: "find_row kf k t = None \<longleftrightarrow> k \<notin> kf ` set t"
  by (induction t) auto

lemma find_row_unique:
  "distinct (map kf t) \<Longrightarrow> r \<in> set t \<Longrightarrow> kf r = k \<Longrightarrow> find_row kf k t = Some r"
  by (induction t) (auto simp: rev_image_eqI)

lemma find_row_iff:
  "distinct (map kf t) \<Longrightarrow> find_row kf k t = Some r \<longleftrightarrow> r \<in> set t \<and> kf r = k"
  using find_row_SomeD find_row_unique by metis

lemma find_row_map_keep:
  "(\<And>r. kf (f r) = kf r) \<Longrightarrow> find_row kf k (map f t) = map_option f (find_row kf k t)"
  by (induction t) auto

lemma find_row_update_where [table_simps]:
  assumes "\<And>r. kf (f r) = kf r"
  shows "find_row kf k (update_where P f t)
         = map_option (\<lambda>r. if P r then f r else r) (find_row kf k t)"
  unfolding update_where_def by (rule find_row_map_keep) (simp add: assms)

lemma update_where_keys:
  assumes "\<And>r. kf (f r) = kf r"
  shows "map kf (update_where P f t) = map kf t"
  by (simp add: update_where_def assms)

lemma set_update_where: "set (update_where P f t) = (\<lambda>r. if P r then f r else r) ` set t"
  by (simp add: update_where_def)

lemma length_update_where [simp]: "length (update_where P f t) = length t"
  by (simp add: update_where_def)

lemma update_where_none: "\<forall>r \<in> set t. \<not> P r \<Longrightarrow> update_where P f t = t"
  by (induction t) (auto simp: update_where_def)

lemma set_delete_where [simp]: "set (delete_where P t) = {r \<in> set t. \<not> P r}"
  by (auto simp: delete_where_def)

lemma distinct_delete_where:
  "distinct (map kf t) \<Longrightarrow> distinct (map kf (delete_where P t))"
  unfolding delete_where_def by (induction t) auto

lemma find_row_delete_where:
  "(\<And>r. kf r = k \<Longrightarrow> \<not> P r) \<Longrightarrow> find_row kf k (delete_where P t) = find_row kf k t"
  unfolding delete_where_def by (induction t) auto

lemma upsert_keys:
  "map kf (upsert kf r t) = (if kf r \<in> kf ` set t then map kf t else map kf t @ [kf r])"
  by (auto simp: upsert_def)

lemma upsert_distinct [intro]: "distinct (map kf t) \<Longrightarrow> distinct (map kf (upsert kf r t))"
  by (auto simp: upsert_keys)

lemma upsert_fresh: "kf r \<notin> kf ` set t \<Longrightarrow> upsert kf r t = t @ [r]"
  by (simp add: upsert_def)

lemma fold_upsert_fresh: "distinct (map kf (t @ rs)) \<Longrightarrow> fold (upsert kf) rs t = t @ rs"
proof (induction rs arbitrary: t)
  case (Cons r rs)
  then have "upsert kf r t = t @ [r]" by (intro upsert_fresh) auto
  with Cons show ?case by simp
qed simp

lemma find_row_replace:
  "find_row kf k (map (\<lambda>r'. if kf r' = kf r then r else r') t)
   = (if k = kf r \<and> k \<in> kf ` set t then Some r else find_row kf k t)"
  by (induction t) auto

lemma find_row_upsert [table_simps]:
  "find_row kf k (upsert kf r t) = (if k = kf r then Some r else find_row kf k t)"
proof (cases "kf r \<in> kf ` set t")
  case True
  then show ?thesis by (simp add: upsert_def find_row_replace)
next
  case False
  then have "find_row kf (kf r) t = None" by (simp add: find_row_None_iff)
  with False show ?thesis by (auto simp: upsert_def find_row_append)
qed

lemma find_row_fold_upsert:
  "find_row kf k (fold (upsert kf) rs t)
   = (case find_row kf k (rev rs) of Some r \<Rightarrow> Some r | None \<Rightarrow> find_row kf k t)"
  by (induction rs arbitrary: t) (auto simp: find_row_upsert find_row_append orElse_def split: option.split)

text \<open>A JavaScript \<open>Set\<close> of an iterable: first occurrences, in order.\<close>

definition jset :: "'a list \<Rightarrow> 'a list" where
  "jset xs = rev (remdups (rev xs))"

lemma set_jset [simp]: "set (jset xs) = set xs"
  by (simp add: jset_def)

lemma distinct_jset [simp]: "distinct (jset xs)"
  by (simp add: jset_def)

lemma jset_Nil [simp]: "jset [] = []"
  by (simp add: jset_def)

lemma jset_Nil_iff [simp]: "jset xs = [] \<longleftrightarrow> xs = []"
  by (simp add: jset_def)

lemma jset_id: "distinct xs \<Longrightarrow> jset xs = xs"
  by (simp add: jset_def distinct_remdups_id)

section \<open>Checks that throw\<close>

text \<open>\<open>Inl\<close> is a thrown error; the rest of the function runs on a returned value.\<close>

definition sbind :: "'e + 'a \<Rightarrow> ('a \<Rightarrow> 'e + 'b) \<Rightarrow> 'e + 'b" where
  "sbind m f = (case m of Inl e \<Rightarrow> Inl e | Inr x \<Rightarrow> f x)"

definition throwIf :: "bool \<Rightarrow> 'e \<Rightarrow> 'e + unit" where
  "throwIf b e = (if b then Inl e else Inr ())"

lemma sbind_simps [simp]: "sbind (Inl e) f = Inl e" "sbind (Inr x) f = f x"
  by (simp_all add: sbind_def)

lemma sbind_Inr_iff [inr_iff]: "sbind m f = Inr y \<longleftrightarrow> (\<exists>x. m = Inr x \<and> f x = Inr y)"
  by (cases m) auto

lemma throwIf_Inr_iff [inr_iff]: "throwIf b e = Inr u \<longleftrightarrow> \<not> b"
  by (simp add: throwIf_def)

lemma throwIf_simps [simp]: "throwIf True e = Inl e" "throwIf False e = Inr ()"
  by (simp_all add: throwIf_def)

section \<open>JavaScript maps\<close>

type_synonym ('k, 'v) jmap = "('k \<times> 'v) list"

definition mget :: "('k, 'v) jmap \<Rightarrow> 'k \<Rightarrow> 'v option" where
  "mget m k = map_option snd (find_row fst k m)"

definition mput :: "('k, 'v) jmap \<Rightarrow> 'k \<Rightarrow> 'v \<Rightarrow> ('k, 'v) jmap" where
  "mput m k v = upsert fst (k, v) m"

definition mdel :: "('k, 'v) jmap \<Rightarrow> 'k \<Rightarrow> ('k, 'v) jmap" where
  "mdel m k = filter (\<lambda>p. fst p \<noteq> k) m"

definition mhas :: "('k, 'v) jmap \<Rightarrow> 'k \<Rightarrow> bool" where
  "mhas m k = (k \<in> fst ` set m)"

definition mkeys :: "('k, 'v) jmap \<Rightarrow> 'k list" where
  "mkeys m = map fst m"

definition mvalues :: "('k, 'v) jmap \<Rightarrow> 'v list" where
  "mvalues m = map snd m"

text \<open>\<open>for (const [k, v] of m) if (P k v) m.delete(k)\<close>: deleting while iterating.\<close>

definition mprune :: "('k \<Rightarrow> 'v \<Rightarrow> bool) \<Rightarrow> ('k, 'v) jmap \<Rightarrow> ('k, 'v) jmap" where
  "mprune P m = fold (\<lambda>(k, v) acc. if P k v then mdel acc k else acc) m m"

definition jmap_wf :: "('k, 'v) jmap \<Rightarrow> bool" where
  "jmap_wf m = distinct (map fst m)"

lemma jmap_wf_Nil [simp]: "jmap_wf []"
  by (simp add: jmap_wf_def)

lemma jmap_wf_mput [intro]: "jmap_wf m \<Longrightarrow> jmap_wf (mput m k v)"
  unfolding jmap_wf_def mput_def by (rule upsert_distinct)

lemma jmap_wf_filter: "jmap_wf m \<Longrightarrow> jmap_wf (filter P m)"
  unfolding jmap_wf_def by (induction m) auto

lemma jmap_wf_mdel [intro]: "jmap_wf m \<Longrightarrow> jmap_wf (mdel m k)"
  unfolding mdel_def by (rule jmap_wf_filter)

lemma mget_Nil [simp]: "mget [] k = None"
  by (simp add: mget_def)

lemma mget_mput [table_simps, simp]: "mget (mput m k v) k' = (if k' = k then Some v else mget m k')"
  by (simp add: mget_def mput_def find_row_upsert)

lemma mget_mdel [table_simps, simp]: "mget (mdel m k) k' = (if k' = k then None else mget m k')"
  unfolding mget_def mdel_def by (induction m) auto

lemma set_mput: "jmap_wf m \<Longrightarrow> set (mput m k v) = insert (k, v) {e \<in> set m. fst e \<noteq> k}"
proof -
  assume "jmap_wf m"
  then have "k \<in> fst ` set m \<Longrightarrow> set (map (\<lambda>e. if fst e = k then (k, v) else e) m) = insert (k, v) {e \<in> set m. fst e \<noteq> k}"
    by (auto simp: image_iff)
  then show ?thesis by (auto simp: mput_def upsert_def)
qed

lemma keys_mput: "fst ` set (mput m k v) = insert k (fst ` set m)"
proof -
  have "set (map fst (mput m k v)) = insert k (set (map fst m))"
    unfolding mput_def upsert_keys by auto
  then show ?thesis by simp
qed

lemma mhas_iff: "mhas m k \<longleftrightarrow> mget m k \<noteq> None"
  by (simp add: mhas_def mget_def find_row_None_iff)

lemma mget_SomeD: "mget m k = Some v \<Longrightarrow> (k, v) \<in> set m"
  by (auto simp: mget_def dest: find_row_SomeD)

lemma mget_iff: "jmap_wf m \<Longrightarrow> mget m k = Some v \<longleftrightarrow> (k, v) \<in> set m"
  unfolding mget_def jmap_wf_def by (auto simp: find_row_iff)

lemma mget_None_iff: "mget m k = None \<longleftrightarrow> k \<notin> set (mkeys m)"
  by (auto simp: mget_def find_row_None_iff mkeys_def image_iff)

lemma filter_other_key: "k \<notin> fst ` set m \<Longrightarrow> filter (\<lambda>p. fst p \<noteq> k) m = m"
  by (induction m) auto

lemma mprune_fold:
  "fold (\<lambda>(k, v) acc. if P k v then mdel acc k else acc) xs m
   = filter (\<lambda>p. \<not> (\<exists>v. (fst p, v) \<in> set xs \<and> P (fst p) v)) m"
proof (induction xs arbitrary: m)
  case Nil
  then show ?case by simp
next
  case (Cons x xs)
  obtain k v where "x = (k, v)" by (cases x)
  with Cons show ?case
    by (auto simp: mdel_def filter_filter intro!: filter_cong)
qed

lemma mprune_filter: "jmap_wf m \<Longrightarrow> mprune P m = filter (\<lambda>(k, v). \<not> P k v) m"
  unfolding mprune_def mprune_fold jmap_wf_def
  by (rule filter_cong) (auto dest: eq_key_imp_eq_value)

lemma jmap_wf_mprune: "jmap_wf m \<Longrightarrow> jmap_wf (mprune P m)"
  by (simp add: mprune_filter jmap_wf_filter)

lemma mget_mprune:
  "jmap_wf m \<Longrightarrow> mget (mprune P m) k
    = (case mget m k of None \<Rightarrow> None | Some v \<Rightarrow> if P k v then None else Some v)"
proof -
  assume wf: "jmap_wf m"
  have "mget (filter (\<lambda>(k, v). \<not> P k v) m) k
    = (case mget m k of None \<Rightarrow> None | Some v \<Rightarrow> if P k v then None else Some v)"
    using wf unfolding mget_def jmap_wf_def
  proof (induction m)
    case (Cons x m)
    have "fst x = k \<Longrightarrow> find_row fst k (filter (\<lambda>(k, v). \<not> P k v) m) = None"
      using Cons.prems by (force simp: find_row_None_iff)
    with Cons show ?case by (auto split: option.splits prod.splits)
  qed simp
  then show ?thesis by (simp add: mprune_filter wf)
qed

section \<open>The contract of a keyed map\<close>

locale keyed_map =
  fixes get :: "'m \<Rightarrow> 'k \<Rightarrow> 'v option"
    and put :: "'m \<Rightarrow> 'k \<Rightarrow> 'v \<Rightarrow> 'm"
    and del :: "'m \<Rightarrow> 'k \<Rightarrow> 'm"
    and invar :: "'m \<Rightarrow> bool"
  assumes get_put: "get (put m k v) k' = (if k' = k then Some v else get m k')"
    and get_del: "get (del m k) k' = (if k' = k then None else get m k')"
    and invar_put: "invar m \<Longrightarrow> invar (put m k v)"
    and invar_del: "invar m \<Longrightarrow> invar (del m k)"
begin

lemma get_fold_del: "get (fold (\<lambda>k m. del m k) ks m) k = (if k \<in> set ks then None else get m k)"
  by (induction ks arbitrary: m) (auto simp: get_del)

lemma invar_fold_del: "invar m \<Longrightarrow> invar (fold (\<lambda>k m. del m k) ks m)"
  by (induction ks arbitrary: m) (auto simp: invar_del)

lemma get_fold_put:
  "distinct (map fst kvs) \<Longrightarrow>
   get (fold (\<lambda>(k, v) m. put m k v) kvs m) k
     = (case map_of kvs k of Some v \<Rightarrow> Some v | None \<Rightarrow> get m k)"
proof (induction kvs arbitrary: m)
  case (Cons x kvs)
  have "fst x = k \<Longrightarrow> map_of kvs k = None"
    using Cons.prems by (auto simp: map_of_eq_None_iff)
  with Cons show ?case by (auto simp: get_put split: option.splits prod.splits)
qed simp

lemma reinsert: "get (put (del m k) k v) = (get m)(k := Some v)"
  by (rule ext) (simp add: get_put get_del)

end

interpretation jm: keyed_map mget mput mdel jmap_wf
  by unfold_locales auto

section \<open>Decimal printing and output references\<close>

definition digit_char :: "nat \<Rightarrow> char" where
  "digit_char d = char_of (48 + d)"

fun dec :: "nat \<Rightarrow> string" where
  "dec n = (if n < 10 then [digit_char n] else dec (n div 10) @ [digit_char (n mod 10)])"

declare dec.simps [simp del]

lemma of_digit_char: "d < 10 \<Longrightarrow> (of_char (digit_char d) :: nat) = 48 + d"
  by (simp add: digit_char_def of_char_of)

lemma digit_char_inject: "a < 10 \<Longrightarrow> b < 10 \<Longrightarrow> digit_char a = digit_char b \<longleftrightarrow> a = b"
  by (metis add_left_cancel of_digit_char)

lemma digit_char_not_hash [simp]: "d < 10 \<Longrightarrow> digit_char d \<noteq> CHR ''#''"
  using of_digit_char [of d] by force

lemma dec_not_hash: "CHR ''#'' \<notin> set (dec n)"
proof (induction n rule: dec.induct)
  case (1 n)
  have "digit_char (n mod 10) \<noteq> CHR ''#''" by simp
  with 1 show ?case
    by (subst dec.simps) (auto simp: eq_commute [of "CHR ''#''"])
qed

lemma dec_nonempty [simp]: "dec n \<noteq> []" "[] \<noteq> dec n"
  by (subst dec.simps, simp)+

lemma dec_inject: "dec m = dec n \<longleftrightarrow> m = n"
proof (induction m arbitrary: n rule: dec.induct)
  case (1 m)
  show ?case
  proof (cases "m < 10 \<or> n < 10")
    case True
    then show ?thesis
      by (subst dec.simps, subst (2) dec.simps) (auto simp: digit_char_inject)
  next
    case False
    then have "dec m = dec n \<longleftrightarrow> m div 10 = n div 10 \<and> m mod 10 = n mod 10"
      using 1 by (subst dec.simps, subst (2) dec.simps) (auto simp: digit_char_inject)
    then show ?thesis by (metis div_mult_mod_eq)
  qed
qed

text \<open>\<open>`${txHash}#${outputIndex}`\<close>: the printed form determines hash and index.\<close>

definition outpoint :: "string \<Rightarrow> nat \<Rightarrow> string" where
  "outpoint txHash outputIndex = txHash @ ''#'' @ dec outputIndex"

lemma outpoint_inject: "outpoint h i = outpoint h' i' \<longleftrightarrow> h = h' \<and> i = i'"
proof
  assume eq: "outpoint h i = outpoint h' i'"
  let ?cut = "\<lambda>s. takeWhile (\<lambda>c. c \<noteq> CHR ''#'') (rev s)"
  have cut: "?cut (outpoint a j) = rev (dec j)" for a j
    using dec_not_hash [of j] by (auto simp: outpoint_def takeWhile_append)
  from eq cut have "rev (dec i) = rev (dec i')" by metis
  then have "i = i'" by (simp add: dec_inject)
  with eq show "h = h' \<and> i = i'" by (simp add: outpoint_def)
qed simp

section \<open>Strings\<close>

text \<open>\<open>toLowerCase\<close> on the ASCII range (hashes and hex).\<close>

definition lower_char :: "char \<Rightarrow> char" where
  "lower_char c = (let n = (of_char c :: nat) in if 65 \<le> n \<and> n \<le> 90 then char_of (n + 32) else c)"

definition toLowerCase :: "string \<Rightarrow> string" where
  "toLowerCase s = map lower_char s"

lemma lower_char_idem [simp]: "lower_char (lower_char c) = lower_char c"
  by (simp add: lower_char_def Let_def)

lemma toLowerCase_idem [simp]: "toLowerCase (toLowerCase s) = toLowerCase s"
  by (simp add: toLowerCase_def)

end
