(* ===== verification/CircuitBreaker.thy ===== *)
theory CircuitBreaker imports Prelude begin

text \<open>
  The per-backend circuit breaker of \<open>srv/blockchain/circuit-breaker.ts\<close>.

  \<open>circuits\<close> is the manager's \<open>Map\<close> from backend name to entry; every operation takes the
  current time (\<open>Date.now()\<close>) as an argument. The entry-level functions \<open>attemptEntry\<close>,
  \<open>successEntry\<close> and \<open>failureEntry\<close> are the bodies of \<open>shouldAttempt\<close>, \<open>recordSuccess\<close> and
  \<open>recordFailure\<close> once the entry has been found; the code mutates the entry in place, the
  model puts it back into the map.
\<close>

section \<open>The code\<close>

datatype CircuitState = Closed | Open | HalfOpen

record CircuitBreakerConfig =
  failureThreshold :: int
  successThreshold :: int
  resetTimeoutMs :: int

definition DEFAULT_CONFIG :: CircuitBreakerConfig where
  "DEFAULT_CONFIG = \<lparr>failureThreshold = 5, successThreshold = 2, resetTimeoutMs = 30000\<rparr>"

record CircuitEntry =
  ce_state :: CircuitState
  failures :: int
  successes :: int
  lastFailureTime :: time
  halfOpenProbes :: int

type_synonym circuits = "(string, CircuitEntry) jmap"

definition attemptEntry :: "CircuitBreakerConfig \<Rightarrow> time \<Rightarrow> CircuitEntry \<Rightarrow> bool \<times> CircuitEntry" where
  "attemptEntry cfg now e =
     (case ce_state e of
        Closed \<Rightarrow> (True, e)
      | Open \<Rightarrow>
          (let elapsed = now - lastFailureTime e in
           if elapsed \<ge> resetTimeoutMs cfg
           then (True, e\<lparr>ce_state := HalfOpen, successes := 0, halfOpenProbes := 1\<rparr>)
           else (False, e))
      | HalfOpen \<Rightarrow>
          (if halfOpenProbes e \<ge> successThreshold cfg then (False, e)
           else (True, e\<lparr>halfOpenProbes := halfOpenProbes e + 1\<rparr>)))"

definition shouldAttempt ::
  "CircuitBreakerConfig \<Rightarrow> time \<Rightarrow> circuits \<Rightarrow> string \<Rightarrow> bool \<times> circuits" where
  "shouldAttempt cfg now cs backendName =
     (case mget cs backendName of
        None \<Rightarrow> (True, cs)
      | Some e \<Rightarrow> (let (ok, e') = attemptEntry cfg now e in (ok, mput cs backendName e')))"

definition successEntry :: "CircuitBreakerConfig \<Rightarrow> CircuitEntry \<Rightarrow> CircuitEntry" where
  "successEntry cfg e =
     (case ce_state e of
        HalfOpen \<Rightarrow>
          (let e1 = e\<lparr>halfOpenProbes := max 0 (halfOpenProbes e - 1), successes := successes e + 1\<rparr> in
           if successes e1 \<ge> successThreshold cfg
           then e1\<lparr>ce_state := Closed, failures := 0, successes := 0, halfOpenProbes := 0\<rparr>
           else e1)
      | Closed \<Rightarrow> e\<lparr>failures := 0\<rparr>
      | Open \<Rightarrow> e)"

definition recordSuccess :: "CircuitBreakerConfig \<Rightarrow> circuits \<Rightarrow> string \<Rightarrow> circuits" where
  "recordSuccess cfg cs backendName =
     (case mget cs backendName of
        None \<Rightarrow> cs
      | Some e \<Rightarrow> mput cs backendName (successEntry cfg e))"

definition newEntry :: CircuitEntry where
  "newEntry = \<lparr>ce_state = Closed, failures = 0, successes = 0, lastFailureTime = 0, halfOpenProbes = 0\<rparr>"

definition failureEntry :: "CircuitBreakerConfig \<Rightarrow> time \<Rightarrow> CircuitEntry \<Rightarrow> CircuitEntry" where
  "failureEntry cfg now e =
     (let e1 = e\<lparr>failures := failures e + 1, lastFailureTime := now\<rparr> in
      if ce_state e1 = HalfOpen
      then e1\<lparr>ce_state := Open, successes := 0, halfOpenProbes := 0\<rparr>
      else if ce_state e1 = Closed \<and> failures e1 \<ge> failureThreshold cfg
      then e1\<lparr>ce_state := Open\<rparr>
      else e1)"

definition recordFailure :: "CircuitBreakerConfig \<Rightarrow> time \<Rightarrow> circuits \<Rightarrow> string \<Rightarrow> circuits" where
  "recordFailure cfg now cs backendName =
     mput cs backendName (failureEntry cfg now (nullish (mget cs backendName) newEntry))"

definition getState :: "CircuitBreakerConfig \<Rightarrow> time \<Rightarrow> circuits \<Rightarrow> string \<Rightarrow> CircuitState" where
  "getState cfg now cs backendName =
     (case mget cs backendName of
        None \<Rightarrow> Closed
      | Some e \<Rightarrow>
          if ce_state e = Open \<and> now - lastFailureTime e \<ge> resetTimeoutMs cfg then HalfOpen
          else ce_state e)"

definition resetCircuits :: "circuits \<Rightarrow> circuits" where
  "resetCircuits cs = []"

section \<open>Runs\<close>

text \<open>A run interleaves calls for all backends; each carries its backend and its time.\<close>

datatype cb_event = Attempt | Success | Failure

fun cb_step :: "CircuitBreakerConfig \<Rightarrow> circuits \<Rightarrow> string \<times> time \<times> cb_event \<Rightarrow> circuits" where
  "cb_step cfg cs (n, now, Attempt) = snd (shouldAttempt cfg now cs n)"
| "cb_step cfg cs (n, now, Success) = recordSuccess cfg cs n"
| "cb_step cfg cs (n, now, Failure) = recordFailure cfg now cs n"

fun cb_admits :: "CircuitBreakerConfig \<Rightarrow> circuits \<Rightarrow> string \<times> time \<times> cb_event \<Rightarrow> bool" where
  "cb_admits cfg cs (n, now, Attempt) = fst (shouldAttempt cfg now cs n)"
| "cb_admits cfg cs _ = False"

fun cb_run :: "CircuitBreakerConfig \<Rightarrow> circuits \<Rightarrow> (string \<times> time \<times> cb_event) list \<Rightarrow> circuits" where
  "cb_run cfg cs [] = cs"
| "cb_run cfg cs (ev # evs) = cb_run cfg (cb_step cfg cs ev) evs"

text \<open>The number of calls to backend \<open>n\<close> that a run lets through.\<close>

fun cb_admitted :: "CircuitBreakerConfig \<Rightarrow> string \<Rightarrow> circuits \<Rightarrow> (string \<times> time \<times> cb_event) list \<Rightarrow> int" where
  "cb_admitted cfg n cs [] = 0"
| "cb_admitted cfg n cs (ev # evs) =
     (if fst ev = n \<and> cb_admits cfg cs ev then 1 else 0) + cb_admitted cfg n (cb_step cfg cs ev) evs"

section \<open>Library lemmas\<close>

lemmas entry_defs = attemptEntry_def successEntry_def failureEntry_def Let_def

text \<open>What one event does to the entry of a backend: its own, or nothing.\<close>

fun entry_step :: "CircuitBreakerConfig \<Rightarrow> time \<times> cb_event \<Rightarrow> CircuitEntry \<Rightarrow> CircuitEntry" where
  "entry_step cfg (now, Attempt) e = snd (attemptEntry cfg now e)"
| "entry_step cfg (now, Success) e = successEntry cfg e"
| "entry_step cfg (now, Failure) e = failureEntry cfg now e"

lemma cb_step_own:
  "mget cs n = Some e \<Longrightarrow> mget (cb_step cfg cs (n, now, ev)) n = Some (entry_step cfg (now, ev) e)"
  by (cases ev)
     (simp_all add: shouldAttempt_def recordSuccess_def recordFailure_def split: prod.split)

lemma cb_step_other: "m \<noteq> n \<Longrightarrow> mget (cb_step cfg cs (m, now, ev)) n = mget cs n"
  by (cases ev)
     (simp_all add: shouldAttempt_def recordSuccess_def recordFailure_def split: prod.split option.split)

lemma cb_admits_own:
  "mget cs n = Some e \<Longrightarrow> cb_admits cfg cs (n, now, ev) \<longleftrightarrow> ev = Attempt \<and> fst (attemptEntry cfg now e)"
  by (cases ev) (simp_all add: shouldAttempt_def split: prod.split)

lemma open_step:
  assumes "ce_state e = Open" "t0 \<le> lastFailureTime e" "t0 \<le> now" "now < t0 + resetTimeoutMs cfg"
  shows "ce_state (entry_step cfg (now, ev) e) = Open
       \<and> t0 \<le> lastFailureTime (entry_step cfg (now, ev) e)
       \<and> \<not> fst (attemptEntry cfg now e)"
  using assms by (cases ev) (auto simp: entry_defs)

lemma open_run:
  assumes "mget cs n = Some e" "ce_state e = Open" "t0 \<le> lastFailureTime e"
    and "\<forall>(m, now, ev) \<in> set evs. m = n \<longrightarrow> t0 \<le> now \<and> now < t0 + resetTimeoutMs cfg"
  shows "cb_admitted cfg n cs evs = 0
       \<and> (\<exists>e'. mget (cb_run cfg cs evs) n = Some e' \<and> ce_state e' = Open)"
  using assms
proof (induction evs arbitrary: cs e)
  case (Cons x evs)
  obtain m now ev where x: "x = (m, now, ev)" by (cases x)
  show ?case
  proof (cases "m = n")
    case True
    with Cons.prems x have "t0 \<le> now" "now < t0 + resetTimeoutMs cfg" by auto
    note step = open_step [OF Cons.prems(2,3) this]
    from Cons.IH [OF cb_step_own [OF Cons.prems(1)], of cfg now ev] step Cons.prems
    show ?thesis by (simp add: x True cb_admits_own [OF Cons.prems(1)])
  next
    case False
    from Cons.IH [of "cb_step cfg cs x" e] Cons.prems False
    show ?thesis by (simp add: x cb_step_other)
  qed
qed simp

text \<open>
  During a half-open episode every admitted call holds a probe slot or has released it with a
  success that is counted.
\<close>

definition half_open_budget :: "CircuitBreakerConfig \<Rightarrow> int \<Rightarrow> CircuitEntry \<Rightarrow> bool" where
  "half_open_budget cfg k e \<longleftrightarrow>
     ce_state e = HalfOpen \<and> 0 \<le> halfOpenProbes e \<and> halfOpenProbes e \<le> successThreshold cfg
     \<and> 0 \<le> successes e \<and> successes e < successThreshold cfg
     \<and> k \<le> halfOpenProbes e + successes e"

lemma half_open_step:
  assumes "half_open_budget cfg k e" "ce_state (entry_step cfg (now, ev) e) = HalfOpen"
  shows "half_open_budget cfg (k + (if ev = Attempt \<and> fst (attemptEntry cfg now e) then 1 else 0))
           (entry_step cfg (now, ev) e)"
  using assms
  by (cases ev) (auto simp: half_open_budget_def entry_defs split: if_splits)

text \<open>Every prefix of the run leaves backend \<open>n\<close> half-open.\<close>

fun stays_half_open :: "CircuitBreakerConfig \<Rightarrow> string \<Rightarrow> circuits \<Rightarrow> (string \<times> time \<times> cb_event) list \<Rightarrow> bool" where
  "stays_half_open cfg n cs [] = True"
| "stays_half_open cfg n cs (ev # evs) =
     ((case mget (cb_step cfg cs ev) n of Some e \<Rightarrow> ce_state e = HalfOpen | None \<Rightarrow> False)
      \<and> stays_half_open cfg n (cb_step cfg cs ev) evs)"

lemma half_open_run:
  assumes "mget cs n = Some e" "half_open_budget cfg k e" "stays_half_open cfg n cs evs"
  shows "k + cb_admitted cfg n cs evs \<le> 2 * successThreshold cfg - 1"
  using assms
proof (induction evs arbitrary: cs e k)
  case Nil
  then show ?case by (auto simp: half_open_budget_def)
next
  case (Cons x evs)
  obtain m now ev where x: "x = (m, now, ev)" by (cases x)
  show ?case
  proof (cases "m = n")
    case True
    note own = cb_step_own [OF Cons.prems(1), of cfg now ev]
    from Cons.prems(3) own have "ce_state (entry_step cfg (now, ev) e) = HalfOpen"
      by (simp add: x True)
    note b = half_open_step [OF Cons.prems(2) this]
    from Cons.IH [OF own b] Cons.prems(3) show ?thesis
      by (simp add: x True cb_admits_own [OF Cons.prems(1)] split: if_splits)
  next
    case False
    from Cons.IH [of "cb_step cfg cs x" e k] Cons.prems False
    show ?thesis by (simp add: x cb_step_other)
  qed
qed

lemma success_streak:
  assumes "mget cs n = Some e" "ce_state e = HalfOpen" "0 \<le> successes e"
    and "successes e < successThreshold cfg" "int k = successThreshold cfg - successes e"
  shows "\<exists>e'. mget (cb_run cfg cs (replicate k (n, now, Success))) n = Some e'
            \<and> ce_state e' = Closed \<and> failures e' = 0"
  using assms
proof (induction k arbitrary: cs e)
  case (Suc k)
  note own = cb_step_own [OF Suc.prems(1), of cfg now Success]
  show ?case
  proof (cases "k = 0")
    case True
    with own Suc.prems show ?thesis
      by (simp add: successEntry_def)
  next
    case False
    with Suc.prems have "ce_state (successEntry cfg e) = HalfOpen"
      "successes (successEntry cfg e) = successes e + 1"
      by (auto simp: successEntry_def Let_def)
    with Suc.IH [OF own] Suc.prems False show ?thesis by simp
  qed
qed simp

section \<open>The abstract circuit\<close>

text \<open>
  What the component promises, without the bookkeeping fields that do not matter in a state:
  closed with a failure count, open since a time, or half-open with slots in use and
  successes seen.
\<close>

datatype abs_circuit = AClosed int | AOpen time | AHalf int int

definition abs_entry :: "CircuitEntry \<Rightarrow> abs_circuit" where
  "abs_entry e = (case ce_state e of
      Closed \<Rightarrow> AClosed (failures e)
    | Open \<Rightarrow> AOpen (lastFailureTime e)
    | HalfOpen \<Rightarrow> AHalf (halfOpenProbes e) (successes e))"

fun spec_step :: "CircuitBreakerConfig \<Rightarrow> time \<times> cb_event \<Rightarrow> abs_circuit \<Rightarrow> abs_circuit" where
  "spec_step cfg (now, Attempt) (AClosed f) = AClosed f"
| "spec_step cfg (now, Attempt) (AOpen t) =
     (if t + resetTimeoutMs cfg \<le> now then AHalf 1 0 else AOpen t)"
| "spec_step cfg (now, Attempt) (AHalf p s) =
     (if p < successThreshold cfg then AHalf (p + 1) s else AHalf p s)"
| "spec_step cfg (now, Success) (AClosed f) = AClosed 0"
| "spec_step cfg (now, Success) (AOpen t) = AOpen t"
| "spec_step cfg (now, Success) (AHalf p s) =
     (if successThreshold cfg \<le> s + 1 then AClosed 0 else AHalf (max 0 (p - 1)) (s + 1))"
| "spec_step cfg (now, Failure) (AClosed f) =
     (if failureThreshold cfg \<le> f + 1 then AOpen now else AClosed (f + 1))"
| "spec_step cfg (now, Failure) (AOpen t) = AOpen now"
| "spec_step cfg (now, Failure) (AHalf p s) = AOpen now"

fun spec_admits :: "CircuitBreakerConfig \<Rightarrow> time \<Rightarrow> abs_circuit \<Rightarrow> bool" where
  "spec_admits cfg now (AClosed f) = True"
| "spec_admits cfg now (AOpen t) = (t + resetTimeoutMs cfg \<le> now)"
| "spec_admits cfg now (AHalf p s) = (p < successThreshold cfg)"

lemma entry_refines: "abs_entry (entry_step cfg (now, ev) e) = spec_step cfg (now, ev) (abs_entry e)"
  by (cases ev; cases "ce_state e") (auto simp: abs_entry_def entry_defs)

lemma attempt_refines: "fst (attemptEntry cfg now e) = spec_admits cfg now (abs_entry e)"
  by (cases "ce_state e") (auto simp: abs_entry_def entry_defs)

text \<open>The events of one backend in a run over all backends.\<close>

definition events_of :: "string \<Rightarrow> (string \<times> time \<times> cb_event) list \<Rightarrow> (time \<times> cb_event) list" where
  "events_of n evs = map snd (filter (\<lambda>ev. fst ev = n) evs)"

lemma run_refines:
  assumes "mget cs n = Some e"
  shows "map_option abs_entry (mget (cb_run cfg cs evs) n)
         = Some (fold (spec_step cfg) (events_of n evs) (abs_entry e))"
  using assms
proof (induction evs arbitrary: cs e)
  case (Cons x evs)
  obtain m now ev where x: "x = (m, now, ev)" by (cases x)
  show ?case
  proof (cases "m = n")
    case True
    from Cons.IH [OF cb_step_own [OF Cons.prems, of cfg now ev]]
    show ?thesis by (simp add: x True events_of_def entry_refines)
  next
    case False
    with Cons show ?thesis by (simp add: x events_of_def cb_step_other)
  qed
qed (simp add: events_of_def)

section \<open>What a client relies on\<close>

text \<open>
  A client asks the breaker about one backend at a time. What it relies on is that each backend has
  an entry of its own: an event at one backend changes no other entry, and what an event does to an
  entry and whether a call is admitted is decided by that entry.
\<close>

locale per_backend =
  fixes look :: "'s \<Rightarrow> string \<Rightarrow> 'e option"
    and step :: "'s \<Rightarrow> string \<times> time \<times> cb_event \<Rightarrow> 's"
    and admits :: "'s \<Rightarrow> string \<Rightarrow> time \<Rightarrow> bool"
  assumes other: "m \<noteq> n \<Longrightarrow> look (step s (m, t, ev)) n = look s n"
    and own: "look s n = look s' n \<Longrightarrow> look (step s (n, t, ev)) n = look (step s' (n, t, ev)) n"
    and decided: "look s n = look s' n \<Longrightarrow> admits s n t = admits s' n t"
begin

definition steps :: "'s \<Rightarrow> (string \<times> time \<times> cb_event) list \<Rightarrow> 's" where
  "steps s evs = fold (\<lambda>ev s. step s ev) evs s"

lemma steps_other: "n \<notin> fst ` set evs \<Longrightarrow> look (steps s evs) n = look s n"
proof (induction evs arbitrary: s)
  case (Cons ev evs)
  obtain m t e where ev: "ev = (m, t, e)" by (cases ev) auto
  with Cons.prems have "m \<noteq> n" by auto
  with Cons.IH [of "step s ev"] Cons.prems ev other [of m n s t e] show ?case by (simp add: steps_def)
qed (simp add: steps_def)

lemma steps_own:
  assumes "look s n = look s' n"
  shows "look (steps s evs) n = look (steps s' (filter (\<lambda>ev. fst ev = n) evs)) n"
  using assms
proof (induction evs arbitrary: s s')
  case (Cons ev evs)
  obtain m t e where ev: "ev = (m, t, e)" by (cases ev) auto
  show ?case
  proof (cases "m = n")
    case True
    with Cons.IH [of "step s ev" "step s' ev"] own [of s n s' t e] Cons.prems ev show ?thesis
      by (simp add: steps_def)
  next
    case False
    with Cons.IH [of "step s ev" s'] other [of m n s t e] Cons.prems ev show ?thesis
      by (simp add: steps_def)
  qed
qed (simp add: steps_def)

lemma admission_undisturbed: "n \<notin> fst ` set evs \<Longrightarrow> admits (steps s evs) n t = admits s n t"
  by (rule decided) (rule steps_other)

end

lemma cb_step_local:
  "mget cs n = mget cs' n \<Longrightarrow> mget (cb_step cfg cs (n, t, ev)) n = mget (cb_step cfg cs' (n, t, ev)) n"
  by (cases ev)
     (simp_all add: shouldAttempt_def recordSuccess_def recordFailure_def split: prod.split option.split)

interpretation breaker: per_backend mget "cb_step cfg" "\<lambda>cs n t. fst (shouldAttempt cfg t cs n)" for cfg
proof unfold_locales
  show "fst (shouldAttempt cfg t cs n) = fst (shouldAttempt cfg t cs' n)" if "mget cs n = mget cs' n"
    for cs n cs' t
    using that by (simp add: shouldAttempt_def split: prod.split option.split)
qed (rule cb_step_other, assumption, rule cb_step_local, assumption)

lemma cb_run_steps: "cb_run cfg cs evs = breaker.steps cfg cs evs"
  by (induction evs arbitrary: cs) (simp_all add: breaker.steps_def)

lemma cb_run_append: "cb_run cfg cs (evs @ evs') = cb_run cfg (cb_run cfg cs evs) evs'"
  by (simp add: cb_run_steps breaker.steps_def)

lemma cb_run_other: "n \<notin> fst ` set evs \<Longrightarrow> mget (cb_run cfg cs evs) n = mget cs n"
  unfolding cb_run_steps by (rule breaker.steps_other)

lemma shouldAttempt_undisturbed:
  "n \<notin> fst ` set evs \<Longrightarrow> fst (shouldAttempt cfg t (cb_run cfg cs evs) n) = fst (shouldAttempt cfg t cs n)"
  unfolding cb_run_steps by (rule breaker.admission_undisturbed)

section \<open>Properties\<close>

text \<open>
  C9. While a circuit is open and the reset timeout since the last failure has not elapsed,
  no call to that backend is let through, whatever else happens: late failures and successes
  of earlier calls, and any events of other backends, in any order.
\<close>

theorem open_circuit_blocks:
  assumes "mget cs n = Some e" "ce_state e = Open"
    and "\<forall>(m, now, ev) \<in> set evs.
           m = n \<longrightarrow> lastFailureTime e \<le> now \<and> now < lastFailureTime e + resetTimeoutMs cfg"
  shows "cb_admitted cfg n cs evs = 0"
  using open_run [OF assms(1,2) order_refl assms(3)] by simp

theorem open_circuit_blocks_witness:
  "cb_admitted DEFAULT_CONFIG ''koios''
     [(''koios'', \<lparr>ce_state = Open, failures = 5, successes = 0, lastFailureTime = 1000, halfOpenProbes = 0\<rparr>)]
     [(''koios'', 2000, Attempt), (''ogmios'', 2500, Attempt), (''koios'', 3000, Failure),
      (''koios'', 30999, Attempt)] = 0"
  by (rule open_circuit_blocks [where e = "\<lparr>ce_state = Open, failures = 5, successes = 0, lastFailureTime = 1000, halfOpenProbes = 0\<rparr>"]) (simp_all add: mget_def DEFAULT_CONFIG_def)

text \<open>
  A half-open circuit lets through at most twice the success threshold minus one calls
  before it either closes or reopens, however many requests arrive at once.
\<close>

theorem half_open_probe_bound:
  assumes "mget cs n = Some e" "ce_state e = Open" "1 \<le> successThreshold cfg"
    and "lastFailureTime e + resetTimeoutMs cfg \<le> now"
    and "stays_half_open cfg n (cb_step cfg cs (n, now, Attempt)) evs"
  shows "cb_admitted cfg n cs ((n, now, Attempt) # evs) \<le> 2 * successThreshold cfg - 1"
proof -
  let ?e = "entry_step cfg (now, Attempt) e"
  have "half_open_budget cfg 1 ?e"
    using assms by (auto simp: half_open_budget_def attemptEntry_def)
  from half_open_run [OF cb_step_own [OF assms(1)] this assms(5)] show ?thesis
    using assms by (simp add: cb_admits_own [OF assms(1)] attemptEntry_def del: cb_admits.simps cb_step.simps)
qed

theorem half_open_probe_bound_witness:
  "cb_admitted DEFAULT_CONFIG ''koios''
     [(''koios'', \<lparr>ce_state = Open, failures = 5, successes = 0, lastFailureTime = 1000, halfOpenProbes = 0\<rparr>)]
     [(''koios'', 31000, Attempt), (''koios'', 31001, Attempt), (''koios'', 31002, Success),
      (''koios'', 31003, Attempt), (''koios'', 31004, Attempt)] \<le> 3"
  using half_open_probe_bound [of
     "[(''koios'', \<lparr>ce_state = Open, failures = 5, successes = 0, lastFailureTime = 1000, halfOpenProbes = 0\<rparr>)]"
     "''koios''" "\<lparr>ce_state = Open, failures = 5, successes = 0, lastFailureTime = 1000, halfOpenProbes = 0\<rparr>"
     DEFAULT_CONFIG 31000
     "[(''koios'', 31001, Attempt), (''koios'', 31002, Success), (''koios'', 31003, Attempt), (''koios'', 31004, Attempt)]"]
  by (simp add: mget_def mput_def upsert_def DEFAULT_CONFIG_def shouldAttempt_def attemptEntry_def
      recordSuccess_def successEntry_def)



text \<open>
  C36. Recovery: once the reset timeout has elapsed, one admitted probe and as many successes
  as the success threshold close the circuit again and clear its failure count.
\<close>

theorem circuit_recovers:
  assumes "mget cs n = Some e" "ce_state e = Open" "1 \<le> successThreshold cfg"
    and "lastFailureTime e + resetTimeoutMs cfg \<le> now"
  shows "\<exists>e'. mget (cb_run cfg cs ((n, now, Attempt) # replicate (nat (successThreshold cfg)) (n, now, Success))) n
                = Some e' \<and> ce_state e' = Closed \<and> failures e' = 0"
proof -
  note own = cb_step_own [OF assms(1), of cfg now Attempt]
  have "ce_state (entry_step cfg (now, Attempt) e) = HalfOpen" "successes (entry_step cfg (now, Attempt) e) = 0"
    using assms by (auto simp: attemptEntry_def)
  with success_streak [OF own] assms(3) show ?thesis by simp
qed

theorem circuit_recovers_witness:
  "\<exists>e'. mget (cb_run DEFAULT_CONFIG
       [(''k'', \<lparr>ce_state = Open, failures = 7, successes = 0, lastFailureTime = 0, halfOpenProbes = 0\<rparr>)]
       ((''k'', 30000, Attempt) # replicate (nat (successThreshold DEFAULT_CONFIG)) (''k'', 30000, Success))) ''k''
     = Some e' \<and> ce_state e' = Closed \<and> failures e' = 0"
  by (rule circuit_recovers [where e = "\<lparr>ce_state = Open, failures = 7, successes = 0, lastFailureTime = 0, halfOpenProbes = 0\<rparr>"]) (simp_all add: mget_def DEFAULT_CONFIG_def)

end
