(* ===== verification/RateLimiter.thy ===== *)
theory RateLimiter imports Prelude "HOL-Library.Multiset" begin

text \<open>
  The in-memory sliding-window rate limiter of \<open>srv/utils/rate-limiter.ts\<close>: keys
  \<open>principal:scope\<close>, one list of hit times per key in a map ordered by last use, and a count of
  tracked keys per principal. \<open>Date.now()\<close> is an argument; the background timer is the
  operation \<open>sweep\<close>.
\<close>

section \<open>The code\<close>

record RateLimiterOptions =
  opt_windowMs :: int
  opt_maxRequests :: int
  opt_maxKeys :: "int option"
  opt_maxKeysPerGroup :: "int option"

text \<open>A JavaScript number that may be \<open>Infinity\<close>: \<open>Math.min()\<close> of no arguments.\<close>

datatype js_num = Fin int | PosInf

record RateCheckResult =
  allowed :: bool
  retryAfterMs :: js_num

record RateLimiter =
  windowMs :: int
  maxRequests :: int
  maxKeys :: int
  maxKeysPerGroup :: int
  groupCounts :: "(string, int) jmap"
  hits :: "(string, time list) jmap"

definition groupOf :: "string \<Rightarrow> string" where
  "groupOf key = takeWhile (\<lambda>c. c \<noteq> CHR '':'') key"

record rate_request =
  rq_user_id :: "string option"
  rq_cap_ip :: "string option"
  rq_http_ip :: "string option"
  rq_ip :: "string option"

definition principalRateKey :: "rate_request \<Rightarrow> string \<Rightarrow> string" where
  "principalRateKey r scope =
     (let user = rq_user_id r;
          ip = orElse (rq_cap_ip r) (orElse (rq_http_ip r) (rq_ip r));
          principal =
            (if truthy user then ''user='' @ the user
             else if truthy ip then ''ip='' @ map (\<lambda>c. if c = CHR '':'' then CHR ''.'' else c) (the ip)
             else ''anonymous'')
      in principal @ '':'' @ scope)"

text \<open>\<open>v || d\<close> for a number: absent and zero take the default.\<close>

definition orDefault :: "int option \<Rightarrow> int \<Rightarrow> int" where
  "orDefault v d = (case v of None \<Rightarrow> d | Some n \<Rightarrow> if n = 0 then d else n)"

definition newRateLimiter :: "RateLimiterOptions \<Rightarrow> RateLimiter" where
  "newRateLimiter opts =
     \<lparr>windowMs = opt_windowMs opts, maxRequests = opt_maxRequests opts,
      maxKeys = orDefault (opt_maxKeys opts) 10000,
      maxKeysPerGroup = orDefault (opt_maxKeysPerGroup opts) 64,
      groupCounts = [], hits = []\<rparr>"

definition peek :: "RateLimiter \<Rightarrow> time \<Rightarrow> string \<Rightarrow> RateCheckResult" where
  "peek rl now key =
     (let inWindow = filter (\<lambda>t. t > now - windowMs rl) (nullish (mget (hits rl) key) []) in
      if int (length inWindow) < maxRequests rl then \<lparr>allowed = True, retryAfterMs = Fin 0\<rparr>
      else (case inWindow of
              [] \<Rightarrow> \<lparr>allowed = False, retryAfterMs = PosInf\<rparr>
            | t # ts \<Rightarrow>
                (let oldest = Min (set (t # ts)) in
                 \<lparr>allowed = False, retryAfterMs = Fin (max (oldest + windowMs rl - now) 0)\<rparr>)))"

definition resetLimiter :: "RateLimiter \<Rightarrow> RateLimiter" where
  "resetLimiter rl = rl\<lparr>hits := [], groupCounts := []\<rparr>"

definition dropKey :: "RateLimiter \<Rightarrow> string \<Rightarrow> RateLimiter" where
  "dropKey rl key =
     (if \<not> mhas (hits rl) key then rl
      else
        (let rl1 = rl\<lparr>hits := mdel (hits rl) key\<rparr>;
             group = groupOf key;
             n = nullish (mget (groupCounts rl1) group) 1 - 1
         in if n \<le> 0 then rl1\<lparr>groupCounts := mdel (groupCounts rl1) group\<rparr>
            else rl1\<lparr>groupCounts := mput (groupCounts rl1) group n\<rparr>))"

text \<open>
  The first half of \<open>checkMany\<close>, for a key that is not tracked: refused when its principal
  has too many keys (\<open>None\<close>), otherwise room is made and the principal's count goes up.
\<close>

definition admitKey :: "RateLimiter \<Rightarrow> string \<Rightarrow> RateLimiter option" where
  "admitKey rl key =
     (if mhas (hits rl) key then Some rl
      else
        (let group = groupOf key in
         if nullish (mget (groupCounts rl) group) 0 \<ge> maxKeysPerGroup rl then None
         else
           (let rl1 = (if int (length (hits rl)) \<ge> maxKeys rl
                       then (case mkeys (hits rl) of [] \<Rightarrow> rl | oldest # _ \<Rightarrow> dropKey rl oldest)
                       else rl)
            in Some (rl1\<lparr>groupCounts :=
                 mput (groupCounts rl1) group (nullish (mget (groupCounts rl1) group) 0 + 1)\<rparr>))))"

definition checkMany :: "RateLimiter \<Rightarrow> time \<Rightarrow> string \<Rightarrow> int \<Rightarrow> RateCheckResult \<times> RateLimiter" where
  "checkMany rl now key cnt =
     (if cnt \<le> 0 then (\<lparr>allowed = True, retryAfterMs = Fin 0\<rparr>, rl)
      else
        (let windowStart = now - windowMs rl in
         case admitKey rl key of
           None \<Rightarrow> (\<lparr>allowed = False, retryAfterMs = Fin (windowMs rl)\<rparr>, rl)
         | Some rl1 \<Rightarrow>
             (let timestamps = filter (\<lambda>t. t > windowStart) (nullish (mget (hits rl1) key) []);
                  rest = mdel (hits rl1) key
              in if int (length timestamps) + cnt > maxRequests rl1
                 then
                   (let sorted_ts = sort timestamps;
                        retry = (case sorted_ts of [] \<Rightarrow> windowMs rl1
                                 | oldest # _ \<Rightarrow> oldest + windowMs rl1 - now)
                    in (\<lparr>allowed = False, retryAfterMs = Fin (max retry 0)\<rparr>,
                        rl1\<lparr>hits := mput rest key sorted_ts\<rparr>))
                 else (\<lparr>allowed = True, retryAfterMs = Fin 0\<rparr>,
                       rl1\<lparr>hits := mput rest key (timestamps @ replicate (nat cnt) now)\<rparr>))))"

definition check :: "RateLimiter \<Rightarrow> time \<Rightarrow> string \<Rightarrow> RateCheckResult \<times> RateLimiter" where
  "check rl now key = checkMany rl now key 1"

definition sweep :: "RateLimiter \<Rightarrow> time \<Rightarrow> RateLimiter" where
  "sweep rl now =
     (let windowStart = now - windowMs rl in
      fold (\<lambda>(key, timestamps) acc.
              if \<not> list_ex (\<lambda>t. t > windowStart) timestamps then dropKey acc key else acc)
           (hits rl) rl)"

datatype rl_op = Check string int | Sweep | Reset

fun rl_step :: "RateLimiter \<Rightarrow> time \<times> rl_op \<Rightarrow> RateLimiter" where
  "rl_step rl (now, Check key cnt) = snd (checkMany rl now key cnt)"
| "rl_step rl (now, Sweep) = sweep rl now"
| "rl_step rl (now, Reset) = resetLimiter rl"

section \<open>The key tables agree\<close>

definition group_size :: "(string, time list) jmap \<Rightarrow> string \<Rightarrow> int" where
  "group_size h g = int (length (filter (\<lambda>k. groupOf k = g) (mkeys h)))"

definition rl_wf :: "RateLimiter \<Rightarrow> bool" where
  "rl_wf rl \<longleftrightarrow>
     jmap_wf (hits rl) \<and> jmap_wf (groupCounts rl)
     \<and> (\<forall>g. nullish (mget (groupCounts rl) g) 0 = group_size (hits rl) g)
     \<and> (\<forall>g. mget (groupCounts rl) g \<noteq> Some 0)
     \<and> (\<forall>g. group_size (hits rl) g \<le> maxKeysPerGroup rl)
     \<and> int (length (hits rl)) \<le> maxKeys rl"

lemma group_size_mdel:
  assumes "jmap_wf h" "mhas h k"
  shows "group_size (mdel h k) g = group_size h g - (if groupOf k = g then 1 else 0)"
  using assms unfolding jmap_wf_def mhas_def
proof (induction h)
  case (Cons x h)
  have "fst x = k \<Longrightarrow> filter (\<lambda>p. fst p \<noteq> k) h = h"
    using Cons.prems by (simp add: filter_other_key)
  with Cons show ?case
    by (cases "fst x = k") (auto simp: group_size_def mkeys_def mdel_def)
qed simp

lemma length_mdel:
  "jmap_wf h \<Longrightarrow> mhas h k \<Longrightarrow> Suc (length (mdel h k)) = length h"
  unfolding jmap_wf_def mhas_def
proof (induction h)
  case (Cons x h)
  have "fst x = k \<Longrightarrow> filter (\<lambda>p. fst p \<noteq> k) h = h"
    using Cons.prems by (simp add: filter_other_key)
  with Cons show ?case by (cases "fst x = k") (auto simp: mdel_def)
qed simp

lemma mdel_absent: "\<not> mhas h k \<Longrightarrow> mdel h k = h"
  by (auto simp: mdel_def mhas_def filter_id_conv)

lemma mput_fresh: "\<not> mhas h k \<Longrightarrow> mput h k v = h @ [(k, v)]"
  by (auto simp: mput_def mhas_def upsert_def)

lemma mhas_mdel [simp]: "\<not> mhas (mdel h k) k"
  by (simp add: mhas_iff)

lemma group_size_reinsert:
  assumes "jmap_wf h"
  shows "group_size (mput (mdel h k) k v) g
           = group_size h g + (if \<not> mhas h k \<and> groupOf k = g then 1 else 0)"
  using group_size_mdel [OF assms, of k g]
  by (cases "mhas h k") (simp_all add: mput_fresh mdel_absent, simp_all add: group_size_def mkeys_def)

lemma length_reinsert:
  "jmap_wf h \<Longrightarrow> length (mput (mdel h k) k v) = length h + (if mhas h k then 0 else 1)"
  using length_mdel [of h k] by (cases "mhas h k") (simp_all add: mput_fresh mdel_absent)

lemma nonneg_group_size [simp]: "0 \<le> group_size h g"
  by (simp add: group_size_def)

lemma dropKey_wf: "rl_wf rl \<Longrightarrow> rl_wf (dropKey rl key)"
proof (cases "mhas (hits rl) key")
  case True
  assume wf: "rl_wf rl"
  let ?g = "groupOf key" and ?h = "mdel (hits rl) key"
  from wf have wfh: "jmap_wf (hits rl)" and cnt: "\<And>g. nullish (mget (groupCounts rl) g) 0 = group_size (hits rl) g"
    by (auto simp: rl_wf_def)
  note gs = group_size_mdel [OF wfh True]
  have pos: "1 \<le> group_size (hits rl) ?g"
    using gs [of ?g] nonneg_group_size [of ?h ?g] by simp
  then obtain c where c: "mget (groupCounts rl) ?g = Some c" "c = group_size (hits rl) ?g"
    using cnt [of ?g] by (cases "mget (groupCounts rl) ?g") auto
  have "nullish (mget (groupCounts (dropKey rl key)) g) 0 = group_size ?h g
      \<and> mget (groupCounts (dropKey rl key)) g \<noteq> Some 0" for g
    using wf c pos cnt [of g] by (auto simp: dropKey_def True Let_def gs rl_wf_def)
  moreover have "hits (dropKey rl key) = ?h" "jmap_wf (groupCounts (dropKey rl key))"
    using wf by (auto simp: dropKey_def True Let_def rl_wf_def)
  moreover have "group_size ?h g \<le> maxKeysPerGroup rl" for g
    using wf by (auto simp: gs rl_wf_def) (smt (verit))
  moreover have "maxKeysPerGroup (dropKey rl key) = maxKeysPerGroup rl" "maxKeys (dropKey rl key) = maxKeys rl"
    by (simp_all add: dropKey_def Let_def)
  ultimately show ?thesis
    using wf length_mdel [OF wfh True] by (simp add: rl_wf_def jmap_wf_mdel)
next
  case False
  assume "rl_wf rl"
  then show ?thesis by (simp add: dropKey_def False)
qed

lemma dropKey_conf [simp]:
  "windowMs (dropKey rl k) = windowMs rl" "maxRequests (dropKey rl k) = maxRequests rl"
  "maxKeys (dropKey rl k) = maxKeys rl" "maxKeysPerGroup (dropKey rl k) = maxKeysPerGroup rl"
  "hits (dropKey rl k) = mdel (hits rl) k"
  by (simp_all add: dropKey_def Let_def mdel_absent)

text \<open>What \<open>admitKey\<close> leaves behind: the tables agree once the key itself is put in.\<close>

lemma admitKey_wf:
  assumes wf: "rl_wf rl" and adm: "admitKey rl key = Some rl1" and mk: "1 \<le> maxKeys rl"
  shows "rl_wf (rl1\<lparr>hits := mput (mdel (hits rl1) key) key ts\<rparr>)"
proof (cases "mhas (hits rl) key")
  case True
  with adm have "rl1 = rl" by (simp add: admitKey_def)
  with wf True show ?thesis
    by (simp add: rl_wf_def group_size_reinsert length_reinsert jmap_wf_mput jmap_wf_mdel)
next
  case False
  let ?g = "groupOf key"
  define rl0 where "rl0 = (if int (length (hits rl)) \<ge> maxKeys rl
      then (case mkeys (hits rl) of [] \<Rightarrow> rl | oldest # _ \<Rightarrow> dropKey rl oldest) else rl)"
  have room: "nullish (mget (groupCounts rl) ?g) 0 < maxKeysPerGroup rl"
    and rl1: "rl1 = rl0\<lparr>groupCounts := mput (groupCounts rl0) ?g (nullish (mget (groupCounts rl0) ?g) 0 + 1)\<rparr>"
    using adm False by (auto simp: admitKey_def Let_def rl0_def split: if_splits)
  have wf0: "rl_wf rl0"
    using wf by (auto simp: rl0_def dropKey_wf split: list.split)
  have keys0: "mget (hits rl0) key = None" "maxKeysPerGroup rl0 = maxKeysPerGroup rl" "maxKeys rl0 = maxKeys rl"
    using False by (auto simp: rl0_def mhas_iff split: list.split)
  have "group_size (hits rl0) ?g \<le> group_size (hits rl) ?g"
    using wf by (auto simp: rl0_def group_size_mdel rl_wf_def mhas_def mkeys_def split: list.split)
  then have g0: "group_size (hits rl0) ?g < maxKeysPerGroup rl"
    using room wf by (simp add: rl_wf_def)
  have len0: "int (length (hits rl0)) < maxKeys rl"
    using wf mk length_mdel [of "hits rl" "hd (mkeys (hits rl))"]
    by (auto simp: rl0_def rl_wf_def mkeys_def mhas_def split: list.split)
  have nokey: "\<not> mhas (hits rl0) key" using keys0 by (simp add: mhas_iff)
  from wf0 have c0: "\<And>g. nullish (mget (groupCounts rl0) g) 0 = group_size (hits rl0) g"
    and n0: "\<And>g. mget (groupCounts rl0) g \<noteq> Some 0" and w0: "jmap_wf (hits rl0)" "jmap_wf (groupCounts rl0)"
    and m0: "\<And>g. group_size (hits rl0) g \<le> maxKeysPerGroup rl0"
    by (auto simp: rl_wf_def)
  have "group_size (hits rl0) ?g + 1 \<noteq> 0"
    using nonneg_group_size [of "hits rl0" ?g] by linarith
  then show ?thesis
    unfolding rl_wf_def
    using w0 c0 n0 m0 g0 len0 nokey keys0(2,3)
    by (auto simp: rl1 group_size_reinsert length_reinsert jmap_wf_mput jmap_wf_mdel)
qed

lemma admitKey_conf:
  "admitKey rl key = Some rl1 \<Longrightarrow> windowMs rl1 = windowMs rl \<and> maxRequests rl1 = maxRequests rl
     \<and> maxKeys rl1 = maxKeys rl \<and> maxKeysPerGroup rl1 = maxKeysPerGroup rl"
  by (auto simp: admitKey_def Let_def split: if_splits list.splits)

lemma checkMany_conf [simp]:
  "windowMs (snd (checkMany rl now k c)) = windowMs rl" "maxRequests (snd (checkMany rl now k c)) = maxRequests rl"
  "maxKeys (snd (checkMany rl now k c)) = maxKeys rl"
  "maxKeysPerGroup (snd (checkMany rl now k c)) = maxKeysPerGroup rl"
  by (auto simp: checkMany_def Let_def admitKey_conf split: option.split)

lemma checkMany_wf:
  assumes "rl_wf rl" "1 \<le> maxKeys rl"
  shows "rl_wf (snd (checkMany rl now key cnt))"
  using assms by (auto simp: checkMany_def Let_def intro: admitKey_wf split: option.split)

definition same_conf :: "RateLimiter \<Rightarrow> RateLimiter \<Rightarrow> bool" where
  "same_conf a b \<longleftrightarrow> windowMs a = windowMs b \<and> maxRequests a = maxRequests b
     \<and> maxKeys a = maxKeys b \<and> maxKeysPerGroup a = maxKeysPerGroup b"

lemma sweep_fold:
  "rl_wf rl \<Longrightarrow>
   rl_wf (fold (\<lambda>(key, ts) acc. if \<not> list_ex P ts then dropKey acc key else acc) xs rl)
   \<and> same_conf (fold (\<lambda>(key, ts) acc. if \<not> list_ex P ts then dropKey acc key else acc) xs rl) rl
   \<and> hits (fold (\<lambda>(key, ts) acc. if \<not> list_ex P ts then dropKey acc key else acc) xs rl)
      = fold (\<lambda>(key, ts) acc. if \<not> list_ex P ts then mdel acc key else acc) xs (hits rl)"
proof (induction xs arbitrary: rl)
  case (Cons x xs)
  obtain k ts where x: "x = (k, ts)" by (cases x)
  from Cons.IH [OF Cons.prems] Cons.IH [OF dropKey_wf [OF Cons.prems], of k]
  show ?case by (cases "list_ex P ts") (simp_all add: x same_conf_def)
qed (simp add: same_conf_def)

lemma sweep_hits: "rl_wf rl \<Longrightarrow> hits (sweep rl now) = mprune (\<lambda>_ ts. \<not> list_ex (\<lambda>t. t > now - windowMs rl) ts) (hits rl)"
  using sweep_fold [of rl "\<lambda>t. t > now - windowMs rl" "hits rl"] by (simp add: sweep_def Let_def mprune_def)

lemma sweep_wf: "rl_wf rl \<Longrightarrow> rl_wf (sweep rl now) \<and> same_conf (sweep rl now) rl"
  unfolding sweep_def Let_def using sweep_fold by blast

lemma rl_step_conf: "rl_wf rl \<Longrightarrow> same_conf (rl_step rl x) rl"
  by (cases "(rl, x)" rule: rl_step.cases)
     (auto simp: sweep_wf same_conf_def resetLimiter_def dest: sweep_wf)

lemma rl_step_wf: "rl_wf rl \<Longrightarrow> 1 \<le> maxKeys rl \<Longrightarrow> 0 \<le> maxKeysPerGroup rl \<Longrightarrow> rl_wf (rl_step rl x)"
  by (cases "(rl, x)" rule: rl_step.cases)
     (auto simp: sweep_wf checkMany_wf, auto simp: rl_wf_def resetLimiter_def group_size_def mkeys_def)

lemma rl_run_wf:
  "rl_wf rl \<Longrightarrow> 1 \<le> maxKeys rl \<Longrightarrow> 0 \<le> maxKeysPerGroup rl \<Longrightarrow> rl_wf (fold (\<lambda>x rl. rl_step rl x) ops rl)"
proof (induction ops arbitrary: rl)
  case (Cons x ops)
  from rl_step_conf [OF Cons.prems(1), of x] Cons.prems rl_step_wf [OF Cons.prems, of x] Cons.IH
  show ?case by (simp add: same_conf_def)
qed simp

lemma newRateLimiter_wf:
  "1 \<le> maxKeys (newRateLimiter opts) \<Longrightarrow> 0 \<le> maxKeysPerGroup (newRateLimiter opts) \<Longrightarrow> rl_wf (newRateLimiter opts)"
  by (simp add: newRateLimiter_def rl_wf_def group_size_def mkeys_def)

section \<open>The window\<close>

text \<open>
  The hits a run grants to one key, as a log of times: what the limiter promises is about this
  log, which no operation forgets.
\<close>

fun granted :: "string \<Rightarrow> RateLimiter \<Rightarrow> time \<times> rl_op \<Rightarrow> time list" where
  "granted k rl (now, Check key cnt) =
     (if key = k \<and> allowed (fst (checkMany rl now key cnt)) then replicate (nat cnt) now else [])"
| "granted k rl _ = []"

fun grant_log :: "string \<Rightarrow> RateLimiter \<Rightarrow> (time \<times> rl_op) list \<Rightarrow> time list" where
  "grant_log k rl [] = []"
| "grant_log k rl (x # xs) = granted k rl x @ grant_log k (rl_step rl x) xs"

definition in_window :: "int \<Rightarrow> time \<Rightarrow> time list \<Rightarrow> int" where
  "in_window w t ts = int (length (filter (\<lambda>h. t - w < h \<and> h \<le> t) ts))"

fun op_key :: "rl_op \<Rightarrow> string set" where
  "op_key (Check k c) = {k}"
| "op_key _ = {}"

definition recent :: "RateLimiter \<Rightarrow> string \<Rightarrow> time \<Rightarrow> time list" where
  "recent rl k now = filter (\<lambda>h. now - windowMs rl < h) (nullish (mget (hits rl) k) [])"

text \<open>The link between the log so far and the state, for a run over few enough keys.\<close>

definition log_inv :: "string set \<Rightarrow> string \<Rightarrow> time list \<Rightarrow> time \<Rightarrow> RateLimiter \<Rightarrow> bool" where
  "log_inv K k log now rl \<longleftrightarrow>
     rl_wf rl \<and> finite K \<and> int (card K) \<le> maxKeys rl \<and> set (mkeys (hits rl)) \<subseteq> K
     \<and> (\<forall>h \<in> set log. h \<le> now)
     \<and> mset (filter (\<lambda>h. now - windowMs rl < h) log) = mset (recent rl k now)
     \<and> (\<forall>t. in_window (windowMs rl) t log \<le> maxRequests rl)"

lemma mset_filter_later:
  "mset (filter (\<lambda>h. a < h) xs) = mset (filter (\<lambda>h. a < h) ys) \<Longrightarrow> a \<le> (b :: int)
   \<Longrightarrow> mset (filter (\<lambda>h. b < h) xs) = mset (filter (\<lambda>h. b < h) ys)"
proof -
  assume eq: "mset (filter (\<lambda>h. a < h) xs) = mset (filter (\<lambda>h. a < h) ys)" and ab: "a \<le> b"
  have "mset (filter (\<lambda>h. b < h) zs) = filter_mset (\<lambda>h. b < h) (mset (filter (\<lambda>h. a < h) zs))" for zs
    by (rule multiset_eqI) (use ab in simp)
  with eq show ?thesis by metis
qed

lemma log_inv_later: "log_inv K k log now rl \<Longrightarrow> now \<le> now' \<Longrightarrow> log_inv K k log now' rl"
proof -
  assume inv: "log_inv K k log now rl" and le: "now \<le> now'"
  from inv have "mset (filter (\<lambda>h. now - windowMs rl < h) log) = mset (recent rl k now)"
    unfolding log_inv_def by blast
  then have "mset (filter (\<lambda>h. now' - windowMs rl < h) log) = mset (recent rl k now')"
    unfolding recent_def by (rule mset_filter_later) (use le in linarith)
  moreover have "\<forall>h \<in> set log. h \<le> now'" using inv le by (auto simp: log_inv_def)
  ultimately show ?thesis using inv unfolding log_inv_def by blast
qed

text \<open>No key is evicted while the run's keys fit: the new key finds room.\<close>

lemma admit_keeps:
  assumes "log_inv K k log now rl" "key \<in> K" "admitKey rl key = Some rl1"
  shows "hits rl1 = hits rl"
proof (cases "mhas (hits rl) key")
  case False
  from assms have fin: "finite K" and sub: "set (mkeys (hits rl)) \<subseteq> K"
    and wf: "jmap_wf (hits rl)" and ck: "int (card K) \<le> maxKeys rl"
    by (auto simp: log_inv_def rl_wf_def)
  have "key \<notin> set (mkeys (hits rl))" using False by (simp add: mhas_def mkeys_def)
  then have "card (set (mkeys (hits rl))) < card K"
    using fin sub assms(2) by (auto intro!: psubset_card_mono)
  moreover have "card (set (mkeys (hits rl))) = length (hits rl)"
    using wf unfolding jmap_wf_def mkeys_def by (metis distinct_card length_map)
  ultimately have "\<not> int (length (hits rl)) \<ge> maxKeys rl" using ck by linarith
  with assms(3) False show ?thesis by (auto simp: admitKey_def Let_def split: if_splits)
next
  case True
  with assms(3) show ?thesis by (simp add: admitKey_def)
qed

lemma reinsert_keys: "set (mkeys (mput (mdel h k) k v)) = insert k (set (mkeys h))"
  by (simp add: mput_fresh) (auto simp: mkeys_def mdel_def)

text \<open>The two outcomes of a counted check, with the state they leave.\<close>

lemma checkMany_cases:
  assumes "0 < cnt"
  obtains (refused) "admitKey rl key = None" "\<not> allowed (fst (checkMany rl now key cnt))"
      "snd (checkMany rl now key cnt) = rl"
  | (full) rl1 where "admitKey rl key = Some rl1" "\<not> allowed (fst (checkMany rl now key cnt))"
      "maxRequests rl1 < int (length (recent rl1 key now)) + cnt"
      "snd (checkMany rl now key cnt) = rl1\<lparr>hits := mput (mdel (hits rl1) key) key (sort (recent rl1 key now))\<rparr>"
  | (fits) rl1 where "admitKey rl key = Some rl1" "allowed (fst (checkMany rl now key cnt))"
      "int (length (recent rl1 key now)) + cnt \<le> maxRequests rl1"
      "snd (checkMany rl now key cnt)
         = rl1\<lparr>hits := mput (mdel (hits rl1) key) key (recent rl1 key now @ replicate (nat cnt) now)\<rparr>"
proof (cases "admitKey rl key")
  case None
  with assms refused show ?thesis by (simp add: checkMany_def Let_def)
next
  case (Some rl1)
  have w: "windowMs rl1 = windowMs rl" using admitKey_conf [OF Some] by simp
  show ?thesis
    using assms Some full [of rl1] fits [of rl1]
    by (cases "maxRequests rl1 < int (length (recent rl1 key now)) + cnt")
       (simp_all add: checkMany_def Let_def recent_def w)
qed

lemma window_append:
  "(\<forall>h \<in> set log. h \<le> now) \<Longrightarrow> in_window w t (log @ replicate n now) \<le>
     (if t < now then in_window w t log else int (length (filter (\<lambda>h. now - w < h) log)) + int n)"
proof -
  assume le: "\<forall>h \<in> set log. h \<le> now"
  show ?thesis
  proof (cases "t < now")
    case True
    then show ?thesis by (simp add: in_window_def)
  next
    case False
    have "length (filter (\<lambda>h. t - w < h \<and> h \<le> t) log) \<le> length (filter (\<lambda>h. now - w < h) log)"
      using False by (induction log) auto
    moreover have "length (filter (\<lambda>h. t - w < h \<and> h \<le> t) (replicate n now)) \<le> n"
      by (metis length_filter_le length_replicate)
    ultimately show ?thesis using False by (simp add: in_window_def)
  qed
qed

lemma log_inv_check:
  assumes inv: "log_inv K k log now rl" and key: "key \<in> K" and pos: "0 < cnt" and mk: "1 \<le> maxKeys rl"
  shows "log_inv K k (log @ granted k rl (now, Check key cnt)) now (snd (checkMany rl now key cnt))"
proof -
  from inv have eq: "mset (filter (\<lambda>h. now - windowMs rl < h) log) = mset (recent rl k now)"
    and le: "\<forall>h \<in> set log. h \<le> now" and win: "\<forall>t. in_window (windowMs rl) t log \<le> maxRequests rl"
    and wf: "rl_wf rl" by (auto simp: log_inv_def)
  show ?thesis
    using pos
  proof (cases rule: checkMany_cases [of cnt rl key now])
    case refused
    with inv show ?thesis by simp
  next
    case (full rl1)
    have h: "hits rl1 = hits rl" by (rule admit_keeps [OF inv key full(1)])
    note c = admitKey_conf [OF full(1)]
    have "rl_wf (snd (checkMany rl now key cnt))" by (rule checkMany_wf [OF wf mk])
    then show ?thesis
      using inv full c key unfolding log_inv_def
      by (simp add: h recent_def reinsert_keys filter_filter_mset)
  next
    case (fits rl1)
    have h: "hits rl1 = hits rl" by (rule admit_keeps [OF inv key fits(1)])
    note c = admitKey_conf [OF fits(1)]
    have wf': "rl_wf (snd (checkMany rl now key cnt))" by (rule checkMany_wf [OF wf mk])
    have len: "length (filter (\<lambda>h. now - windowMs rl < h) log) = length (recent rl k now)"
      using eq by (metis size_mset)
    have "in_window (windowMs rl) t (log @ granted k rl (now, Check key cnt)) \<le> maxRequests rl" for t
    proof (cases "key = k")
      case True
      from window_append [OF le, of "windowMs rl" t "nat cnt"] fits(2,3) c pos win len True
      show ?thesis by (auto simp: recent_def h split: if_splits) (smt (verit))
    qed (use win in simp)
    then show ?thesis
      using inv fits c key wf' eq unfolding log_inv_def
      by (auto simp: h recent_def reinsert_keys filter_filter_mset)
  qed
qed

lemma mprune_keys: "set (mkeys (mprune P h)) \<subseteq> set (mkeys h)"
  by (auto simp: mprune_def mprune_fold mkeys_def)

lemma log_inv_sweep:
  assumes inv: "log_inv K k log now rl"
  shows "log_inv K k log now (sweep rl now)"
proof -
  from inv have wf: "rl_wf rl" by (simp add: log_inv_def)
  from wf have jw: "jmap_wf (hits rl)" by (simp add: rl_wf_def)
  note sw = sweep_wf [OF wf, of now] and h = sweep_hits [OF wf, of now]
  have "recent (sweep rl now) k now = recent rl k now"
    using sw by (auto simp: recent_def h mget_mprune [OF jw] same_conf_def list_ex_iff filter_empty_conv
        split: option.split)
  then show ?thesis
    using inv sw mprune_keys [of _ "hits rl"] unfolding log_inv_def same_conf_def h by auto
qed

fun no_reset :: "rl_op \<Rightarrow> bool" where
  "no_reset Reset = False"
| "no_reset _ = True"

lemma log_inv_step:
  assumes inv: "log_inv K k log now rl" and key: "op_key (snd x) \<subseteq> K" and mono: "now \<le> fst x"
    and nr: "no_reset (snd x)" and mk: "1 \<le> maxKeys rl"
  shows "log_inv K k (log @ granted k rl x) (fst x) (rl_step rl x)"
proof -
  obtain t opn where x: "x = (t, opn)" by (cases x)
  note inv' = log_inv_later [OF inv mono]
  show ?thesis
  proof (cases opn)
    case (Check key cnt)
    show ?thesis
    proof (cases "0 < cnt")
      case True
      with log_inv_check [OF inv' _ True mk, of key] key Check x show ?thesis by simp
    next
      case False
      with inv' Check x show ?thesis by (simp add: checkMany_def)
    qed
  qed (use inv' log_inv_sweep nr x in simp_all)
qed

fun times_from :: "time \<Rightarrow> (time \<times> 'a) list \<Rightarrow> bool" where
  "times_from t [] = True"
| "times_from t (x # xs) = (t \<le> fst x \<and> times_from (fst x) xs)"

lemma grant_log_window:
  assumes "log_inv K k log now rl" "times_from now ops" "1 \<le> maxKeys rl"
    and "\<forall>x \<in> set ops. op_key (snd x) \<subseteq> K \<and> no_reset (snd x)"
  shows "in_window (windowMs rl) t (log @ grant_log k rl ops) \<le> maxRequests rl"
  using assms
proof (induction ops arbitrary: rl log now)
  case Nil
  then show ?case by (simp add: log_inv_def)
next
  case (Cons x ops)
  from Cons.prems(1) have wf: "rl_wf rl" by (simp add: log_inv_def)
  note conf = rl_step_conf [OF wf, of x, unfolded same_conf_def]
  from Cons.prems have "log_inv K k (log @ granted k rl x) (fst x) (rl_step rl x)"
    by (intro log_inv_step) auto
  from Cons.IH [OF this] Cons.prems conf show ?case by simp
qed

lemma new_log_inv:
  assumes "1 \<le> maxKeys (newRateLimiter opts)" "0 \<le> maxKeysPerGroup (newRateLimiter opts)"
    and "finite K" "int (card K) \<le> maxKeys (newRateLimiter opts)" "0 \<le> opt_maxRequests opts"
  shows "log_inv K k [] t (newRateLimiter opts)"
  using assms newRateLimiter_wf [OF assms(1,2)]
  by (simp add: log_inv_def newRateLimiter_def recent_def mkeys_def in_window_def)

section \<open>Properties\<close>

text \<open>
  The key tables never drift apart: after any sequence of checks, sweeps and resets the
  count kept per principal is the number of tracked keys of that principal, no principal
  exceeds its share, and no more than the maximum number of keys is tracked.
\<close>

theorem limiter_tables_agree:
  assumes "1 \<le> maxKeys (newRateLimiter opts)" "0 \<le> maxKeysPerGroup (newRateLimiter opts)"
  shows "rl_wf (fold (\<lambda>x rl. rl_step rl x) ops (newRateLimiter opts))"
proof -
  from newRateLimiter_wf [OF assms] assms show ?thesis by (rule rl_run_wf)
qed

theorem limiter_tables_agree_witness:
  "rl_wf (fold (\<lambda>x rl. rl_step rl x)
     [(0, Check ''user=a:x'' 1), (1, Check ''user=a:y'' 2), (9, Sweep), (9, Check ''ip=1:z'' 1), (10, Reset)]
     (newRateLimiter \<lparr>opt_windowMs = 5, opt_maxRequests = 2, opt_maxKeys = Some 1, opt_maxKeysPerGroup = None\<rparr>))"
  by (rule limiter_tables_agree) (simp_all add: newRateLimiter_def orDefault_def)

text \<open>
  C7. Sliding window: over any run whose keys fit into the limiter, the hits granted to a key
  within any window of \<open>windowMs\<close> never exceed \<open>maxRequests\<close>; sweeps and checks of other
  keys in between change nothing.
\<close>

theorem sliding_window:
  assumes "1 \<le> maxKeys (newRateLimiter opts)" "0 \<le> maxKeysPerGroup (newRateLimiter opts)"
    and "finite K" "int (card K) \<le> maxKeys (newRateLimiter opts)" "0 \<le> opt_maxRequests opts"
    and "times_from t0 ops" "\<forall>x \<in> set ops. op_key (snd x) \<subseteq> K \<and> no_reset (snd x)"
  shows "in_window (opt_windowMs opts) t (grant_log k (newRateLimiter opts) ops) \<le> opt_maxRequests opts"
proof -
  have conf: "windowMs (newRateLimiter opts) = opt_windowMs opts" "maxRequests (newRateLimiter opts) = opt_maxRequests opts"
    by (simp_all add: newRateLimiter_def)
  from grant_log_window [OF new_log_inv [OF assms(1-5)] assms(6,1,7)] show ?thesis
    unfolding conf by simp
qed

theorem sliding_window_witness:
  "in_window 10 12 (grant_log ''u:s''
      (newRateLimiter \<lparr>opt_windowMs = 10, opt_maxRequests = 2, opt_maxKeys = None, opt_maxKeysPerGroup = None\<rparr>)
      [(1, Check ''u:s'' 1), (5, Check ''v:s'' 2), (6, Check ''u:s'' 2), (7, Check ''u:s'' 1), (12, Sweep)]) \<le> 2"
  using sliding_window [of "\<lparr>opt_windowMs = 10, opt_maxRequests = 2, opt_maxKeys = None, opt_maxKeysPerGroup = None\<rparr>"
      "{''u:s'', ''v:s''}" 0
      "[(1, Check ''u:s'' 1), (5, Check ''v:s'' 2), (6, Check ''u:s'' 2), (7, Check ''u:s'' 1), (12, Sweep)]"
      12 "''u:s''"]
  by (simp add: newRateLimiter_def orDefault_def)

text \<open>
  A counted check takes all its slots or none: a refused check of a tracked key keeps
  exactly the hits that are still in the window, an allowed one adds exactly \<open>cnt\<close> hits at
  the current time, and \<open>check\<close> allows exactly when \<open>peek\<close> does.
\<close>

theorem check_all_or_none:
  assumes "0 < cnt" "mhas (hits rl) key"
  shows "mset (recent (snd (checkMany rl now key cnt)) key now)
           = (if allowed (fst (checkMany rl now key cnt)) \<and> 0 < windowMs rl
              then mset (recent rl key now) + replicate_mset (nat cnt) now
              else mset (recent rl key now))
       \<and> allowed (fst (check rl now key)) = allowed (peek rl now key)"
proof
  have adm: "admitKey rl key = Some rl" using assms(2) by (simp add: admitKey_def)
  show "allowed (fst (check rl now key)) = allowed (peek rl now key)"
    by (auto simp: check_def checkMany_def peek_def adm Let_def split: list.splits)
  show "mset (recent (snd (checkMany rl now key cnt)) key now)
           = (if allowed (fst (checkMany rl now key cnt)) \<and> 0 < windowMs rl
              then mset (recent rl key now) + replicate_mset (nat cnt) now
              else mset (recent rl key now))"
    using assms(1) by (cases rule: checkMany_cases [of cnt rl key now])
      (auto simp: adm recent_def filter_filter_mset filter_mset_eq_conv set_mset_replicate_mset_subset)
qed

theorem check_all_or_none_witness:
  "allowed (fst (check \<lparr>windowMs = 10, maxRequests = 2, maxKeys = 5, maxKeysPerGroup = 5,
       groupCounts = [(''u'', 1)], hits = [(''u:s'', [1, 8])]\<rparr> 12 ''u:s''))
   = allowed (peek \<lparr>windowMs = 10, maxRequests = 2, maxKeys = 5, maxKeysPerGroup = 5,
       groupCounts = [(''u'', 1)], hits = [(''u:s'', [1, 8])]\<rparr> 12 ''u:s'')"
  using check_all_or_none [of 1 "\<lparr>windowMs = 10, maxRequests = 2, maxKeys = 5, maxKeysPerGroup = 5,
       groupCounts = [(''u'', 1)], hits = [(''u:s'', [1, 8])]\<rparr>" "''u:s''" 12]
  by (simp add: mhas_def)

end
