(* ===== verification/Lease.thy ===== *)
theory Lease imports Prelude begin

text \<open>
  The contract of a renewable database lease, shared by the wallet leases of the job store and
  by the crawler and import leases of the sync cursor. A lease cell has a holder and a deadline.
  An acquisition reads a snapshot first and then writes with a compare-and-swap on the holder
  it has seen, so \<open>acquire\<close> takes the snapshot and the current state; \<open>ttl\<close> is the lease length
  and \<open>slack\<close> the tolerance of the read-back check.
\<close>

datatype lease_event = Acquire string time | Renew string time | Release string

text \<open>A run of a lease cell: each event with whether it succeeded, and the final state.\<close>

fun lease_step ::
  "('s \<Rightarrow> 's \<Rightarrow> string \<Rightarrow> time \<Rightarrow> bool \<times> 's) \<Rightarrow> ('s \<Rightarrow> string \<Rightarrow> time \<Rightarrow> bool \<times> 's) \<Rightarrow> ('s \<Rightarrow> string \<Rightarrow> 's)
   \<Rightarrow> 's \<Rightarrow> lease_event \<Rightarrow> bool \<times> 's" where
  "lease_step acq ren rel s (Acquire ow now) = acq s s ow now"
| "lease_step acq ren rel s (Renew ow now) = ren s ow now"
| "lease_step acq ren rel s (Release ow) = (True, rel s ow)"

fun lease_run ::
  "('s \<Rightarrow> 's \<Rightarrow> string \<Rightarrow> time \<Rightarrow> bool \<times> 's) \<Rightarrow> ('s \<Rightarrow> string \<Rightarrow> time \<Rightarrow> bool \<times> 's) \<Rightarrow> ('s \<Rightarrow> string \<Rightarrow> 's)
   \<Rightarrow> 's \<Rightarrow> lease_event list \<Rightarrow> (lease_event \<times> bool) list \<times> 's" where
  "lease_run acq ren rel s [] = ([], s)"
| "lease_run acq ren rel s (e # es) =
     (let (ok, s1) = lease_step acq ren rel s e; (log, s2) = lease_run acq ren rel s1 es in ((e, ok) # log, s2))"

fun event_time :: "lease_event \<Rightarrow> time option" where
  "event_time (Acquire ow now) = Some now"
| "event_time (Renew ow now) = Some now"
| "event_time (Release ow) = None"

text \<open>The event is not a release by \<open>a\<close> and happens in the window that starts at \<open>t0\<close> and ends before \<open>d\<close>.\<close>

definition within :: "string \<Rightarrow> time \<Rightarrow> time \<Rightarrow> lease_event \<Rightarrow> bool" where
  "within a t0 d e \<longleftrightarrow> e \<noteq> Release a \<and> (\<forall>t. event_time e = Some t \<longrightarrow> t0 \<le> t \<and> t < d)"

locale lease_cell =
  fixes acquire :: "'s \<Rightarrow> 's \<Rightarrow> string \<Rightarrow> time \<Rightarrow> bool \<times> 's"
    and renew :: "'s \<Rightarrow> string \<Rightarrow> time \<Rightarrow> bool \<times> 's"
    and release :: "'s \<Rightarrow> string \<Rightarrow> 's"
    and holder :: "'s \<Rightarrow> string option"
    and deadline :: "'s \<Rightarrow> time option"
    and invar :: "'s \<Rightarrow> bool"
    and ttl :: int
    and slack :: int
  assumes acquire_true: "fst (acquire s0 s ow now) \<Longrightarrow>
      holder (snd (acquire s0 s ow now)) = Some ow
      \<and> (\<exists>d. deadline (snd (acquire s0 s ow now)) = Some d \<and> now + ttl - slack \<le> d)"
    and acquire_guard: "holder s0 = Some x \<Longrightarrow> x \<noteq> [] \<Longrightarrow> x \<noteq> ow \<Longrightarrow> deadline s0 = Some d \<Longrightarrow> now < d \<Longrightarrow>
      acquire s0 s ow now = (False, s)"
    and acquire_cas: "invar s \<Longrightarrow> holder s \<noteq> holder s0 \<Longrightarrow> snd (acquire s0 s ow now) = s"
    and acquire_false: "\<not> fst (acquire s0 s ow now) \<Longrightarrow> holder (snd (acquire s0 s ow now)) = holder s
      \<and> deadline (snd (acquire s0 s ow now)) = deadline s"
    and renew_own: "fst (renew s ow now) \<Longrightarrow> holder s = Some ow \<and> holder (snd (renew s ow now)) = Some ow
      \<and> (\<exists>d. deadline (snd (renew s ow now)) = Some d \<and> now + ttl - slack \<le> d)"
    and renew_other: "invar s \<Longrightarrow> holder s \<noteq> Some ow \<Longrightarrow> \<not> fst (renew s ow now) \<and> snd (renew s ow now) = s"
    and renew_frame: "holder (snd (renew s ow now)) = holder s"
    and renew_deadline: "now + ttl \<ge> t \<Longrightarrow> deadline s = Some d \<Longrightarrow> t \<le> d \<Longrightarrow>
      \<exists>d'. deadline (snd (renew s ow now)) = Some d' \<and> t \<le> d'"
    and release_own: "invar s \<Longrightarrow> holder s = Some ow \<Longrightarrow> holder (release s ow) = None"
    and release_other: "invar s \<Longrightarrow> holder s \<noteq> Some ow \<Longrightarrow> release s ow = s"
    and invar_acquire: "invar s \<Longrightarrow> invar (snd (acquire s0 s ow now))"
    and invar_renew: "invar s \<Longrightarrow> invar (snd (renew s ow now))"
    and invar_release: "invar s \<Longrightarrow> invar (release s ow)"
    and ttl_nonneg: "0 \<le> slack \<and> slack \<le> ttl"
begin

abbreviation event :: "'s \<Rightarrow> lease_event \<Rightarrow> bool \<times> 's" where
  "event \<equiv> lease_step acquire renew release"

abbreviation run :: "'s \<Rightarrow> lease_event list \<Rightarrow> (lease_event \<times> bool) list \<times> 's" where
  "run \<equiv> lease_run acquire renew release"

lemma invar_event: "invar s \<Longrightarrow> invar (snd (event s e))"
  by (cases e) (simp_all add: invar_acquire invar_renew invar_release)

text \<open>
  Fencing: an owner that does not hold the lease cannot renew it, and only its own successful
  acquisition makes it the holder again.
\<close>

lemma event_keeps_out:
  assumes "invar s" "holder s \<noteq> Some a" "\<forall>now. e = Acquire a now \<longrightarrow> \<not> fst (event s e)"
  shows "holder (snd (event s e)) \<noteq> Some a \<and> (\<forall>now. e = Renew a now \<longrightarrow> \<not> fst (event s e))"
proof (cases e)
  case (Acquire ow now)
  with assms acquire_true [of s s ow now] acquire_false [of s s ow now] show ?thesis
    by (cases "fst (acquire s s ow now)") auto
next
  case (Renew ow now)
  with assms renew_frame [of s ow now] renew_other [of s ow now] show ?thesis by auto
next
  case (Release ow)
  with assms release_own [of s ow] release_other [of s ow] show ?thesis
    by (cases "holder s = Some ow") auto
qed

lemma fencing:
  assumes "invar s" "holder s \<noteq> Some a" "\<forall>now. (Acquire a now, True) \<notin> set (fst (run s es))"
  shows "holder (snd (run s es)) \<noteq> Some a \<and> (\<forall>now. (Renew a now, True) \<notin> set (fst (run s es)))"
  using assms
proof (induction es arbitrary: s)
  case (Cons e es)
  obtain ok s1 where step: "event s e = (ok, s1)" by (cases "event s e")
  obtain log s2 where rest: "run s1 es = (log, s2)" by (cases "run s1 es")
  from Cons.prems(1) have inv: "invar s1" using invar_event [of s e] by (simp add: step)
  from Cons.prems(3) have "\<forall>now. e = Acquire a now \<longrightarrow> \<not> fst (event s e)"
    unfolding step by (auto simp: step rest)
  from event_keeps_out [OF Cons.prems(1,2) this]
  have out: "holder s1 \<noteq> Some a" "\<forall>now. e = Renew a now \<longrightarrow> \<not> ok" unfolding step by simp_all
  have "\<forall>now. (Acquire a now, True) \<notin> set (fst (run s1 es))" using Cons.prems(3) by (auto simp: step rest)
  from Cons.IH [OF inv out(1) this] out(2) show ?case by (auto simp: step rest)
qed simp

text \<open>
  Exclusion: once \<open>a\<close> holds the lease, no other owner acquires it before the deadline, as long
  as \<open>a\<close> does not release it.
\<close>

lemma event_excludes:
  assumes "invar s" "holder s = Some a" "a \<noteq> []" "deadline s = Some d'" "d \<le> d'" "d \<le> t0 + ttl - slack" "within a t0 d e"
  shows "holder (snd (event s e)) = Some a \<and> (\<exists>d'. deadline (snd (event s e)) = Some d' \<and> d \<le> d')
       \<and> (\<forall>ow now. e = Acquire ow now \<longrightarrow> ow \<noteq> a \<longrightarrow> \<not> fst (event s e))"
proof (cases e)
  case (Acquire ow now)
  show ?thesis
  proof (cases "ow = a")
    case True
    with assms Acquire acquire_true [of s s a now] acquire_false [of s s a now] show ?thesis
      by (cases "fst (acquire s s a now)") (auto simp: within_def)
  next
    case False
    with assms Acquire have "acquire s s ow now = (False, s)"
      by (intro acquire_guard [of s a]) (auto simp: within_def)
    with assms Acquire show ?thesis by auto
  qed
next
  case (Renew ow now)
  have "d \<le> now + ttl" using assms(6,7) Renew ttl_nonneg by (auto simp: within_def)
  from renew_deadline [OF this assms(4,5)] show ?thesis
    using assms(2) by (simp add: Renew renew_frame)
next
  case (Release ow)
  with assms show ?thesis by (auto simp: within_def release_other)
qed

lemma exclusion:
  assumes "invar s" "holder s = Some a" "a \<noteq> []" "deadline s = Some d'" "d \<le> d'" "d \<le> t0 + ttl - slack"
    and "\<forall>e \<in> set es. within a t0 d e"
  shows "holder (snd (run s es)) = Some a
       \<and> (\<forall>ow now. ow \<noteq> a \<longrightarrow> (Acquire ow now, True) \<notin> set (fst (run s es)))"
  using assms
proof (induction es arbitrary: s d')
  case (Cons e es)
  obtain ok s1 where step: "event s e = (ok, s1)" by (cases "event s e")
  obtain log s2 where rest: "run s1 es = (log, s2)" by (cases "run s1 es")
  from Cons.prems(1) have inv: "invar s1" using invar_event [of s e] by (simp add: step)
  from Cons.prems(7) have "within a t0 d e" by simp
  from event_excludes [OF Cons.prems(1-6) this] obtain d2
    where ex: "holder s1 = Some a" "deadline s1 = Some d2" "d \<le> d2"
      and lose: "\<forall>ow now. e = Acquire ow now \<longrightarrow> ow \<noteq> a \<longrightarrow> \<not> ok" unfolding step by auto
  from Cons.IH [OF inv ex(1) Cons.prems(3) ex(2,3) Cons.prems(6)] Cons.prems(7) lose
  show ?case by (auto simp: step rest)
qed simp

lemma exclusion_after_win:
  assumes "invar s" "acquire s0 s a t0 = (True, s1)" "a \<noteq> []" "\<forall>e \<in> set es. within a t0 (t0 + ttl - slack) e"
  shows "holder (snd (run s1 es)) = Some a
       \<and> (\<forall>ow now. ow \<noteq> a \<longrightarrow> (Acquire ow now, True) \<notin> set (fst (run s1 es)))"
proof -
  from invar_acquire [OF assms(1), of s0 a t0] assms(2) have inv: "invar s1" by simp
  from acquire_true [of s0 s a t0] assms(2) obtain d
    where "holder s1 = Some a" "deadline s1 = Some d" "t0 + ttl - slack \<le> d" by auto
  from exclusion [OF inv this(1) assms(3) this(2,3) order_refl assms(4)] show ?thesis .
qed

text \<open>
  One winner: of two instances that acquire from the same snapshot, the second one cannot win,
  unless it already was the holder both of them saw.
\<close>

lemma one_winner:
  assumes "invar s" "fst (acquire s0 s a now)" "holder s0 \<noteq> Some a" "b \<noteq> a"
  shows "\<not> fst (acquire s0 (snd (acquire s0 s a now)) b now')
       \<and> snd (acquire s0 (snd (acquire s0 s a now)) b now') = snd (acquire s0 s a now)"
proof -
  let ?s1 = "snd (acquire s0 s a now)"
  have h: "holder ?s1 = Some a" using acquire_true [OF assms(2)] by simp
  with assms(3) invar_acquire [OF assms(1)] have same: "snd (acquire s0 ?s1 b now') = ?s1" by (intro acquire_cas) auto
  with h assms(4) acquire_true [of s0 ?s1 b now'] show ?thesis by auto
qed

end

end
