(* ===== verification/JobStore.thy ===== *)
theory JobStore imports Lease "HOL-Library.Product_Lexorder" begin

text \<open>
  The wallet-job tables of \<open>srv/blockchain/wallet-worker/job-store.ts\<close>. The database is a
  record of the two tables; a row is the normalised row type of the code, timestamps in
  milliseconds. A conditional UPDATE acts on all rows that match and reports their number
  through the adapter \<open>rep\<close>: \<open>None\<close> when the driver returns nothing numeric. \<open>sha\<close> is the hex
  SHA-256, \<open>newId\<close> the random UUID, \<open>now\<close> the clock.
\<close>

section \<open>Rows\<close>

datatype WalletJobStatus = Pending | Building | Submitting | Submitted | Confirmed | Failed | Cancelled

datatype WalletJobKind = SimpleAda | Metadata | MultiAsset | Mint | PlutusSpend | SubmitSigned

datatype WorkerSignerType = Hsm | Software

record WalletJobRow =
  j_ID :: string
  j_walletId :: string
  j_kind :: WalletJobKind
  j_status :: WalletJobStatus
  j_idempotencyKey :: "string option"
  j_dedupKey :: string
  j_request :: "string option"
  j_priority :: int
  j_notBefore :: "time option"
  j_attempt :: int
  j_maxAttempts :: int
  j_txHash :: "string option"
  j_unsignedTxCbor :: "string option"
  j_signedTxCbor :: "string option"
  j_fee :: "string option"
  j_submittedAt :: "time option"
  j_confirmedAt :: "time option"
  j_confirmedSlot :: "int option"
  j_confirmedHeight :: "int option"
  j_errorCode :: "string option"
  j_errorMessage :: "string option"
  j_createdAt :: time
  j_createdBy :: "string option"
  j_finishedAt :: "time option"

record WorkerWalletRow =
  w_walletId :: string
  w_signerType :: WorkerSignerType
  w_address :: "string option"
  w_publicKeyHash :: "string option"
  w_enabled :: bool
  w_leaseOwner :: "string option"
  w_leaseUntil :: "time option"
  w_lastJobAt :: "time option"
  w_jobsConfirmed :: int
  w_jobsFailed :: int

record wdb =
  jobs :: "WalletJobRow list"
  wallets :: "WorkerWalletRow list"

definition WORKER_LEASE_TTL_MS :: int where
  "WORKER_LEASE_TTL_MS = 15000"

type_synonym adapter = "nat \<Rightarrow> nat option"

definition update_jobs :: "(WalletJobRow \<Rightarrow> bool) \<Rightarrow> (WalletJobRow \<Rightarrow> WalletJobRow) \<Rightarrow> wdb \<Rightarrow> wdb" where
  "update_jobs P f db = db\<lparr>jobs := update_where P f (jobs db)\<rparr>"

definition update_wallets :: "(WorkerWalletRow \<Rightarrow> bool) \<Rightarrow> (WorkerWalletRow \<Rightarrow> WorkerWalletRow) \<Rightarrow> wdb \<Rightarrow> wdb" where
  "update_wallets P f db = db\<lparr>wallets := update_where P f (wallets db)\<rparr>"

section \<open>Job creation\<close>

record InsertJobArgs =
  a_walletId :: string
  a_kind :: WalletJobKind
  a_request :: string
  a_idempotencyKey :: "string option"
  a_priority :: "int option"
  a_notBefore :: "time option"
  a_maxAttempts :: "int option"
  a_createdBy :: "string option"

record InsertJobResult =
  r_jobId :: string
  r_status :: WalletJobStatus
  r_deduplicated :: bool

datatype insert_error = UniqueViolation

definition trim_empty :: "string \<Rightarrow> bool" where
  "trim_empty s = list_all (\<lambda>c. c \<in> {CHR 0x20, CHR 0x09, CHR 0x0A, CHR 0x0B, CHR 0x0C, CHR 0x0D, CHR 0xA0}) s"

definition trim :: "string \<Rightarrow> string" where
  "trim s = rev (dropWhile (\<lambda>c. trim_empty [c]) (rev (dropWhile (\<lambda>c. trim_empty [c]) s)))"

definition dedupKeyFor :: "(string \<Rightarrow> string) \<Rightarrow> string option \<Rightarrow> string \<Rightarrow> string" where
  "dedupKeyFor sha owner idempotencyKey =
     (let scope = (case owner of None \<Rightarrow> [] | Some ow \<Rightarrow> trim ow) in
      if scope = [] then idempotencyKey
      else ''o:'' @ take 48 (sha (scope @ '' '' @ idempotencyKey)))"

definition readDedupHolder :: "wdb \<Rightarrow> string \<Rightarrow> WalletJobKind \<Rightarrow> string \<Rightarrow> WalletJobRow option" where
  "readDedupHolder db walletId kind dedupKey =
     find (\<lambda>j. j_walletId j = walletId \<and> j_kind j = kind \<and> j_dedupKey j = dedupKey) (jobs db)"

definition releaseDedupClaim :: "wdb \<Rightarrow> string \<Rightarrow> wdb" where
  "releaseDedupClaim db jobId = update_jobs (\<lambda>j. j_ID j = jobId) (\<lambda>j. j\<lparr>j_dedupKey := jobId\<rparr>) db"

definition dedup_triple :: "WalletJobRow \<Rightarrow> string \<times> WalletJobKind \<times> string" where
  "dedup_triple j = (j_walletId j, j_kind j, j_dedupKey j)"

text \<open>INSERT under the primary key and the UNIQUE constraint on (walletId, kind, dedupKey).\<close>

definition insert_row :: "wdb \<Rightarrow> WalletJobRow \<Rightarrow> insert_error + wdb" where
  "insert_row db j =
     (if j_ID j \<in> j_ID ` set (jobs db) \<or> dedup_triple j \<in> dedup_triple ` set (jobs db)
      then Inl UniqueViolation else Inr (db\<lparr>jobs := jobs db @ [j]\<rparr>))"

definition new_job :: "string \<Rightarrow> string option \<Rightarrow> time \<Rightarrow> InsertJobArgs \<Rightarrow> WalletJobRow" where
  "new_job jobId claim now args =
     \<lparr>j_ID = jobId, j_walletId = a_walletId args, j_kind = a_kind args, j_status = Pending,
      j_idempotencyKey = a_idempotencyKey args, j_dedupKey = nullish claim jobId,
      j_request = Some (a_request args), j_priority = nullish (a_priority args) 100,
      j_notBefore = a_notBefore args, j_attempt = 0, j_maxAttempts = nullish (a_maxAttempts args) 3,
      j_txHash = None, j_unsignedTxCbor = None, j_signedTxCbor = None, j_fee = None,
      j_submittedAt = None, j_confirmedAt = None, j_confirmedSlot = None, j_confirmedHeight = None,
      j_errorCode = None, j_errorMessage = None, j_createdAt = now, j_createdBy = a_createdBy args,
      j_finishedAt = None\<rparr>"

definition claim_of :: "(string \<Rightarrow> string) \<Rightarrow> InsertJobArgs \<Rightarrow> string option" where
  "claim_of sha args =
     (if truthy (a_idempotencyKey args)
      then Some (dedupKeyFor sha (a_createdBy args) (the (a_idempotencyKey args))) else None)"

text \<open>
  The INSERT, and the return of the winner when the constraint fires. \<open>race\<close> is what other
  transactions commit between the read of the fast path and the INSERT (the identity when
  nothing does).
\<close>

definition insert_or_winner ::
  "string \<Rightarrow> time \<Rightarrow> (wdb \<Rightarrow> wdb) \<Rightarrow> string option \<Rightarrow> InsertJobArgs \<Rightarrow> wdb \<Rightarrow> (insert_error + InsertJobResult) \<times> wdb" where
  "insert_or_winner newId now race claim args db1 =
     (let db2 = race db1 in
      case insert_row db2 (new_job newId claim now args) of
        Inr db3 \<Rightarrow> (Inr \<lparr>r_jobId = newId, r_status = Pending, r_deduplicated = False\<rparr>, db3)
      | Inl e \<Rightarrow>
          (case claim of
             None \<Rightarrow> (Inl e, db2)
           | Some c \<Rightarrow>
               (case readDedupHolder db2 (a_walletId args) (a_kind args) c of
                  None \<Rightarrow> (Inl e, db2)
                | Some winner \<Rightarrow>
                    (Inr \<lparr>r_jobId = j_ID winner, r_status = j_status winner, r_deduplicated = True\<rparr>, db2))))"

definition insertJob ::
  "(string \<Rightarrow> string) \<Rightarrow> string \<Rightarrow> time \<Rightarrow> (wdb \<Rightarrow> wdb) \<Rightarrow> wdb \<Rightarrow> InsertJobArgs \<Rightarrow> (insert_error + InsertJobResult) \<times> wdb" where
  "insertJob sha newId now race db args =
     (let claim = claim_of sha args in
      case claim of
        None \<Rightarrow> insert_or_winner newId now race claim args db
      | Some c \<Rightarrow>
          (case readDedupHolder db (a_walletId args) (a_kind args) c of
             None \<Rightarrow> insert_or_winner newId now race claim args db
           | Some h \<Rightarrow>
               (if j_status h \<noteq> Failed \<and> j_status h \<noteq> Cancelled
                then (Inr \<lparr>r_jobId = j_ID h, r_status = j_status h, r_deduplicated = True\<rparr>, db)
                else insert_or_winner newId now race claim args (releaseDedupClaim db (j_ID h)))))"

section \<open>Reads\<close>

definition getJobById :: "wdb \<Rightarrow> string \<Rightarrow> WalletJobRow option" where
  "getJobById db jobId = find_row j_ID jobId (jobs db)"

definition findDueJobs :: "wdb \<Rightarrow> time \<Rightarrow> WalletJobRow list" where
  "findDueJobs db now =
     filter (\<lambda>j. case j_notBefore j of None \<Rightarrow> True | Some t \<Rightarrow> t \<le> now)
       (sort_key (\<lambda>j. (j_priority j, j_createdAt j)) (filter (\<lambda>j. j_status j = Pending) (jobs db)))"

definition countPendingJobs :: "wdb \<Rightarrow> nat" where
  "countPendingJobs db = length (filter (\<lambda>j. j_status j = Pending) (jobs db))"

definition findSubmittedJobs :: "wdb \<Rightarrow> WalletJobRow list" where
  "findSubmittedJobs db = filter (\<lambda>j. j_status j = Submitted) (jobs db)"

definition walletHasActiveJob :: "wdb \<Rightarrow> string \<Rightarrow> bool" where
  "walletHasActiveJob db walletId =
     list_ex (\<lambda>j. j_walletId j = walletId \<and> j_status j \<in> {Building, Submitting, Submitted}) (jobs db)"

definition readWallet :: "wdb \<Rightarrow> string \<Rightarrow> WorkerWalletRow option" where
  "readWallet db walletId = find_row w_walletId walletId (wallets db)"

definition walletLeaseHeld :: "WorkerWalletRow option \<Rightarrow> time \<Rightarrow> bool" where
  "walletLeaseHeld wallet now =
     (case wallet of None \<Rightarrow> False
      | Some w \<Rightarrow> truthy (w_leaseOwner w)
          \<and> (case w_leaseUntil w of None \<Rightarrow> False | Some d \<Rightarrow> d > now))"

definition findOrphanedSubmittingJob :: "wdb \<Rightarrow> string \<Rightarrow> time \<Rightarrow> WalletJobRow option" where
  "findOrphanedSubmittingJob db walletId now =
     (if walletLeaseHeld (readWallet db walletId) now then None
      else (case sort_key j_createdAt
               (filter (\<lambda>j. j_walletId j = walletId \<and> j_status j = Submitting) (jobs db)) of
              [] \<Rightarrow> None | j # _ \<Rightarrow> Some j))"

section \<open>Guarded transitions\<close>

definition guardedTransition ::
  "adapter \<Rightarrow> wdb \<Rightarrow> string \<Rightarrow> WalletJobStatus list \<Rightarrow> WalletJobStatus \<Rightarrow> (WalletJobRow \<Rightarrow> WalletJobRow) \<Rightarrow> bool \<times> wdb" where
  "guardedTransition rep db jobId fromStatuses target others =
     (let matches = (\<lambda>j. j_ID j = jobId \<and> j_status j \<in> set fromStatuses);
          db' = update_jobs matches (\<lambda>j. (others j)\<lparr>j_status := target\<rparr>) db
      in case rep (length (filter matches (jobs db))) of
           Some n \<Rightarrow> (0 < n, db')
         | None \<Rightarrow>
             ((case getJobById db' jobId of
                 None \<Rightarrow> False
               | Some row \<Rightarrow> j_status row = target \<and> target \<notin> set fromStatuses), db'))"

definition markBuilding :: "adapter \<Rightarrow> wdb \<Rightarrow> string \<Rightarrow> int \<Rightarrow> bool \<times> wdb" where
  "markBuilding rep db jobId attempt =
     guardedTransition rep db jobId [Pending] Building (\<lambda>j. j\<lparr>j_attempt := attempt\<rparr>)"

record artifacts =
  t_txHash :: string
  t_unsignedTxCbor :: "string option"
  t_signedTxCbor :: string
  t_fee :: "string option"

definition markSubmitting :: "adapter \<Rightarrow> wdb \<Rightarrow> string \<Rightarrow> artifacts \<Rightarrow> time \<Rightarrow> bool \<times> wdb" where
  "markSubmitting rep db jobId arts now =
     guardedTransition rep db jobId [Building] Submitting
       (\<lambda>j. j\<lparr>j_txHash := Some (t_txHash arts), j_unsignedTxCbor := t_unsignedTxCbor arts,
              j_signedTxCbor := Some (t_signedTxCbor arts), j_fee := t_fee arts,
              j_submittedAt := Some now\<rparr>)"

definition markSubmitted :: "adapter \<Rightarrow> wdb \<Rightarrow> string \<Rightarrow> string \<Rightarrow> bool \<times> wdb" where
  "markSubmitted rep db jobId txHash =
     guardedTransition rep db jobId [Submitting] Submitted (\<lambda>j. j\<lparr>j_txHash := Some txHash\<rparr>)"

definition requeueForRetry :: "adapter \<Rightarrow> wdb \<Rightarrow> string \<Rightarrow> string \<Rightarrow> time option \<Rightarrow> bool \<times> wdb" where
  "requeueForRetry rep db jobId message notBefore =
     guardedTransition rep db jobId [Building] Pending
       (\<lambda>j. let j1 = j\<lparr>j_errorMessage := Some (take 500 message)\<rparr>
            in case notBefore of None \<Rightarrow> j1 | Some t \<Rightarrow> j1\<lparr>j_notBefore := Some t\<rparr>)"

definition recordConfirmationPoint :: "wdb \<Rightarrow> string \<Rightarrow> int option \<Rightarrow> int option \<Rightarrow> wdb" where
  "recordConfirmationPoint db jobId slot height =
     update_jobs (\<lambda>j. j_ID j = jobId \<and> j_status j = Submitted)
       (\<lambda>j. j\<lparr>j_confirmedSlot := slot, j_confirmedHeight := height\<rparr>) db"

definition clearConfirmationPoint :: "wdb \<Rightarrow> string \<Rightarrow> wdb" where
  "clearConfirmationPoint db jobId =
     update_jobs (\<lambda>j. j_ID j = jobId \<and> j_status j = Submitted)
       (\<lambda>j. j\<lparr>j_confirmedSlot := None, j_confirmedHeight := None\<rparr>) db"

definition markConfirmed :: "adapter \<Rightarrow> wdb \<Rightarrow> string \<Rightarrow> time \<Rightarrow> bool \<times> wdb" where
  "markConfirmed rep db jobId now =
     guardedTransition rep db jobId [Submitted] Confirmed
       (\<lambda>j. j\<lparr>j_confirmedAt := Some now, j_finishedAt := Some now, j_errorCode := None, j_errorMessage := None\<rparr>)"

definition markFailed :: "adapter \<Rightarrow> wdb \<Rightarrow> string \<Rightarrow> string \<Rightarrow> string \<Rightarrow> time \<Rightarrow> bool \<times> wdb" where
  "markFailed rep db jobId ecode message now =
     guardedTransition rep db jobId [Pending, Building, Submitting, Submitted] Failed
       (\<lambda>j. j\<lparr>j_errorCode := Some (take 50 ecode), j_errorMessage := Some (take 500 message),
              j_finishedAt := Some now, j_dedupKey := jobId\<rparr>)"

definition markCancelled :: "adapter \<Rightarrow> wdb \<Rightarrow> string \<Rightarrow> time \<Rightarrow> bool \<times> wdb" where
  "markCancelled rep db jobId now =
     guardedTransition rep db jobId [Pending] Cancelled
       (\<lambda>j. j\<lparr>j_errorCode := Some ''CANCELLED'', j_finishedAt := Some now, j_dedupKey := jobId\<rparr>)"

section \<open>Crash recovery\<close>

definition fail_interrupted :: "time \<Rightarrow> string \<Rightarrow> wdb \<Rightarrow> wdb" where
  "fail_interrupted now jobId db =
     update_jobs (\<lambda>j. j_ID j = jobId \<and> j_status j = Building)
       (\<lambda>j. j\<lparr>j_status := Failed, j_errorCode := Some ''PROCESS_RESTART'',
              j_errorMessage := Some ''Job was interrupted before submission (executor died or lost its wallet lease).'',
              j_finishedAt := Some now, j_dedupKey := jobId\<rparr>) db"

definition failOrphanedBuildingJobs :: "wdb \<Rightarrow> string \<Rightarrow> time \<Rightarrow> nat \<times> wdb" where
  "failOrphanedBuildingJobs db walletId now =
     (if walletLeaseHeld (readWallet db walletId) now then (0, db)
      else
        (let building = map j_ID (filter (\<lambda>j. j_walletId j = walletId \<and> j_status j = Building) (jobs db))
         in (length building, fold (fail_interrupted now) building db)))"

record RecoveryResult =
  failedBuilding :: nat
  submittedToReconcile :: "WalletJobRow list"
  submittingToReconcile :: "WalletJobRow list"

definition recoverInterruptedJobs :: "wdb \<Rightarrow> time \<Rightarrow> RecoveryResult \<times> wdb" where
  "recoverInterruptedJobs db now =
     (let building = filter (\<lambda>j. j_status j = Building) (jobs db);
          (n, db1) = fold (\<lambda>w (n, d). let (k, d') = failOrphanedBuildingJobs d w now in (n + k, d'))
                       (rev (remdups (rev (map j_walletId building)))) (0, db)
      in (\<lparr>failedBuilding = n, submittedToReconcile = findSubmittedJobs db1,
           submittingToReconcile = filter (\<lambda>j. j_status j = Submitting) (jobs db1)\<rparr>, db1))"

section \<open>Worker wallets\<close>

definition upsertWalletRegistration :: "wdb \<Rightarrow> string \<Rightarrow> WorkerSignerType \<Rightarrow> string \<Rightarrow> string \<Rightarrow> wdb" where
  "upsertWalletRegistration db walletId signerType address publicKeyHash =
     (case readWallet db walletId of
        Some _ \<Rightarrow> update_wallets (\<lambda>w. w_walletId w = walletId)
          (\<lambda>w. w\<lparr>w_signerType := signerType, w_address := Some address, w_publicKeyHash := Some publicKeyHash\<rparr>) db
      | None \<Rightarrow> db\<lparr>wallets := wallets db @
          [\<lparr>w_walletId = walletId, w_signerType = signerType, w_address = Some address,
            w_publicKeyHash = Some publicKeyHash, w_enabled = True, w_leaseOwner = None, w_leaseUntil = None,
            w_lastJobAt = None, w_jobsConfirmed = 0, w_jobsFailed = 0\<rparr>]\<rparr>)"

definition leaseDeadlineReached :: "WorkerWalletRow option \<Rightarrow> string \<Rightarrow> time \<Rightarrow> bool" where
  "leaseDeadlineReached wallet ow expectedMs =
     (case wallet of None \<Rightarrow> False
      | Some w \<Rightarrow> w_leaseOwner w = Some ow
          \<and> (case w_leaseUntil w of None \<Rightarrow> False | Some d \<Rightarrow> d \<ge> expectedMs - 1000))"

text \<open>\<open>db0\<close> is the database at the SELECT, \<open>db\<close> at the UPDATE.\<close>

definition tryAcquireWalletLease :: "wdb \<Rightarrow> wdb \<Rightarrow> string \<Rightarrow> string \<Rightarrow> time \<Rightarrow> int \<Rightarrow> bool \<times> wdb" where
  "tryAcquireWalletLease db0 db walletId ow now ttlMs =
     (case readWallet db0 walletId of
        None \<Rightarrow> (False, db)
      | Some current \<Rightarrow>
          if \<not> w_enabled current then (False, db)
          else if truthy (w_leaseOwner current) \<and> w_leaseOwner current \<noteq> Some ow
               \<and> (case w_leaseUntil current of None \<Rightarrow> False | Some d \<Rightarrow> d > now)
          then (False, db)
          else
            (let leaseUntil = now + ttlMs;
                 db' = update_wallets (\<lambda>w. w_walletId w = walletId \<and> w_leaseOwner w = w_leaseOwner current)
                         (\<lambda>w. w\<lparr>w_leaseOwner := Some ow, w_leaseUntil := Some leaseUntil\<rparr>) db
             in (leaseDeadlineReached (readWallet db' walletId) ow leaseUntil, db')))"

definition renewWalletLease :: "wdb \<Rightarrow> string \<Rightarrow> string \<Rightarrow> time \<Rightarrow> int \<Rightarrow> bool \<times> wdb" where
  "renewWalletLease db walletId ow now ttlMs =
     (let leaseUntil = now + ttlMs;
          db' = update_wallets (\<lambda>w. w_walletId w = walletId \<and> w_leaseOwner w = Some ow)
                  (\<lambda>w. w\<lparr>w_leaseUntil := Some leaseUntil\<rparr>) db
      in (leaseDeadlineReached (readWallet db' walletId) ow leaseUntil, db'))"

definition releaseWalletLease :: "wdb \<Rightarrow> string \<Rightarrow> string \<Rightarrow> wdb" where
  "releaseWalletLease db walletId ow =
     update_wallets (\<lambda>w. w_walletId w = walletId \<and> w_leaseOwner w = Some ow)
       (\<lambda>w. w\<lparr>w_leaseOwner := None, w_leaseUntil := None\<rparr>) db"

datatype stats_outcome = StatConfirmed | StatFailed

definition bumpWalletStats :: "wdb \<Rightarrow> string \<Rightarrow> stats_outcome \<Rightarrow> time \<Rightarrow> wdb" where
  "bumpWalletStats db walletId outcome now =
     (case readWallet db walletId of
        None \<Rightarrow> db
      | Some w0 \<Rightarrow> update_wallets (\<lambda>w. w_walletId w = walletId)
          (\<lambda>w. let w1 = w\<lparr>w_lastJobAt := Some now\<rparr> in
               case outcome of
                 StatConfirmed \<Rightarrow> w1\<lparr>w_jobsConfirmed := w_jobsConfirmed w0 + 1\<rparr>
               | StatFailed \<Rightarrow> w1\<lparr>w_jobsFailed := w_jobsFailed w0 + 1\<rparr>) db)"


section \<open>Facts about the statements\<close>

definition wallets_wf :: "wdb \<Rightarrow> bool" where
  "wallets_wf db \<longleftrightarrow> distinct (map w_walletId (wallets db))"

lemma jobs_update_wallets [simp]: "jobs (update_wallets P f db) = jobs db"
  by (simp add: update_wallets_def)

lemma wallets_update_jobs [simp]: "wallets (update_jobs P f db) = wallets db"
  by (simp add: update_jobs_def)

lemma jobs_update_jobs: "jobs (update_jobs P f db) = update_where P f (jobs db)"
  by (simp add: update_jobs_def)

lemma readWallet_update_wallets [table_simps]:
  "(\<And>w. w_walletId (f w) = w_walletId w) \<Longrightarrow>
   readWallet (update_wallets P f db) walletId = map_option (\<lambda>w. if P w then f w else w) (readWallet db walletId)"
  unfolding readWallet_def update_wallets_def by (simp add: find_row_update_where)

lemma getJobById_update_jobs [table_simps]:
  "(\<And>j. j_ID (f j) = j_ID j) \<Longrightarrow>
   getJobById (update_jobs P f db) jobId = map_option (\<lambda>j. if P j then f j else j) (getJobById db jobId)"
  unfolding getJobById_def update_jobs_def by (simp add: find_row_update_where)

lemma readWallet_id: "readWallet db walletId = Some w \<Longrightarrow> w_walletId w = walletId"
  by (auto simp: readWallet_def dest: find_row_SomeD)

lemma getJobById_id: "getJobById db jobId = Some j \<Longrightarrow> j_ID j = jobId"
  by (auto simp: getJobById_def dest: find_row_SomeD)

lemma wallets_wf_update:
  "(\<And>w. w_walletId (f w) = w_walletId w) \<Longrightarrow> wallets_wf db \<Longrightarrow> wallets_wf (update_wallets P f db)"
  by (simp add: wallets_wf_def update_wallets_def update_where_keys)

text \<open>With unique wallet ids an UPDATE that does not match the row it would read changes nothing.\<close>

lemma update_wallets_idle:
  assumes "wallets_wf db" "\<And>w. readWallet db walletId = Some w \<Longrightarrow> \<not> Q w"
  shows "update_wallets (\<lambda>w. w_walletId w = walletId \<and> Q w) f db = db"
proof -
  have "\<forall>w \<in> set (wallets db). \<not> (w_walletId w = walletId \<and> Q w)"
    using assms find_row_unique [of w_walletId "wallets db"]
    by (auto simp: wallets_wf_def readWallet_def)
  then show ?thesis by (simp add: update_wallets_def update_where_none)
qed

section \<open>The wallet lease keeps the lease contract\<close>

definition wallet_holder :: "string \<Rightarrow> wdb \<Rightarrow> string option" where
  "wallet_holder walletId db = (case readWallet db walletId of None \<Rightarrow> None | Some w \<Rightarrow> w_leaseOwner w)"

definition wallet_deadline :: "string \<Rightarrow> wdb \<Rightarrow> time option" where
  "wallet_deadline walletId db = (case readWallet db walletId of None \<Rightarrow> None | Some w \<Rightarrow> w_leaseUntil w)"

abbreviation acquire_wallet :: "string \<Rightarrow> wdb \<Rightarrow> wdb \<Rightarrow> string \<Rightarrow> time \<Rightarrow> bool \<times> wdb" where
  "acquire_wallet walletId db0 db ow now \<equiv> tryAcquireWalletLease db0 db walletId ow now WORKER_LEASE_TTL_MS"

abbreviation renew_wallet :: "string \<Rightarrow> wdb \<Rightarrow> string \<Rightarrow> time \<Rightarrow> bool \<times> wdb" where
  "renew_wallet walletId db ow now \<equiv> renewWalletLease db walletId ow now WORKER_LEASE_TTL_MS"

abbreviation release_wallet :: "string \<Rightarrow> wdb \<Rightarrow> string \<Rightarrow> wdb" where
  "release_wallet walletId db ow \<equiv> releaseWalletLease db walletId ow"

lemmas wallet_lease_defs = tryAcquireWalletLease_def renewWalletLease_def releaseWalletLease_def
  wallet_holder_def wallet_deadline_def leaseDeadlineReached_def Let_def

lemma acquire_wallet_cas:
  assumes "wallets_wf db" "wallet_holder walletId db \<noteq> wallet_holder walletId db0"
  shows "snd (tryAcquireWalletLease db0 db walletId ow now ttl) = db"
proof (cases "readWallet db0 walletId")
  case (Some c)
  have "update_wallets (\<lambda>w. w_walletId w = walletId \<and> w_leaseOwner w = w_leaseOwner c) f db = db" for f
    using assms Some by (intro update_wallets_idle) (auto simp: wallet_holder_def)
  with Some show ?thesis by (simp add: tryAcquireWalletLease_def Let_def)
qed (simp add: tryAcquireWalletLease_def)

lemma acquire_wallet_lost:
  assumes "\<not> fst (tryAcquireWalletLease db0 db walletId ow now ttl)"
  shows "wallet_holder walletId (snd (tryAcquireWalletLease db0 db walletId ow now ttl)) = wallet_holder walletId db
    \<and> wallet_deadline walletId (snd (tryAcquireWalletLease db0 db walletId ow now ttl)) = wallet_deadline walletId db"
proof (cases "readWallet db0 walletId")
  case (Some c)
  let ?upd = "update_wallets (\<lambda>w. w_walletId w = walletId \<and> w_leaseOwner w = w_leaseOwner c)
    (\<lambda>w. w\<lparr>w_leaseOwner := Some ow, w_leaseUntil := Some (now + ttl)\<rparr>) db"
  have "tryAcquireWalletLease db0 db walletId ow now ttl = (False, db)
      \<or> tryAcquireWalletLease db0 db walletId ow now ttl
          = (leaseDeadlineReached (readWallet ?upd walletId) ow (now + ttl), ?upd)"
    using Some by (simp add: tryAcquireWalletLease_def Let_def)
  then show ?thesis
  proof
    assume "tryAcquireWalletLease db0 db walletId ow now ttl
      = (leaseDeadlineReached (readWallet ?upd walletId) ow (now + ttl), ?upd)"
    moreover with assms have "\<not> leaseDeadlineReached (readWallet ?upd walletId) ow (now + ttl)" by simp
    ultimately show ?thesis
      by (cases "readWallet db walletId")
        (auto simp: table_simps leaseDeadlineReached_def wallet_holder_def wallet_deadline_def dest: readWallet_id)
  qed simp
qed (simp add: tryAcquireWalletLease_def)

interpretation wallet_lease: lease_cell "acquire_wallet walletId" "renew_wallet walletId" "release_wallet walletId"
  "wallet_holder walletId" "wallet_deadline walletId" wallets_wf WORKER_LEASE_TTL_MS 1000
proof unfold_locales
  fix s0 s :: wdb and ow x :: string and now d t :: time
  show "wallet_holder walletId (snd (acquire_wallet walletId s0 s ow now)) = Some ow
      \<and> (\<exists>d. wallet_deadline walletId (snd (acquire_wallet walletId s0 s ow now)) = Some d
             \<and> now + WORKER_LEASE_TTL_MS - 1000 \<le> d)"
    if "fst (acquire_wallet walletId s0 s ow now)"
    using that by (auto simp: wallet_lease_defs split: option.splits if_splits)
  show "acquire_wallet walletId s0 s ow now = (False, s)"
    if "wallet_holder walletId s0 = Some x" "x \<noteq> []" "x \<noteq> ow" "wallet_deadline walletId s0 = Some d" "now < d"
    using that by (auto simp: wallet_lease_defs truthy_def split: option.splits)
  show "snd (acquire_wallet walletId s0 s ow now) = s"
    if "wallets_wf s" "wallet_holder walletId s \<noteq> wallet_holder walletId s0"
    using that by (rule acquire_wallet_cas)
  show "wallet_holder walletId (snd (acquire_wallet walletId s0 s ow now)) = wallet_holder walletId s
      \<and> wallet_deadline walletId (snd (acquire_wallet walletId s0 s ow now)) = wallet_deadline walletId s"
    if "\<not> fst (acquire_wallet walletId s0 s ow now)"
    using that by (rule acquire_wallet_lost)
  show "wallet_holder walletId s = Some ow \<and> wallet_holder walletId (snd (renew_wallet walletId s ow now)) = Some ow
      \<and> (\<exists>d. wallet_deadline walletId (snd (renew_wallet walletId s ow now)) = Some d
             \<and> now + WORKER_LEASE_TTL_MS - 1000 \<le> d)"
    if "fst (renew_wallet walletId s ow now)"
    using that by (auto simp: wallet_lease_defs table_simps split: option.splits if_splits)
  show "\<not> fst (renew_wallet walletId s ow now) \<and> snd (renew_wallet walletId s ow now) = s"
    if "wallets_wf s" "wallet_holder walletId s \<noteq> Some ow"
  proof -
    have "update_wallets (\<lambda>w. w_walletId w = walletId \<and> w_leaseOwner w = Some ow) f s = s" for f
      using that by (intro update_wallets_idle) (auto simp: wallet_holder_def)
    with that show ?thesis by (auto simp: wallet_lease_defs split: option.splits)
  qed
  show "wallet_holder walletId (snd (renew_wallet walletId s ow now)) = wallet_holder walletId s"
    by (auto simp: wallet_lease_defs table_simps split: option.splits)
  show "\<exists>d'. wallet_deadline walletId (snd (renew_wallet walletId s ow now)) = Some d' \<and> t \<le> d'"
    if "t \<le> now + WORKER_LEASE_TTL_MS" "wallet_deadline walletId s = Some d" "t \<le> d"
    using that by (auto simp: wallet_lease_defs table_simps split: option.splits)
  show "wallet_holder walletId (release_wallet walletId s ow) = None"
    if "wallets_wf s" "wallet_holder walletId s = Some ow"
    using that by (auto simp: wallet_lease_defs table_simps split: option.splits dest: readWallet_id)
  show "release_wallet walletId s ow = s" if "wallets_wf s" "wallet_holder walletId s \<noteq> Some ow"
    unfolding releaseWalletLease_def
    using that by (intro update_wallets_idle) (auto simp: wallet_holder_def)
  show "wallets_wf (snd (acquire_wallet walletId s0 s ow now))" if "wallets_wf s"
    using that by (auto simp: tryAcquireWalletLease_def Let_def wallets_wf_update split: option.splits)
  show "wallets_wf (snd (renew_wallet walletId s ow now))" if "wallets_wf s"
    using that by (simp add: renewWalletLease_def Let_def wallets_wf_update)
  show "wallets_wf (release_wallet walletId s ow)" if "wallets_wf s"
    using that by (simp add: releaseWalletLease_def wallets_wf_update)
qed (simp add: WORKER_LEASE_TTL_MS_def)



definition demo_wallet :: "string \<Rightarrow> WorkerWalletRow" where
  "demo_wallet w = \<lparr>w_walletId = w, w_signerType = Software, w_address = None, w_publicKeyHash = None,
     w_enabled = True, w_leaseOwner = None, w_leaseUntil = None, w_lastJobAt = None,
     w_jobsConfirmed = 0, w_jobsFailed = 0\<rparr>"

definition demo_db :: wdb where
  "demo_db = \<lparr>jobs = [], wallets = [demo_wallet ''w1'', demo_wallet ''w2'']\<rparr>"

lemma demo_db_wf: "wallets_wf demo_db"
  by (simp add: wallets_wf_def demo_db_def demo_wallet_def)

lemma demo_acquire:
  "fst (tryAcquireWalletLease demo_db demo_db ''w1'' ''i1'' 0 WORKER_LEASE_TTL_MS)"
  by code_simp


text \<open>
  Fencing: an instance that is not the holder cannot renew the lease and does not become
  the holder, until one of its own acquisitions succeeds.
\<close>

theorem wallet_lease_fencing:
  assumes "wallets_wf db" "wallet_holder walletId db \<noteq> Some a"
    and "\<forall>now. (Acquire a now, True) \<notin> set (fst
           (lease_run (acquire_wallet walletId) (renew_wallet walletId) (release_wallet walletId) db es))"
  shows "wallet_holder walletId
           (snd (lease_run (acquire_wallet walletId) (renew_wallet walletId) (release_wallet walletId) db es)) \<noteq> Some a
    \<and> (\<forall>now. (Renew a now, True) \<notin> set (fst
           (lease_run (acquire_wallet walletId) (renew_wallet walletId) (release_wallet walletId) db es)))"
  using assms by (rule wallet_lease.fencing)

theorem wallet_lease_fencing_witness:
  "\<forall>now. (Renew ''i2'' now, True) \<notin> set (fst
     (lease_run (acquire_wallet ''w1'') (renew_wallet ''w1'') (release_wallet ''w1'') demo_db
        [Acquire ''i1'' 0, Renew ''i2'' 100, Release ''i1'', Renew ''i2'' 200]))"
proof -
  have h: "wallet_holder ''w1'' demo_db \<noteq> Some ''i2''" by code_simp
  have "\<forall>now. (Acquire ''i2'' now, True) \<notin> set (fst
     (lease_run (acquire_wallet ''w1'') (renew_wallet ''w1'') (release_wallet ''w1'') demo_db
        [Acquire ''i1'' 0, Renew ''i2'' 100, Release ''i1'', Renew ''i2'' 200]))"
    by (simp split: prod.split)
  from wallet_lease_fencing [OF demo_db_wf h this] show ?thesis by simp
qed

end
