(* ===== verification/JobLifecycle.thy ===== *)
theory JobLifecycle imports JobStore begin

text \<open>
  The life of a wallet job under every statement of \<open>srv/blockchain/wallet-worker/job-store.ts\<close>:
  the guarded transitions, the partial order of the states, the idempotency key. \<open>store_op\<close>
  lists the operations that write a job row, \<open>store_step\<close> applies one, \<open>store_run\<close> a sequence.
\<close>

section \<open>One guarded transition\<close>

definition jobs_wf :: "wdb \<Rightarrow> bool" where
  "jobs_wf db \<longleftrightarrow> distinct (map j_ID (jobs db))"

lemma length_filter_pos: "0 < length (filter P xs) \<longleftrightarrow> (\<exists>x \<in> set xs. P x)"
  by (induction xs) auto

lemma matches_iff:
  assumes "jobs_wf db"
  shows "(\<exists>j \<in> set (jobs db). j_ID j = jobId \<and> j_status j \<in> S)
    \<longleftrightarrow> (\<exists>j. getJobById db jobId = Some j \<and> j_status j \<in> S)"
  using assms find_row_unique [of j_ID "jobs db"]
  by (auto simp: jobs_wf_def getJobById_def dest!: find_row_SomeD)

lemma update_jobs_unmatched: "\<not> (\<exists>j \<in> set (jobs db). P j) \<Longrightarrow> update_jobs P f db = db"
  by (simp add: update_jobs_def update_where_none)

lemma guardedTransition_fst:
  "jobs_wf db \<Longrightarrow> fst (guardedTransition Some db jobId from target others)
    \<longleftrightarrow> (\<exists>j. getJobById db jobId = Some j \<and> j_status j \<in> set from)"
  by (simp add: guardedTransition_def Let_def length_filter_pos matches_iff del: length_greater_0_conv)

lemma guardedTransition_snd:
  "snd (guardedTransition rep db jobId from target others)
    = update_jobs (\<lambda>j. j_ID j = jobId \<and> j_status j \<in> set from) (\<lambda>j. (others j)\<lparr>j_status := target\<rparr>) db"
  by (simp add: guardedTransition_def Let_def split: option.split)

lemma won_transition:
  assumes "jobs_wf db" "\<And>j. j_ID (others j) = j_ID j"
    and "fst (guardedTransition Some db jobId from target others)"
  obtains j where "getJobById db jobId = Some j" "j_status j \<in> set from"
    "getJobById (snd (guardedTransition Some db jobId from target others)) jobId = Some ((others j)\<lparr>j_status := target\<rparr>)"
proof -
  from assms(3) guardedTransition_fst [OF assms(1)] obtain j where j: "getJobById db jobId = Some j" "j_status j \<in> set from"
    by blast
  moreover have "getJobById (snd (guardedTransition Some db jobId from target others)) jobId = Some ((others j)\<lparr>j_status := target\<rparr>)"
    unfolding guardedTransition_snd using j assms(2) by (subst getJobById_update_jobs) (auto dest: getJobById_id)
  ultimately show thesis by (rule that)
qed

text \<open>
  A guarded transition succeeds exactly when the job is in one of the source states; it then
  changes that job only, to the target state with the given fields, and otherwise changes
  nothing. A second identical transition loses, so exactly one caller wins.
\<close>

theorem transition_exclusive:
  assumes "jobs_wf db" "\<And>j. j_ID (others j) = j_ID j"
  shows "(fst (guardedTransition Some db jobId from target others)
            \<longleftrightarrow> (\<exists>j. getJobById db jobId = Some j \<and> j_status j \<in> set from))
    \<and> (\<not> fst (guardedTransition Some db jobId from target others)
         \<longrightarrow> snd (guardedTransition Some db jobId from target others) = db)
    \<and> getJobById (snd (guardedTransition Some db jobId from target others)) k
        = (if k = jobId \<and> fst (guardedTransition Some db jobId from target others)
           then map_option (\<lambda>j. (others j)\<lparr>j_status := target\<rparr>) (getJobById db k) else getJobById db k)
    \<and> (target \<notin> set from \<longrightarrow>
         \<not> fst (guardedTransition Some (snd (guardedTransition Some db jobId from target others)) jobId from target others))"
proof -
  let ?P = "\<lambda>j. j_ID j = jobId \<and> j_status j \<in> set from"
  let ?f = "\<lambda>j. (others j)\<lparr>j_status := target\<rparr>"
  have id: "j_ID (?f j) = j_ID j" for j using assms(2) by simp
  have wf': "jobs_wf (update_jobs ?P ?f db)"
    using assms(1) by (simp add: jobs_wf_def jobs_update_jobs update_where_keys id)
  have get: "getJobById (update_jobs ?P ?f db) k = map_option (\<lambda>j. if ?P j then ?f j else j) (getJobById db k)" for k
    by (rule getJobById_update_jobs) (rule id)
  have win: "fst (guardedTransition Some db jobId from target others)
      \<longleftrightarrow> (\<exists>j. getJobById db jobId = Some j \<and> j_status j \<in> set from)"
    by (rule guardedTransition_fst [OF assms(1)])
  have idle: "\<not> fst (guardedTransition Some db jobId from target others) \<Longrightarrow> update_jobs ?P ?f db = db"
    using win matches_iff [OF assms(1), of jobId "set from"] by (intro update_jobs_unmatched) auto
  have look: "getJobById (update_jobs ?P ?f db) k
      = (if k = jobId \<and> fst (guardedTransition Some db jobId from target others)
         then map_option ?f (getJobById db k) else getJobById db k)"
    by (cases "getJobById db k") (auto simp: get win dest: getJobById_id)
  have lose: "\<not> fst (guardedTransition Some (update_jobs ?P ?f db) jobId from target others)" if "target \<notin> set from"
    using that by (cases "getJobById db jobId") (auto simp: guardedTransition_fst [OF wf'] get dest: getJobById_id)
  show ?thesis using win idle look lose by (simp add: guardedTransition_snd)
qed

definition demo_job :: "string \<Rightarrow> WalletJobStatus \<Rightarrow> WalletJobRow" where
  "demo_job i st = (new_job i None 0 \<lparr>a_walletId = ''w1'', a_kind = SimpleAda, a_request = ''{}'',
     a_idempotencyKey = None, a_priority = None, a_notBefore = None, a_maxAttempts = None,
     a_createdBy = None\<rparr>)\<lparr>j_status := st\<rparr>"

definition demo_jobs :: wdb where
  "demo_jobs = demo_db\<lparr>jobs := [demo_job ''a'' Submitted, demo_job ''b'' Pending]\<rparr>"

lemma demo_jobs_wf: "jobs_wf demo_jobs"
  by code_simp

theorem transition_exclusive_witness:
  "\<not> fst (guardedTransition Some (snd (guardedTransition Some demo_jobs ''a'' [Submitted] Confirmed id)) ''a'' [Submitted] Confirmed id)
   \<and> fst (guardedTransition Some demo_jobs ''a'' [Submitted] Confirmed id)"
proof -
  have "getJobById demo_jobs ''a'' = Some (demo_job ''a'' Submitted)" by code_simp
  with transition_exclusive [OF demo_jobs_wf, of id "''a''" "[Submitted]" Confirmed "''a''"]
  show ?thesis by (auto simp: demo_job_def)
qed

text \<open>
  When the driver reports no row count, the fallback reads the row back and takes a row that was
  already in the target state for its own success: confirming a confirmed job succeeds again.
\<close>

theorem uncounted_transition_wins_twice:
  assumes "getJobById db jobId = Some j" "j_status j = Confirmed"
  shows "fst (markConfirmed (\<lambda>_. None) db jobId now)"
  using assms
  by (simp add: markConfirmed_def guardedTransition_def Let_def getJobById_update_jobs)

theorem uncounted_transition_wins_twice_witness:
  "fst (markConfirmed (\<lambda>_. None) (snd (markConfirmed (\<lambda>_. None) demo_jobs ''a'' 5)) ''a'' 6)"
proof -
  have "map_option j_status (getJobById (snd (markConfirmed (\<lambda>_. None) demo_jobs ''a'' 5)) ''a'') = Some Confirmed"
    by code_simp
  then obtain j where j: "getJobById (snd (markConfirmed (\<lambda>_. None) demo_jobs ''a'' 5)) ''a'' = Some j"
    "j_status j = Confirmed" by (auto simp: map_option_eq_Some)
  show ?thesis by (rule uncounted_transition_wins_twice [OF j])
qed

text \<open>
  For the submit this is worse than a wrong count: an executor that lost the race is told that
  its own signed transaction was stored, while the row holds the transaction of the winner.
\<close>

theorem uncounted_submit_claims_foreign_tx:
  assumes "getJobById db jobId = Some j" "j_status j = Submitting" "j_signedTxCbor j \<noteq> Some (t_signedTxCbor arts)"
  shows "fst (markSubmitting (\<lambda>_. None) db jobId arts now)
    \<and> map_option j_signedTxCbor (getJobById (snd (markSubmitting (\<lambda>_. None) db jobId arts now)) jobId)
        \<noteq> Some (Some (t_signedTxCbor arts))"
  using assms
  by (simp add: markSubmitting_def guardedTransition_def Let_def getJobById_update_jobs)

theorem uncounted_submit_claims_foreign_tx_witness:
  "fst (markSubmitting (\<lambda>_. None)
      (snd (markSubmitting (\<lambda>_. None) (demo_db\<lparr>jobs := [demo_job ''a'' Building]\<rparr>) ''a'' \<lparr>t_txHash = ''h1'', t_unsignedTxCbor = None, t_signedTxCbor = ''c1'', t_fee = None\<rparr> 5))
      ''a'' \<lparr>t_txHash = ''h2'', t_unsignedTxCbor = None, t_signedTxCbor = ''c2'', t_fee = None\<rparr> 6)"
proof -
  let ?db = "snd (markSubmitting (\<lambda>_. None) (demo_db\<lparr>jobs := [demo_job ''a'' Building]\<rparr>) ''a'' \<lparr>t_txHash = ''h1'', t_unsignedTxCbor = None, t_signedTxCbor = ''c1'', t_fee = None\<rparr> 5)"
  have "map_option (\<lambda>j. (j_status j, j_signedTxCbor j)) (getJobById ?db ''a'') = Some (Submitting, Some ''c1'')"
    by code_simp
  then obtain j where j: "getJobById ?db ''a'' = Some j" "j_status j = Submitting" "j_signedTxCbor j = Some ''c1''"
    by (auto simp: map_option_eq_Some)
  show ?thesis
    using uncounted_submit_claims_foreign_tx [OF j(1,2),
      of "\<lparr>t_txHash = ''h2'', t_unsignedTxCbor = None, t_signedTxCbor = ''c2'', t_fee = None\<rparr>" 6] j(3) by simp
qed

section \<open>Every write of the store\<close>

datatype store_op =
    OpInsert string time InsertJobArgs
  | OpBuilding string int
  | OpSubmitting string artifacts time
  | OpSubmitted string string
  | OpRequeue string string "time option"
  | OpRecordPoint string "int option" "int option"
  | OpClearPoint string
  | OpConfirmed string time
  | OpFailed string string string time
  | OpCancelled string time
  | OpFailOrphans string time
  | OpRecover time
  | OpRegister string WorkerSignerType string string
  | OpAcquire wdb string string time int
  | OpRenew string string time int
  | OpRelease string string
  | OpStats string stats_outcome time

fun store_step :: "(string \<Rightarrow> string) \<Rightarrow> adapter \<Rightarrow> store_op \<Rightarrow> wdb \<Rightarrow> wdb" where
  "store_step sha rep (OpInsert newId now args) db = snd (insertJob sha newId now id db args)"
| "store_step sha rep (OpBuilding i n) db = snd (markBuilding rep db i n)"
| "store_step sha rep (OpSubmitting i arts now) db = snd (markSubmitting rep db i arts now)"
| "store_step sha rep (OpSubmitted i h) db = snd (markSubmitted rep db i h)"
| "store_step sha rep (OpRequeue i m nb) db = snd (requeueForRetry rep db i m nb)"
| "store_step sha rep (OpRecordPoint i sl h) db = recordConfirmationPoint db i sl h"
| "store_step sha rep (OpClearPoint i) db = clearConfirmationPoint db i"
| "store_step sha rep (OpConfirmed i now) db = snd (markConfirmed rep db i now)"
| "store_step sha rep (OpFailed i c m now) db = snd (markFailed rep db i c m now)"
| "store_step sha rep (OpCancelled i now) db = snd (markCancelled rep db i now)"
| "store_step sha rep (OpFailOrphans w now) db = snd (failOrphanedBuildingJobs db w now)"
| "store_step sha rep (OpRecover now) db = snd (recoverInterruptedJobs db now)"
| "store_step sha rep (OpRegister w st a k) db = upsertWalletRegistration db w st a k"
| "store_step sha rep (OpAcquire db0 w ow now ttl) db = snd (tryAcquireWalletLease db0 db w ow now ttl)"
| "store_step sha rep (OpRenew w ow now ttl) db = snd (renewWalletLease db w ow now ttl)"
| "store_step sha rep (OpRelease w ow) db = releaseWalletLease db w ow"
| "store_step sha rep (OpStats w outcome now) db = bumpWalletStats db w outcome now"

definition store_run :: "(string \<Rightarrow> string) \<Rightarrow> adapter \<Rightarrow> store_op list \<Rightarrow> wdb \<Rightarrow> wdb" where
  "store_run sha rep ops db = fold (store_step sha rep) ops db"

section \<open>What a job row may become\<close>

text \<open>The order of the states; a terminal state is final, and nothing leads back behind the submit.\<close>

fun advances :: "WalletJobStatus \<Rightarrow> WalletJobStatus \<Rightarrow> bool" where
  "advances Pending t = True"
| "advances Building t = True"
| "advances Submitting t = (t \<in> {Submitting, Submitted, Confirmed, Failed})"
| "advances Submitted t = (t \<in> {Submitted, Confirmed, Failed})"
| "advances Confirmed t = (t = Confirmed)"
| "advances Failed t = (t = Failed)"
| "advances Cancelled t = (t = Cancelled)"

definition row_evolves :: "WalletJobRow \<Rightarrow> WalletJobRow \<Rightarrow> bool" where
  "row_evolves j j' \<longleftrightarrow>
     j_ID j' = j_ID j \<and> j_walletId j' = j_walletId j \<and> j_kind j' = j_kind j \<and> j_request j' = j_request j
   \<and> j_createdBy j' = j_createdBy j \<and> j_maxAttempts j' = j_maxAttempts j \<and> j_createdAt j' = j_createdAt j
   \<and> advances (j_status j) (j_status j')
   \<and> (j_status j \<notin> {Pending, Building} \<longrightarrow>
        j_signedTxCbor j' = j_signedTxCbor j \<and> j_unsignedTxCbor j' = j_unsignedTxCbor j
      \<and> j_submittedAt j' = j_submittedAt j \<and> j_attempt j' = j_attempt j)
   \<and> (j_status j \<in> {Confirmed, Failed, Cancelled} \<longrightarrow> j' = j\<lparr>j_dedupKey := j_dedupKey j'\<rparr>)
   \<and> (j_status j' \<notin> {Failed, Cancelled} \<longrightarrow> j_dedupKey j' = j_dedupKey j)"

lemma row_evolves_refl: "row_evolves j j"
  by (cases "j_status j") (simp_all add: row_evolves_def)

lemma advances_trans: "advances a b \<Longrightarrow> advances b c \<Longrightarrow> advances a c"
  by (cases a; cases b) auto

lemma row_evolves_trans:
  assumes "row_evolves j j'" "row_evolves j' j''"
  shows "row_evolves j j''"
proof -
  have st: "advances (j_status j) (j_status j'')"
    using assms advances_trans unfolding row_evolves_def by blast
  have frozen: "j_status j \<notin> {Pending, Building} \<Longrightarrow> j_status j' \<notin> {Pending, Building}"
    using assms(1) unfolding row_evolves_def by (cases "j_status j") auto
  have final: "j'' = j\<lparr>j_dedupKey := j_dedupKey j''\<rparr>" if "j_status j \<in> {Confirmed, Failed, Cancelled}"
  proof -
    have 1: "j' = j\<lparr>j_dedupKey := j_dedupKey j'\<rparr>" using assms(1) that unfolding row_evolves_def by blast
    then have "j_status j' = j_status j" by (metis WalletJobRow.select_convs(4) WalletJobRow.surjective WalletJobRow.update_convs(6))
    then have 2: "j'' = j'\<lparr>j_dedupKey := j_dedupKey j''\<rparr>" using assms(2) that unfolding row_evolves_def by auto
    have "j'\<lparr>j_dedupKey := j_dedupKey j''\<rparr> = j\<lparr>j_dedupKey := j_dedupKey j'\<rparr>\<lparr>j_dedupKey := j_dedupKey j''\<rparr>"
      using 1 by simp
    with 2 show ?thesis by simp
  qed
  have key: "j_dedupKey j'' = j_dedupKey j" if "j_status j'' \<notin> {Failed, Cancelled}"
  proof -
    have "j_status j' \<notin> {Failed, Cancelled}"
      using assms(2) that unfolding row_evolves_def by (cases "j_status j'") auto
    with assms that show ?thesis unfolding row_evolves_def by simp
  qed
  show ?thesis using assms st frozen final key unfolding row_evolves_def by auto
qed


section \<open>Every write moves every row along\<close>

definition db_evolves :: "wdb \<Rightarrow> wdb \<Rightarrow> bool" where
  "db_evolves db db' \<longleftrightarrow> (jobs_wf db \<longrightarrow> jobs_wf db')
     \<and> (\<forall>k j. getJobById db k = Some j \<longrightarrow> (\<exists>j'. getJobById db' k = Some j' \<and> row_evolves j j'))"

lemma db_evolves_refl [intro]: "db_evolves db db"
  using row_evolves_refl by (auto simp: db_evolves_def)

lemma db_evolves_trans: "db_evolves a b \<Longrightarrow> db_evolves b c \<Longrightarrow> db_evolves a c"
  unfolding db_evolves_def by (meson row_evolves_trans)

lemma db_evolves_same_jobs: "jobs db' = jobs db \<Longrightarrow> db_evolves db db'"
  using row_evolves_refl by (auto simp: db_evolves_def jobs_wf_def getJobById_def)

lemma db_evolves_update:
  assumes "\<And>j. j_ID (f j) = j_ID j"
    and "\<And>k j. getJobById db k = Some j \<Longrightarrow> P j \<Longrightarrow> row_evolves j (f j)"
  shows "db_evolves db (update_jobs P f db)"
proof -
  have "row_evolves j (if P j then f j else j)" if "getJobById db k = Some j" for k j
    using assms(2) [OF that] row_evolves_refl by simp
  then show ?thesis
    using assms(1)
    by (auto simp: db_evolves_def jobs_wf_def jobs_update_jobs update_where_keys getJobById_update_jobs)
qed

lemma db_evolves_guarded:
  assumes "\<And>j. j_ID (others j) = j_ID j"
    and "\<And>j. j_status j \<in> set from \<Longrightarrow> j_ID j = jobId \<Longrightarrow> row_evolves j ((others j)\<lparr>j_status := target\<rparr>)"
  shows "db_evolves db (snd (guardedTransition rep db jobId from target others))"
  unfolding guardedTransition_snd by (rule db_evolves_update) (use assms in auto)

lemma evolves_markBuilding: "db_evolves db (snd (markBuilding rep db i n))"
  unfolding markBuilding_def by (rule db_evolves_guarded) (auto simp: row_evolves_def)

lemma evolves_markSubmitting: "db_evolves db (snd (markSubmitting rep db i arts now))"
  unfolding markSubmitting_def by (rule db_evolves_guarded) (auto simp: row_evolves_def)

lemma evolves_markSubmitted: "db_evolves db (snd (markSubmitted rep db i h))"
  unfolding markSubmitted_def by (rule db_evolves_guarded) (auto simp: row_evolves_def)

lemma evolves_requeueForRetry: "db_evolves db (snd (requeueForRetry rep db i m nb))"
  unfolding requeueForRetry_def
  by (rule db_evolves_guarded) (auto simp: row_evolves_def Let_def split: option.split)

lemma evolves_markConfirmed: "db_evolves db (snd (markConfirmed rep db i now))"
  unfolding markConfirmed_def by (rule db_evolves_guarded) (auto simp: row_evolves_def)

lemma evolves_markFailed: "db_evolves db (snd (markFailed rep db i c m now))"
  unfolding markFailed_def by (rule db_evolves_guarded) (auto simp: row_evolves_def)

lemma evolves_markCancelled: "db_evolves db (snd (markCancelled rep db i now))"
  unfolding markCancelled_def by (rule db_evolves_guarded) (auto simp: row_evolves_def)

lemma evolves_points:
  "db_evolves db (recordConfirmationPoint db i sl h)" "db_evolves db (clearConfirmationPoint db i)"
  unfolding recordConfirmationPoint_def clearConfirmationPoint_def
  by (rule db_evolves_update; auto simp: row_evolves_def)+

lemma evolves_fail_interrupted: "db_evolves db (fail_interrupted now i db)"
  unfolding fail_interrupted_def by (rule db_evolves_update) (auto simp: row_evolves_def)

lemma evolves_fold: "(\<And>x db. db_evolves db (g x db)) \<Longrightarrow> db_evolves db (fold g xs db)"
  by (induction xs arbitrary: db) (auto intro: db_evolves_trans)

lemma evolves_failOrphans: "db_evolves db (snd (failOrphanedBuildingJobs db w now))"
  unfolding failOrphanedBuildingJobs_def Let_def
  using evolves_fold [of "fail_interrupted now", OF evolves_fail_interrupted] by auto

lemma evolves_recover: "db_evolves db (snd (recoverInterruptedJobs db now))"
proof -
  have "db_evolves db (snd (fold (\<lambda>w (n, d). let (k, d') = failOrphanedBuildingJobs d w now in (n + k, d')) ws (n, db)))"
    for ws n db
  proof (induction ws arbitrary: n db)
    case (Cons w ws)
    obtain k d' where "failOrphanedBuildingJobs db w now = (k, d')" by (cases "failOrphanedBuildingJobs db w now")
    with Cons [of d' "n + k"] evolves_failOrphans [of db w now] show ?case
      by (auto intro: db_evolves_trans)
  qed auto
  then show ?thesis
    by (simp add: recoverInterruptedJobs_def Let_def split: prod.split) (metis snd_conv)
qed

lemma evolves_insert_row: "insert_row db j = Inr db' \<Longrightarrow> db_evolves db db'"
  using row_evolves_refl
  by (auto simp: insert_row_def db_evolves_def jobs_wf_def getJobById_def find_row_append split: if_splits)

lemma evolves_releaseDedupClaim:
  assumes "getJobById db i = Some j" "j_status j \<in> {Failed, Cancelled}"
  shows "db_evolves db (releaseDedupClaim db i)"
  unfolding releaseDedupClaim_def
proof (rule db_evolves_update)
  fix k ja assume "getJobById db k = Some ja" "j_ID ja = i"
  with assms(1) getJobById_id have "ja = j" by fastforce
  with assms(2) show "row_evolves ja (ja\<lparr>j_dedupKey := i\<rparr>)" by (auto simp: row_evolves_def)
qed simp

lemma readDedupHolder_SomeD:
  "readDedupHolder db w k c = Some j \<Longrightarrow> j \<in> set (jobs db) \<and> j_walletId j = w \<and> j_kind j = k \<and> j_dedupKey j = c"
  unfolding readDedupHolder_def by (auto simp: find_Some_iff)

lemma get_of_member: "jobs_wf db \<Longrightarrow> j \<in> set (jobs db) \<Longrightarrow> getJobById db (j_ID j) = Some j"
  by (simp add: jobs_wf_def getJobById_def find_row_unique)

text \<open>Where the INSERT may run and what it does there.\<close>

lemma insertJob_snd:
  "snd (insertJob sha newId now id db args) = db
   \<or> (\<exists>db1. insert_row db1 (new_job newId (claim_of sha args) now args) \<in> {Inr (snd (insertJob sha newId now id db args))}
        \<and> (db1 = db \<or> (\<exists>h. h \<in> set (jobs db) \<and> j_status h \<in> {Failed, Cancelled} \<and> db1 = releaseDedupClaim db (j_ID h))))
   \<or> (\<exists>h. h \<in> set (jobs db) \<and> j_status h \<in> {Failed, Cancelled}
        \<and> snd (insertJob sha newId now id db args) = releaseDedupClaim db (j_ID h))"
  by (auto simp: insertJob_def insert_or_winner_def Let_def split: option.splits sum.splits dest: readDedupHolder_SomeD)

lemma evolves_insertJob:
  assumes "jobs_wf db"
  shows "db_evolves db (snd (insertJob sha newId now id db args))"
proof -
  have rel: "db_evolves db (releaseDedupClaim db (j_ID h))" if "h \<in> set (jobs db)" "j_status h \<in> {Failed, Cancelled}" for h
    using evolves_releaseDedupClaim [OF get_of_member [OF assms that(1)] that(2)] .
  have ins: "db_evolves db db'" if "db_evolves db db1" "insert_row db1 r = Inr db'" for db1 r db'
    using db_evolves_trans [OF that(1) evolves_insert_row [OF that(2)]] .
  from insertJob_snd [of sha newId now db args] show ?thesis
    using rel ins by (auto intro: ins)
qed

lemma jobs_wallet_ops [simp]:
  "jobs (upsertWalletRegistration db w st a k) = jobs db"
  "jobs (snd (tryAcquireWalletLease db0 db w ow now ttl)) = jobs db"
  "jobs (snd (renewWalletLease db w ow now ttl)) = jobs db"
  "jobs (releaseWalletLease db w ow) = jobs db"
  "jobs (bumpWalletStats db w outcome now) = jobs db"
  by (auto simp: upsertWalletRegistration_def tryAcquireWalletLease_def renewWalletLease_def Let_def
      releaseWalletLease_def bumpWalletStats_def split: option.splits)

lemmas evolves_ops = evolves_markBuilding evolves_markSubmitting evolves_markSubmitted evolves_requeueForRetry
  evolves_points evolves_markConfirmed evolves_markFailed evolves_markCancelled evolves_failOrphans
  evolves_recover evolves_insertJob

lemma evolves_step: "jobs_wf db \<Longrightarrow> db_evolves db (store_step sha rep x db)"
  by (cases x) (simp_all add: evolves_ops db_evolves_same_jobs)

lemma evolves_run: "jobs_wf db \<Longrightarrow> db_evolves db (store_run sha rep ops db)"
  unfolding store_run_def
proof (induction ops arbitrary: db)
  case (Cons x ops)
  from evolves_step [OF Cons.prems, of sha rep x] have 1: "db_evolves db (store_step sha rep x db)" .
  with Cons.prems have "jobs_wf (store_step sha rep x db)" by (simp add: db_evolves_def)
  from db_evolves_trans [OF 1 Cons.IH [OF this]] show ?case by simp
qed auto

lemma lifecycle:
  assumes "jobs_wf db" "getJobById db jobId = Some j"
  shows "\<exists>j'. getJobById (store_run sha rep ops db) jobId = Some j' \<and> row_evolves j j'"
  using evolves_run [OF assms(1)] assms(2) unfolding db_evolves_def by blast

text \<open>
  C6. Under every sequence of writes a job keeps its identity, its wallet, its request and its
  owner; its state only advances (a confirmed, failed or cancelled job is never changed again,
  apart from giving up its idempotency key, and a job at or behind the submit never returns to
  pending or building); and from the submit on the stored transaction is frozen.
\<close>

theorem job_lifecycle:
  assumes "jobs_wf db" "getJobById db jobId = Some j"
  shows "\<exists>j'. getJobById (store_run sha rep ops db) jobId = Some j' \<and> row_evolves j j'"
  using assms by (rule lifecycle)

theorem job_lifecycle_witness:
  "\<exists>j'. getJobById (store_run id Some
      [OpConfirmed ''a'' 5, OpFailed ''a'' ''X'' ''late'' 6, OpBuilding ''b'' 1, OpRequeue ''a'' ''again'' None] demo_jobs) ''a'' = Some j'
    \<and> row_evolves (demo_job ''a'' Submitted) j'"
proof (rule job_lifecycle [OF demo_jobs_wf])
  show "getJobById demo_jobs ''a'' = Some (demo_job ''a'' Submitted)" by code_simp
qed


section \<open>Idempotency keys\<close>

text \<open>
  The UNIQUE constraint holds, and a key is the own id of its job or no job's id at all, so that
  giving up a key (\<open>dedupKey := ID\<close>) cannot collide. An insert is \<open>fresh\<close> when its UUID is not
  in use as a key and its key is not in use as an id.
\<close>

definition dedup_wf :: "wdb \<Rightarrow> bool" where
  "dedup_wf db \<longleftrightarrow> jobs_wf db \<and> distinct (map dedup_triple (jobs db))
     \<and> (\<forall>j \<in> set (jobs db). j_dedupKey j = j_ID j \<or> j_dedupKey j \<notin> j_ID ` set (jobs db))"

definition fresh_insert :: "(string \<Rightarrow> string) \<Rightarrow> string \<Rightarrow> InsertJobArgs \<Rightarrow> wdb \<Rightarrow> bool" where
  "fresh_insert sha newId args db \<longleftrightarrow> newId \<notin> j_dedupKey ` set (jobs db)
     \<and> (case claim_of sha args of None \<Rightarrow> True | Some c \<Rightarrow> c \<noteq> newId \<and> c \<notin> j_ID ` set (jobs db))"

fun fresh_op :: "(string \<Rightarrow> string) \<Rightarrow> store_op \<Rightarrow> wdb \<Rightarrow> bool" where
  "fresh_op sha (OpInsert newId now args) db = fresh_insert sha newId args db"
| "fresh_op sha _ db = True"

fun fresh_run :: "(string \<Rightarrow> string) \<Rightarrow> adapter \<Rightarrow> store_op list \<Rightarrow> wdb \<Rightarrow> bool" where
  "fresh_run sha rep [] db = True"
| "fresh_run sha rep (x # ops) db = (fresh_op sha x db \<and> fresh_run sha rep ops (store_step sha rep x db))"

lemma dedup_wf_jobs_wf: "dedup_wf db \<Longrightarrow> jobs_wf db"
  by (simp add: dedup_wf_def)

lemma dedup_wf_same_jobs: "jobs db' = jobs db \<Longrightarrow> dedup_wf db \<Longrightarrow> dedup_wf db'"
  by (simp add: dedup_wf_def jobs_wf_def)

lemma dedup_wf_map:
  assumes wf: "dedup_wf db"
    and same: "\<And>j. j_ID (h j) = j_ID j" "\<And>j. j_walletId (h j) = j_walletId j" "\<And>j. j_kind (h j) = j_kind j"
    and key: "\<And>j. j_dedupKey (h j) = j_dedupKey j \<or> j_dedupKey (h j) = j_ID j"
  shows "dedup_wf (db\<lparr>jobs := map h (jobs db)\<rparr>)"
proof -
  have own: "j_dedupKey j = j_ID j \<or> j_dedupKey j \<notin> j_ID ` set (jobs db)" if "j \<in> set (jobs db)" for j
    using wf that by (simp add: dedup_wf_def)
  have idinj: "inj_on j_ID (set (jobs db))" and dist: "distinct (jobs db)" and tinj: "inj_on dedup_triple (set (jobs db))"
    using wf by (simp_all add: dedup_wf_def jobs_wf_def distinct_map)
  have "x = y" if "x \<in> set (jobs db)" "y \<in> set (jobs db)" "dedup_triple (h x) = dedup_triple (h y)" for x y
  proof -
    have eq: "j_dedupKey (h x) = j_dedupKey (h y)" "j_walletId x = j_walletId y" "j_kind x = j_kind y"
      using that(3) same by (auto simp: dedup_triple_def)
    have "j_dedupKey x = j_dedupKey y \<or> j_ID x = j_ID y"
      using eq(1) key [of x] key [of y] own [OF that(1)] own [OF that(2)] that(1,2) by (metis imageI)
    then show ?thesis
      using eq(2,3) inj_onD [OF tinj _ that(1,2)] inj_onD [OF idinj _ that(1,2)] by (auto simp: dedup_triple_def)
  qed
  then have "inj_on (dedup_triple \<circ> h) (set (jobs db))" by (intro inj_onI) simp
  with dist have 1: "distinct (map (dedup_triple \<circ> h) (jobs db))" by (simp add: distinct_map)
  have "j_dedupKey (h j) = j_ID j \<or> j_dedupKey (h j) \<notin> j_ID ` set (jobs db)" if "j \<in> set (jobs db)" for j
    using own [OF that] key [of j] by auto
  with 1 wf show ?thesis
    by (simp add: dedup_wf_def jobs_wf_def same comp_def image_image)
qed

lemma dedup_wf_update:
  assumes "dedup_wf db"
    and "\<And>j. j_ID (f j) = j_ID j" "\<And>j. j_walletId (f j) = j_walletId j" "\<And>j. j_kind (f j) = j_kind j"
    and "\<And>j. P j \<Longrightarrow> j_dedupKey (f j) = j_dedupKey j \<or> j_dedupKey (f j) = j_ID j"
  shows "dedup_wf (update_jobs P f db)"
  unfolding update_jobs_def update_where_def by (rule dedup_wf_map) (use assms in auto)

lemma dedup_wf_guarded:
  assumes "dedup_wf db"
    and "\<And>j. j_ID (others j) = j_ID j" "\<And>j. j_walletId (others j) = j_walletId j" "\<And>j. j_kind (others j) = j_kind j"
    and "\<And>j. j_ID j = jobId \<Longrightarrow> j_dedupKey (others j) = j_dedupKey j \<or> j_dedupKey (others j) = jobId"
  shows "dedup_wf (snd (guardedTransition rep db jobId from target others))"
  unfolding guardedTransition_snd by (rule dedup_wf_update [OF assms(1)]) (use assms(2-) in auto)

lemmas transition_defs = markBuilding_def markSubmitting_def markSubmitted_def requeueForRetry_def
  markConfirmed_def markFailed_def markCancelled_def

lemma dedup_wf_transitions:
  assumes "dedup_wf db"
  shows "dedup_wf (snd (markBuilding rep db i n))" "dedup_wf (snd (markSubmitting rep db i arts now))"
    "dedup_wf (snd (markSubmitted rep db i h))" "dedup_wf (snd (requeueForRetry rep db i m nb))"
    "dedup_wf (snd (markConfirmed rep db i now))" "dedup_wf (snd (markFailed rep db i c m now))"
    "dedup_wf (snd (markCancelled rep db i now))"
  unfolding transition_defs
  by (rule dedup_wf_guarded [OF assms]; simp add: Let_def split: option.split)+

lemma dedup_wf_points:
  assumes "dedup_wf db"
  shows "dedup_wf (recordConfirmationPoint db i sl h)" "dedup_wf (clearConfirmationPoint db i)"
    "dedup_wf (releaseDedupClaim db i)" "dedup_wf (fail_interrupted now i db)"
  unfolding recordConfirmationPoint_def clearConfirmationPoint_def releaseDedupClaim_def fail_interrupted_def
  by (rule dedup_wf_update [OF assms]; simp)+

lemma dedup_wf_failOrphans: "dedup_wf db \<Longrightarrow> dedup_wf (snd (failOrphanedBuildingJobs db w now))"
proof -
  have "dedup_wf d \<Longrightarrow> dedup_wf (fold (fail_interrupted now) is d)" for "is" d
    by (induction "is" arbitrary: d) (auto simp: dedup_wf_points)
  then show "dedup_wf db \<Longrightarrow> dedup_wf (snd (failOrphanedBuildingJobs db w now))"
    by (simp add: failOrphanedBuildingJobs_def Let_def)
qed

lemma dedup_wf_recover:
  assumes "dedup_wf db"
  shows "dedup_wf (snd (recoverInterruptedJobs db now))"
proof -
  have "dedup_wf d \<Longrightarrow>
    dedup_wf (snd (fold (\<lambda>w (n, d). let (k, d') = failOrphanedBuildingJobs d w now in (n + k, d')) ws (n, d)))"
    for ws n d
  proof (induction ws arbitrary: n d)
    case (Cons w ws)
    obtain k d' where "failOrphanedBuildingJobs d w now = (k, d')" by (cases "failOrphanedBuildingJobs d w now")
    with Cons.IH [of d' "n + k"] dedup_wf_failOrphans [OF Cons.prems, of w now] show ?case by simp
  qed simp
  with assms show ?thesis
    by (simp add: recoverInterruptedJobs_def Let_def split: prod.split) (metis snd_conv)
qed

lemma dedup_wf_append:
  assumes "dedup_wf db" "j_ID j \<notin> j_ID ` set (jobs db)" "dedup_triple j \<notin> dedup_triple ` set (jobs db)"
    and "j_ID j \<notin> j_dedupKey ` set (jobs db)"
    and "j_dedupKey j = j_ID j \<or> j_dedupKey j \<notin> insert (j_ID j) (j_ID ` set (jobs db))"
  shows "dedup_wf (db\<lparr>jobs := jobs db @ [j]\<rparr>)"
proof -
  have "j_dedupKey k = j_ID k \<or> j_dedupKey k \<notin> insert (j_ID j) (j_ID ` set (jobs db))" if "k \<in> set (jobs db)" for k
    using assms(1,4) that by (force simp: dedup_wf_def)
  with assms show ?thesis by (simp add: dedup_wf_def jobs_wf_def)
qed

lemma insert_row_dedup_wf:
  assumes "dedup_wf db" "insert_row db (new_job newId (claim_of sha args) now args) = Inr db'"
    and "fresh_insert sha newId args db"
  shows "dedup_wf db'"
proof -
  let ?j = "new_job newId (claim_of sha args) now args"
  have id: "j_ID ?j = newId" "j_dedupKey ?j = nullish (claim_of sha args) newId" by (simp_all add: new_job_def)
  from assms(2) have "db' = db\<lparr>jobs := jobs db @ [?j]\<rparr>" "j_ID ?j \<notin> j_ID ` set (jobs db)"
    "dedup_triple ?j \<notin> dedup_triple ` set (jobs db)" by (simp_all add: insert_row_def split: if_splits)
  with dedup_wf_append [OF assms(1), of ?j] assms(3) show ?thesis
    by (simp add: id fresh_insert_def split: option.splits)
qed

lemma releaseDedupClaim_ids: "j_ID ` set (jobs (releaseDedupClaim db i)) = j_ID ` set (jobs db)"
proof -
  have "map j_ID (jobs (releaseDedupClaim db i)) = map j_ID (jobs db)"
    by (simp add: releaseDedupClaim_def jobs_update_jobs update_where_keys)
  then show ?thesis by (metis list.set_map)
qed

lemma fresh_insert_release:
  assumes "fresh_insert sha newId args db" "newId \<notin> j_ID ` set (jobs db)" "h \<in> set (jobs db)"
  shows "fresh_insert sha newId args (releaseDedupClaim db (j_ID h))"
proof -
  let ?h = "\<lambda>j. if j_ID j = j_ID h then j\<lparr>j_dedupKey := j_ID h\<rparr> else j"
  have jb: "jobs (releaseDedupClaim db (j_ID h)) = map ?h (jobs db)"
    by (simp add: releaseDedupClaim_def jobs_update_jobs update_where_def)
  have ids: "j_ID ` set (map ?h (jobs db)) = j_ID ` set (jobs db)"
    using releaseDedupClaim_ids [of db "j_ID h"] by (simp only: jb)
  have "j_dedupKey (?h j) \<noteq> newId" if "j \<in> set (jobs db)" for j
    using assms that by (auto simp: fresh_insert_def)
  then have "newId \<notin> j_dedupKey ` set (map ?h (jobs db))" unfolding set_map image_image by (metis (mono_tags, lifting) imageE)
  with assms(1) ids show ?thesis unfolding fresh_insert_def jb by (simp only:) simp
qed

lemma dedup_wf_insert_or_winner:
  assumes "dedup_wf (race db)" "fresh_insert sha newId args (race db)"
  shows "dedup_wf (snd (insert_or_winner newId now race (claim_of sha args) args db))"
proof (cases "insert_row (race db) (new_job newId (claim_of sha args) now args)")
  case (Inr db')
  with insert_row_dedup_wf [OF assms(1) this assms(2)] show ?thesis
    by (simp add: insert_or_winner_def)
qed (use assms in \<open>simp add: insert_or_winner_def Let_def split: option.split\<close>)

text \<open>The two databases an INSERT may start from.\<close>

lemma insertJob_cases:
  obtains (fast) c h where "claim_of sha args = Some c"
      "readDedupHolder db (a_walletId args) (a_kind args) c = Some h" "j_status h \<notin> {Failed, Cancelled}"
      "insertJob sha newId now race db args
        = (Inr \<lparr>r_jobId = j_ID h, r_status = j_status h, r_deduplicated = True\<rparr>, db)"
    | (plain) "insertJob sha newId now race db args = insert_or_winner newId now race (claim_of sha args) args db"
    | (release) h where "h \<in> set (jobs db)"
      "insertJob sha newId now race db args
        = insert_or_winner newId now race (claim_of sha args) args (releaseDedupClaim db (j_ID h))"
proof (cases "claim_of sha args")
  case None
  then show thesis by (intro plain) (simp add: insertJob_def)
next
  case (Some c)
  note claim = this
  show thesis
  proof (cases "readDedupHolder db (a_walletId args) (a_kind args) c")
    case None
    with claim show thesis by (intro plain) (simp add: insertJob_def)
  next
    case (Some h)
    show thesis
    proof (cases "j_status h \<in> {Failed, Cancelled}")
      case True
      with claim Some show thesis
        by (intro release [of h]) (auto simp: insertJob_def dest: readDedupHolder_SomeD)
    next
      case False
      with claim Some show thesis by (intro fast [of c h]) (auto simp: insertJob_def)
    qed
  qed
qed

lemma dedup_wf_insertJob:
  assumes "dedup_wf db"
    and "\<forall>d \<in> insert db ((\<lambda>h. releaseDedupClaim db (j_ID h)) ` set (jobs db)).
           dedup_wf (race d) \<and> fresh_insert sha newId args (race d)"
  shows "dedup_wf (snd (insertJob sha newId now race db args))"
  by (cases rule: insertJob_cases [of sha args db newId now race])
    (use assms in \<open>auto simp: dedup_wf_insert_or_winner\<close>)

text \<open>A duplicate id makes the INSERT fail, so freshness of the UUID as an id is not needed.\<close>

lemma insert_dup_id: "newId \<in> j_ID ` set (jobs db) \<Longrightarrow> insert_row db (new_job newId c now args) = Inl UniqueViolation"
  by (simp add: insert_row_def new_job_def)

lemma dedup_wf_insert_id:
  assumes "dedup_wf db" "fresh_insert sha newId args db"
  shows "dedup_wf (snd (insertJob sha newId now id db args))"
proof (cases "newId \<in> j_ID ` set (jobs db)")
  case True
  with True have stays: "snd (insert_or_winner newId now id c args (releaseDedupClaim db i)) = releaseDedupClaim db i"
    "snd (insert_or_winner newId now id c args db) = db" for c i
    by (simp_all add: insert_or_winner_def insert_dup_id releaseDedupClaim_ids Let_def split: option.split)
  show ?thesis
    by (cases rule: insertJob_cases [of sha args db newId now id])
      (use assms(1) in \<open>simp_all add: stays dedup_wf_points(3)\<close>)
next
  case False
  with assms show ?thesis
    by (intro dedup_wf_insertJob) (auto simp: fresh_insert_release dedup_wf_points(3))
qed

lemma dedup_wf_step: "dedup_wf db \<Longrightarrow> fresh_op sha x db \<Longrightarrow> dedup_wf (store_step sha rep x db)"
  by (cases x) (simp_all add: dedup_wf_transitions dedup_wf_points dedup_wf_failOrphans dedup_wf_recover
      dedup_wf_insert_id dedup_wf_same_jobs [of "store_step sha rep x db" for x] dedup_wf_same_jobs)

lemma dedup_wf_run: "dedup_wf db \<Longrightarrow> fresh_run sha rep ops db \<Longrightarrow> dedup_wf (store_run sha rep ops db)"
  by (induction ops arbitrary: db) (simp_all add: store_run_def dedup_wf_step)


lemma insert_or_winner_returns:
  assumes "insert_or_winner newId now race (Some c) args db = (Inr r, db')"
  shows "\<exists>j \<in> set (jobs db'). j_ID j = r_jobId r \<and> j_status j = r_status r
           \<and> dedup_triple j = (a_walletId args, a_kind args, c)"
proof (cases "insert_row (race db) (new_job newId (Some c) now args)")
  case (Inl e)
  with assms show ?thesis
    by (auto simp: insert_or_winner_def Let_def dedup_triple_def split: option.splits dest!: readDedupHolder_SomeD)
next
  case (Inr db3)
  then have "new_job newId (Some c) now args \<in> set (jobs db3)" by (auto simp: insert_row_def split: if_splits)
  with Inr assms show ?thesis
    by (intro bexI [of _ "new_job newId (Some c) now args"]) (auto simp: insert_or_winner_def dedup_triple_def new_job_def)
qed

lemma insertJob_returns:
  assumes "claim_of sha args = Some c" "insertJob sha newId now race db args = (Inr r, db')"
  shows "\<exists>j \<in> set (jobs db'). j_ID j = r_jobId r \<and> j_status j = r_status r
           \<and> dedup_triple j = (a_walletId args, a_kind args, c)"
proof (cases rule: insertJob_cases [of sha args db newId now race])
  case (fast c' h)
  from readDedupHolder_SomeD [OF fast(2)] fast(1,4) assms show ?thesis
    by (intro bexI [of _ h]) (auto simp: dedup_triple_def)
qed (use assms insert_or_winner_returns in auto)

lemma readDedupHolder_unique:
  assumes "dedup_wf db" "j \<in> set (jobs db)" "dedup_triple j = (w, k, c)"
  shows "readDedupHolder db w k c = Some j"
proof -
  have P: "j_walletId j = w \<and> j_kind j = k \<and> j_dedupKey j = c" using assms(3) by (simp add: dedup_triple_def)
  obtain h where h: "readDedupHolder db w k c = Some h"
    using assms(2) P unfolding readDedupHolder_def by (cases "find (\<lambda>j. j_walletId j = w \<and> j_kind j = k \<and> j_dedupKey j = c) (jobs db)")
      (auto simp: find_None_iff)
  from readDedupHolder_SomeD [OF h] P have "dedup_triple h = dedup_triple j" "h \<in> set (jobs db)"
    by (simp_all add: dedup_triple_def)
  with assms(1,2) have "h = j" by (auto simp: dedup_wf_def distinct_map dest: inj_onD)
  with h show ?thesis by simp
qed


definition demo_args :: InsertJobArgs where
  "demo_args = \<lparr>a_walletId = ''w1'', a_kind = SimpleAda, a_request = ''{}'', a_idempotencyKey = Some ''k1'',
     a_priority = None, a_notBefore = None, a_maxAttempts = None, a_createdBy = Some ''alice''\<rparr>"

lemma demo_jobs_dedup_wf: "dedup_wf demo_jobs"
  by code_simp


lemma distinct_singleton_set: "distinct xs \<Longrightarrow> set xs = {x} \<Longrightarrow> xs = [x]"
  by (cases xs; cases "tl xs") auto

text \<open>
  The insert race: whatever other transactions commit between the lookup and the INSERT, a
  submission with a key that succeeds returns the one job that holds the key afterwards.
\<close>

theorem insert_race_one_job:
  assumes "dedup_wf db"
    and "\<forall>d \<in> insert db ((\<lambda>h. releaseDedupClaim db (j_ID h)) ` set (jobs db)).
           dedup_wf (race d) \<and> fresh_insert sha newId args (race d)"
    and "claim_of sha args = Some c"
    and "insertJob sha newId now race db args = (Inr r, db')"
  shows "\<exists>j. filter (\<lambda>k. dedup_triple k = (a_walletId args, a_kind args, c)) (jobs db') = [j]
           \<and> j_ID j = r_jobId r \<and> j_status j = r_status r"
proof -
  have wf: "dedup_wf db'" using dedup_wf_insertJob [OF assms(1,2), of now] assms(4) by simp
  from insertJob_returns [OF assms(3,4)] obtain j where j: "j \<in> set (jobs db')" "j_ID j = r_jobId r"
    "j_status j = r_status r" "dedup_triple j = (a_walletId args, a_kind args, c)" by blast
  let ?P = "\<lambda>k. dedup_triple k = (a_walletId args, a_kind args, c)"
  have "distinct (filter ?P (jobs db'))" using wf by (simp add: dedup_wf_def distinct_map)
  moreover have "x = j" if "x \<in> set (jobs db')" "?P x" for x
  proof (rule inj_onD)
    show "inj_on dedup_triple (set (jobs db'))" using wf by (simp add: dedup_wf_def distinct_map)
  qed (use that j(1,4) in simp_all)
  then have "set (filter ?P (jobs db')) = {j}" unfolding set_filter using j(1,4) by blast
  ultimately have "filter ?P (jobs db') = [j]" by (rule distinct_singleton_set)
  with j show ?thesis by blast
qed


definition demo_race :: "wdb \<Rightarrow> wdb" where
  "demo_race d = snd (insertJob id ''x'' 3 id d demo_args)"

theorem insert_race_one_job_witness:
  "insertJob id ''y'' 4 demo_race demo_jobs demo_args
     = (Inr \<lparr>r_jobId = ''x'', r_status = Pending, r_deduplicated = True\<rparr>, demo_race demo_jobs)
   \<and> (\<exists>j. filter (\<lambda>k. dedup_triple k = (''w1'', SimpleAda, ''o:alice k1'')) (jobs (demo_race demo_jobs)) = [j])"
proof -
  let ?r = "\<lparr>r_jobId = ''x'', r_status = Pending, r_deduplicated = True\<rparr>"
  have "fst (insertJob id ''y'' 4 demo_race demo_jobs demo_args) = Inr ?r" by code_simp
  moreover have "snd (insertJob id ''y'' 4 demo_race demo_jobs demo_args) = demo_race demo_jobs" by code_simp
  ultimately have ins: "insertJob id ''y'' 4 demo_race demo_jobs demo_args = (Inr ?r, demo_race demo_jobs)"
    by (simp add: prod_eq_iff)
  have race: "\<forall>d \<in> insert demo_jobs ((\<lambda>h. releaseDedupClaim demo_jobs (j_ID h)) ` set (jobs demo_jobs)).
      dedup_wf (demo_race d) \<and> fresh_insert id ''y'' demo_args (demo_race d)" by code_simp
  have claim: "claim_of id demo_args = Some ''o:alice k1''" by code_simp
  have wk: "a_walletId demo_args = ''w1''" "a_kind demo_args = SimpleAda" by (simp_all add: demo_args_def)
  show ?thesis using insert_race_one_job [OF demo_jobs_dedup_wf race claim ins] ins wk by auto
qed

end
