(* ===== verification/Errors.thy ===== *)
theory Errors imports Prelude begin

text \<open>
  The typed errors of \<open>srv/utils/errors.ts\<close> and the normalisation of whatever a backend client
  throws. A \<open>BackendError\<close> carries its class, status, code, backend and, for
  \<open>AllBackendsFailedError\<close>, the errors it collects. The message texts built for humans are
  not modelled; the message of the incoming error is, since the classification reads it.
\<close>

section \<open>Classes and constructors\<close>

datatype error_class =
    BackendErrorC | NotFoundC | TransactionValidationC | ScriptValidationC | ChainPointMismatchC
  | TransactionAlreadySubmittedC | InsufficientFundsC | MixedAssetsC | ProviderUnavailableC
  | ChainSyncClosedC | RateLimitC | AllBackendsFailedC | HsmC | ChainSyncStalledC
  | ChainSyncFrameC | BackendInitC

datatype error_code =
    INVALID_INPUT | FORBIDDEN | NOT_FOUND | INSUFFICIENT_FUNDS | TX_VALIDATION_FAILED
  | TX_PARSE_FAILED | SCRIPT_VALIDATION_FAILURE | CHAIN_POINT_MISMATCH | TX_ALREADY_SUBMITTED
  | PROVIDER_RATE_LIMITED | PROVIDER_UNAVAILABLE | INTERNAL_ERROR | HSM_UNAVAILABLE
  | HSM_SIGNING_FAILED | HSM_NOT_CONFIGURED | NESTED_TX_TIMEOUT

definition code_string :: "error_code \<Rightarrow> string" where
  "code_string c = (case c of
     INVALID_INPUT \<Rightarrow> ''ODATANO_INVALID_INPUT'' | FORBIDDEN \<Rightarrow> ''ODATANO_FORBIDDEN''
   | NOT_FOUND \<Rightarrow> ''ODATANO_NOT_FOUND'' | INSUFFICIENT_FUNDS \<Rightarrow> ''ODATANO_INSUFFICIENT_FUNDS''
   | TX_VALIDATION_FAILED \<Rightarrow> ''ODATANO_TX_VALIDATION_FAILED'' | TX_PARSE_FAILED \<Rightarrow> ''ODATANO_TX_PARSE_FAILED''
   | SCRIPT_VALIDATION_FAILURE \<Rightarrow> ''ODATANO_SCRIPT_VALIDATION_FAILURE''
   | CHAIN_POINT_MISMATCH \<Rightarrow> ''ODATANO_CHAIN_POINT_MISMATCH''
   | TX_ALREADY_SUBMITTED \<Rightarrow> ''ODATANO_TX_ALREADY_SUBMITTED''
   | PROVIDER_RATE_LIMITED \<Rightarrow> ''ODATANO_PROVIDER_RATE_LIMITED''
   | PROVIDER_UNAVAILABLE \<Rightarrow> ''ODATANO_PROVIDER_UNAVAILABLE'' | INTERNAL_ERROR \<Rightarrow> ''ODATANO_INTERNAL_ERROR''
   | HSM_UNAVAILABLE \<Rightarrow> ''ODATANO_HSM_UNAVAILABLE'' | HSM_SIGNING_FAILED \<Rightarrow> ''ODATANO_HSM_SIGNING_FAILED''
   | HSM_NOT_CONFIGURED \<Rightarrow> ''ODATANO_HSM_NOT_CONFIGURED'' | NESTED_TX_TIMEOUT \<Rightarrow> ''ODATANO_NESTED_TX_TIMEOUT'')"

datatype backend_error =
  BackendError (cls: error_class) (statusCode: int) (code: error_code)
    (backendName: "string option") (errors: "backend_error list")

definition NotFoundError :: "string option \<Rightarrow> backend_error" where
  "NotFoundError b = BackendError NotFoundC 404 NOT_FOUND b []"

definition TransactionValidationError :: "error_code \<Rightarrow> backend_error" where
  "TransactionValidationError c = BackendError TransactionValidationC 400 c None []"

definition ScriptValidationError :: backend_error where
  "ScriptValidationError = BackendError ScriptValidationC 400 SCRIPT_VALIDATION_FAILURE None []"

definition ChainPointMismatchError :: "string option \<Rightarrow> backend_error" where
  "ChainPointMismatchError b = BackendError ChainPointMismatchC 409 CHAIN_POINT_MISMATCH b []"

definition TransactionAlreadySubmittedError :: backend_error where
  "TransactionAlreadySubmittedError = BackendError TransactionAlreadySubmittedC 409 TX_ALREADY_SUBMITTED None []"

definition ProviderUnavailableError :: "string option \<Rightarrow> backend_error" where
  "ProviderUnavailableError b = BackendError ProviderUnavailableC 503 PROVIDER_UNAVAILABLE b []"

definition RateLimitError :: "string option \<Rightarrow> backend_error" where
  "RateLimitError b = BackendError RateLimitC 429 PROVIDER_RATE_LIMITED b []"

definition AllBackendsFailedError :: "backend_error list \<Rightarrow> backend_error" where
  "AllBackendsFailedError es =
     (case rev es of
        [] \<Rightarrow> BackendError AllBackendsFailedC 503 PROVIDER_UNAVAILABLE None es
      | e # _ \<Rightarrow> BackendError AllBackendsFailedC (statusCode e) (code e) None es)"

definition BackendInitError :: "string \<Rightarrow> backend_error" where
  "BackendInitError b = BackendError BackendInitC 500 INTERNAL_ERROR (Some b) []"

text \<open>\<open>instanceof\<close>: every class extends \<open>BackendError\<close>; \<open>ChainSyncClosedError\<close> extends \<open>ProviderUnavailableError\<close>.\<close>

definition instanceof :: "backend_error \<Rightarrow> error_class \<Rightarrow> bool" where
  "instanceof e c \<longleftrightarrow> c = BackendErrorC \<or> cls e = c
     \<or> (cls e = ChainSyncClosedC \<and> c = ProviderUnavailableC)"

definition isNotFoundOnAllBackends :: "backend_error \<Rightarrow> bool" where
  "isNotFoundOnAllBackends err \<longleftrightarrow>
     instanceof err NotFoundC
     \<or> (instanceof err AllBackendsFailedC \<and> errors err \<noteq> []
        \<and> list_all (\<lambda>e. instanceof e NotFoundC \<or> statusCode e = 404) (errors err))"

section \<open>Normalisation\<close>

text \<open>
  The fields of an HTTP-like error the classification reads; \<open>ht_rpc_code\<close> is a JSON-RPC code,
  \<open>ht_body_code\<close> the \<open>code\<close> of a PostgREST body.
\<close>

record HttpErrorLike =
  ht_message :: "string option"
  ht_rpc_code :: "int option"
  ht_status :: "int option"
  ht_response_status :: "int option"
  ht_body_error :: "string option"
  ht_body_code :: "string option"

datatype thrown = Typed backend_error | TypeError string | Http HttpErrorLike

definition PG_SERVER_ERROR_CODE_CLASSES :: "string list" where
  "PG_SERVER_ERROR_CODE_CLASSES = [''08'', ''42'', ''53'', ''57'', ''58'', ''XX'']"

fun startsWith :: "string \<Rightarrow> string \<Rightarrow> bool" where
  "startsWith s [] = True"
| "startsWith [] (c # cs) = False"
| "startsWith (x # s) (c # cs) = (x = c \<and> startsWith s cs)"

fun str_includes :: "string \<Rightarrow> string \<Rightarrow> bool" where
  "str_includes [] needle = (needle = [])"
| "str_includes (c # s) needle = (startsWith (c # s) needle \<or> str_includes s needle)"

definition isPostgrestServerErrorCode :: "string option \<Rightarrow> bool" where
  "isPostgrestServerErrorCode c =
     (case c of None \<Rightarrow> False | Some s \<Rightarrow> list_ex (startsWith s) PG_SERVER_ERROR_CODE_CLASSES)"

definition getErrorStatus :: "HttpErrorLike \<Rightarrow> int" where
  "getErrorStatus e = nullish (orElse (ht_status e) (ht_response_status e)) 500"

definition getErrorMessage :: "HttpErrorLike \<Rightarrow> string" where
  "getErrorMessage e =
     (case ht_body_error e of
        Some (c # s) \<Rightarrow> c # s
      | _ \<Rightarrow> (case ht_message e of Some (c # s) \<Rightarrow> c # s | _ \<Rightarrow> ''Unknown error''))"

definition OGMIOS_SCRIPT_EXECUTION_FAILURE :: int where
  "OGMIOS_SCRIPT_EXECUTION_FAILURE = 3010"

definition alreadySubmittedHints :: "string list" where
  "alreadySubmittedHints =
     [''already exists'', ''already submitted'', ''already known'', ''known transaction'',
      ''duplicate'', ''in mempool'']"

definition scriptValidationHints :: "string list" where
  "scriptValidationHints =
     [''plutusfailure'', ''plutus failure'', ''cekerror'', ''cek error'', ''overspending the budget'',
      ''overspent'', ''script failure'', ''script failed'', ''script evaluation'',
      ''ppviewhashesdontmatch'', ''scriptsnotpaidforall'']"

definition addressNotFoundHints :: "string list" where
  "addressNotFoundHints = [''invalid address'', ''malformed address'']"

definition validationErrorHints :: "string list" where
  "validationErrorHints =
     [''signature'', ''witness'', ''verification failed'', ''deserialize'', ''malformed'',
      ''invalid cbor'', ''invalid transaction'']"

definition notFoundHints :: "string list" where
  "notFoundHints =
     [''not found'', ''has not been found'', ''does not exist'', ''no data found'', ''no records'',
      ''empty result'', ''no metadata'']"

definition rateLimitHints :: "string list" where
  "rateLimitHints = [''rate limit'', ''too many requests'', ''quota exceeded'']"

definition nullClientHints :: "string list" where
  "nullClientHints =
     [''Cannot read properties of null'', ''Cannot read properties of undefined'',
      ''null is not an object'', ''undefined is not an object'']"

definition anyHint :: "string list \<Rightarrow> string \<Rightarrow> bool" where
  "anyHint hints m = list_ex (str_includes m) hints"

text \<open>Everything after the typed and the null-client checks.\<close>

definition classifyHttp :: "HttpErrorLike \<Rightarrow> string option \<Rightarrow> backend_error" where
  "classifyHttp err b =
     (if ht_rpc_code err = Some OGMIOS_SCRIPT_EXECUTION_FAILURE then ScriptValidationError
      else
        (let messageLower = toLowerCase (getErrorMessage err);
             status = getErrorStatus err
         in if anyHint alreadySubmittedHints messageLower then TransactionAlreadySubmittedError
            else if anyHint scriptValidationHints messageLower then ScriptValidationError
            else if anyHint addressNotFoundHints messageLower then NotFoundError b
            else if anyHint validationErrorHints messageLower then TransactionValidationError TX_VALIDATION_FAILED
            else if (status = 400 \<or> status = 422) \<and> isPostgrestServerErrorCode (ht_body_code err)
              then ProviderUnavailableError b
            else if anyHint notFoundHints messageLower then NotFoundError b
            else if status = 429 \<or> anyHint rateLimitHints messageLower then RateLimitError b
            else if status = 404 then NotFoundError b
            else if status \<ge> 500 then ProviderUnavailableError b
            else if status = 400 \<or> status = 422 then TransactionValidationError TX_VALIDATION_FAILED
            else if status = 401 \<or> status = 403
              then BackendError BackendErrorC status PROVIDER_UNAVAILABLE b []
            else ProviderUnavailableError b))"

definition normalizeBackendError :: "thrown \<Rightarrow> string option \<Rightarrow> backend_error" where
  "normalizeBackendError t b =
     (case t of
        Typed e \<Rightarrow> e
      | TypeError m \<Rightarrow>
          (if anyHint nullClientHints m
           then BackendInitError (case b of Some (c # s) \<Rightarrow> c # s | _ \<Rightarrow> ''unknown'')
           else classifyHttp
             \<lparr>ht_message = Some m, ht_rpc_code = None, ht_status = None, ht_response_status = None,
              ht_body_error = None, ht_body_code = None\<rparr> b)
      | Http e \<Rightarrow> classifyHttp e b)"

section \<open>Properties\<close>

lemmas error_makers = NotFoundError_def TransactionValidationError_def ScriptValidationError_def
  TransactionAlreadySubmittedError_def ProviderUnavailableError_def RateLimitError_def BackendInitError_def

text \<open>
  Normalisation is total and coherent: an error that was not typed yet gets a class whose
  status and code belong together, a 404 always is a \<open>NotFoundError\<close>, and everything that is
  neither the caller's fault nor a lookup miss carries a retryable 429, 500 or 503 or the
  provider's 401/403.
\<close>

theorem normalize_coherent:
  "(case t of Typed e \<Rightarrow> normalizeBackendError t b = e
    | _ \<Rightarrow>
      (cls (normalizeBackendError t b), statusCode (normalizeBackendError t b), code (normalizeBackendError t b)) \<in>
        {(NotFoundC, 404, NOT_FOUND), (TransactionValidationC, 400, TX_VALIDATION_FAILED),
         (ScriptValidationC, 400, SCRIPT_VALIDATION_FAILURE),
         (TransactionAlreadySubmittedC, 409, TX_ALREADY_SUBMITTED),
         (ProviderUnavailableC, 503, PROVIDER_UNAVAILABLE), (RateLimitC, 429, PROVIDER_RATE_LIMITED),
         (BackendInitC, 500, INTERNAL_ERROR), (BackendErrorC, 401, PROVIDER_UNAVAILABLE),
         (BackendErrorC, 403, PROVIDER_UNAVAILABLE)}
      \<and> errors (normalizeBackendError t b) = [])"
  by (cases t) (auto simp: normalizeBackendError_def classifyHttp_def error_makers Let_def)



text \<open>
  Absence needs unanimity: a failure counts as "not on chain" only when it is a plain 404 or
  every backend that was asked answered 404; one timeout among them, or no backend asked at
  all, proves nothing.
\<close>

theorem absence_needs_unanimity:
  "isNotFoundOnAllBackends (AllBackendsFailedError es)
     \<longleftrightarrow> es \<noteq> [] \<and> (\<forall>e \<in> set es. instanceof e NotFoundC \<or> statusCode e = 404)"
  by (cases es rule: rev_cases)
     (auto simp: isNotFoundOnAllBackends_def AllBackendsFailedError_def instanceof_def list_all_iff)

theorem absence_needs_unanimity_witness:
  "\<not> isNotFoundOnAllBackends (AllBackendsFailedError [NotFoundError (Some ''koios''), ProviderUnavailableError (Some ''ogmios'')])"
  unfolding absence_needs_unanimity by (simp add: error_makers instanceof_def)


text \<open>
  The hints are substrings, so the hint \<open>known transaction\<close> also fires on its negation: a provider
  that rejects with \<open>Unknown transaction\<close> is taken to report an accepted one, and the callers that
  tolerate "already submitted" go on as if it had been.
\<close>

theorem unknown_transaction_is_already_submitted:
  "normalizeBackendError (Http \<lparr>ht_message = Some ''Unknown transaction'', ht_rpc_code = None,
     ht_status = Some 400, ht_response_status = None, ht_body_error = None, ht_body_code = None\<rparr>) b
   = TransactionAlreadySubmittedError"
  by code_simp

end
