(* ===== verification/ConfirmationTracker.thy ===== *)
theory ConfirmationTracker imports JobLifecycle Errors begin

text \<open>
  The confirmation tracker of \<open>srv/blockchain/wallet-worker/confirmation-tracker.ts\<close>: submitted
  jobs are watched through the crawler hooks and by polling until their transaction is deep
  enough. A handler is a function on the tracker, the job tables and the ledger of what left the
  process (terminal events, re-submitted transactions); what the outside answers during one
  handler run (clock, chain lookups, failing writes) is its \<open>env\<close>. A handler runs to its end
  before the next one starts.
\<close>

section \<open>State\<close>

record TrackedJob =
  k_jobId :: string
  k_walletId :: string
  k_kind :: "WalletJobKind option"
  k_txHash :: string
  k_signedTxCbor :: "string option"
  k_submittedAt :: time
  k_foundSlot :: "int option"
  k_foundHeight :: "int option"
  k_seenRound :: "nat option"

record tracker_options =
  confirmationDepth :: int
  confirmationTimeoutMs :: int
  resubmitOnRollback :: bool

datatype final_outcome = FinalConfirmed | FinalFailed string string

record final_event =
  f_jobId :: string
  f_walletId :: string
  f_outcome :: final_outcome
  f_kind :: "WalletJobKind option"
  f_txHash :: string

record submission_row =
  sb_txHash :: string
  sb_status :: string

record tracker =
  pending :: "(string, TrackedJob) jmap"
  running :: bool
  polling :: bool
  lastKnownTipHeight :: "int option"
  round_no :: nat
  tdb :: wdb
  tsubs :: "submission_row list"
  finals :: "final_event list"
  resubmits :: "(string \<times> string) list"

record BlockIndexedEvent =
  b_hash :: string
  b_slot :: "int option"
  b_height :: "int option"
  b_txHashes :: "string list"
  b_tipHeight :: "int option"

record ReorgEvent =
  g_forkSlot :: int
  g_forkHeight :: "int option"

record chain_tx =
  c_slot :: "int option"
  c_blockHeight :: "int option"

text \<open>
  \<open>e_tip\<close> and \<open>e_tx\<close> are the answers of \<open>getLatestBlock\<close> and of \<open>getTransaction\<close> for a job;
  \<open>e_recorded\<close> and \<open>e_persisted\<close> say whether the writes of a job commit.
\<close>

record env =
  e_now :: time
  e_tip :: "backend_error + int option"
  e_tx :: "string \<Rightarrow> backend_error + chain_tx"
  e_recorded :: "string \<Rightarrow> bool"
  e_persisted :: "string \<Rightarrow> bool"

section \<open>Life cycle\<close>

definition newTracker :: "wdb \<Rightarrow> submission_row list \<Rightarrow> tracker" where
  "newTracker db subs = \<lparr>pending = [], running = False, polling = False, lastKnownTipHeight = None,
     round_no = 0, tdb = db, tsubs = subs, finals = [], resubmits = []\<rparr>"

definition startTracker :: "tracker \<Rightarrow> tracker" where
  "startTracker t = (if running t then t else t\<lparr>running := True\<rparr>)"

definition stopTracker :: "tracker \<Rightarrow> tracker" where
  "stopTracker t = t\<lparr>running := False, pending := []\<rparr>"

definition tracker_size :: "tracker \<Rightarrow> nat" where
  "tracker_size t = length (pending t)"

record track_args =
  ta_jobId :: string
  ta_walletId :: string
  ta_kind :: "WalletJobKind option"
  ta_txHash :: string
  ta_signedTxCbor :: "string option"
  ta_submittedAt :: "time option"
  ta_confirmedSlot :: "int option"
  ta_confirmedHeight :: "int option"

definition track :: "time \<Rightarrow> track_args \<Rightarrow> tracker \<Rightarrow> tracker" where
  "track now job t =
     (if mhas (pending t) (ta_jobId job) then t
      else t\<lparr>pending := mput (pending t) (ta_jobId job)
        \<lparr>k_jobId = ta_jobId job, k_walletId = ta_walletId job, k_kind = ta_kind job,
         k_txHash = ta_txHash job, k_signedTxCbor = ta_signedTxCbor job,
         k_submittedAt = nullish (ta_submittedAt job) now, k_foundSlot = ta_confirmedSlot job,
         k_foundHeight = ta_confirmedHeight job, k_seenRound = None\<rparr>\<rparr>)"

definition put_job :: "TrackedJob \<Rightarrow> tracker \<Rightarrow> tracker" where
  "put_job job t = t\<lparr>pending := mput (pending t) (k_jobId job) job\<rparr>"

definition raise_tip :: "int option \<Rightarrow> tracker \<Rightarrow> tracker" where
  "raise_tip h t =
     (case h of None \<Rightarrow> t | Some x \<Rightarrow> t\<lparr>lastKnownTipHeight := Some (max (nullish (lastKnownTipHeight t) 0) x)\<rparr>)"

section \<open>Terminal states\<close>

definition mark_final :: "adapter \<Rightarrow> env \<Rightarrow> TrackedJob \<Rightarrow> final_outcome \<Rightarrow> wdb \<Rightarrow> bool \<times> wdb" where
  "mark_final rep env job outcome db = (case outcome of
     FinalConfirmed \<Rightarrow> markConfirmed rep db (k_jobId job) (e_now env)
   | FinalFailed c m \<Rightarrow> markFailed rep db (k_jobId job) c m (e_now env))"

definition final_status :: "final_outcome \<Rightarrow> WalletJobStatus" where
  "final_status outcome = (case outcome of FinalConfirmed \<Rightarrow> Confirmed | FinalFailed _ _ \<Rightarrow> Failed)"

definition finalize :: "adapter \<Rightarrow> env \<Rightarrow> TrackedJob \<Rightarrow> final_outcome \<Rightarrow> tracker \<Rightarrow> tracker" where
  "finalize rep env job outcome t =
     (if \<not> e_persisted env (k_jobId job) then t
      else
        (let (transitioned, db1) = mark_final rep env job outcome (tdb t);
             db2 = (if transitioned
                    then bumpWalletStats db1 (k_walletId job)
                      (case outcome of FinalConfirmed \<Rightarrow> StatConfirmed | FinalFailed _ _ \<Rightarrow> StatFailed) (e_now env)
                    else db1);
             subs = (if transitioned \<and> outcome = FinalConfirmed
                     then update_where (\<lambda>r. sb_txHash r = k_txHash job \<and> sb_status r = ''submitted'')
                       (\<lambda>r. r\<lparr>sb_status := ''confirmed''\<rparr>) (tsubs t)
                     else tsubs t);
             t1 = t\<lparr>tdb := db2, tsubs := subs, pending := mdel (pending t) (k_jobId job)\<rparr>
         in if transitioned
            then t1\<lparr>finals := finals t @ [\<lparr>f_jobId = k_jobId job, f_walletId = k_walletId job,
                   f_outcome = outcome, f_kind = k_kind job, f_txHash = k_txHash job\<rparr>]\<rparr>
            else t1))"

section \<open>Inclusion\<close>

definition record_point :: "env \<Rightarrow> TrackedJob \<Rightarrow> tracker \<Rightarrow> tracker" where
  "record_point env job t =
     (if e_recorded env (k_jobId job)
      then t\<lparr>tdb := recordConfirmationPoint (tdb t) (k_jobId job) (k_foundSlot job) (k_foundHeight job)\<rparr>
      else t)"

definition forgetInclusion :: "tracker_options \<Rightarrow> env \<Rightarrow> TrackedJob \<Rightarrow> tracker \<Rightarrow> tracker" where
  "forgetInclusion opts env job t =
     (let job' = job\<lparr>k_foundSlot := None, k_foundHeight := None, k_seenRound := None\<rparr>;
          t1 = put_job job' t;
          t2 = (if e_recorded env (k_jobId job)
                then t1\<lparr>tdb := clearConfirmationPoint (tdb t1) (k_jobId job)\<rparr> else t1)
      in if resubmitOnRollback opts \<and> truthy (k_signedTxCbor job)
         then t2\<lparr>resubmits := resubmits t2 @ [(k_jobId job, the (k_signedTxCbor job))]\<rparr>
         else t2)"

definition stillIncluded :: "tracker_options \<Rightarrow> env \<Rightarrow> TrackedJob \<Rightarrow> int \<Rightarrow> tracker \<Rightarrow> bool \<times> tracker" where
  "stillIncluded opts env job tip t =
     (case e_tx env (k_jobId job) of
        Inr tx \<Rightarrow>
          (let job1 = job\<lparr>k_seenRound := Some (round_no t)\<rparr> in
           case c_blockHeight tx of
             None \<Rightarrow> (True, put_job job1 t)
           | Some h \<Rightarrow>
               if Some h \<noteq> k_foundHeight job
               then (let job2 = job1\<lparr>k_foundHeight := Some h, k_foundSlot := c_slot tx\<rparr>;
                         t1 = record_point env job2 (put_job job2 t)
                     in (e_recorded env (k_jobId job) \<and> tip - h + 1 \<ge> confirmationDepth opts, t1))
               else (True, put_job job1 t))
      | Inl err \<Rightarrow>
          if isNotFoundOnAllBackends err
          then (False, forgetInclusion opts env job (t\<lparr>lastKnownTipHeight := None\<rparr>))
          else (False, t))"

definition confirm_one :: "tracker_options \<Rightarrow> adapter \<Rightarrow> env \<Rightarrow> bool \<Rightarrow> int \<Rightarrow> TrackedJob \<Rightarrow> tracker \<Rightarrow> tracker" where
  "confirm_one opts rep env revalidate tip job t =
     (case k_foundHeight job of
        None \<Rightarrow> t
      | Some h \<Rightarrow>
          if tip - h + 1 < confirmationDepth opts then t
          else if revalidate \<and> k_seenRound job \<noteq> Some (round_no t)
          then (case stillIncluded opts env job tip t of
                  (True, t1) \<Rightarrow> finalize rep env job FinalConfirmed t1
                | (False, t1) \<Rightarrow> t1)
          else finalize rep env job FinalConfirmed t)"

definition confirmMature :: "tracker_options \<Rightarrow> adapter \<Rightarrow> env \<Rightarrow> bool \<Rightarrow> tracker \<Rightarrow> tracker" where
  "confirmMature opts rep env revalidate t =
     (case lastKnownTipHeight t of
        None \<Rightarrow> t
      | Some tip \<Rightarrow> fold (confirm_one opts rep env revalidate tip) (mvalues (pending t)) t)"

section \<open>Hooks\<close>

definition onBlockIndexed :: "tracker_options \<Rightarrow> adapter \<Rightarrow> env \<Rightarrow> BlockIndexedEvent \<Rightarrow> tracker \<Rightarrow> tracker" where
  "onBlockIndexed opts rep env ev t =
     (if \<not> running t \<or> pending t = [] then t
      else
        (let t1 = raise_tip (orElse (b_tipHeight ev) (b_height ev)) t;
             found = filter (\<lambda>j. k_foundHeight j = None \<and> k_txHash j \<in> set (b_txHashes ev)) (mvalues (pending t1));
             t2 = fold (\<lambda>j t. let j' = j\<lparr>k_foundSlot := b_slot ev, k_foundHeight := b_height ev\<rparr>
                              in record_point env j' (put_job j' t)) found t1
         in confirmMature opts rep env False t2))"

definition clamp_tip :: "int option \<Rightarrow> int option \<Rightarrow> int option" where
  "clamp_tip forkHeight tip =
     (case forkHeight of
        None \<Rightarrow> None
      | Some f \<Rightarrow> (case tip of None \<Rightarrow> None | Some x \<Rightarrow> if x > f then Some f else Some x))"

definition onReorg :: "tracker_options \<Rightarrow> env \<Rightarrow> ReorgEvent \<Rightarrow> tracker \<Rightarrow> tracker" where
  "onReorg opts env ev t =
     (if \<not> running t then t
      else
        (let t1 = t\<lparr>lastKnownTipHeight := clamp_tip (g_forkHeight ev) (lastKnownTipHeight t)\<rparr>
         in fold (\<lambda>j t. case k_foundSlot j of
                          Some s \<Rightarrow> (if s > g_forkSlot ev then forgetInclusion opts env j t else t)
                        | None \<Rightarrow> t) (mvalues (pending t1)) t1))"

section \<open>Polling\<close>

definition dropped_message :: string where
  "dropped_message = ''Transaction not seen on-chain within the timeout of submission''"

definition poll_job :: "tracker_options \<Rightarrow> adapter \<Rightarrow> env \<Rightarrow> TrackedJob \<Rightarrow> tracker \<Rightarrow> tracker" where
  "poll_job opts rep env job t =
     (if k_foundHeight job \<noteq> None then t
      else
        (case e_tx env (k_jobId job) of
           Inr tx \<Rightarrow>
             (let job' = job\<lparr>k_foundSlot := c_slot tx, k_foundHeight := c_blockHeight tx,
                             k_seenRound := Some (round_no t)\<rparr>
              in record_point env job' (put_job job' t))
         | Inl err \<Rightarrow>
             if isNotFoundOnAllBackends err
             then (if e_now env - k_submittedAt job > confirmationTimeoutMs opts
                   then finalize rep env job (FinalFailed ''TX_DROPPED'' dropped_message) t else t)
             else t))"

definition poll_round :: "tracker_options \<Rightarrow> adapter \<Rightarrow> env \<Rightarrow> tracker \<Rightarrow> tracker" where
  "poll_round opts rep env t0 =
     (case e_tip env of
        Inl _ \<Rightarrow> t0
      | Inr h \<Rightarrow>
          (let t1 = raise_tip h t0;
               t2 = fold (poll_job opts rep env) (mvalues (pending t1)) t1
           in confirmMature opts rep env True t2))"

definition pollOnce :: "tracker_options \<Rightarrow> adapter \<Rightarrow> env \<Rightarrow> tracker \<Rightarrow> tracker" where
  "pollOnce opts rep env t =
     (if \<not> running t \<or> polling t \<or> pending t = [] then t
      else (poll_round opts rep env (t\<lparr>polling := True, round_no := round_no t + 1\<rparr>))\<lparr>polling := False\<rparr>)"

section \<open>Runs\<close>

datatype tinput =
    BlockIn env BlockIndexedEvent
  | ReorgIn env ReorgEvent
  | PollIn env
  | TrackIn time track_args
  | StoreIn store_op
  | StartIn
  | StopIn

fun tstep :: "tracker_options \<Rightarrow> adapter \<Rightarrow> (string \<Rightarrow> string) \<Rightarrow> tinput \<Rightarrow> tracker \<Rightarrow> tracker" where
  "tstep opts rep sha (BlockIn env ev) t = onBlockIndexed opts rep env ev t"
| "tstep opts rep sha (ReorgIn env ev) t = onReorg opts env ev t"
| "tstep opts rep sha (PollIn env) t = pollOnce opts rep env t"
| "tstep opts rep sha (TrackIn now job) t = track now job t"
| "tstep opts rep sha (StoreIn x) t = t\<lparr>tdb := store_step sha rep x (tdb t)\<rparr>"
| "tstep opts rep sha StartIn t = startTracker t"
| "tstep opts rep sha StopIn t = stopTracker t"

definition trun :: "tracker_options \<Rightarrow> adapter \<Rightarrow> (string \<Rightarrow> string) \<Rightarrow> tinput list \<Rightarrow> tracker \<Rightarrow> tracker" where
  "trun opts rep sha xs t = fold (tstep opts rep sha) xs t"

section \<open>Every terminal event is announced once\<close>

definition finals_ok :: "tracker \<Rightarrow> bool" where
  "finals_ok t \<longleftrightarrow> jobs_wf (tdb t) \<and> distinct (map f_jobId (finals t))
     \<and> (\<forall>e \<in> set (finals t). \<exists>j. getJobById (tdb t) (f_jobId e) = Some j
          \<and> j_status j = final_status (f_outcome e))"

lemma final_status_terminal: "final_status oc \<in> {Confirmed, Failed, Cancelled}"
  by (simp add: final_status_def split: final_outcome.split)

lemma row_evolves_terminal: "row_evolves j j' \<Longrightarrow> j_status j \<in> {Confirmed, Failed, Cancelled} \<Longrightarrow> j_status j' = j_status j"
  unfolding row_evolves_def by (cases "j_status j") auto

lemma finals_ok_evolve:
  assumes "finals_ok t" "db_evolves (tdb t) (tdb t')" "finals t' = finals t"
  shows "finals_ok t'"
proof -
  have "\<exists>j. getJobById (tdb t') (f_jobId e) = Some j \<and> j_status j = final_status (f_outcome e)"
    if "e \<in> set (finals t)" for e
  proof -
    from that assms(1) obtain j where j: "getJobById (tdb t) (f_jobId e) = Some j"
      "j_status j = final_status (f_outcome e)" by (auto simp: finals_ok_def)
    from assms(2) j(1) obtain j' where "getJobById (tdb t') (f_jobId e) = Some j'" "row_evolves j j'"
      by (auto simp: db_evolves_def)
    with row_evolves_terminal [of j j'] j(2) final_status_terminal [of "f_outcome e"] show ?thesis by auto
  qed
  with assms show ?thesis by (auto simp: finals_ok_def db_evolves_def)
qed

lemma finals_ok_same: "finals_ok t \<Longrightarrow> tdb t' = tdb t \<Longrightarrow> finals t' = finals t \<Longrightarrow> finals_ok t'"
  by (simp add: finals_ok_def)

lemma finals_ok_put_job: "finals_ok t \<Longrightarrow> finals_ok (put_job job t)"
  by (erule finals_ok_same) (simp_all add: put_job_def)

lemma finals_ok_raise_tip: "finals_ok t \<Longrightarrow> finals_ok (raise_tip h t)"
  by (erule finals_ok_same) (simp_all add: raise_tip_def split: option.split)

lemma finals_ok_record_point: "finals_ok t \<Longrightarrow> finals_ok (record_point env job t)"
  by (erule finals_ok_evolve) (auto simp: record_point_def evolves_points)

lemma finals_ok_forget: "finals_ok t \<Longrightarrow> finals_ok (forgetInclusion opts env job t)"
  by (erule finals_ok_evolve) (auto simp: forgetInclusion_def put_job_def Let_def evolves_points)

lemma evolves_mark_final: "db_evolves db (snd (mark_final rep env job outcome db))"
  by (auto simp: mark_final_def evolves_ops split: final_outcome.split)

lemma mark_final_won:
  assumes "jobs_wf db" "fst (mark_final Some env job outcome db)"
  shows "(\<exists>j. getJobById db (k_jobId job) = Some j \<and> j_status j \<notin> {Confirmed, Failed, Cancelled})
    \<and> (\<exists>j. getJobById (snd (mark_final Some env job outcome db)) (k_jobId job) = Some j \<and> j_status j = final_status outcome)"
proof (cases outcome)
  case FinalConfirmed
  show ?thesis
    using assms(2) unfolding FinalConfirmed mark_final_def markConfirmed_def final_status_def final_outcome.case
    by (elim won_transition [OF assms(1), rotated]) auto
next
  case (FinalFailed c m)
  show ?thesis
    using assms(2) unfolding FinalFailed mark_final_def markFailed_def final_status_def final_outcome.case
    by (elim won_transition [OF assms(1), rotated]) auto
qed

lemma finalize_cases:
  obtains (idle) "finalize rep env job outcome t = t"
    | (lost) t' where "finalize rep env job outcome t = t'" "\<not> fst (mark_final rep env job outcome (tdb t))"
        "tdb t' = snd (mark_final rep env job outcome (tdb t))" "finals t' = finals t"
    | (won) t' e where "finalize rep env job outcome t = t'" "fst (mark_final rep env job outcome (tdb t))"
        "jobs (tdb t') = jobs (snd (mark_final rep env job outcome (tdb t)))" "finals t' = finals t @ [e]"
        "f_jobId e = k_jobId job" "f_outcome e = outcome" "f_txHash e = k_txHash job"
proof (cases "e_persisted env (k_jobId job)")
  case False
  then show thesis by (intro idle) (simp add: finalize_def)
next
  case True
  obtain b db1 where m: "mark_final rep env job outcome (tdb t) = (b, db1)" by (cases "mark_final rep env job outcome (tdb t)")
  show thesis
  proof (cases b)
    case b: True
    show thesis
      by (rule won [where e = "\<lparr>f_jobId = k_jobId job, f_walletId = k_walletId job,
            f_outcome = outcome, f_kind = k_kind job, f_txHash = k_txHash job\<rparr>", OF refl])
        (use True m b in \<open>simp_all add: finalize_def Let_def\<close>)
  next
    case b: False
    show thesis
      by (rule lost [OF refl]) (use True m b in \<open>simp_all add: finalize_def Let_def\<close>)
  qed
qed

lemma finals_ok_finalize:
  assumes "finals_ok t"
  shows "finals_ok (finalize Some env job outcome t)"
proof (cases rule: finalize_cases [of Some env job outcome t])
  case idle
  with assms show ?thesis by simp
next
  case (lost t')
  then have "finals_ok t'" by (intro finals_ok_evolve [OF assms]) (simp_all add: evolves_mark_final)
  with lost show ?thesis by simp
next
  case (won t' e)
  have wf: "jobs_wf (tdb t)" using assms by (simp add: finals_ok_def)
  from mark_final_won [OF wf won(2)] obtain j j' where
    j: "getJobById (tdb t) (k_jobId job) = Some j" "j_status j \<notin> {Confirmed, Failed, Cancelled}" and
    j': "getJobById (snd (mark_final Some env job outcome (tdb t))) (k_jobId job) = Some j'" "j_status j' = final_status outcome"
    by blast
  have new: "k_jobId job \<notin> f_jobId ` set (finals t)"
  proof
    assume "k_jobId job \<in> f_jobId ` set (finals t)"
    then obtain e where "e \<in> set (finals t)" "f_jobId e = k_jobId job" by auto
    with assms j final_status_terminal [of "f_outcome e"] show False by (auto simp: finals_ok_def)
  qed
  let ?t1 = "t\<lparr>tdb := tdb t'\<rparr>"
  have "db_evolves (tdb t) (tdb t')"
    using db_evolves_trans [OF evolves_mark_final db_evolves_same_jobs [OF won(3)]] .
  then have "finals_ok ?t1" by (intro finals_ok_evolve [OF assms]) simp_all
  moreover have "getJobById (tdb t') (k_jobId job) = Some j'" using j'(1) won(3) by (simp add: getJobById_def)
  ultimately have "finals_ok t'"
    using new won(4,5,6) j'(2) by (auto simp: finals_ok_def)
  with won(1) show ?thesis by simp
qed

lemma finals_ok_stillIncluded:
  assumes "finals_ok t"
  shows "finals_ok (snd (stillIncluded opts env job tip t))"
proof -
  have "finals_ok (t\<lparr>lastKnownTipHeight := None\<rparr>)" using assms by (rule finals_ok_same) simp_all
  with assms show ?thesis
    by (auto simp: stillIncluded_def Let_def finals_ok_put_job finals_ok_record_point finals_ok_forget
        split: sum.split option.split)
qed

lemma finals_ok_confirm_one:
  assumes "finals_ok t"
  shows "finals_ok (confirm_one opts Some env revalidate tip job t)"
  using finals_ok_stillIncluded [OF assms, of opts env job tip] assms
  by (auto simp: confirm_one_def finals_ok_finalize split: option.split prod.split bool.split)

lemma finals_ok_fold: "(\<And>x t. finals_ok t \<Longrightarrow> finals_ok (g x t)) \<Longrightarrow> finals_ok t \<Longrightarrow> finals_ok (fold g xs t)"
  by (induction xs arbitrary: t) auto

lemma finals_ok_confirmMature: "finals_ok t \<Longrightarrow> finals_ok (confirmMature opts Some env revalidate t)"
  by (auto simp: confirmMature_def intro: finals_ok_fold finals_ok_confirm_one split: option.split)

lemma finals_ok_onBlockIndexed: "finals_ok t \<Longrightarrow> finals_ok (onBlockIndexed opts Some env ev t)"
  unfolding onBlockIndexed_def Let_def
  by (auto intro!: finals_ok_confirmMature finals_ok_fold finals_ok_record_point finals_ok_put_job finals_ok_raise_tip)

lemma finals_ok_onReorg:
  assumes "finals_ok t"
  shows "finals_ok (onReorg opts env ev t)"
proof -
  have "finals_ok (t\<lparr>lastKnownTipHeight := x\<rparr>)" for x using assms by (rule finals_ok_same) simp_all
  with assms show ?thesis
    by (auto simp: onReorg_def Let_def intro!: finals_ok_fold finals_ok_forget split: option.split)
qed

lemma finals_ok_poll_job: "finals_ok t \<Longrightarrow> finals_ok (poll_job opts Some env job t)"
  by (auto simp: poll_job_def Let_def finals_ok_record_point finals_ok_put_job finals_ok_finalize split: sum.split)

lemma finals_ok_poll_round: "finals_ok t \<Longrightarrow> finals_ok (poll_round opts Some env t)"
  unfolding poll_round_def Let_def
  by (auto intro!: finals_ok_confirmMature finals_ok_fold finals_ok_poll_job finals_ok_raise_tip split: sum.split)

lemma finals_ok_pollOnce:
  assumes "finals_ok t"
  shows "finals_ok (pollOnce opts Some env t)"
proof -
  let ?t = "t\<lparr>polling := True, round_no := round_no t + 1\<rparr>"
  have "finals_ok ?t" using assms by (rule finals_ok_same) simp_all
  then have "finals_ok ((poll_round opts Some env ?t)\<lparr>polling := False\<rparr>)"
    by (rule finals_ok_same [OF finals_ok_poll_round]) simp_all
  with assms show ?thesis unfolding pollOnce_def by presburger
qed

lemma finals_ok_tstep: "finals_ok t \<Longrightarrow> finals_ok (tstep opts Some sha x t)"
proof (cases x)
  case (StoreIn y)
  assume ok: "finals_ok t"
  then have "db_evolves (tdb t) (store_step sha Some y (tdb t))" by (intro evolves_step) (simp add: finals_ok_def)
  with ok StoreIn show ?thesis by (auto intro: finals_ok_evolve)
next
  case (TrackIn now job)
  assume "finals_ok t" with TrackIn show ?thesis by (auto simp: track_def intro: finals_ok_same)
next
  case StartIn
  assume "finals_ok t" with StartIn show ?thesis by (auto simp: startTracker_def intro: finals_ok_same)
next
  case StopIn
  assume "finals_ok t" with StopIn show ?thesis by (auto simp: stopTracker_def intro: finals_ok_same)
qed (simp_all add: finals_ok_onBlockIndexed finals_ok_onReorg finals_ok_pollOnce)

text \<open>
  C12. Over every sequence of hooks, polls and writes of anyone else to the job tables, the tracker
  announces at most one terminal event per job, and the job it announces is in that terminal
  state in the database, for good.
\<close>

theorem terminal_event_once:
  assumes "jobs_wf db"
  shows "distinct (map f_jobId (finals (trun opts Some sha xs (newTracker db subs))))
    \<and> (\<forall>e \<in> set (finals (trun opts Some sha xs (newTracker db subs))).
         map_option j_status (getJobById (tdb (trun opts Some sha xs (newTracker db subs))) (f_jobId e))
           = Some (final_status (f_outcome e)))"
proof -
  have "finals_ok (newTracker db subs)" using assms by (simp add: finals_ok_def newTracker_def)
  then have "finals_ok (trun opts Some sha xs (newTracker db subs))"
    unfolding trun_def by (induction xs arbitrary: db rule: rev_induct) (simp_all add: finals_ok_tstep)
  then show ?thesis by (auto simp: finals_ok_def)
qed


definition demo_opts :: tracker_options where
  "demo_opts = \<lparr>confirmationDepth = 3, confirmationTimeoutMs = 600000, resubmitOnRollback = True\<rparr>"

definition demo_env :: "time \<Rightarrow> backend_error + int option \<Rightarrow> backend_error + chain_tx \<Rightarrow> env" where
  "demo_env now tip tx = \<lparr>e_now = now, e_tip = tip, e_tx = (\<lambda>_. tx), e_recorded = (\<lambda>_. True), e_persisted = (\<lambda>_. True)\<rparr>"

definition demo_track :: track_args where
  "demo_track = \<lparr>ta_jobId = ''a'', ta_walletId = ''w1'', ta_kind = Some SimpleAda, ta_txHash = ''h1'',
     ta_signedTxCbor = Some ''c1'', ta_submittedAt = Some 0, ta_confirmedSlot = None, ta_confirmedHeight = None\<rparr>"

definition demo_block :: "int \<Rightarrow> string list \<Rightarrow> BlockIndexedEvent" where
  "demo_block h txs = \<lparr>b_hash = ''b'', b_slot = Some (20 * h), b_height = Some h, b_txHashes = txs, b_tipHeight = None\<rparr>"

definition quiet :: env where
  "quiet = demo_env 1000 (Inl (ProviderUnavailableError None)) (Inl (ProviderUnavailableError None))"

theorem terminal_event_once_witness:
  "distinct (map f_jobId (finals (trun demo_opts Some id
     [StartIn, TrackIn 0 demo_track, BlockIn quiet (demo_block 5 [''h1'']), BlockIn quiet (demo_block 7 []),
      TrackIn 0 demo_track, StoreIn (OpFailed ''a'' ''X'' ''late'' 9), BlockIn quiet (demo_block 8 [''h1''])]
     (newTracker demo_jobs []))))"
  using terminal_event_once [OF demo_jobs_wf] by blast

section \<open>Rollbacks\<close>

text \<open>The map entries carry their own key.\<close>

definition tracker_wf :: "tracker \<Rightarrow> bool" where
  "tracker_wf t \<longleftrightarrow> jmap_wf (pending t) \<and> (\<forall>(k, j) \<in> set (pending t). k_jobId j = k)"

lemma find_value:
  assumes "jmap_wf m" "\<forall>(k, j) \<in> set m. kid j = k"
  shows "find (\<lambda>j. kid j = i \<and> P j) (mvalues m)
    = (case mget m i of None \<Rightarrow> None | Some j \<Rightarrow> if P j then Some j else None)"
  using assms unfolding jmap_wf_def mvalues_def mget_def
proof (induction m)
  case (Cons x m)
  have "fst x = i \<Longrightarrow> find (\<lambda>j. kid j = i \<and> P j) (map snd m) = None"
    using Cons.prems by (force simp: find_None_iff)
  with Cons show ?case by (auto split: prod.splits)
qed simp

lemma fold_put_pending:
  assumes "\<And>j t. pending (g j t) = (if P j then mput (pending t) (k_jobId j) (f j) else pending t)"
    and "distinct (map k_jobId js)"
  shows "mget (pending (fold g js t)) i
    = (case find (\<lambda>j. k_jobId j = i \<and> P j) js of Some j \<Rightarrow> Some (f j) | None \<Rightarrow> mget (pending t) i)"
  using assms(2)
proof (induction js arbitrary: t)
  case (Cons j js)
  have "find (\<lambda>j. k_jobId j = i \<and> P j) js = None" if "k_jobId j = i"
  proof -
    have "i \<notin> k_jobId ` set js" using Cons.prems that by simp
    then have "\<forall>x \<in> set js. k_jobId x \<noteq> i" by blast
    then show ?thesis by (auto simp: find_None_iff)
  qed
  with Cons show ?case by (auto simp: assms(1) split: option.split)
qed simp

lemma values_ids:
  assumes "tracker_wf t"
  shows "map k_jobId (mvalues (pending t)) = mkeys (pending t)"
  using assms unfolding tracker_wf_def mvalues_def mkeys_def by auto

lemma values_distinct: "tracker_wf t \<Longrightarrow> distinct (map k_jobId (mvalues (pending t)))"
  by (simp add: values_ids) (simp add: tracker_wf_def jmap_wf_def mkeys_def)

definition rolled_back :: "ReorgEvent \<Rightarrow> TrackedJob \<Rightarrow> bool" where
  "rolled_back ev j \<longleftrightarrow> (case k_foundSlot j of Some s \<Rightarrow> s > g_forkSlot ev | None \<Rightarrow> False)"

definition forgotten :: "TrackedJob \<Rightarrow> TrackedJob" where
  "forgotten j = j\<lparr>k_foundSlot := None, k_foundHeight := None, k_seenRound := None\<rparr>"

lemma pending_forget: "pending (forgetInclusion opts env j t) = mput (pending t) (k_jobId j) (forgotten j)"
  by (simp add: forgetInclusion_def Let_def put_job_def forgotten_def)

lemma reorg_step:
  "(case k_foundSlot j of Some s \<Rightarrow> (if s > g_forkSlot ev then forgetInclusion opts env j t else t) | None \<Rightarrow> t)
    = (if rolled_back ev j then forgetInclusion opts env j t else t)"
  by (simp add: rolled_back_def split: option.split)

lemma reorg_pending:
  assumes "tracker_wf t" "running t"
  shows "mget (pending (onReorg opts env ev t)) i
    = map_option (\<lambda>j. if rolled_back ev j then forgotten j else j) (mget (pending t) i)"
proof -
  let ?t1 = "t\<lparr>lastKnownTipHeight := clamp_tip (g_forkHeight ev) (lastKnownTipHeight t)\<rparr>"
  let ?g = "\<lambda>j t. if rolled_back ev j then forgetInclusion opts env j t else t"
  have p: "pending (?g j t) = (if rolled_back ev j then mput (pending t) (k_jobId j) (forgotten j) else pending t)" for j t
    by (simp add: pending_forget)
  have "onReorg opts env ev t = fold ?g (mvalues (pending ?t1)) ?t1"
    using assms(2) by (simp add: onReorg_def Let_def reorg_step)
  moreover have "find (\<lambda>j. k_jobId j = i \<and> rolled_back ev j) (mvalues (pending t))
      = (case mget (pending t) i of None \<Rightarrow> None | Some j \<Rightarrow> if rolled_back ev j then Some j else None)"
    using assms(1) by (intro find_value) (simp_all add: tracker_wf_def)
  ultimately show ?thesis
    using fold_put_pending [of ?g "rolled_back ev" forgotten "mvalues (pending ?t1)" ?t1 i, OF p] values_distinct [OF assms(1)]
    by (simp split: option.splits)
qed

lemma tip_forget: "lastKnownTipHeight (forgetInclusion opts env j t) = lastKnownTipHeight t"
  by (simp add: forgetInclusion_def Let_def put_job_def)

lemma finals_forget: "finals (forgetInclusion opts env j t) = finals t"
  by (simp add: forgetInclusion_def Let_def put_job_def)

lemma resubmits_forget: "resubmits (forgetInclusion opts env j t) = resubmits t @
    (if resubmitOnRollback opts \<and> truthy (k_signedTxCbor j) then [(k_jobId j, the (k_signedTxCbor j))] else [])"
  by (simp add: forgetInclusion_def Let_def put_job_def)

lemma reorg_folds:
  "lastKnownTipHeight (fold (\<lambda>j t. if rolled_back ev j then forgetInclusion opts env j t else t) js t) = lastKnownTipHeight t"
  "finals (fold (\<lambda>j t. if rolled_back ev j then forgetInclusion opts env j t else t) js t) = finals t"
  "resubmits (fold (\<lambda>j t. if rolled_back ev j then forgetInclusion opts env j t else t) js t) = resubmits t @
     (if resubmitOnRollback opts
      then map (\<lambda>j. (k_jobId j, the (k_signedTxCbor j))) (filter (\<lambda>j. rolled_back ev j \<and> truthy (k_signedTxCbor j)) js)
      else [])"
  by (induction js arbitrary: t) (simp_all add: tip_forget finals_forget resubmits_forget)

text \<open>
  After a rollback to a fork point no watched job keeps an inclusion after it, every other job
  is untouched, no job is finalised, the known tip is not above the fork, and the transactions
  sent are exactly the stored bytes of the jobs that were rolled back, in order.
\<close>

theorem reorg_forgets:
  assumes "tracker_wf t" "running t"
  shows "mget (pending (onReorg opts env ev t)) i
           = map_option (\<lambda>j. if rolled_back ev j then forgotten j else j) (mget (pending t) i)
    \<and> finals (onReorg opts env ev t) = finals t
    \<and> (case lastKnownTipHeight (onReorg opts env ev t) of None \<Rightarrow> True
       | Some x \<Rightarrow> lastKnownTipHeight t \<noteq> None \<and> g_forkHeight ev \<noteq> None
           \<and> x = min (the (g_forkHeight ev)) (the (lastKnownTipHeight t)))
    \<and> resubmits (onReorg opts env ev t) = resubmits t @
        (if resubmitOnRollback opts
         then map (\<lambda>j. (k_jobId j, the (k_signedTxCbor j)))
           (filter (\<lambda>j. rolled_back ev j \<and> truthy (k_signedTxCbor j)) (mvalues (pending t)))
         else [])"
proof -
  let ?t1 = "t\<lparr>lastKnownTipHeight := clamp_tip (g_forkHeight ev) (lastKnownTipHeight t)\<rparr>"
  have eq: "onReorg opts env ev t = fold (\<lambda>j t. if rolled_back ev j then forgetInclusion opts env j t else t) (mvalues (pending t)) ?t1"
    using assms(2) by (simp add: onReorg_def Let_def reorg_step)
  have tip: "lastKnownTipHeight (onReorg opts env ev t) = clamp_tip (g_forkHeight ev) (lastKnownTipHeight t)"
    "finals (onReorg opts env ev t) = finals t"
    "resubmits (onReorg opts env ev t) = resubmits t @
        (if resubmitOnRollback opts
         then map (\<lambda>j. (k_jobId j, the (k_signedTxCbor j)))
           (filter (\<lambda>j. rolled_back ev j \<and> truthy (k_signedTxCbor j)) (mvalues (pending t)))
         else [])"
    unfolding eq reorg_folds by simp_all
  show ?thesis
    unfolding tip by (intro conjI reorg_pending [OF assms]) (auto simp: clamp_tip_def split: option.split)
qed

theorem reorg_forgets_witness:
  "resubmits (onReorg demo_opts quiet \<lparr>g_forkSlot = 90, g_forkHeight = Some 4\<rparr>
     (trun demo_opts Some id [StartIn, TrackIn 0 demo_track, BlockIn quiet (demo_block 5 [''h1''])] (newTracker demo_jobs [])))
   = [(''a'', ''c1'')]"
proof -
  let ?t = "trun demo_opts Some id [StartIn, TrackIn 0 demo_track, BlockIn quiet (demo_block 5 [''h1''])] (newTracker demo_jobs [])"
  have wf: "tracker_wf ?t" "running ?t" by code_simp+
  have "resubmits ?t = [] \<and> map (\<lambda>j. (k_jobId j, the (k_signedTxCbor j)))
      (filter (\<lambda>j. rolled_back \<lparr>g_forkSlot = 90, g_forkHeight = Some 4\<rparr> j \<and> truthy (k_signedTxCbor j)) (mvalues (pending ?t)))
    = [(''a'', ''c1'')]" by code_simp
  with reorg_forgets [OF wf, of demo_opts quiet "\<lparr>g_forkSlot = 90, g_forkHeight = Some 4\<rparr>" "''a''"]
  show ?thesis by (simp add: demo_opts_def)
qed

text \<open>
  The timeout still counts from the first submission after a rollback: a job that was included,
  rolled back and sent again is failed as \<open>TX_DROPPED\<close> by the next poll, with its transaction
  in the mempool, and gives up its idempotency key.
\<close>

theorem resubmitted_job_is_dropped:
  "let t0 = trun demo_opts Some id [StartIn, TrackIn 0 demo_track, BlockIn quiet (demo_block 5 [''h1''])] (newTracker demo_jobs []);
       t1 = onReorg demo_opts quiet \<lparr>g_forkSlot = 90, g_forkHeight = Some 4\<rparr> t0;
       t2 = pollOnce demo_opts Some (demo_env 600001 (Inr (Some 4)) (Inl (NotFoundError None))) t1
   in resubmits t1 = [(''a'', ''c1'')]
    \<and> map_option (\<lambda>j. (j_status j, j_errorCode j)) (getJobById (tdb t2) ''a'') = Some (Failed, Some ''TX_DROPPED'')"
  by code_simp

end
