(* ===== verification/TrackerDepth.thy ===== *)
theory TrackerDepth imports ConfirmationTracker begin

text \<open>
  What a confirmation of the tracker rests on. The history of the tracker's inputs (newest first)
  says at which height a transaction was sighted and not rolled back since, and which tip is
  known; a job is only announced as confirmed at the configured depth below such a tip.
\<close>

section \<open>Evidence\<close>

fun shows_at :: "tinput \<Rightarrow> string \<Rightarrow> string \<Rightarrow> int option \<Rightarrow> int \<Rightarrow> bool" where
  "shows_at (BlockIn env ev) i h sl n = (h \<in> set (b_txHashes ev) \<and> b_height ev = Some n \<and> b_slot ev = sl)"
| "shows_at (PollIn env) i h sl n =
     (case e_tx env i of Inl _ \<Rightarrow> False | Inr tx \<Rightarrow> c_blockHeight tx = Some n \<and> c_slot tx = sl)"
| "shows_at (TrackIn now job) i h sl n =
     (ta_jobId job = i \<and> ta_txHash job = h \<and> ta_confirmedHeight job = Some n \<and> ta_confirmedSlot job = sl)"
| "shows_at _ i h sl n = False"

fun undoes :: "tinput \<Rightarrow> int option \<Rightarrow> bool" where
  "undoes (ReorgIn env ev) (Some s) = (s > g_forkSlot ev)"
| "undoes _ _ = False"

fun sighted :: "tinput list \<Rightarrow> string \<Rightarrow> string \<Rightarrow> int option \<Rightarrow> int \<Rightarrow> bool" where
  "sighted [] i h sl n = False"
| "sighted (x # hist) i h sl n = (shows_at x i h sl n \<or> (\<not> undoes x sl \<and> sighted hist i h sl n))"

text \<open>The tips an input reports (heights are not negative) and the tips a fork point invalidates.\<close>

fun reports_tip :: "tinput \<Rightarrow> int \<Rightarrow> bool" where
  "reports_tip (BlockIn env ev) n = (case orElse (b_tipHeight ev) (b_height ev) of None \<Rightarrow> False | Some h \<Rightarrow> n \<in> {h, max 0 h})"
| "reports_tip (PollIn env) n = (case e_tip env of Inr (Some h) \<Rightarrow> n \<in> {h, max 0 h} | _ \<Rightarrow> False)"
| "reports_tip (ReorgIn env ev) n = (g_forkHeight ev = Some n)"
| "reports_tip _ n = False"

fun clamps_tip :: "tinput \<Rightarrow> int \<Rightarrow> bool" where
  "clamps_tip (ReorgIn env ev) n = (case g_forkHeight ev of None \<Rightarrow> True | Some f \<Rightarrow> n > f)"
| "clamps_tip _ n = False"

fun tip_known :: "tinput list \<Rightarrow> int \<Rightarrow> bool" where
  "tip_known [] n = False"
| "tip_known (x # hist) n = (reports_tip x n \<or> (\<not> clamps_tip x n \<and> tip_known hist n))"

definition deep_enough :: "tracker_options \<Rightarrow> tinput list \<Rightarrow> string \<Rightarrow> string \<Rightarrow> bool" where
  "deep_enough opts hist i h \<longleftrightarrow>
     (\<exists>sl n tip. sighted hist i h sl n \<and> tip_known hist tip \<and> tip - n + 1 \<ge> confirmationDepth opts)"

section \<open>The invariant of one handler run\<close>

definition job_good :: "tinput list \<Rightarrow> TrackedJob \<Rightarrow> bool" where
  "job_good hist j \<longleftrightarrow> (\<forall>n. k_foundHeight j = Some n \<longrightarrow> sighted hist (k_jobId j) (k_txHash j) (k_foundSlot j) n)"

definition tip_good :: "tinput list \<Rightarrow> int option \<Rightarrow> bool" where
  "tip_good hist tip \<longleftrightarrow> (\<forall>n. tip = Some n \<longrightarrow> tip_known hist n)"

definition final_good :: "tracker_options \<Rightarrow> tinput list \<Rightarrow> final_event \<Rightarrow> bool" where
  "final_good opts hist e \<longleftrightarrow> (f_outcome e = FinalConfirmed \<longrightarrow> (\<exists>k. deep_enough opts (drop k hist) (f_jobId e) (f_txHash e)))"

definition run_good :: "tracker_options \<Rightarrow> tinput list \<Rightarrow> tracker \<Rightarrow> bool" where
  "run_good opts hist t \<longleftrightarrow> tracker_wf t \<and> (\<forall>j \<in> set (mvalues (pending t)). job_good hist j)
     \<and> tip_good hist (lastKnownTipHeight t) \<and> (\<forall>e \<in> set (finals t). final_good opts hist e)"

lemma final_good_mono: "final_good opts hist e \<Longrightarrow> final_good opts (x # hist) e"
  unfolding final_good_def by (metis drop_Suc_Cons)

lemma mvalues_mput: "v' \<in> set (mvalues (mput m k v)) \<Longrightarrow> v' = v \<or> v' \<in> set (mvalues m)"
  by (auto simp: mput_def upsert_def mvalues_def split: if_splits)

lemma pairs_mput: "(k', v') \<in> set (mput m k v) \<Longrightarrow> (k' = k \<and> v' = v) \<or> (k', v') \<in> set m"
  by (auto simp: mput_def upsert_def split: if_splits)

lemma tracker_wf_put: "tracker_wf t \<Longrightarrow> tracker_wf (put_job job t)"
  unfolding tracker_wf_def put_job_def by (auto dest!: pairs_mput)

lemma run_good_put: "run_good opts hist t \<Longrightarrow> job_good hist job \<Longrightarrow> run_good opts hist (put_job job t)"
  unfolding run_good_def by (auto simp: tracker_wf_put) (auto simp: put_job_def dest!: mvalues_mput)

lemma run_good_same:
  "run_good opts hist t \<Longrightarrow> pending t' = pending t \<Longrightarrow> finals t' = finals t
    \<Longrightarrow> tip_good hist (lastKnownTipHeight t') \<Longrightarrow> run_good opts hist t'"
  by (simp add: run_good_def tracker_wf_def)

lemma run_good_record:
  assumes "run_good opts hist t"
  shows "run_good opts hist (record_point env job t)"
  by (rule run_good_same [OF assms]) (use assms in \<open>simp_all add: record_point_def run_good_def\<close>)

lemma mdel_subset: "set (mdel m k) \<subseteq> set m"
  by (auto simp: mdel_def)

lemma tracker_wf_mdel: "tracker_wf t \<Longrightarrow> pending t' = mdel (pending t) k \<Longrightarrow> tracker_wf t'"
  unfolding tracker_wf_def by (simp add: jmap_wf_mdel) (simp add: mdel_def)

lemma finalize_pending: "pending (finalize rep env job outcome t) \<in> {pending t, mdel (pending t) (k_jobId job)}"
  by (auto simp: finalize_def Let_def split: prod.split)

lemma finalize_tip: "lastKnownTipHeight (finalize rep env job outcome t) = lastKnownTipHeight t"
  by (simp add: finalize_def Let_def split: prod.split)

lemma finalize_finals: "e \<in> set (finals (finalize rep env job outcome t)) \<Longrightarrow>
    e \<in> set (finals t) \<or> (f_jobId e = k_jobId job \<and> f_txHash e = k_txHash job \<and> f_outcome e = outcome)"
  by (cases rule: finalize_cases [of rep env job outcome t]) auto

lemma run_good_finalize:
  assumes "run_good opts hist t" "outcome = FinalConfirmed \<longrightarrow> deep_enough opts hist (k_jobId job) (k_txHash job)"
  shows "run_good opts hist (finalize rep env job outcome t)"
proof -
  have "final_good opts hist e" if "e \<in> set (finals (finalize rep env job outcome t))" for e
  proof -
    have "final_good opts hist e"
      if "f_jobId e = k_jobId job \<and> f_txHash e = k_txHash job \<and> f_outcome e = outcome"
      unfolding final_good_def using assms(2) that by (auto intro: exI [of _ 0])
    with finalize_finals [OF that] assms(1) show ?thesis by (auto simp: run_good_def)
  qed
  moreover have "set (mvalues (pending (finalize rep env job outcome t))) \<subseteq> set (mvalues (pending t))"
    using finalize_pending [of rep env job outcome t] by (auto simp: mvalues_def mdel_def)
  moreover have "tracker_wf (finalize rep env job outcome t)"
  proof -
    have "tracker_wf t" using assms(1) by (simp add: run_good_def)
    with finalize_pending [of rep env job outcome t] show ?thesis
      by (auto intro: tracker_wf_mdel) (simp add: tracker_wf_def)
  qed
  ultimately show ?thesis using assms(1) by (auto simp: run_good_def finalize_tip)
qed

lemma run_good_forget:
  assumes "run_good opts hist t"
  shows "run_good opts hist (forgetInclusion opts' env job t)"
proof -
  have "run_good opts hist (put_job (forgotten job) t)"
    by (rule run_good_put [OF assms]) (simp add: job_good_def forgotten_def)
  then show ?thesis
    by (rule run_good_same)
      (use assms in \<open>auto simp: forgetInclusion_def Let_def forgotten_def put_job_def run_good_def\<close>)
qed

text \<open>The re-check: when it succeeds, the transaction is deep enough at the height it is now known at.\<close>

lemma run_good_stillIncluded:
  assumes "run_good opts (PollIn env # hist) t" "job_good (PollIn env # hist) job" "tip_known (PollIn env # hist) tip"
    and "k_foundHeight job = Some h" "tip - h + 1 \<ge> confirmationDepth opts"
  shows "run_good opts (PollIn env # hist) (snd (stillIncluded opts env job tip t))
    \<and> (fst (stillIncluded opts env job tip t) \<longrightarrow> deep_enough opts (PollIn env # hist) (k_jobId job) (k_txHash job))"
proof (cases "e_tx env (k_jobId job)")
  case (Inl err)
  have "run_good opts (PollIn env # hist) (t\<lparr>lastKnownTipHeight := None\<rparr>)"
    using assms(1) by (rule run_good_same) (simp_all add: tip_good_def)
  with Inl assms(1) show ?thesis by (simp add: stillIncluded_def run_good_forget)
next
  case (Inr tx)
  have old: "deep_enough opts (PollIn env # hist) (k_jobId job) (k_txHash job)"
    using assms(2-5) unfolding deep_enough_def job_good_def by blast
  have keep: "job_good (PollIn env # hist) (job\<lparr>k_seenRound := r\<rparr>)" for r
    using assms(2) by (simp add: job_good_def)
  show ?thesis
  proof (cases "c_blockHeight tx")
    case None
    with Inr old keep assms(1) show ?thesis by (simp add: stillIncluded_def run_good_put)
  next
    case (Some n)
    let ?job2 = "job\<lparr>k_seenRound := Some (round_no t), k_foundHeight := Some n, k_foundSlot := c_slot tx\<rparr>"
    have seen: "sighted (PollIn env # hist) (k_jobId job) (k_txHash job) (c_slot tx) n" using Inr Some by simp
    then have "job_good (PollIn env # hist) ?job2" by (simp add: job_good_def)
    moreover have "tip - n + 1 \<ge> confirmationDepth opts \<Longrightarrow> deep_enough opts (PollIn env # hist) (k_jobId job) (k_txHash job)"
      using seen assms(3) unfolding deep_enough_def by blast
    ultimately show ?thesis
      using Inr Some old keep assms(1) by (auto simp: stillIncluded_def Let_def run_good_put run_good_record)
  qed
qed

lemma run_good_confirm_one:
  assumes "run_good opts hist t" "job_good hist job" "tip_known hist tip"
    and "revalidate \<longrightarrow> (\<exists>hist'. hist = PollIn env # hist')"
  shows "run_good opts hist (confirm_one opts rep env revalidate tip job t)"
proof (cases "k_foundHeight job")
  case None
  with assms(1) show ?thesis by (simp add: confirm_one_def)
next
  case (Some h)
  show ?thesis
  proof (cases "tip - h + 1 < confirmationDepth opts")
    case True
    with Some assms(1) show ?thesis by (simp add: confirm_one_def)
  next
    case False
    then have deep: "deep_enough opts hist (k_jobId job) (k_txHash job)"
      using assms(2,3) Some unfolding deep_enough_def job_good_def by (metis linorder_not_less)
    show ?thesis
    proof (cases "revalidate \<and> k_seenRound job \<noteq> Some (round_no t)")
      case True
      then obtain hist' where hist: "hist = PollIn env # hist'" using assms(4) by blast
      obtain b t1 where si: "stillIncluded opts env job tip t = (b, t1)" by (cases "stillIncluded opts env job tip t")
      from run_good_stillIncluded [OF assms(1-3) [unfolded hist] Some] False si
      have "run_good opts hist t1" "b \<longrightarrow> deep_enough opts hist (k_jobId job) (k_txHash job)" by (simp_all add: hist)
      with True False Some si show ?thesis by (cases b) (simp_all add: confirm_one_def run_good_finalize)
    next
      case not: False
      with False Some deep assms(1) show ?thesis
        by (auto simp: confirm_one_def intro: run_good_finalize)
    qed
  qed
qed

lemma run_good_confirmMature:
  assumes "run_good opts hist t" "revalidate \<longrightarrow> (\<exists>hist'. hist = PollIn env # hist')"
  shows "run_good opts hist (confirmMature opts rep env revalidate t)"
proof (cases "lastKnownTipHeight t")
  case None
  with assms(1) show ?thesis by (simp add: confirmMature_def)
next
  case (Some tip)
  then have known: "tip_known hist tip" using assms(1) by (simp add: run_good_def tip_good_def)
  have "run_good opts hist (fold (confirm_one opts rep env revalidate tip) (mvalues (pending t)) t)"
  proof (rule fold_invariant [where Q = "job_good hist" and P = "run_good opts hist"])
    show "job_good hist j" if "j \<in> set (mvalues (pending t))" for j
      using assms(1) that by (simp add: run_good_def)
    show "run_good opts hist (confirm_one opts rep env revalidate tip j s)" if "job_good hist j" "run_good opts hist s" for j s
      by (rule run_good_confirm_one [OF that(2,1) known assms(2)])
  qed (rule assms(1))
  with Some show ?thesis by (simp add: confirmMature_def)
qed

section \<open>Every input\<close>

lemma run_good_later:
  assumes "run_good opts hist t" "\<forall>env ev. x \<noteq> ReorgIn env ev"
  shows "run_good opts (x # hist) t"
proof -
  have "\<not> undoes x sl" "\<not> clamps_tip x n" for sl n using assms(2) by (cases x; simp)+
  then show ?thesis
    using assms(1) by (auto simp: run_good_def job_good_def tip_good_def final_good_mono)
qed

lemma run_good_raise:
  assumes "run_good opts hist t" "\<And>n. h = Some n \<Longrightarrow> tip_known hist n \<and> tip_known hist (max 0 n)"
  shows "run_good opts hist (raise_tip h t)"
proof (cases h)
  case (Some n)
  have "tip_known hist (max (nullish (lastKnownTipHeight t) 0) n)"
  proof (cases "lastKnownTipHeight t")
    case None
    with assms(2) [OF Some] show ?thesis by (simp add: max.commute)
  next
    case tip: (Some m)
    then have "tip_known hist m" using assms(1) by (simp add: run_good_def tip_good_def)
    with assms(2) [OF Some] tip show ?thesis by (cases "n \<le> m") (simp_all add: max_def)
  qed
  with Some assms(1) show ?thesis
    by (intro run_good_same [OF assms(1)]) (simp_all add: raise_tip_def tip_good_def)
qed (use assms(1) in \<open>simp add: raise_tip_def\<close>)


lemma run_good_block:
  assumes "run_good opts hist t"
  shows "run_good opts (BlockIn env ev # hist) (onBlockIndexed opts rep env ev t)"
proof -
  let ?h = "BlockIn env ev # hist"
  let ?t1 = "raise_tip (orElse (b_tipHeight ev) (b_height ev)) t"
  let ?found = "filter (\<lambda>j. k_foundHeight j = None \<and> k_txHash j \<in> set (b_txHashes ev)) (mvalues (pending ?t1))"
  let ?g = "\<lambda>j t. let j' = j\<lparr>k_foundSlot := b_slot ev, k_foundHeight := b_height ev\<rparr> in record_point env j' (put_job j' t)"
  have later: "run_good opts ?h t" by (rule run_good_later [OF assms]) simp
  then have "run_good opts ?h ?t1" by (rule run_good_raise) simp
  then have "run_good opts ?h (fold ?g ?found ?t1)"
  proof (rule fold_invariant [where Q = "\<lambda>j. k_txHash j \<in> set (b_txHashes ev)", rotated])
    show "run_good opts ?h (?g j s)" if "k_txHash j \<in> set (b_txHashes ev)" "run_good opts ?h s" for j s
    proof -
      have "job_good ?h (j\<lparr>k_foundSlot := b_slot ev, k_foundHeight := b_height ev\<rparr>)"
        using that(1) by (simp add: job_good_def)
      with that(2) show ?thesis by (simp add: Let_def run_good_record run_good_put)
    qed
  qed simp
  then have "run_good opts ?h (confirmMature opts rep env False (fold ?g ?found ?t1))"
    by (rule run_good_confirmMature) simp
  with later show ?thesis by (simp add: onBlockIndexed_def Let_def)
qed

lemma run_good_poll:
  assumes "run_good opts hist t"
  shows "run_good opts (PollIn env # hist) (pollOnce opts rep env t)"
proof -
  let ?h = "PollIn env # hist"
  let ?t0 = "t\<lparr>polling := True, round_no := round_no t + 1\<rparr>"
  have later: "run_good opts ?h t" by (rule run_good_later [OF assms]) simp
  then have t0: "run_good opts ?h ?t0"
    by (rule run_good_same) (use later in \<open>simp_all add: run_good_def\<close>)
  have "run_good opts ?h (poll_round opts rep env ?t0)"
  proof (cases "e_tip env")
    case (Inl err)
    with t0 show ?thesis by (simp add: poll_round_def)
  next
    case (Inr h)
    let ?t1 = "raise_tip h ?t0"
    have t1: "run_good opts ?h ?t1" using t0 by (rule run_good_raise) (simp add: Inr)
    have "run_good opts ?h (fold (poll_job opts rep env) (mvalues (pending ?t1)) ?t1)"
    proof (rule fold_invariant [where Q = "\<lambda>_. True"])
      show "run_good opts ?h (poll_job opts rep env j s)" if "run_good opts ?h s" for j s
      proof (cases "e_tx env (k_jobId j)")
        case (Inl err)
        with that show ?thesis by (simp add: poll_job_def run_good_finalize)
      next
        case tx: (Inr tx)
        have "job_good ?h (j\<lparr>k_foundSlot := c_slot tx, k_foundHeight := c_blockHeight tx, k_seenRound := r\<rparr>)" for r
          using tx by (simp add: job_good_def)
        with tx that show ?thesis by (simp add: poll_job_def Let_def run_good_record run_good_put)
      qed
    qed (rule TrueI, rule t1)
    then have "run_good opts ?h (confirmMature opts rep env True (fold (poll_job opts rep env) (mvalues (pending ?t1)) ?t1))"
      by (rule run_good_confirmMature) blast
    with Inr show ?thesis by (simp add: poll_round_def Let_def)
  qed
  then have "run_good opts ?h ((poll_round opts rep env ?t0)\<lparr>polling := False\<rparr>)"
    by (rule run_good_same) (use \<open>run_good opts ?h (poll_round opts rep env ?t0)\<close> in \<open>simp_all add: run_good_def\<close>)
  with later show ?thesis unfolding pollOnce_def by presburger
qed

lemma job_in_values: "tracker_wf t \<Longrightarrow> j \<in> set (mvalues (pending t)) \<longleftrightarrow> mget (pending t) (k_jobId j) = Some j"
  unfolding tracker_wf_def mvalues_def by (auto simp: mget_iff) force

lemma tracker_wf_reorg:
  assumes "tracker_wf t"
  shows "tracker_wf (onReorg opts env ev t)"
proof -
  have "tracker_wf (fold (\<lambda>j t. if rolled_back ev j then forgetInclusion opts env j t else t) js s)" if "tracker_wf s" for js s
    using that
  proof (induction js arbitrary: s)
    case (Cons j js)
    have "tracker_wf (forgetInclusion opts env j s)"
      using tracker_wf_put [OF Cons.prems, of "forgotten j"]
      by (simp add: tracker_wf_def pending_forget) (simp add: put_job_def forgotten_def)
    with Cons show ?case by simp
  qed simp
  moreover have "tracker_wf (t\<lparr>lastKnownTipHeight := x\<rparr>)" for x using assms by (simp add: tracker_wf_def)
  ultimately show ?thesis using assms by (simp add: onReorg_def Let_def reorg_step)
qed

lemma reorg_tip: "running t \<Longrightarrow> lastKnownTipHeight (onReorg opts env ev t) = clamp_tip (g_forkHeight ev) (lastKnownTipHeight t)"
  "finals (onReorg opts env ev t) = finals t"
  by (simp_all add: onReorg_def Let_def reorg_step reorg_folds)

lemma run_good_reorg:
  assumes "run_good opts hist t" "running t"
  shows "run_good opts (ReorgIn env ev # hist) (onReorg opts' env ev t)"
proof -
  let ?t' = "onReorg opts' env ev t"
  have wf: "tracker_wf t" using assms(1) by (simp add: run_good_def)
  have wf': "tracker_wf ?t'" by (rule tracker_wf_reorg [OF wf])
  have "job_good (ReorgIn env ev # hist) j" if "j \<in> set (mvalues (pending ?t'))" for j
  proof -
    from that wf' have "mget (pending ?t') (k_jobId j) = Some j" by (simp add: job_in_values)
    then obtain j0 where j0: "mget (pending t) (k_jobId j) = Some j0" "j = (if rolled_back ev j0 then forgotten j0 else j0)"
      using reorg_pending [OF wf assms(2), of opts' env ev "k_jobId j"] by auto
    show ?thesis
    proof (cases "rolled_back ev j0")
      case True
      with j0 show ?thesis by (simp add: job_good_def forgotten_def)
    next
      case False
      with j0 wf have "j0 \<in> set (mvalues (pending t))" by (simp add: job_in_values)
      then have "job_good hist j0" using assms(1) by (simp add: run_good_def)
      moreover from False have "\<not> undoes (ReorgIn env ev) (k_foundSlot j0)"
        by (cases "k_foundSlot j0") (simp_all add: rolled_back_def)
      ultimately show ?thesis using False j0(2) by (simp add: job_good_def)
    qed
  qed
  moreover have "tip_good (ReorgIn env ev # hist) (lastKnownTipHeight ?t')"
    using assms by (auto simp: reorg_tip tip_good_def run_good_def clamp_tip_def split: option.splits if_splits)
  moreover have "\<forall>e \<in> set (finals ?t'). final_good opts (ReorgIn env ev # hist) e"
    using assms(1) by (auto simp: reorg_tip(2) run_good_def final_good_mono)
  ultimately show ?thesis using wf' by (simp add: run_good_def)
qed

lemma run_good_track:
  assumes "run_good opts hist t"
  shows "run_good opts (TrackIn now job # hist) (track now job t)"
proof -
  have later: "run_good opts (TrackIn now job # hist) t" by (rule run_good_later [OF assms]) simp
  let ?j = "\<lparr>k_jobId = ta_jobId job, k_walletId = ta_walletId job, k_kind = ta_kind job,
         k_txHash = ta_txHash job, k_signedTxCbor = ta_signedTxCbor job,
         k_submittedAt = nullish (ta_submittedAt job) now, k_foundSlot = ta_confirmedSlot job,
         k_foundHeight = ta_confirmedHeight job, k_seenRound = None\<rparr>"
  have "track now job t = (if mhas (pending t) (ta_jobId job) then t else put_job ?j t)"
    by (simp add: track_def put_job_def)
  moreover have "job_good (TrackIn now job # hist) ?j" by (simp add: job_good_def)
  ultimately show ?thesis using later by (simp add: run_good_put)
qed

lemma run_good_step:
  assumes "run_good opts hist t" "running t" "x \<noteq> StopIn"
  shows "run_good opts (x # hist) (tstep opts rep sha x t)"
proof (cases x)
  case (StoreIn y)
  have later: "run_good opts (x # hist) t" using StoreIn by (intro run_good_later [OF assms(1)]) simp
  have "run_good opts (x # hist) (t\<lparr>tdb := store_step sha rep y (tdb t)\<rparr>)"
    by (rule run_good_same [OF later]) (use later in \<open>simp_all add: run_good_def\<close>)
  with StoreIn show ?thesis by simp
next
  case StartIn
  with assms run_good_later [OF assms(1), of x] show ?thesis by (simp add: startTracker_def)
qed (use assms in \<open>simp_all add: run_good_block run_good_reorg run_good_poll run_good_track\<close>)

lemma running_fold: "(\<And>x t. running (g x t) = running t) \<Longrightarrow> running (fold g xs t) = running t"
  by (induction xs arbitrary: t) simp_all

lemma running_basic: "running (put_job j t) = running t" "running (record_point env j t) = running t"
  "running (raise_tip h t) = running t" "running (finalize rep env j oc t) = running t"
  "running (forgetInclusion opts env j t) = running t"
  by (simp_all add: put_job_def record_point_def raise_tip_def finalize_def forgetInclusion_def Let_def split: option.split prod.split)

lemma running_stillIncluded: "running (snd (stillIncluded opts env j tip t)) = running t"
  by (simp add: stillIncluded_def Let_def running_basic split: sum.split option.split)

lemma running_confirm_one: "running (confirm_one opts rep env rv tip j t) = running t"
  using running_stillIncluded [of opts env j tip t]
  by (auto simp: confirm_one_def running_basic split: option.split prod.split bool.split)

lemma running_confirmMature: "running (confirmMature opts rep env rv t) = running t"
  by (simp add: confirmMature_def running_fold running_confirm_one split: option.split)

lemma running_poll_job: "running (poll_job opts rep env j t) = running t"
  by (simp add: poll_job_def Let_def running_basic split: sum.split)

lemma running_poll_round: "running (poll_round opts rep env t) = running t"
  by (simp add: poll_round_def Let_def running_confirmMature running_fold running_poll_job running_basic split: sum.split)

lemma running_step: "x \<noteq> StopIn \<Longrightarrow> running t \<Longrightarrow> running (tstep opts rep sha x t)"
  by (cases x) (simp_all add: onBlockIndexed_def onReorg_def reorg_step Let_def running_confirmMature running_fold
      running_basic pollOnce_def running_poll_round track_def startTracker_def)

lemma run_good_run:
  assumes "StopIn \<notin> set xs"
  shows "run_good opts (rev xs) (trun opts rep sha xs (startTracker (newTracker db subs)))
    \<and> running (trun opts rep sha xs (startTracker (newTracker db subs)))"
  using assms
proof (induction xs rule: rev_induct)
  case Nil
  show ?case
    by (simp add: trun_def run_good_def newTracker_def startTracker_def tracker_wf_def mvalues_def tip_good_def)
next
  case (snoc x xs)
  then show ?case by (auto simp: trun_def intro: run_good_step running_step)
qed

lemma map_singletonD: "map g xs = [y] \<Longrightarrow> \<exists>x \<in> set xs. g x = y"
  by (cases xs) simp_all



end
