(* ===== verification/WalletWorker.thy ===== *)
theory WalletWorker imports ConfirmationTracker begin

text \<open>
  The wallet worker of \<open>srv/blockchain/wallet-worker/wallet-worker.ts\<close> and its lease heartbeat
  (\<open>lease-heartbeat.ts\<close>). An execution is a state machine: its \<open>pc\<close> is the next database
  statement or network call, \<open>exec_step\<close> runs the code up to the following one. What the outside
  answers in a step (clock, commit or failure of the statement, build, submit and lookup results)
  is its \<open>answer\<close>. Several instances, their heartbeats, the other writers of the tables and
  crashes interleave between any two steps.
\<close>

section \<open>Errors of an execution\<close>

text \<open>A thrown value: a \<open>BackendError\<close> or any other error, with its message.\<close>

datatype jerr = JBackend backend_error string | JOther string

fun err_message :: "jerr \<Rightarrow> string" where
  "err_message (JBackend e m) = m"
| "err_message (JOther m) = m"

definition retryBackoffMs :: "int \<Rightarrow> int" where
  "retryBackoffMs attempt = min (5000 * 2 ^ nat (max 0 (attempt - 1))) 60000"

fun isTransientJobError :: "jerr \<Rightarrow> bool" where
  "isTransientJobError (JBackend e m) =
     (instanceof e ProviderUnavailableC \<or> instanceof e RateLimitC \<or> instanceof e AllBackendsFailedC
      \<or> instanceof e HsmC \<or> statusCode e \<ge> 500 \<or> statusCode e = 429)"
| "isTransientJobError (JOther m) = False"

fun terminalErrorCode :: "jerr \<Rightarrow> string" where
  "terminalErrorCode (JBackend e m) = code_string (code e)"
| "terminalErrorCode (JOther m) = ''EXECUTION_FAILED''"

fun alreadySubmitted :: "jerr \<Rightarrow> bool" where
  "alreadySubmitted (JBackend e m) = instanceof e TransactionAlreadySubmittedC"
| "alreadySubmitted (JOther m) = False"

fun provenAbsent :: "jerr \<Rightarrow> bool" where
  "provenAbsent (JBackend e m) = isNotFoundOnAllBackends e"
| "provenAbsent (JOther m) = False"

section \<open>The worker request\<close>

text \<open>
  A parsed request as a map from fields to values: \<open>str\<close> makes a value of a string, \<open>falsy\<close> is
  the truth test of the language.
\<close>

definition worker_request ::
  "(string \<Rightarrow> 'v) \<Rightarrow> ('v \<Rightarrow> bool) \<Rightarrow> string \<Rightarrow> string \<Rightarrow> (string, 'v) jmap \<Rightarrow> (string, 'v) jmap" where
  "worker_request str falsy network address raw =
     (let r1 = mput raw ''network'' (str network);
          r2 = mput r1 ''senderAddress'' (str address)
      in if (case mget r2 ''changeAddress'' of None \<Rightarrow> True | Some v \<Rightarrow> falsy v)
         then mput r2 ''changeAddress'' (str address) else r2)"

section \<open>Executions\<close>

text \<open>Where an adoption was started: the submit of an execution or of a reconciliation, or a chain lookup.\<close>

datatype adopt_site = AfterSubmit | AfterResubmit | FoundOnChain

datatype pc =
    ClaimPc
  | FenceBuildPc
  | BuildPc
  | FenceSubmitPc artifacts "string option"
  | StorePc artifacts "string option"
  | SendPc string "string option"
  | AdoptPc adopt_site string string "string option"
  | AdoptMarkPc adopt_site string string
  | FailReadPc jerr
  | FailWritePc jerr
  | ResendPc string
  | LookupPc jerr string
  | FailReconciledPc string jerr
  | ReleasePc
  | DonePc

record execution =
  x_inst :: string
  x_job :: WalletJobRow
  x_attempt :: int
  x_beating :: bool
  x_lost :: bool
  x_pc :: pc

record worker_config =
  maxConcurrentWallets :: nat
  txTimeoutMs :: int
  signsFor :: "string \<Rightarrow> string list"

text \<open>
  \<open>an_ok\<close>: the database statement of the step commits. \<open>an_request\<close>: the outcome of parsing and
  preparing the request (for \<open>submitSigned\<close>: the transaction it carries). \<open>an_build\<close>: unsigned
  transaction, fee, build id and the signature over it. \<open>an_submit\<close>, \<open>an_lookup\<close>: the answers of
  the network and of the chain lookup.
\<close>

record answer =
  an_now :: time
  an_ok :: bool
  an_request :: "jerr + string"
  an_build :: "jerr + (string \<times> string option \<times> string option \<times> string)"
  an_submit :: "jerr + string"
  an_lookup :: "jerr + unit"

record world =
  wd :: wdb
  wsubs :: "submission_row list"
  execs :: "execution list"
  sent :: "(string \<times> string) list"
  tracked :: "(string \<times> string \<times> string option) list"
  due :: "(string \<times> WalletJobRow) list"

section \<open>The lease heartbeat\<close>

definition LEASE_HEARTBEAT_INTERVAL_MS :: int where
  "LEASE_HEARTBEAT_INTERVAL_MS = WORKER_LEASE_TTL_MS div 3"

definition markLost :: "execution \<Rightarrow> execution" where
  "markLost x = (if x_lost x then x else x\<lparr>x_lost := True, x_beating := False\<rparr>)"

text \<open>\<open>fence\<close>: renew now; a renewal that fails to commit counts as lost.\<close>

definition fence :: "answer \<Rightarrow> wdb \<Rightarrow> execution \<Rightarrow> bool \<times> wdb \<times> execution" where
  "fence an db x =
     (if x_lost x then (False, db, x)
      else if \<not> an_ok an then (False, db, x\<lparr>x_lost := True\<rparr>)
      else (let (held, db') = renewWalletLease db (j_walletId (x_job x)) (x_inst x) (an_now an) WORKER_LEASE_TTL_MS
            in (held, db', if held then x else markLost x)))"

definition beat :: "answer \<Rightarrow> wdb \<Rightarrow> execution \<Rightarrow> wdb \<times> execution" where
  "beat an db x =
     (if \<not> x_beating x \<or> x_lost x \<or> \<not> an_ok an then (db, x)
      else (let (held, db') = renewWalletLease db (j_walletId (x_job x)) (x_inst x) (an_now an) WORKER_LEASE_TTL_MS
            in (db', if held then x else markLost x)))"

section \<open>One step of an execution\<close>

text \<open>\<open>tracker.track\<close> is idempotent per job within an instance.\<close>

definition watch :: "string \<Rightarrow> string \<Rightarrow> string option \<Rightarrow> world \<Rightarrow> world" where
  "watch inst jobId cbor w =
     (if \<exists>(i, k, _) \<in> set (tracked w). i = inst \<and> k = jobId then w
      else w\<lparr>tracked := tracked w @ [(inst, jobId, cbor)]\<rparr>)"

definition goto :: "pc \<Rightarrow> execution \<Rightarrow> execution" where
  "goto p x = x\<lparr>x_pc := p\<rparr>"

definition put_db :: "wdb \<Rightarrow> world \<Rightarrow> world" where
  "put_db db w = w\<lparr>wd := db\<rparr>"

text \<open>\<open>markFailed\<close> and the statistics in one transaction.\<close>

definition fail_and_bump :: "adapter \<Rightarrow> wdb \<Rightarrow> WalletJobRow \<Rightarrow> string \<Rightarrow> string \<Rightarrow> time \<Rightarrow> wdb" where
  "fail_and_bump rep db job ecode message now =
     (let (transitioned, db1) = markFailed rep db (j_ID job) ecode message now
      in if transitioned then bumpWalletStats db1 (j_walletId job) StatFailed now else db1)"

text \<open>\<open>submitWithAlreadyKnownTolerance\<close>: the hash the job goes on with, or the error.\<close>

definition tolerant_submit :: "(string \<Rightarrow> string) \<Rightarrow> answer \<Rightarrow> string \<Rightarrow> jerr + string" where
  "tolerant_submit hashOf an signedTxCbor =
     (case an_submit an of
        Inr h \<Rightarrow> Inr h
      | Inl err \<Rightarrow> if alreadySubmitted err then Inr (hashOf signedTxCbor) else Inl err)"

definition step_claim :: "adapter \<Rightarrow> (string \<Rightarrow> string) \<Rightarrow> answer \<Rightarrow> world \<Rightarrow> execution \<Rightarrow> world \<times> execution" where
  "step_claim rep hashOf an w x =
     (if \<not> an_ok an then (w, goto DonePc x)
      else
        (let (claimed, db) = markBuilding rep (wd w) (j_ID (x_job x)) (x_attempt x);
             x1 = x\<lparr>x_beating := True\<rparr>
         in if \<not> claimed then (put_db db w, goto DonePc x)
            else (put_db db w,
                  case an_request an of
                    Inl err \<Rightarrow> goto (FailReadPc err) x1
                  | Inr cbor \<Rightarrow>
                      if j_kind (x_job x) = SubmitSigned
                      then goto (FenceSubmitPc \<lparr>t_txHash = hashOf cbor, t_unsignedTxCbor = None,
                                   t_signedTxCbor = cbor, t_fee = None\<rparr> None) x1
                      else goto FenceBuildPc x1)))"

definition step_fence :: "pc \<Rightarrow> answer \<Rightarrow> world \<Rightarrow> execution \<Rightarrow> world \<times> execution" where
  "step_fence next_pc an w x =
     (let (held, db, x1) = fence an (wd w) x
      in (put_db db w, goto (if held then next_pc else ReleasePc) x1))"

definition step_build :: "(string \<Rightarrow> string) \<Rightarrow> answer \<Rightarrow> world \<Rightarrow> execution \<Rightarrow> world \<times> execution" where
  "step_build hashOf an w x =
     (case an_build an of
        Inl err \<Rightarrow> (w, goto (FailReadPc err) x)
      | Inr (unsigned, fee, buildId, signed) \<Rightarrow>
          (w, goto (FenceSubmitPc \<lparr>t_txHash = hashOf signed, t_unsignedTxCbor = Some unsigned,
                      t_signedTxCbor = signed, t_fee = fee\<rparr> buildId) x))"

definition step_store :: "adapter \<Rightarrow> answer \<Rightarrow> artifacts \<Rightarrow> string option \<Rightarrow> world \<Rightarrow> execution \<Rightarrow> world \<times> execution" where
  "step_store rep an arts buildId w x =
     (if \<not> an_ok an then (w, goto (FailReadPc (JOther ''database'')) x)
      else
        (let (stored, db) = markSubmitting rep (wd w) (j_ID (x_job x)) arts (an_now an)
         in (put_db db w, goto (if stored then SendPc (t_signedTxCbor arts) buildId else ReleasePc) x)))"

definition step_send :: "(string \<Rightarrow> string) \<Rightarrow> answer \<Rightarrow> string \<Rightarrow> string option \<Rightarrow> world \<Rightarrow> execution \<Rightarrow> world \<times> execution" where
  "step_send hashOf an cbor buildId w x =
     (let w1 = w\<lparr>sent := sent w @ [(j_ID (x_job x), cbor)]\<rparr>
      in case tolerant_submit hashOf an cbor of
           Inl err \<Rightarrow> (w1, goto ReleasePc x)
         | Inr h \<Rightarrow> (w1, goto (AdoptPc AfterSubmit h cbor buildId) x))"

text \<open>The submission row, written once per transaction; a failure here is only logged.\<close>

definition step_adopt :: "answer \<Rightarrow> adopt_site \<Rightarrow> string \<Rightarrow> string \<Rightarrow> world \<Rightarrow> execution \<Rightarrow> world \<times> execution" where
  "step_adopt an site txHash cbor w x =
     (let known = (\<exists>r \<in> set (wsubs w). sb_txHash r = txHash);
          w1 = (if j_kind (x_job x) \<noteq> SubmitSigned \<and> an_ok an \<and> \<not> known
                then w\<lparr>wsubs := wsubs w @ [\<lparr>sb_txHash = txHash, sb_status = ''submitted''\<rparr>]\<rparr> else w)
      in (w1, goto (AdoptMarkPc site txHash cbor) x))"

text \<open>
  A failing write here is an exception whose handler depends on the call site: the catch of
  \<open>executeJob\<close>, the catch around the re-submit of \<open>reconcileSubmitting\<close> (which treats it as a
  submit error), or none.
\<close>

definition step_adopt_mark :: "adapter \<Rightarrow> answer \<Rightarrow> adopt_site \<Rightarrow> string \<Rightarrow> string \<Rightarrow> world \<Rightarrow> execution \<Rightarrow> world \<times> execution" where
  "step_adopt_mark rep an site txHash cbor w x =
     (if \<not> an_ok an
      then (w, goto (case site of
                       AfterSubmit \<Rightarrow> FailReadPc (JOther ''database'')
                     | AfterResubmit \<Rightarrow> LookupPc (JOther ''database'') cbor
                     | FoundOnChain \<Rightarrow> ReleasePc) x)
      else
        (let (_, db) = markSubmitted rep (wd w) (j_ID (x_job x)) txHash
         in (watch (x_inst x) (j_ID (x_job x)) (Some cbor) (put_db db w), goto ReleasePc x)))"

definition step_fail_read :: "answer \<Rightarrow> jerr \<Rightarrow> world \<Rightarrow> execution \<Rightarrow> world \<times> execution" where
  "step_fail_read an err w x =
     (let current = (if an_ok an then getJobById (wd w) (j_ID (x_job x)) else None)
      in (w, goto (case current of
                     None \<Rightarrow> FailWritePc err
                   | Some j \<Rightarrow> if j_status j \<noteq> Building then ReleasePc else FailWritePc err) x))"

definition step_fail_write :: "adapter \<Rightarrow> answer \<Rightarrow> jerr \<Rightarrow> world \<Rightarrow> execution \<Rightarrow> world \<times> execution" where
  "step_fail_write rep an err w x =
     (if \<not> an_ok an then (w, goto ReleasePc x)
      else if isTransientJobError err \<and> x_attempt x < j_maxAttempts (x_job x)
      then (put_db (snd (requeueForRetry rep (wd w) (j_ID (x_job x)) (err_message err)
                     (Some (an_now an + retryBackoffMs (x_attempt x))))) w, goto ReleasePc x)
      else (put_db (fail_and_bump rep (wd w) (x_job x)
                      (if isTransientJobError err then ''RETRIES_EXHAUSTED'' else terminalErrorCode err)
                      (err_message err) (an_now an)) w, goto ReleasePc x))"

definition step_resend :: "(string \<Rightarrow> string) \<Rightarrow> answer \<Rightarrow> string \<Rightarrow> world \<Rightarrow> execution \<Rightarrow> world \<times> execution" where
  "step_resend hashOf an cbor w x =
     (let w1 = w\<lparr>sent := sent w @ [(j_ID (x_job x), cbor)]\<rparr>
      in case tolerant_submit hashOf an cbor of
           Inl err \<Rightarrow> (w1, goto (LookupPc err cbor) x)
         | Inr h \<Rightarrow> (w1, goto (AdoptPc AfterResubmit h cbor None) x))"

text \<open>The chain decides: the stored hash is looked up in the index and then at the backends.\<close>

definition step_lookup :: "worker_config \<Rightarrow> answer \<Rightarrow> jerr \<Rightarrow> string \<Rightarrow> world \<Rightarrow> execution \<Rightarrow> world \<times> execution" where
  "step_lookup cfg an submitError cbor w x =
     (w, goto (case an_lookup an of
         Inr _ \<Rightarrow> AdoptPc FoundOnChain (nullish (j_txHash (x_job x)) []) cbor None
       | Inl lookupErr \<Rightarrow>
           if \<not> provenAbsent lookupErr then ReleasePc
           else
             (let ageMs = (case j_submittedAt (x_job x) of None \<Rightarrow> 0 | Some t \<Rightarrow> an_now an - t);
                  expired = ageMs > txTimeoutMs cfg
              in if isTransientJobError submitError \<and> \<not> expired then ReleasePc
                 else FailReconciledPc (if expired then ''TX_DROPPED'' else ''SUBMIT_REJECTED'') submitError)) x)"

definition step_fail_reconciled :: "adapter \<Rightarrow> answer \<Rightarrow> string \<Rightarrow> jerr \<Rightarrow> world \<Rightarrow> execution \<Rightarrow> world \<times> execution" where
  "step_fail_reconciled rep an ecode err w x =
     (if \<not> an_ok an then (w, goto ReleasePc x)
      else (put_db (fail_and_bump rep (wd w) (x_job x) ecode (err_message err) (an_now an)) w, goto ReleasePc x))"

definition step_release :: "answer \<Rightarrow> world \<Rightarrow> execution \<Rightarrow> world \<times> execution" where
  "step_release an w x =
     (let x1 = x\<lparr>x_beating := False\<rparr>
      in if an_ok an then (put_db (releaseWalletLease (wd w) (j_walletId (x_job x)) (x_inst x)) w, goto DonePc x1)
         else (w, goto DonePc x1))"

fun exec_step :: "worker_config \<Rightarrow> adapter \<Rightarrow> (string \<Rightarrow> string) \<Rightarrow> answer \<Rightarrow> world \<Rightarrow> execution \<Rightarrow> world \<times> execution" where
  "exec_step cfg rep hashOf an w x =
     (case x_pc x of
        ClaimPc \<Rightarrow> step_claim rep hashOf an w x
      | FenceBuildPc \<Rightarrow> step_fence BuildPc an w x
      | BuildPc \<Rightarrow> step_build hashOf an w x
      | FenceSubmitPc arts b \<Rightarrow> step_fence (StorePc arts b) an w x
      | StorePc arts b \<Rightarrow> step_store rep an arts b w x
      | SendPc c b \<Rightarrow> step_send hashOf an c b w x
      | AdoptPc site h c b \<Rightarrow> step_adopt an site h c w x
      | AdoptMarkPc site h c \<Rightarrow> step_adopt_mark rep an site h c w x
      | FailReadPc err \<Rightarrow> step_fail_read an err w x
      | FailWritePc err \<Rightarrow> step_fail_write rep an err w x
      | ResendPc c \<Rightarrow> step_resend hashOf an c w x
      | LookupPc err c \<Rightarrow> step_lookup cfg an err c w x
      | FailReconciledPc ec err \<Rightarrow> step_fail_reconciled rep an ec err w x
      | ReleasePc \<Rightarrow> step_release an w x
      | DonePc \<Rightarrow> (w, x))"


section \<open>Dispatch\<close>

text \<open>The first due job of every wallet, in order.\<close>

fun nextPerWallet :: "WalletJobRow list \<Rightarrow> WalletJobRow list" where
  "nextPerWallet [] = []"
| "nextPerWallet (j # js) = j # nextPerWallet (filter (\<lambda>k. j_walletId k \<noteq> j_walletId j) js)"

definition executing :: "string \<Rightarrow> world \<Rightarrow> string list" where
  "executing inst w = map (\<lambda>x. j_walletId (x_job x)) (filter (\<lambda>x. x_inst x = inst \<and> x_pc x \<noteq> DonePc) (execs w))"

definition drop_due :: "string \<Rightarrow> world \<Rightarrow> world" where
  "drop_due inst w = w\<lparr>due := filter (\<lambda>(i, j). i \<noteq> inst) (due w)\<rparr>"

definition tick_read :: "string \<Rightarrow> time \<Rightarrow> world \<Rightarrow> world" where
  "tick_read inst now w =
     w\<lparr>due := filter (\<lambda>(i, j). i \<noteq> inst) (due w) @ map (Pair inst) (nextPerWallet (findDueJobs (wd w) now))\<rparr>"

definition spawn :: "string \<Rightarrow> WalletJobRow \<Rightarrow> pc \<Rightarrow> bool \<Rightarrow> world \<Rightarrow> world" where
  "spawn inst job p beating w =
     w\<lparr>execs := execs w @ [\<lparr>x_inst = inst, x_job = job, x_attempt = j_attempt job + 1,
         x_beating = beating, x_lost = False, x_pc = p\<rparr>]\<rparr>"

definition remove_first :: "('a \<Rightarrow> bool) \<Rightarrow> 'a list \<Rightarrow> 'a list" where
  "remove_first P xs = takeWhile (\<lambda>x. \<not> P x) xs @ tl (dropWhile (\<lambda>x. \<not> P x) xs)"

text \<open>One round of the dispatch loop over the due jobs of an instance.\<close>

definition dispatch :: "worker_config \<Rightarrow> string \<Rightarrow> answer \<Rightarrow> world \<Rightarrow> world" where
  "dispatch cfg inst an w =
     (case find (\<lambda>(i, j). i = inst) (due w) of
        None \<Rightarrow> w
      | Some (_, job) \<Rightarrow>
          (let w1 = w\<lparr>due := remove_first (\<lambda>(i, j). i = inst) (due w)\<rparr>;
               walletId = j_walletId job
           in if length (executing inst w) \<ge> maxConcurrentWallets cfg then drop_due inst w
              else if walletId \<in> set (executing inst w) then w1
              else if walletId \<notin> set (signsFor cfg inst) then w1
              else if \<not> an_ok an then drop_due inst w
              else
                (let db1 = snd (failOrphanedBuildingJobs (wd w1) walletId (an_now an))
                 in if walletHasActiveJob db1 walletId then put_db db1 w1
                    else
                      (let (won, db2) = tryAcquireWalletLease db1 db1 walletId inst (an_now an) WORKER_LEASE_TTL_MS
                       in if won then spawn inst job ClaimPc False (put_db db2 w1) else put_db db2 w1))))"

text \<open>
  Adoption of an interrupted submit; \<open>reconcileSubmitting\<close> runs up to its first statement. A row
  without its transaction is failed as never sent.
\<close>

definition reconcile_start :: "WalletJobRow \<Rightarrow> pc" where
  "reconcile_start job =
     (if truthy (j_signedTxCbor job) \<and> truthy (j_txHash job) then ResendPc (the (j_signedTxCbor job))
      else FailReconciledPc ''PROCESS_RESTART'' (JOther ''Job was interrupted before its signed transaction was stored.''))"

definition reconcile_pick :: "worker_config \<Rightarrow> string \<Rightarrow> string \<Rightarrow> answer \<Rightarrow> world \<Rightarrow> world" where
  "reconcile_pick cfg inst walletId an w =
     (if walletId \<notin> set (signsFor cfg inst) \<or> length (executing inst w) \<ge> maxConcurrentWallets cfg
         \<or> walletId \<in> set (executing inst w) \<or> \<not> an_ok an then w
      else
        (case findOrphanedSubmittingJob (wd w) walletId (an_now an) of
           None \<Rightarrow> w
         | Some stuck \<Rightarrow>
             (let (won, db) = tryAcquireWalletLease (wd w) (wd w) walletId inst (an_now an) WORKER_LEASE_TTL_MS
              in if won then spawn inst stuck (reconcile_start stuck) True (put_db db w) else put_db db w)))"

text \<open>Crash recovery at the start of an instance: submitted jobs are watched again.\<close>

definition worker_start :: "string \<Rightarrow> answer \<Rightarrow> world \<Rightarrow> world" where
  "worker_start inst an w =
     (if \<not> an_ok an then w
      else
        (let (r, db) = recoverInterruptedJobs (wd w) (an_now an)
         in fold (\<lambda>j. watch inst (j_ID j) (j_signedTxCbor j))
              (filter (\<lambda>j. truthy (j_txHash j)) (submittedToReconcile r)) (put_db db w)))"

definition crash :: "string \<Rightarrow> world \<Rightarrow> world" where
  "crash inst w = (drop_due inst w)\<lparr>execs := filter (\<lambda>x. x_inst x \<noteq> inst) (execs w),
     tracked := filter (\<lambda>(i, _). i \<noteq> inst) (tracked w)\<rparr>"

text \<open>The tracker sends the bytes it was given again after a rollback.\<close>

definition rollback_resend :: "nat \<Rightarrow> world \<Rightarrow> world" where
  "rollback_resend k w =
     (if k < length (tracked w)
      then (case tracked w ! k of
              (_, i, Some c) \<Rightarrow> (if c \<noteq> [] then w\<lparr>sent := sent w @ [(i, c)]\<rparr> else w)
            | (_, i, None) \<Rightarrow> w)
      else w)"

section \<open>The system\<close>

datatype winput =
    TickRead string time
  | Dispatch string answer
  | ReconcilePick string string answer
  | WorkerStart string answer
  | Advance nat answer
  | Beat nat answer
  | Crash string
  | RollbackResend nat
  | Foreign store_op

fun system_step :: "worker_config \<Rightarrow> adapter \<Rightarrow> (string \<Rightarrow> string) \<Rightarrow> (string \<Rightarrow> string) \<Rightarrow> winput \<Rightarrow> world \<Rightarrow> world" where
  "system_step cfg rep sha hashOf (TickRead i now) w = tick_read i now w"
| "system_step cfg rep sha hashOf (Dispatch i an) w = dispatch cfg i an w"
| "system_step cfg rep sha hashOf (ReconcilePick i wl an) w = reconcile_pick cfg i wl an w"
| "system_step cfg rep sha hashOf (WorkerStart i an) w = worker_start i an w"
| "system_step cfg rep sha hashOf (Advance k an) w =
     (if k < length (execs w)
      then (let (w', x') = exec_step cfg rep hashOf an w (execs w ! k) in w'\<lparr>execs := (execs w)[k := x']\<rparr>)
      else w)"
| "system_step cfg rep sha hashOf (Beat k an) w =
     (if k < length (execs w)
      then (let (db, x') = beat an (wd w) (execs w ! k) in w\<lparr>wd := db, execs := (execs w)[k := x']\<rparr>)
      else w)"
| "system_step cfg rep sha hashOf (Crash i) w = crash i w"
| "system_step cfg rep sha hashOf (RollbackResend k) w = rollback_resend k w"
| "system_step cfg rep sha hashOf (Foreign x) w = put_db (store_step sha rep x (wd w)) w"

definition initial_world :: "wdb \<Rightarrow> world" where
  "initial_world db = \<lparr>wd = db, wsubs = [], execs = [], sent = [], tracked = [], due = []\<rparr>"

text \<open>The worlds the instances can get to from the tables \<open>db\<close>.\<close>

inductive reachable :: "worker_config \<Rightarrow> adapter \<Rightarrow> (string \<Rightarrow> string) \<Rightarrow> (string \<Rightarrow> string) \<Rightarrow> wdb \<Rightarrow> world \<Rightarrow> bool"
  for cfg rep sha hashOf db where
  start: "reachable cfg rep sha hashOf db (initial_world db)"
| step: "reachable cfg rep sha hashOf db w \<Longrightarrow> reachable cfg rep sha hashOf db (system_step cfg rep sha hashOf x w)"

definition system_run :: "worker_config \<Rightarrow> adapter \<Rightarrow> (string \<Rightarrow> string) \<Rightarrow> (string \<Rightarrow> string) \<Rightarrow> winput list \<Rightarrow> world \<Rightarrow> world" where
  "system_run cfg rep sha hashOf xs w = fold (system_step cfg rep sha hashOf) xs w"

lemma reachable_run: "reachable cfg rep sha hashOf db w \<Longrightarrow> reachable cfg rep sha hashOf db (system_run cfg rep sha hashOf xs w)"
  unfolding system_run_def by (induction xs arbitrary: w) (simp_all add: reachable.step)


section \<open>A transaction is stored before it is sent, and only that one\<close>

definition stored :: "wdb \<Rightarrow> string \<Rightarrow> string \<Rightarrow> bool" where
  "stored db i c \<longleftrightarrow> (\<exists>j. getJobById db i = Some j \<and> j_status j \<notin> {Pending, Building} \<and> j_signedTxCbor j = Some c)"

definition exec_ok :: "wdb \<Rightarrow> execution \<Rightarrow> bool" where
  "exec_ok db x = (case x_pc x of
      SendPc c b \<Rightarrow> stored db (j_ID (x_job x)) c
    | AdoptPc site h c b \<Rightarrow> stored db (j_ID (x_job x)) c
    | AdoptMarkPc site h c \<Rightarrow> stored db (j_ID (x_job x)) c
    | ResendPc c \<Rightarrow> stored db (j_ID (x_job x)) c
    | LookupPc err c \<Rightarrow> stored db (j_ID (x_job x)) c
    | _ \<Rightarrow> True)"

definition world_ok :: "world \<Rightarrow> bool" where
  "world_ok w \<longleftrightarrow> jobs_wf (wd w) \<and> (\<forall>(i, c) \<in> set (sent w). stored (wd w) i c)
     \<and> (\<forall>(inst, i, oc) \<in> set (tracked w). \<forall>c. oc = Some c \<longrightarrow> stored (wd w) i c)
     \<and> (\<forall>x \<in> set (execs w). exec_ok (wd w) x)"

lemma stored_evolves: "stored db i c \<Longrightarrow> db_evolves db db' \<Longrightarrow> stored db' i c"
proof -
  assume "stored db i c" and ev: "db_evolves db db'"
  then obtain j where j: "getJobById db i = Some j" "j_status j \<notin> {Pending, Building}" "j_signedTxCbor j = Some c"
    by (auto simp: stored_def)
  from ev j(1) obtain j' where j': "getJobById db' i = Some j'" "row_evolves j j'" by (auto simp: db_evolves_def)
  from j'(2) j(2) have "j_status j' \<notin> {Pending, Building}" unfolding row_evolves_def by (cases "j_status j") auto
  with j j' show ?thesis unfolding stored_def row_evolves_def by auto
qed

lemma exec_ok_evolves: "exec_ok db x \<Longrightarrow> db_evolves db db' \<Longrightarrow> exec_ok db' x"
  by (auto simp: exec_ok_def stored_evolves split: pc.splits)

lemma world_ok_evolves:
  assumes "world_ok w" "db_evolves (wd w) (wd w')" "sent w' = sent w" "tracked w' = tracked w"
    and "\<And>x. x \<in> set (execs w') \<Longrightarrow> x \<in> set (execs w) \<or> exec_ok (wd w') x"
  shows "world_ok w'"
proof -
  have "jobs_wf (wd w')" using assms(1,2) by (simp add: world_ok_def db_evolves_def)
  moreover have "exec_ok (wd w') x" if "x \<in> set (execs w')" for x
    using assms(5) [OF that] assms(1,2) exec_ok_evolves by (auto simp: world_ok_def)
  moreover have "\<forall>(i, c) \<in> set (sent w'). stored (wd w') i c"
    using assms(1-3) stored_evolves by (fastforce simp: world_ok_def)
  moreover have "\<forall>(inst, i, oc) \<in> set (tracked w'). \<forall>c. oc = Some c \<longrightarrow> stored (wd w') i c"
    using assms(1,2,4) stored_evolves by (fastforce simp: world_ok_def)
  ultimately show ?thesis by (simp add: world_ok_def)
qed

lemma world_ok_put_db: "world_ok w \<Longrightarrow> db_evolves (wd w) db \<Longrightarrow> world_ok (put_db db w)"
  by (rule world_ok_evolves) (auto simp: put_db_def)

lemma world_ok_same_jobs: "world_ok w \<Longrightarrow> jobs db = jobs (wd w) \<Longrightarrow> world_ok (put_db db w)"
  by (rule world_ok_put_db) (auto intro: db_evolves_same_jobs)

lemma put_db_simps [simp]: "wd (put_db db w) = db" "sent (put_db db w) = sent w" "tracked (put_db db w) = tracked w"
  "execs (put_db db w) = execs w" "due (put_db db w) = due w"
  by (simp_all add: put_db_def)

lemma goto_simps [simp]: "x_pc (goto p x) = p" "x_job (goto p x) = x_job x" "x_inst (goto p x) = x_inst x"
  by (simp_all add: goto_def)

lemma evolves_fail_and_bump: "db_evolves db (fail_and_bump rep db job ec m now)"
proof -
  obtain b db1 where m: "markFailed rep db (j_ID job) ec m now = (b, db1)" by (cases "markFailed rep db (j_ID job) ec m now")
  then have 1: "db_evolves db db1" using evolves_markFailed [of db rep "j_ID job" ec m now] by simp
  have "db_evolves db1 (bumpWalletStats db1 (j_walletId job) StatFailed now)" by (rule db_evolves_same_jobs) simp
  with 1 m show ?thesis by (simp add: fail_and_bump_def db_evolves_trans [OF 1])
qed

text \<open>What a step of an execution does to the tables, to the bytes sent and to its own promise.\<close>

definition step_good :: "world \<Rightarrow> execution \<Rightarrow> world \<times> execution \<Rightarrow> bool" where
  "step_good w x r \<longleftrightarrow> db_evolves (wd w) (wd (fst r)) \<and> execs (fst r) = execs w
     \<and> (\<forall>(i, c) \<in> set (sent (fst r)). (i, c) \<in> set (sent w) \<or> stored (wd w) i c)
     \<and> (\<forall>(inst, i, oc) \<in> set (tracked (fst r)). (inst, i, oc) \<in> set (tracked w) \<or> (\<exists>c. oc = Some c \<and> stored (wd w) i c))
     \<and> exec_ok (wd (fst r)) (snd r)"

lemma step_good_quiet:
  "db_evolves (wd w) (wd w') \<Longrightarrow> execs w' = execs w \<Longrightarrow> sent w' = sent w \<Longrightarrow> tracked w' = tracked w
    \<Longrightarrow> exec_ok (wd w') x' \<Longrightarrow> step_good w x (w', x')"
  by (auto simp: step_good_def)

lemma renew_jobs: "renewWalletLease db wl ow now ttl = (b, db') \<Longrightarrow> jobs db' = jobs db"
  by (metis jobs_wallet_ops(3) snd_conv)

lemma fence_db: "fence an db x = (h, db', x') \<Longrightarrow> jobs db' = jobs db \<and> x_job x' = x_job x \<and> x_pc x' = x_pc x"
  by (auto simp: fence_def markLost_def renew_jobs split: prod.splits if_splits)

lemma beat_db: "beat an db x = (db', x') \<Longrightarrow> jobs db' = jobs db \<and> x_job x' = x_job x \<and> x_pc x' = x_pc x"
  by (auto simp: beat_def markLost_def renew_jobs split: prod.splits if_splits)

definition promises_nothing :: "pc \<Rightarrow> bool" where
  "promises_nothing p = (case p of SendPc c b \<Rightarrow> False | AdoptPc s h c b \<Rightarrow> False | AdoptMarkPc s h c \<Rightarrow> False
     | ResendPc c \<Rightarrow> False | LookupPc e c \<Rightarrow> False | _ \<Rightarrow> True)"

lemma exec_ok_trivial: "promises_nothing (x_pc x) \<Longrightarrow> exec_ok db x"
  by (cases "x_pc x") (simp_all add: exec_ok_def promises_nothing_def)

lemma step_good_put:
  "db_evolves (wd w) db \<Longrightarrow> promises_nothing (x_pc x') \<Longrightarrow> step_good w x (put_db db w, x')"
  by (rule step_good_quiet) (simp_all add: exec_ok_trivial)

lemma step_good_stay: "promises_nothing (x_pc x') \<Longrightarrow> step_good w x (w, x')"
  by (rule step_good_quiet) (auto simp: exec_ok_trivial)

lemma good_fence:
  assumes "promises_nothing p"
  shows "step_good w x (step_fence p an w x)"
proof -
  obtain h db x1 where f: "fence an (wd w) x = (h, db, x1)" by (cases "fence an (wd w) x")
  then have "db_evolves (wd w) db" using fence_db [OF f] by (simp add: db_evolves_same_jobs)
  then have "step_good w x (put_db db w, goto (if h then p else ReleasePc) x1)"
    by (rule step_good_put) (use assms in \<open>simp add: promises_nothing_def\<close>)
  with f show ?thesis by (simp add: step_fence_def)
qed

lemma evolves_pair: "f db = (b, db') \<Longrightarrow> db_evolves db (snd (f db)) \<Longrightarrow> db_evolves db db'"
  by simp

lemma good_claim: "step_good w x (step_claim rep hashOf an w x)"
proof (cases "an_ok an")
  case True
  obtain b db where m: "markBuilding rep (wd w) (j_ID (x_job x)) (x_attempt x) = (b, db)"
    by (cases "markBuilding rep (wd w) (j_ID (x_job x)) (x_attempt x)")
  have "db_evolves (wd w) db" using evolves_markBuilding [of "wd w" rep "j_ID (x_job x)" "x_attempt x"] m by simp
  then show ?thesis
    using True m by (auto simp: step_claim_def Let_def promises_nothing_def split: sum.split intro!: step_good_put)
qed (simp add: step_claim_def step_good_stay promises_nothing_def)

lemma good_build: "step_good w x (step_build hashOf an w x)"
  by (auto simp: step_build_def promises_nothing_def split: sum.split prod.split intro!: step_good_stay)

lemma markSubmitting_stored:
  assumes "jobs_wf db" "markSubmitting Some db i arts now = (True, db')"
  shows "stored db' i (t_signedTxCbor arts)"
proof -
  have "fst (markSubmitting Some db i arts now)" using assms(2) by simp
  then show ?thesis
    unfolding markSubmitting_def
    by (rule won_transition [OF assms(1), rotated])
      (use assms(2) in \<open>simp_all add: stored_def markSubmitting_def\<close>)
qed


lemma good_store:
  assumes "jobs_wf (wd w)"
  shows "step_good w x (step_store Some an arts b w x)"
proof (cases "an_ok an")
  case True
  obtain ok db where m: "markSubmitting Some (wd w) (j_ID (x_job x)) arts (an_now an) = (ok, db)"
    by (cases "markSubmitting Some (wd w) (j_ID (x_job x)) arts (an_now an)")
  have ev: "db_evolves (wd w) db" using evolves_markSubmitting [of "wd w" Some "j_ID (x_job x)" arts "an_now an"] m by simp
  show ?thesis
  proof (cases ok)
    case ok: True
    with m markSubmitting_stored [OF assms] have "stored db (j_ID (x_job x)) (t_signedTxCbor arts)" by simp
    with True ok m ev show ?thesis
      by (auto simp: step_store_def exec_ok_def intro!: step_good_quiet)
  next
    case False
    with True m ev show ?thesis by (auto simp: step_store_def promises_nothing_def intro!: step_good_put)
  qed
qed (simp add: step_store_def step_good_stay promises_nothing_def)

lemma step_good_sends:
  assumes "stored (wd w) (j_ID (x_job x)) c" "x_job x' = x_job x" "exec_ok (wd w) x'"
  shows "step_good w x (w\<lparr>sent := sent w @ [(j_ID (x_job x), c)]\<rparr>, x')"
  using assms by (auto simp: step_good_def)

lemma good_send:
  assumes "stored (wd w) (j_ID (x_job x)) c"
  shows "step_good w x (step_send hashOf an c b w x)" "step_good w x (step_resend hashOf an c w x)"
  using assms unfolding step_send_def step_resend_def Let_def
  by (cases "tolerant_submit hashOf an c"; auto simp: exec_ok_def intro!: step_good_sends)+

lemma good_adopt:
  assumes "stored (wd w) (j_ID (x_job x)) c"
  shows "step_good w x (step_adopt an site h c w x)"
  unfolding step_adopt_def Let_def by (rule step_good_quiet) (use assms in \<open>auto simp: exec_ok_def\<close>)

lemma watch_simps [simp]: "wd (watch i k c w) = wd w" "sent (watch i k c w) = sent w" "execs (watch i k c w) = execs w"
  by (simp_all add: watch_def)

lemma tracked_watch: "tracked (watch i k c w) = tracked w \<or> tracked (watch i k c w) = tracked w @ [(i, k, c)]"
  by (auto simp: watch_def)

lemma good_adopt_mark:
  assumes "stored (wd w) (j_ID (x_job x)) c"
  shows "step_good w x (step_adopt_mark rep an site h c w x)"
proof (cases "an_ok an")
  case True
  obtain b db where m: "markSubmitted rep (wd w) (j_ID (x_job x)) h = (b, db)"
    by (cases "markSubmitted rep (wd w) (j_ID (x_job x)) h")
  have ev: "db_evolves (wd w) db" using evolves_markSubmitted [of "wd w" rep "j_ID (x_job x)" h] m by simp
  let ?w = "watch (x_inst x) (j_ID (x_job x)) (Some c) (put_db db w)"
  have "step_good w x (?w, goto ReleasePc x)"
    using ev assms tracked_watch [of "x_inst x" "j_ID (x_job x)" "Some c" "put_db db w"]
    by (auto simp: step_good_def exec_ok_trivial promises_nothing_def)
  with True m show ?thesis by (simp add: step_adopt_mark_def)
next
  case False
  with assms show ?thesis
    by (cases site) (auto simp: step_adopt_mark_def exec_ok_def intro!: step_good_quiet)
qed

lemma good_fail_read: "step_good w x (step_fail_read an err w x)"
  by (auto simp: step_fail_read_def Let_def promises_nothing_def split: option.split intro!: step_good_stay)

lemma good_fail_write: "step_good w x (step_fail_write rep an err w x)"
  by (auto simp: step_fail_write_def promises_nothing_def
      intro!: step_good_stay step_good_put evolves_requeueForRetry evolves_fail_and_bump)

lemma good_lookup:
  assumes "stored (wd w) (j_ID (x_job x)) c"
  shows "step_good w x (step_lookup cfg an err c w x)"
  unfolding step_lookup_def
  by (rule step_good_quiet) (use assms in \<open>auto simp: exec_ok_def Let_def split: sum.split\<close>)

lemma good_fail_reconciled: "step_good w x (step_fail_reconciled rep an ec err w x)"
  by (auto simp: step_fail_reconciled_def promises_nothing_def intro!: step_good_stay step_good_put evolves_fail_and_bump)

lemma good_release: "step_good w x (step_release an w x)"
  by (auto simp: step_release_def Let_def promises_nothing_def intro!: step_good_stay step_good_put db_evolves_same_jobs)

lemma good_exec_step:
  assumes "world_ok w" "x \<in> set (execs w)"
  shows "step_good w x (exec_step cfg Some hashOf an w x)"
proof -
  have ok: "exec_ok (wd w) x" and wf: "jobs_wf (wd w)" using assms by (simp_all add: world_ok_def)
  show ?thesis
    using ok
    by (cases "x_pc x") (simp_all add: exec_ok_def good_claim good_fence good_build good_store [OF wf] good_send good_adopt
        good_adopt_mark good_fail_read good_fail_write good_lookup good_fail_reconciled good_release
        step_good_stay promises_nothing_def)
qed

section \<open>Every input keeps the promise\<close>

lemma world_ok_advance:
  assumes "world_ok w"
  shows "world_ok (system_step cfg Some sha hashOf (Advance k an) w)"
proof (cases "k < length (execs w)")
  case True
  let ?x = "execs w ! k"
  obtain w' x' where st: "exec_step cfg Some hashOf an w ?x = (w', x')" by (cases "exec_step cfg Some hashOf an w ?x")
  have good: "step_good w ?x (w', x')" using good_exec_step [OF assms, of ?x cfg hashOf an] True st by simp
  then have ev: "db_evolves (wd w) (wd w')" and ex: "execs w' = execs w" and xo: "exec_ok (wd w') x'"
    and se: "\<forall>(i, c) \<in> set (sent w'). (i, c) \<in> set (sent w) \<or> stored (wd w) i c"
    and tr: "\<forall>(inst, i, oc) \<in> set (tracked w'). (inst, i, oc) \<in> set (tracked w) \<or> (\<exists>c. oc = Some c \<and> stored (wd w) i c)"
    by (simp_all add: step_good_def)
  have "jobs_wf (wd w')" using assms ev by (simp add: world_ok_def db_evolves_def)
  moreover have "stored (wd w') i c" if "(i, c) \<in> set (sent w')" for i c
    using se that assms stored_evolves [OF _ ev] by (fastforce simp: world_ok_def)
  moreover have "stored (wd w') i c" if "(inst, i, Some c) \<in> set (tracked w')" for inst i c
    using tr that assms stored_evolves [OF _ ev] by (fastforce simp: world_ok_def)
  moreover have "exec_ok (wd w') y" if "y \<in> set ((execs w)[k := x'])" for y
    using set_update_subset_insert [of "execs w" k x'] that xo assms exec_ok_evolves [OF _ ev] by (auto simp: world_ok_def)
  ultimately show ?thesis using True st by (auto simp: world_ok_def Let_def)
qed (use assms in simp)

lemma world_ok_beat:
  assumes "world_ok w"
  shows "world_ok (system_step cfg rep sha hashOf (Beat k an) w)"
proof (cases "k < length (execs w)")
  case True
  let ?x = "execs w ! k"
  obtain db x' where b: "beat an (wd w) ?x = (db, x')" by (cases "beat an (wd w) ?x")
  from beat_db [OF b] have db: "db_evolves (wd w) db" "x_job x' = x_job ?x" "x_pc x' = x_pc ?x"
    by (simp_all add: db_evolves_same_jobs)
  have "exec_ok (wd w) ?x" using assms True by (simp add: world_ok_def)
  then have "exec_ok db ?x" using db(1) by (rule exec_ok_evolves)
  then have xo: "exec_ok db x'" using db(2,3) by (simp add: exec_ok_def cong: pc.case_cong)
  have "world_ok (w\<lparr>wd := db, execs := (execs w)[k := x']\<rparr>)"
    by (rule world_ok_evolves [OF assms])
      (use db xo set_update_subset_insert [of "execs w" k x'] in auto)
  with True b show ?thesis by simp
qed (use assms in simp)


lemma world_ok_watch:
  assumes "world_ok w" "\<And>d. c = Some d \<Longrightarrow> stored (wd w) i d"
  shows "world_ok (watch inst i c w)"
proof -
  have "stored (wd w) k d" if "(a, k, Some d) \<in> set (tracked (watch inst i c w))" for a k d
    using that assms tracked_watch [of inst i c w] by (fastforce simp: world_ok_def)
  with assms(1) show ?thesis by (auto simp: world_ok_def)
qed

lemma world_ok_drop_due: "world_ok w \<Longrightarrow> world_ok (drop_due i w)"
  by (simp add: world_ok_def drop_due_def)

lemma world_ok_due: "world_ok w \<Longrightarrow> world_ok (w\<lparr>due := d\<rparr>)"
  by (simp add: world_ok_def)

lemma world_ok_spawn:
  assumes "world_ok w" "\<And>x. x_job x = job \<Longrightarrow> x_pc x = p \<Longrightarrow> exec_ok (wd w) x"
  shows "world_ok (spawn inst job p b w)"
  by (rule world_ok_evolves [OF assms(1)]) (use assms(2) in \<open>auto simp: spawn_def\<close>)

lemma acquire_jobs: "tryAcquireWalletLease db0 db wl ow now ttl = (b, db') \<Longrightarrow> jobs db' = jobs db"
  by (metis jobs_wallet_ops(2) snd_conv)

lemma world_ok_dispatch:
  assumes "world_ok w"
  shows "world_ok (dispatch cfg inst an w)"
proof (cases "find (\<lambda>(i, j). i = inst) (due w)")
  case None
  with assms show ?thesis by (simp add: dispatch_def)
next
  case (Some p)
  obtain i job where p: "p = (i, job)" by (cases p)
  let ?wl = "j_walletId job"
  let ?w1 = "w\<lparr>due := remove_first (\<lambda>(i, j). i = inst) (due w)\<rparr>"
  let ?db1 = "snd (failOrphanedBuildingJobs (wd w) ?wl (an_now an))"
  obtain b db2 where acq: "tryAcquireWalletLease ?db1 ?db1 ?wl inst (an_now an) WORKER_LEASE_TTL_MS = (b, db2)"
    by (cases "tryAcquireWalletLease ?db1 ?db1 ?wl inst (an_now an) WORKER_LEASE_TTL_MS")
  have w1: "world_ok ?w1" by (rule world_ok_due [OF assms])
  have ok1: "world_ok (put_db ?db1 ?w1)" using w1 by (rule world_ok_put_db) (simp add: evolves_failOrphans)
  have "world_ok (put_db db2 (put_db ?db1 ?w1))"
    using ok1 by (rule world_ok_same_jobs) (simp add: acquire_jobs [OF acq])
  then have ok2: "world_ok (put_db db2 ?w1)" by (simp add: put_db_def)
  have "world_ok (spawn inst job ClaimPc False (put_db db2 ?w1))"
    using ok2 by (rule world_ok_spawn) (simp add: exec_ok_def)
  with Some p acq ok1 ok2 w1 assms show ?thesis
    by (simp add: dispatch_def Let_def world_ok_drop_due)
qed

lemma orphan_in_jobs:
  "findOrphanedSubmittingJob db wl now = Some j \<Longrightarrow> j \<in> set (jobs db) \<and> j_status j = Submitting"
proof -
  assume "findOrphanedSubmittingJob db wl now = Some j"
  then obtain js where "sort_key j_createdAt (filter (\<lambda>j. j_walletId j = wl \<and> j_status j = Submitting) (jobs db)) = j # js"
    by (auto simp: findOrphanedSubmittingJob_def split: if_splits list.splits)
  then have "j \<in> set (sort_key j_createdAt (filter (\<lambda>j. j_walletId j = wl \<and> j_status j = Submitting) (jobs db)))" by simp
  then show ?thesis by simp
qed

lemma world_ok_reconcile:
  assumes "world_ok w"
  shows "world_ok (reconcile_pick cfg inst wl an w)"
proof (cases "findOrphanedSubmittingJob (wd w) wl (an_now an)")
  case None
  with assms show ?thesis by (simp add: reconcile_pick_def)
next
  case (Some stuck)
  obtain b db where acq: "tryAcquireWalletLease (wd w) (wd w) wl inst (an_now an) WORKER_LEASE_TTL_MS = (b, db)"
    by (cases "tryAcquireWalletLease (wd w) (wd w) wl inst (an_now an) WORKER_LEASE_TTL_MS")
  have ok: "world_ok (put_db db w)" using assms by (rule world_ok_same_jobs) (simp add: acquire_jobs [OF acq])
  have "jobs_wf db" using ok by (simp add: world_ok_def)
  moreover have "stuck \<in> set (jobs db)" "j_status stuck = Submitting"
    using orphan_in_jobs [OF Some] acquire_jobs [OF acq] by simp_all
  ultimately have "getJobById db (j_ID stuck) = Some stuck" by (simp add: get_of_member)
  then have "exec_ok db x" if "x_job x = stuck" "x_pc x = reconcile_start stuck" for x
    using that \<open>j_status stuck = Submitting\<close>
    by (auto simp: exec_ok_def reconcile_start_def stored_def truthy_def split: option.splits)
  then have "world_ok (spawn inst stuck (reconcile_start stuck) True (put_db db w))"
    by (intro world_ok_spawn [OF ok]) simp
  with Some acq ok assms show ?thesis by (simp add: reconcile_pick_def)
qed

lemma recover_submitted:
  assumes "recoverInterruptedJobs db now = (r, db')" "j \<in> set (submittedToReconcile r)"
  shows "j \<in> set (jobs db') \<and> j_status j = Submitted"
  using assms by (auto simp: recoverInterruptedJobs_def Let_def findSubmittedJobs_def split: prod.splits)

lemma world_ok_worker_start:
  assumes "world_ok w"
  shows "world_ok (worker_start inst an w)"
proof (cases "an_ok an")
  case True
  obtain r db where rec: "recoverInterruptedJobs (wd w) (an_now an) = (r, db)" by (cases "recoverInterruptedJobs (wd w) (an_now an)")
  then have "db_evolves (wd w) db" using evolves_recover [of "wd w" "an_now an"] by simp
  then have ok: "world_ok (put_db db w)" by (rule world_ok_put_db [OF assms])
  let ?js = "filter (\<lambda>j. truthy (j_txHash j)) (submittedToReconcile r)"
  have wf: "jobs_wf db" using ok by (simp add: world_ok_def)
  have "world_ok (fold (\<lambda>j. watch inst (j_ID j) (j_signedTxCbor j)) ?js (put_db db w))
    \<and> wd (fold (\<lambda>j. watch inst (j_ID j) (j_signedTxCbor j)) ?js (put_db db w)) = db"
  proof (rule fold_invariant [where Q = "\<lambda>j. j \<in> set (submittedToReconcile r)"])
    show "world_ok (watch inst (j_ID j) (j_signedTxCbor j) s) \<and> wd (watch inst (j_ID j) (j_signedTxCbor j) s) = db"
      if "j \<in> set (submittedToReconcile r)" "world_ok s \<and> wd s = db" for j s
    proof -
      from recover_submitted [OF rec that(1)] get_of_member [OF wf, of j]
      have "getJobById db (j_ID j) = Some j" "j_status j = Submitted" by auto
      then have "stored db (j_ID j) d" if "j_signedTxCbor j = Some d" for d using that by (simp add: stored_def)
      with that(2) show ?thesis by (simp add: world_ok_watch)
    qed
  qed (use ok in auto)
  with True rec show ?thesis by (simp add: worker_start_def)
qed (use assms in \<open>simp add: worker_start_def\<close>)

lemma world_ok_crash: "world_ok w \<Longrightarrow> world_ok (crash inst w)"
  by (auto simp: world_ok_def crash_def drop_due_def)

lemma world_ok_resend:
  assumes "world_ok w"
  shows "world_ok (rollback_resend k w)"
proof (cases "k < length (tracked w)")
  case True
  obtain a i oc where t: "tracked w ! k = (a, i, oc)" by (cases "tracked w ! k")
  with True have "(a, i, oc) \<in> set (tracked w)" by (metis nth_mem)
  then have "stored (wd w) i c" if "oc = Some c" for c using assms that by (fastforce simp: world_ok_def)
  with True t assms show ?thesis by (auto simp: rollback_resend_def world_ok_def split: option.split)
qed (use assms in \<open>simp add: rollback_resend_def\<close>)

lemma world_ok_step:
  assumes "world_ok w"
  shows "world_ok (system_step cfg Some sha hashOf x w)"
proof (cases x)
  case (Advance k an)
  with world_ok_advance [OF assms] show ?thesis by simp
next
  case (Beat k an)
  with world_ok_beat [OF assms] show ?thesis by simp
next
  case (Foreign y)
  have "db_evolves (wd w) (store_step sha Some y (wd w))" using assms by (intro evolves_step) (simp add: world_ok_def)
  with Foreign world_ok_put_db [OF assms] show ?thesis by simp
qed (use assms in \<open>simp_all add: tick_read_def world_ok_due world_ok_dispatch world_ok_reconcile world_ok_worker_start
      world_ok_crash world_ok_resend\<close>)

lemma world_ok_reachable: "reachable cfg Some sha hashOf db w \<Longrightarrow> jobs_wf db \<Longrightarrow> world_ok w"
proof (induction rule: reachable.induct)
  case start
  then show ?case by (simp add: world_ok_def initial_world_def)
next
  case (step w x)
  then show ?case using world_ok_step by blast
qed

text \<open>
  C1. No double payment: in every reachable state of any number of instances, with crashes, lost
  leases, failing writes and arbitrary answers of the network, the only bytes ever handed to a
  backend for a job are those its row stores; the row was stored before they were sent, it has
  left pending and building for good, and so a job never sends two different transactions.
\<close>

theorem one_transaction_per_job:
  assumes "jobs_wf db" "reachable cfg Some sha hashOf db w"
  shows "(\<forall>i c. (i, c) \<in> set (sent w) \<longrightarrow> (\<exists>j. getJobById (wd w) i = Some j
            \<and> j_signedTxCbor j = Some c \<and> j_status j \<in> {Submitting, Submitted, Confirmed, Failed, Cancelled}))
    \<and> (\<forall>i c c'. (i, c) \<in> set (sent w) \<longrightarrow> (i, c') \<in> set (sent w) \<longrightarrow> c = c')"
proof -
  have ok: "stored (wd w) i c" if "(i, c) \<in> set (sent w)" for i c
    using world_ok_reachable [OF assms(2,1)] that by (auto simp: world_ok_def)
  have st: "s \<notin> {Pending, Building} \<Longrightarrow> s \<in> {Submitting, Submitted, Confirmed, Failed, Cancelled}" for s
    by (cases s) simp_all
  show ?thesis
  proof (intro conjI allI impI)
    fix i c assume "(i, c) \<in> set (sent w)"
    from ok [OF this] st show "\<exists>j. getJobById (wd w) i = Some j \<and> j_signedTxCbor j = Some c
        \<and> j_status j \<in> {Submitting, Submitted, Confirmed, Failed, Cancelled}" unfolding stored_def by blast
  next
    fix i c c' assume "(i, c) \<in> set (sent w)" "(i, c') \<in> set (sent w)"
    from ok [OF this(1)] ok [OF this(2)] show "c = c'" by (auto simp: stored_def)
  qed
qed

definition demo_cfg :: worker_config where
  "demo_cfg = \<lparr>maxConcurrentWallets = 4, txTimeoutMs = 600000, signsFor = (\<lambda>_. [''w1''])\<rparr>"

text \<open>Answers: everything commits, the build yields \<open>u\<close> signed as \<open>c\<close>, the network accepts it as \<open>h\<close>.\<close>

definition fine :: "time \<Rightarrow> answer" where
  "fine now = \<lparr>an_now = now, an_ok = True, an_request = Inr [], an_build = Inr (''u'', Some ''170000'', None, ''c''),
     an_submit = Inr ''h'', an_lookup = Inl (JBackend (NotFoundError None) ''not found'')\<rparr>"

definition db_down :: "time \<Rightarrow> answer" where
  "db_down now = (fine now)\<lparr>an_ok := False\<rparr>"

definition demo_queue :: wdb where
  "demo_queue = demo_db\<lparr>jobs := [demo_job ''b'' Pending]\<rparr>"

definition to_submit :: "winput list" where
  "to_submit = [TickRead ''i1'' 10, Dispatch ''i1'' (fine 11), Advance 0 (fine 12), Advance 0 (fine 13),
     Advance 0 (fine 14), Advance 0 (fine 15), Advance 0 (fine 16), Advance 0 (fine 17)]"

definition demo_world :: world where
  "demo_world = system_run demo_cfg Some id id
     (to_submit @ [Crash ''i1'', ReconcilePick ''i2'' ''w1'' (fine 20000), Advance 0 (fine 20001)]) (initial_world demo_queue)"

lemma demo_world_sends: "sent demo_world = [(''b'', ''c''), (''b'', ''c'')]"
  by code_simp

theorem one_transaction_per_job_witness:
  "\<exists>j. getJobById (wd demo_world) ''b'' = Some j \<and> j_signedTxCbor j = Some ''c''"
proof -
  have wf: "jobs_wf demo_queue" by code_simp
  have "reachable demo_cfg Some id id demo_queue demo_world"
    unfolding demo_world_def by (rule reachable_run [OF reachable.start])
  from one_transaction_per_job [OF wf this] demo_world_sends show ?thesis by auto
qed

section \<open>Where the failure handling breaks its promise\<close>

text \<open>
  The re-submit of a reconciliation and the write that records it share one try block. When the
  network has accepted the transaction and that write fails, the failure is taken for a rejected
  submit: the transaction is not on chain yet, so the job is failed as \<open>SUBMIT_REJECTED\<close> and its
  key is released while the transaction is in the mempool.
\<close>

definition stuck_queue :: wdb where
  "stuck_queue = demo_db\<lparr>jobs := [(demo_job ''b'' Submitting)\<lparr>j_signedTxCbor := Some ''c'', j_txHash := Some ''h'',
     j_submittedAt := Some 0, j_dedupKey := ''k1''\<rparr>]\<rparr>"

theorem accepted_resubmit_is_failed:
  "let w = system_run demo_cfg Some id id
       [ReconcilePick ''i1'' ''w1'' (fine 1), Advance 0 (fine 2), Advance 0 (fine 3), Advance 0 (db_down 4),
        Advance 0 (fine 5), Advance 0 (fine 6)] (initial_world stuck_queue)
   in sent w = [(''b'', ''c'')] \<and> an_submit (fine 2) = Inr ''h''
    \<and> map_option (\<lambda>j. (j_status j, j_errorCode j, j_dedupKey j)) (getJobById (wd w) ''b'')
        = Some (Failed, Some ''SUBMIT_REJECTED'', ''b'')"
  by code_simp

text \<open>
  The guard that leaves a \<open>submitting\<close> job to reconciliation reads the job first and takes a
  failed read for a job that is not submitting: with the transaction accepted, two failing
  statements and a third that commits, the job is failed and its key released.
\<close>

theorem unread_submitting_job_is_failed:
  "let w = system_run demo_cfg Some id id
       (to_submit @ [Advance 0 (fine 18), Advance 0 (db_down 19), Advance 0 (db_down 20), Advance 0 (fine 21)]) (initial_world demo_queue)
   in sent w = [(''b'', ''c'')]
    \<and> map_option (\<lambda>j. (j_status j, j_errorCode j)) (getJobById (wd w) ''b'') = Some (Failed, Some ''EXECUTION_FAILED'')"
  by code_simp


section \<open>Backoff, fence and request\<close>

text \<open>
  The retry delay starts at five seconds, doubles with every attempt and never exceeds a minute.
\<close>

theorem backoff_doubles:
  "retryBackoffMs 1 = 5000
   \<and> (1 \<le> n \<longrightarrow> retryBackoffMs (n + 1) = min (2 * retryBackoffMs n) 60000)
   \<and> 5000 \<le> retryBackoffMs n \<and> retryBackoffMs n \<le> 60000"
proof -
  have "retryBackoffMs (n + 1) = min (2 * retryBackoffMs n) 60000" if "1 \<le> n"
  proof -
    have "nat n = Suc (nat (n - 1))" using that by simp
    then have "(2::int) ^ nat n = 2 * 2 ^ nat (n - 1)" by simp
    with that show ?thesis by (simp add: retryBackoffMs_def max_def min_def)
  qed
  moreover have "(1::int) \<le> 2 ^ nat (max 0 (n - 1))" by simp
  ultimately show ?thesis by (simp add: retryBackoffMs_def)
qed

theorem backoff_doubles_witness:
  "retryBackoffMs 4 = min (2 * retryBackoffMs 3) 60000 \<and> retryBackoffMs 4 = 40000 \<and> retryBackoffMs 5 = 60000"
  using backoff_doubles [of 3] by (simp add: retryBackoffMs_def)

text \<open>
  The fence: an execution passes it only when it is the recorded holder of the wallet lease
  with a full term ahead; once it has failed, every later fence of the execution fails without
  touching the tables.
\<close>

theorem fence_proves_lease:
  assumes "fence an db x = (held, db', x')"
  shows "(held \<longrightarrow> wallet_holder (j_walletId (x_job x)) db' = Some (x_inst x)
            \<and> (\<exists>d. wallet_deadline (j_walletId (x_job x)) db' = Some d \<and> an_now an + WORKER_LEASE_TTL_MS - 1000 \<le> d))
    \<and> (\<not> held \<longrightarrow> (\<forall>an2 db2. fence an2 db2 x' = (False, db2, x')))"
proof (cases "x_lost x \<or> \<not> an_ok an")
  case True
  then have "fence an db x = (False, db, if x_lost x then x else x\<lparr>x_lost := True\<rparr>)"
    unfolding fence_def by (cases "x_lost x") simp_all
  with assms have "\<not> held" "x_lost x'" by (auto split: if_splits)
  then show ?thesis by (simp add: fence_def)
next
  case False
  obtain b d where r: "renewWalletLease db (j_walletId (x_job x)) (x_inst x) (an_now an) WORKER_LEASE_TTL_MS = (b, d)"
    by (cases "renewWalletLease db (j_walletId (x_job x)) (x_inst x) (an_now an) WORKER_LEASE_TTL_MS")
  with False assms have res: "held = b" "db' = d" "x' = (if b then x else markLost x)"
    by (auto simp: fence_def)
  have "\<not> b \<Longrightarrow> x_lost x'" using res False by (simp add: markLost_def)
  with res wallet_lease.renew_own [where walletId = "j_walletId (x_job x)" and s = db and ow = "x_inst x" and now = "an_now an"] r show ?thesis
    by (auto simp: fence_def)
qed

definition demo_exec :: execution where
  "demo_exec = \<lparr>x_inst = ''i1'', x_job = demo_job ''b'' Building, x_attempt = 1, x_beating = True, x_lost = False, x_pc = ReleasePc\<rparr>"

theorem fence_proves_lease_witness:
  "wallet_holder ''w1'' (fst (snd (fence (fine 9)
     (snd (tryAcquireWalletLease demo_queue demo_queue ''w1'' ''i1'' 0 WORKER_LEASE_TTL_MS)) demo_exec))) = Some ''i1''"
proof -
  let ?db = "snd (tryAcquireWalletLease demo_queue demo_queue ''w1'' ''i1'' 0 WORKER_LEASE_TTL_MS)"
  have h: "fst (fence (fine 9) ?db demo_exec)" by code_simp
  have "fence (fine 9) ?db demo_exec = (fst (fence (fine 9) ?db demo_exec),
      fst (snd (fence (fine 9) ?db demo_exec)), snd (snd (fence (fine 9) ?db demo_exec)))" by simp
  from fence_proves_lease [OF this] h show ?thesis by (simp add: demo_exec_def demo_job_def new_job_def)
qed

text \<open>
  The request that is built always names the configured network and the wallet as the sender,
  whatever the caller asked for; the change goes to the wallet only when the caller gave no
  change address, and to the caller's address otherwise. All other fields are the caller's.
\<close>

theorem worker_request_fields:
  "mget (worker_request str falsy network address raw) ''network'' = Some (str network)
   \<and> mget (worker_request str falsy network address raw) ''senderAddress'' = Some (str address)
   \<and> mget (worker_request str falsy network address raw) ''changeAddress''
       = (case mget raw ''changeAddress'' of
            None \<Rightarrow> Some (str address) | Some v \<Rightarrow> Some (if falsy v then str address else v))
   \<and> (f \<notin> {''network'', ''senderAddress'', ''changeAddress''} \<longrightarrow>
        mget (worker_request str falsy network address raw) f = mget raw f)"
  by (simp add: worker_request_def Let_def split: option.split)

theorem worker_request_fields_witness:
  "mget (worker_request id (\<lambda>v. v = []) ''preprod'' ''addr_w'' [(''changeAddress'', ''addr_x''), (''lovelaceAmount'', ''5'')])
     ''lovelaceAmount'' = Some ''5''"
  using worker_request_fields [of id "\<lambda>v. v = []" "''preprod''" "''addr_w''"
      "[(''changeAddress'', ''addr_x''), (''lovelaceAmount'', ''5'')]" "''lovelaceAmount''"]
  by (simp add: mget_def)

end
