(* ===== verification/PendingSpends.thy ===== *)
theory PendingSpends imports Prelude begin

text \<open>
  Submitted transactions that are not on chain yet (\<open>srv/blockchain/pending-spends.ts\<close>): a
  map from transaction hash to its inputs, outputs and expiry. The CBOR parser is the
  parameter \<open>parse\<close>, the clock an argument. Second part: the request coalescer of
  \<open>srv/blockchain/request-coalescer.ts\<close>, whose events are the calls and the settling of
  the shared promise.
\<close>

section \<open>Pending spends: the code\<close>

definition PENDING_TX_TTL_MS :: time where
  "PENDING_TX_TTL_MS = 10 * 60000"

type_synonym amount = "string \<times> string"

record UTxO =
  u_txHash :: string
  u_outputIndex :: nat
  u_address :: string
  u_amount :: "amount list"
  u_datumHash :: "string option"
  u_inlineDatum :: "string option"
  u_scriptRefCbor :: "string option"

record ParsedOutput =
  po_address :: string
  po_lovelace :: string
  po_assets :: "amount list"
  po_datumHash :: "string option"
  po_inlineDatumHex :: "string option"
  po_referenceScriptHex :: "string option"

record ParsedTransaction =
  pt_txHash :: string
  pt_inputs :: "(string \<times> nat) list"
  pt_outputs :: "ParsedOutput list"

record PendingTx =
  px_inputs :: "string list"
  px_outputs :: "UTxO list"
  px_expiresAt :: time

type_synonym pending = "(string, PendingTx) jmap"

definition refKey :: "string \<Rightarrow> nat \<Rightarrow> string" where
  "refKey txHash outputIndex = outpoint (toLowerCase txHash) outputIndex"

definition pending_output :: "string \<Rightarrow> nat \<Rightarrow> ParsedOutput \<Rightarrow> UTxO" where
  "pending_output txHash outputIndex po =
     \<lparr>u_txHash = txHash, u_outputIndex = outputIndex, u_address = po_address po,
      u_amount = (''lovelace'', po_lovelace po) # po_assets po,
      u_datumHash = po_datumHash po, u_inlineDatum = po_inlineDatumHex po,
      u_scriptRefCbor = po_referenceScriptHex po\<rparr>"

definition record_tx :: "(string \<Rightarrow> string + ParsedTransaction) \<Rightarrow> time \<Rightarrow> pending \<Rightarrow> string \<Rightarrow> pending" where
  "record_tx parse now txs signedTxCbor =
     (case parse signedTxCbor of
        Inl _ \<Rightarrow> txs
      | Inr parsed \<Rightarrow>
          mput txs (pt_txHash parsed)
            \<lparr>px_inputs = map (\<lambda>(h, i). refKey h i) (pt_inputs parsed),
             px_outputs = map (\<lambda>(i, po). pending_output (pt_txHash parsed) i po) (enumerate 0 (pt_outputs parsed)),
             px_expiresAt = now + PENDING_TX_TTL_MS\<rparr>)"

definition prune :: "time \<Rightarrow> pending \<Rightarrow> pending" where
  "prune now txs = mprune (\<lambda>_ tx. px_expiresAt tx \<le> now) txs"

definition spentBy :: "time \<Rightarrow> pending \<Rightarrow> string \<Rightarrow> nat \<Rightarrow> string option \<times> pending" where
  "spentBy now txs txHash outputIndex =
     (let txs1 = prune now txs;
          key = refKey txHash outputIndex
      in (map_option fst (find (\<lambda>(h, tx). key \<in> set (px_inputs tx)) txs1), txs1))"

definition apply_pending :: "time \<Rightarrow> pending \<Rightarrow> string \<Rightarrow> UTxO list \<Rightarrow> UTxO list \<times> pending" where
  "apply_pending now txs address utxos =
     (let txs1 = prune now txs in
      if txs1 = [] then (utxos, txs1)
      else
        (let listed = map (\<lambda>u. toLowerCase (u_txHash u)) utxos;
             txs2 = fold (\<lambda>h acc. if h \<in> set listed then mdel acc h else acc) (mkeys txs1) txs1;
             spent = concat (map px_inputs (mvalues txs2));
             keep = filter (\<lambda>u. refKey (u_txHash u) (u_outputIndex u) \<notin> set spent) utxos;
             pendingOut = filter (\<lambda>po. u_address po = address \<and> refKey (u_txHash po) (u_outputIndex po) \<notin> set spent)
                            (concat (map px_outputs (mvalues txs2)))
         in (keep @ pendingOut, txs2)))"

definition pending_size :: "time \<Rightarrow> pending \<Rightarrow> nat \<times> pending" where
  "pending_size now txs = (let txs1 = prune now txs in (length txs1, txs1))"

section \<open>Pending spends: lemmas\<close>

lemma record_wf: "jmap_wf txs \<Longrightarrow> jmap_wf (record_tx parse now txs c)"
  by (auto simp: record_tx_def split: sum.split)

lemma prune_wf: "jmap_wf txs \<Longrightarrow> jmap_wf (prune now txs)"
  by (simp add: prune_def jmap_wf_mprune)

lemma prune_get:
  "jmap_wf txs \<Longrightarrow> mget (prune now txs) h = Some tx \<longleftrightarrow> mget txs h = Some tx \<and> now < px_expiresAt tx"
  by (auto simp: prune_def mget_mprune split: option.splits)

lemma forget_listed_get:
  "mget (fold (\<lambda>h acc. if h \<in> L then mdel acc h else acc) ks txs) k
     = (if k \<in> set ks \<inter> L then None else mget txs k)"
  by (induction ks arbitrary: txs) auto

lemma forget_listed_wf:
  "jmap_wf txs \<Longrightarrow> jmap_wf (fold (\<lambda>h acc. if h \<in> L then mdel acc h else acc) ks txs)"
  by (induction ks arbitrary: txs) auto

text \<open>The map that \<open>apply_pending\<close> leaves: live and not yet seen on chain.\<close>

lemma apply_pending_get:
  assumes "jmap_wf txs"
  shows "mget (snd (apply_pending now txs address utxos)) h = Some tx
     \<longleftrightarrow> mget txs h = Some tx \<and> now < px_expiresAt tx \<and> h \<notin> (\<lambda>u. toLowerCase (u_txHash u)) ` set utxos"
proof (cases "prune now txs = []")
  case True
  with prune_get [OF assms, of now h tx] show ?thesis by (auto simp: apply_pending_def)
next
  case False
  have "mget (prune now txs) h = Some tx \<Longrightarrow> h \<in> set (mkeys (prune now txs))"
    using mget_None_iff [of "prune now txs" h] by auto
  with False prune_get [OF assms, of now h tx] show ?thesis
    by (auto simp: apply_pending_def Let_def forget_listed_get)
qed

lemma apply_pending_wf: "jmap_wf txs \<Longrightarrow> jmap_wf (snd (apply_pending now txs address utxos))"
  by (simp add: apply_pending_def Let_def forget_listed_wf prune_wf)

definition spent_keys :: "pending \<Rightarrow> string set" where
  "spent_keys txs = (\<Union>tx \<in> set (mvalues txs). set (px_inputs tx))"

lemma spent_keys_iff:
  "jmap_wf txs \<Longrightarrow> k \<in> spent_keys txs \<longleftrightarrow> (\<exists>h tx. mget txs h = Some tx \<and> k \<in> set (px_inputs tx))"
  by (force simp: spent_keys_def mvalues_def mget_iff)

lemma apply_pending_result:
  assumes "jmap_wf txs"
  shows "fst (apply_pending now txs address utxos)
     = (let txs2 = snd (apply_pending now txs address utxos) in
        filter (\<lambda>u. refKey (u_txHash u) (u_outputIndex u) \<notin> spent_keys txs2) utxos
        @ filter (\<lambda>po. u_address po = address \<and> refKey (u_txHash po) (u_outputIndex po) \<notin> spent_keys txs2)
            (concat (map px_outputs (mvalues txs2))))"
  by (auto simp: apply_pending_def Let_def spent_keys_def mvalues_def)

text \<open>Operations on the tracker, for runs.\<close>

datatype ps_op = Record string | SpentBy string nat | Apply string "UTxO list" | Size

fun ps_step :: "(string \<Rightarrow> string + ParsedTransaction) \<Rightarrow> pending \<Rightarrow> time \<times> ps_op \<Rightarrow> pending" where
  "ps_step parse txs (now, Record c) = record_tx parse now txs c"
| "ps_step parse txs (now, SpentBy h i) = snd (spentBy now txs h i)"
| "ps_step parse txs (now, Apply a us) = snd (apply_pending now txs a us)"
| "ps_step parse txs (now, Size) = snd (pending_size now txs)"

lemma ps_step_wf: "jmap_wf txs \<Longrightarrow> jmap_wf (ps_step parse txs x)"
  by (cases "(parse, txs, x)" rule: ps_step.cases)
     (simp_all add: record_wf spentBy_def pending_size_def prune_wf apply_pending_wf Let_def)

fun lists_tx :: "string \<Rightarrow> ps_op \<Rightarrow> bool" where
  "lists_tx h (Apply a us) = (h \<in> (\<lambda>u. toLowerCase (u_txHash u)) ` set us)"
| "lists_tx h _ = False"

lemma ps_step_keeps:
  assumes "jmap_wf txs" "mget txs h = Some tx" "ref \<in> set (px_inputs tx)" "e \<le> px_expiresAt tx"
    and "fst x < e" "e \<le> fst x + PENDING_TX_TTL_MS" "\<not> lists_tx h (snd x)"
    and hash: "\<And>c p. parse c = Inr p \<Longrightarrow> pt_txHash p = h \<Longrightarrow> ref \<in> (\<lambda>(a, i). refKey a i) ` set (pt_inputs p)"
  shows "\<exists>tx'. mget (ps_step parse txs x) h = Some tx' \<and> ref \<in> set (px_inputs tx') \<and> e \<le> px_expiresAt tx'"
proof -
  obtain now opn where x: "x = (now, opn)" by (cases x)
  show ?thesis
  proof (cases opn)
    case (Record c)
    with assms x show ?thesis by (auto simp: record_tx_def split: sum.split)
  next
    case (Apply a us)
    with assms x have "mget (ps_step parse txs x) h = Some tx" by (simp add: apply_pending_get)
    with assms show ?thesis by blast
  qed (use assms x in \<open>auto simp: spentBy_def pending_size_def Let_def prune_get\<close>)
qed

lemma ps_run_keeps:
  assumes "jmap_wf txs" "mget txs h = Some tx" "ref \<in> set (px_inputs tx)" "e \<le> px_expiresAt tx"
    and "\<forall>x \<in> set ops. fst x < e \<and> e \<le> fst x + PENDING_TX_TTL_MS \<and> \<not> lists_tx h (snd x)"
    and hash: "\<And>c p. parse c = Inr p \<Longrightarrow> pt_txHash p = h \<Longrightarrow> ref \<in> (\<lambda>(a, i). refKey a i) ` set (pt_inputs p)"
  shows "jmap_wf (fold (\<lambda>x txs. ps_step parse txs x) ops txs) \<and>
    (\<exists>tx'. mget (fold (\<lambda>x txs. ps_step parse txs x) ops txs) h = Some tx'
       \<and> ref \<in> set (px_inputs tx') \<and> e \<le> px_expiresAt tx')"
  using assms(1-5)
proof (induction ops arbitrary: txs tx)
  case (Cons x ops)
  then obtain tx' where "mget (ps_step parse txs x) h = Some tx'" "ref \<in> set (px_inputs tx')" "e \<le> px_expiresAt tx'"
    using ps_step_keeps [of txs h tx ref e x parse] hash by auto
  with Cons.IH [of "ps_step parse txs x" tx'] Cons.prems ps_step_wf show ?case by simp
qed auto

lemma spentBy_some:
  assumes "jmap_wf txs" "mget txs h = Some tx" "refKey a i \<in> set (px_inputs tx)" "now < px_expiresAt tx"
  shows "\<exists>h'. fst (spentBy now txs a i) = Some h'"
proof -
  have "mget (prune now txs) h = Some tx" using assms by (simp add: prune_get)
  then have "(h, tx) \<in> set (prune now txs)" by (rule mget_SomeD)
  with assms(3) have "find (\<lambda>(h, tx). refKey a i \<in> set (px_inputs tx)) (prune now txs) \<noteq> None"
    by (auto simp: find_None_iff)
  then show ?thesis by (auto simp: spentBy_def Let_def)
qed

section \<open>Request coalescer\<close>

text \<open>
  A call with no promise in flight starts the fetcher and stores the new promise (numbered);
  other calls share it. When promise \<open>n\<close> settles, \<open>catch\<close> (on a rejection) and \<open>finally\<close>
  delete the key's entry, whatever it holds.
\<close>

record coalescer =
  co_pending :: "(string, nat) jmap"
  co_next :: nat
  co_key :: "nat \<Rightarrow> string"
  co_unsettled :: "nat list"

definition coalescer_init :: coalescer where
  "coalescer_init = \<lparr>co_pending = [], co_next = 0, co_key = (\<lambda>_. []), co_unsettled = []\<rparr>"

definition coalesce_get :: "coalescer \<Rightarrow> string \<Rightarrow> nat \<times> bool \<times> coalescer" where
  "coalesce_get c key =
     (case mget (co_pending c) key of
        Some p \<Rightarrow> (p, False, c)
      | None \<Rightarrow>
          (let p = co_next c in
           (p, True, c\<lparr>co_pending := mput (co_pending c) key p, co_next := p + 1,
                       co_key := (co_key c)(p := key), co_unsettled := p # co_unsettled c\<rparr>)))"

definition coalesce_settle :: "coalescer \<Rightarrow> nat \<Rightarrow> bool \<Rightarrow> coalescer" where
  "coalesce_settle c p rejected =
     (let key = co_key c p;
          pend1 = (if rejected then mdel (co_pending c) key else co_pending c)
      in c\<lparr>co_pending := mdel pend1 key, co_unsettled := filter (\<lambda>q. q \<noteq> p) (co_unsettled c)\<rparr>)"

inductive co_reach :: "coalescer \<Rightarrow> bool" where
  co_init: "co_reach coalescer_init"
| co_call: "co_reach c \<Longrightarrow> coalesce_get c key = (p, started, c') \<Longrightarrow> co_reach c'"
| co_done: "co_reach c \<Longrightarrow> p \<in> set (co_unsettled c) \<Longrightarrow> co_reach (coalesce_settle c p rejected)"

definition co_inv :: "coalescer \<Rightarrow> bool" where
  "co_inv c \<longleftrightarrow> (\<forall>p \<in> set (co_unsettled c). p < co_next c)
     \<and> (\<forall>k p. mget (co_pending c) k = Some p \<longleftrightarrow> p \<in> set (co_unsettled c) \<and> co_key c p = k)"

lemma co_invD:
  "co_inv c \<Longrightarrow> mget (co_pending c) k = Some p \<longleftrightarrow> p \<in> set (co_unsettled c) \<and> co_key c p = k"
  "co_inv c \<Longrightarrow> p \<in> set (co_unsettled c) \<Longrightarrow> p < co_next c"
  by (simp_all add: co_inv_def)

lemma co_inv_start:
  assumes inv: "co_inv c" and new: "mget (co_pending c) key = None"
  shows "co_inv (c\<lparr>co_pending := mput (co_pending c) key (co_next c), co_next := co_next c + 1,
      co_key := (co_key c)(co_next c := key), co_unsettled := co_next c # co_unsettled c\<rparr>)"
  unfolding co_inv_def
proof (intro conjI allI ballI)
  fix k p
  have old: "p \<in> set (co_unsettled c) \<Longrightarrow> p \<noteq> co_next c" using co_invD(2) [OF inv] by blast
  show "mget (co_pending (c\<lparr>co_pending := mput (co_pending c) key (co_next c), co_next := co_next c + 1,
      co_key := (co_key c)(co_next c := key), co_unsettled := co_next c # co_unsettled c\<rparr>)) k = Some p
    \<longleftrightarrow> p \<in> set (co_unsettled (c\<lparr>co_pending := mput (co_pending c) key (co_next c), co_next := co_next c + 1,
      co_key := (co_key c)(co_next c := key), co_unsettled := co_next c # co_unsettled c\<rparr>))
      \<and> co_key (c\<lparr>co_pending := mput (co_pending c) key (co_next c), co_next := co_next c + 1,
      co_key := (co_key c)(co_next c := key), co_unsettled := co_next c # co_unsettled c\<rparr>) p = k"
    using old co_invD(1) [OF inv, of k p] co_invD(1) [OF inv, of key p] new by auto
qed (use co_invD(2) [OF inv] in \<open>auto simp: less_Suc_eq\<close>)

lemma co_inv_get: "co_inv c \<Longrightarrow> coalesce_get c key = (p, started, c') \<Longrightarrow> co_inv c'"
  by (auto simp: coalesce_get_def Let_def co_inv_start split: option.splits dest: co_inv_start)

lemma co_inv_settle:
  assumes inv: "co_inv c" and p: "p \<in> set (co_unsettled c)"
  shows "co_inv (coalesce_settle c p r)"
proof -
  have "mget (co_pending c) (co_key c p) = Some p" using p by (simp add: co_invD(1) [OF inv])
  then have uniq: "q \<in> set (co_unsettled c) \<Longrightarrow> co_key c q = co_key c p \<Longrightarrow> q = p" for q
    using co_invD(1) [OF inv, of "co_key c p" q] by simp
  then show ?thesis
    using inv unfolding co_inv_def coalesce_settle_def Let_def by (auto split: if_splits)
qed

lemma co_reach_inv: "co_reach c \<Longrightarrow> co_inv c"
proof (induction rule: co_reach.induct)
  case co_init
  then show ?case by (simp add: co_inv_def coalescer_init_def)
qed (auto intro: co_inv_get co_inv_settle)

section \<open>Properties\<close>

text \<open>
  The list a builder gets never holds an output that a tracked pending transaction
  spends; it keeps every other listed output in order and offers every unspent output the
  pending transactions create for the address. What stays tracked is exactly what has not
  expired and is not yet listed.
\<close>

theorem pending_apply_correct:
  assumes "jmap_wf txs" "apply_pending now txs address utxos = (out, txs')"
  shows "(\<exists>pend. out = filter (\<lambda>u. refKey (u_txHash u) (u_outputIndex u) \<notin> spent_keys txs') utxos @ pend
            \<and> set pend = {po. u_address po = address \<and> refKey (u_txHash po) (u_outputIndex po) \<notin> spent_keys txs'
                             \<and> (\<exists>h tx. mget txs' h = Some tx \<and> po \<in> set (px_outputs tx))})
       \<and> (\<forall>u \<in> set out. \<forall>h tx. mget txs' h = Some tx \<longrightarrow> refKey (u_txHash u) (u_outputIndex u) \<notin> set (px_inputs tx))
       \<and> (\<forall>h tx. mget txs' h = Some tx \<longleftrightarrow> mget txs h = Some tx \<and> now < px_expiresAt tx
            \<and> h \<notin> (\<lambda>u. toLowerCase (u_txHash u)) ` set utxos)"
proof (intro conjI)
  have txs': "txs' = snd (apply_pending now txs address utxos)" using assms(2) by simp
  have wf: "jmap_wf txs'" unfolding txs' by (rule apply_pending_wf [OF assms(1)])
  define pend where "pend = filter (\<lambda>po. u_address po = address \<and> refKey (u_txHash po) (u_outputIndex po) \<notin> spent_keys txs')
            (concat (map px_outputs (mvalues txs')))"
  have out: "out = filter (\<lambda>u. refKey (u_txHash u) (u_outputIndex u) \<notin> spent_keys txs') utxos @ pend"
    using apply_pending_result [OF assms(1), of now address utxos] assms(2) by (simp add: Let_def pend_def)
  have "tx \<in> set (mvalues txs') \<longleftrightarrow> (\<exists>h. mget txs' h = Some tx)" for tx
    using mget_iff [OF wf] by (force simp: mvalues_def)
  then have "set pend = {po. u_address po = address \<and> refKey (u_txHash po) (u_outputIndex po) \<notin> spent_keys txs'
                             \<and> (\<exists>h tx. mget txs' h = Some tx \<and> po \<in> set (px_outputs tx))}"
    by (fastforce simp: pend_def)
  with out show "\<exists>pend. out = filter (\<lambda>u. refKey (u_txHash u) (u_outputIndex u) \<notin> spent_keys txs') utxos @ pend
            \<and> set pend = {po. u_address po = address \<and> refKey (u_txHash po) (u_outputIndex po) \<notin> spent_keys txs'
                             \<and> (\<exists>h tx. mget txs' h = Some tx \<and> po \<in> set (px_outputs tx))}" by blast
  show "\<forall>u \<in> set out. \<forall>h tx. mget txs' h = Some tx \<longrightarrow> refKey (u_txHash u) (u_outputIndex u) \<notin> set (px_inputs tx)"
    by (auto simp: out pend_def spent_keys_iff [OF wf])
  show "\<forall>h tx. mget txs' h = Some tx \<longleftrightarrow> mget txs h = Some tx \<and> now < px_expiresAt tx
            \<and> h \<notin> (\<lambda>u. toLowerCase (u_txHash u)) ` set utxos"
    unfolding txs' using apply_pending_get [OF assms(1)] by blast
qed

theorem pending_apply_correct_witness:
  "fst (apply_pending 5
     [(''aa'', \<lparr>px_inputs = [refKey ''bb'' 0],
        px_outputs = [\<lparr>u_txHash = ''aa'', u_outputIndex = 0, u_address = ''addr'', u_amount = [],
          u_datumHash = None, u_inlineDatum = None, u_scriptRefCbor = None\<rparr>], px_expiresAt = 9\<rparr>)]
     ''addr'' []) \<noteq> []"
proof -
  let ?o = "\<lparr>u_txHash = ''aa'', u_outputIndex = 0, u_address = ''addr'', u_amount = [],
          u_datumHash = None, u_inlineDatum = None, u_scriptRefCbor = None\<rparr> :: UTxO"
  let ?t = "\<lparr>px_inputs = [refKey ''bb'' 0], px_outputs = [?o], px_expiresAt = 9\<rparr> :: PendingTx"
  let ?m = "[(''aa'', ?t)]"
  have wf: "jmap_wf ?m" by (simp add: jmap_wf_def)
  obtain out txs' where a: "apply_pending 5 ?m ''addr'' [] = (out, txs')" by (cases "apply_pending 5 ?m ''addr'' []")
  note main = pending_apply_correct [OF wf a]
  have get: "mget txs' h = Some tx \<longleftrightarrow> h = ''aa'' \<and> tx = ?t" for h tx
    using main by (auto simp: mget_def)
  have "jmap_wf txs'" using apply_pending_wf [OF wf, of 5 "''addr''" "[]"] a by simp
  then have "refKey ''aa'' 0 \<notin> spent_keys txs'"
    by (auto simp: spent_keys_iff get refKey_def outpoint_inject toLowerCase_def lower_char_def)
  then have "?o \<in> set out" using main get by auto
  then show ?thesis using a by force
qed

text \<open>
  C14. A recorded transaction keeps its inputs blocked for the whole TTL: until it expires or
  its outputs show up in a listing, every later query for one of its inputs answers with a
  pending transaction, whatever else is recorded or queried in between.
\<close>

theorem recorded_inputs_stay_blocked:
  assumes "jmap_wf txs" "parse c = Inr p" "(a, i) \<in> set (pt_inputs p)"
    and "\<forall>x \<in> set ops. t \<le> fst x \<and> fst x < t + PENDING_TX_TTL_MS \<and> \<not> lists_tx (pt_txHash p) (snd x)"
    and "t \<le> now" "now < t + PENDING_TX_TTL_MS"
    and hash_determines_body: "\<And>c' p'. parse c' = Inr p' \<Longrightarrow> pt_txHash p' = pt_txHash p \<Longrightarrow> pt_inputs p' = pt_inputs p"
  shows "\<exists>h. fst (spentBy now (fold (\<lambda>x txs. ps_step parse txs x) ops (record_tx parse t txs c)) a i) = Some h"
proof -
  let ?e = "t + PENDING_TX_TTL_MS" and ?txs = "record_tx parse t txs c"
  obtain tx where tx: "mget ?txs (pt_txHash p) = Some tx" "refKey a i \<in> set (px_inputs tx)" "?e \<le> px_expiresAt tx"
    using assms(2,3) by (force simp: record_tx_def)
  have "\<And>c' p'. parse c' = Inr p' \<Longrightarrow> pt_txHash p' = pt_txHash p \<Longrightarrow> refKey a i \<in> (\<lambda>(a, i). refKey a i) ` set (pt_inputs p')"
    using hash_determines_body assms(3) by force
  from ps_run_keeps [OF record_wf [OF assms(1)] tx _ this] assms(4)
  obtain tx' where "jmap_wf (fold (\<lambda>x txs. ps_step parse txs x) ops ?txs)"
    "mget (fold (\<lambda>x txs. ps_step parse txs x) ops ?txs) (pt_txHash p) = Some tx'"
    "refKey a i \<in> set (px_inputs tx')" "?e \<le> px_expiresAt tx'" by fastforce
  with assms(6) show ?thesis by (intro spentBy_some) auto
qed

theorem recorded_inputs_stay_blocked_witness:
  "\<exists>h. fst (spentBy 100
       (fold (\<lambda>x txs. ps_step (\<lambda>c. if c = ''c'' then Inr \<lparr>pt_txHash = ''aa'', pt_inputs = [(''bb'', 1)], pt_outputs = []\<rparr> else Inl ''bad'') txs x)
          [(5, Size), (7, Record ''zz''), (9, Apply ''addr'' [])]
          (record_tx (\<lambda>c. if c = ''c'' then Inr \<lparr>pt_txHash = ''aa'', pt_inputs = [(''bb'', 1)], pt_outputs = []\<rparr> else Inl ''bad'') 3 [] ''c''))
       ''bb'' 1) = Some h"
  by (rule recorded_inputs_stay_blocked [where p = "\<lparr>pt_txHash = ''aa'', pt_inputs = [(''bb'', 1)], pt_outputs = []\<rparr>"])
     (auto simp: PENDING_TX_TTL_MS_def split: if_splits)

text \<open>
  Coalescing: in every reachable state at most one unsettled fetch exists per key, a call
  for a key with an unsettled fetch joins exactly that fetch, and a call after it settled
  (with a value or an error) starts a new one.
\<close>

theorem coalescer_shares:
  assumes "co_reach c"
  shows "(\<forall>p \<in> set (co_unsettled c). \<forall>q \<in> set (co_unsettled c). co_key c p = co_key c q \<longrightarrow> p = q)
       \<and> (\<forall>p \<in> set (co_unsettled c). coalesce_get c (co_key c p) = (p, False, c))
       \<and> ((\<forall>p \<in> set (co_unsettled c). co_key c p \<noteq> key) \<longrightarrow>
            fst (coalesce_get c key) \<notin> set (co_unsettled c) \<and> fst (snd (coalesce_get c key)))"
proof -
  have inv: "co_inv c" by (rule co_reach_inv [OF assms])
  then have "\<And>p. p \<in> set (co_unsettled c) \<Longrightarrow> mget (co_pending c) (co_key c p) = Some p"
    by (auto simp: co_inv_def)
  moreover have "(\<forall>p \<in> set (co_unsettled c). co_key c p \<noteq> key) \<Longrightarrow> mget (co_pending c) key = None"
    using inv by (cases "mget (co_pending c) key") (auto simp: co_inv_def)
  moreover have "co_next c \<notin> set (co_unsettled c)" using co_invD(2) [OF inv] by blast
  moreover have "p \<in> set (co_unsettled c) \<Longrightarrow> q \<in> set (co_unsettled c) \<Longrightarrow> co_key c p = co_key c q \<Longrightarrow> p = q" for p q
    using co_invD(1) [OF inv] by (metis option.inject)
  ultimately show ?thesis
    by (simp add: coalesce_get_def Let_def)
qed

theorem coalescer_shares_witness:
  "fst (coalesce_get (snd (snd (coalesce_get coalescer_init ''tip''))) ''tip'') = 0"
proof -
  let ?c = "snd (snd (coalesce_get coalescer_init ''tip''))"
  have "co_reach ?c" by (rule co_call [OF co_init, of "''tip''" 0 True]) (simp add: coalesce_get_def coalescer_init_def)
  from coalescer_shares [OF this, of "''tip''"] show ?thesis
    by (simp add: coalesce_get_def coalescer_init_def)
qed

end
