(* ===== verification/SyncState.thy ===== *)
theory SyncState imports Lease begin

text \<open>
  The cursor of the chain crawler, \<open>srv/blockchain/crawler/sync-state.ts\<close>. The table holds at
  most the one row \<open>SINGLETON\<close>, so it is an \<open>option\<close>; an UPDATE .. WHERE is a guarded update of
  that row. The crawler lease and the lease of the UTxO set import share the lease columns and
  both keep the lease contract.
\<close>

section \<open>The cursor row\<close>

definition MAX_CONSECUTIVE_ERRORS :: int where
  "MAX_CONSECUTIVE_ERRORS = 10"

definition CRAWLER_LEASE_TTL_MS :: int where
  "CRAWLER_LEASE_TTL_MS = 15000"

datatype CrawlSyncStatus = Stopped | Syncing | Synced | SyncError

datatype UtxoSetStatus = UtxoNone | UtxoImporting | UtxoActive | UtxoInvalid

record CrawlPoint =
  cp_slot :: int
  cp_hash :: string
  cp_height :: "int option"

record UtxoSetState =
  us_status :: UtxoSetStatus
  us_anchorSlot :: "int option"
  us_anchorHash :: "string option"
  us_importedAt :: "time option"
  us_appliedSlot :: "int option"
  us_error :: "string option"

record SyncCursor =
  y_network :: "string option"
  y_startSlot :: "int option"
  y_startBlockHash :: "string option"
  y_lastSlot :: int
  y_lastBlockHash :: "string option"
  y_lastHeight :: int
  y_tipSlot :: "int option"
  y_tipHeight :: "int option"
  y_syncStatus :: CrawlSyncStatus
  y_consecutiveErrors :: int
  y_lastError :: "string option"
  y_lastErrorAt :: "time option"
  y_lastIndexedAt :: "time option"
  y_desiredRunning :: bool
  y_leaseOwner :: "string option"
  y_leaseUntil :: "time option"
  y_utxoSet :: UtxoSetState

type_synonym sdb = "SyncCursor option"

definition update_cursor :: "(SyncCursor \<Rightarrow> bool) \<Rightarrow> (SyncCursor \<Rightarrow> SyncCursor) \<Rightarrow> sdb \<Rightarrow> sdb" where
  "update_cursor P f db = map_option (\<lambda>c. if P c then f c else c) db"

definition readCursor :: "sdb \<Rightarrow> SyncCursor option" where
  "readCursor db = db"

section \<open>Initialisation\<close>

datatype config_error = NetworkMismatch

definition empty_utxo_set :: UtxoSetState where
  "empty_utxo_set = \<lparr>us_status = UtxoNone, us_anchorSlot = None, us_anchorHash = None,
     us_importedAt = None, us_appliedSlot = None, us_error = None\<rparr>"

definition ensureSyncStateSingleton :: "sdb \<Rightarrow> string \<Rightarrow> CrawlPoint option \<Rightarrow> (config_error + SyncCursor) \<times> sdb" where
  "ensureSyncStateSingleton db network start =
     (case db of
        Some c \<Rightarrow> if y_network c \<noteq> Some network then (Inl NetworkMismatch, db) else (Inr c, db)
      | None \<Rightarrow>
          (let row = \<lparr>y_network = Some network, y_startSlot = map_option cp_slot start,
                 y_startBlockHash = map_option cp_hash start,
                 y_lastSlot = nullish (map_option cp_slot start) 0,
                 y_lastBlockHash = map_option cp_hash start,
                 y_lastHeight = (case start of None \<Rightarrow> 0 | Some p \<Rightarrow> nullish (cp_height p) 0),
                 y_tipSlot = None, y_tipHeight = None, y_syncStatus = Stopped, y_consecutiveErrors = 0,
                 y_lastError = None, y_lastErrorAt = None, y_lastIndexedAt = None, y_desiredRunning = True,
                 y_leaseOwner = None, y_leaseUntil = None, y_utxoSet = empty_utxo_set\<rparr>
           in (Inr row, Some row)))"

section \<open>Leases\<close>

definition deadline_ok :: "SyncCursor \<Rightarrow> int \<Rightarrow> bool" where
  "deadline_ok c expectedMs = (case y_leaseUntil c of None \<Rightarrow> False | Some d \<Rightarrow> d \<ge> expectedMs - 1000)"

definition importLeaseHeld :: "SyncCursor option \<Rightarrow> string \<Rightarrow> int \<Rightarrow> bool" where
  "importLeaseHeld cursor ow expectedMs =
     (case cursor of None \<Rightarrow> False | Some c \<Rightarrow> y_leaseOwner c = Some ow \<and> deadline_ok c expectedMs)"

definition leaseDeadlineReached :: "SyncCursor option \<Rightarrow> string \<Rightarrow> int \<Rightarrow> bool" where
  "leaseDeadlineReached cursor ow expectedMs =
     (case cursor of None \<Rightarrow> False
      | Some c \<Rightarrow> y_desiredRunning c \<and> y_leaseOwner c = Some ow \<and> deadline_ok c expectedMs)"

definition isCrawlerLeaseActive :: "SyncCursor option \<Rightarrow> time \<Rightarrow> bool" where
  "isCrawlerLeaseActive cursor now =
     (case cursor of None \<Rightarrow> False
      | Some c \<Rightarrow> y_desiredRunning c \<and> truthy (y_leaseOwner c)
          \<and> (case y_leaseUntil c of None \<Rightarrow> False | Some d \<Rightarrow> d > now))"

text \<open>Somebody else holds an unexpired lease.\<close>

definition foreign_lease :: "SyncCursor \<Rightarrow> string \<Rightarrow> time \<Rightarrow> bool" where
  "foreign_lease c ow now \<longleftrightarrow> truthy (y_leaseOwner c) \<and> y_leaseOwner c \<noteq> Some ow
     \<and> (case y_leaseUntil c of None \<Rightarrow> False | Some d \<Rightarrow> d > now)"

definition take_lease :: "string \<Rightarrow> time \<Rightarrow> SyncCursor \<Rightarrow> SyncCursor" where
  "take_lease ow leaseUntil c = c\<lparr>y_leaseOwner := Some ow, y_leaseUntil := Some leaseUntil\<rparr>"

text \<open>\<open>db0\<close> is the row at the SELECT, \<open>db\<close> at the UPDATE.\<close>

definition tryAcquireCrawlerLease :: "sdb \<Rightarrow> sdb \<Rightarrow> string \<Rightarrow> time \<Rightarrow> int \<Rightarrow> bool \<times> sdb" where
  "tryAcquireCrawlerLease db0 db ow now ttlMs =
     (case db0 of
        None \<Rightarrow> (False, db)
      | Some current \<Rightarrow>
          if \<not> y_desiredRunning current then (False, db)
          else if foreign_lease current ow now then (False, db)
          else
            (let db' = update_cursor (\<lambda>c. y_leaseOwner c = y_leaseOwner current
                         \<and> y_desiredRunning c = y_desiredRunning current) (take_lease ow (now + ttlMs)) db
             in (leaseDeadlineReached (readCursor db') ow (now + ttlMs), db')))"

definition renewCrawlerLease :: "sdb \<Rightarrow> string \<Rightarrow> time \<Rightarrow> int \<Rightarrow> bool \<times> sdb" where
  "renewCrawlerLease db ow now ttlMs =
     (let db' = update_cursor (\<lambda>c. y_leaseOwner c = Some ow \<and> y_desiredRunning c)
                  (\<lambda>c. c\<lparr>y_leaseUntil := Some (now + ttlMs)\<rparr>) db
      in (leaseDeadlineReached (readCursor db') ow (now + ttlMs), db'))"

definition releaseCrawlerLease :: "sdb \<Rightarrow> string \<Rightarrow> CrawlSyncStatus \<Rightarrow> bool \<Rightarrow> sdb" where
  "releaseCrawlerLease db ow status pauseCluster =
     update_cursor (\<lambda>c. y_leaseOwner c = Some ow)
       (\<lambda>c. let c1 = c\<lparr>y_leaseOwner := None, y_leaseUntil := None, y_syncStatus := status\<rparr>
            in if pauseCluster then c1\<lparr>y_desiredRunning := False\<rparr> else c1) db"

definition tryAcquireImportLease :: "sdb \<Rightarrow> sdb \<Rightarrow> string \<Rightarrow> time \<Rightarrow> int \<Rightarrow> bool \<times> sdb" where
  "tryAcquireImportLease db0 db ow now ttlMs =
     (case db0 of
        None \<Rightarrow> (False, db)
      | Some current \<Rightarrow>
          if foreign_lease current ow now then (False, db)
          else
            (let db' = update_cursor (\<lambda>c. y_leaseOwner c = y_leaseOwner current) (take_lease ow (now + ttlMs)) db
             in (importLeaseHeld (readCursor db') ow (now + ttlMs), db')))"

definition renewImportLease :: "sdb \<Rightarrow> string \<Rightarrow> time \<Rightarrow> int \<Rightarrow> bool \<times> sdb" where
  "renewImportLease db ow now ttlMs =
     (let db' = update_cursor (\<lambda>c. y_leaseOwner c = Some ow) (\<lambda>c. c\<lparr>y_leaseUntil := Some (now + ttlMs)\<rparr>) db
      in (importLeaseHeld (readCursor db') ow (now + ttlMs), db'))"

definition releaseImportLease :: "sdb \<Rightarrow> string \<Rightarrow> sdb" where
  "releaseImportLease db ow =
     update_cursor (\<lambda>c. y_leaseOwner c = Some ow) (\<lambda>c. c\<lparr>y_leaseOwner := None, y_leaseUntil := None\<rparr>) db"

section \<open>Cursor writes\<close>

definition setCrawlerDesiredRunning :: "sdb \<Rightarrow> bool \<Rightarrow> sdb" where
  "setCrawlerDesiredRunning db desired =
     update_cursor (\<lambda>_. True)
       (\<lambda>c. if desired then c\<lparr>y_desiredRunning := True, y_consecutiveErrors := 0\<rparr>
            else c\<lparr>y_desiredRunning := False, y_syncStatus := Stopped\<rparr>) db"

definition latchPoisonBlock :: "sdb \<Rightarrow> string \<Rightarrow> time \<Rightarrow> sdb" where
  "latchPoisonBlock db message now =
     update_cursor (\<lambda>_. True)
       (\<lambda>c. c\<lparr>y_desiredRunning := False, y_syncStatus := SyncError,
              y_lastError := Some (take 500 message), y_lastErrorAt := Some now\<rparr>) db"

record tip_info =
  ti_slot :: int
  ti_height :: "int option"

text \<open>
  The columns the indexed block writes; \<open>applied\<close> is the extra column of the ledger
  (\<open>utxoAppliedSlot\<close>), the only one a caller passes.
\<close>

definition advance_columns ::
  "CrawlPoint \<Rightarrow> tip_info option \<Rightarrow> CrawlSyncStatus \<Rightarrow> int option \<Rightarrow> time \<Rightarrow> SyncCursor \<Rightarrow> SyncCursor" where
  "advance_columns block tip status applied now c =
     (let c1 = c\<lparr>y_lastSlot := cp_slot block, y_lastBlockHash := Some (cp_hash block),
                 y_lastHeight := nullish (cp_height block) 0, y_lastIndexedAt := Some now,
                 y_syncStatus := status, y_consecutiveErrors := 0, y_lastError := None\<rparr>;
          c2 = (case applied of None \<Rightarrow> c1
                | Some s \<Rightarrow> c1\<lparr>y_utxoSet := (y_utxoSet c1)\<lparr>us_appliedSlot := Some s\<rparr>\<rparr>)
      in case tip of
           None \<Rightarrow> c2
         | Some t \<Rightarrow>
             (let c3 = c2\<lparr>y_tipSlot := Some (ti_slot t)\<rparr>
              in case ti_height t of None \<Rightarrow> c3 | Some h \<Rightarrow> c3\<lparr>y_tipHeight := Some h\<rparr>))"

definition advanceCursor ::
  "sdb \<Rightarrow> CrawlPoint \<Rightarrow> tip_info option \<Rightarrow> CrawlSyncStatus \<Rightarrow> int option \<Rightarrow> string option \<Rightarrow> time \<Rightarrow> int \<Rightarrow> bool \<times> sdb" where
  "advanceCursor db block tip status applied leaseOwner now ttlMs =
     (if \<not> truthy leaseOwner
      then (True, update_cursor (\<lambda>_. True) (advance_columns block tip status applied now) db)
      else
        (let ow = the leaseOwner;
             db' = update_cursor (\<lambda>c. y_leaseOwner c = Some ow \<and> y_desiredRunning c)
                     (\<lambda>c. (advance_columns block tip status applied now c)\<lparr>y_leaseUntil := Some (now + ttlMs)\<rparr>) db
         in (leaseDeadlineReached (readCursor db') ow (now + ttlMs), db')))"

text \<open>\<open>Partial<UtxoSetState>\<close>: an absent field is \<open>None\<close>, a present one \<open>Some\<close> of its (nullable) value.\<close>

record utxo_patch =
  up_status :: "UtxoSetStatus option"
  up_anchorSlot :: "int option option"
  up_anchorHash :: "string option option"
  up_importedAt :: "time option option"
  up_appliedSlot :: "int option option"
  up_error :: "string option option"

definition setUtxoSetState :: "sdb \<Rightarrow> utxo_patch \<Rightarrow> sdb" where
  "setUtxoSetState db p =
     update_cursor (\<lambda>_. True)
       (\<lambda>c. let u = y_utxoSet c in c\<lparr>y_utxoSet :=
          \<lparr>us_status = nullish (up_status p) (us_status u),
           us_anchorSlot = nullish (up_anchorSlot p) (us_anchorSlot u),
           us_anchorHash = nullish (up_anchorHash p) (us_anchorHash u),
           us_importedAt = nullish (up_importedAt p) (us_importedAt u),
           us_appliedSlot = nullish (up_appliedSlot p) (us_appliedSlot u),
           us_error = nullish (up_error p) (us_error u)\<rparr>\<rparr>) db"

definition resetCursorTo :: "sdb \<Rightarrow> CrawlPoint \<Rightarrow> time \<Rightarrow> sdb" where
  "resetCursorTo db point now =
     update_cursor (\<lambda>_. True)
       (\<lambda>c. c\<lparr>y_lastSlot := cp_slot point, y_lastBlockHash := Some (cp_hash point),
              y_lastHeight := nullish (cp_height point) 0, y_lastIndexedAt := Some now\<rparr>) db"

definition setSyncStatus :: "sdb \<Rightarrow> CrawlSyncStatus \<Rightarrow> bool \<Rightarrow> sdb" where
  "setSyncStatus db status pauseCluster =
     update_cursor (\<lambda>_. True)
       (\<lambda>c. let c1 = c\<lparr>y_syncStatus := status\<rparr>
            in if pauseCluster then c1\<lparr>y_desiredRunning := False\<rparr> else c1) db"

definition recordError :: "sdb \<Rightarrow> string \<Rightarrow> string option \<Rightarrow> time \<Rightarrow> int \<times> sdb" where
  "recordError db message leaseOwner now =
     (let (held, db1) = (if truthy leaseOwner then renewCrawlerLease db (the leaseOwner) now CRAWLER_LEASE_TTL_MS
                         else (True, db))
      in if \<not> held then (-1, db1)
         else
           (let streak = (case readCursor db1 of None \<Rightarrow> 0 | Some c \<Rightarrow> y_consecutiveErrors c) + 1
            in (streak, update_cursor (\<lambda>_. True)
                  (\<lambda>c. c\<lparr>y_consecutiveErrors := streak, y_lastError := Some (take 500 message),
                         y_lastErrorAt := Some now,
                         y_syncStatus := (if streak \<ge> MAX_CONSECUTIVE_ERRORS then SyncError else Syncing)\<rparr>) db1)))"

section \<open>Both leases keep the lease contract\<close>

definition cursor_holder :: "sdb \<Rightarrow> string option" where
  "cursor_holder db = (case db of None \<Rightarrow> None | Some c \<Rightarrow> y_leaseOwner c)"

definition cursor_deadline :: "sdb \<Rightarrow> time option" where
  "cursor_deadline db = (case db of None \<Rightarrow> None | Some c \<Rightarrow> y_leaseUntil c)"

abbreviation acquire_crawler :: "sdb \<Rightarrow> sdb \<Rightarrow> string \<Rightarrow> time \<Rightarrow> bool \<times> sdb" where
  "acquire_crawler db0 db ow now \<equiv> tryAcquireCrawlerLease db0 db ow now CRAWLER_LEASE_TTL_MS"

abbreviation renew_crawler :: "sdb \<Rightarrow> string \<Rightarrow> time \<Rightarrow> bool \<times> sdb" where
  "renew_crawler db ow now \<equiv> renewCrawlerLease db ow now CRAWLER_LEASE_TTL_MS"

abbreviation release_crawler :: "sdb \<Rightarrow> string \<Rightarrow> sdb" where
  "release_crawler db ow \<equiv> releaseCrawlerLease db ow Stopped False"

abbreviation acquire_import :: "sdb \<Rightarrow> sdb \<Rightarrow> string \<Rightarrow> time \<Rightarrow> bool \<times> sdb" where
  "acquire_import db0 db ow now \<equiv> tryAcquireImportLease db0 db ow now CRAWLER_LEASE_TTL_MS"

abbreviation renew_import :: "sdb \<Rightarrow> string \<Rightarrow> time \<Rightarrow> bool \<times> sdb" where
  "renew_import db ow now \<equiv> renewImportLease db ow now CRAWLER_LEASE_TTL_MS"

lemmas cursor_views = cursor_holder_def cursor_deadline_def leaseDeadlineReached_def importLeaseHeld_def
  deadline_ok_def take_lease_def update_cursor_def readCursor_def

text \<open>The effect of the two acquisitions and renewals on a present row.\<close>

lemma acquire_crawler_row:
  "tryAcquireCrawlerLease (Some c0) (Some c) ow now ttl =
     (if \<not> y_desiredRunning c0 \<or> foreign_lease c0 ow now then (False, Some c)
      else if y_leaseOwner c = y_leaseOwner c0 \<and> y_desiredRunning c
      then (True, Some (take_lease ow (now + ttl) c))
      else (leaseDeadlineReached (Some c) ow (now + ttl), Some c))"
  by (auto simp: tryAcquireCrawlerLease_def Let_def cursor_views)

lemma acquire_import_row:
  "tryAcquireImportLease (Some c0) (Some c) ow now ttl =
     (if foreign_lease c0 ow now then (False, Some c)
      else if y_leaseOwner c = y_leaseOwner c0 then (True, Some (take_lease ow (now + ttl) c))
      else (importLeaseHeld (Some c) ow (now + ttl), Some c))"
  by (auto simp: tryAcquireImportLease_def Let_def cursor_views)

lemma acquire_absent: "tryAcquireCrawlerLease None db ow now ttl = (False, db)"
  "tryAcquireImportLease None db ow now ttl = (False, db)"
  "tryAcquireCrawlerLease (Some c0) None ow now ttl = (False, None)"
  "tryAcquireImportLease (Some c0) None ow now ttl = (False, None)"
  by (simp_all add: tryAcquireCrawlerLease_def tryAcquireImportLease_def Let_def cursor_views)

lemma renew_crawler_row:
  "renewCrawlerLease (Some c) ow now ttl =
     (if y_leaseOwner c = Some ow \<and> y_desiredRunning c then (True, Some (c\<lparr>y_leaseUntil := Some (now + ttl)\<rparr>))
      else (False, Some c))"
  "renewCrawlerLease None ow now ttl = (False, None)"
  by (auto simp: renewCrawlerLease_def Let_def cursor_views)

lemma renew_import_row:
  "renewImportLease (Some c) ow now ttl =
     (if y_leaseOwner c = Some ow then (True, Some (c\<lparr>y_leaseUntil := Some (now + ttl)\<rparr>)) else (False, Some c))"
  "renewImportLease None ow now ttl = (False, None)"
  by (auto simp: renewImportLease_def Let_def cursor_views)

lemma release_row:
  "releaseCrawlerLease (Some c) ow st p = Some (if y_leaseOwner c = Some ow
      then (let c1 = c\<lparr>y_leaseOwner := None, y_leaseUntil := None, y_syncStatus := st\<rparr>
            in if p then c1\<lparr>y_desiredRunning := False\<rparr> else c1) else c)"
  "releaseCrawlerLease None ow st p = None"
  "releaseImportLease (Some c) ow = Some (if y_leaseOwner c = Some ow then c\<lparr>y_leaseOwner := None, y_leaseUntil := None\<rparr> else c)"
  "releaseImportLease None ow = None"
  by (simp_all add: releaseCrawlerLease_def releaseImportLease_def update_cursor_def)

lemmas lease_rows = acquire_crawler_row acquire_import_row acquire_absent renew_crawler_row renew_import_row release_row

lemma holder_row [simp]: "cursor_holder (Some c) = y_leaseOwner c" "cursor_deadline (Some c) = y_leaseUntil c"
  "cursor_holder None = None" "cursor_deadline None = None"
  by (simp_all add: cursor_holder_def cursor_deadline_def)

interpretation crawler_lease: lease_cell acquire_crawler renew_crawler release_crawler
  cursor_holder cursor_deadline "\<lambda>_. True" CRAWLER_LEASE_TTL_MS 1000
proof unfold_locales
  fix s0 s :: sdb and ow x :: string and now d t :: time
  note fin = lease_rows take_lease_def Let_def
  show "cursor_holder (snd (acquire_crawler s0 s ow now)) = Some ow
      \<and> (\<exists>d. cursor_deadline (snd (acquire_crawler s0 s ow now)) = Some d \<and> now + CRAWLER_LEASE_TTL_MS - 1000 \<le> d)"
    if "fst (acquire_crawler s0 s ow now)"
    using that by (cases s0; cases s)
      (auto simp: fin leaseDeadlineReached_def deadline_ok_def split: if_splits option.splits)
  show "acquire_crawler s0 s ow now = (False, s)"
    if "cursor_holder s0 = Some x" "x \<noteq> []" "x \<noteq> ow" "cursor_deadline s0 = Some d" "now < d"
    using that by (cases s0; cases s) (simp_all add: fin foreign_lease_def truthy_def)
  show "snd (acquire_crawler s0 s ow now) = s" if "cursor_holder s \<noteq> cursor_holder s0"
    using that by (cases s0; cases s) (simp_all add: fin)
  show "cursor_holder (snd (acquire_crawler s0 s ow now)) = cursor_holder s
      \<and> cursor_deadline (snd (acquire_crawler s0 s ow now)) = cursor_deadline s"
    if "\<not> fst (acquire_crawler s0 s ow now)"
    using that by (cases s0; cases s) (auto simp: fin split: if_splits)
  show "cursor_holder s = Some ow \<and> cursor_holder (snd (renew_crawler s ow now)) = Some ow
      \<and> (\<exists>d. cursor_deadline (snd (renew_crawler s ow now)) = Some d \<and> now + CRAWLER_LEASE_TTL_MS - 1000 \<le> d)"
    if "fst (renew_crawler s ow now)"
    using that by (cases s) (simp_all add: fin split: if_splits)
  show "\<not> fst (renew_crawler s ow now) \<and> snd (renew_crawler s ow now) = s" if "cursor_holder s \<noteq> Some ow"
    using that by (cases s) (simp_all add: fin)
  show "cursor_holder (snd (renew_crawler s ow now)) = cursor_holder s"
    by (cases s) (simp_all add: fin)
  show "\<exists>d'. cursor_deadline (snd (renew_crawler s ow now)) = Some d' \<and> t \<le> d'"
    if "t \<le> now + CRAWLER_LEASE_TTL_MS" "cursor_deadline s = Some d" "t \<le> d"
    using that by (cases s) (simp_all add: fin)
  show "cursor_holder (release_crawler s ow) = None" if "cursor_holder s = Some ow"
    using that by (cases s) (simp_all add: fin)
  show "release_crawler s ow = s" if "cursor_holder s \<noteq> Some ow"
    using that by (cases s) (simp_all add: fin)
qed (simp_all add: CRAWLER_LEASE_TTL_MS_def)

interpretation import_lease: lease_cell acquire_import renew_import releaseImportLease
  cursor_holder cursor_deadline "\<lambda>_. True" CRAWLER_LEASE_TTL_MS 1000
proof unfold_locales
  fix s0 s :: sdb and ow x :: string and now d t :: time
  note fin = lease_rows take_lease_def Let_def
  show "cursor_holder (snd (acquire_import s0 s ow now)) = Some ow
      \<and> (\<exists>d. cursor_deadline (snd (acquire_import s0 s ow now)) = Some d \<and> now + CRAWLER_LEASE_TTL_MS - 1000 \<le> d)"
    if "fst (acquire_import s0 s ow now)"
    using that by (cases s0; cases s)
      (auto simp: fin importLeaseHeld_def deadline_ok_def split: if_splits option.splits)
  show "acquire_import s0 s ow now = (False, s)"
    if "cursor_holder s0 = Some x" "x \<noteq> []" "x \<noteq> ow" "cursor_deadline s0 = Some d" "now < d"
    using that by (cases s0; cases s) (simp_all add: fin foreign_lease_def truthy_def)
  show "snd (acquire_import s0 s ow now) = s" if "cursor_holder s \<noteq> cursor_holder s0"
    using that by (cases s0; cases s) (simp_all add: fin)
  show "cursor_holder (snd (acquire_import s0 s ow now)) = cursor_holder s
      \<and> cursor_deadline (snd (acquire_import s0 s ow now)) = cursor_deadline s"
    if "\<not> fst (acquire_import s0 s ow now)"
    using that by (cases s0; cases s) (auto simp: fin split: if_splits)
  show "cursor_holder s = Some ow \<and> cursor_holder (snd (renew_import s ow now)) = Some ow
      \<and> (\<exists>d. cursor_deadline (snd (renew_import s ow now)) = Some d \<and> now + CRAWLER_LEASE_TTL_MS - 1000 \<le> d)"
    if "fst (renew_import s ow now)"
    using that by (cases s) (simp_all add: fin split: if_splits)
  show "\<not> fst (renew_import s ow now) \<and> snd (renew_import s ow now) = s" if "cursor_holder s \<noteq> Some ow"
    using that by (cases s) (simp_all add: fin)
  show "cursor_holder (snd (renew_import s ow now)) = cursor_holder s"
    by (cases s) (simp_all add: fin)
  show "\<exists>d'. cursor_deadline (snd (renew_import s ow now)) = Some d' \<and> t \<le> d'"
    if "t \<le> now + CRAWLER_LEASE_TTL_MS" "cursor_deadline s = Some d" "t \<le> d"
    using that by (cases s) (simp_all add: fin)
  show "cursor_holder (releaseImportLease s ow) = None" if "cursor_holder s = Some ow"
    using that by (cases s) (simp_all add: fin)
  show "releaseImportLease s ow = s" if "cursor_holder s \<noteq> Some ow"
    using that by (cases s) (simp_all add: fin)
qed (simp_all add: CRAWLER_LEASE_TTL_MS_def)


section \<open>Exclusion across both leases\<close>

datatype lease_kind = CrawlerLease | ImportLease

fun cursor_event :: "lease_kind \<Rightarrow> sdb \<Rightarrow> lease_event \<Rightarrow> bool \<times> sdb" where
  "cursor_event CrawlerLease db e = lease_step acquire_crawler renew_crawler release_crawler db e"
| "cursor_event ImportLease db e = lease_step acquire_import renew_import releaseImportLease db e"

fun cursor_run :: "sdb \<Rightarrow> (lease_kind \<times> lease_event) list \<Rightarrow> (lease_event \<times> bool) list \<times> sdb" where
  "cursor_run db [] = ([], db)"
| "cursor_run db ((k, e) # es) =
     (let (ok, db1) = cursor_event k db e; (log, db2) = cursor_run db1 es in ((e, ok) # log, db2))"

lemma cursor_event_excludes:
  assumes "cursor_holder db = Some a" "a \<noteq> []" "cursor_deadline db = Some d'" "d \<le> d'"
    and "d \<le> t0 + CRAWLER_LEASE_TTL_MS - 1000" "within a t0 d e"
  shows "cursor_holder (snd (cursor_event k db e)) = Some a
       \<and> (\<exists>d'. cursor_deadline (snd (cursor_event k db e)) = Some d' \<and> d \<le> d')
       \<and> (\<forall>ow now. e = Acquire ow now \<longrightarrow> ow \<noteq> a \<longrightarrow> \<not> fst (cursor_event k db e))"
proof (cases k)
  case CrawlerLease
  with crawler_lease.event_excludes [OF TrueI assms] show ?thesis by simp
next
  case ImportLease
  with import_lease.event_excludes [OF TrueI assms] show ?thesis by simp
qed

lemma cursor_run_excludes:
  assumes "cursor_holder db = Some a" "a \<noteq> []" "cursor_deadline db = Some d'" "d \<le> d'"
    and "d \<le> t0 + CRAWLER_LEASE_TTL_MS - 1000" "\<forall>(k, e) \<in> set es. within a t0 d e"
  shows "cursor_holder (snd (cursor_run db es)) = Some a
       \<and> (\<forall>ow now. ow \<noteq> a \<longrightarrow> (Acquire ow now, True) \<notin> set (fst (cursor_run db es)))"
  using assms
proof (induction es arbitrary: db d')
  case (Cons x es)
  obtain k e where x: "x = (k, e)" by (cases x)
  obtain ok s1 where step: "cursor_event k db e = (ok, s1)" by (cases "cursor_event k db e")
  obtain log s2 where rest: "cursor_run s1 es = (log, s2)" by (cases "cursor_run s1 es")
  from Cons.prems(6) x have "within a t0 d e" by simp
  from cursor_event_excludes [OF Cons.prems(1-5) this, of k] obtain d2
    where ex: "cursor_holder s1 = Some a" "cursor_deadline s1 = Some d2" "d \<le> d2"
      and lose: "\<forall>ow now. e = Acquire ow now \<longrightarrow> ow \<noteq> a \<longrightarrow> \<not> ok" unfolding step by auto
  from Cons.IH [OF ex(1) Cons.prems(2) ex(2,3) Cons.prems(5)] Cons.prems(6) lose
  show ?case by (auto simp: x step rest)
qed simp

text \<open>
  One leader: while an instance holds the cursor lease, as the crawler or for an import of
  the UTxO set, nobody else acquires it in either role before the deadline (less a second), over
  any interleaving of acquisitions, renewals and releases of both kinds.
\<close>

theorem cursor_lease_exclusive:
  assumes "tryAcquireCrawlerLease db0 db a t0 CRAWLER_LEASE_TTL_MS = (True, db1)
         \<or> tryAcquireImportLease db0 db a t0 CRAWLER_LEASE_TTL_MS = (True, db1)" "a \<noteq> []"
    and "\<forall>(k, e) \<in> set es. within a t0 (t0 + CRAWLER_LEASE_TTL_MS - 1000) e"
  shows "cursor_holder (snd (cursor_run db1 es)) = Some a
       \<and> (\<forall>b now. b \<noteq> a \<longrightarrow> (Acquire b now, True) \<notin> set (fst (cursor_run db1 es)))"
proof -
  from assms(1) crawler_lease.acquire_true [of db0 db a t0] import_lease.acquire_true [of db0 db a t0]
  obtain d where "cursor_holder db1 = Some a" "cursor_deadline db1 = Some d" "t0 + CRAWLER_LEASE_TTL_MS - 1000 \<le> d"
    by auto
  from cursor_run_excludes [OF this(1) assms(2) this(2,3) order_refl assms(3)] show ?thesis .
qed

definition demo_cursor :: sdb where
  "demo_cursor = snd (ensureSyncStateSingleton None ''preview'' None)"

theorem cursor_lease_exclusive_witness:
  "\<forall>now. (Acquire ''i2'' now, True) \<notin> set (fst (cursor_run
     (snd (tryAcquireImportLease demo_cursor demo_cursor ''i1'' 0 CRAWLER_LEASE_TTL_MS))
     [(CrawlerLease, Acquire ''i2'' 10), (ImportLease, Renew ''i1'' 5000), (CrawlerLease, Acquire ''i2'' 13000),
      (ImportLease, Acquire ''i2'' 13500)]))"
proof -
  let ?r = "tryAcquireImportLease demo_cursor demo_cursor ''i1'' 0 CRAWLER_LEASE_TTL_MS"
  let ?es = "[(CrawlerLease, Acquire ''i2'' 10), (ImportLease, Renew ''i1'' 5000), (CrawlerLease, Acquire ''i2'' 13000),
      (ImportLease, Acquire ''i2'' 13500)]"
  have "fst ?r" by code_simp
  then have "?r = (True, snd ?r)" by (simp add: prod_eq_iff)
  moreover have "\<forall>(k, e) \<in> set ?es. within ''i1'' 0 (0 + CRAWLER_LEASE_TTL_MS - 1000) e"
    by (simp add: within_def CRAWLER_LEASE_TTL_MS_def)
  ultimately show ?thesis using cursor_lease_exclusive [of demo_cursor demo_cursor "''i1''" 0 "snd ?r" ?es] by simp
qed

section \<open>Fenced progress\<close>

lemma advance_columns_lease [simp]:
  "y_leaseOwner (advance_columns b t st ap now c) = y_leaseOwner c"
  "y_desiredRunning (advance_columns b t st ap now c) = y_desiredRunning c"
  "y_lastSlot (advance_columns b t st ap now c) = cp_slot b"
  "y_lastBlockHash (advance_columns b t st ap now c) = Some (cp_hash b)"
  "y_consecutiveErrors (advance_columns b t st ap now c) = 0"
  by (simp_all add: advance_columns_def Let_def split: option.split)

text \<open>
  The cursor moves and the lease is extended in one write: with an owner the advance
  succeeds exactly when that owner holds the lease of a crawler that is meant to run, and then
  points to the block with the errors cleared; otherwise it fails and changes nothing.
\<close>

theorem advance_is_fenced:
  assumes "truthy (Some ow)"
  shows "(fst (advanceCursor db block tip status applied (Some ow) now ttl)
            \<longleftrightarrow> (\<exists>c. db = Some c \<and> y_leaseOwner c = Some ow \<and> y_desiredRunning c))
    \<and> (\<not> fst (advanceCursor db block tip status applied (Some ow) now ttl)
         \<longrightarrow> snd (advanceCursor db block tip status applied (Some ow) now ttl) = db)
    \<and> (fst (advanceCursor db block tip status applied (Some ow) now ttl) \<longrightarrow>
         (\<exists>c. snd (advanceCursor db block tip status applied (Some ow) now ttl) = Some c
            \<and> y_lastSlot c = cp_slot block \<and> y_lastBlockHash c = Some (cp_hash block)
            \<and> y_consecutiveErrors c = 0 \<and> y_leaseOwner c = Some ow \<and> y_leaseUntil c = Some (now + ttl)))"
  using assms
  by (cases db) (auto simp: advanceCursor_def Let_def update_cursor_def readCursor_def leaseDeadlineReached_def deadline_ok_def)

theorem advance_is_fenced_witness:
  "advanceCursor demo_cursor \<lparr>cp_slot = 5, cp_hash = ''b'', cp_height = Some 1\<rparr> None Syncing None (Some ''i1'') 7 100
     = (False, demo_cursor)"
proof -
  let ?r = "advanceCursor demo_cursor \<lparr>cp_slot = 5, cp_hash = ''b'', cp_height = Some 1\<rparr> None Syncing None (Some ''i1'') 7 100"
  have t: "truthy (Some ''i1'')" by (simp add: truthy_def)
  have "\<not> fst ?r" by code_simp
  with advance_is_fenced [OF t, of demo_cursor "\<lparr>cp_slot = 5, cp_hash = ''b'', cp_height = Some 1\<rparr>" None Syncing None 7 100]
  show ?thesis by (simp add: prod_eq_iff)
qed

section \<open>Errors and the poison latch\<close>

datatype cursor_op =
    CEnsure string "CrawlPoint option"
  | CLease lease_kind lease_event
  | CRelease string CrawlSyncStatus bool
  | CDesired bool
  | CLatch string time
  | CAdvance CrawlPoint "tip_info option" CrawlSyncStatus "int option" "string option" time
  | CUtxo utxo_patch
  | CReset CrawlPoint time
  | CStatus CrawlSyncStatus bool
  | CError string "string option" time

text \<open>An operation with the success it reports.\<close>

fun cursor_step :: "sdb \<Rightarrow> cursor_op \<Rightarrow> bool \<times> sdb" where
  "cursor_step db (CEnsure n p) = (True, snd (ensureSyncStateSingleton db n p))"
| "cursor_step db (CLease k e) = cursor_event k db e"
| "cursor_step db (CRelease ow st p) = (True, releaseCrawlerLease db ow st p)"
| "cursor_step db (CDesired d) = (True, setCrawlerDesiredRunning db d)"
| "cursor_step db (CLatch m now) = (True, latchPoisonBlock db m now)"
| "cursor_step db (CAdvance b t st ap ow now) = advanceCursor db b t st ap ow now CRAWLER_LEASE_TTL_MS"
| "cursor_step db (CUtxo p) = (True, setUtxoSetState db p)"
| "cursor_step db (CReset p now) = (True, resetCursorTo db p now)"
| "cursor_step db (CStatus st p) = (True, setSyncStatus db st p)"
| "cursor_step db (CError m ow now) = (let (n, db') = recordError db m ow now in (n \<noteq> -1, db'))"

fun cursor_steps :: "sdb \<Rightarrow> cursor_op list \<Rightarrow> (cursor_op \<times> bool) list \<times> sdb" where
  "cursor_steps db [] = ([], db)"
| "cursor_steps db (x # xs) =
     (let (ok, db1) = cursor_step db x; (log, db2) = cursor_steps db1 xs in ((x, ok) # log, db2))"

definition latched :: "sdb \<Rightarrow> bool" where
  "latched db = (case db of None \<Rightarrow> False | Some c \<Rightarrow> \<not> y_desiredRunning c)"

text \<open>What only a leading crawler does: acquire or renew its lease, or write under it.\<close>

fun leads :: "cursor_op \<Rightarrow> bool" where
  "leads (CLease CrawlerLease (Acquire ow now)) = True"
| "leads (CLease CrawlerLease (Renew ow now)) = True"
| "leads (CAdvance b t st ap ow now) = truthy ow"
| "leads (CError m ow now) = truthy ow"
| "leads _ = False"

lemma latched_lease: "latched db \<Longrightarrow> latched (snd (cursor_event k db e)) \<and> (leads (CLease k e) \<longrightarrow> \<not> fst (cursor_event k db e))"
  by (cases db; cases k; cases e) (auto simp: latched_def lease_rows take_lease_def Let_def)

lemma latched_advance: "latched db \<Longrightarrow>
    latched (snd (advanceCursor db b t st ap ow now ttl)) \<and> (truthy ow \<longrightarrow> \<not> fst (advanceCursor db b t st ap ow now ttl))"
  by (cases db) (auto simp: latched_def advanceCursor_def update_cursor_def Let_def readCursor_def leaseDeadlineReached_def)

lemma latched_error: "latched db \<Longrightarrow> latched (snd (recordError db m ow now)) \<and> (truthy ow \<longrightarrow> fst (recordError db m ow now) = -1)"
  by (cases db) (auto simp: latched_def recordError_def update_cursor_def Let_def renew_crawler_row)

lemma latched_step:
  assumes "latched db" "x \<noteq> CDesired True"
  shows "latched (snd (cursor_step db x)) \<and> (leads x \<longrightarrow> \<not> fst (cursor_step db x))"
proof (cases x)
  case (CLease k e)
  with latched_lease [OF assms(1), of k e] show ?thesis by simp
next
  case (CAdvance b t st ap ow now)
  with latched_advance [OF assms(1), of b t st ap ow now CRAWLER_LEASE_TTL_MS] show ?thesis by simp
next
  case (CError m ow now)
  with latched_error [OF assms(1), of m ow now] show ?thesis by (auto split: prod.splits)
qed (use assms in \<open>auto simp: latched_def ensureSyncStateSingleton_def release_row setCrawlerDesiredRunning_def
      latchPoisonBlock_def setUtxoSetState_def resetCursorTo_def setSyncStatus_def update_cursor_def Let_def
      split: option.splits\<close>)

lemma latched_steps:
  assumes "latched db" "CDesired True \<notin> set xs"
  shows "latched (snd (cursor_steps db xs)) \<and> (\<forall>x. leads x \<longrightarrow> (x, True) \<notin> set (fst (cursor_steps db xs)))"
  using assms
proof (induction xs arbitrary: db)
  case (Cons x xs)
  obtain ok db1 where step: "cursor_step db x = (ok, db1)" by (cases "cursor_step db x")
  obtain log db2 where rest: "cursor_steps db1 xs = (log, db2)" by (cases "cursor_steps db1 xs")
  from latched_step [OF Cons.prems(1), of x] Cons.prems(2) step have "latched db1" "leads x \<longrightarrow> \<not> ok" by auto
  with Cons.IH [of db1] Cons.prems(2) show ?case by (auto simp: step rest)
qed simp

text \<open>
  After a poison block the crawler stays down on every instance: until someone sets it to
  run again, no crawler acquires or renews the lease or writes under it, whatever other
  operations run.
\<close>

theorem poison_latch_holds:
  assumes "CDesired True \<notin> set xs" "leads x"
  shows "(x, True) \<notin> set (fst (cursor_steps (latchPoisonBlock (Some c) m now) xs))"
proof -
  have "latched (latchPoisonBlock (Some c) m now)" by (simp add: latched_def latchPoisonBlock_def update_cursor_def)
  from latched_steps [OF this assms(1)] assms(2) show ?thesis by blast
qed

theorem poison_latch_holds_witness:
  "(CLease CrawlerLease (Acquire ''i1'' 50), True) \<notin> set (fst (cursor_steps
     (latchPoisonBlock demo_cursor ''bad block'' 1) [CError ''x'' None 2, CStatus Synced False, CLease CrawlerLease (Acquire ''i1'' 50)]))"
proof -
  obtain c where "demo_cursor = Some c" by (simp add: demo_cursor_def ensureSyncStateSingleton_def Let_def)
  with poison_latch_holds [of "[CError ''x'' None 2, CStatus Synced False, CLease CrawlerLease (Acquire ''i1'' 50)]"
      "CLease CrawlerLease (Acquire ''i1'' 50)" c "''bad block''" 1]
  show ?thesis by simp
qed

definition record_errors :: "nat \<Rightarrow> string \<Rightarrow> time \<Rightarrow> sdb \<Rightarrow> sdb" where
  "record_errors n m now db = ((\<lambda>d. snd (recordError d m None now)) ^^ n) db"

text \<open>
  The error streak counts back-to-back failures: after \<open>n\<close> recorded errors it is \<open>n\<close> above
  where it stood, the status is the error status from the tenth on, and an advance clears it.
\<close>

theorem error_streak:
  assumes "db = Some c" "0 < n"
  shows "\<exists>c'. record_errors n m now db = Some c' \<and> y_consecutiveErrors c' = y_consecutiveErrors c + int n
    \<and> (y_syncStatus c' = SyncError \<longleftrightarrow> y_consecutiveErrors c + int n \<ge> 10)
    \<and> (\<forall>b t st ap now'. \<exists>c''. advanceCursor (Some c') b t st ap None now' CRAWLER_LEASE_TTL_MS = (True, Some c'')
         \<and> y_consecutiveErrors c'' = 0)"
  using assms(2)
proof (induction n)
  case (Suc n)
  have step: "snd (recordError (Some d) m None now) = Some (d\<lparr>y_consecutiveErrors := y_consecutiveErrors d + 1,
      y_lastError := Some (take 500 m), y_lastErrorAt := Some now,
      y_syncStatus := (if y_consecutiveErrors d + 1 \<ge> MAX_CONSECUTIVE_ERRORS then SyncError else Syncing)\<rparr>)" for d
    by (simp add: recordError_def truthy_def readCursor_def update_cursor_def Let_def)
  have "\<exists>d. record_errors n m now db = Some d \<and> y_consecutiveErrors d = y_consecutiveErrors c + int n"
    using Suc.IH assms(1) by (cases n) (auto simp: record_errors_def)
  then obtain d where d: "record_errors n m now db = Some d" "y_consecutiveErrors d = y_consecutiveErrors c + int n" by blast
  then have "record_errors (Suc n) m now db = snd (recordError (Some d) m None now)" by (simp add: record_errors_def)
  with d(2) step show ?case
    by (auto simp: MAX_CONSECUTIVE_ERRORS_def advanceCursor_def truthy_def update_cursor_def)
qed simp

theorem error_streak_witness:
  "map_option y_syncStatus (record_errors 10 ''down'' 3 demo_cursor) = Some SyncError"
proof -
  obtain c where c: "demo_cursor = Some c" "y_consecutiveErrors c = 0"
    by (simp add: demo_cursor_def ensureSyncStateSingleton_def Let_def)
  from error_streak [OF c(1), of 10 "''down''" 3] c(2) show ?thesis by auto
qed

end
