(* ===== verification/Collections.thy ===== *)
theory Collections imports Prelude begin

text \<open>
  The collection and chain-time helpers: \<open>srv/utils/collections.ts\<close> (splitting IN-lists),
  \<open>srv/utils/paging.ts\<close> (pages of a list) and \<open>srv/utils/epoch-slots.ts\<close> with the network
  constants of \<open>srv/utils/const.ts\<close>.
\<close>

section \<open>Chunks\<close>

datatype range_error = RangeError

definition IN_CHUNK :: nat where
  "IN_CHUNK = 500"

text \<open>The loop of \<open>chunk\<close> for a positive size.\<close>

function chunks :: "nat \<Rightarrow> 'a list \<Rightarrow> 'a list list" where
  "chunks n xs = (if xs = [] \<or> n = 0 then [] else take n xs # chunks n (drop n xs))"
  by pat_completeness auto
termination by (relation "measure (\<lambda>(n, xs). length xs)") auto

declare chunks.simps [simp del]

definition chunk :: "'a list \<Rightarrow> int \<Rightarrow> range_error + 'a list list" where
  "chunk arr sz = (if sz \<le> 0 then Inl RangeError else Inr (chunks (nat sz) arr))"

lemma chunks_Nil [simp]: "chunks n [] = []"
  by (simp add: chunks.simps)

lemma concat_chunks: "0 < n \<Longrightarrow> concat (chunks n xs) = xs"
proof (induction n xs rule: chunks.induct)
  case (1 n xs)
  then show ?case by (subst chunks.simps) auto
qed

lemma chunks_length: "ys \<in> set (chunks n xs) \<Longrightarrow> 0 < length ys \<and> length ys \<le> n"
proof (induction n xs rule: chunks.induct)
  case (1 n xs)
  from "1.prems" have "\<not> (xs = [] \<or> n = 0)" by (subst (asm) chunks.simps) (auto split: if_splits)
  with "1.prems" have "ys = take n xs \<or> ys \<in> set (chunks n (drop n xs))" by (simp add: chunks.simps [of n xs])
  with "1.IH" \<open>\<not> (xs = [] \<or> n = 0)\<close> show ?case by auto
qed

text \<open>A statement that writes row by row may be split into chunks.\<close>

lemma fold_chunks: "0 < n \<Longrightarrow> fold (\<lambda>ys s. fold g ys s) (chunks n xs) s = fold g xs s"
proof (induction n xs arbitrary: s rule: chunks.induct)
  case (1 n xs)
  show ?case
  proof (cases "xs = []")
    case False
    then have "fold (\<lambda>ys s. fold g ys s) (chunks n xs) s
        = fold (\<lambda>ys s. fold g ys s) (chunks n (drop n xs)) (fold g (take n xs) s)"
      using "1.prems" by (subst chunks.simps) simp
    also have "\<dots> = fold g (drop n xs) (fold g (take n xs) s)" using 1 False by simp
    also have "\<dots> = fold g xs s" by (metis append_take_drop_id fold_append comp_apply)
    finally show ?thesis .
  qed simp
qed

section \<open>Pages\<close>

record Page =
  pg_limit :: nat
  pg_skip :: nat

definition pageOf :: "nat option \<Rightarrow> nat option \<Rightarrow> nat \<Rightarrow> Page" where
  "pageOf limit skip defaultLimit = \<lparr>pg_limit = nullish limit defaultLimit, pg_skip = nullish skip 0\<rparr>"

definition pageRows :: "'a list \<Rightarrow> Page \<Rightarrow> 'a list" where
  "pageRows rows page = take (pg_limit page) (drop (pg_skip page) rows)"

definition LATEST_WINDOW :: nat where
  "LATEST_WINDOW = 100"

text \<open>\<open>None\<close> is the rejection of a page that reaches past the window.\<close>

definition latestWindowPage :: "nat option \<Rightarrow> nat option \<Rightarrow> nat \<Rightarrow> Page option" where
  "latestWindowPage limit skip defaultLimit =
     (let page = pageOf limit skip defaultLimit
      in if pg_skip page + pg_limit page > LATEST_WINDOW then None else Some page)"

text \<open>The consecutive pages of a list.\<close>

definition page_at :: "nat \<Rightarrow> nat \<Rightarrow> Page" where
  "page_at limit k = pageOf (Some limit) (Some (k * limit)) limit"

lemma pages_take: "concat (map (\<lambda>k. pageRows rows (page_at limit k)) [0..<n]) = take (n * limit) rows"
proof (induction n)
  case (Suc n)
  have "take (Suc n * limit) rows = take (n * limit) rows @ take limit (drop (n * limit) rows)"
    by (metis add.commute mult_Suc take_add)
  with Suc show ?case by (simp add: pageRows_def page_at_def pageOf_def)
qed simp

text \<open>
  Reading page after page of a list in a fixed order returns every row exactly once, in
  order: the first \<open>n\<close> pages together are the first \<open>n * limit\<close> rows, all of them when that
  covers the list. Splitting an IN-list likewise loses and repeats nothing and no part is longer
  than asked.
\<close>

theorem pages_partition:
  assumes "length rows \<le> n * limit"
  shows "concat (map (\<lambda>k. pageRows rows (page_at limit k)) [0..<n]) = rows
    \<and> (0 < sz \<longrightarrow> (\<exists>parts. chunk rows sz = Inr parts \<and> concat parts = rows
          \<and> (\<forall>p \<in> set parts. p \<noteq> [] \<and> length p \<le> nat sz)))"
  using assms chunks_length [of _ "nat sz" rows] by (auto simp: pages_take chunk_def concat_chunks)

theorem pages_partition_witness:
  "concat (map (\<lambda>k. pageRows [10, 20, 30, 40, 50::nat] (page_at 2 k)) [0..<3]) = [10, 20, 30, 40, 50]"
  using pages_partition [of "[10, 20, 30, 40, 50::nat]" 3 2 1] by simp

section \<open>Slots, epochs and time\<close>

datatype Network = Mainnet | Preprod | Preview

record epoch_config =
  shelleyStartEpoch :: int
  shelleyStartSlot :: int
  slotsPerEpoch :: int
  securityParam :: int

definition EPOCH_CONFIG :: "Network \<Rightarrow> epoch_config" where
  "EPOCH_CONFIG n = (case n of
     Mainnet \<Rightarrow> \<lparr>shelleyStartEpoch = 208, shelleyStartSlot = 4492800, slotsPerEpoch = 432000, securityParam = 2160\<rparr>
   | Preprod \<Rightarrow> \<lparr>shelleyStartEpoch = 4, shelleyStartSlot = 86400, slotsPerEpoch = 432000, securityParam = 2160\<rparr>
   | Preview \<Rightarrow> \<lparr>shelleyStartEpoch = 0, shelleyStartSlot = 0, slotsPerEpoch = 86400, securityParam = 432\<rparr>)"

record genesis_info =
  systemStartPosixMs :: int
  slotLengthMs :: int
  startSlotNo :: int

definition GENESIS_INFOS :: "Network \<Rightarrow> genesis_info" where
  "GENESIS_INFOS n = (case n of
     Mainnet \<Rightarrow> \<lparr>systemStartPosixMs = 1596059091000, slotLengthMs = 1000, startSlotNo = 4492800\<rparr>
   | Preprod \<Rightarrow> \<lparr>systemStartPosixMs = 1655683200000, slotLengthMs = 1000, startSlotNo = 0\<rparr>
   | Preview \<Rightarrow> \<lparr>systemStartPosixMs = 1666656000000, slotLengthMs = 1000, startSlotNo = 0\<rparr>)"

definition epochOfSlot :: "Network \<Rightarrow> int \<Rightarrow> int" where
  "epochOfSlot network slot = (let cfg = EPOCH_CONFIG network in
     shelleyStartEpoch cfg + (slot - shelleyStartSlot cfg) div slotsPerEpoch cfg)"

definition epochStartSlot :: "Network \<Rightarrow> int \<Rightarrow> int" where
  "epochStartSlot network epoch = (let cfg = EPOCH_CONFIG network in
     shelleyStartSlot cfg + (epoch - shelleyStartEpoch cfg) * slotsPerEpoch cfg)"

definition slotToPosixMs :: "Network \<Rightarrow> int \<Rightarrow> int" where
  "slotToPosixMs network slot = (let genesis = GENESIS_INFOS network in
     systemStartPosixMs genesis + (slot - startSlotNo genesis) * slotLengthMs genesis)"

definition slotToPosixSeconds :: "Network \<Rightarrow> int \<Rightarrow> int" where
  "slotToPosixSeconds network slot = slotToPosixMs network slot div 1000"

definition posixToSlot :: "Network \<Rightarrow> int \<Rightarrow> range_error + int" where
  "posixToSlot network posixMs =
     (let genesis = GENESIS_INFOS network;
          shelleyStartMs = slotToPosixMs network (shelleyStartSlot (EPOCH_CONFIG network))
      in if posixMs < shelleyStartMs then Inl RangeError
         else Inr (startSlotNo genesis + (posixMs - systemStartPosixMs genesis) div slotLengthMs genesis))"

lemmas chain_time_defs = epochOfSlot_def epochStartSlot_def slotToPosixMs_def slotToPosixSeconds_def posixToSlot_def
  EPOCH_CONFIG_def GENESIS_INFOS_def Let_def

lemma slots_positive: "0 < slotsPerEpoch (EPOCH_CONFIG n)" "slotLengthMs (GENESIS_INFOS n) = 1000"
  by (cases n; simp add: EPOCH_CONFIG_def GENESIS_INFOS_def)+

lemma epoch_bounds: "epochStartSlot n (epochOfSlot n s) \<le> s \<and> s < epochStartSlot n (epochOfSlot n s + 1)"
proof -
  let ?d = "s - shelleyStartSlot (EPOCH_CONFIG n)" and ?k = "slotsPerEpoch (EPOCH_CONFIG n)"
  have "?d div ?k * ?k \<le> ?d" "?d < (?d div ?k + 1) * ?k"
    using slots_positive(1) [of n] by (simp_all add: minus_mod_eq_div_mult [symmetric] distrib_right)
  then show ?thesis by (simp add: epochOfSlot_def epochStartSlot_def Let_def distrib_right)
qed

text \<open>
  Slots, epochs and times agree on every network: the slot of the time of a slot is that slot
  from the Shelley start on, and the time of a slot is its first millisecond; a slot lies between
  the first slot of its epoch and that of the next; the first slot of an epoch is in that epoch.
\<close>

theorem slot_time_roundtrip:
  "(shelleyStartSlot (EPOCH_CONFIG n) \<le> s \<longrightarrow> posixToSlot n (slotToPosixMs n s) = Inr s)
   \<and> (posixToSlot n t = Inr s \<longrightarrow> slotToPosixMs n s \<le> t \<and> t < slotToPosixMs n (s + 1))
   \<and> epochStartSlot n (epochOfSlot n s) \<le> s \<and> s < epochStartSlot n (epochOfSlot n s + 1)
   \<and> epochOfSlot n (epochStartSlot n e) = e"
proof -
  have 1: "shelleyStartSlot (EPOCH_CONFIG n) \<le> s \<Longrightarrow> posixToSlot n (slotToPosixMs n s) = Inr s"
    by (cases n) (simp_all add: chain_time_defs)
  have 2: "posixToSlot n t = Inr s \<Longrightarrow> slotToPosixMs n s \<le> t \<and> t < slotToPosixMs n (s + 1)"
    using slots_positive(2) [of n]
    by (auto simp: posixToSlot_def slotToPosixMs_def Let_def split: if_splits)
  have 3: "epochOfSlot n (epochStartSlot n e) = e"
    using slots_positive(1) [of n] by (simp add: epochOfSlot_def epochStartSlot_def Let_def)
  show ?thesis using 1 2 3 epoch_bounds by blast
qed

theorem slot_time_roundtrip_witness:
  "posixToSlot Preprod (slotToPosixMs Preprod 90000000) = Inr 90000000"
  using slot_time_roundtrip [of Preprod 90000000 0 0] by (simp add: EPOCH_CONFIG_def)

end
