(* ===== verification/LedgerState.thy ===== *)
theory LedgerState imports Collections begin

text \<open>
  The crawler-fed ledger of \<open>srv/blockchain/ledger-state.ts\<close>: the UTxO set after an imported
  snapshot with running sums per address and stake key. Amounts are exact integers (the code
  keeps them as decimal strings of bigints). \<open>decode\<close> is \<open>decodeShelleyAddress\<close>; a provider
  transaction carries the fields the ledger reads.
\<close>

section \<open>Transactions and rows\<close>

record Amount =
  am_unit :: string
  am_quantity :: int

record TxOutputLine =
  o_outputIndex :: nat
  o_address :: string
  o_amount :: "Amount list"
  o_isCollateral :: bool
  o_dataHash :: "string option"
  o_inlineDatum :: "string option"
  o_referenceScriptHash :: "string option"
  o_referenceScriptSize :: "int option"
  o_referenceScriptType :: "string option"

record TxInputLine =
  i_txHash :: string
  i_outputIndex :: nat
  i_isReference :: bool
  i_isCollateral :: bool

record ProviderTransaction =
  p_hash :: string
  p_inputs :: "TxInputLine list"
  p_outputs :: "TxOutputLine list"
  p_spendsCollaterals :: bool

record DecodedAddress =
  da_type :: string
  da_isScript :: bool
  da_stakeAddress :: "string option"
  da_paymentCredential :: "string option"

record LedgerUtxoRow =
  u_txHash :: string
  u_outputIndex :: nat
  u_address :: string
  u_stakeAddress :: "string option"
  u_addressType :: string
  u_isScript :: bool
  u_lovelace :: int
  u_createdSlot :: "int option"
  u_spentTxHash :: "string option"
  u_spentSlot :: "int option"
  u_dataHash :: "string option"
  u_inlineDatum :: "string option"
  u_referenceScriptHash :: "string option"
  u_referenceScriptSize :: "int option"
  u_referenceScriptType :: "string option"
  u_paymentCredential :: "string option"
  u_hasAssets :: bool

record LedgerUtxoAssetRow =
  ua_txHash :: string
  ua_outputIndex :: nat
  ua_unit :: string
  ua_quantity :: int
  ua_policyId :: "string option"
  ua_assetNameHex :: string
  ua_assetName :: "string option"

record LedgerAddress =
  la_address :: string
  la_stakeAddress :: "string option"
  la_paymentCredential :: "string option"
  la_addressType :: string
  la_isScript :: bool
  la_totalLovelace :: int
  la_utxoCount :: int
  la_firstSeenSlot :: "int option"
  la_lastActiveSlot :: "int option"

record LedgerAddressAsset =
  aa_address :: string
  aa_unit :: string
  aa_quantity :: int
  aa_policyId :: "string option"
  aa_assetNameHex :: string
  aa_assetName :: "string option"

record LedgerAccount =
  ac_stakeAddress :: string
  ac_controlledAmount :: int
  ac_addressCount :: int
  ac_utxoCount :: int
  ac_lastActiveSlot :: "int option"

record ldb =
  utxos :: "LedgerUtxoRow list"
  uassets :: "LedgerUtxoAssetRow list"
  laddrs :: "LedgerAddress list"
  laassets :: "LedgerAddressAsset list"
  laccounts :: "LedgerAccount list"

type_synonym decoder = "string \<Rightarrow> DecodedAddress"

section \<open>Building rows\<close>

definition lovelaceOf :: "Amount list \<Rightarrow> int" where
  "lovelaceOf amount = (case find (\<lambda>a. am_unit a = ''lovelace'') amount of None \<Rightarrow> 0 | Some a \<Rightarrow> am_quantity a)"

definition nativeAssets :: "Amount list \<Rightarrow> Amount list" where
  "nativeAssets amount = filter (\<lambda>a. am_unit a \<noteq> ''lovelace'' \<and> am_quantity a \<noteq> 0) amount"

definition hex_digit :: "char \<Rightarrow> nat option" where
  "hex_digit c = (let n = (of_char c :: nat) in
     if 48 \<le> n \<and> n \<le> 57 then Some (n - 48)
     else if 97 \<le> n \<and> n \<le> 102 then Some (n - 87)
     else if 65 \<le> n \<and> n \<le> 70 then Some (n - 55) else None)"

text \<open>\<open>Buffer.from(hex, 'hex')\<close> stops at the first pair that is not hex.\<close>

fun hex_bytes :: "string \<Rightarrow> nat list" where
  "hex_bytes (a # b # cs) =
     (case (hex_digit a, hex_digit b) of (Some x, Some y) \<Rightarrow> (16 * x + y) # hex_bytes cs | _ \<Rightarrow> [])"
| "hex_bytes _ = []"

definition decodeAssetName :: "string \<Rightarrow> string option" where
  "decodeAssetName hex =
     (if hex = [] then None
      else (let bytes = hex_bytes hex
            in if list_all (\<lambda>b. 32 \<le> b \<and> b \<le> 126) bytes then Some (map char_of bytes) else None))"

definition unit_policy :: "string \<Rightarrow> string option" where
  "unit_policy u = (if length u \<ge> 56 then Some (take 56 u) else None)"

definition unit_name_hex :: "string \<Rightarrow> string" where
  "unit_name_hex u = (if length u > 56 then drop 56 u else [])"

definition unit_name :: "string \<Rightarrow> string option" where
  "unit_name u = (if length u > 56 then decodeAssetName (drop 56 u) else None)"

definition orNull :: "string option \<Rightarrow> string option" where
  "orNull v = (if truthy v then v else None)"

definition buildLedgerUtxoRows ::
  "decoder \<Rightarrow> string \<Rightarrow> TxOutputLine \<Rightarrow> int option \<Rightarrow> LedgerUtxoRow \<times> LedgerUtxoAssetRow list" where
  "buildLedgerUtxoRows decode txHash out createdSlot =
     (let decoded = decode (o_address out);
          assets = map (\<lambda>a. \<lparr>ua_txHash = txHash, ua_outputIndex = o_outputIndex out, ua_unit = am_unit a,
                      ua_quantity = am_quantity a, ua_policyId = unit_policy (am_unit a),
                      ua_assetNameHex = unit_name_hex (am_unit a), ua_assetName = unit_name (am_unit a)\<rparr>)
                    (nativeAssets (o_amount out))
      in (\<lparr>u_txHash = txHash, u_outputIndex = o_outputIndex out, u_address = o_address out,
           u_stakeAddress = da_stakeAddress decoded, u_addressType = da_type decoded,
           u_isScript = da_isScript decoded, u_lovelace = lovelaceOf (o_amount out),
           u_createdSlot = createdSlot, u_spentTxHash = None, u_spentSlot = None,
           u_dataHash = orNull (o_dataHash out), u_inlineDatum = orNull (o_inlineDatum out),
           u_referenceScriptHash = orNull (o_referenceScriptHash out),
           u_referenceScriptSize = o_referenceScriptSize out,
           u_referenceScriptType = o_referenceScriptType out,
           u_paymentCredential = da_paymentCredential decoded, u_hasAssets = (assets \<noteq> [])\<rparr>, assets))"

definition producedOutputs :: "ProviderTransaction \<Rightarrow> TxOutputLine list" where
  "producedOutputs t = filter (\<lambda>x. if p_spendsCollaterals t then o_isCollateral x else \<not> o_isCollateral x) (p_outputs t)"

definition consumedInputs :: "ProviderTransaction \<Rightarrow> (string \<times> nat) list" where
  "consumedInputs t =
     map (\<lambda>i. (i_txHash i, i_outputIndex i))
       (filter (\<lambda>i. if p_spendsCollaterals t then i_isCollateral i else \<not> i_isReference i \<and> \<not> i_isCollateral i)
         (p_inputs t))"

section \<open>Deltas\<close>

record AddressDelta =
  dl_lovelace :: int
  dl_utxos :: int
  dl_assets :: "(string, int) jmap"
  dl_stakeAddress :: "string option"
  dl_addressType :: string
  dl_isScript :: bool

definition freshDelta :: "LedgerUtxoRow \<Rightarrow> AddressDelta" where
  "freshDelta row = \<lparr>dl_lovelace = 0, dl_utxos = 0, dl_assets = [], dl_stakeAddress = u_stakeAddress row,
     dl_addressType = u_addressType row, dl_isScript = u_isScript row\<rparr>"

definition applyDelta :: "AddressDelta \<Rightarrow> LedgerUtxoRow \<Rightarrow> LedgerUtxoAssetRow list \<Rightarrow> int \<Rightarrow> AddressDelta" where
  "applyDelta d row assets sign =
     d\<lparr>dl_lovelace := dl_lovelace d + sign * u_lovelace row, dl_utxos := dl_utxos d + sign,
       dl_assets := fold (\<lambda>a m. if ua_unit a = [] then m
           else mput m (ua_unit a) (nullish (mget m (ua_unit a)) 0 + sign * ua_quantity a)) assets (dl_assets d)\<rparr>"

text \<open>\<open>deltaFor\<close> and \<open>applyDelta\<close> on the entry it returns.\<close>

definition addDelta ::
  "LedgerUtxoRow \<Rightarrow> LedgerUtxoAssetRow list \<Rightarrow> int \<Rightarrow> (string, AddressDelta) jmap \<Rightarrow> (string, AddressDelta) jmap" where
  "addDelta row assets sign m =
     mput m (u_address row) (applyDelta (nullish (mget m (u_address row)) (freshDelta row)) row assets sign)"

section \<open>Reading\<close>

record LedgerLookup =
  lk_hashes :: "string list"
  lk_rows :: "(string, LedgerUtxoRow) jmap"
  lk_assets :: "(string, LedgerUtxoAssetRow list) jmap"

definition emptyLookup :: LedgerLookup where
  "emptyLookup = \<lparr>lk_hashes = [], lk_rows = [], lk_assets = []\<rparr>"

definition u_key :: "LedgerUtxoRow \<Rightarrow> string" where
  "u_key r = outpoint (u_txHash r) (u_outputIndex r)"

definition ua_key :: "LedgerUtxoAssetRow \<Rightarrow> string" where
  "ua_key a = outpoint (ua_txHash a) (ua_outputIndex a)"

definition readChunk :: "ldb \<Rightarrow> string list \<Rightarrow> LedgerLookup \<Rightarrow> LedgerLookup" where
  "readChunk db hashChunk lk =
     (let rows = filter (\<lambda>r. u_txHash r \<in> set hashChunk) (utxos db);
          withAssets = jset (map u_txHash (filter u_hasAssets rows));
          assets = (if withAssets = [] then [] else filter (\<lambda>a. ua_txHash a \<in> set withAssets) (uassets db))
      in \<lparr>lk_hashes = lk_hashes lk @ hashChunk,
          lk_rows = fold (\<lambda>r m. mput m (u_key r) r) rows (lk_rows lk),
          lk_assets = fold (\<lambda>a m. mput m (ua_key a) (nullish (mget m (ua_key a)) [] @ [a])) assets (lk_assets lk)\<rparr>)"

definition readLedgerOutputs :: "ldb \<Rightarrow> string list \<Rightarrow> LedgerLookup \<Rightarrow> LedgerLookup" where
  "readLedgerOutputs db txHashes into =
     (let todo = filter (\<lambda>h. h \<notin> set (lk_hashes into)) (jset txHashes)
      in fold (readChunk db) (chunks IN_CHUNK todo) into)"

definition ledgerRowAmount :: "LedgerUtxoRow \<Rightarrow> LedgerUtxoAssetRow list \<Rightarrow> Amount list" where
  "ledgerRowAmount row assets =
     \<lparr>am_unit = ''lovelace'', am_quantity = u_lovelace row\<rparr>
       # map (\<lambda>a. \<lparr>am_unit = ua_unit a, am_quantity = ua_quantity a\<rparr>) assets"

section \<open>Applying a block\<close>

type_synonym created_map = "(string, LedgerUtxoRow \<times> LedgerUtxoAssetRow list) jmap"

record spend =
  s_key :: string
  s_txHash :: string
  s_outputIndex :: nat
  s_spender :: string

definition createdOf :: "decoder \<Rightarrow> int \<Rightarrow> ProviderTransaction list \<Rightarrow> created_map" where
  "createdOf decode slot txs =
     fold (\<lambda>(h, out) m. mput m (outpoint h (o_outputIndex out)) (buildLedgerUtxoRows decode h out (Some slot)))
       (concat (map (\<lambda>t. map (Pair (p_hash t)) (producedOutputs t)) txs)) []"

text \<open>One consumed input: an output of the same block is marked, any other is looked up.\<close>

definition consumeOne :: "int \<Rightarrow> string \<times> string \<times> nat \<Rightarrow> created_map \<times> string list \<times> spend list \<Rightarrow> created_map \<times> string list \<times> spend list" where
  "consumeOne slot inp st =
     (case (inp, st) of ((spender, h, i), (created, inBlock, lookups)) \<Rightarrow>
        (let key = outpoint h i
         in case mget created key of
              Some (row, assets) \<Rightarrow>
                (mput created key (row\<lparr>u_spentTxHash := Some spender, u_spentSlot := Some slot\<rparr>, assets),
                 (if key \<in> set inBlock then inBlock else inBlock @ [key]), lookups)
            | None \<Rightarrow> (created, inBlock, lookups @ [\<lparr>s_key = key, s_txHash = h, s_outputIndex = i, s_spender = spender\<rparr>])))"

definition blockInputs :: "ProviderTransaction list \<Rightarrow> (string \<times> string \<times> nat) list" where
  "blockInputs txs = concat (map (\<lambda>t. map (\<lambda>(h, i). (p_hash t, h, i)) (consumedInputs t)) txs)"

definition resolveSpends :: "int \<Rightarrow> (string, LedgerUtxoRow) jmap \<Rightarrow> spend list \<Rightarrow> LedgerUtxoRow list \<times> nat" where
  "resolveSpends slot rows lookups =
     fold (\<lambda>l (spent, missing).
       case mget rows (s_key l) of
         None \<Rightarrow> (spent, missing + 1)
       | Some row \<Rightarrow>
           if truthy (u_spentTxHash row) then (spent, missing + 1)
           else (spent @ [row\<lparr>u_spentTxHash := Some (s_spender l), u_spentSlot := Some slot\<rparr>], missing))
       lookups ([], 0)"

definition blockDeltas ::
  "created_map \<Rightarrow> string list \<Rightarrow> LedgerUtxoRow list \<Rightarrow> (string, LedgerUtxoAssetRow list) jmap \<Rightarrow> (string, AddressDelta) jmap" where
  "blockDeltas created inBlock spentRows dbAssets =
     fold (\<lambda>row. addDelta row (nullish (mget dbAssets (u_key row)) []) (-1)) spentRows
       (fold (\<lambda>(key, (row, assets)) m.
          let m1 = addDelta row assets 1 m in if key \<in> set inBlock then addDelta row assets (-1) m1 else m1)
        created [])"

definition put_utxo :: "LedgerUtxoRow \<Rightarrow> ldb \<Rightarrow> ldb" where
  "put_utxo r db = db\<lparr>utxos := upsert (\<lambda>r. (u_txHash r, u_outputIndex r)) r (utxos db)\<rparr>"

definition put_uasset :: "LedgerUtxoAssetRow \<Rightarrow> ldb \<Rightarrow> ldb" where
  "put_uasset a db = db\<lparr>uassets := upsert (\<lambda>a. (ua_txHash a, ua_outputIndex a, ua_unit a)) a (uassets db)\<rparr>"

definition put_laddr :: "LedgerAddress \<Rightarrow> ldb \<Rightarrow> ldb" where
  "put_laddr r db = db\<lparr>laddrs := upsert la_address r (laddrs db)\<rparr>"

definition put_laasset :: "LedgerAddressAsset \<Rightarrow> ldb \<Rightarrow> ldb" where
  "put_laasset r db = db\<lparr>laassets := upsert (\<lambda>r. (aa_address r, aa_unit r)) r (laassets db)\<rparr>"

definition put_laccount :: "LedgerAccount \<Rightarrow> ldb \<Rightarrow> ldb" where
  "put_laccount r db = db\<lparr>laccounts := upsert ac_stakeAddress r (laccounts db)\<rparr>"

text \<open>An UPSERT of many rows, split into statements of at most \<open>IN_CHUNK\<close> rows.\<close>

definition in_chunks :: "('r \<Rightarrow> 's \<Rightarrow> 's) \<Rightarrow> 'r list \<Rightarrow> 's \<Rightarrow> 's" where
  "in_chunks put rows db = fold (\<lambda>part. fold put part) (chunks IN_CHUNK rows) db"

definition get_laddr :: "ldb \<Rightarrow> string \<Rightarrow> LedgerAddress option" where
  "get_laddr db a = find_row la_address a (laddrs db)"

record StakeDelta =
  sd_lovelace :: int
  sd_utxos :: int
  sd_newAddresses :: int

definition addressRow :: "decoder \<Rightarrow> int \<Rightarrow> LedgerAddress option \<Rightarrow> AddressDelta \<Rightarrow> string \<Rightarrow> LedgerAddress" where
  "addressRow decode slot prev d address =
     \<lparr>la_address = address,
      la_stakeAddress = orElse (Option.bind prev la_stakeAddress) (dl_stakeAddress d),
      la_paymentCredential = da_paymentCredential (decode address),
      la_addressType = nullish (map_option la_addressType prev) (dl_addressType d),
      la_isScript = nullish (map_option la_isScript prev) (dl_isScript d),
      la_totalLovelace = nullish (map_option la_totalLovelace prev) 0 + dl_lovelace d,
      la_utxoCount = nullish (map_option la_utxoCount prev) 0 + dl_utxos d,
      la_firstSeenSlot = (case prev of None \<Rightarrow> Some slot | Some p \<Rightarrow> la_firstSeenSlot p),
      la_lastActiveSlot = Some slot\<rparr>"

definition addressAsset :: "string \<Rightarrow> string \<Rightarrow> int \<Rightarrow> LedgerAddressAsset" where
  "addressAsset address u q = \<lparr>aa_address = address, aa_unit = u, aa_quantity = q, aa_policyId = unit_policy u,
     aa_assetNameHex = unit_name_hex u, aa_assetName = unit_name u\<rparr>"

definition stakeStep :: "LedgerAddress option \<Rightarrow> AddressDelta \<Rightarrow> (string, StakeDelta) jmap \<Rightarrow> (string, StakeDelta) jmap" where
  "stakeStep prev d stakes =
     (let stake = orElse (Option.bind prev la_stakeAddress) (dl_stakeAddress d)
      in if truthy stake
         then (let s = nullish (mget stakes (the stake)) \<lparr>sd_lovelace = 0, sd_utxos = 0, sd_newAddresses = 0\<rparr>
               in mput stakes (the stake)
                    \<lparr>sd_lovelace = sd_lovelace s + dl_lovelace d, sd_utxos = sd_utxos s + dl_utxos d,
                     sd_newAddresses = sd_newAddresses s + (if prev = None then 1 else 0)\<rparr>)
         else stakes)"

text \<open>The new quantity of a unit at an address: a row, a delete or nothing.\<close>

definition assetWrites :: "ldb \<Rightarrow> string \<Rightarrow> AddressDelta \<Rightarrow> LedgerAddressAsset list \<times> (string \<times> string) list" where
  "assetWrites db address d =
     fold (\<lambda>(u, delta) (rows, dels).
       if delta = 0 then (rows, dels)
       else
         (let old = find_row (\<lambda>r. (aa_address r, aa_unit r)) (address, u) (laassets db);
              next_q = nullish (map_option aa_quantity old) 0 + delta
          in if next_q = 0 then (rows, if old \<noteq> None then dels @ [(address, u)] else dels)
             else (rows @ [addressAsset address u next_q], dels)))
       (dl_assets d) ([], [])"

definition writeAddresses ::
  "decoder \<Rightarrow> int \<Rightarrow> (string, AddressDelta) jmap \<Rightarrow> string list \<Rightarrow> ldb \<times> (string, StakeDelta) jmap \<Rightarrow> ldb \<times> (string, StakeDelta) jmap" where
  "writeAddresses decode slot deltas addrChunk st =
     (case st of (db, stakes) \<Rightarrow>
        (let delta = (\<lambda>a. the (mget deltas a));
             addressRows = map (\<lambda>a. addressRow decode slot (get_laddr db a) (delta a) a) addrChunk;
             writes = map (\<lambda>a. assetWrites db a (delta a)) addrChunk;
             db1 = in_chunks put_laddr addressRows db;
             db2 = in_chunks put_laasset (concat (map fst writes)) db1;
             db3 = fold (\<lambda>(a, u) db. db\<lparr>laassets := delete_where (\<lambda>r. aa_address r = a \<and> aa_unit r = u) (laassets db)\<rparr>)
                     (concat (map snd writes)) db2
         in (db3, fold (\<lambda>a. stakeStep (get_laddr db a) (delta a)) addrChunk stakes)))"

definition writeAccounts :: "int \<Rightarrow> (string, StakeDelta) jmap \<Rightarrow> string list \<Rightarrow> ldb \<Rightarrow> ldb" where
  "writeAccounts slot stakes stakeChunk db =
     fold put_laccount
       (map (\<lambda>k. let d = the (mget stakes k); prev = find_row ac_stakeAddress k (laccounts db) in
          \<lparr>ac_stakeAddress = k,
           ac_controlledAmount = nullish (map_option ac_controlledAmount prev) 0 + sd_lovelace d,
           ac_addressCount = nullish (map_option ac_addressCount prev) 0 + sd_newAddresses d,
           ac_utxoCount = nullish (map_option ac_utxoCount prev) 0 + sd_utxos d,
           ac_lastActiveSlot = Some slot\<rparr>) stakeChunk) db"

record LedgerApplyResult =
  ar_created :: nat
  ar_spent :: nat
  ar_missing :: nat
  ar_addresses :: nat

text \<open>The rows, spends and deltas of a block, and the tables after steps 4 and 5.\<close>

definition applyBlockToLedger ::
  "decoder \<Rightarrow> ldb \<Rightarrow> int \<Rightarrow> ProviderTransaction list \<Rightarrow> LedgerLookup \<Rightarrow> LedgerApplyResult \<times> ldb" where
  "applyBlockToLedger decode db slot txs lookup =
     (let (created, inBlock, lookups) = fold (consumeOne slot) (blockInputs txs) (createdOf decode slot txs, [], []);
          lk = readLedgerOutputs db (map s_txHash lookups) lookup;
          (spentRows, missing) = resolveSpends slot (lk_rows lk) lookups;
          deltas = blockDeltas created inBlock spentRows (lk_assets lk);
          db1 = in_chunks put_utxo (map fst (mvalues created)) db;
          db2 = in_chunks put_uasset (concat (map snd (mvalues created))) db1;
          db3 = in_chunks put_utxo spentRows db2;
          touched = mkeys deltas;
          (db4, stakes) = fold (writeAddresses decode slot deltas) (chunks IN_CHUNK touched) (db3, []);
          db5 = fold (writeAccounts slot stakes) (chunks IN_CHUNK (mkeys stakes)) db4
      in (\<lparr>ar_created = length created, ar_spent = length inBlock + length spentRows,
           ar_missing = missing, ar_addresses = length touched\<rparr>, db5))"

section \<open>Recounting\<close>

definition openRows :: "ldb \<Rightarrow> string \<Rightarrow> LedgerUtxoRow list" where
  "openRows db address = filter (\<lambda>r. u_address r = address \<and> u_spentTxHash r = None) (utxos db)"

definition assetSums :: "ldb \<Rightarrow> LedgerUtxoRow list \<Rightarrow> (string, int) jmap" where
  "assetSums db opn =
     (let openKeys = map u_key opn;
          withAssets = jset (map u_txHash (filter u_hasAssets opn))
      in fold (\<lambda>hashChunk m.
           fold (\<lambda>a m. if ua_key a \<in> set openKeys
                       then mput m (ua_unit a) (nullish (mget m (ua_unit a)) 0 + ua_quantity a) else m)
             (filter (\<lambda>a. ua_txHash a \<in> set hashChunk) (uassets db)) m)
         (chunks IN_CHUNK withAssets) [])"

definition recountOne :: "decoder \<Rightarrow> string \<Rightarrow> ldb \<times> string list \<Rightarrow> ldb \<times> string list" where
  "recountOne decode address st =
     (case st of (db, stakes) \<Rightarrow>
        (let opn = openRows db address;
             sums = assetSums db opn;
             prev = get_laddr db address;
             decoded = decode address;
             stakeAddress = orElse (Option.bind prev la_stakeAddress)
               (orElse (case opn of [] \<Rightarrow> None | r # _ \<Rightarrow> u_stakeAddress r) (da_stakeAddress decoded));
             row = \<lparr>la_address = address, la_stakeAddress = stakeAddress,
                    la_paymentCredential = da_paymentCredential decoded,
                    la_addressType = nullish (map_option la_addressType prev) (da_type decoded),
                    la_isScript = nullish (map_option la_isScript prev) (da_isScript decoded),
                    la_totalLovelace = sum_list (map u_lovelace opn), la_utxoCount = int (length opn),
                    la_firstSeenSlot = Option.bind prev la_firstSeenSlot,
                    la_lastActiveSlot = Option.bind prev la_lastActiveSlot\<rparr>;
             db1 = put_laddr row db;
             db2 = db1\<lparr>laassets := delete_where (\<lambda>r. aa_address r = address) (laassets db1)\<rparr>;
             db3 = in_chunks put_laasset (map (\<lambda>(u, q). addressAsset address u q) (filter (\<lambda>(u, q). q \<noteq> 0) sums)) db2
         in (db3, if truthy stakeAddress \<and> the stakeAddress \<notin> set stakes then stakes @ [the stakeAddress] else stakes)))"

definition recountAccounts :: "string list \<Rightarrow> ldb \<Rightarrow> ldb" where
  "recountAccounts stakeChunk db =
     fold put_laccount
       (map (\<lambda>k. let rs = filter (\<lambda>r. la_stakeAddress r = Some k) (laddrs db);
                     prev = find_row ac_stakeAddress k (laccounts db) in
          \<lparr>ac_stakeAddress = k, ac_controlledAmount = sum_list (map la_totalLovelace rs),
           ac_addressCount = int (length rs), ac_utxoCount = sum_list (map la_utxoCount rs),
           ac_lastActiveSlot = Option.bind prev ac_lastActiveSlot\<rparr>) stakeChunk) db"

definition recountLedgerAccounts :: "string list \<Rightarrow> ldb \<Rightarrow> ldb" where
  "recountLedgerAccounts stakeAddresses db = fold recountAccounts (chunks IN_CHUNK stakeAddresses) db"

definition recountLedgerAddresses :: "decoder \<Rightarrow> string list \<Rightarrow> ldb \<Rightarrow> ldb" where
  "recountLedgerAddresses decode addresses db =
     (let (db1, stakes) = fold (recountOne decode) addresses (db, []) in recountLedgerAccounts stakes db1)"

section \<open>Undoing\<close>

definition undoChunk :: "string list \<Rightarrow> ldb \<times> string list \<Rightarrow> ldb \<times> string list" where
  "undoChunk hashChunk st =
     (case st of (db, touched) \<Rightarrow>
        (let created = map u_address (filter (\<lambda>r. u_txHash r \<in> set hashChunk) (utxos db));
             spentBy = (\<lambda>r. case u_spentTxHash r of None \<Rightarrow> False | Some h \<Rightarrow> h \<in> set hashChunk);
             spent = map u_address (filter spentBy (utxos db))
         in (db\<lparr>uassets := delete_where (\<lambda>a. ua_txHash a \<in> set hashChunk) (uassets db),
                utxos := update_where spentBy (\<lambda>r. r\<lparr>u_spentTxHash := None, u_spentSlot := None\<rparr>)
                           (delete_where (\<lambda>r. u_txHash r \<in> set hashChunk) (utxos db))\<rparr>,
             jset (touched @ created @ spent))))"

definition undoLedgerForTransactions :: "decoder \<Rightarrow> ldb \<Rightarrow> string list \<Rightarrow> string list \<times> ldb" where
  "undoLedgerForTransactions decode db txHashes =
     (if txHashes = [] then ([], db)
      else (let (db1, addresses) = fold undoChunk (chunks IN_CHUNK txHashes) (db, [])
            in (addresses, recountLedgerAddresses decode addresses db1)))"

section \<open>Backfilling payment credentials\<close>

definition CREDENTIAL_ADDRESS_TYPES :: "string list" where
  "CREDENTIAL_ADDRESS_TYPES = [''base'', ''pointer'', ''enterprise'']"

definition credential_missing :: "LedgerAddress \<Rightarrow> bool" where
  "credential_missing r \<longleftrightarrow> la_paymentCredential r = None \<and> la_addressType r \<in> set CREDENTIAL_ADDRESS_TYPES"

text \<open>One transaction: up to \<open>chunkSize\<close> rows; the empty string marks an address without a credential.\<close>

definition fillCredential :: "decoder \<Rightarrow> string \<Rightarrow> LedgerAddress list \<Rightarrow> LedgerAddress list" where
  "fillCredential decode address =
     update_where (\<lambda>r. la_address r = address)
       (\<lambda>r. r\<lparr>la_paymentCredential := Some (nullish (da_paymentCredential (decode address)) [])\<rparr>)"

definition backfillChunk :: "decoder \<Rightarrow> nat \<Rightarrow> ldb \<Rightarrow> nat \<times> ldb" where
  "backfillChunk decode chunkSize db =
     (let rows = take chunkSize (filter credential_missing (laddrs db))
      in (length rows, db\<lparr>laddrs := fold (fillCredential decode) (map la_address rows) (laddrs db)\<rparr>))"

partial_function (option) backfillFrom :: "decoder \<Rightarrow> nat \<Rightarrow> nat \<Rightarrow> ldb \<Rightarrow> (nat \<times> ldb) option" where
  "backfillFrom decode chunkSize updated db =
     (let r = backfillChunk decode chunkSize db
      in if fst r < chunkSize then Some (updated + fst r, snd r)
         else backfillFrom decode chunkSize (updated + fst r) (snd r))"

definition backfillPaymentCredentials :: "decoder \<Rightarrow> nat \<Rightarrow> ldb \<Rightarrow> (nat \<times> ldb) option" where
  "backfillPaymentCredentials decode chunkSize db = backfillFrom decode chunkSize 0 db"

end
