(* ===== verification/LedgerSums.thy ===== *)
theory LedgerSums imports LedgerState begin

text \<open>
  What the ledger keeps: the running sums of every address are the sums of its open outputs
  (\<open>sums_ok\<close>), a block keeps them and undoing the block's transactions restores the tables of
  outputs exactly and recounts the sums. A quantity of an output (its lovelace, or one) is a
  weight; an address total is the sum of the weights of its open rows.
\<close>

section \<open>Weighted sums over a keyed table\<close>

definition wsum :: "('r \<Rightarrow> int) \<Rightarrow> 'r list \<Rightarrow> int" where
  "wsum w t = sum_list (map w t)"

lemma wsum_simps [simp]: "wsum w [] = 0" "wsum w (r # t) = w r + wsum w t" "wsum w (s @ t) = wsum w s + wsum w t"
  by (simp_all add: wsum_def)

lemma wsum_replace:
  "distinct (map kf t) \<Longrightarrow> find_row kf (kf r) t = Some r'
   \<Longrightarrow> wsum w (map (\<lambda>x. if kf x = kf r then r else x) t) = wsum w t + w r - w r'"
proof (induction t)
  case (Cons x t)
  show ?case
  proof (cases "kf x = kf r")
    case True
    have "map (\<lambda>x. if kf x = kf r then r else x) t = t"
      using Cons.prems True by (intro map_idI) (metis distinct.simps(2) image_eqI list.set_map list.simps(9))
    then show ?thesis using Cons.prems True by simp
  next
    case False
    then show ?thesis using Cons by simp
  qed
qed simp

lemma wsum_upsert:
  assumes "distinct (map kf t)"
  shows "wsum w (upsert kf r t) = wsum w t + w r - (case find_row kf (kf r) t of None \<Rightarrow> 0 | Some r' \<Rightarrow> w r')"
proof (cases "find_row kf (kf r) t")
  case None
  then have "kf r \<notin> kf ` set t" by (simp add: find_row_None_iff)
  with None show ?thesis by (simp add: upsert_def)
next
  case (Some r')
  then have "kf r \<in> kf ` set t" by (metis find_row_None_iff option.distinct(1))
  then show ?thesis using wsum_replace [OF assms Some] Some by (simp add: upsert_def)
qed

section \<open>The invariant\<close>

definition ukey :: "LedgerUtxoRow \<Rightarrow> string \<times> nat" where
  "ukey r = (u_txHash r, u_outputIndex r)"

lemma u_key_ukey: "u_key r = u_key r' \<longleftrightarrow> ukey r = ukey r'"
  by (simp add: u_key_def ukey_def outpoint_inject)

definition open_weight :: "(LedgerUtxoRow \<Rightarrow> int) \<Rightarrow> string \<Rightarrow> LedgerUtxoRow \<Rightarrow> int" where
  "open_weight q a r = (if u_address r = a \<and> u_spentTxHash r = None then q r else 0)"

definition total_of :: "ldb \<Rightarrow> string \<Rightarrow> int" where
  "total_of db a = (case get_laddr db a of None \<Rightarrow> 0 | Some r \<Rightarrow> la_totalLovelace r)"

definition count_of :: "ldb \<Rightarrow> string \<Rightarrow> int" where
  "count_of db a = (case get_laddr db a of None \<Rightarrow> 0 | Some r \<Rightarrow> la_utxoCount r)"

definition address_ok :: "ldb \<Rightarrow> string \<Rightarrow> bool" where
  "address_ok db a \<longleftrightarrow> total_of db a = sum_list (map u_lovelace (openRows db a))
     \<and> count_of db a = int (length (openRows db a))"

definition sums_ok :: "ldb \<Rightarrow> bool" where
  "sums_ok db \<longleftrightarrow> (\<forall>a. address_ok db a)"

text \<open>Keys are unique, a spent output names its spender and an open one has no spent slot.\<close>

definition utxos_wf :: "ldb \<Rightarrow> bool" where
  "utxos_wf db \<longleftrightarrow> distinct (map ukey (utxos db))
     \<and> list_all (\<lambda>r. u_spentTxHash r \<noteq> Some [] \<and> (u_spentTxHash r = None \<longrightarrow> u_spentSlot r = None)) (utxos db)"

lemma open_sum: "sum_list (map q (openRows db a)) = wsum (open_weight q a) (utxos db)"
proof -
  have "sum_list (map q (filter (\<lambda>r. u_address r = a \<and> u_spentTxHash r = None) t)) = wsum (open_weight q a) t" for t
    by (induction t) (auto simp: open_weight_def)
  then show ?thesis by (simp add: openRows_def)
qed

lemma open_count: "int (length (openRows db a)) = wsum (open_weight (\<lambda>_. 1) a) (utxos db)"
  using open_sum [of "\<lambda>_. 1" db a] by (simp add: sum_list_triv)

lemma address_ok_iff:
  "address_ok db a \<longleftrightarrow> total_of db a = wsum (open_weight u_lovelace a) (utxos db)
     \<and> count_of db a = wsum (open_weight (\<lambda>_. 1) a) (utxos db)"
  by (simp add: address_ok_def open_sum open_count)

section \<open>Writes in chunks\<close>

lemma IN_CHUNK_pos [simp]: "0 < IN_CHUNK"
  by (simp add: IN_CHUNK_def)

lemma in_chunks_fold: "in_chunks put rows db = fold put rows db"
  by (simp add: in_chunks_def fold_chunks)

lemma fold_put_utxo: "utxos (fold put_utxo rs db) = fold (upsert ukey) rs (utxos db)"
proof -
  have "(\<lambda>r. (u_txHash r, u_outputIndex r)) = ukey" by (simp add: fun_eq_iff ukey_def)
  then show ?thesis by (induction rs arbitrary: db) (simp_all add: put_utxo_def)
qed

lemma fold_put_utxo_others [simp]:
  "uassets (fold put_utxo rs db) = uassets db" "laddrs (fold put_utxo rs db) = laddrs db"
  "laassets (fold put_utxo rs db) = laassets db" "laccounts (fold put_utxo rs db) = laccounts db"
  by (induction rs arbitrary: db) (simp_all add: put_utxo_def)

lemma fold_put_uasset_others [simp]:
  "utxos (fold put_uasset rs db) = utxos db" "laddrs (fold put_uasset rs db) = laddrs db"
  "laassets (fold put_uasset rs db) = laassets db" "laccounts (fold put_uasset rs db) = laccounts db"
  by (induction rs arbitrary: db) (simp_all add: put_uasset_def)

lemma fold_put_laddr_others [simp]:
  "utxos (fold put_laddr rs db) = utxos db" "uassets (fold put_laddr rs db) = uassets db"
  "laassets (fold put_laddr rs db) = laassets db" "laccounts (fold put_laddr rs db) = laccounts db"
  by (induction rs arbitrary: db) (simp_all add: put_laddr_def)

lemma fold_put_laasset_others [simp]:
  "utxos (fold put_laasset rs db) = utxos db" "uassets (fold put_laasset rs db) = uassets db"
  "laddrs (fold put_laasset rs db) = laddrs db" "laccounts (fold put_laasset rs db) = laccounts db"
  by (induction rs arbitrary: db) (simp_all add: put_laasset_def)

lemma fold_put_laccount_others [simp]:
  "utxos (fold put_laccount rs db) = utxos db" "uassets (fold put_laccount rs db) = uassets db"
  "laddrs (fold put_laccount rs db) = laddrs db" "laassets (fold put_laccount rs db) = laassets db"
  by (induction rs arbitrary: db) (simp_all add: put_laccount_def)

lemma get_fold_put_laddr:
  "distinct ks \<Longrightarrow> (\<And>k. la_address (row k) = k)
   \<Longrightarrow> get_laddr (fold put_laddr (map row ks) db) a = (if a \<in> set ks then Some (row a) else get_laddr db a)"
proof (induction ks arbitrary: db)
  case (Cons k ks)
  have "get_laddr (put_laddr (row k) db) a = (if a = k then Some (row k) else get_laddr db a)"
    by (simp add: get_laddr_def put_laddr_def find_row_upsert Cons.prems)
  then show ?case using Cons by auto
qed simp

lemma fold_delete_laassets [simp]:
  "utxos (fold (\<lambda>(a, u) db. db\<lparr>laassets := delete_where (\<lambda>r. aa_address r = a \<and> aa_unit r = u) (laassets db)\<rparr>) ds db) = utxos db"
  "uassets (fold (\<lambda>(a, u) db. db\<lparr>laassets := delete_where (\<lambda>r. aa_address r = a \<and> aa_unit r = u) (laassets db)\<rparr>) ds db) = uassets db"
  "laddrs (fold (\<lambda>(a, u) db. db\<lparr>laassets := delete_where (\<lambda>r. aa_address r = a \<and> aa_unit r = u) (laassets db)\<rparr>) ds db) = laddrs db"
  by (induction ds arbitrary: db) auto


section \<open>The deltas of a block\<close>

definition dval :: "(AddressDelta \<Rightarrow> int) \<Rightarrow> (string, AddressDelta) jmap \<Rightarrow> string \<Rightarrow> int" where
  "dval f m a = (case mget m a of None \<Rightarrow> 0 | Some d \<Rightarrow> f d)"

lemma applyDelta_fields [simp]:
  "dl_lovelace (applyDelta d row assets s) = dl_lovelace d + s * u_lovelace row"
  "dl_utxos (applyDelta d row assets s) = dl_utxos d + s"
  by (simp_all add: applyDelta_def)

lemma freshDelta_fields [simp]: "dl_lovelace (freshDelta r) = 0" "dl_utxos (freshDelta r) = 0"
  by (simp_all add: freshDelta_def)

text \<open>A field \<open>f\<close> of the deltas that accumulates the weight \<open>q\<close> of the rows.\<close>

definition accumulates :: "(AddressDelta \<Rightarrow> int) \<Rightarrow> (LedgerUtxoRow \<Rightarrow> int) \<Rightarrow> bool" where
  "accumulates f q \<longleftrightarrow> (\<forall>d row assets s. f (applyDelta d row assets s) = f d + s * q row) \<and> (\<forall>r. f (freshDelta r) = 0)"

lemma accumulates_fields: "accumulates dl_lovelace u_lovelace" "accumulates dl_utxos (\<lambda>_. 1)"
  by (simp_all add: accumulates_def)

lemma dval_addDelta:
  "accumulates f q \<Longrightarrow> dval f (addDelta row assets s m) a = dval f m a + (if u_address row = a then s * q row else 0)"
  by (auto simp: dval_def addDelta_def accumulates_def nullish_def split: option.split)

definition at_address :: "(LedgerUtxoRow \<Rightarrow> int) \<Rightarrow> string \<Rightarrow> LedgerUtxoRow \<Rightarrow> int" where
  "at_address q a r = (if u_address r = a then q r else 0)"

lemma dval_spends:
  "accumulates f q \<Longrightarrow>
   dval f (fold (\<lambda>row. addDelta row (as row) (-1)) rows m) a = dval f m a - wsum (at_address q a) rows"
  by (induction rows arbitrary: m) (simp_all add: dval_addDelta at_address_def)

lemma dval_created:
  "accumulates f q \<Longrightarrow>
   dval f (fold (\<lambda>(key, (row, assets)) m.
      let m1 = addDelta row assets 1 m in if key \<in> set inBlock then addDelta row assets (-1) m1 else m1) created m) a
   = dval f m a + wsum (\<lambda>(key, row, _). if key \<in> set inBlock then 0 else at_address q a row) created"
proof (induction created arbitrary: m)
  case (Cons x created)
  then show ?case by (cases x) (auto simp: dval_addDelta at_address_def Let_def)
qed simp

lemma dval_blockDeltas:
  "accumulates f q \<Longrightarrow> dval f (blockDeltas created inBlock spentRows dbAssets) a
    = wsum (\<lambda>(key, row, _). if key \<in> set inBlock then 0 else at_address q a row) created
      - wsum (at_address q a) spentRows"
proof -
  assume acc: "accumulates f q"
  have nil: "dval f [] a = 0" by (simp add: dval_def)
  show ?thesis unfolding blockDeltas_def dval_spends [OF acc] dval_created [OF acc] nil by simp
qed

lemma addDelta_wf [intro]: "jmap_wf m \<Longrightarrow> jmap_wf (addDelta row assets s m)"
  by (auto simp: addDelta_def)

lemma blockDeltas_wf: "jmap_wf (blockDeltas created inBlock spentRows dbAssets)"
  unfolding blockDeltas_def
  by (rule fold_invar, rule addDelta_wf, assumption)
     (rule fold_invar, simp_all add: Let_def addDelta_wf split: prod.split)

section \<open>What a block creates and consumes\<close>

text \<open>
  While inputs are consumed: an entry of \<open>created\<close> sits under its own key, belongs to a transaction
  of the block, and is spent exactly when its key is listed; looked-up keys are not created here.
\<close>

definition entry_ok :: "string set \<Rightarrow> string list \<Rightarrow> string \<times> LedgerUtxoRow \<times> LedgerUtxoAssetRow list \<Rightarrow> bool" where
  "entry_ok H inBlock e = (case e of (k, row, assets) \<Rightarrow>
     k = u_key row \<and> u_txHash row \<in> H \<and> (\<forall>a \<in> set assets. ua_txHash a \<in> H)
     \<and> (u_spentTxHash row = None \<longleftrightarrow> k \<notin> set inBlock)
     \<and> set_option (u_spentTxHash row) \<subseteq> H
     \<and> (u_spentTxHash row = None \<longrightarrow> u_spentSlot row = None))"

definition consume_inv :: "string set \<Rightarrow> created_map \<times> string list \<times> spend list \<Rightarrow> bool" where
  "consume_inv H st = (case st of (created, inBlock, lookups) \<Rightarrow>
     jmap_wf created \<and> (\<forall>e \<in> set created. entry_ok H inBlock e)
     \<and> (\<forall>l \<in> set lookups. s_key l \<notin> fst ` set created \<and> s_spender l \<in> H))"


lemma createdOf_inv: "consume_inv (p_hash ` set txs) (createdOf decode slot txs, [], [])"
proof -
  have new: "entry_ok H [] (outpoint h (o_outputIndex out), buildLedgerUtxoRows decode h out (Some slot))"
    if "h \<in> H" for H h out
    using that by (auto simp: entry_ok_def buildLedgerUtxoRows_def u_key_def Let_def)
  have "jmap_wf (createdOf decode slot txs) \<and> (\<forall>e \<in> set (createdOf decode slot txs). entry_ok (p_hash ` set txs) [] e)"
    unfolding createdOf_def
    by (rule fold_invar) (auto simp: set_mput intro!: new)
  then show ?thesis by (simp add: consume_inv_def)
qed

lemma consumeOne_keys: "fst ` set (fst (consumeOne slot inp st)) = fst ` set (fst st)"
  by (auto simp: consumeOne_def keys_mput Let_def split: prod.split option.split dest!: mget_SomeD) force+

lemma consumeOne_inv:
  assumes "consume_inv H st" "fst inp \<in> H"
  shows "consume_inv H (consumeOne slot inp st)"
proof -
  obtain spender h i created inBlock lookups where eq: "inp = (spender, h, i)" "st = (created, inBlock, lookups)"
    by (metis prod_cases3)
  have wf: "jmap_wf created" and ok: "\<forall>e \<in> set created. entry_ok H inBlock e"
    and keys: "\<forall>l \<in> set lookups. s_key l \<notin> fst ` set created \<and> s_spender l \<in> H"
    using assms by (auto simp: consume_inv_def eq)
  show ?thesis
  proof (cases "mget created (outpoint h i)")
    case None
    then have step: "consumeOne slot inp st = (created, inBlock, lookups @ [\<lparr>s_key = outpoint h i, s_txHash = h,
        s_outputIndex = i, s_spender = spender\<rparr>])" by (simp add: consumeOne_def eq)
    from None have "outpoint h i \<notin> fst ` set created" by (simp add: mget_None_iff mkeys_def)
    with wf ok keys assms(2) show ?thesis unfolding step by (auto simp: consume_inv_def eq)
  next
    case (Some ra)
    obtain row assets where ra: "ra = (row, assets)" by (cases ra)
    with Some wf have "(outpoint h i, row, assets) \<in> set created" by (simp add: mget_iff)
    with ok have e: "entry_ok H inBlock (outpoint h i, row, assets)" and inc: "outpoint h i \<in> fst ` set created"
      by force+
    have others: "entry_ok H (if outpoint h i \<in> set inBlock then inBlock else inBlock @ [outpoint h i]) e"
      if "e \<in> set created" "fst e \<noteq> outpoint h i" for e
      using ok that by (auto simp: entry_ok_def)
    from e have new: "entry_ok H (if outpoint h i \<in> set inBlock then inBlock else inBlock @ [outpoint h i])
        (outpoint h i, row\<lparr>u_spentTxHash := Some spender, u_spentSlot := Some slot\<rparr>, assets)"
      using assms(2) eq by (auto simp: entry_ok_def u_key_def)
    have nk: "s_key l \<noteq> outpoint h i" if "l \<in> set lookups" for l using keys inc that by metis
    show ?thesis
      using wf keys new others inc nk
      by (auto simp: consume_inv_def consumeOne_def eq Some ra Let_def set_mput keys_mput insert_absorb jmap_wf_mput)
  qed
qed

lemma consume_fold_inv:
  "consume_inv H st \<Longrightarrow> fst ` set inps \<subseteq> H \<Longrightarrow> consume_inv H (fold (consumeOne slot) inps st)"
  by (rule fold_invar) (auto intro: consumeOne_inv)

text \<open>The looked-up inputs are those of no output of the block, in order.\<close>

definition lookup_of :: "string \<times> string \<times> nat \<Rightarrow> spend" where
  "lookup_of inp = (case inp of (spender, h, i) \<Rightarrow>
     \<lparr>s_key = outpoint h i, s_txHash = h, s_outputIndex = i, s_spender = spender\<rparr>)"

lemma consume_fold_lookups:
  "snd (snd (fold (consumeOne slot) inps st))
   = snd (snd st) @ map lookup_of (filter (\<lambda>(_, h, i). outpoint h i \<notin> fst ` set (fst st)) inps)"
proof (induction inps arbitrary: st)
  case (Cons inp inps)
  obtain spender h i created inBlock lookups where eq: "inp = (spender, h, i)" "st = (created, inBlock, lookups)"
    by (metis prod_cases3)
  have "snd (snd (consumeOne slot inp st)) = lookups @ (if outpoint h i \<in> fst ` set created then [] else [lookup_of inp])"
    using mhas_iff [of created "outpoint h i"]
    by (auto simp: consumeOne_def eq Let_def lookup_of_def mhas_def split: option.split)
  with Cons show ?case using consumeOne_keys [of slot inp st] by (simp add: eq)
qed simp

lemma consume_fold_keys: "fst ` set (fst (fold (consumeOne slot) inps st)) = fst ` set (fst st)"
  by (induction inps arbitrary: st) (simp_all add: consumeOne_keys)


section \<open>Resolving spends against the database\<close>

text \<open>A lookup read from these tables, and one that covers the transactions it lists.\<close>

definition lookup_sound :: "ldb \<Rightarrow> LedgerLookup \<Rightarrow> bool" where
  "lookup_sound db lk \<longleftrightarrow> (\<forall>k r. mget (lk_rows lk) k = Some r \<longrightarrow> r \<in> set (utxos db) \<and> u_key r = k)"

definition lookup_full :: "ldb \<Rightarrow> LedgerLookup \<Rightarrow> bool" where
  "lookup_full db lk \<longleftrightarrow> (\<forall>r \<in> set (utxos db). u_txHash r \<in> set (lk_hashes lk) \<longrightarrow> mget (lk_rows lk) (u_key r) = Some r)"

lemma empty_lookup_ok [simp]: "lookup_sound db emptyLookup" "lookup_full db emptyLookup"
  by (simp_all add: lookup_sound_def lookup_full_def emptyLookup_def)

lemma fold_rows_get:
  "distinct (map u_key rows) \<Longrightarrow>
   mget (fold (\<lambda>r m. mput m (u_key r) r) rows m) k
     = (case find_row u_key k rows of Some r \<Rightarrow> Some r | None \<Rightarrow> mget m k)"
proof (induction rows arbitrary: m)
  case (Cons r rows)
  then have "find_row u_key (u_key r) rows = None" by (simp add: find_row_None_iff)
  with Cons show ?case by (auto split: option.split)
qed simp

lemma distinct_u_key: "distinct (map ukey t) \<Longrightarrow> distinct (map u_key t)"
  by (auto simp: distinct_map inj_on_def u_key_ukey)

lemma readChunk_ok:
  assumes "distinct (map ukey (utxos db))" "lookup_sound db lk" "lookup_full db lk"
  shows "lookup_sound db (readChunk db hs lk) \<and> lookup_full db (readChunk db hs lk)"
proof -
  let ?rows = "filter (\<lambda>r. u_txHash r \<in> set hs) (utxos db)"
  have d: "distinct (map u_key ?rows)"
    using assms(1) by (simp add: distinct_u_key distinct_map_filter)
  have get: "mget (lk_rows (readChunk db hs lk)) k
      = (case find_row u_key k ?rows of Some r \<Rightarrow> Some r | None \<Rightarrow> mget (lk_rows lk) k)" for k
    using fold_rows_get [OF d] by (simp add: readChunk_def Let_def)
  have hashes: "lk_hashes (readChunk db hs lk) = lk_hashes lk @ hs" by (simp add: readChunk_def Let_def)
  have own: "find_row u_key (u_key r) ?rows = Some r" if "r \<in> set (utxos db)" "u_txHash r \<in> set hs" for r
    using find_row_unique [OF d] that by simp
  have miss: "find_row u_key (u_key r) ?rows = None" if "u_txHash r \<notin> set hs" for r
    using that by (auto simp: find_row_None_iff u_key_ukey ukey_def)
  have "lookup_sound db (readChunk db hs lk)"
    unfolding lookup_sound_def get
  proof (intro allI impI)
    fix k r
    assume "(case find_row u_key k ?rows of None \<Rightarrow> mget (lk_rows lk) k | Some r \<Rightarrow> Some r) = Some r"
    then consider "find_row u_key k ?rows = Some r" | "mget (lk_rows lk) k = Some r"
      by (metis option.case(1) option.case(2) option.exhaust)
    then show "r \<in> set (utxos db) \<and> u_key r = k"
    proof cases
      case 1
      then show ?thesis using find_row_SomeD [of u_key k ?rows r] by simp
    next
      case 2
      then show ?thesis using assms(2) by (simp add: lookup_sound_def)
    qed
  qed
  moreover have "lookup_full db (readChunk db hs lk)"
    unfolding lookup_full_def get hashes
  proof (intro ballI impI)
    fix r assume r: "r \<in> set (utxos db)" "u_txHash r \<in> set (lk_hashes lk @ hs)"
    show "(case find_row u_key (u_key r) ?rows of None \<Rightarrow> mget (lk_rows lk) (u_key r) | Some r \<Rightarrow> Some r) = Some r"
    proof (cases "u_txHash r \<in> set hs")
      case True
      show ?thesis unfolding own [OF r(1) True] by simp
    next
      case False
      with r assms(3) have "mget (lk_rows lk) (u_key r) = Some r" by (simp add: lookup_full_def)
      then show ?thesis unfolding miss [OF False] by simp
    qed
  qed
  ultimately show ?thesis ..
qed

lemma readLedgerOutputs_ok:
  assumes "distinct (map ukey (utxos db))" "lookup_sound db lk" "lookup_full db lk"
  shows "lookup_sound db (readLedgerOutputs db hs lk) \<and> lookup_full db (readLedgerOutputs db hs lk)"
  unfolding readLedgerOutputs_def Let_def
  by (rule fold_invar) (use assms readChunk_ok in auto)

lemma fold_readChunk_hashes: "lk_hashes (fold (readChunk db) parts lk) = lk_hashes lk @ concat parts"
  by (induction parts arbitrary: lk) (simp_all add: readChunk_def Let_def)

lemma readLedgerOutputs_covers: "set hs \<subseteq> set (lk_hashes (readLedgerOutputs db hs lk))"
  by (auto simp: readLedgerOutputs_def Let_def fold_readChunk_hashes concat_chunks)

definition open_at :: "ldb \<Rightarrow> string \<times> nat \<Rightarrow> bool" where
  "open_at db k \<longleftrightarrow> (case find_row ukey k (utxos db) of None \<Rightarrow> False | Some r \<Rightarrow> u_spentTxHash r = None)"

definition usable :: "(string, LedgerUtxoRow) jmap \<Rightarrow> spend \<Rightarrow> bool" where
  "usable rows l \<longleftrightarrow> (case mget rows (s_key l) of None \<Rightarrow> False | Some r \<Rightarrow> \<not> truthy (u_spentTxHash r))"

definition mark_spent :: "int \<Rightarrow> (string, LedgerUtxoRow) jmap \<Rightarrow> spend \<Rightarrow> LedgerUtxoRow" where
  "mark_spent slot rows l = (the (mget rows (s_key l)))\<lparr>u_spentTxHash := Some (s_spender l), u_spentSlot := Some slot\<rparr>"

lemma resolveSpends_eq:
  "resolveSpends slot rows lookups
   = (map (mark_spent slot rows) (filter (usable rows) lookups), length (filter (Not \<circ> usable rows) lookups))"
proof -
  have "fold (\<lambda>l (spent, missing).
       case mget rows (s_key l) of
         None \<Rightarrow> (spent, missing + 1)
       | Some row \<Rightarrow>
           if truthy (u_spentTxHash row) then (spent, missing + 1)
           else (spent @ [row\<lparr>u_spentTxHash := Some (s_spender l), u_spentSlot := Some slot\<rparr>], missing))
       lookups (sp, ms)
     = (sp @ map (mark_spent slot rows) (filter (usable rows) lookups), ms + length (filter (Not \<circ> usable rows) lookups))" for sp ms
    by (induction lookups arbitrary: sp ms)
       (auto simp: usable_def mark_spent_def split: option.split)
  then show ?thesis by (simp add: resolveSpends_def)
qed


section \<open>The parts of a block\<close>

definition blk_consumed :: "decoder \<Rightarrow> int \<Rightarrow> ProviderTransaction list \<Rightarrow> created_map \<times> string list \<times> spend list" where
  "blk_consumed decode slot txs = fold (consumeOne slot) (blockInputs txs) (createdOf decode slot txs, [], [])"

definition blk_created :: "decoder \<Rightarrow> int \<Rightarrow> ProviderTransaction list \<Rightarrow> created_map" where
  "blk_created decode slot txs = fst (blk_consumed decode slot txs)"

definition blk_lookups :: "decoder \<Rightarrow> int \<Rightarrow> ProviderTransaction list \<Rightarrow> spend list" where
  "blk_lookups decode slot txs = snd (snd (blk_consumed decode slot txs))"

definition blk_read :: "decoder \<Rightarrow> ldb \<Rightarrow> int \<Rightarrow> ProviderTransaction list \<Rightarrow> LedgerLookup \<Rightarrow> LedgerLookup" where
  "blk_read decode db slot txs lookup = readLedgerOutputs db (map s_txHash (blk_lookups decode slot txs)) lookup"

definition blk_spent :: "decoder \<Rightarrow> ldb \<Rightarrow> int \<Rightarrow> ProviderTransaction list \<Rightarrow> LedgerLookup \<Rightarrow> LedgerUtxoRow list" where
  "blk_spent decode db slot txs lookup = (let rows = lk_rows (blk_read decode db slot txs lookup) in
     map (mark_spent slot rows) (filter (usable rows) (blk_lookups decode slot txs)))"

definition blk_deltas :: "decoder \<Rightarrow> ldb \<Rightarrow> int \<Rightarrow> ProviderTransaction list \<Rightarrow> LedgerLookup \<Rightarrow> (string, AddressDelta) jmap" where
  "blk_deltas decode db slot txs lookup =
     blockDeltas (blk_created decode slot txs) (fst (snd (blk_consumed decode slot txs)))
       (blk_spent decode db slot txs lookup) (lk_assets (blk_read decode db slot txs lookup))"

lemma writeAddresses_keeps:
  "utxos (fst (writeAddresses decode slot deltas ks st)) = utxos (fst st)"
  "uassets (fst (writeAddresses decode slot deltas ks st)) = uassets (fst st)"
  by (simp_all add: writeAddresses_def in_chunks_fold Let_def split: prod.split)

lemma writeAddresses_laddr:
  "distinct ks \<Longrightarrow> get_laddr (fst (writeAddresses decode slot deltas ks st)) a
    = (if a \<in> set ks then Some (addressRow decode slot (get_laddr (fst st) a) (the (mget deltas a)) a)
       else get_laddr (fst st) a)"
proof -
  assume d: "distinct ks"
  have keep: "get_laddr db' a = get_laddr db a" if "laddrs db' = laddrs db" for db db'
    using that by (simp add: get_laddr_def)
  obtain db stakes where st: "st = (db, stakes)" by (cases st)
  have "get_laddr (fst (writeAddresses decode slot deltas ks st)) a
      = get_laddr (fold put_laddr (map (\<lambda>a. addressRow decode slot (get_laddr db a) (the (mget deltas a)) a) ks) db) a"
    by (rule keep) (simp add: st writeAddresses_def in_chunks_fold Let_def)
  then show ?thesis
    using get_fold_put_laddr [OF d, of "\<lambda>a. addressRow decode slot (get_laddr db a) (the (mget deltas a)) a" db a]
    by (simp add: st addressRow_def)
qed

lemma fold_writeAddresses:
  "distinct (concat parts) \<Longrightarrow>
   get_laddr (fst (fold (writeAddresses decode slot deltas) parts st)) a
    = (if a \<in> set (concat parts) then Some (addressRow decode slot (get_laddr (fst st) a) (the (mget deltas a)) a)
       else get_laddr (fst st) a)
   \<and> utxos (fst (fold (writeAddresses decode slot deltas) parts st)) = utxos (fst st)
   \<and> uassets (fst (fold (writeAddresses decode slot deltas) parts st)) = uassets (fst st)"
  by (induction parts arbitrary: st) (auto simp: writeAddresses_laddr writeAddresses_keeps)

lemma fold_writeAccounts_keeps [simp]:
  "utxos (fold (writeAccounts slot stakes) parts db) = utxos db"
  "uassets (fold (writeAccounts slot stakes) parts db) = uassets db"
  "laddrs (fold (writeAccounts slot stakes) parts db) = laddrs db"
  by (induction parts arbitrary: db) (simp_all add: writeAccounts_def)

definition put_created :: "created_map \<Rightarrow> ldb \<Rightarrow> ldb" where
  "put_created created db = fold put_uasset (concat (map snd (mvalues created))) (fold put_utxo (map fst (mvalues created)) db)"

lemma applyBlock_tables:
  fixes decode slot txs db lookup
  defines "db' \<equiv> snd (applyBlockToLedger decode db slot txs lookup)"
    and "D \<equiv> blk_deltas decode db slot txs lookup"
    and "db3 \<equiv> fold put_utxo (blk_spent decode db slot txs lookup) (put_created (blk_created decode slot txs) db)"
  shows "utxos db' = utxos db3" and "uassets db' = uassets db3"
    and "get_laddr db' a = (if a \<in> set (mkeys D) then Some (addressRow decode slot (get_laddr db a) (the (mget D a)) a)
           else get_laddr db a)"
proof -
  obtain created inBlock lookups where c: "fold (consumeOne slot) (blockInputs txs) (createdOf decode slot txs, [], [])
      = (created, inBlock, lookups)" by (metis prod_cases3)
  note parts = c blk_consumed_def blk_created_def blk_lookups_def blk_read_def blk_spent_def blk_deltas_def
  let ?st = "fold (writeAddresses decode slot D) (chunks IN_CHUNK (mkeys D)) (db3, [])"
  have eq: "db' = fold (writeAccounts slot (snd ?st)) (chunks IN_CHUNK (mkeys (snd ?st))) (fst ?st)"
    unfolding db'_def D_def db3_def
    by (simp add: applyBlockToLedger_def parts resolveSpends_eq in_chunks_fold put_created_def Let_def
        split: prod.split)
  have "distinct (concat (chunks IN_CHUNK (mkeys D)))"
    using blockDeltas_wf by (simp add: concat_chunks D_def blk_deltas_def jmap_wf_def mkeys_def)
  note st = fold_writeAddresses [OF this, of decode slot D "(db3, [])", simplified concat_chunks [OF IN_CHUNK_pos]]
  show "utxos db' = utxos db3" "uassets db' = uassets db3" unfolding eq using st by simp_all
  have "get_laddr db3 a = get_laddr db a" by (simp add: db3_def put_created_def get_laddr_def)
  then show "get_laddr db' a = (if a \<in> set (mkeys D) then Some (addressRow decode slot (get_laddr db a) (the (mget D a)) a)
           else get_laddr db a)"
    using st [of a] unfolding eq by (simp add: get_laddr_def)
qed


section \<open>A block keeps the sums\<close>

lemma blk_inv: "consume_inv (p_hash ` set txs) (blk_consumed decode slot txs)"
  unfolding blk_consumed_def
  by (rule consume_fold_inv [OF createdOf_inv]) (auto simp: blockInputs_def)

text \<open>The transactions of a block are new to the ledger: they created and spent nothing yet.\<close>

definition new_hashes :: "ldb \<Rightarrow> string set \<Rightarrow> bool" where
  "new_hashes db H \<longleftrightarrow> (\<forall>r \<in> set (utxos db). u_txHash r \<notin> H \<and> set_option (u_spentTxHash r) \<inter> H = {})
     \<and> (\<forall>a \<in> set (uassets db). ua_txHash a \<notin> H)"

lemma created_rows:
  assumes "r \<in> set (map fst (mvalues (blk_created decode slot txs)))"
  shows "u_txHash r \<in> p_hash ` set txs"
    and "u_key r \<in> fst ` set (blk_created decode slot txs)"
    and "set_option (u_spentTxHash r) \<subseteq> p_hash ` set txs"
    and "u_spentTxHash r = None \<Longrightarrow> u_spentSlot r = None"
proof -
  obtain k assets where e: "(k, r, assets) \<in> set (blk_created decode slot txs)"
    using assms by (auto simp: mvalues_def)
  moreover obtain B where "\<forall>e \<in> set (blk_created decode slot txs). entry_ok (p_hash ` set txs) B e"
    using blk_inv [of txs decode slot] by (auto simp: consume_inv_def blk_created_def split: prod.splits)
  ultimately have "entry_ok (p_hash ` set txs) B (k, r, assets)" by blast
  with e show "u_txHash r \<in> p_hash ` set txs" "u_key r \<in> fst ` set (blk_created decode slot txs)"
    "set_option (u_spentTxHash r) \<subseteq> p_hash ` set txs" "u_spentTxHash r = None \<Longrightarrow> u_spentSlot r = None"
    by (auto simp: entry_ok_def intro: rev_image_eqI)
qed

lemma created_distinct: "distinct (map ukey (map fst (mvalues (blk_created decode slot txs))))"
proof -
  let ?C = "blk_created decode slot txs"
  have wf: "distinct (map fst ?C)" and k: "\<forall>e \<in> set ?C. fst e = u_key (fst (snd e))"
    using blk_inv [of txs decode slot]
    by (auto simp: consume_inv_def entry_ok_def blk_created_def jmap_wf_def split: prod.splits)
  have "map fst ?C = map u_key (map fst (mvalues ?C))"
    using k by (auto simp: mvalues_def)
  with wf have "distinct (map u_key (map fst (mvalues ?C)))" by simp
  then show ?thesis by (auto simp: distinct_map inj_on_def u_key_ukey)
qed

lemma put_created_utxos:
  assumes "distinct (map ukey (utxos db))" "new_hashes db (p_hash ` set txs)"
  shows "utxos (put_created (blk_created decode slot txs) db) = utxos db @ map fst (mvalues (blk_created decode slot txs))"
    and "distinct (map ukey (utxos db @ map fst (mvalues (blk_created decode slot txs))))"
proof -
  have "ukey r \<noteq> ukey r'" if "r \<in> set (utxos db)" "r' \<in> set (map fst (mvalues (blk_created decode slot txs)))" for r r'
    using that assms(2) created_rows(1) [of r' decode slot txs] by (auto simp: ukey_def new_hashes_def)
  then show d: "distinct (map ukey (utxos db @ map fst (mvalues (blk_created decode slot txs))))"
    using assms(1) created_distinct [of decode slot txs] by (force simp del: map_map)
  show "utxos (put_created (blk_created decode slot txs) db) = utxos db @ map fst (mvalues (blk_created decode slot txs))"
    unfolding put_created_def using d by (simp add: fold_put_utxo fold_upsert_fresh del: map_map)
qed

text \<open>A spent row is the open row of the tables it replaces, with the spender marked.\<close>

definition marks :: "int \<Rightarrow> LedgerUtxoRow list \<Rightarrow> LedgerUtxoRow \<Rightarrow> bool" where
  "marks slot t r \<longleftrightarrow> (\<exists>r0 h. r0 \<in> set t \<and> u_spentTxHash r0 = None \<and> r = r0\<lparr>u_spentTxHash := Some h, u_spentSlot := Some slot\<rparr>)"

lemma wsum_marks:
  assumes "distinct (map ukey t)" "distinct (map ukey rs)" "\<forall>r \<in> set rs. marks slot t r"
    and q: "\<And>r h s. q (r\<lparr>u_spentTxHash := h, u_spentSlot := s\<rparr>) = q r"
  shows "wsum (open_weight q a) (fold (upsert ukey) rs t) = wsum (open_weight q a) t - wsum (at_address q a) rs"
  using assms(1-3)
proof (induction rs arbitrary: t)
  case (Cons r rs)
  obtain r0 h where r0: "r0 \<in> set t" "u_spentTxHash r0 = None" "r = r0\<lparr>u_spentTxHash := Some h, u_spentSlot := Some slot\<rparr>"
    using Cons.prems(3) by (auto simp: marks_def)
  have key: "ukey r = ukey r0" by (simp add: r0 ukey_def)
  have found: "find_row ukey (ukey r) t = Some r0"
    unfolding key using Cons.prems(1) r0(1) by (rule find_row_unique) simp
  have weights: "open_weight q a r = 0" "open_weight q a r0 = at_address q a r"
    using r0 q by (simp_all add: open_weight_def at_address_def)
  have "marks slot (upsert ukey r t) r'" if r': "r' \<in> set rs" for r'
  proof -
    obtain x h' where x: "x \<in> set t" "u_spentTxHash x = None" "r' = x\<lparr>u_spentTxHash := Some h', u_spentSlot := Some slot\<rparr>"
      using Cons.prems(3) r' by (auto simp: marks_def)
    then have "ukey x = ukey r'" by (simp add: ukey_def)
    moreover have "ukey r' \<noteq> ukey r" using Cons.prems(2) r' by (metis distinct.simps(2) image_eqI list.set_map list.simps(9))
    ultimately have "x \<in> set (upsert ukey r t)" using x(1) by (auto simp: upsert_def image_iff)
    with x show ?thesis unfolding marks_def by blast
  qed
  with Cons.IH [of "upsert ukey r t"] Cons.prems
  have "wsum (open_weight q a) (fold (upsert ukey) (r # rs) t)
      = wsum (open_weight q a) (upsert ukey r t) - wsum (at_address q a) rs"
    by (simp add: upsert_distinct)
  also have "\<dots> = wsum (open_weight q a) t - wsum (at_address q a) (r # rs)"
    using wsum_upsert [OF Cons.prems(1), of "open_weight q a" r] found weights by simp
  finally show ?case .
qed simp

lemma blk_spent_marks:
  assumes "utxos_wf db" "lookup_sound db lookup" "lookup_full db lookup" "distinct (map snd (blockInputs txs))"
  shows "\<forall>r \<in> set (blk_spent decode db slot txs lookup). marks slot (utxos db) r"
    and "distinct (map ukey (blk_spent decode db slot txs lookup))"
proof -
  let ?lk = "blk_read decode db slot txs lookup"
  let ?L = "blk_lookups decode slot txs"
  have sound: "lookup_sound db ?lk"
    unfolding blk_read_def using assms readLedgerOutputs_ok by (simp add: utxos_wf_def)
  have hit: "\<exists>r0 \<in> set (utxos db). u_key r0 = s_key l \<and> u_spentTxHash r0 = None
      \<and> mark_spent slot (lk_rows ?lk) l = r0\<lparr>u_spentTxHash := Some (s_spender l), u_spentSlot := Some slot\<rparr>"
    if "usable (lk_rows ?lk) l" for l
    using that sound assms(1)
    by (fastforce simp: usable_def mark_spent_def lookup_sound_def utxos_wf_def list_all_iff truthy_def
        split: option.splits)
  then show "\<forall>r \<in> set (blk_spent decode db slot txs lookup). marks slot (utxos db) r"
    by (fastforce simp: blk_spent_def marks_def Let_def)
  have L: "?L = map lookup_of (filter (\<lambda>(_, h, i). outpoint h i \<notin> fst ` set (createdOf decode slot txs)) (blockInputs txs))"
    by (simp add: blk_lookups_def blk_consumed_def consume_fold_lookups)
  have keys: "map s_key (map lookup_of inps) = map (\<lambda>(h, i). outpoint h i) (map snd inps)" for inps
    by (auto simp: lookup_of_def)
  have "distinct (map snd (filter (\<lambda>(_, h, i). outpoint h i \<notin> fst ` set (createdOf decode slot txs)) (blockInputs txs)))"
    by (rule distinct_map_filter [OF assms(4)])
  then have "distinct (map s_key ?L)"
    unfolding L keys by (subst distinct_map) (auto simp: inj_on_def outpoint_inject simp del: map_map)
  then have "distinct (map s_key (filter (usable (lk_rows ?lk)) ?L))" by (rule distinct_map_filter)
  moreover have "map u_key (blk_spent decode db slot txs lookup) = map s_key (filter (usable (lk_rows ?lk)) ?L)"
    using hit by (force simp: blk_spent_def Let_def u_key_def)
  ultimately have "distinct (map u_key (blk_spent decode db slot txs lookup))" by simp
  then show "distinct (map ukey (blk_spent decode db slot txs lookup))"
    by (auto simp: distinct_map inj_on_def u_key_ukey)
qed


lemma wsum_cong: "(\<And>x. x \<in> set xs \<Longrightarrow> f x = g (h x)) \<Longrightarrow> wsum f xs = wsum g (map h xs)"
  by (induction xs) auto

lemma dval_blk:
  assumes "accumulates f q"
  shows "dval f (blk_deltas decode db slot txs lookup) a
    = wsum (open_weight q a) (map fst (mvalues (blk_created decode slot txs)))
      - wsum (at_address q a) (blk_spent decode db slot txs lookup)"
proof -
  obtain C B L where c: "blk_consumed decode slot txs = (C, B, L)" by (metis prod_cases3)
  have ok: "\<forall>e \<in> set C. entry_ok (p_hash ` set txs) B e"
    using blk_inv [of txs decode slot] by (simp add: consume_inv_def c)
  have "wsum (\<lambda>(key, row, _). if key \<in> set B then 0 else at_address q a row) C
      = wsum (open_weight q a) (map (fst \<circ> snd) C)"
    by (rule wsum_cong) (use ok in \<open>auto simp: entry_ok_def open_weight_def at_address_def\<close>)
  then show ?thesis
    by (simp add: blk_deltas_def blk_created_def c dval_blockDeltas [OF assms] mvalues_def)
qed

lemma apply_sum:
  assumes "utxos_wf db" "new_hashes db (p_hash ` set txs)" "distinct (map snd (blockInputs txs))"
    and "lookup_sound db lookup" "lookup_full db lookup"
    and acc: "accumulates f q" and q: "\<And>r h s. q (r\<lparr>u_spentTxHash := h, u_spentSlot := s\<rparr>) = q r"
  shows "wsum (open_weight q a) (utxos (snd (applyBlockToLedger decode db slot txs lookup)))
    = wsum (open_weight q a) (utxos db) + dval f (blk_deltas decode db slot txs lookup) a"
proof -
  let ?C = "map fst (mvalues (blk_created decode slot txs))" and ?S = "blk_spent decode db slot txs lookup"
  have wf: "distinct (map ukey (utxos db))" using assms(1) by (simp add: utxos_wf_def)
  note pc = put_created_utxos [OF wf assms(2), of decode slot]
  note sp = blk_spent_marks [OF assms(1,4,5,3), of decode slot]
  have "marks slot (utxos db @ ?C) r" if "r \<in> set ?S" for r
    using sp(1) that by (force simp: marks_def)
  then have "wsum (open_weight q a) (fold (upsert ukey) ?S (utxos db @ ?C))
      = wsum (open_weight q a) (utxos db @ ?C) - wsum (at_address q a) ?S"
    using wsum_marks [OF pc(2) sp(2) _ q] by blast
  then show ?thesis
    by (simp add: applyBlock_tables(1) fold_put_utxo pc(1) dval_blk [OF acc] del: map_map)
qed

lemma deltas_untouched: "a \<notin> set (mkeys m) \<Longrightarrow> dval f m a = 0"
  by (simp add: dval_def mget_None_iff [THEN iffD2])

lemma apply_sums_ok:
  assumes "utxos_wf db" "new_hashes db (p_hash ` set txs)" "distinct (map snd (blockInputs txs))"
    and "lookup_sound db lookup" "lookup_full db lookup" "address_ok db a"
  shows "address_ok (snd (applyBlockToLedger decode db slot txs lookup)) a"
proof -
  let ?db' = "snd (applyBlockToLedger decode db slot txs lookup)"
  let ?D = "blk_deltas decode db slot txs lookup"
  have "total_of ?db' a = total_of db a + dval dl_lovelace ?D a \<and> count_of ?db' a = count_of db a + dval dl_utxos ?D a"
  proof (cases "mget ?D a")
    case None
    then have "a \<notin> set (mkeys ?D)" by (simp add: mget_None_iff)
    with None show ?thesis by (simp add: total_of_def count_of_def applyBlock_tables(3) dval_def)
  next
    case (Some d)
    then have "a \<in> set (mkeys ?D)" by (metis mget_None_iff option.distinct(1))
    with Some show ?thesis
      by (simp add: total_of_def count_of_def applyBlock_tables(3) dval_def addressRow_def nullish_def split: option.split)
  qed
  then show ?thesis
    using assms(6) apply_sum [OF assms(1-5) accumulates_fields(1), of a decode slot]
      apply_sum [OF assms(1-5) accumulates_fields(2), of a decode slot]
    by (simp add: address_ok_iff)
qed

lemma upsert_all_keys:
  "distinct (map ukey t) \<Longrightarrow> distinct (map ukey (fold (upsert ukey) rs t))"
  by (rule fold_invar) (auto intro: upsert_distinct)

lemma set_upsert: "set (upsert kf r t) \<subseteq> insert r (set t)"
  by (auto simp: upsert_def)

lemma set_fold_upsert: "set (fold (upsert kf) rs t) \<subseteq> set rs \<union> set t"
proof (induction rs arbitrary: t)
  case (Cons r rs)
  then show ?case using set_upsert [of kf r t] by fastforce
qed simp

lemma apply_wf:
  assumes "utxos_wf db" "new_hashes db (p_hash ` set txs)" "distinct (map snd (blockInputs txs))"
    and "lookup_sound db lookup" "lookup_full db lookup" "[] \<notin> p_hash ` set txs"
  shows "utxos_wf (snd (applyBlockToLedger decode db slot txs lookup))"
proof -
  let ?C = "map fst (mvalues (blk_created decode slot txs))" and ?S = "blk_spent decode db slot txs lookup"
  have wf: "distinct (map ukey (utxos db))" using assms(1) by (simp add: utxos_wf_def)
  note pc = put_created_utxos [OF wf assms(2), of decode slot]
  have eq: "utxos (snd (applyBlockToLedger decode db slot txs lookup)) = fold (upsert ukey) ?S (utxos db @ ?C)"
    by (simp add: applyBlock_tables(1) fold_put_utxo pc(1) del: map_map)
  have S: "u_spentTxHash r \<noteq> Some [] \<and> u_spentTxHash r \<noteq> None" if "r \<in> set ?S" for r
  proof -
    have "\<forall>l \<in> set (blk_lookups decode slot txs). s_spender l \<in> p_hash ` set txs"
      using blk_inv [of txs decode slot] by (auto simp: consume_inv_def blk_lookups_def split: prod.splits)
    then have "\<forall>l \<in> set (blk_lookups decode slot txs). s_spender l \<noteq> []" using assms(6) by metis
    with that show ?thesis by (auto simp: blk_spent_def mark_spent_def Let_def)
  qed
  have C: "u_spentTxHash r \<noteq> Some [] \<and> (u_spentTxHash r = None \<longrightarrow> u_spentSlot r = None)" if "r \<in> set ?C" for r
    using created_rows(3,4) [OF that] assms(6) by auto
  show ?thesis
    using upsert_all_keys [OF pc(2), of ?S] set_fold_upsert [of ukey ?S "utxos db @ ?C"] S C assms(1)
    unfolding utxos_wf_def eq list_all_iff by (fastforce simp del: map_map)
qed


lemma blk_missing:
  assumes "utxos_wf db" "lookup_sound db lookup" "lookup_full db lookup"
  shows "ar_missing (fst (applyBlockToLedger decode db slot txs lookup))
    = length (filter (\<lambda>(_, h, i). outpoint h i \<notin> fst ` set (createdOf decode slot txs) \<and> \<not> open_at db (h, i)) (blockInputs txs))"
proof -
  let ?lk = "blk_read decode db slot txs lookup"
  let ?inps = "filter (\<lambda>(_, h, i). outpoint h i \<notin> fst ` set (createdOf decode slot txs)) (blockInputs txs)"
  have d: "distinct (map ukey (utxos db))" using assms(1) by (simp add: utxos_wf_def)
  have L: "blk_lookups decode slot txs = map lookup_of ?inps"
    by (simp add: blk_lookups_def blk_consumed_def consume_fold_lookups)
  have lk: "lookup_sound db ?lk" "lookup_full db ?lk"
    unfolding blk_read_def using assms d readLedgerOutputs_ok by simp_all
  have cover: "s_txHash l \<in> set (lk_hashes ?lk)" if "l \<in> set (blk_lookups decode slot txs)" for l
    unfolding blk_read_def using readLedgerOutputs_covers that by fastforce
  have use_open: "usable (lk_rows ?lk) (lookup_of inp) \<longleftrightarrow> open_at db (snd inp)" if "inp \<in> set ?inps" for inp
  proof -
    obtain sp h i where inp: "inp = (sp, h, i)" by (metis prod_cases3)
    have h: "h \<in> set (lk_hashes ?lk)"
      using cover [of "lookup_of inp"] that by (simp add: L lookup_of_def inp image_iff)
    have get: "mget (lk_rows ?lk) (outpoint h i) = find_row ukey (h, i) (utxos db)"
    proof (cases "find_row ukey (h, i) (utxos db)")
      case (Some r)
      then have "r \<in> set (utxos db)" "ukey r = (h, i)" using find_row_SomeD by fast+
      with lk(2) h have "mget (lk_rows ?lk) (u_key r) = Some r" by (simp add: lookup_full_def ukey_def)
      with \<open>ukey r = (h, i)\<close> Some show ?thesis by (simp add: u_key_def ukey_def)
    next
      case None
      have "mget (lk_rows ?lk) (outpoint h i) \<noteq> Some r" for r
      proof
        assume "mget (lk_rows ?lk) (outpoint h i) = Some r"
        with lk(1) have "r \<in> set (utxos db)" "u_key r = outpoint h i" by (auto simp: lookup_sound_def)
        then have "ukey r = (h, i)" by (simp add: u_key_def ukey_def outpoint_inject)
        with None \<open>r \<in> set (utxos db)\<close> show False by (simp add: find_row_None_iff) (metis image_eqI)
      qed
      with None show ?thesis by (metis not_None_eq)
    qed
    have "truthy (u_spentTxHash r) \<longleftrightarrow> u_spentTxHash r \<noteq> None" if "find_row ukey (h, i) (utxos db) = Some r" for r
      using find_row_SomeD [OF that] assms(1) by (auto simp: utxos_wf_def list_all_iff truthy_def split: option.split)
    then show ?thesis
      by (simp add: usable_def lookup_of_def inp get open_at_def split: option.split)
  qed
  have "ar_missing (fst (applyBlockToLedger decode db slot txs lookup))
      = length (filter (Not \<circ> usable (lk_rows ?lk)) (blk_lookups decode slot txs))"
    by (simp add: applyBlockToLedger_def blk_read_def blk_lookups_def blk_consumed_def resolveSpends_eq Let_def split: prod.split)
  also have "\<dots> = length (filter (\<lambda>inp. \<not> open_at db (snd inp)) ?inps)"
    unfolding L filter_map length_map using use_open by (intro arg_cong [of _ _ length] filter_cong) auto
  finally show ?thesis by (simp add: case_prod_unfold conj_commute)
qed

text \<open>
  C16. Applying a block keeps the ledger's running sums: if every address row holds the lovelace and
  the number of its open outputs, so it does after a block of new transactions that spends no
  output twice, whatever rows the caller had already read; keys stay unique, and the reported
  number of missing outputs is exactly the number of inputs for which the block itself and the
  ledger have no open output.
\<close>

theorem block_keeps_sums:
  assumes "utxos_wf db" "sums_ok db" "new_hashes db (p_hash ` set txs)" "[] \<notin> p_hash ` set txs"
    and "distinct (map snd (blockInputs txs))" "lookup_sound db lookup" "lookup_full db lookup"
  shows "sums_ok (snd (applyBlockToLedger decode db slot txs lookup))
    \<and> utxos_wf (snd (applyBlockToLedger decode db slot txs lookup))
    \<and> ar_missing (fst (applyBlockToLedger decode db slot txs lookup))
        = length (filter (\<lambda>(_, h, i). outpoint h i \<notin> fst ` set (createdOf decode slot txs) \<and> \<not> open_at db (h, i)) (blockInputs txs))"
  using assms apply_sums_ok [of db txs lookup _ decode slot] apply_wf [of db txs lookup decode slot] blk_missing [of db lookup decode slot txs]
  by (simp add: sums_ok_def)

text \<open>A snapshot output of 10 lovelace at \<open>a\<close>; a transaction moves 7 to \<open>b\<close> and 3 back to \<open>a\<close>.\<close>

definition demo_decode :: decoder where
  "demo_decode a = \<lparr>da_type = ''base'', da_isScript = False, da_stakeAddress = None, da_paymentCredential = Some a\<rparr>"

definition demo_out :: "nat \<Rightarrow> string \<Rightarrow> int \<Rightarrow> TxOutputLine" where
  "demo_out i a q = \<lparr>o_outputIndex = i, o_address = a, o_amount = [\<lparr>am_unit = ''lovelace'', am_quantity = q\<rparr>],
     o_isCollateral = False, o_dataHash = None, o_inlineDatum = None, o_referenceScriptHash = None,
     o_referenceScriptSize = None, o_referenceScriptType = None\<rparr>"

definition demo_tx :: ProviderTransaction where
  "demo_tx = \<lparr>p_hash = ''t1'', p_inputs = [\<lparr>i_txHash = ''t0'', i_outputIndex = 0, i_isReference = False, i_isCollateral = False\<rparr>],
     p_outputs = [demo_out 0 ''b'' 7, demo_out 1 ''a'' 3], p_spendsCollaterals = False\<rparr>"

definition demo_ldb :: ldb where
  "demo_ldb = \<lparr>utxos = [fst (buildLedgerUtxoRows demo_decode ''t0'' (demo_out 0 ''a'' 10) None)], uassets = [],
     laddrs = [\<lparr>la_address = ''a'', la_stakeAddress = None, la_paymentCredential = Some ''a'', la_addressType = ''base'',
       la_isScript = False, la_totalLovelace = 10, la_utxoCount = 1, la_firstSeenSlot = None, la_lastActiveSlot = None\<rparr>],
     laassets = [], laccounts = []\<rparr>"

lemmas demo_defs = demo_decode_def demo_out_def demo_tx_def demo_ldb_def buildLedgerUtxoRows_def lovelaceOf_def
  nativeAssets_def orNull_def Let_def

lemma demo_facts:
  "utxos_wf demo_ldb" "sums_ok demo_ldb" "new_hashes demo_ldb (p_hash ` set [demo_tx])"
  "[] \<notin> p_hash ` set [demo_tx]" "distinct (map snd (blockInputs [demo_tx]))"
  by (auto simp: demo_defs utxos_wf_def sums_ok_def address_ok_def total_of_def count_of_def get_laddr_def openRows_def
      new_hashes_def blockInputs_def consumedInputs_def)

theorem block_keeps_sums_witness:
  "sums_ok (snd (applyBlockToLedger demo_decode demo_ldb 5 [demo_tx] emptyLookup))
   \<and> la_totalLovelace (the (get_laddr (snd (applyBlockToLedger demo_decode demo_ldb 5 [demo_tx] emptyLookup)) ''b'')) = 7"
proof
  show "sums_ok (snd (applyBlockToLedger demo_decode demo_ldb 5 [demo_tx] emptyLookup))"
    using block_keeps_sums [OF demo_facts empty_lookup_ok] by blast
  show "la_totalLovelace (the (get_laddr (snd (applyBlockToLedger demo_decode demo_ldb 5 [demo_tx] emptyLookup)) ''b'')) = 7"
    by code_simp
qed


section \<open>Undoing\<close>

definition spent_in :: "string set \<Rightarrow> LedgerUtxoRow \<Rightarrow> bool" where
  "spent_in H r \<longleftrightarrow> set_option (u_spentTxHash r) \<inter> H \<noteq> {}"

definition reopen :: "string set \<Rightarrow> LedgerUtxoRow \<Rightarrow> LedgerUtxoRow" where
  "reopen H r = (if spent_in H r then r\<lparr>u_spentTxHash := None, u_spentSlot := None\<rparr> else r)"

definition undone :: "string set \<Rightarrow> LedgerUtxoRow list \<Rightarrow> LedgerUtxoRow list" where
  "undone H t = map (reopen H) (filter (\<lambda>r. u_txHash r \<notin> H) t)"

lemma spent_in_case: "(case u_spentTxHash r of None \<Rightarrow> False | Some h \<Rightarrow> h \<in> set hs) = spent_in (set hs) r"
  by (auto simp: spent_in_def split: option.split)

lemma reopen_fields [simp]: "u_txHash (reopen H r) = u_txHash r" "u_address (reopen H r) = u_address r"
  "ukey (reopen H r) = ukey r"
  by (simp_all add: reopen_def ukey_def)

lemma reopen_reopen: "reopen H' (reopen H r) = reopen (H \<union> H') r"
  by (auto simp: reopen_def spent_in_def)

lemma undone_undone: "undone H' (undone H t) = undone (H \<union> H') t"
proof -
  have "filter (\<lambda>r. u_txHash r \<notin> H') (map (reopen H) s) = map (reopen H) (filter (\<lambda>r. u_txHash r \<notin> H') s)" for s
    by (simp add: filter_map comp_def)
  then show ?thesis by (simp add: undone_def filter_filter reopen_reopen comp_def conj_commute)
qed

lemma undoChunk_tables:
  "utxos (fst (undoChunk hs st)) = undone (set hs) (utxos (fst st))"
  "uassets (fst (undoChunk hs st)) = filter (\<lambda>a. ua_txHash a \<notin> set hs) (uassets (fst st))"
  "laddrs (fst (undoChunk hs st)) = laddrs (fst st)"
  "set (snd (undoChunk hs st)) = set (snd st)
     \<union> u_address ` {r \<in> set (utxos (fst st)). u_txHash r \<in> set hs \<or> spent_in (set hs) r}"
  by (auto simp: undoChunk_def undone_def delete_where_def update_where_def reopen_def [abs_def] spent_in_case
      Let_def split: prod.split)

lemma fold_undoChunk:
  "utxos (fst (fold undoChunk parts st)) = undone (set (concat parts)) (utxos (fst st))"
  "uassets (fst (fold undoChunk parts st)) = filter (\<lambda>a. ua_txHash a \<notin> set (concat parts)) (uassets (fst st))"
  "laddrs (fst (fold undoChunk parts st)) = laddrs (fst st)"
proof (induction parts arbitrary: st)
  case Nil
  {
    case 1
    show ?case by (simp add: undone_def reopen_def [abs_def] spent_in_def)
  next
    case 2
    show ?case by simp
  next
    case 3
    show ?case by simp
  }
next
  case (Cons hs parts)
  {
    case 1
    show ?case by (simp add: Cons.IH undoChunk_tables undone_undone)
  next
    case 2
    show ?case by (simp add: Cons.IH undoChunk_tables conj_commute)
  next
    case 3
    show ?case by (simp add: Cons.IH undoChunk_tables)
  }
qed


lemma fold_undoChunk_touched:
  assumes "a \<notin> set (snd (fold undoChunk parts st))"
  shows "a \<notin> set (snd st) \<and> (\<forall>r \<in> set (utxos (fst st)). u_address r = a
    \<longrightarrow> u_txHash r \<notin> set (concat parts) \<and> \<not> spent_in (set (concat parts)) r)"
  using assms
proof (induction parts arbitrary: st)
  case Nil
  then show ?case by (simp add: spent_in_def)
next
  case (Cons hs parts)
  let ?st = "undoChunk hs st"
  have IH: "a \<notin> set (snd ?st)" "\<And>r. r \<in> set (utxos (fst ?st)) \<Longrightarrow> u_address r = a
      \<Longrightarrow> u_txHash r \<notin> set (concat parts) \<and> \<not> spent_in (set (concat parts)) r"
    using Cons.IH [of ?st] Cons.prems by simp_all
  have "u_txHash r \<notin> set (concat (hs # parts)) \<and> \<not> spent_in (set (concat (hs # parts))) r"
    if r: "r \<in> set (utxos (fst st))" "u_address r = a" for r
  proof -
    have h: "u_txHash r \<notin> set hs" "\<not> spent_in (set hs) r" using IH(1) r by (auto simp: undoChunk_tables)
    then have "r \<in> set (utxos (fst ?st))"
      using r(1) by (auto simp: undoChunk_tables undone_def reopen_def image_iff intro!: bexI [of _ r])
    from IH(2) [OF this r(2)] h show ?thesis by (auto simp: spent_in_def)
  qed
  moreover have "a \<notin> set (snd st)" using IH(1) by (simp add: undoChunk_tables)
  ultimately show ?case by blast
qed

section \<open>Recounting\<close>

lemma recountOne_keeps [simp]:
  "utxos (fst (recountOne decode a st)) = utxos (fst st)" "uassets (fst (recountOne decode a st)) = uassets (fst st)"
  by (simp_all add: recountOne_def in_chunks_fold put_laddr_def Let_def split: prod.split)

lemma recountOne_laddr:
  "b \<noteq> a \<Longrightarrow> get_laddr (fst (recountOne decode a st)) b = get_laddr (fst st) b"
  "total_of (fst (recountOne decode a st)) a = sum_list (map u_lovelace (openRows (fst st) a))"
  "count_of (fst (recountOne decode a st)) a = int (length (openRows (fst st) a))"
  by (simp_all add: recountOne_def in_chunks_fold put_laddr_def Let_def get_laddr_def total_of_def count_of_def
      find_row_upsert split: prod.split)

lemma fold_recountOne:
  "utxos (fst (fold (recountOne decode) as st)) = utxos (fst st)
   \<and> uassets (fst (fold (recountOne decode) as st)) = uassets (fst st)
   \<and> (a \<notin> set as \<longrightarrow> get_laddr (fst (fold (recountOne decode) as st)) a = get_laddr (fst st) a)
   \<and> (a \<in> set as \<or> address_ok (fst st) a \<longrightarrow> address_ok (fst (fold (recountOne decode) as st)) a)"
proof (induction as arbitrary: st)
  case (Cons b as)
  have "address_ok (fst (recountOne decode b st)) a" if "a = b \<or> address_ok (fst st) a"
    using that recountOne_laddr(1) [of a b decode st] recountOne_laddr(2,3) [of decode b st]
    by (cases "a = b") (auto simp: address_ok_def openRows_def total_of_def count_of_def)
  with Cons [of "recountOne decode b st"] show ?case by (auto simp: recountOne_laddr)
qed simp

lemma recountAccounts_keeps [simp]:
  "utxos (recountAccounts ks db) = utxos db" "uassets (recountAccounts ks db) = uassets db"
  "laddrs (recountAccounts ks db) = laddrs db"
  by (simp_all add: recountAccounts_def)

lemma recountLedgerAccounts_keeps [simp]:
  "utxos (recountLedgerAccounts ks db) = utxos db" "uassets (recountLedgerAccounts ks db) = uassets db"
  "laddrs (recountLedgerAccounts ks db) = laddrs db"
proof -
  have "utxos (fold recountAccounts parts db) = utxos db \<and> uassets (fold recountAccounts parts db) = uassets db
    \<and> laddrs (fold recountAccounts parts db) = laddrs db" for parts
    by (induction parts arbitrary: db) simp_all
  then show "utxos (recountLedgerAccounts ks db) = utxos db" "uassets (recountLedgerAccounts ks db) = uassets db"
    "laddrs (recountLedgerAccounts ks db) = laddrs db" by (simp_all add: recountLedgerAccounts_def)
qed

lemma address_ok_cong: "utxos db = utxos db' \<Longrightarrow> get_laddr db a = get_laddr db' a \<Longrightarrow> address_ok db a = address_ok db' a"
  by (simp add: address_ok_def openRows_def total_of_def count_of_def)

lemma recountLedgerAddresses_spec:
  "utxos (recountLedgerAddresses decode as db) = utxos db
   \<and> uassets (recountLedgerAddresses decode as db) = uassets db
   \<and> (a \<notin> set as \<longrightarrow> get_laddr (recountLedgerAddresses decode as db) a = get_laddr db a)
   \<and> (a \<in> set as \<or> address_ok db a \<longrightarrow> address_ok (recountLedgerAddresses decode as db) a)"
proof -
  obtain db1 stakes where f: "fold (recountOne decode) as (db, []) = (db1, stakes)" by fastforce
  have eq: "recountLedgerAddresses decode as db = recountLedgerAccounts stakes db1"
    by (simp add: recountLedgerAddresses_def f)
  have same: "get_laddr (recountLedgerAccounts stakes db1) a = get_laddr db1 a" by (simp add: get_laddr_def)
  then have "address_ok (recountLedgerAccounts stakes db1) a = address_ok db1 a"
    by (intro address_ok_cong) simp_all
  with same fold_recountOne [of decode as "(db, [])" a] show ?thesis by (simp add: f eq)
qed


text \<open>An account row holds the sums of the address rows of its stake key.\<close>

definition account_ok :: "ldb \<Rightarrow> string \<Rightarrow> bool" where
  "account_ok db k \<longleftrightarrow> (case find_row ac_stakeAddress k (laccounts db) of None \<Rightarrow> False | Some r \<Rightarrow>
     (let rs = filter (\<lambda>r. la_stakeAddress r = Some k) (laddrs db)
      in ac_controlledAmount r = sum_list (map la_totalLovelace rs) \<and> ac_addressCount r = int (length rs)
         \<and> ac_utxoCount r = sum_list (map la_utxoCount rs)))"

lemma fold_put_laccount: "laccounts (fold put_laccount rs db) = fold (upsert ac_stakeAddress) rs (laccounts db)"
  by (induction rs arbitrary: db) (simp_all add: put_laccount_def)

lemma recountAccounts_ok:
  assumes "k \<in> set ks \<or> account_ok db k"
  shows "account_ok (recountAccounts ks db) k"
proof -
  define row where "row = (\<lambda>k. let rs = filter (\<lambda>r. la_stakeAddress r = Some k) (laddrs db);
                     prev = find_row ac_stakeAddress k (laccounts db) in
          \<lparr>ac_stakeAddress = k, ac_controlledAmount = sum_list (map la_totalLovelace rs),
           ac_addressCount = int (length rs), ac_utxoCount = sum_list (map la_utxoCount rs),
           ac_lastActiveSlot = Option.bind prev ac_lastActiveSlot\<rparr>)"
  have keys: "ac_stakeAddress (row k) = k" for k by (simp add: row_def Let_def)
  have eq: "recountAccounts ks db = fold put_laccount (map row ks) db" by (simp add: recountAccounts_def row_def)
  have acc: "find_row ac_stakeAddress k (laccounts (recountAccounts ks db))
      = (case find_row ac_stakeAddress k (rev (map row ks)) of Some r \<Rightarrow> Some r | None \<Rightarrow> find_row ac_stakeAddress k (laccounts db))"
    unfolding eq fold_put_laccount find_row_fold_upsert ..
  show ?thesis
  proof (cases "k \<in> set ks")
    case True
    then have "k \<in> ac_stakeAddress ` set (rev (map row ks))" by (auto simp: image_iff keys)
    then obtain r where r: "find_row ac_stakeAddress k (rev (map row ks)) = Some r"
      by (metis find_row_None_iff option.exhaust)
    then have "r = row k" using find_row_SomeD [OF r] keys by auto
    then show ?thesis unfolding account_ok_def acc r by (simp add: row_def Let_def)
  next
    case False
    then have "find_row ac_stakeAddress k (rev (map row ks)) = None" by (auto simp: find_row_None_iff keys)
    then show ?thesis using assms False unfolding account_ok_def acc by (simp add: Let_def split: option.splits)
  qed
qed

lemma recountLedgerAccounts_ok: "k \<in> set ks \<Longrightarrow> account_ok (recountLedgerAccounts ks db) k"
proof -
  have "k \<in> set (concat parts) \<or> account_ok db k \<Longrightarrow> account_ok (fold recountAccounts parts db) k" for parts
    by (induction parts arbitrary: db) (auto intro: recountAccounts_ok)
  from this [of "chunks IN_CHUNK ks"] show "k \<in> set ks \<Longrightarrow> account_ok (recountLedgerAccounts ks db) k"
    unfolding recountLedgerAccounts_def concat_chunks [OF IN_CHUNK_pos] by blast
qed

definition stake_of :: "ldb \<Rightarrow> string \<Rightarrow> string option" where
  "stake_of db a = Option.bind (get_laddr db a) la_stakeAddress"

lemma recountOne_stakes:
  "set (snd st) \<subseteq> set (snd (recountOne decode a st))"
  "truthy (stake_of (fst (recountOne decode a st)) a) \<Longrightarrow> the (stake_of (fst (recountOne decode a st)) a) \<in> set (snd (recountOne decode a st))"
  by (auto simp: recountOne_def in_chunks_fold put_laddr_def Let_def get_laddr_def stake_of_def
      find_row_upsert split: prod.split)

lemma fold_recountOne_stakes:
  "a \<in> set as \<or> (truthy (stake_of (fst st) a) \<longrightarrow> the (stake_of (fst st) a) \<in> set (snd st)) \<Longrightarrow>
   truthy (stake_of (fst (fold (recountOne decode) as st)) a) \<Longrightarrow>
   the (stake_of (fst (fold (recountOne decode) as st)) a) \<in> set (snd (fold (recountOne decode) as st))"
proof (induction as arbitrary: st)
  case (Cons b as)
  have "truthy (stake_of (fst (recountOne decode b st)) a) \<longrightarrow> the (stake_of (fst (recountOne decode b st)) a) \<in> set (snd (recountOne decode b st))"
    if "a = b \<or> (truthy (stake_of (fst st) a) \<longrightarrow> the (stake_of (fst st) a) \<in> set (snd st))"
    using that recountOne_stakes(1) [of st decode b] recountOne_stakes(2) [of decode b st] recountOne_laddr(1) [of a b decode st]
    by (cases "a = b") (auto simp: stake_of_def)
  with Cons.prems(1) have pre: "a \<in> set as \<or> (truthy (stake_of (fst (recountOne decode b st)) a)
      \<longrightarrow> the (stake_of (fst (recountOne decode b st)) a) \<in> set (snd (recountOne decode b st)))" by auto
  from Cons.IH [OF pre] Cons.prems(2) show ?case by simp
qed simp

text \<open>
  A recount repairs: whatever the sums were, after recounting some addresses each of them has
  the lovelace and count of its open outputs and the account of its stake key the sums over that
  key's addresses; no other address row, and no output, is changed.
\<close>

theorem recount_repairs:
  "(\<forall>a \<in> set addresses. address_ok (recountLedgerAddresses decode addresses db) a
      \<and> (truthy (stake_of (recountLedgerAddresses decode addresses db) a)
         \<longrightarrow> account_ok (recountLedgerAddresses decode addresses db) (the (stake_of (recountLedgerAddresses decode addresses db) a))))
   \<and> (a' \<notin> set addresses \<longrightarrow> get_laddr (recountLedgerAddresses decode addresses db) a' = get_laddr db a')
   \<and> utxos (recountLedgerAddresses decode addresses db) = utxos db"
proof -
  obtain db1 stakes where f: "fold (recountOne decode) addresses (db, []) = (db1, stakes)" by fastforce
  have eq: "recountLedgerAddresses decode addresses db = recountLedgerAccounts stakes db1"
    by (simp add: recountLedgerAddresses_def f)
  have "account_ok (recountLedgerAccounts stakes db1) (the (stake_of (recountLedgerAccounts stakes db1) a))"
    if "a \<in> set addresses" "truthy (stake_of (recountLedgerAccounts stakes db1) a)" for a
  proof -
    have "stake_of (recountLedgerAccounts stakes db1) a = stake_of db1 a" by (simp add: stake_of_def get_laddr_def)
    with that fold_recountOne_stakes [of a addresses "(db, [])" decode] show ?thesis
      by (simp add: f recountLedgerAccounts_ok)
  qed
  then show ?thesis using recountLedgerAddresses_spec [of decode addresses db] by (auto simp: eq)
qed

theorem recount_repairs_witness:
  "address_ok (recountLedgerAddresses demo_decode [''a''] (demo_ldb\<lparr>laddrs := []\<rparr>)) ''a''"
  using recount_repairs [of "[''a'']" demo_decode "demo_ldb\<lparr>laddrs := []\<rparr>" "''b''"] by simp


section \<open>Undoing a block\<close>

lemma undo_tables:
  "utxos (snd (undoLedgerForTransactions decode db hs)) = undone (set hs) (utxos db)"
  "uassets (snd (undoLedgerForTransactions decode db hs)) = filter (\<lambda>a. ua_txHash a \<notin> set hs) (uassets db)"
proof -
  obtain db1 as where f: "fold undoChunk (chunks IN_CHUNK hs) (db, []) = (db1, as)" by fastforce
  have t: "utxos db1 = undone (set hs) (utxos db)" "uassets db1 = filter (\<lambda>a. ua_txHash a \<notin> set hs) (uassets db)"
    using fold_undoChunk(1,2) [where parts = "chunks IN_CHUNK hs" and st = "(db, [])"]
    unfolding f concat_chunks [OF IN_CHUNK_pos] by simp_all
  have nil: "undone {} t = t" for t by (simp add: undone_def reopen_def [abs_def] spent_in_def)
  show "utxos (snd (undoLedgerForTransactions decode db hs)) = undone (set hs) (utxos db)"
    using recountLedgerAddresses_spec [of decode as db1] t by (cases "hs = []") (simp_all add: undoLedgerForTransactions_def f nil)
  show "uassets (snd (undoLedgerForTransactions decode db hs)) = filter (\<lambda>a. ua_txHash a \<notin> set hs) (uassets db)"
    using recountLedgerAddresses_spec [of decode as db1] t by (cases "hs = []") (simp_all add: undoLedgerForTransactions_def f)
qed

lemma undo_sums:
  assumes "address_ok db a"
  shows "address_ok (snd (undoLedgerForTransactions decode db hs)) a"
proof (cases "hs = []")
  case False
  obtain db1 as where f: "fold undoChunk (chunks IN_CHUNK hs) (db, []) = (db1, as)" by fastforce
  have eq: "snd (undoLedgerForTransactions decode db hs) = recountLedgerAddresses decode as db1"
    using False by (simp add: undoLedgerForTransactions_def f)
  have t: "utxos db1 = undone (set hs) (utxos db)" "laddrs db1 = laddrs db"
    using fold_undoChunk(1,3) [where parts = "chunks IN_CHUNK hs" and st = "(db, [])"]
    unfolding f concat_chunks [OF IN_CHUNK_pos] by simp_all
  have "a \<in> set as \<or> address_ok db1 a"
  proof (rule disjCI)
    assume nok: "\<not> address_ok db1 a"
    show "a \<in> set as"
    proof (rule ccontr)
      assume "a \<notin> set as"
      then have untouched: "\<And>r. r \<in> set (utxos db) \<Longrightarrow> u_address r = a \<Longrightarrow> u_txHash r \<notin> set hs \<and> \<not> spent_in (set hs) r"
        using fold_undoChunk_touched [of a "chunks IN_CHUNK hs" "(db, [])"]
        unfolding f concat_chunks [OF IN_CHUNK_pos] by simp
      have "filter (\<lambda>r. u_address r = a \<and> u_spentTxHash r = None) (undone H t)
          = filter (\<lambda>r. u_address r = a \<and> u_spentTxHash r = None) t"
        if "\<And>r. r \<in> set t \<Longrightarrow> u_address r = a \<Longrightarrow> u_txHash r \<notin> H \<and> \<not> spent_in H r" for H t
        using that unfolding undone_def by (induction t) (auto simp: reopen_def)
      then have "openRows db1 a = openRows db a" using untouched by (simp add: openRows_def t)
      moreover have "get_laddr db1 a = get_laddr db a" by (simp add: get_laddr_def t)
      ultimately show False using assms nok by (simp add: address_ok_def total_of_def count_of_def)
    qed
  qed
  then show ?thesis unfolding eq using recountLedgerAddresses_spec [of decode as db1 a] by blast
qed (simp add: assms undoLedgerForTransactions_def)

lemma undone_map_marks:
  assumes "distinct (map ukey t)" "\<forall>r \<in> set rs. marks slot t r \<and> spent_in H r"
    and "\<forall>r \<in> set t. u_txHash r \<notin> H \<and> \<not> spent_in H r"
    and "\<forall>r \<in> set t. u_spentTxHash r = None \<longrightarrow> u_spentSlot r = None"
  shows "undone H (fold (upsert ukey) rs t) = t"
proof -
  have "undone H (fold (upsert ukey) rs t') = t \<and> map ukey (fold (upsert ukey) rs t') = map ukey t"
    if "set rs \<subseteq> {r. marks slot t r \<and> spent_in H r}" "undone H t' = t" "map ukey t' = map ukey t" for rs t'
    using that
  proof (induction rs arbitrary: t')
    case (Cons r rs)
    obtain r0 h where r0: "r0 \<in> set t" "u_spentTxHash r0 = None" "r = r0\<lparr>u_spentTxHash := Some h, u_spentSlot := Some slot\<rparr>"
      using Cons.prems(1) by (auto simp: marks_def)
    have sr: "spent_in H r" using Cons.prems(1) by simp
    have reopen_r: "reopen H r = r0"
      using sr r0(2) assms(4) r0(1) unfolding reopen_def r0(3) by (cases r0) auto
    have key: "ukey r = ukey r0" by (simp add: r0 ukey_def)
    have inT: "ukey r \<in> ukey ` set t'" using Cons.prems(3) r0(1) key by (metis image_eqI list.set_map)
    have nodel: "filter (\<lambda>r. u_txHash r \<notin> H) t' = t'"
    proof (rule filter_True, rule ballI)
      fix x assume "x \<in> set t'"
      then have "ukey x \<in> ukey ` set t" using Cons.prems(3) by (metis image_eqI list.set_map)
      then show "u_txHash x \<notin> H" using assms(3) by (auto simp: ukey_def)
    qed
    have t: "t = map (reopen H) t'" using Cons.prems(2) nodel by (simp add: undone_def)
    have same: "reopen H x = reopen H r" if "x \<in> set t'" "ukey x = ukey r" for x
    proof -
      have "reopen H x \<in> set t" "ukey (reopen H x) = ukey r0" using that t key by auto
      then have "reopen H x = r0" using assms(1) r0(1) by (metis find_row_unique option.inject)
      with reopen_r show ?thesis by simp
    qed
    have up: "upsert ukey r t' = map (\<lambda>x. if ukey x = ukey r then r else x) t'" using inT by (simp add: upsert_def)
    have keys: "map ukey (upsert ukey r t') = map ukey t" using Cons.prems(3) inT by (simp add: upsert_keys)
    have "u_txHash r \<notin> H" using assms(3) r0 by simp
    then have "undone H (upsert ukey r t') = map (reopen H) (upsert ukey r t')"
      using nodel unfolding undone_def up by (subst filter_True) (auto simp: filter_eq_Cons_iff filter_id_conv split: if_splits)
    also have "\<dots> = t" unfolding up t using same by auto
    finally show ?case using Cons.IH [of "upsert ukey r t'"] Cons.prems(1) keys by simp
  qed simp
  moreover have "undone H t = t"
    using assms(3) by (auto simp: undone_def reopen_def filter_id_conv map_idI)
  ultimately show ?thesis using assms(2) by blast
qed


lemma upsert_left: "kf r \<in> kf ` set t \<Longrightarrow> kf r \<notin> kf ` set c \<Longrightarrow> upsert kf r (t @ c) = upsert kf r t @ c"
  by (auto simp: upsert_def image_iff intro!: map_idI)

lemma fold_upsert_left:
  "distinct (map ukey (t @ c)) \<Longrightarrow> \<forall>r \<in> set rs. ukey r \<in> ukey ` set t
   \<Longrightarrow> fold (upsert ukey) rs (t @ c) = fold (upsert ukey) rs t @ c"
proof (induction rs arbitrary: t)
  case (Cons r rs)
  have r: "ukey r \<in> ukey ` set t" "ukey r \<notin> ukey ` set c" using Cons.prems by auto
  then have "map ukey (upsert ukey r t) = map ukey t" by (simp add: upsert_keys)
  then have "ukey ` set (upsert ukey r t) = ukey ` set t" "map ukey (upsert ukey r t @ c) = map ukey (t @ c)"
    by (simp_all flip: set_map)
  with Cons r show ?case by (simp add: upsert_left del: map_append)
qed simp

lemma marks_key: "marks slot t r \<Longrightarrow> ukey r \<in> ukey ` set t"
  by (auto simp: marks_def ukey_def)

lemma undone_created:
  assumes "set rs \<subseteq> {r. u_txHash r \<in> H}"
  shows "undone H (t @ rs) = undone H t"
  using assms by (auto simp: undone_def filter_empty_conv)

lemma blk_spent_in:
  "r \<in> set (blk_spent decode db slot txs lookup) \<Longrightarrow> spent_in (p_hash ` set txs) r"
proof -
  have "\<forall>l \<in> set (blk_lookups decode slot txs). s_spender l \<in> p_hash ` set txs"
    using blk_inv [of txs decode slot] by (auto simp: consume_inv_def blk_lookups_def split: prod.splits)
  then show "r \<in> set (blk_spent decode db slot txs lookup) \<Longrightarrow> spent_in (p_hash ` set txs) r"
    by (auto simp: blk_spent_def mark_spent_def spent_in_def Let_def)
qed

lemma filter_fold_put_uasset:
  "(\<forall>a \<in> set as. ua_txHash a \<in> H) \<Longrightarrow>
   filter (\<lambda>a. ua_txHash a \<notin> H) (uassets (fold put_uasset as db)) = filter (\<lambda>a. ua_txHash a \<notin> H) (uassets db)"
proof (induction as arbitrary: db)
  case (Cons a as)
  have "filter (\<lambda>a. ua_txHash a \<notin> H) (map (\<lambda>x. if ua_txHash x = ua_txHash a \<and> ua_outputIndex x = ua_outputIndex a
      \<and> ua_unit x = ua_unit a then a else x) t) = filter (\<lambda>a. ua_txHash a \<notin> H) t" for t
    using Cons.prems by (induction t) auto
  then have "filter (\<lambda>a. ua_txHash a \<notin> H) (uassets (put_uasset a db)) = filter (\<lambda>a. ua_txHash a \<notin> H) (uassets db)"
    using Cons.prems by (simp add: put_uasset_def upsert_def)
  with Cons show ?case by simp
qed simp

lemma undo_block_tables:
  assumes "utxos_wf db" "new_hashes db (p_hash ` set txs)" "distinct (map snd (blockInputs txs))"
    and "lookup_sound db lookup" "lookup_full db lookup"
  shows "undone (p_hash ` set txs) (utxos (snd (applyBlockToLedger decode db slot txs lookup))) = utxos db"
    and "filter (\<lambda>a. ua_txHash a \<notin> p_hash ` set txs) (uassets (snd (applyBlockToLedger decode db slot txs lookup))) = uassets db"
proof -
  let ?H = "p_hash ` set txs" and ?S = "blk_spent decode db slot txs lookup"
  let ?C = "map fst (mvalues (blk_created decode slot txs))"
  have d: "distinct (map ukey (utxos db))" using assms(1) by (simp add: utxos_wf_def)
  note pc = put_created_utxos [OF d assms(2), of decode slot]
  note sp = blk_spent_marks [OF assms(1,4,5,3), of decode slot]
  have old: "\<forall>r \<in> set (utxos db). u_txHash r \<notin> ?H \<and> \<not> spent_in ?H r"
    using assms(2) by (simp add: new_hashes_def spent_in_def)
  have "fold (upsert ukey) ?S (utxos db @ ?C) = fold (upsert ukey) ?S (utxos db) @ ?C"
    using fold_upsert_left [OF pc(2)] sp(1) marks_key by blast
  then have "undone ?H (fold (upsert ukey) ?S (utxos db @ ?C)) = undone ?H (fold (upsert ukey) ?S (utxos db))"
    using undone_created [of ?C ?H] created_rows(1) [of _ decode slot txs] by auto
  also have "\<dots> = utxos db"
    using undone_map_marks [OF d _ old] sp(1) blk_spent_in assms(1) by (auto simp: utxos_wf_def list_all_iff)
  finally show "undone ?H (utxos (snd (applyBlockToLedger decode db slot txs lookup))) = utxos db"
    by (simp add: applyBlock_tables(1) fold_put_utxo pc(1) del: map_map)
  have assets: "\<forall>a \<in> set (concat (map snd (mvalues (blk_created decode slot txs)))). ua_txHash a \<in> ?H"
    using blk_inv [of txs decode slot]
    by (fastforce simp: consume_inv_def entry_ok_def blk_created_def mvalues_def split: prod.splits)
  have "filter (\<lambda>a. ua_txHash a \<notin> ?H) (uassets db) = uassets db"
    using assms(2) by (auto simp: new_hashes_def filter_id_conv)
  then show "filter (\<lambda>a. ua_txHash a \<notin> ?H) (uassets (snd (applyBlockToLedger decode db slot txs lookup))) = uassets db"
    using filter_fold_put_uasset [OF assets] by (simp add: applyBlock_tables(2) put_created_def)
qed

text \<open>
  C15. Undoing a rolled-back block restores the ledger: after applying a block of new transactions
  and undoing its hashes, the table of outputs and that of their assets are exactly what they
  were, row for row, and every address whose sums were right before the undo has right sums again.
\<close>

theorem undo_reverses_block:
  assumes "utxos_wf db" "sums_ok db" "new_hashes db (p_hash ` set txs)" "distinct (map snd (blockInputs txs))"
    and "lookup_sound db lookup" "lookup_full db lookup"
  shows "utxos (snd (undoLedgerForTransactions decode (snd (applyBlockToLedger decode db slot txs lookup)) (map p_hash txs))) = utxos db
    \<and> uassets (snd (undoLedgerForTransactions decode (snd (applyBlockToLedger decode db slot txs lookup)) (map p_hash txs))) = uassets db
    \<and> sums_ok (snd (undoLedgerForTransactions decode (snd (applyBlockToLedger decode db slot txs lookup)) (map p_hash txs)))"
proof (intro conjI)
  note tables = undo_block_tables [OF assms(1,3,4,5,6), of decode slot]
  show "utxos (snd (undoLedgerForTransactions decode (snd (applyBlockToLedger decode db slot txs lookup)) (map p_hash txs))) = utxos db"
    using tables(1) by (simp add: undo_tables)
  show "uassets (snd (undoLedgerForTransactions decode (snd (applyBlockToLedger decode db slot txs lookup)) (map p_hash txs))) = uassets db"
    using tables(2) by (simp add: undo_tables)
  show "sums_ok (snd (undoLedgerForTransactions decode (snd (applyBlockToLedger decode db slot txs lookup)) (map p_hash txs)))"
    using assms(2) undo_sums apply_sums_ok [OF assms(1,3,4,5,6)] unfolding sums_ok_def by blast
qed

theorem undo_reverses_block_witness:
  "utxos (snd (undoLedgerForTransactions demo_decode (snd (applyBlockToLedger demo_decode demo_ldb 5 [demo_tx] emptyLookup)) [''t1'']))
    = utxos demo_ldb
   \<and> map u_spentTxHash (utxos (snd (applyBlockToLedger demo_decode demo_ldb 5 [demo_tx] emptyLookup))) = [Some ''t1'', None, None]"
proof
  show "utxos (snd (undoLedgerForTransactions demo_decode (snd (applyBlockToLedger demo_decode demo_ldb 5 [demo_tx] emptyLookup)) [''t1'']))
    = utxos demo_ldb"
    using undo_reverses_block [OF demo_facts(1-3,5) empty_lookup_ok, of demo_decode 5] by (simp add: demo_tx_def)
  show "map u_spentTxHash (utxos (snd (applyBlockToLedger demo_decode demo_ldb 5 [demo_tx] emptyLookup))) = [Some ''t1'', None, None]"
    by code_simp
qed


section \<open>The backfill ends\<close>

lemma fill_fold_map:
  "fold (fillCredential decode) as t = map (\<lambda>r. if la_address r \<in> set as
      then r\<lparr>la_paymentCredential := Some (nullish (da_paymentCredential (decode (la_address r))) [])\<rparr> else r) t"
  by (induction as arbitrary: t) (auto simp: fillCredential_def update_where_def)

lemma pending_after_chunk:
  assumes "distinct (map la_address t)"
  shows "filter credential_missing (fold (fillCredential decode) (map la_address (take n (filter credential_missing t))) t)
    = drop n (filter credential_missing t)"
proof -
  let ?P = "filter credential_missing t"
  have d: "distinct (map la_address ?P)" using assms by (rule distinct_map_filter)
  have "filter credential_missing (fold (fillCredential decode) as t) = filter (\<lambda>r. la_address r \<notin> set as) (filter credential_missing t)"
    for as
    unfolding fill_fold_map by (induction t) (auto simp: credential_missing_def)
  moreover have "filter (\<lambda>r. la_address r \<notin> set (map la_address (take n P))) P = drop n P"
    if "distinct (map la_address P)" for P :: "LedgerAddress list"
  proof -
    have split: "filter (\<lambda>r. la_address r \<notin> la_address ` set A) (A @ B) = B"
      if "la_address ` set A \<inter> la_address ` set B = {}" for A B :: "LedgerAddress list"
      using that by (auto simp: filter_empty_conv filter_id_conv)
    have "la_address ` set (take n P) \<inter> la_address ` set (drop n P) = {}"
      using set_take_disj_set_drop_if_distinct [OF that, of n n] by (simp add: take_map drop_map)
    from split [OF this] show ?thesis by simp
  qed
  ultimately show ?thesis using d by metis
qed

text \<open>
  C38. The backfill of payment credentials ends for every positive chunk size: it returns the number
  of rows that lacked a credential, leaves none behind, and every row keeps its other columns and
  a credential it already had.
\<close>

theorem backfill_terminates:
  assumes "0 < chunkSize" "distinct (map la_address (laddrs db))"
  shows "\<exists>db'. backfillPaymentCredentials decode chunkSize db = Some (length (filter credential_missing (laddrs db)), db')
    \<and> filter credential_missing (laddrs db') = []
    \<and> laddrs db' = map (\<lambda>r. if credential_missing r
         then r\<lparr>la_paymentCredential := Some (nullish (da_paymentCredential (decode (la_address r))) [])\<rparr> else r) (laddrs db)"
proof -
  let ?g = "\<lambda>r. r\<lparr>la_paymentCredential := Some (nullish (da_paymentCredential (decode (la_address r))) [])\<rparr>"
  have "\<exists>db'. backfillFrom decode chunkSize k db = Some (k + length (filter credential_missing (laddrs db)), db')
    \<and> filter credential_missing (laddrs db') = []
    \<and> laddrs db' = map (\<lambda>r. if credential_missing r then ?g r else r) (laddrs db)"
    if "distinct (map la_address (laddrs db))" for k db
    using that
  proof (induction "length (filter credential_missing (laddrs db))" arbitrary: k db rule: less_induct)
    case less
    let ?P = "filter credential_missing (laddrs db)"
    define t' where "t' = fold (fillCredential decode) (map la_address (take chunkSize ?P)) (laddrs db)"
    define db' where "db' = db\<lparr>laddrs := t'\<rparr>"
    have db': "laddrs db' = t'" by (simp add: db'_def)
    have chunk: "backfillChunk decode chunkSize db = (min (length ?P) chunkSize, db')" by (simp add: backfillChunk_def db'_def t'_def)
    have left: "filter credential_missing t' = drop chunkSize ?P" unfolding t'_def by (rule pending_after_chunk [OF less.prems])
    have once: "la_address r \<in> la_address ` set ?P \<Longrightarrow> r \<in> set (laddrs db) \<Longrightarrow> credential_missing r" for r
      using less.prems by (auto simp: distinct_map inj_on_def)
    have sub: "credential_missing r"
      if "la_address r \<in> la_address ` set (take chunkSize ?P)" "r \<in> set (laddrs db)" for r
    proof (rule once [OF _ that(2)])
      show "la_address r \<in> la_address ` set ?P" using that(1) by (auto dest: in_set_takeD)
    qed
    have gone: "\<not> credential_missing (?g r)" for r by (simp add: credential_missing_def)
    have t': "t' = map (\<lambda>r. if la_address r \<in> la_address ` set (take chunkSize ?P) then ?g r else r) (laddrs db)"
      by (simp add: fill_fold_map t'_def)
    have rest: "map (\<lambda>r. if credential_missing r then ?g r else r) t'
        = map (\<lambda>r. if credential_missing r then ?g r else r) (laddrs db)"
      unfolding t' map_map comp_def
    proof (rule map_cong [OF refl])
      fix r assume "r \<in> set (laddrs db)"
      then show "(if credential_missing (if la_address r \<in> la_address ` set (take chunkSize ?P) then ?g r else r)
          then ?g (if la_address r \<in> la_address ` set (take chunkSize ?P) then ?g r else r)
          else (if la_address r \<in> la_address ` set (take chunkSize ?P) then ?g r else r))
        = (if credential_missing r then ?g r else r)"
        using sub [of r] gone [of r] by (cases "la_address r \<in> la_address ` set (take chunkSize ?P)") simp_all
    qed
    show ?case
    proof (cases "length ?P < chunkSize")
      case True
      have "map (\<lambda>r. if credential_missing r then ?g r else r) t' = t'"
        using left True by (intro map_idI) (auto simp: filter_empty_conv)
      moreover have "backfillFrom decode chunkSize k db = Some (k + length ?P, db')"
        using True by (subst backfillFrom.simps) (simp add: chunk)
      ultimately show ?thesis using left rest True by (simp add: db')
    next
      case False
      then have step: "backfillFrom decode chunkSize k db = backfillFrom decode chunkSize (k + chunkSize) db'"
        by (subst backfillFrom.simps) (simp add: chunk min_def)
      have len: "length (filter credential_missing (laddrs db')) = length ?P - chunkSize"
        using left by (simp add: db')
      then have "length (filter credential_missing (laddrs db')) < length ?P" using False assms(1) by simp
      moreover have "distinct (map la_address (laddrs db'))"
        using less.prems by (simp add: db' t' comp_def if_distrib [of la_address] cong: if_cong)
      ultimately obtain db2 where "backfillFrom decode chunkSize (k + chunkSize) db'
          = Some (k + chunkSize + length (filter credential_missing (laddrs db')), db2)"
          "filter credential_missing (laddrs db2) = []"
          "laddrs db2 = map (\<lambda>r. if credential_missing r then ?g r else r) (laddrs db')"
        using less.hyps [of db' "k + chunkSize"] by blast
      with False len rest step show ?thesis by (simp add: db')
    qed
  qed
  from this [OF assms(2), of 0] show ?thesis by (simp add: backfillPaymentCredentials_def)
qed

theorem backfill_terminates_witness:
  "map_option fst (backfillPaymentCredentials demo_decode 1
     (demo_ldb\<lparr>laddrs := map (\<lambda>r. r\<lparr>la_paymentCredential := None\<rparr>) (laddrs demo_ldb)\<rparr>)) = Some 1"
  using backfill_terminates [of 1 "demo_ldb\<lparr>laddrs := map (\<lambda>r. r\<lparr>la_paymentCredential := None\<rparr>) (laddrs demo_ldb)\<rparr>" demo_decode]
  by (auto simp: demo_ldb_def credential_missing_def CREDENTIAL_ADDRESS_TYPES_def)

end
