(* ===== verification/AgentGrants.thy ===== *)
theory AgentGrants imports RateLimiter begin

text \<open>
  Agent grants, \<open>srv/utils/agent-grants.ts\<close>: the grant row, validation of what an operator asks
  for, issue, revoke, rotate and update, the admin handlers and the usage window. A UTC day is the
  number of whole days of a timestamp; \<open>Date\<close> parsing (\<open>parse\<close>), the token hash (\<open>sha\<close>) and random
  tokens are arguments.
\<close>

section \<open>What a grant may allow\<close>

definition AGENT_TOKEN_PREFIX :: string where
  "AGENT_TOKEN_PREFIX = ''odat_''"

definition AGENT_ALLOWLISTABLE_ACTIONS :: "string list" where
  "AGENT_ALLOWLISTABLE_ACTIONS =
    [''BuildSimpleAdaTransaction'', ''BuildTransactionWithMetadata'', ''BuildMultiAssetTransaction'',
     ''BuildMintTransaction'', ''BuildPlutusSpendTransaction'', ''BuildPlutusTransaction'', ''SetCollateral'',
     ''CreateSigningRequest'', ''VerifySignature'', ''SubmitTransaction'', ''SubmitSignedTransaction'',
     ''SubmitVerifiedTransaction'', ''CheckSubmissionStatus'', ''SubmitWalletJob'', ''CancelJob'']"

definition AGENT_WALLET_ACTIONS :: "string list" where
  "AGENT_WALLET_ACTIONS = [''SubmitWalletJob'', ''CancelJob'']"

definition AGENT_ALWAYS_ALLOWED_EVENTS :: "string list" where
  "AGENT_ALWAYS_ALLOWED_EVENTS =
    [''READ'', ''GetNetworkInformation'', ''GetBlockByHash'', ''GetEpochByNumber'', ''GetPoolById'', ''GetDrepById'',
     ''GetAssetInfo'', ''GetAssetHistory'', ''GetAccountByStakeAddress'', ''GetTransactionByHash'',
     ''GetTransactionConfirmations'', ''GetMetadataByTxHash'', ''GetAddressByBech32'', ''GetUTxOsByAddress'',
     ''GetUTxOsByCredential'', ''GetAssetsByAddress'', ''GetLatestTransactionsByAddress'', ''GetLatestBlock'',
     ''GetLatestEpoch'', ''GetLedgerProtocolParameters'', ''ParseTransactionCbor'', ''DecodePlutusData'',
     ''GetBuildDetails'', ''GetTransactionBuildsByAddress'', ''DeriveScriptAddress'', ''ExtractPaymentKeyHash'',
     ''GetSigningRequest'', ''GetSigningRequestsByAddress'', ''VerifyDataSignature'', ''GetHsmStatus'',
     ''GetJobStatus'', ''GetWorkerStatus'', ''getStatus'', ''getLiveness'', ''GetGrantStatus'', ''GetGrantUsage'',
     ''GetTransaction'', ''GetTransactionsBatch'', ''GetTransactionMetadata'', ''GetBlock'', ''GetBlockByHeight'',
     ''GetNextBlocks'', ''GetBlockTransactions'', ''GetCurrentSlot'', ''GetEpoch'', ''GetAddress'', ''GetAddressUtxos'',
     ''GetAddressTransactions'', ''GetAddressTransactionHashes'', ''GetCredentialUtxos'', ''IsUtxoUnspent'',
     ''GetUnspentOutputs'', ''GetAccount'', ''GetPool'', ''GetPoolIds'', ''GetPools'', ''GetDrep'', ''GetDrepIds'',
     ''GetDreps'', ''GetProtocolParameters'', ''EvaluateTransaction'']"

definition AGENT_JOB_KINDS :: "string list" where
  "AGENT_JOB_KINDS = [''simpleAda'', ''metadata'', ''multiAsset'', ''mint'', ''plutusSpend'', ''submitSigned'']"

section \<open>The grant row\<close>

text \<open>
  What a text column holding JSON parses to: an array (an element is \<open>None\<close> when it is not a
  string), some other value, or nothing (\<open>JSON.parse\<close> throws).
\<close>

datatype json_text = JsonArray "string option list" | JsonOther | NotJson

definition stringifyList :: "string list \<Rightarrow> json_text" where
  "stringifyList xs = JsonArray (map Some xs)"

definition parseGrantList :: "json_text option \<Rightarrow> string list" where
  "parseGrantList raw = (case raw of Some (JsonArray vs) \<Rightarrow> List.map_filter id vs | _ \<Rightarrow> [])"

record AgentGrantRow =
  g_ID :: string
  g_userId :: string
  g_agentLabel :: "string option"
  g_tokenHash :: string
  g_allowedActions :: "json_text option"
  g_walletId :: "string option"
  g_allowedJobKinds :: "json_text option"
  g_maxJobsPerDay :: "int option"
  g_jobsUsedToday :: int
  g_budgetWindow :: "int option"
  g_validUntil :: "time option"
  g_isActive :: bool
  g_revokedAt :: "time option"
  g_createdAt :: time
  g_lastUsedAt :: "time option"

definition utcDay :: "time \<Rightarrow> int" where
  "utcDay now = now div 86400000"

definition isExpired :: "AgentGrantRow \<Rightarrow> time \<Rightarrow> bool" where
  "isExpired grant now = (case g_validUntil grant of None \<Rightarrow> False | Some t \<Rightarrow> t < now)"

section \<open>Validation\<close>

text \<open>A number as a client sends it: an integer, or anything else \<open>Number\<close> yields.\<close>

datatype js_number = Integer int | NotInteger

record IssueAgentGrantInput =
  gi_allowedActions :: "string list option"
  gi_walletId :: "string option"
  gi_allowedJobKinds :: "string list option"
  gi_maxJobsPerDay :: "js_number option"
  gi_validUntil :: "string option"
  gi_agentLabel :: "string option"

record NormalizedGrantInput =
  n_allowedActions :: "string list"
  n_walletId :: "string option"
  n_allowedJobKinds :: "string list"
  n_maxJobsPerDay :: "int option"
  n_validUntil :: "time option"
  n_agentLabel :: "string option"

datatype grant_input_error =
    ActionsEmpty | ActionsNotGrantable "string list" | WalletRequired | WalletTooLong
  | KindsUnknown "string list" | KindsNeedWallet | MaxNotPositive | ValidUntilInvalid | ValidUntilPast
  | LabelTooLong | OperatorRequired

text \<open>\<open>trim\<close> on code units up to 255: tab to carriage return, space and no-break space.\<close>

definition js_space :: "char \<Rightarrow> bool" where
  "js_space c = (let n = (of_char c :: nat) in 9 \<le> n \<and> n \<le> 13 \<or> n = 32 \<or> n = 160)"

definition trim :: "string \<Rightarrow> string" where
  "trim s = rev (dropWhile js_space (rev (dropWhile js_space s)))"

definition trimmed :: "string option \<Rightarrow> string option" where
  "trimmed v = (case v of None \<Rightarrow> None | Some s \<Rightarrow> if trim s = [] then None else Some (trim s))"

definition wantsWallet :: "string list \<Rightarrow> bool" where
  "wantsWallet actions = list_ex (\<lambda>a. a \<in> set AGENT_WALLET_ACTIONS) actions"

definition longer :: "nat \<Rightarrow> string option \<Rightarrow> bool" where
  "longer n v = (case v of None \<Rightarrow> False | Some s \<Rightarrow> length s > n)"

definition validActions :: "string list option \<Rightarrow> grant_input_error + string list" where
  "validActions v = (case v of
     None \<Rightarrow> Inl ActionsEmpty
   | Some actions \<Rightarrow>
       sbind (throwIf (actions = []) ActionsEmpty) (\<lambda>_.
       (let unknown = filter (\<lambda>a. a \<notin> set AGENT_ALLOWLISTABLE_ACTIONS) actions
        in sbind (throwIf (unknown \<noteq> []) (ActionsNotGrantable unknown)) (\<lambda>_. Inr (jset actions)))))"

definition validKinds :: "bool \<Rightarrow> string list option \<Rightarrow> grant_input_error + string list" where
  "validKinds wallet v = (case v of
     None \<Rightarrow> Inr []
   | Some kinds \<Rightarrow>
       (let bad = filter (\<lambda>k. k \<notin> set AGENT_JOB_KINDS) kinds
        in sbind (throwIf (bad \<noteq> []) (KindsUnknown bad)) (\<lambda>_.
           sbind (throwIf (jset kinds \<noteq> [] \<and> \<not> wallet) KindsNeedWallet) (\<lambda>_. Inr (jset kinds)))))"

definition validMax :: "js_number option \<Rightarrow> grant_input_error + int option" where
  "validMax v = (case v of
     None \<Rightarrow> Inr None
   | Some NotInteger \<Rightarrow> Inl MaxNotPositive
   | Some (Integer n) \<Rightarrow> if n < 1 then Inl MaxNotPositive else Inr (Some n))"

definition validUntil :: "(string \<Rightarrow> time option) \<Rightarrow> time \<Rightarrow> string option \<Rightarrow> grant_input_error + time option" where
  "validUntil parse now v =
     (if \<not> truthy v then Inr None
      else (case parse (the v) of
              None \<Rightarrow> Inl ValidUntilInvalid
            | Some t \<Rightarrow> if t \<le> now then Inl ValidUntilPast else Inr (Some t)))"

definition validateGrantInput ::
  "(string \<Rightarrow> time option) \<Rightarrow> IssueAgentGrantInput \<Rightarrow> time \<Rightarrow> grant_input_error + NormalizedGrantInput" where
  "validateGrantInput parse input now =
     sbind (validActions (gi_allowedActions input)) (\<lambda>actions.
     let walletId = trimmed (gi_walletId input); wallet = wantsWallet actions in
     sbind (throwIf (wallet \<and> walletId = None) WalletRequired) (\<lambda>_.
     sbind (throwIf (longer 50 walletId) WalletTooLong) (\<lambda>_.
     sbind (validKinds wallet (gi_allowedJobKinds input)) (\<lambda>kinds.
     sbind (validMax (gi_maxJobsPerDay input)) (\<lambda>maxJobs.
     sbind (validUntil parse now (gi_validUntil input)) (\<lambda>until.
     let label = trimmed (gi_agentLabel input) in
     sbind (throwIf (longer 100 label) LabelTooLong) (\<lambda>_.
     Inr \<lparr>n_allowedActions = actions, n_walletId = walletId, n_allowedJobKinds = kinds,
          n_maxJobsPerDay = maxJobs, n_validUntil = until, n_agentLabel = label\<rparr>)))))))"

section \<open>Issue, revoke, rotate\<close>

record IssuedAgentGrant =
  i_grantId :: string
  i_token :: string
  i_granted :: NormalizedGrantInput

definition kindsColumn :: "string list \<Rightarrow> json_text option" where
  "kindsColumn kinds = (if kinds = [] then None else Some (stringifyList kinds))"

text \<open>\<open>uuid\<close> and \<open>random\<close> are the fresh id and the token's random part.\<close>

definition issueAgentGrant ::
  "(string \<Rightarrow> string) \<Rightarrow> (string \<Rightarrow> time option) \<Rightarrow> time \<Rightarrow> string \<Rightarrow> string \<Rightarrow> IssueAgentGrantInput \<Rightarrow> string
   \<Rightarrow> AgentGrantRow list \<Rightarrow> (grant_input_error + IssuedAgentGrant) \<times> AgentGrantRow list" where
  "issueAgentGrant sha parse now uuid random input operatorId grants =
     (if operatorId = [] then (Inl OperatorRequired, grants)
      else (case validateGrantInput parse input now of
        Inl e \<Rightarrow> (Inl e, grants)
      | Inr n \<Rightarrow>
          (let token = AGENT_TOKEN_PREFIX @ random;
               grant = \<lparr>g_ID = uuid, g_userId = operatorId, g_agentLabel = n_agentLabel n, g_tokenHash = sha token,
                 g_allowedActions = Some (stringifyList (n_allowedActions n)), g_walletId = n_walletId n,
                 g_allowedJobKinds = kindsColumn (n_allowedJobKinds n), g_maxJobsPerDay = n_maxJobsPerDay n,
                 g_jobsUsedToday = 0, g_budgetWindow = None, g_validUntil = n_validUntil n, g_isActive = True,
                 g_revokedAt = None, g_createdAt = now, g_lastUsedAt = None\<rparr>
           in (Inr \<lparr>i_grantId = uuid, i_token = token, i_granted = n\<rparr>, grants @ [grant]))))"

text \<open>The active grant with this id: the WHERE of every admin UPDATE.\<close>

definition activeWithId :: "string \<Rightarrow> AgentGrantRow \<Rightarrow> bool" where
  "activeWithId grantId g \<longleftrightarrow> g_ID g = grantId \<and> g_isActive g"

definition affected :: "(AgentGrantRow \<Rightarrow> bool) \<Rightarrow> AgentGrantRow list \<Rightarrow> nat" where
  "affected P grants = length (filter P grants)"

definition revokeAgentGrantById :: "time \<Rightarrow> string \<Rightarrow> AgentGrantRow list \<Rightarrow> bool \<times> AgentGrantRow list" where
  "revokeAgentGrantById now grantId grants =
     (if grantId = [] then (False, grants)
      else (affected (activeWithId grantId) grants > 0,
            update_where (activeWithId grantId) (\<lambda>g. g\<lparr>g_isActive := False, g_revokedAt := Some now\<rparr>) grants))"

definition rotateAgentGrantToken ::
  "(string \<Rightarrow> string) \<Rightarrow> string \<Rightarrow> string \<Rightarrow> AgentGrantRow list \<Rightarrow> (string \<times> string) option \<times> AgentGrantRow list" where
  "rotateAgentGrantToken sha random grantId grants =
     (if grantId = [] then (None, grants)
      else
        (let token = AGENT_TOKEN_PREFIX @ random
         in (if affected (activeWithId grantId) grants = 0 then None else Some (grantId, token),
             update_where (activeWithId grantId) (\<lambda>g. g\<lparr>g_tokenHash := sha token\<rparr>) grants)))"

section \<open>Update\<close>

text \<open>A field is absent (\<open>None\<close>) or present with a nullable value.\<close>

record UpdateAgentGrantInput =
  ui_agentLabel :: "string option option"
  ui_allowedActions :: "string list option option"
  ui_allowedJobKinds :: "string list option option"
  ui_maxJobsPerDay :: "js_number option option"
  ui_validUntil :: "string option option"

datatype update_result =
  Updated string "string list" | UpdateNotFound | UpdateRevoked | UpdateInvalid grant_input_error

definition editedFields :: "UpdateAgentGrantInput \<Rightarrow> string list" where
  "editedFields input =
     (if ui_agentLabel input \<noteq> None then [''agentLabel''] else [])
     @ (if ui_allowedActions input \<noteq> None then [''allowedActions''] else [])
     @ (if ui_allowedJobKinds input \<noteq> None then [''allowedJobKinds''] else [])
     @ (if ui_maxJobsPerDay input \<noteq> None then [''maxJobsPerDay''] else [])
     @ (if ui_validUntil input \<noteq> None then [''validUntil''] else [])"

text \<open>What is validated: the given fields over the stored ones; an expiry only when given.\<close>

definition mergedInput :: "AgentGrantRow \<Rightarrow> UpdateAgentGrantInput \<Rightarrow> IssueAgentGrantInput" where
  "mergedInput existing input =
     \<lparr>gi_allowedActions = nullish (ui_allowedActions input) (Some (parseGrantList (g_allowedActions existing))),
      gi_walletId = g_walletId existing,
      gi_allowedJobKinds = nullish (ui_allowedJobKinds input) (Some (parseGrantList (g_allowedJobKinds existing))),
      gi_maxJobsPerDay = nullish (ui_maxJobsPerDay input) (map_option Integer (g_maxJobsPerDay existing)),
      gi_validUntil = nullish (ui_validUntil input) None,
      gi_agentLabel = nullish (ui_agentLabel input) (g_agentLabel existing)\<rparr>"

definition applyPatch :: "UpdateAgentGrantInput \<Rightarrow> NormalizedGrantInput \<Rightarrow> AgentGrantRow \<Rightarrow> AgentGrantRow" where
  "applyPatch input n g =
     (let g1 = (if ui_allowedActions input \<noteq> None then g\<lparr>g_allowedActions := Some (stringifyList (n_allowedActions n))\<rparr> else g);
          g2 = (if ui_allowedJobKinds input \<noteq> None then g1\<lparr>g_allowedJobKinds := kindsColumn (n_allowedJobKinds n)\<rparr> else g1);
          g3 = (if ui_maxJobsPerDay input \<noteq> None then g2\<lparr>g_maxJobsPerDay := n_maxJobsPerDay n\<rparr> else g2);
          g4 = (if ui_validUntil input \<noteq> None then g3\<lparr>g_validUntil := n_validUntil n\<rparr> else g3)
      in if ui_agentLabel input \<noteq> None then g4\<lparr>g_agentLabel := n_agentLabel n\<rparr> else g4)"

text \<open>\<open>grants0\<close> is the table at the SELECT, \<open>grants\<close> at the UPDATE.\<close>

definition updateAgentGrant ::
  "(string \<Rightarrow> time option) \<Rightarrow> time \<Rightarrow> string \<Rightarrow> UpdateAgentGrantInput \<Rightarrow> AgentGrantRow list \<Rightarrow> AgentGrantRow list
   \<Rightarrow> update_result \<times> AgentGrantRow list" where
  "updateAgentGrant parse now grantId input grants0 grants =
     (case find_row g_ID grantId grants0 of
        None \<Rightarrow> (UpdateNotFound, grants)
      | Some existing \<Rightarrow>
          if \<not> g_isActive existing then (UpdateRevoked, grants)
          else (case validateGrantInput parse (mergedInput existing input) now of
            Inl e \<Rightarrow> (UpdateInvalid e, grants)
          | Inr n \<Rightarrow>
              (let updated = editedFields input
               in if updated = [] then (Updated grantId [], grants)
                  else if affected (activeWithId grantId) grants = 0 then (UpdateRevoked, grants)
                  else (Updated grantId updated, update_where (activeWithId grantId) (applyPatch input n) grants))))"

end
