(* ===== verification/GrantBudget.thy ===== *)
theory GrantBudget imports AgentGrants begin

text \<open>
  The daily budget of a grant and the usage counters, \<open>srv/utils/agent-grants.ts\<close>. A database
  statement is one function on the table and answers with the number of affected rows; other
  requests may write between two statements of one request.
\<close>

section \<open>The budget statements\<close>

text \<open>Statements of \<open>consumeDailyBudget\<close> and \<open>refundDailyBudget\<close>; \<open>snap\<close> is the window the request read.\<close>

definition resetWindow :: "string \<Rightarrow> int option \<Rightarrow> int \<Rightarrow> AgentGrantRow list \<Rightarrow> nat \<times> AgentGrantRow list" where
  "resetWindow grantId snap today grants =
     (let P = (\<lambda>g. g_ID g = grantId \<and> g_budgetWindow g = snap)
      in (affected P grants, update_where P (\<lambda>g. g\<lparr>g_budgetWindow := Some today, g_jobsUsedToday := 1\<rparr>) grants))"

definition incrementBudget :: "string \<Rightarrow> int \<Rightarrow> int \<Rightarrow> AgentGrantRow list \<Rightarrow> nat \<times> AgentGrantRow list" where
  "incrementBudget grantId today maxJobs grants =
     (let P = (\<lambda>g. g_ID g = grantId \<and> g_budgetWindow g = Some today \<and> g_jobsUsedToday g < maxJobs)
      in (affected P grants, update_where P (\<lambda>g. g\<lparr>g_jobsUsedToday := g_jobsUsedToday g + 1\<rparr>) grants))"

definition refundDailyBudget :: "string \<Rightarrow> int \<Rightarrow> AgentGrantRow list \<Rightarrow> nat \<times> AgentGrantRow list" where
  "refundDailyBudget grantId window grants =
     (let P = (\<lambda>g. g_ID g = grantId \<and> g_budgetWindow g = Some window \<and> g_jobsUsedToday g > 0)
      in (affected P grants, update_where P (\<lambda>g. g\<lparr>g_jobsUsedToday := g_jobsUsedToday g - 1\<rparr>) grants))"

record BudgetCharge =
  bc_consumed :: bool
  bc_window :: int

text \<open>\<open>between\<close>: what others write between the two statements.\<close>

definition consumeDailyBudget ::
  "AgentGrantRow \<Rightarrow> time \<Rightarrow> (AgentGrantRow list \<Rightarrow> AgentGrantRow list) \<Rightarrow> AgentGrantRow list
   \<Rightarrow> BudgetCharge \<times> AgentGrantRow list" where
  "consumeDailyBudget grant now between grants =
     (let today = utcDay now;
          (reset, grants1) = (if g_budgetWindow grant \<noteq> Some today
                              then resetWindow (g_ID grant) (g_budgetWindow grant) today grants else (0, grants))
      in if reset > 0 then (\<lparr>bc_consumed = True, bc_window = today\<rparr>, grants1)
         else (let (n, grants2) = incrementBudget (g_ID grant) today (the (g_maxJobsPerDay grant))
                                    (if g_budgetWindow grant \<noteq> Some today then between grants1 else grants1)
               in (\<lparr>bc_consumed = (n > 0), bc_window = today\<rparr>, grants2)))"

section \<open>Any interleaving of statements\<close>

datatype budget_stmt =
    ResetW string "int option" int
  | IncrW string int int
  | RefundW string int
  | RevokeW time string
  | RotateW string string
  | PatchW string UpdateAgentGrantInput NormalizedGrantInput

fun budget_step :: "(string \<Rightarrow> string) \<Rightarrow> budget_stmt \<Rightarrow> AgentGrantRow list \<Rightarrow> nat \<times> AgentGrantRow list" where
  "budget_step sha (ResetW i snap d) grants = resetWindow i snap d grants"
| "budget_step sha (IncrW i d m) grants = incrementBudget i d m grants"
| "budget_step sha (RefundW i d) grants = refundDailyBudget i d grants"
| "budget_step sha (RevokeW now i) grants = (0, snd (revokeAgentGrantById now i grants))"
| "budget_step sha (RotateW random i) grants = (0, snd (rotateAgentGrantToken sha random i grants))"
| "budget_step sha (PatchW i inp n) grants = (0, update_where (activeWithId i) (applyPatch inp n) grants)"

fun budget_run :: "(string \<Rightarrow> string) \<Rightarrow> budget_stmt list \<Rightarrow> AgentGrantRow list \<Rightarrow> (budget_stmt \<times> nat) list \<times> AgentGrantRow list" where
  "budget_run sha [] grants = ([], grants)"
| "budget_run sha (x # xs) grants =
     (let (n, grants1) = budget_step sha x grants; (log, grants2) = budget_run sha xs grants1 in ((x, n) # log, grants2))"

text \<open>Units charged to and refunded from the window of a day: statements that hit the row.\<close>

fun charges :: "string \<Rightarrow> int \<Rightarrow> budget_stmt \<times> nat \<Rightarrow> bool" where
  "charges i d (ResetW j snap e, n) = (j = i \<and> e = d \<and> n > 0)"
| "charges i d (IncrW j e m, n) = (j = i \<and> e = d \<and> n > 0)"
| "charges i d _ = False"

fun refunds :: "string \<Rightarrow> int \<Rightarrow> budget_stmt \<times> nat \<Rightarrow> bool" where
  "refunds i d (RefundW j e, n) = (j = i \<and> e = d \<and> n > 0)"
| "refunds i d _ = False"

definition net :: "string \<Rightarrow> int \<Rightarrow> (budget_stmt \<times> nat) list \<Rightarrow> int" where
  "net i d log = int (length (filter (charges i d) log)) - int (length (filter (refunds i d) log))"

text \<open>Requests whose clock is not behind the window they read, and that respect the limit \<open>m\<close>.\<close>

fun stmt_ok :: "string \<Rightarrow> int \<Rightarrow> budget_stmt \<Rightarrow> bool" where
  "stmt_ok i m (ResetW j snap d) = (j = i \<longrightarrow> (case snap of None \<Rightarrow> True | Some s \<Rightarrow> s < d))"
| "stmt_ok i m (IncrW j d m') = (j = i \<longrightarrow> m' \<le> m)"
| "stmt_ok i m _ = True"

lemma net_Nil [simp]: "net i d [] = 0"
  by (simp add: net_def)

lemma net_Cons: "net i d (x # log) = (if charges i d x then 1 else 0) - (if refunds i d x then 1 else 0) + net i d log"
  by (simp add: net_def)

text \<open>What the budget columns of the one row with an id become.\<close>

definition budget_of :: "string \<Rightarrow> AgentGrantRow list \<Rightarrow> (int option \<times> int) option" where
  "budget_of i grants = map_option (\<lambda>g. (g_budgetWindow g, g_jobsUsedToday g)) (find_row g_ID i grants)"

lemma affected_key:
  assumes "distinct (map g_ID grants)"
  shows "affected (\<lambda>g. g_ID g = i \<and> Q g) grants = (case find_row g_ID i grants of None \<Rightarrow> 0 | Some g \<Rightarrow> if Q g then 1 else 0)"
  using assms
proof (induction grants)
  case (Cons g grants)
  have "filter (\<lambda>x. g_ID x = i \<and> Q x) grants = []" if "i \<notin> g_ID ` set grants"
    using that by (auto simp: filter_empty_conv)
  with Cons show ?case
    by (auto simp: affected_def find_row_None_iff split: option.split)
qed (simp add: affected_def)

lemma applyPatch_keys [simp]: "g_ID (applyPatch inp n g) = g_ID g" "g_budgetWindow (applyPatch inp n g) = g_budgetWindow g"
  "g_jobsUsedToday (applyPatch inp n g) = g_jobsUsedToday g" "g_walletId (applyPatch inp n g) = g_walletId g"
  "g_isActive (applyPatch inp n g) = g_isActive g" "g_userId (applyPatch inp n g) = g_userId g"
  "g_tokenHash (applyPatch inp n g) = g_tokenHash g"
  by (simp_all add: applyPatch_def Let_def)

lemmas budget_stmt_defs = resetWindow_def incrementBudget_def refundDailyBudget_def revokeAgentGrantById_def
  rotateAgentGrantToken_def Let_def

lemma budget_step_ids: "map g_ID (snd (budget_step sha x grants)) = map g_ID grants"
  by (cases x) (simp_all add: budget_stmt_defs update_where_keys)

lemma budget_of_row: "budget_of i grants = Some (w, u) \<longleftrightarrow>
    (\<exists>g. find_row g_ID i grants = Some g \<and> g_ID g = i \<and> g_budgetWindow g = w \<and> g_jobsUsedToday g = u)"
  by (auto simp: budget_of_def dest: find_row_SomeD)

lemma budget_of_update:
  assumes "find_row g_ID i grants = Some g" "\<And>g. g_ID (f g) = g_ID g"
  shows "budget_of i (update_where P f grants) = Some (if P g then (g_budgetWindow (f g), g_jobsUsedToday (f g))
           else (g_budgetWindow g, g_jobsUsedToday g))"
  using find_row_update_where [of g_ID f i P grants] assms by (simp add: budget_of_def)

lemma budget_step_budget:
  assumes "budget_of i grants = Some (w, u)"
  shows "budget_of i (snd (budget_step sha x grants)) = Some (case x of
       ResetW j snap d \<Rightarrow> if j = i \<and> w = snap then (Some d, 1) else (w, u)
     | IncrW j d m \<Rightarrow> if j = i \<and> w = Some d \<and> u < m then (w, u + 1) else (w, u)
     | RefundW j d \<Rightarrow> if j = i \<and> w = Some d \<and> u > 0 then (w, u - 1) else (w, u)
     | _ \<Rightarrow> (w, u))"
proof -
  obtain g where g: "find_row g_ID i grants = Some g" "g_ID g = i" "g_budgetWindow g = w" "g_jobsUsedToday g = u"
    using assms by (auto simp: budget_of_row)
  show ?thesis
    by (cases x) (simp_all add: budget_stmt_defs budget_of_update [OF g(1)] g assms)
qed

lemma budget_step_count:
  assumes "distinct (map g_ID grants)" "budget_of i grants = Some (w, u)"
  shows "charges i d (x, fst (budget_step sha x grants)) = (case x of
       ResetW j snap e \<Rightarrow> j = i \<and> e = d \<and> w = snap
     | IncrW j e m \<Rightarrow> j = i \<and> e = d \<and> w = Some e \<and> u < m | _ \<Rightarrow> False)"
    and "refunds i d (x, fst (budget_step sha x grants)) = (case x of
       RefundW j e \<Rightarrow> j = i \<and> e = d \<and> w = Some e \<and> u > 0 | _ \<Rightarrow> False)"
proof -
  obtain g where g: "find_row g_ID i grants = Some g" "g_budgetWindow g = w" "g_jobsUsedToday g = u"
    using assms by (auto simp: budget_of_row)
  note hit = affected_key [OF assms(1), of i]
  show "charges i d (x, fst (budget_step sha x grants)) = (case x of
       ResetW j snap e \<Rightarrow> j = i \<and> e = d \<and> w = snap
     | IncrW j e m \<Rightarrow> j = i \<and> e = d \<and> w = Some e \<and> u < m | _ \<Rightarrow> False)"
    by (cases x) (auto simp: resetWindow_def incrementBudget_def Let_def hit g split: if_splits)
  show "refunds i d (x, fst (budget_step sha x grants)) = (case x of
       RefundW j e \<Rightarrow> j = i \<and> e = d \<and> w = Some e \<and> u > 0 | _ \<Rightarrow> False)"
    by (cases x) (auto simp: refundDailyBudget_def Let_def hit g split: if_splits)
qed

text \<open>With the row's window \<open>w\<close> and counter \<open>u\<close>: what may still be added to each day's net.\<close>

lemma budget_run_net:
  assumes "distinct (map g_ID grants)" "budget_of i grants = Some (w, u)" "1 \<le> m" "0 \<le> u" "u \<le> m"
    and "list_all (stmt_ok i m) xs"
  shows "net i d (fst (budget_run sha xs grants)) \<le> (if w = Some d then m - u else if (case w of None \<Rightarrow> True | Some s \<Rightarrow> s < d) then m else 0)"
  using assms
proof (induction xs arbitrary: grants w u)
  case (Cons x xs)
  let ?g = "snd (budget_step sha x grants)"
  let ?bound = "\<lambda>w u. if w = Some d then m - u else if (case w of None \<Rightarrow> True | Some s \<Rightarrow> s < d) then m else 0"
  have d: "distinct (map g_ID ?g)" using Cons.prems(1) by (simp add: budget_step_ids)
  obtain w' u' where wu: "budget_of i ?g = Some (w', u')" and step: "(w', u') = (case x of
       ResetW j snap e \<Rightarrow> if j = i \<and> w = snap then (Some e, 1) else (w, u)
     | IncrW j e k \<Rightarrow> if j = i \<and> w = Some e \<and> u < k then (w, u + 1) else (w, u)
     | RefundW j e \<Rightarrow> if j = i \<and> w = Some e \<and> u > 0 then (w, u - 1) else (w, u)
     | _ \<Rightarrow> (w, u))"
    using budget_step_budget [OF Cons.prems(2), of sha x] by (metis surj_pair)
  have ok: "stmt_ok i m x" using Cons.prems(6) by simp
  have rng: "0 \<le> u' \<and> u' \<le> m"
    using step ok Cons.prems(3-5) by (cases x) (auto split: if_splits)
  have IH: "net i d (fst (budget_run sha xs ?g)) \<le> ?bound w' u'"
    using Cons.IH [OF d wu Cons.prems(3)] rng Cons.prems(6) by simp
  have run: "net i d (fst (budget_run sha (x # xs) grants))
      = (if charges i d (x, fst (budget_step sha x grants)) then 1 else 0)
        - (if refunds i d (x, fst (budget_step sha x grants)) then 1 else 0) + net i d (fst (budget_run sha xs ?g))"
    by (simp add: net_Cons split: prod.split)
  note cnt = budget_step_count [OF Cons.prems(1,2)]
  have quiet: ?case if "w' = w" "u' = u" "\<not> charges i d (x, fst (budget_step sha x grants))"
  proof -
    have "net i d (fst (budget_run sha (x # xs) grants)) \<le> net i d (fst (budget_run sha xs ?g))"
      unfolding run by (simp add: that(3))
    also note IH
    finally show ?thesis unfolding that(1,2) .
  qed
  show ?case
  proof (cases x)
    case (ResetW j snap e)
    show ?thesis
    proof (cases "j = i \<and> w = snap")
      case True
      with ResetW step have wu': "w' = Some e" "u' = 1" by simp_all
      have c: "charges i d (x, fst (budget_step sha x grants)) \<longleftrightarrow> e = d"
        and r: "\<not> refunds i d (x, fst (budget_step sha x grants))" unfolding cnt using True ResetW by simp_all
      have "case w of None \<Rightarrow> True | Some s \<Rightarrow> s < e" using ok True ResetW by simp
      then show ?thesis unfolding run using IH c r wu' Cons.prems(3-5) by (cases w) (simp_all split: if_splits)
    next
      case False
      then have "w' = w" "u' = u" using ResetW step by auto
      moreover have "\<not> charges i d (x, fst (budget_step sha x grants))" unfolding cnt using False ResetW by simp
      ultimately show ?thesis by (rule quiet)
    qed
  next
    case (IncrW j e k)
    show ?thesis
    proof (cases "j = i \<and> w = Some e \<and> u < k")
      case True
      with IncrW step have wu': "w' = Some e" "u' = u + 1" by simp_all
      have c: "charges i d (x, fst (budget_step sha x grants)) \<longleftrightarrow> e = d"
        and r: "\<not> refunds i d (x, fst (budget_step sha x grants))" unfolding cnt using True IncrW by auto
      show ?thesis unfolding run using IH c r wu' True by (simp split: if_splits)
    next
      case False
      then have "w' = w" "u' = u" using IncrW step by auto
      moreover have "\<not> charges i d (x, fst (budget_step sha x grants))" unfolding cnt using False IncrW by simp
      ultimately show ?thesis by (rule quiet)
    qed
  next
    case (RefundW j e)
    show ?thesis
    proof (cases "j = i \<and> w = Some e \<and> u > 0")
      case True
      with RefundW step have wu': "w' = Some e" "u' = u - 1" by simp_all
      have c: "\<not> charges i d (x, fst (budget_step sha x grants))"
        and r: "refunds i d (x, fst (budget_step sha x grants)) \<longleftrightarrow> e = d" unfolding cnt using True RefundW by auto
      show ?thesis unfolding run using IH c r wu' True by (simp split: if_splits)
    next
      case False
      then have "w' = w" "u' = u" using RefundW step by auto
      moreover have "\<not> charges i d (x, fst (budget_step sha x grants))" unfolding cnt using RefundW by simp
      ultimately show ?thesis by (rule quiet)
    qed
  next
    case (RevokeW now j)
    then show ?thesis using quiet step by (simp add: cnt)
  next
    case (RotateW rnd j)
    then show ?thesis using quiet step by (simp add: cnt)
  next
    case (PatchW j inp n)
    then show ?thesis using quiet step by (simp add: cnt)
  qed
qed simp


lemma budget_run_append:
  "budget_run sha (xs @ ys) grants = (let (l1, g1) = budget_run sha xs grants; (l2, g2) = budget_run sha ys g1 in (l1 @ l2, g2))"
  by (induction xs arbitrary: grants) (auto simp: Let_def split: prod.splits)

text \<open>The statements one request sends, with the statements \<open>ys\<close> of others in between.\<close>

definition request_stmts :: "AgentGrantRow \<Rightarrow> time \<Rightarrow> budget_stmt list \<Rightarrow> AgentGrantRow list \<Rightarrow> budget_stmt list" where
  "request_stmts grant now ys grants =
     (let today = utcDay now; maxJobs = the (g_maxJobsPerDay grant)
      in if g_budgetWindow grant = Some today then [IncrW (g_ID grant) today maxJobs]
         else if fst (resetWindow (g_ID grant) (g_budgetWindow grant) today grants) > 0
              then [ResetW (g_ID grant) (g_budgetWindow grant) today]
              else ResetW (g_ID grant) (g_budgetWindow grant) today # ys @ [IncrW (g_ID grant) today maxJobs])"

lemma consume_is_run:
  "consumeDailyBudget grant now (\<lambda>g. snd (budget_run sha ys g)) grants
   = (let r = budget_run sha (request_stmts grant now ys grants) grants
      in (\<lparr>bc_consumed = (snd (last (fst r)) > 0), bc_window = utcDay now\<rparr>, snd r))"
  by (simp add: consumeDailyBudget_def request_stmts_def budget_run_append Let_def split: prod.split)

lemma request_stmts_ok:
  "list_all (stmt_ok i m) ys \<Longrightarrow> (case g_budgetWindow grant of None \<Rightarrow> True | Some s \<Rightarrow> s \<le> utcDay now)
   \<Longrightarrow> the (g_maxJobsPerDay grant) \<le> m \<Longrightarrow> list_all (stmt_ok i m) (request_stmts grant now ys grants)"
  by (auto simp: request_stmts_def Let_def split: option.splits)

text \<open>
  C33. The daily budget is never overspent: starting from a grant whose window is not open yet, over
  every interleaving of the statements of any number of requests, refunds, revokes, rotations and
  edits, the units charged to a day minus those refunded to it never exceed the limit, provided no
  request's clock is behind the window it read. A request's own statements are such a sequence, and
  it reports that it was admitted exactly when its last statement hit the row.
\<close>

theorem budget_never_overspent:
  assumes "distinct (map g_ID grants)" "budget_of i grants = Some (None, u)" "0 \<le> u" "u \<le> m" "1 \<le> m"
    and "list_all (stmt_ok i m) xs"
  shows "int (length (filter (charges i d) (fst (budget_run sha xs grants))))
           \<le> m + int (length (filter (refunds i d) (fst (budget_run sha xs grants))))
    \<and> consumeDailyBudget grant now (\<lambda>g. snd (budget_run sha ys g)) grants
        = (let r = budget_run sha (request_stmts grant now ys grants) grants
           in (\<lparr>bc_consumed = (snd (last (fst r)) > 0), bc_window = utcDay now\<rparr>, snd r))
    \<and> (list_all (stmt_ok i m) ys \<and> (case g_budgetWindow grant of None \<Rightarrow> True | Some s \<Rightarrow> s \<le> utcDay now)
        \<and> the (g_maxJobsPerDay grant) \<le> m \<longrightarrow> list_all (stmt_ok i m) (request_stmts grant now ys grants))"
  using budget_run_net [OF assms(1,2,5,3,4,6), of d sha] consume_is_run request_stmts_ok
  by (auto simp: net_def)

definition demo_grant :: AgentGrantRow where
  "demo_grant = \<lparr>g_ID = ''g1'', g_userId = ''alice'', g_agentLabel = None, g_tokenHash = ''h'',
     g_allowedActions = Some (stringifyList [''SubmitWalletJob'']), g_walletId = Some ''w1'', g_allowedJobKinds = None,
     g_maxJobsPerDay = Some 1, g_jobsUsedToday = 0, g_budgetWindow = None, g_validUntil = None, g_isActive = True,
     g_revokedAt = None, g_createdAt = 0, g_lastUsedAt = None\<rparr>"

theorem budget_never_overspent_witness:
  "int (length (filter (charges ''g1'' 3) (fst (budget_run id [ResetW ''g1'' None 3, ResetW ''g1'' None 3, IncrW ''g1'' 3 1] [demo_grant]))))
   \<le> 1 + int (length (filter (refunds ''g1'' 3) (fst (budget_run id [ResetW ''g1'' None 3, ResetW ''g1'' None 3, IncrW ''g1'' 3 1] [demo_grant]))))"
  using budget_never_overspent [of "[demo_grant]" "''g1''" 0 1 "[ResetW ''g1'' None 3, ResetW ''g1'' None 3, IncrW ''g1'' 3 1]"]
  by (simp add: budget_of_def demo_grant_def)

text \<open>
  Without the clock hypothesis it fails: around midnight a replica whose clock is behind reads the
  new window, resets it to the old day and starts that day's count over.
\<close>

theorem clock_behind_overspends:
  "length (filter (charges ''g1'' 3) (fst (budget_run id
     [ResetW ''g1'' None 3, ResetW ''g1'' (Some 3) 4, ResetW ''g1'' (Some 4) 3] [demo_grant]))) = 2"
  by code_simp

end
