(* ===== verification/GrantUsage.thy ===== *)
theory GrantUsage imports GrantBudget begin

text \<open>
  The usage counters of a grant, \<open>srv/utils/agent-grants.ts\<close>: one row per grant, day, service and
  action. In the deferred mode deltas wait in a buffer and a flush writes them; a statement may
  fail and another replica may insert the row first.
\<close>

section \<open>Rows and buffer\<close>

record usage_key =
  k_grant :: string
  k_day :: int
  k_service :: string
  k_action :: string

record UsageDelta =
  ud_key :: usage_key
  ud_calls :: int
  ud_refunded :: int

datatype UsageMode = Sync | Deferred

record usage_state =
  us_table :: "UsageDelta list"
  us_buffer :: "(usage_key, UsageDelta) jmap"

definition usageMode :: "string \<Rightarrow> UsageMode" where
  "usageMode dbKind = (if dbKind = ''postgres'' \<or> dbKind = ''hana'' then Deferred else Sync)"

definition bufferUsage :: "usage_key \<Rightarrow> int \<Rightarrow> int \<Rightarrow> (usage_key, UsageDelta) jmap \<Rightarrow> (usage_key, UsageDelta) jmap" where
  "bufferUsage key calls refunded buf =
     (case mget buf key of
        Some d \<Rightarrow> mput buf key (d\<lparr>ud_calls := ud_calls d + calls, ud_refunded := ud_refunded d + refunded\<rparr>)
      | None \<Rightarrow> mput buf key \<lparr>ud_key = key, ud_calls = calls, ud_refunded = refunded\<rparr>)"

definition hasUsage :: "usage_key \<Rightarrow> UsageDelta list \<Rightarrow> bool" where
  "hasUsage key tab = list_ex (\<lambda>r. ud_key r = key) tab"

text \<open>UPDATE with \<open>+=\<close>; the row count is whether the key is there.\<close>

definition bumpUsage :: "usage_key \<Rightarrow> int \<Rightarrow> int \<Rightarrow> UsageDelta list \<Rightarrow> bool \<times> UsageDelta list" where
  "bumpUsage key calls refunded tab =
     (hasUsage key tab,
      update_where (\<lambda>r. ud_key r = key)
        (\<lambda>r. r\<lparr>ud_calls := ud_calls r + calls, ud_refunded := ud_refunded r + refunded\<rparr>) tab)"

text \<open>INSERT: refused (\<open>None\<close>) when the key is there.\<close>

definition insertUsage :: "usage_key \<Rightarrow> int \<Rightarrow> int \<Rightarrow> UsageDelta list \<Rightarrow> UsageDelta list option" where
  "insertUsage key calls refunded tab =
     (if hasUsage key tab then None else Some (tab @ [\<lparr>ud_key = key, ud_calls = calls, ud_refunded = refunded\<rparr>]))"

text \<open>
  Which statements of one write fail, and what another replica writes between the first UPDATE and
  the INSERT.
\<close>

record write_env =
  we_bump :: bool
  we_insert :: bool
  we_rebump :: bool
  we_race :: "UsageDelta list \<Rightarrow> UsageDelta list"

text \<open>UPDATE, else INSERT, else UPDATE again; false when a statement threw.\<close>

definition writeUsage :: "write_env \<Rightarrow> usage_key \<Rightarrow> int \<Rightarrow> int \<Rightarrow> UsageDelta list \<Rightarrow> bool \<times> UsageDelta list" where
  "writeUsage w key calls refunded tab =
     (if \<not> we_bump w then (False, tab)
      else (let (hit, tab1) = bumpUsage key calls refunded tab
            in if hit then (True, tab1)
               else (let tab2 = we_race w tab1
                     in case (if we_insert w then insertUsage key calls refunded tab2 else None) of
                          Some tab3 \<Rightarrow> (True, tab3)
                        | None \<Rightarrow> if \<not> we_rebump w then (False, tab2) else bumpUsage key calls refunded tab2)))"

section \<open>Recording, refunding, flushing\<close>

definition recordGrantUsage ::
  "bool \<Rightarrow> UsageMode \<Rightarrow> string \<Rightarrow> string \<Rightarrow> string \<Rightarrow> time \<Rightarrow> write_env \<Rightarrow> usage_state \<Rightarrow> int \<times> usage_state" where
  "recordGrantUsage detached mode grantId service action now w s =
     (let day = utcDay now;
          key = \<lparr>k_grant = grantId, k_day = day, k_service = service, k_action = action\<rparr>
      in if detached \<and> mode = Deferred then (day, s\<lparr>us_buffer := bufferUsage key 1 0 (us_buffer s)\<rparr>)
         else (day, s\<lparr>us_table := snd (writeUsage w key 1 0 (us_table s))\<rparr>))"

text \<open>The UPDATE of a refund may fail too (\<open>ok\<close>).\<close>

definition refundGrantUsage ::
  "bool \<Rightarrow> UsageMode \<Rightarrow> string \<Rightarrow> string \<Rightarrow> string \<Rightarrow> int \<Rightarrow> bool \<Rightarrow> usage_state \<Rightarrow> usage_state" where
  "refundGrantUsage detached mode grantId service action day ok s =
     (let key = \<lparr>k_grant = grantId, k_day = day, k_service = service, k_action = action\<rparr>
      in if detached \<and> mode = Deferred then s\<lparr>us_buffer := bufferUsage key 0 1 (us_buffer s)\<rparr>
         else if ok then s\<lparr>us_table := snd (bumpUsage key 0 1 (us_table s))\<rparr> else s)"

text \<open>One delta of the batch: written, or back into the buffer.\<close>

definition flushDelta :: "write_env \<Rightarrow> UsageDelta \<Rightarrow> nat \<times> nat \<times> usage_state \<Rightarrow> nat \<times> nat \<times> usage_state" where
  "flushDelta w d st =
     (case st of (flushed, failed, s) \<Rightarrow>
        (let (ok, tab) = writeUsage w (ud_key d) (ud_calls d) (ud_refunded d) (us_table s)
         in if ok then (flushed + 1, failed, s\<lparr>us_table := tab\<rparr>)
            else (flushed, failed + 1,
                  s\<lparr>us_table := tab, us_buffer := bufferUsage (ud_key d) (ud_calls d) (ud_refunded d) (us_buffer s)\<rparr>)))"

text \<open>
  \<open>env i\<close>: the environment of the write of delta \<open>i\<close>; \<open>during i\<close>: what requests buffer before it,
  as the loop awaits.
\<close>

definition bufferAll :: "(usage_key \<times> int \<times> int) list \<Rightarrow> usage_state \<Rightarrow> usage_state" where
  "bufferAll evs s = s\<lparr>us_buffer := fold (\<lambda>(k, c, r). bufferUsage k c r) evs (us_buffer s)\<rparr>"

fun flushBatch ::
  "(nat \<Rightarrow> write_env) \<Rightarrow> (nat \<Rightarrow> (usage_key \<times> int \<times> int) list) \<Rightarrow> nat \<Rightarrow> UsageDelta list
   \<Rightarrow> nat \<times> nat \<times> usage_state \<Rightarrow> nat \<times> nat \<times> usage_state" where
  "flushBatch env during i [] st = st"
| "flushBatch env during i (d # ds) (fl, fa, s) =
     flushBatch env during (Suc i) ds (flushDelta (env i) d (fl, fa, bufferAll (during i) s))"

definition flushGrantUsage ::
  "(nat \<Rightarrow> write_env) \<Rightarrow> (nat \<Rightarrow> (usage_key \<times> int \<times> int) list) \<Rightarrow> usage_state \<Rightarrow> (nat \<times> nat) \<times> usage_state" where
  "flushGrantUsage env during s =
     (if us_buffer s = [] then ((0, 0), s)
      else (let (flushed, failed, s') = flushBatch env during 0 (mvalues (us_buffer s)) (0, 0, s\<lparr>us_buffer := []\<rparr>)
            in ((flushed, failed), s')))"

section \<open>Nothing recorded is lost\<close>

text \<open>What the table and the buffer hold for a key.\<close>

definition table_sum :: "(UsageDelta \<Rightarrow> int) \<Rightarrow> usage_key \<Rightarrow> UsageDelta list \<Rightarrow> int" where
  "table_sum q k tab = sum_list (map (\<lambda>r. if ud_key r = k then q r else 0) tab)"

definition buffered :: "(UsageDelta \<Rightarrow> int) \<Rightarrow> usage_key \<Rightarrow> usage_state \<Rightarrow> int" where
  "buffered q k s = (case mget (us_buffer s) k of None \<Rightarrow> 0 | Some d \<Rightarrow> q d)"

definition total :: "(UsageDelta \<Rightarrow> int) \<Rightarrow> usage_key \<Rightarrow> usage_state \<Rightarrow> int" where
  "total q k s = table_sum q k (us_table s) + buffered q k s"

definition usage_wf :: "usage_state \<Rightarrow> bool" where
  "usage_wf s \<longleftrightarrow> distinct (map ud_key (us_table s)) \<and> jmap_wf (us_buffer s)
     \<and> (\<forall>(k, d) \<in> set (us_buffer s). ud_key d = k)"

text \<open>A counter of a delta: the calls or the refunds.\<close>

definition counter :: "(UsageDelta \<Rightarrow> int) \<Rightarrow> bool" where
  "counter q \<longleftrightarrow> q = ud_calls \<or> q = ud_refunded"

lemma counter_add: "counter q \<Longrightarrow>
    q (d\<lparr>ud_calls := ud_calls d + c, ud_refunded := ud_refunded d + r\<rparr>) = q d + q \<lparr>ud_key = k, ud_calls = c, ud_refunded = r\<rparr>"
  by (auto simp: counter_def)

lemma table_sum_absent: "\<not> hasUsage k tab \<Longrightarrow> table_sum q k tab = 0"
  unfolding table_sum_def hasUsage_def by (induction tab) auto

lemma table_sum_bump:
  assumes "counter q" "distinct (map ud_key tab)"
  shows "table_sum q k (snd (bumpUsage key c r tab))
    = table_sum q k tab + (if k = key \<and> hasUsage key tab then q \<lparr>ud_key = key, ud_calls = c, ud_refunded = r\<rparr> else 0)"
  using assms(2)
proof (induction tab)
  case (Cons x tab)
  have "table_sum q k (snd (bumpUsage key c r (x # tab)))
      = (if ud_key x = k then q (if ud_key x = key then x\<lparr>ud_calls := ud_calls x + c, ud_refunded := ud_refunded x + r\<rparr> else x) else 0)
        + table_sum q k (snd (bumpUsage key c r tab))"
    by (simp add: table_sum_def bumpUsage_def update_where_def)
  moreover have "\<not> hasUsage key tab" if "ud_key x = key" using Cons.prems that by (auto simp: hasUsage_def list_ex_iff) (metis image_eqI)
  ultimately show ?case
    using Cons counter_add [OF assms(1), where d = x and c = c and r = r and k = key] by (auto simp: table_sum_def hasUsage_def)
qed (simp add: table_sum_def bumpUsage_def update_where_def hasUsage_def)

lemma bump_keys [simp]: "map ud_key (snd (bumpUsage key c r tab)) = map ud_key tab"
  by (simp add: bumpUsage_def update_where_keys)

text \<open>Another replica only adds, and keeps the keys unique.\<close>

definition race_ok :: "write_env \<Rightarrow> bool" where
  "race_ok w \<longleftrightarrow> (\<forall>tab. distinct (map ud_key tab) \<longrightarrow> distinct (map ud_key (we_race w tab)))"

definition raced :: "(UsageDelta \<Rightarrow> int) \<Rightarrow> usage_key \<Rightarrow> write_env \<Rightarrow> usage_key \<Rightarrow> UsageDelta list \<Rightarrow> int" where
  "raced q k w key tab = (if we_bump w \<and> \<not> hasUsage key tab then table_sum q k (we_race w tab) - table_sum q k tab else 0)"

lemma bump_miss: "\<not> hasUsage key tab \<Longrightarrow> bumpUsage key c r tab = (False, tab)"
  by (auto simp: bumpUsage_def update_where_def hasUsage_def list_ex_iff intro!: map_idI)

lemma writeUsage_sum:
  assumes "counter q" "distinct (map ud_key tab)" "race_ok w"
  shows "table_sum q k (snd (writeUsage w key c r tab)) = table_sum q k tab + raced q k w key tab
      + (if k = key \<and> fst (writeUsage w key c r tab) then q \<lparr>ud_key = key, ud_calls = c, ud_refunded = r\<rparr> else 0)
    \<and> distinct (map ud_key (snd (writeUsage w key c r tab)))"
proof (cases "we_bump w \<and> \<not> hasUsage key tab")
  case False
  then show ?thesis
    using table_sum_bump [OF assms(1,2), of k key c r] assms(2)
    by (auto simp: writeUsage_def raced_def bumpUsage_def update_where_keys)
next
  case True
  let ?t = "we_race w tab"
  have d: "distinct (map ud_key ?t)" using assms(2,3) by (simp add: race_ok_def)
  have ins: "table_sum q k (?t @ [\<lparr>ud_key = key, ud_calls = c, ud_refunded = r\<rparr>])
      = table_sum q k ?t + (if k = key then q \<lparr>ud_key = key, ud_calls = c, ud_refunded = r\<rparr> else 0)"
    by (simp add: table_sum_def)
  have w: "writeUsage w key c r tab = (case (if we_insert w then insertUsage key c r ?t else None) of
      Some t \<Rightarrow> (True, t) | None \<Rightarrow> if \<not> we_rebump w then (False, ?t) else bumpUsage key c r ?t)"
    using True by (simp add: writeUsage_def bump_miss Let_def)
  show ?thesis
  proof (cases "we_insert w \<and> \<not> hasUsage key ?t")
    case True1: True
    then have "writeUsage w key c r tab = (True, ?t @ [\<lparr>ud_key = key, ud_calls = c, ud_refunded = r\<rparr>])"
      by (simp add: w insertUsage_def)
    moreover have "distinct (map ud_key (?t @ [\<lparr>ud_key = key, ud_calls = c, ud_refunded = r\<rparr>]))"
      using d True1 by (auto simp: hasUsage_def list_ex_iff)
    ultimately show ?thesis using True ins by (simp add: raced_def)
  next
    case False
    then have "writeUsage w key c r tab = (if \<not> we_rebump w then (False, ?t) else bumpUsage key c r ?t)"
      by (auto simp: w insertUsage_def)
    moreover have "fst (bumpUsage key c r ?t) = hasUsage key ?t" by (simp add: bumpUsage_def)
    ultimately show ?thesis
      using True d table_sum_bump [OF assms(1) d, of k key c r] by (auto simp: raced_def)
  qed
qed


lemma bufferUsage_sum:
  assumes "counter q" "jmap_wf buf"
  shows "(case mget (bufferUsage key c r buf) k of None \<Rightarrow> 0 | Some d \<Rightarrow> q d)
    = (case mget buf k of None \<Rightarrow> 0 | Some d \<Rightarrow> q d) + (if k = key then q \<lparr>ud_key = key, ud_calls = c, ud_refunded = r\<rparr> else 0)"
  using counter_add [OF assms(1), where c = c and r = r and k = key] by (auto simp: bufferUsage_def split: option.split)

lemma bufferUsage_wf:
  assumes "jmap_wf buf" "\<forall>(k, d) \<in> set buf. ud_key d = k"
  shows "jmap_wf (bufferUsage key c r buf) \<and> (\<forall>(k, d) \<in> set (bufferUsage key c r buf). ud_key d = k)"
  using assms by (auto simp: bufferUsage_def set_mput split: option.split dest: mget_SomeD)

text \<open>What a list of buffered events adds for a key.\<close>

definition events_sum :: "(UsageDelta \<Rightarrow> int) \<Rightarrow> usage_key \<Rightarrow> (usage_key \<times> int \<times> int) list \<Rightarrow> int" where
  "events_sum q k evs = sum_list (map (\<lambda>(key, c, r). if k = key then q \<lparr>ud_key = key, ud_calls = c, ud_refunded = r\<rparr> else 0) evs)"

lemma bufferAll_ok:
  assumes "counter q" "usage_wf s"
  shows "usage_wf (bufferAll evs s) \<and> total q k (bufferAll evs s) = total q k s + events_sum q k evs
    \<and> us_table (bufferAll evs s) = us_table s"
  using assms(2)
proof (induction evs arbitrary: s)
  case (Cons e evs)
  obtain key c r where e: "e = (key, c, r)" by (metis prod_cases3)
  let ?s = "s\<lparr>us_buffer := bufferUsage key c r (us_buffer s)\<rparr>"
  have wf: "usage_wf ?s" using Cons.prems bufferUsage_wf [of "us_buffer s" key c r] by (simp add: usage_wf_def)
  have "total q k ?s = total q k s + (if k = key then q \<lparr>ud_key = key, ud_calls = c, ud_refunded = r\<rparr> else 0)"
    using bufferUsage_sum [OF assms(1), of "us_buffer s" key c r k] Cons.prems
    by (simp add: total_def buffered_def usage_wf_def)
  moreover have "bufferAll (e # evs) s = bufferAll evs ?s" by (simp add: bufferAll_def e)
  ultimately show ?case using Cons.IH [OF wf] by (simp add: events_sum_def e)
qed (simp add: bufferAll_def events_sum_def)

text \<open>A delta in flight counts in full: it lands in the table or goes back to the buffer.\<close>

lemma flushDelta_total:
  assumes "counter q" "usage_wf s" "race_ok w"
    and race: "\<And>tab. table_sum q k (we_race w tab) = table_sum q k tab + a" and "0 \<le> a"
  shows "\<exists>n m s'. flushDelta w d (fl, fa, s) = (n, m, s') \<and> n + m = fl + fa + 1 \<and> usage_wf s'
    \<and> total q k s + (if k = ud_key d then q d else 0) \<le> total q k s'
    \<and> total q k s' \<le> total q k s + (if k = ud_key d then q d else 0) + a"
proof -
  obtain ok tab where w: "writeUsage w (ud_key d) (ud_calls d) (ud_refunded d) (us_table s) = (ok, tab)" by fastforce
  have dist: "distinct (map ud_key (us_table s))" and buf: "jmap_wf (us_buffer s)" "\<forall>(k, d) \<in> set (us_buffer s). ud_key d = k"
    using assms(2) by (simp_all add: usage_wf_def)
  have qd: "q \<lparr>ud_key = ud_key d, ud_calls = ud_calls d, ud_refunded = ud_refunded d\<rparr> = q d"
    using assms(1) by (auto simp: counter_def)
  have sum: "table_sum q k tab = table_sum q k (us_table s) + raced q k w (ud_key d) (us_table s)
      + (if k = ud_key d \<and> ok then q d else 0)" and dist': "distinct (map ud_key tab)"
    using writeUsage_sum [OF assms(1) dist assms(3), of k "ud_key d" "ud_calls d" "ud_refunded d"] w qd by simp_all
  have "0 \<le> raced q k w (ud_key d) (us_table s) \<and> raced q k w (ud_key d) (us_table s) \<le> a"
    using assms(5) by (simp add: raced_def race)
  then show ?thesis
    using sum dist' buf bufferUsage_wf [OF buf, of "ud_key d" "ud_calls d" "ud_refunded d"]
      bufferUsage_sum [OF assms(1) buf(1), of "ud_key d" "ud_calls d" "ud_refunded d" k] qd
    by (auto simp: flushDelta_def w total_def buffered_def usage_wf_def)
qed

lemma flushBatch_total:
  assumes "counter q" "usage_wf s"
    and "\<And>i. race_ok (env i) \<and> 0 \<le> a i \<and> (\<forall>tab. table_sum q k (we_race (env i) tab) = table_sum q k tab + a i)"
  shows "\<exists>n m s'. flushBatch env during i ds (fl, fa, s) = (n, m, s') \<and> n + m = fl + fa + length ds \<and> usage_wf s'
    \<and> total q k s + table_sum q k ds + (\<Sum>j \<leftarrow> [i..<i + length ds]. events_sum q k (during j)) \<le> total q k s'
    \<and> total q k s' \<le> total q k s + table_sum q k ds + (\<Sum>j \<leftarrow> [i..<i + length ds]. events_sum q k (during j))
        + (\<Sum>j \<leftarrow> [i..<i + length ds]. a j)"
  using assms(2)
proof (induction ds arbitrary: i fl fa s)
  case (Cons d ds)
  let ?s = "bufferAll (during i) s"
  have buf: "usage_wf ?s" "total q k ?s = total q k s + events_sum q k (during i)"
    using bufferAll_ok [OF assms(1) Cons.prems] by simp_all
  obtain n m s' where step: "flushDelta (env i) d (fl, fa, ?s) = (n, m, s')" "n + m = fl + fa + 1" "usage_wf s'"
      "total q k ?s + (if k = ud_key d then q d else 0) \<le> total q k s'"
      "total q k s' \<le> total q k ?s + (if k = ud_key d then q d else 0) + a i"
    using flushDelta_total [OF assms(1) buf(1), of "env i" k "a i" d fl fa] assms(3) [of i] by blast
  have range: "[i..<Suc (i + length ds)] = i # [Suc i..<Suc (i + length ds)]"
    by (rule upt_conv_Cons) simp
  show ?case
    using Cons.IH [OF step(3), of "Suc i" n m] step buf
    by (auto simp: range table_sum_def simp del: upt_Suc)
qed (simp add: table_sum_def)

lemma buffered_mvalues:
  assumes "jmap_wf m" "\<forall>(k, d) \<in> set m. ud_key d = k"
  shows "table_sum q k (mvalues m) = (case mget m k of None \<Rightarrow> 0 | Some d \<Rightarrow> q d)"
  using assms
proof (induction m)
  case (Cons e m)
  obtain k' d where e: "e = (k', d)" by (cases e)
  have "jmap_wf m" "k' \<notin> fst ` set m" using Cons.prems(1) by (auto simp: jmap_wf_def e)
  then have "mget m k' = None" by (simp add: mget_None_iff mkeys_def)
  with Cons \<open>jmap_wf m\<close> show ?case by (auto simp: table_sum_def mvalues_def mget_def e)
qed (simp add: table_sum_def mvalues_def)

text \<open>
  No admitted call is lost or counted twice by a flush: whichever of its statements fail, whatever
  other replicas insert in between and whatever requests buffer while it runs, table and buffer
  together then hold, for every key and both counters, all they held before plus what was buffered
  meanwhile, and nothing beyond what the other replicas wrote; every delta is either written or kept
  for the next flush.
\<close>

theorem flush_conserves_usage:
  assumes "counter q" "usage_wf s"
    and "\<And>i. race_ok (env i) \<and> 0 \<le> a i \<and> (\<forall>tab. table_sum q k (we_race (env i) tab) = table_sum q k tab + a i)"
  defines "n \<equiv> length (us_buffer s)"
  shows "total q k s + (\<Sum>j \<leftarrow> [0..<n]. events_sum q k (during j)) \<le> total q k (snd (flushGrantUsage env during s))
    \<and> total q k (snd (flushGrantUsage env during s))
        \<le> total q k s + (\<Sum>j \<leftarrow> [0..<n]. events_sum q k (during j)) + (\<Sum>j \<leftarrow> [0..<n]. a j)
    \<and> fst (fst (flushGrantUsage env during s)) + snd (fst (flushGrantUsage env during s)) = n
    \<and> usage_wf (snd (flushGrantUsage env during s))"
proof (cases "us_buffer s = []")
  case True
  then show ?thesis using assms(2) by (simp add: flushGrantUsage_def n_def)
next
  case False
  have wf: "usage_wf (s\<lparr>us_buffer := []\<rparr>)" using assms(2) by (simp add: usage_wf_def)
  have split: "total q k (s\<lparr>us_buffer := []\<rparr>) + table_sum q k (mvalues (us_buffer s)) = total q k s"
    using buffered_mvalues [of "us_buffer s" q k] assms(2) by (simp add: total_def buffered_def usage_wf_def)
  have len: "length (mvalues (us_buffer s)) = n" by (simp add: mvalues_def n_def)
  obtain n' m s' where r: "flushBatch env during 0 (mvalues (us_buffer s)) (0, 0, s\<lparr>us_buffer := []\<rparr>) = (n', m, s')"
    "n' + m = n" "usage_wf s'"
    "total q k s + (\<Sum>j \<leftarrow> [0..<n]. events_sum q k (during j)) \<le> total q k s'"
    "total q k s' \<le> total q k s + (\<Sum>j \<leftarrow> [0..<n]. events_sum q k (during j)) + (\<Sum>j \<leftarrow> [0..<n]. a j)"
    using flushBatch_total [OF assms(1) wf, of env a k during 0 "mvalues (us_buffer s)" 0 0] assms(3) split
    by (auto simp: len)
  then show ?thesis using False by (simp add: flushGrantUsage_def)
qed

definition demo_key :: usage_key where
  "demo_key = \<lparr>k_grant = ''g1'', k_day = 3, k_service = ''W'', k_action = ''SubmitWalletJob''\<rparr>"

definition demo_env :: write_env where
  "demo_env = \<lparr>we_bump = True, we_insert = False, we_rebump = True, we_race = id\<rparr>"

theorem flush_conserves_usage_witness:
  "total ud_calls demo_key (snd (flushGrantUsage (\<lambda>_. demo_env) (\<lambda>_. [(demo_key, 1, 0)])
      \<lparr>us_table = [], us_buffer = bufferUsage demo_key 2 0 []\<rparr>)) = 3"
  using flush_conserves_usage [of ud_calls "\<lparr>us_table = [], us_buffer = bufferUsage demo_key 2 0 []\<rparr>" "\<lambda>_. demo_env" "\<lambda>_. 0" demo_key
      "\<lambda>_. [(demo_key, 1, 0)]"]
  by (simp add: counter_def usage_wf_def bufferUsage_def race_ok_def demo_env_def mput_def upsert_def jmap_wf_def
      total_def table_sum_def buffered_def events_sum_def mget_def)

end
