(* ===== verification/GrantTokens.thy ===== *)
theory GrantTokens imports GrantBudget begin

text \<open>
  Resolving an agent token, \<open>srv/utils/agent-grants.ts\<close>: a cache of grant rows per token hash, and
  a generation counter against lookups that are in flight while a grant changes. A lookup is
  three steps: \<open>lookupToken\<close>, the SELECT, \<open>finishLookup\<close>; anything may happen in between.
\<close>

section \<open>The cache\<close>

record CachedToken =
  ct_grant :: AgentGrantRow
  ct_until :: time

record token_cache =
  tokenCache :: "(string, CachedToken) jmap"
  tokenHashOfGrant :: "(string, string) jmap"
  tokenCacheGeneration :: nat

definition TOKEN_CACHE_MAX :: nat where
  "TOKEN_CACHE_MAX = 10000"

datatype TokenResolution = Resolved AgentGrantRow | Refused int

definition invalidateTokenCache :: "string \<Rightarrow> token_cache \<Rightarrow> token_cache" where
  "invalidateTokenCache grantId c =
     (let c1 = c\<lparr>tokenCacheGeneration := tokenCacheGeneration c + 1\<rparr>
      in case mget (tokenHashOfGrant c1) grantId of
           None \<Rightarrow> c1
         | Some hash \<Rightarrow> c1\<lparr>tokenCache := mdel (tokenCache c1) hash, tokenHashOfGrant := mdel (tokenHashOfGrant c1) grantId\<rparr>)"

definition tokenCacheSize :: "token_cache \<Rightarrow> nat" where
  "tokenCacheSize c = length (tokenCache c)"

definition rememberToken :: "string \<Rightarrow> AgentGrantRow \<Rightarrow> int \<Rightarrow> time \<Rightarrow> token_cache \<Rightarrow> token_cache" where
  "rememberToken hash grant ttl now c =
     (let c1 = (if tokenCacheSize c \<ge> TOKEN_CACHE_MAX then c\<lparr>tokenCache := [], tokenHashOfGrant := []\<rparr> else c)
      in c1\<lparr>tokenCache := mput (tokenCache c1) hash \<lparr>ct_grant = grant, ct_until = now + ttl\<rparr>,
            tokenHashOfGrant := mput (tokenHashOfGrant c1) (g_ID grant) hash\<rparr>)"

section \<open>A lookup\<close>

definition isToken :: "string \<Rightarrow> bool" where
  "isToken token = (take (length AGENT_TOKEN_PREFIX) token = AGENT_TOKEN_PREFIX)"

text \<open>The part before the SELECT: an answer, or \<open>None\<close> and the row has to be read.\<close>

definition lookupToken ::
  "(string \<Rightarrow> string) \<Rightarrow> bool \<Rightarrow> time \<Rightarrow> string \<Rightarrow> token_cache \<Rightarrow> TokenResolution option \<times> token_cache" where
  "lookupToken sha cacheable now token c =
     (if \<not> isToken token then (Some (Refused 401), c)
      else if \<not> cacheable then (None, c)
      else (case mget (tokenCache c) (sha token) of
              None \<Rightarrow> (None, c)
            | Some hit \<Rightarrow>
                if ct_until hit > now
                then (Some (if isExpired (ct_grant hit) now then Refused 410 else Resolved (ct_grant hit)), c)
                else (None, c\<lparr>tokenCache := mdel (tokenCache c) (sha token)\<rparr>)))"

definition selectByHash :: "string \<Rightarrow> AgentGrantRow list \<Rightarrow> AgentGrantRow option" where
  "selectByHash hash grants = find (\<lambda>g. g_tokenHash g = hash \<and> g_isActive g) grants"

text \<open>The part after it; \<open>generation\<close> is the counter before the SELECT.\<close>

definition finishLookup ::
  "bool \<Rightarrow> int \<Rightarrow> time \<Rightarrow> string \<Rightarrow> nat \<Rightarrow> AgentGrantRow option \<Rightarrow> token_cache \<Rightarrow> TokenResolution \<times> token_cache" where
  "finishLookup cacheable ttl now hash generation row c =
     (case row of
        None \<Rightarrow> (Refused 401, c)
      | Some grant \<Rightarrow>
          if isExpired grant now then (Refused 410, c)
          else (Resolved grant,
                if cacheable \<and> generation = tokenCacheGeneration c then rememberToken hash grant ttl now c else c))"

text \<open>A lookup that nothing interrupts.\<close>

definition resolveAgentToken ::
  "(string \<Rightarrow> string) \<Rightarrow> int \<Rightarrow> time \<Rightarrow> string \<Rightarrow> AgentGrantRow list \<Rightarrow> token_cache \<Rightarrow> TokenResolution \<times> token_cache" where
  "resolveAgentToken sha ttl now token grants c =
     (let cacheable = (ttl > 0)
      in case lookupToken sha cacheable now token c of
           (Some r, c1) \<Rightarrow> (r, c1)
         | (None, c1) \<Rightarrow> finishLookup cacheable ttl now (sha token) (tokenCacheGeneration c1)
                           (selectByHash (sha token) grants) c1)"

record agent_user =
  au_id :: string
  au_roles :: "string list"
  au_grantId :: string
  au_operator :: string
  au_walletId :: string

definition agentPrincipalId :: "string \<Rightarrow> string" where
  "agentPrincipalId grantId = ''agent:'' @ grantId"

definition makeAgentUser :: "AgentGrantRow \<Rightarrow> agent_user" where
  "makeAgentUser grant = \<lparr>au_id = agentPrincipalId (g_ID grant), au_roles = [''agent-grant''], au_grantId = g_ID grant,
     au_operator = g_userId grant, au_walletId = nullish (g_walletId grant) []\<rparr>"

section \<open>Interleavings\<close>

text \<open>What a request may do with a grant: everything but the counters and timestamps.\<close>

definition authority :: "AgentGrantRow \<Rightarrow> AgentGrantRow" where
  "authority g = g\<lparr>g_jobsUsedToday := 0, g_budgetWindow := None, g_lastUsedAt := None\<rparr>"

record inflight =
  if_hash :: string
  if_generation :: nat
  if_row :: "AgentGrantRow option option"

record token_state =
  ts_grants :: "AgentGrantRow list"
  ts_cache :: token_cache
  ts_inflight :: "inflight list"

datatype token_event =
    StartLookup time string
  | ReadRow nat
  | FinishLookup nat time int
  | AdminRevoke time string
  | AdminRotate string string
  | AdminPatch string UpdateAgentGrantInput NormalizedGrantInput
  | Issued AgentGrantRow
  | BudgetWrite budget_stmt

text \<open>
  One step on a replica: an admin write is committed and invalidated at once; a grant is issued
  under a fresh id. \<open>cacheable\<close> lookups only: the others leave the cache alone.
\<close>

fun token_step :: "(string \<Rightarrow> string) \<Rightarrow> token_event \<Rightarrow> token_state \<Rightarrow> token_state" where
  "token_step sha (StartLookup now token) s =
     (case lookupToken sha True now token (ts_cache s) of
        (Some r, c) \<Rightarrow> s\<lparr>ts_cache := c\<rparr>
      | (None, c) \<Rightarrow> s\<lparr>ts_cache := c, ts_inflight := ts_inflight s @
          [\<lparr>if_hash = sha token, if_generation = tokenCacheGeneration c, if_row = None\<rparr>]\<rparr>)"
| "token_step sha (ReadRow n) s =
     (if n < length (ts_inflight s)
      then s\<lparr>ts_inflight := (ts_inflight s)[n := (ts_inflight s ! n)
             \<lparr>if_row := Some (selectByHash (if_hash (ts_inflight s ! n)) (ts_grants s))\<rparr>]\<rparr>
      else s)"
| "token_step sha (FinishLookup n now ttl) s =
     (if n < length (ts_inflight s)
      then (case if_row (ts_inflight s ! n) of
              None \<Rightarrow> s
            | Some row \<Rightarrow> s\<lparr>ts_cache := snd (finishLookup True ttl now (if_hash (ts_inflight s ! n))
                (if_generation (ts_inflight s ! n)) row (ts_cache s))\<rparr>)
      else s)"
| "token_step sha (AdminRevoke now i) s =
     s\<lparr>ts_grants := snd (revokeAgentGrantById now i (ts_grants s)), ts_cache := invalidateTokenCache i (ts_cache s)\<rparr>"
| "token_step sha (AdminRotate rnd i) s =
     s\<lparr>ts_grants := snd (rotateAgentGrantToken sha rnd i (ts_grants s)), ts_cache := invalidateTokenCache i (ts_cache s)\<rparr>"
| "token_step sha (AdminPatch i inp n) s =
     s\<lparr>ts_grants := update_where (activeWithId i) (applyPatch inp n) (ts_grants s), ts_cache := invalidateTokenCache i (ts_cache s)\<rparr>"
| "token_step sha (Issued g) s =
     (if g_ID g \<in> g_ID ` set (ts_grants s) then s else s\<lparr>ts_grants := ts_grants s @ [g]\<rparr>)"
| "token_step sha (BudgetWrite (RevokeW t i)) s = s"
| "token_step sha (BudgetWrite (RotateW r i)) s = s"
| "token_step sha (BudgetWrite (PatchW i a b)) s = s"
| "token_step sha (BudgetWrite x) s = s\<lparr>ts_grants := snd (budget_step sha x (ts_grants s))\<rparr>"

section \<open>The cache agrees with the table\<close>

text \<open>A row with this authority, active and with this token hash, is in the table.\<close>

definition current :: "AgentGrantRow list \<Rightarrow> string \<Rightarrow> AgentGrantRow \<Rightarrow> bool" where
  "current grants hash g \<longleftrightarrow> (\<exists>r \<in> set grants. authority r = authority g \<and> g_isActive r \<and> g_tokenHash r = hash)"

definition token_inv :: "token_state \<Rightarrow> bool" where
  "token_inv s \<longleftrightarrow> distinct (map g_ID (ts_grants s))
     \<and> (\<forall>h ct. mget (tokenCache (ts_cache s)) h = Some ct \<longrightarrow>
        current (ts_grants s) h (ct_grant ct) \<and> mget (tokenHashOfGrant (ts_cache s)) (g_ID (ct_grant ct)) = Some h)
     \<and> (\<forall>l \<in> set (ts_inflight s). \<forall>g. if_row l = Some (Some g) \<longrightarrow> if_generation l = tokenCacheGeneration (ts_cache s)
          \<longrightarrow> current (ts_grants s) (if_hash l) g)
     \<and> (\<forall>l \<in> set (ts_inflight s). if_generation l \<le> tokenCacheGeneration (ts_cache s))"

lemma authority_fields:
  "authority r = authority g \<Longrightarrow> g_ID r = g_ID g \<and> g_isActive r = g_isActive g \<and> g_tokenHash r = g_tokenHash g"
  by (metis AgentGrantRow.ext_inject AgentGrantRow.surjective AgentGrantRow.update_convs(9,10,15) authority_def)


lemma current_mono: "current grants h g \<Longrightarrow> set grants \<subseteq> set grants' \<Longrightarrow> current grants' h g"
  by (auto simp: current_def)

lemma current_other:
  assumes "current grants h g" "g_ID g \<noteq> i"
  shows "current (update_where (activeWithId i) f grants) h g"
proof -
  obtain r where r: "r \<in> set grants" "authority r = authority g" "g_isActive r" "g_tokenHash r = h"
    using assms(1) by (auto simp: current_def)
  then have "g_ID r \<noteq> i" using authority_fields assms(2) by metis
  then have "r \<in> set (update_where (activeWithId i) f grants)"
    using r(1) by (auto simp: set_update_where activeWithId_def image_iff intro!: bexI [of _ r])
  with r show ?thesis by (auto simp: current_def)
qed

lemma current_map:
  assumes "current grants h g" "\<And>r. authority (f r) = authority r"
  shows "current (map f grants) h g"
proof -
  obtain r where r: "r \<in> set grants" "authority r = authority g" "g_isActive r" "g_tokenHash r = h"
    using assms(1) by (auto simp: current_def)
  have "f r \<in> set (map f grants)" using r(1) by simp
  moreover have "g_isActive (f r) \<and> g_tokenHash (f r) = h" using assms(2) [of r] authority_fields r by metis
  ultimately show ?thesis unfolding current_def using r(2) assms(2) by metis
qed

lemma current_select: "selectByHash h grants = Some g \<Longrightarrow> current grants h g"
  by (auto simp: selectByHash_def current_def find_Some_iff)

lemma current_same_grant:
  assumes "distinct (map g_ID grants)" "current grants h g" "current grants h' g'" "g_ID g = g_ID g'"
  shows "h = h'"
proof -
  obtain r r' where "r \<in> set grants" "authority r = authority g" "g_tokenHash r = h"
      "r' \<in> set grants" "authority r' = authority g'" "g_tokenHash r' = h'"
    using assms(2,3) by (auto simp: current_def)
  moreover from this have "g_ID r = g_ID r'" using authority_fields assms(4) by metis
  ultimately have "r = r'" using assms(1) by (metis distinct_map inj_onD)
  with \<open>g_tokenHash r = h\<close> \<open>g_tokenHash r' = h'\<close> show ?thesis by simp
qed

definition cache_inv :: "AgentGrantRow list \<Rightarrow> token_cache \<Rightarrow> bool" where
  "cache_inv grants c \<longleftrightarrow> (\<forall>h ct. mget (tokenCache c) h = Some ct \<longrightarrow>
     current grants h (ct_grant ct) \<and> mget (tokenHashOfGrant c) (g_ID (ct_grant ct)) = Some h)"

definition flight_inv :: "AgentGrantRow list \<Rightarrow> nat \<Rightarrow> inflight \<Rightarrow> bool" where
  "flight_inv grants gen l \<longleftrightarrow> if_generation l \<le> gen
     \<and> (\<forall>g. if_row l = Some (Some g) \<longrightarrow> if_generation l = gen \<longrightarrow> current grants (if_hash l) g)"

lemma token_inv_iff:
  "token_inv s \<longleftrightarrow> distinct (map g_ID (ts_grants s)) \<and> cache_inv (ts_grants s) (ts_cache s)
     \<and> (\<forall>l \<in> set (ts_inflight s). flight_inv (ts_grants s) (tokenCacheGeneration (ts_cache s)) l)"
  by (auto simp: token_inv_def cache_inv_def flight_inv_def)

text \<open>An admin write: the grants with other ids stay, the grant's entry goes, lookups in flight are outdated.\<close>

lemma cache_inv_admin:
  assumes "cache_inv grants c"
  shows "cache_inv (update_where (activeWithId i) f grants) (invalidateTokenCache i c)"
  unfolding cache_inv_def
proof (intro allI impI)
  fix h and ct :: CachedToken
  let ?c = "invalidateTokenCache i c" and ?i = "g_ID (ct_grant ct)"
  assume hit: "mget (tokenCache ?c) h = Some ct"
  have keep: "mget (tokenCache c) h = Some ct \<and> mget (tokenHashOfGrant c) i \<noteq> Some h"
    using hit by (auto simp: invalidateTokenCache_def Let_def split: option.splits if_splits)
  with assms have old: "current grants h (ct_grant ct)" "mget (tokenHashOfGrant c) ?i = Some h"
    by (auto simp: cache_inv_def)
  with keep have other: "?i \<noteq> i" by auto
  then have "mget (tokenHashOfGrant ?c) ?i = mget (tokenHashOfGrant c) ?i"
    by (simp add: invalidateTokenCache_def Let_def split: option.split)
  with old other current_other [OF old(1)]
  show "current (update_where (activeWithId i) f grants) h (ct_grant ct) \<and> mget (tokenHashOfGrant ?c) ?i = Some h" by simp
qed

lemma generation_invalidate [simp]: "tokenCacheGeneration (invalidateTokenCache i c) = Suc (tokenCacheGeneration c)"
  by (simp add: invalidateTokenCache_def Let_def split: option.split)

lemma token_inv_admin:
  assumes "token_inv s" "\<And>g. g_ID (f g) = g_ID g"
  shows "token_inv (s\<lparr>ts_grants := update_where (activeWithId i) f (ts_grants s), ts_cache := invalidateTokenCache i (ts_cache s)\<rparr>)"
proof -
  have "map g_ID (update_where (activeWithId i) f (ts_grants s)) = map g_ID (ts_grants s)"
    by (rule update_where_keys) (rule assms(2))
  moreover have "\<forall>l \<in> set (ts_inflight s). flight_inv (update_where (activeWithId i) f (ts_grants s))
      (Suc (tokenCacheGeneration (ts_cache s))) l"
  proof
    fix l assume "l \<in> set (ts_inflight s)"
    then have "if_generation l \<le> tokenCacheGeneration (ts_cache s)"
      using assms(1) by (simp add: token_inv_def)
    then show "flight_inv (update_where (activeWithId i) f (ts_grants s)) (Suc (tokenCacheGeneration (ts_cache s))) l"
      by (simp add: flight_inv_def)
  qed
  ultimately show ?thesis
    using assms(1) cache_inv_admin [of "ts_grants s" "ts_cache s" i f] unfolding token_inv_iff by simp
qed

lemma update_where_id [simp]: "update_where P id t = t"
  by (simp add: update_where_def map_idI)

lemma token_inv_map:
  assumes "token_inv s" "\<And>r. authority (f r) = authority r"
  shows "token_inv (s\<lparr>ts_grants := map f (ts_grants s)\<rparr>)"
proof -
  have "g_ID (f r) = g_ID r" for r using authority_fields [OF assms(2)] by blast
  then have "g_ID \<circ> f = g_ID" by (simp add: fun_eq_iff)
  then show ?thesis using assms(1) current_map [OF _ assms(2)]
    by (simp add: token_inv_def)
qed

lemma token_inv_start:
  assumes "token_inv s"
  shows "token_inv (token_step sha (StartLookup now token) s)"
proof -
  obtain r c where l: "lookupToken sha True now token (ts_cache s) = (r, c)" by fastforce
  have "cache_inv (ts_grants s) c \<and> tokenCacheGeneration c = tokenCacheGeneration (ts_cache s)"
    using assms l by (auto simp: lookupToken_def token_inv_iff cache_inv_def split: if_splits option.splits)
  with assms show ?thesis by (auto simp: l token_inv_iff flight_inv_def split: option.split)
qed

lemma remember_inv:
  assumes "distinct (map g_ID grants)" "cache_inv grants c" "current grants h g"
  shows "cache_inv grants (rememberToken h g ttl now c)"
  using assms current_same_grant [OF assms(1)]
  by (auto simp: cache_inv_def rememberToken_def Let_def split: if_splits) blast

lemma generation_remember [simp]: "tokenCacheGeneration (rememberToken h g ttl now c) = tokenCacheGeneration c"
  by (simp add: rememberToken_def Let_def)

lemma token_inv_finish:
  assumes "token_inv s"
  shows "token_inv (token_step sha (FinishLookup n now ttl) s)"
proof (cases "n < length (ts_inflight s)")
  case True
  let ?l = "ts_inflight s ! n"
  have f: "flight_inv (ts_grants s) (tokenCacheGeneration (ts_cache s)) ?l"
    using assms True by (simp add: token_inv_iff)
  show ?thesis
  proof (cases "if_row ?l")
    case None
    then show ?thesis using assms by simp
  next
    case (Some row)
    let ?c = "snd (finishLookup True ttl now (if_hash ?l) (if_generation ?l) row (ts_cache s))"
    have "cache_inv (ts_grants s) ?c \<and> tokenCacheGeneration ?c = tokenCacheGeneration (ts_cache s)"
      using assms f Some by (auto simp: finishLookup_def token_inv_iff flight_inv_def intro!: remember_inv split: option.split)
    with assms show ?thesis by (simp add: True Some token_inv_iff)
  qed
qed (use assms in simp)

lemma token_inv_step:
  assumes "token_inv s"
  shows "token_inv (token_step sha e s)"
proof (cases e)
  case (StartLookup now token)
  then show ?thesis using token_inv_start [OF assms] by simp
next
  case (ReadRow n)
  then show ?thesis
    using assms current_select nth_mem [of n "ts_inflight s"]
    by (auto simp: token_inv_iff flight_inv_def dest!: set_update_subset_insert [THEN subsetD])
next
  case (FinishLookup n now ttl)
  then show ?thesis using token_inv_finish [OF assms] by simp
next
  case (AdminRevoke now i)
  have "snd (revokeAgentGrantById now i (ts_grants s)) = ts_grants s
      \<or> snd (revokeAgentGrantById now i (ts_grants s))
        = update_where (activeWithId i) (\<lambda>g. g\<lparr>g_isActive := False, g_revokedAt := Some now\<rparr>) (ts_grants s)"
    by (simp add: revokeAgentGrantById_def)
  then show ?thesis
    using token_inv_admin [OF assms, of "\<lambda>g. g\<lparr>g_isActive := False, g_revokedAt := Some now\<rparr>" i]
      token_inv_admin [OF assms, of id i]
    by (auto simp: AdminRevoke)
next
  case (AdminRotate rnd i)
  have "snd (rotateAgentGrantToken sha rnd i (ts_grants s)) = ts_grants s
      \<or> snd (rotateAgentGrantToken sha rnd i (ts_grants s))
        = update_where (activeWithId i) (\<lambda>g. g\<lparr>g_tokenHash := sha (AGENT_TOKEN_PREFIX @ rnd)\<rparr>) (ts_grants s)"
    by (simp add: rotateAgentGrantToken_def Let_def)
  then show ?thesis
    using token_inv_admin [OF assms, of "\<lambda>g. g\<lparr>g_tokenHash := sha (AGENT_TOKEN_PREFIX @ rnd)\<rparr>" i]
      token_inv_admin [OF assms, of id i]
    by (auto simp: AdminRotate)
next
  case (AdminPatch i inp n)
  then show ?thesis using token_inv_admin [OF assms, of "applyPatch inp n" i] by simp
next
  case (Issued g)
  have "current (ts_grants s @ [g]) h g'" if "current (ts_grants s) h g'" for h g'
    by (rule current_mono [OF that]) auto
  then show ?thesis using assms by (auto simp: Issued token_inv_def)
next
  case (BudgetWrite x)
  show ?thesis
    using assms
    by (cases x) (auto simp: BudgetWrite resetWindow_def incrementBudget_def refundDailyBudget_def Let_def update_where_def authority_def
        intro!: token_inv_map [OF assms])
qed


lemma token_inv_run: "token_inv s \<Longrightarrow> token_inv (fold (token_step sha) es s)"
  by (rule fold_invar) (auto intro: token_inv_step)

text \<open>
  C34. A cached answer is never out of date on the replica that keeps the cache: from an empty cache,
  after any interleaving of lookups (however long they are in flight), revokes, rotations, edits,
  new grants and budget writes, when the cache answers a token with a grant then an active row with
  that token's hash and the same authority is in the table at that moment.
\<close>

theorem cached_grant_is_current:
  assumes "distinct (map g_ID grants)"
    and "s = fold (token_step sha) es
          \<lparr>ts_grants = grants, ts_cache = \<lparr>tokenCache = [], tokenHashOfGrant = [], tokenCacheGeneration = 0\<rparr>, ts_inflight = []\<rparr>"
    and "fst (lookupToken sha True now token (ts_cache s)) = Some (Resolved g)"
  shows "\<exists>r \<in> set (ts_grants s). g_tokenHash r = sha token \<and> g_isActive r \<and> authority r = authority g"
proof -
  have "token_inv s"
    unfolding assms(2) by (rule token_inv_run) (simp add: token_inv_def assms(1))
  moreover obtain ct where "mget (tokenCache (ts_cache s)) (sha token) = Some ct" "g = ct_grant ct"
    using assms(3) by (auto simp: lookupToken_def split: if_splits option.splits)
  ultimately have "current (ts_grants s) (sha token) g" by (simp add: token_inv_iff cache_inv_def)
  then show ?thesis by (auto simp: current_def)
qed

definition demo_token_state :: token_state where
  "demo_token_state = \<lparr>ts_grants = [demo_grant\<lparr>g_tokenHash := ''odat_7''\<rparr>],
     ts_cache = \<lparr>tokenCache = [], tokenHashOfGrant = [], tokenCacheGeneration = 0\<rparr>, ts_inflight = []\<rparr>"

theorem cached_grant_is_current_witness:
  "list_ex (\<lambda>r. g_tokenHash r = ''odat_7'' \<and> g_isActive r)
     (ts_grants (fold (token_step id) [StartLookup 1 ''odat_7'', ReadRow 0, FinishLookup 0 2 100] demo_token_state))"
proof -
  let ?es = "[StartLookup 1 ''odat_7'', ReadRow 0, FinishLookup 0 2 100]"
  let ?s = "fold (token_step id) ?es demo_token_state"
  have s: "?s = fold (token_step id) ?es \<lparr>ts_grants = [demo_grant\<lparr>g_tokenHash := ''odat_7''\<rparr>],
      ts_cache = \<lparr>tokenCache = [], tokenHashOfGrant = [], tokenCacheGeneration = 0\<rparr>, ts_inflight = []\<rparr>"
    by (simp only: demo_token_state_def)
  have hit: "fst (lookupToken id True 5 ''odat_7'' (ts_cache ?s)) = Some (Resolved (demo_grant\<lparr>g_tokenHash := ''odat_7''\<rparr>))"
    by code_simp
  have "distinct (map g_ID [demo_grant\<lparr>g_tokenHash := ''odat_7''\<rparr>])" by simp
  from cached_grant_is_current [OF this s hit] show ?thesis
    unfolding list_ex_iff by (metis id_apply)
qed

text \<open>
  The admin actions run in the request's transaction: they invalidate before it commits. A lookup
  in between still reads the old row and caches it, and the revoked token is answered from the
  cache after the commit.
\<close>

theorem revoked_token_stays_cached:
  "(let grants0 = [demo_grant\<lparr>g_tokenHash := ''odat_7''\<rparr>];
        grants1 = snd (revokeAgentGrantById 1 ''g1'' grants0);
        c0 = \<lparr>tokenCache = [], tokenHashOfGrant = [], tokenCacheGeneration = 0\<rparr>;
        c1 = invalidateTokenCache ''g1'' c0;
        (r, c2) = resolveAgentToken id 10000 2 ''odat_7'' grants0 c1;
        (r', c3) = resolveAgentToken id 10000 9000 ''odat_7'' grants1 c2
    in (case r' of Resolved g \<Rightarrow> g_ID g = ''g1'' | _ \<Rightarrow> False) \<and> list_all (\<lambda>g. \<not> g_isActive g) grants1)"
  by code_simp

end
