(* ===== verification/GrantAdmin.thy ===== *)
theory GrantAdmin imports GrantUsage GrantTokens begin

text \<open>
  The admin side of agent grants, \<open>srv/utils/agent-grants.ts\<close>: every stored grant stays well-formed,
  the usage window, the status and usage a caller sees, and the handlers of \<open>CardanoAgentService\<close>
  with their checks. A rejected request is its HTTP status.
\<close>

section \<open>Well-formed grants\<close>

definition grant_wf :: "AgentGrantRow \<Rightarrow> bool" where
  "grant_wf g \<longleftrightarrow>
     (let actions = parseGrantList (g_allowedActions g); kinds = parseGrantList (g_allowedJobKinds g)
      in g_userId g \<noteq> [] \<and> actions \<noteq> [] \<and> distinct actions
         \<and> list_all (\<lambda>a. a \<in> set AGENT_ALLOWLISTABLE_ACTIONS) actions
         \<and> distinct kinds \<and> list_all (\<lambda>k. k \<in> set AGENT_JOB_KINDS) kinds
         \<and> (g_walletId g = None \<longrightarrow> \<not> wantsWallet actions)
         \<and> (kinds \<noteq> [] \<longrightarrow> wantsWallet actions)
         \<and> (case g_walletId g of None \<Rightarrow> True | Some w \<Rightarrow> trim w = w \<and> w \<noteq> [] \<and> length w \<le> 50)
         \<and> (case g_maxJobsPerDay g of None \<Rightarrow> True | Some n \<Rightarrow> 1 \<le> n)
         \<and> (case g_agentLabel g of None \<Rightarrow> True | Some l \<Rightarrow> trim l = l \<and> l \<noteq> [] \<and> length l \<le> 100))"

lemma map_filter_Some [simp]: "List.map_filter id (map Some xs) = xs"
  by (induction xs) (simp_all add: List.map_filter_simps)

lemma parse_stringify [simp]: "parseGrantList (Some (stringifyList xs)) = xs" "parseGrantList None = []"
  by (simp_all add: parseGrantList_def stringifyList_def)

lemma parse_kindsColumn [simp]: "parseGrantList (kindsColumn ks) = ks"
  by (simp add: kindsColumn_def)

lemma trim_idem [simp]: "trim (trim s) = trim s"
proof -
  have drop: "dropWhile P (dropWhile P xs) = dropWhile P xs" for P and xs :: string
    by (induction xs) auto
  let ?l = "dropWhile js_space"
  have hd: "?l (rev (?l (rev (?l s)))) = rev (?l (rev (?l s)))"
  proof (cases "rev (?l (rev (?l s)))")
    case (Cons c cs)
    obtain t where "rev (?l s) = t @ ?l (rev (?l s))" by (metis takeWhile_dropWhile_id)
    then have "?l s = rev (?l (rev (?l s))) @ rev t" by (metis rev_append rev_rev_ident)
    then have "hd (?l s) = c" "?l s \<noteq> []" using Cons by simp_all
    then have "\<not> js_space c" using hd_dropWhile [of js_space s] by (auto simp: dropWhile_eq_Nil_conv)
    with Cons show ?thesis by simp
  next
    case Nil
    show ?thesis unfolding Nil by simp
  qed
  show ?thesis by (simp add: trim_def hd drop)
qed

lemma trimmed_Some: "trimmed v = Some s \<Longrightarrow> trim s = s \<and> s \<noteq> []"
  by (auto simp: trimmed_def split: option.splits if_splits)

lemma trimmed_id: "(case v of None \<Rightarrow> True | Some w \<Rightarrow> trim w = w \<and> w \<noteq> []) \<Longrightarrow> trimmed v = v"
  by (auto simp: trimmed_def split: option.splits)

text \<open>What validation lets through.\<close>

lemma validateGrantInput_Inr:
  assumes "validateGrantInput parse input now = Inr n"
  shows "\<exists>actions. gi_allowedActions input = Some actions \<and> actions \<noteq> [] \<and> n_allowedActions n = jset actions
      \<and> set actions \<subseteq> set AGENT_ALLOWLISTABLE_ACTIONS"
    and "n_walletId n = trimmed (gi_walletId input)" "wantsWallet (n_allowedActions n) \<Longrightarrow> n_walletId n \<noteq> None"
    and "\<not> longer 50 (n_walletId n)"
    and "n_allowedJobKinds n = jset (nullish (gi_allowedJobKinds input) [])"
    and "set (n_allowedJobKinds n) \<subseteq> set AGENT_JOB_KINDS" "n_allowedJobKinds n \<noteq> [] \<Longrightarrow> wantsWallet (n_allowedActions n)"
    and "n_maxJobsPerDay n = None \<or> (\<exists>k. n_maxJobsPerDay n = Some k \<and> 1 \<le> k)"
    and "n_agentLabel n = trimmed (gi_agentLabel input)" "\<not> longer 100 (n_agentLabel n)"
    and "n_validUntil n = None \<or> (\<exists>t. n_validUntil n = Some t \<and> now < t)"
proof -
  obtain actions kinds mx un where
    a: "validActions (gi_allowedActions input) = Inr actions"
    and w: "\<not> (wantsWallet actions \<and> trimmed (gi_walletId input) = None)" "\<not> longer 50 (trimmed (gi_walletId input))"
    and k: "validKinds (wantsWallet actions) (gi_allowedJobKinds input) = Inr kinds"
    and m: "validMax (gi_maxJobsPerDay input) = Inr mx" and u: "validUntil parse now (gi_validUntil input) = Inr un"
    and l: "\<not> longer 100 (trimmed (gi_agentLabel input))"
    and n: "n = \<lparr>n_allowedActions = actions, n_walletId = trimmed (gi_walletId input), n_allowedJobKinds = kinds,
          n_maxJobsPerDay = mx, n_validUntil = un, n_agentLabel = trimmed (gi_agentLabel input)\<rparr>"
    using assms unfolding validateGrantInput_def Let_def inr_iff by auto
  show "\<exists>actions. gi_allowedActions input = Some actions \<and> actions \<noteq> [] \<and> n_allowedActions n = jset actions
      \<and> set actions \<subseteq> set AGENT_ALLOWLISTABLE_ACTIONS"
    using a by (auto simp: n validActions_def inr_iff Let_def filter_empty_conv split: option.splits)
  show "n_walletId n = trimmed (gi_walletId input)" "wantsWallet (n_allowedActions n) \<Longrightarrow> n_walletId n \<noteq> None"
    "\<not> longer 50 (n_walletId n)" "n_agentLabel n = trimmed (gi_agentLabel input)" "\<not> longer 100 (n_agentLabel n)"
    using w l by (auto simp: n)
  show "n_allowedJobKinds n = jset (nullish (gi_allowedJobKinds input) [])"
    "set (n_allowedJobKinds n) \<subseteq> set AGENT_JOB_KINDS" "n_allowedJobKinds n \<noteq> [] \<Longrightarrow> wantsWallet (n_allowedActions n)"
    using k by (auto simp: n validKinds_def inr_iff Let_def filter_empty_conv nullish_def split: option.splits)
  show "n_maxJobsPerDay n = None \<or> (\<exists>k. n_maxJobsPerDay n = Some k \<and> 1 \<le> k)"
    using m by (auto simp: n validMax_def split: option.splits js_number.splits if_splits)
  show "n_validUntil n = None \<or> (\<exists>t. n_validUntil n = Some t \<and> now < t)"
    using u by (auto simp: n validUntil_def split: option.splits if_splits)
qed

lemma longer_simps: "\<not> longer k v \<Longrightarrow> v = Some s \<Longrightarrow> length s \<le> k"
  by (simp add: longer_def)

text \<open>A row with the columns of validated input is well-formed.\<close>

lemma normalized_wf:
  assumes "validateGrantInput parse input now = Inr n" "g_userId g \<noteq> []"
    and "parseGrantList (g_allowedActions g) = n_allowedActions n" "parseGrantList (g_allowedJobKinds g) = n_allowedJobKinds n"
    and "g_walletId g = n_walletId n" "g_maxJobsPerDay g = n_maxJobsPerDay n" "g_agentLabel g = n_agentLabel n"
  shows "grant_wf g"
proof -
  note v = validateGrantInput_Inr [OF assms(1)]
  obtain actions where a: "n_allowedActions n = jset actions" "actions \<noteq> []" "set actions \<subseteq> set AGENT_ALLOWLISTABLE_ACTIONS"
    using v(1) by auto
  have k: "distinct (n_allowedJobKinds n)" unfolding v(5) by simp
  have w: "case n_walletId n of None \<Rightarrow> True | Some w \<Rightarrow> trim w = w \<and> w \<noteq> [] \<and> length w \<le> 50"
    using v(2,4) trimmed_Some [of "gi_walletId input"] by (auto simp: longer_def split: option.splits)
  have l: "case n_agentLabel n of None \<Rightarrow> True | Some l \<Rightarrow> trim l = l \<and> l \<noteq> [] \<and> length l \<le> 100"
    using v(9,10) trimmed_Some [of "gi_agentLabel input"] by (auto simp: longer_def split: option.splits)
  have m: "case n_maxJobsPerDay n of None \<Rightarrow> True | Some k \<Rightarrow> 1 \<le> k" using v(8) by auto
  show ?thesis
    unfolding grant_wf_def Let_def assms(3-7)
    using assms(2) a k w l m v(3,6,7) by (auto simp: list_all_iff)
qed


text \<open>An edit validates the stored row with the given fields over it, so the patched row is well-formed.\<close>

lemma patched_wf:
  assumes "grant_wf g" "validateGrantInput parse (mergedInput g input) now = Inr n"
  shows "grant_wf (applyPatch input n g)"
proof (rule normalized_wf [OF assms(2)])
  note v = validateGrantInput_Inr [OF assms(2)]
  show "g_userId (applyPatch input n g) \<noteq> []" using assms(1) by (simp add: grant_wf_def Let_def)
  have w: "trimmed (g_walletId g) = g_walletId g"
    using assms(1) by (intro trimmed_id) (auto simp: grant_wf_def Let_def split: option.splits)
  show "g_walletId (applyPatch input n g) = n_walletId n" unfolding v(2) by (simp add: mergedInput_def w)
  show "parseGrantList (g_allowedActions (applyPatch input n g)) = n_allowedActions n"
    using v(1) assms(1) by (auto simp: applyPatch_def mergedInput_def Let_def grant_wf_def jset_id)
  show "parseGrantList (g_allowedJobKinds (applyPatch input n g)) = n_allowedJobKinds n"
    using v(5) assms(1) by (auto simp: applyPatch_def mergedInput_def Let_def grant_wf_def jset_id)
  have "validMax (gi_maxJobsPerDay (mergedInput g input)) = Inr (n_maxJobsPerDay n)"
    using assms(2) unfolding validateGrantInput_def Let_def inr_iff by auto
  then show "g_maxJobsPerDay (applyPatch input n g) = n_maxJobsPerDay n"
    by (auto simp: applyPatch_def mergedInput_def Let_def validMax_def split: option.splits if_splits)
  have l: "trimmed (g_agentLabel g) = g_agentLabel g"
    using assms(1) by (intro trimmed_id) (auto simp: grant_wf_def Let_def split: option.splits)
  show "g_agentLabel (applyPatch input n g) = n_agentLabel n"
    unfolding v(9) by (simp add: applyPatch_def mergedInput_def Let_def l v(9))
qed

datatype admin_op =
    IssueOp time string string IssueAgentGrantInput string
  | RevokeOp time string
  | RotateOp string string
  | UpdateOp time string UpdateAgentGrantInput
  | BudgetOp budget_stmt

text \<open>A fresh grant gets an id that is not in use (a UUID).\<close>

fun admin_step :: "(string \<Rightarrow> string) \<Rightarrow> (string \<Rightarrow> time option) \<Rightarrow> admin_op \<Rightarrow> AgentGrantRow list \<Rightarrow> AgentGrantRow list" where
  "admin_step sha parse (IssueOp now uuid rnd input operator) grants =
     (if uuid \<in> g_ID ` set grants then grants else snd (issueAgentGrant sha parse now uuid rnd input operator grants))"
| "admin_step sha parse (RevokeOp now i) grants = snd (revokeAgentGrantById now i grants)"
| "admin_step sha parse (RotateOp rnd i) grants = snd (rotateAgentGrantToken sha rnd i grants)"
| "admin_step sha parse (UpdateOp now i input) grants = snd (updateAgentGrant parse now i input grants grants)"
| "admin_step sha parse (BudgetOp (PatchW i a b)) grants = grants"
| "admin_step sha parse (BudgetOp x) grants = snd (budget_step sha x grants)"

lemma issued_wf:
  assumes "list_all grant_wf grants"
  shows "list_all grant_wf (snd (issueAgentGrant sha parse now uuid rnd input operator grants))"
proof (cases "validateGrantInput parse input now")
  case (Inr n)
  show ?thesis
  proof (cases "operator = []")
    case False
    let ?g = "\<lparr>g_ID = uuid, g_userId = operator, g_agentLabel = n_agentLabel n, g_tokenHash = sha (AGENT_TOKEN_PREFIX @ rnd),
                 g_allowedActions = Some (stringifyList (n_allowedActions n)), g_walletId = n_walletId n,
                 g_allowedJobKinds = kindsColumn (n_allowedJobKinds n), g_maxJobsPerDay = n_maxJobsPerDay n,
                 g_jobsUsedToday = 0, g_budgetWindow = None, g_validUntil = n_validUntil n, g_isActive = True,
                 g_revokedAt = None, g_createdAt = now, g_lastUsedAt = None\<rparr>"
    have "grant_wf ?g" by (rule normalized_wf [OF Inr]) (simp_all add: False)
    with assms False show ?thesis by (simp add: issueAgentGrant_def Inr Let_def)
  qed (simp add: issueAgentGrant_def assms)
qed (simp add: issueAgentGrant_def assms)

lemma wf_update_where:
  "list_all grant_wf grants \<Longrightarrow> (\<And>g. g \<in> set grants \<Longrightarrow> P g \<Longrightarrow> grant_wf g \<Longrightarrow> grant_wf (f g)) \<Longrightarrow> list_all grant_wf (update_where P f grants)"
  by (auto simp: list_all_iff set_update_where)

lemma wf_columns:
  "grant_wf (g\<lparr>g_isActive := a, g_revokedAt := t\<rparr>) = grant_wf g" "grant_wf (g\<lparr>g_tokenHash := h\<rparr>) = grant_wf g"
  "grant_wf (g\<lparr>g_jobsUsedToday := u\<rparr>) = grant_wf g" "grant_wf (g\<lparr>g_budgetWindow := w, g_jobsUsedToday := u\<rparr>) = grant_wf g"
  by (simp_all add: grant_wf_def)

text \<open>What an admin statement does to the rows: same ids in the same order, then perhaps a new one.\<close>

definition row_kept :: "AgentGrantRow \<Rightarrow> AgentGrantRow \<Rightarrow> bool" where
  "row_kept g h \<longleftrightarrow> g_ID h = g_ID g \<and> g_userId h = g_userId g \<and> g_walletId h = g_walletId g
     \<and> (g_isActive h \<longrightarrow> g_isActive g)"

lemma row_kept_trans: "row_kept g h \<Longrightarrow> row_kept h k \<Longrightarrow> row_kept g k"
  by (simp add: row_kept_def)

lemma admin_step_rows:
  "\<exists>f new. admin_step sha parse x grants = map f grants @ new \<and> (\<forall>g. row_kept g (f g))
     \<and> g_ID ` set new \<inter> g_ID ` set grants = {} \<and> length new \<le> 1"
proof -
  have keep: "\<exists>f new. update_where P h grants = map f grants @ new \<and> (\<forall>g. row_kept g (f g))
     \<and> g_ID ` set new \<inter> g_ID ` set grants = {} \<and> length new \<le> 1" if "\<And>g. row_kept g (h g)" for P h
    using that by (intro exI [of _ "\<lambda>g. if P g then h g else g"] exI [of _ "[]"])
      (auto simp: update_where_def row_kept_def)
  have same: "\<exists>f new. grants = map f grants @ new \<and> (\<forall>g. row_kept g (f g))
     \<and> g_ID ` set new \<inter> g_ID ` set grants = {} \<and> length new \<le> 1"
    by (intro exI [of _ id] exI [of _ "[]"]) (simp add: row_kept_def)
  show ?thesis
  proof (cases x)
    case (IssueOp now uuid rnd input operator)
    show ?thesis
    proof (cases "uuid \<notin> g_ID ` set grants \<and> operator \<noteq> []")
      case True
      then show ?thesis
      proof (cases "validateGrantInput parse input now")
        case (Inr n)
        have "\<exists>g. admin_step sha parse x grants = grants @ [g] \<and> g_ID g = uuid"
          using True Inr by (simp add: IssueOp issueAgentGrant_def Let_def)
        then obtain g where "admin_step sha parse x grants = map id grants @ [g]" "g_ID g = uuid" by auto
        with True show ?thesis by (intro exI [of _ id] exI [of _ "[g]"]) (simp add: row_kept_def)
      qed (use same in \<open>simp add: IssueOp issueAgentGrant_def\<close>)
    qed (use same in \<open>auto simp: IssueOp issueAgentGrant_def\<close>)
  next
    case (RevokeOp now i)
    then show ?thesis using same keep [of "\<lambda>g. g\<lparr>g_isActive := False, g_revokedAt := Some now\<rparr>" "activeWithId i"]
      by (simp add: revokeAgentGrantById_def row_kept_def)
  next
    case (RotateOp rnd i)
    then show ?thesis using same keep [of "\<lambda>g. g\<lparr>g_tokenHash := sha (AGENT_TOKEN_PREFIX @ rnd)\<rparr>" "activeWithId i"]
      by (simp add: rotateAgentGrantToken_def Let_def row_kept_def)
  next
    case (UpdateOp now i input)
    then show ?thesis using same keep [of "applyPatch input _" "activeWithId i"]
      by (simp add: updateAgentGrant_def Let_def row_kept_def split: option.split sum.split)
  next
    case (BudgetOp y)
    then show ?thesis
      using same keep
      by (cases y) (simp_all add: budget_stmt_defs row_kept_def)
  qed
qed


lemma admin_step_wf:
  assumes "list_all grant_wf grants" "distinct (map g_ID grants)"
  shows "list_all grant_wf (admin_step sha parse x grants) \<and> distinct (map g_ID (admin_step sha parse x grants))"
proof
  obtain f new where rows: "admin_step sha parse x grants = map f grants @ new" "\<forall>g. row_kept g (f g)"
    "g_ID ` set new \<inter> g_ID ` set grants = {}" "length new \<le> 1"
    using admin_step_rows by blast
  have "g_ID \<circ> f = g_ID" using rows(2) by (simp add: row_kept_def fun_eq_iff)
  moreover have "distinct (map g_ID new)" using rows(4) by (cases new) auto
  ultimately show "distinct (map g_ID (admin_step sha parse x grants))"
    using assms(2) rows(2,3) unfolding rows(1) by (auto simp: row_kept_def image_comp)
  show "list_all grant_wf (admin_step sha parse x grants)"
  proof (cases x)
    case (IssueOp now uuid rnd input operator)
    then show ?thesis using assms(1) issued_wf by simp
  next
    case (RevokeOp now i)
    then show ?thesis using assms(1) wf_update_where wf_columns(1) by (auto simp: revokeAgentGrantById_def)
  next
    case (RotateOp rnd i)
    then show ?thesis using assms(1) wf_update_where wf_columns(2) by (auto simp: rotateAgentGrantToken_def Let_def)
  next
    case (UpdateOp now i input)
    show ?thesis
    proof (cases "find_row g_ID i grants")
      case (Some e)
      have only: "g = e" if "g \<in> set grants" "activeWithId i g" for g
        using find_row_unique [OF assms(2) that(1), of i] that(2) Some by (simp add: activeWithId_def)
      show ?thesis
      proof (cases "validateGrantInput parse (mergedInput e input) now")
        case (Inr n)
        have "list_all grant_wf (update_where (activeWithId i) (applyPatch input n) grants)"
          using assms(1) by (rule wf_update_where) (use only patched_wf Inr in blast)
        then show ?thesis using assms(1) Some Inr by (simp add: UpdateOp updateAgentGrant_def Let_def)
      qed (use assms(1) Some in \<open>simp add: UpdateOp updateAgentGrant_def\<close>)
    qed (use assms(1) in \<open>simp add: UpdateOp updateAgentGrant_def\<close>)
  next
    case (BudgetOp y)
    then show ?thesis using assms(1) wf_update_where wf_columns
      by (cases y) (auto simp: budget_stmt_defs)
  qed
qed

text \<open>
  Grants stay well-formed whatever the operators do: from a table of well-formed grants, after
  any sequence of issues, revokes, rotations, edits and budget writes (valid or refused), every
  stored grant names an operator, allows a non-empty set of grantable actions, has a wallet when it
  allows a wallet action, only known job kinds and only with a wallet action, a positive limit and
  bounded labels; ids stay unique; and no edit ever changes a grant's operator or wallet or makes a
  revoked grant active again.
\<close>

theorem grants_stay_wellformed:
  assumes "list_all grant_wf grants" "distinct (map g_ID grants)"
    and "grants' = fold (admin_step sha parse) ops grants"
  shows "list_all grant_wf grants' \<and> distinct (map g_ID grants')
    \<and> (\<forall>g \<in> set grants. \<exists>h \<in> set grants'. row_kept g h)"
proof -
  have "list_all grant_wf (fold (admin_step sha parse) ops grants0) \<and> distinct (map g_ID (fold (admin_step sha parse) ops grants0))
    \<and> (\<forall>g. (\<exists>h \<in> set grants0. row_kept g h) \<longrightarrow> (\<exists>h \<in> set (fold (admin_step sha parse) ops grants0). row_kept g h))"
    if "list_all grant_wf grants0" "distinct (map g_ID grants0)" for grants0
    using that
  proof (induction ops arbitrary: grants0)
    case (Cons x ops)
    let ?g1 = "admin_step sha parse x grants0"
    obtain f new where rows: "?g1 = map f grants0 @ new" "\<forall>g. row_kept g (f g)"
      using admin_step_rows by blast
    have "\<exists>h \<in> set ?g1. row_kept g h" if ex: "\<exists>h \<in> set grants0. row_kept g h" for g
    proof -
      obtain h where "h \<in> set grants0" "row_kept g h" using ex by blast
      moreover have "row_kept h (f h)" using rows(2) by blast
      ultimately have "row_kept g (f h)" "f h \<in> set ?g1" by (auto simp: rows(1) intro: row_kept_trans)
      then show ?thesis by blast
    qed
    then show ?case using Cons.IH [of ?g1] admin_step_wf [OF Cons.prems] by simp
  qed simp
  from this [OF assms(1,2)] show ?thesis
    unfolding assms(3) by (auto simp: row_kept_def)
qed

theorem grants_stay_wellformed_witness:
  "list_all grant_wf (fold (admin_step id (\<lambda>_. None))
     [UpdateOp 5 ''g1'' \<lparr>ui_agentLabel = None, ui_allowedActions = Some (Some [''CancelJob'']), ui_allowedJobKinds = None,
        ui_maxJobsPerDay = None, ui_validUntil = None\<rparr>, RevokeOp 6 ''g1''] [demo_grant])"
  using grants_stay_wellformed [OF _ _ refl, of "[demo_grant]" id "\<lambda>_. None"
    "[UpdateOp 5 ''g1'' \<lparr>ui_agentLabel = None, ui_allowedActions = Some (Some [''CancelJob'']), ui_allowedJobKinds = None,
        ui_maxJobsPerDay = None, ui_validUntil = None\<rparr>, RevokeOp 6 ''g1'']"]
  by (simp add: demo_grant_def grant_wf_def trim_def js_space_def wantsWallet_def AGENT_WALLET_ACTIONS_def AGENT_ALLOWLISTABLE_ACTIONS_def)

text \<open>Two edits that validate against the same row can together leave job kinds without a wallet action.\<close>

theorem concurrent_edits_break_grant:
  "(let row = demo_grant\<lparr>g_allowedActions := Some (stringifyList [''SubmitWalletJob'', ''SubmitTransaction''])\<rparr>;
        dropWallet = \<lparr>ui_agentLabel = None, ui_allowedActions = Some (Some [''SubmitTransaction'']), ui_allowedJobKinds = None,
          ui_maxJobsPerDay = None, ui_validUntil = None\<rparr>;
        addKinds = \<lparr>ui_agentLabel = None, ui_allowedActions = None, ui_allowedJobKinds = Some (Some [''mint'']),
          ui_maxJobsPerDay = None, ui_validUntil = None\<rparr>;
        grants1 = snd (updateAgentGrant (\<lambda>_. None) 5 ''g1'' dropWallet [row] [row]);
        grants2 = snd (updateAgentGrant (\<lambda>_. None) 5 ''g1'' addKinds [row] grants1)
    in grant_wf row \<and> \<not> list_all grant_wf grants2)"
  by code_simp

section \<open>What a caller sees of a grant\<close>

record AgentGrantStatus =
  as_grantId :: string
  as_agentLabel :: "string option"
  as_allowedActions :: "string list"
  as_walletId :: "string option"
  as_allowedJobKinds :: "string list"
  as_maxJobsPerDay :: "int option"
  as_jobsUsedToday :: int
  as_budgetWindow :: "int option"
  as_validUntil :: "time option"
  as_isActive :: bool

definition toGrantStatus :: "time \<Rightarrow> AgentGrantRow \<Rightarrow> AgentGrantStatus" where
  "toGrantStatus now grant =
     \<lparr>as_grantId = g_ID grant, as_agentLabel = g_agentLabel grant,
      as_allowedActions = parseGrantList (g_allowedActions grant), as_walletId = g_walletId grant,
      as_allowedJobKinds = parseGrantList (g_allowedJobKinds grant), as_maxJobsPerDay = g_maxJobsPerDay grant,
      as_jobsUsedToday = (if g_budgetWindow grant = Some (utcDay now) then g_jobsUsedToday grant else 0),
      as_budgetWindow = g_budgetWindow grant, as_validUntil = g_validUntil grant, as_isActive = g_isActive grant\<rparr>"

definition USAGE_WINDOW_MAX_MS :: int where
  "USAGE_WINDOW_MAX_MS = 366 * 24 * 60 * 60 * 1000"

definition USAGE_WINDOW_DEFAULT_MS :: int where
  "USAGE_WINDOW_DEFAULT_MS = 30 * 24 * 60 * 60 * 1000"

text \<open>\<open>Some None\<close> is a value that does not parse, \<open>None\<close> an absent one.\<close>

definition parseTimestamp :: "(string \<Rightarrow> time option) \<Rightarrow> string option \<Rightarrow> time option option" where
  "parseTimestamp parse raw = (if truthy raw then Some (parse (the raw)) else None)"

datatype UsageWindow = WindowOk time time int int | WindowBad string

definition resolveUsageWindow :: "(string \<Rightarrow> time option) \<Rightarrow> string option \<Rightarrow> string option \<Rightarrow> time \<Rightarrow> UsageWindow" where
  "resolveUsageWindow parse since until now =
     (let toTs = parseTimestamp parse until; fromTs = parseTimestamp parse since
      in if toTs = Some None then WindowBad ''until''
         else if fromTs = Some None then WindowBad ''since''
         else (let toMs = (case toTs of Some (Some t) \<Rightarrow> t | _ \<Rightarrow> now);
                   fromMs = (case fromTs of Some (Some t) \<Rightarrow> t | _ \<Rightarrow> toMs - USAGE_WINDOW_DEFAULT_MS)
               in if fromMs > toMs then WindowBad ''since''
                  else if toMs - fromMs > USAGE_WINDOW_MAX_MS then WindowBad ''since''
                  else WindowOk fromMs toMs (utcDay fromMs) (utcDay toMs)))"

record GrantUsageCall =
  gc_service :: string
  gc_action :: string
  gc_count :: int
  gc_refunded :: int

record AgentGrantUsage =
  gu_grantId :: string
  gu_since :: time
  gu_until :: time
  gu_calls :: "GrantUsageCall list"
  gu_total :: int
  gu_jobsUsedToday :: int
  gu_maxJobsPerDay :: "int option"

text \<open>
  The rows of a grant in the window, summed per service and action; \<open>order\<close> is the locale's sort
  and the table is read after the buffer was flushed.
\<close>

definition usageRows :: "string \<Rightarrow> int \<Rightarrow> int \<Rightarrow> UsageDelta list \<Rightarrow> UsageDelta list" where
  "usageRows grantId sinceDay untilDay tab =
     filter (\<lambda>r. k_grant (ud_key r) = grantId \<and> sinceDay \<le> k_day (ud_key r) \<and> k_day (ud_key r) \<le> untilDay) tab"

definition usageCalls :: "UsageDelta list \<Rightarrow> GrantUsageCall list" where
  "usageCalls rows =
     map (\<lambda>(service, action).
        let group = filter (\<lambda>r. k_service (ud_key r) = service \<and> k_action (ud_key r) = action) rows;
            admitted = sum_list (map ud_calls group); refunded = sum_list (map ud_refunded group)
        in \<lparr>gc_service = service, gc_action = action, gc_count = max (admitted - refunded) 0, gc_refunded = refunded\<rparr>)
       (jset (map (\<lambda>r. (k_service (ud_key r), k_action (ud_key r))) rows))"

definition getGrantUsage ::
  "(GrantUsageCall list \<Rightarrow> GrantUsageCall list) \<Rightarrow> (nat \<Rightarrow> write_env) \<Rightarrow> AgentGrantRow \<Rightarrow> time \<Rightarrow> time \<Rightarrow> time
   \<Rightarrow> usage_state \<Rightarrow> AgentGrantUsage \<times> usage_state" where
  "getGrantUsage order env grant since until now s =
     (let s1 = snd (flushGrantUsage env (\<lambda>_. []) s);
          calls = order (usageCalls (usageRows (g_ID grant) (utcDay since) (utcDay until) (us_table s1)));
          status = toGrantStatus now grant
      in (\<lparr>gu_grantId = g_ID grant, gu_since = since, gu_until = until, gu_calls = calls,
           gu_total = sum_list (map gc_count calls), gu_jobsUsedToday = as_jobsUsedToday status,
           gu_maxJobsPerDay = as_maxJobsPerDay status\<rparr>, s1))"

end
