(* ===== verification/GrantEnforce.thy ===== *)
theory GrantEnforce imports GrantAdmin begin

text \<open>
  What a token request may do: the transport lane of \<open>srv/utils/agent-token-auth.ts\<close>, the
  \<open>before('*')\<close> hook and the handlers of \<open>srv/utils/agent-grants.ts\<close>. A refusal is its HTTP status.
\<close>

section \<open>The status of a failed request\<close>

record status_fields =
  sf_status :: "js_number option"
  sf_statusCode :: "js_number option"
  sf_code :: "js_number option"

record status_carrier =
  sc_own :: status_fields
  sc_details :: "status_fields list option"

definition ownStatus :: "status_fields \<Rightarrow> int option" where
  "ownStatus e =
     (case orElse (sf_status e) (sf_statusCode e) of
        Some (Integer n) \<Rightarrow> if n > 0 then Some n
          else (case sf_code e of Some (Integer c) \<Rightarrow> if 400 \<le> c \<and> c < 600 then Some c else None | _ \<Rightarrow> None)
      | _ \<Rightarrow> (case sf_code e of Some (Integer c) \<Rightarrow> if 400 \<le> c \<and> c < 600 then Some c else None | _ \<Rightarrow> None))"

definition errorStatus :: "status_carrier \<Rightarrow> int" where
  "errorStatus e =
     (case ownStatus (sc_own e) of
        Some n \<Rightarrow> n
      | None \<Rightarrow>
          (case sc_details e of
             None \<Rightarrow> 500
           | Some details \<Rightarrow>
               (let nested = jset (List.map_filter ownStatus details)
                in case nested of [n] \<Rightarrow> n
                   | _ \<Rightarrow> if list_ex (\<lambda>n. n \<ge> 500) nested then 500 else 400)))"

section \<open>The enforcement hook\<close>

record job_data =
  d_walletId :: "string option"
  d_kind :: "string option"
  d_grantId :: "string option"

record token_request =
  tq_grant :: "AgentGrantRow option"
  tq_event :: string
  tq_data :: "job_data option"

record enforce_state =
  es_grants :: "AgentGrantRow list"
  es_usage :: usage_state
  es_touched :: "(string, time) jmap"

text \<open>How the request's own statements fare, and what others write between two of them.\<close>

record enforce_env =
  ee_detached :: bool
  ee_mode :: UsageMode
  ee_between :: "AgentGrantRow list \<Rightarrow> AgentGrantRow list"
  ee_write :: write_env
  ee_touch :: bool

datatype enforce_result = NoGrant | Pass "BudgetCharge option" "int option" | Refuse int

definition LAST_USED_INTERVAL_MS :: int where
  "LAST_USED_INTERVAL_MS = 60000"

definition touchLastUsed :: "bool \<Rightarrow> time \<Rightarrow> AgentGrantRow \<Rightarrow> enforce_state \<Rightarrow> enforce_state" where
  "touchLastUsed ok now grant st =
     (let lastMs = nullish (mget (es_touched st) (g_ID grant)) 0
      in if now - lastMs < LAST_USED_INTERVAL_MS then st
         else (let st1 = st\<lparr>es_touched := mput (es_touched st) (g_ID grant) now\<rparr>
               in if ok then st1\<lparr>es_grants := update_where (\<lambda>g. g_ID g = g_ID grant) (\<lambda>g. g\<lparr>g_lastUsedAt := Some now\<rparr>) (es_grants st1)\<rparr>
                  else st1))"

text \<open>Wallet binding and job kinds; the request's data with the wallet filled in.\<close>

definition walletCheck :: "AgentGrantRow \<Rightarrow> string \<Rightarrow> job_data option \<Rightarrow> int + job_data option" where
  "walletCheck grant event data =
     (if event \<notin> set AGENT_WALLET_ACTIONS then Inr data
      else if \<not> truthy (g_walletId grant) then Inl 403
      else (case data of
              None \<Rightarrow> Inr None
            | Some d \<Rightarrow>
                if event = ''SubmitWalletJob''
                then (if truthy (d_walletId d) \<and> d_walletId d \<noteq> g_walletId grant then Inl 403
                      else (let kinds = parseGrantList (g_allowedJobKinds grant)
                            in if kinds \<noteq> [] \<and> nullish (d_kind d) [] \<notin> set kinds then Inl 403
                               else Inr (Some (d\<lparr>d_walletId := g_walletId grant\<rparr>))))
                else Inr (Some d)))"

definition enforceAgentGrant ::
  "enforce_env \<Rightarrow> string \<Rightarrow> time \<Rightarrow> token_request \<Rightarrow> enforce_state \<Rightarrow> enforce_result \<times> token_request \<times> enforce_state" where
  "enforceAgentGrant env service now req st =
     (case tq_grant req of
        None \<Rightarrow> (NoGrant, req, st)
      | Some grant \<Rightarrow>
          if \<not> g_isActive grant then (Refuse 401, req, st)
          else if isExpired grant now then (Refuse 410, req, st)
          else if tq_event req \<in> set AGENT_ALWAYS_ALLOWED_EVENTS
          then (if tq_event req = ''GetGrantUsage'' \<and> nullish (Option.bind (tq_data req) d_grantId) [] \<noteq> g_ID grant
                then (Refuse 404, req, st)
                else (Pass None None, req, touchLastUsed (ee_touch env) now grant st))
          else if tq_event req \<notin> set (parseGrantList (g_allowedActions grant)) then (Refuse 403, req, st)
          else (case walletCheck grant (tq_event req) (tq_data req) of
                  Inl c \<Rightarrow> (Refuse c, req, st)
                | Inr data \<Rightarrow>
                    (let req' = req\<lparr>tq_data := data\<rparr>;
                         (charge, grants) = (case g_maxJobsPerDay grant of
                            None \<Rightarrow> (None, es_grants st)
                          | Some m \<Rightarrow> (let (c, gs) = consumeDailyBudget grant now (ee_between env) (es_grants st) in (Some c, gs)));
                         st1 = st\<lparr>es_grants := grants\<rparr>
                     in if (case charge of None \<Rightarrow> False | Some c \<Rightarrow> \<not> bc_consumed c) then (Refuse 429, req', st1)
                        else (let (day, usage) = recordGrantUsage (ee_detached env) (ee_mode env) (g_ID grant) service
                                                   (tq_event req) now (ee_write env) (es_usage st1)
                              in (Pass charge (Some day), req',
                                  touchLastUsed (ee_touch env) now grant (st1\<lparr>es_usage := usage\<rparr>))))))"

text \<open>
  The \<open>failed\<close> hook of an admitted request with detached writes: a request refused as invalid gets
  its budget unit and its usage unit back. The refunds may fail (\<open>okBudget\<close>, \<open>okUsage\<close>).
\<close>

definition onFailed ::
  "enforce_env \<Rightarrow> string \<Rightarrow> AgentGrantRow \<Rightarrow> string \<Rightarrow> BudgetCharge option \<Rightarrow> int \<Rightarrow> bool \<Rightarrow> bool \<Rightarrow> status_carrier \<Rightarrow> enforce_state \<Rightarrow> enforce_state" where
  "onFailed env service grant event charge usageDay okBudget okUsage err st =
     (let status = errorStatus err
      in if \<not> ee_detached env \<or> \<not> (400 \<le> status \<and> status < 429) then st
         else (let st1 = (case charge of
                      None \<Rightarrow> st
                    | Some c \<Rightarrow> if okBudget then st\<lparr>es_grants := snd (refundDailyBudget (g_ID grant) (bc_window c) (es_grants st))\<rparr> else st)
               in st1\<lparr>es_usage := refundGrantUsage True (ee_mode env) (g_ID grant) service event usageDay okUsage (es_usage st1)\<rparr>))"

section \<open>The admin handlers\<close>

datatype 'a reply = Reject int | Reply 'a

record admin_request =
  ar_rate :: rate_request
  ar_grant :: "AgentGrantRow option"
  ar_isAdmin :: bool

definition checkGrantAdmin :: "RateLimiter \<Rightarrow> time \<Rightarrow> admin_request \<Rightarrow> int option \<times> RateLimiter" where
  "checkGrantAdmin rl now req =
     (let (rate, rl') = check rl now (principalRateKey (ar_rate req) ''grant-admin'')
      in if \<not> allowed rate then (Some 429, rl')
         else if ar_grant req \<noteq> None then (Some 403, rl')
         else if \<not> truthy (rq_user_id (ar_rate req)) then (Some 401, rl')
         else (None, rl'))"

text \<open>\<open>toISO\<close> prints a timestamp: the validated input is handed to \<open>issueAgentGrant\<close> and validated again.\<close>

definition asInput :: "(time \<Rightarrow> string) \<Rightarrow> NormalizedGrantInput \<Rightarrow> IssueAgentGrantInput" where
  "asInput toISO n = \<lparr>gi_allowedActions = Some (n_allowedActions n), gi_walletId = n_walletId n,
     gi_allowedJobKinds = Some (n_allowedJobKinds n), gi_maxJobsPerDay = map_option Integer (n_maxJobsPerDay n),
     gi_validUntil = map_option toISO (n_validUntil n), gi_agentLabel = n_agentLabel n\<rparr>"

definition createAgentGrant ::
  "(string \<Rightarrow> string) \<Rightarrow> (string \<Rightarrow> time option) \<Rightarrow> (time \<Rightarrow> string) \<Rightarrow> time \<Rightarrow> string \<Rightarrow> string \<Rightarrow> admin_request \<Rightarrow> IssueAgentGrantInput
   \<Rightarrow> RateLimiter \<times> AgentGrantRow list \<Rightarrow> IssuedAgentGrant reply \<times> RateLimiter \<times> AgentGrantRow list" where
  "createAgentGrant sha parse toISO now uuid random req data st =
     (case checkGrantAdmin (fst st) now req of
        (Some c, rl) \<Rightarrow> (Reject c, rl, snd st)
      | (None, rl) \<Rightarrow>
          (case validateGrantInput parse data now of
             Inl e \<Rightarrow> (Reject 400, rl, snd st)
           | Inr n \<Rightarrow>
               (case issueAgentGrant sha parse now uuid random (asInput toISO n) (the (rq_user_id (ar_rate req))) (snd st) of
                  (Inl e, grants) \<Rightarrow> (Reject 400, rl, grants)
                | (Inr issued, grants) \<Rightarrow> (Reply issued, rl, grants))))"

definition revokeAgentGrant ::
  "time \<Rightarrow> admin_request \<Rightarrow> string option \<Rightarrow> RateLimiter \<times> AgentGrantRow list \<Rightarrow> bool reply \<times> RateLimiter \<times> AgentGrantRow list" where
  "revokeAgentGrant now req grantId st =
     (case checkGrantAdmin (fst st) now req of
        (Some c, rl) \<Rightarrow> (Reject c, rl, snd st)
      | (None, rl) \<Rightarrow>
          if \<not> truthy grantId then (Reject 400, rl, snd st)
          else (let (revoked, grants) = revokeAgentGrantById now (the grantId) (snd st)
                in if revoked then (Reply True, rl, grants) else (Reject 404, rl, grants)))"

definition rotateAgentGrant ::
  "(string \<Rightarrow> string) \<Rightarrow> time \<Rightarrow> string \<Rightarrow> admin_request \<Rightarrow> string option \<Rightarrow> RateLimiter \<times> AgentGrantRow list
   \<Rightarrow> (string \<times> string) reply \<times> RateLimiter \<times> AgentGrantRow list" where
  "rotateAgentGrant sha now random req grantId st =
     (case checkGrantAdmin (fst st) now req of
        (Some c, rl) \<Rightarrow> (Reject c, rl, snd st)
      | (None, rl) \<Rightarrow>
          if \<not> truthy grantId then (Reject 400, rl, snd st)
          else (case rotateAgentGrantToken sha random (the grantId) (snd st) of
                  (None, grants) \<Rightarrow> (Reject 404, rl, grants)
                | (Some rotated, grants) \<Rightarrow> (Reply rotated, rl, grants)))"

definition GRANT_IMMUTABLE_FIELDS :: "string list" where
  "GRANT_IMMUTABLE_FIELDS = [''walletId'', ''userId'', ''tokenHash'']"

text \<open>\<open>props\<close> are the names of the properties the request carries.\<close>

definition updateAgentGrantHandler ::
  "(string \<Rightarrow> time option) \<Rightarrow> time \<Rightarrow> admin_request \<Rightarrow> string option \<Rightarrow> string list \<Rightarrow> UpdateAgentGrantInput
   \<Rightarrow> RateLimiter \<times> AgentGrantRow list \<Rightarrow> string list reply \<times> RateLimiter \<times> AgentGrantRow list" where
  "updateAgentGrantHandler parse now req grantId props input st =
     (case checkGrantAdmin (fst st) now req of
        (Some c, rl) \<Rightarrow> (Reject c, rl, snd st)
      | (None, rl) \<Rightarrow>
          if \<not> truthy grantId then (Reject 400, rl, snd st)
          else if list_ex (\<lambda>f. f \<in> set props) GRANT_IMMUTABLE_FIELDS then (Reject 400, rl, snd st)
          else (case updateAgentGrant parse now (the grantId) input (snd st) (snd st) of
                  (Updated i updated, grants) \<Rightarrow> (Reply updated, rl, grants)
                | (UpdateNotFound, grants) \<Rightarrow> (Reject 404, rl, grants)
                | (UpdateRevoked, grants) \<Rightarrow> (Reject 409, rl, grants)
                | (UpdateInvalid e, grants) \<Rightarrow> (Reject 400, rl, grants)))"

definition getGrantStatus :: "time \<Rightarrow> admin_request \<Rightarrow> AgentGrantRow list \<Rightarrow> AgentGrantStatus reply" where
  "getGrantStatus now req grants =
     (case ar_grant req of
        None \<Rightarrow> Reject 400
      | Some grant \<Rightarrow> Reply (toGrantStatus now (nullish (find_row g_ID (g_ID grant) grants) grant)))"

definition getGrantUsageHandler ::
  "(string \<Rightarrow> time option) \<Rightarrow> (GrantUsageCall list \<Rightarrow> GrantUsageCall list) \<Rightarrow> (nat \<Rightarrow> write_env) \<Rightarrow> time \<Rightarrow> admin_request
   \<Rightarrow> string option \<Rightarrow> string option \<Rightarrow> string option \<Rightarrow> AgentGrantRow list \<Rightarrow> usage_state \<Rightarrow> AgentGrantUsage reply \<times> usage_state" where
  "getGrantUsageHandler parse order env now req grantId since until grants usage =
     (if \<not> truthy grantId then (Reject 400, usage)
      else (case resolveUsageWindow parse since until now of
        WindowBad target \<Rightarrow> (Reject 400, usage)
      | WindowOk fromMs toMs fromDay toDay \<Rightarrow>
          if (case ar_grant req of None \<Rightarrow> False | Some own \<Rightarrow> g_ID own \<noteq> the grantId) then (Reject 404, usage)
          else if ar_grant req = None \<and> \<not> ar_isAdmin req then (Reject 403, usage)
          else (case find_row g_ID (the grantId) grants of
                  None \<Rightarrow> (Reject 404, usage)
                | Some grant \<Rightarrow>
                    (let (u, usage') = getGrantUsage order env grant fromMs toMs now usage in (Reply u, usage')))))"

section \<open>The transport lane\<close>

record lane_request =
  lr_token :: string
  lr_inLane :: bool
  lr_ip :: "string option"

datatype lane_result = Next | Respond int | RunAs agent_user

definition clientKey :: "string option \<Rightarrow> string" where
  "clientKey ip = ''ip='' @ map (\<lambda>c. if c = CHR '':'' then CHR ''.'' else c) (nullish ip ''unknown'') @ '':agent-token''"

definition newTokenFailures :: RateLimiter where
  "newTokenFailures = newRateLimiter \<lparr>opt_windowMs = 15 * 60 * 1000, opt_maxRequests = 20, opt_maxKeys = Some 10000, opt_maxKeysPerGroup = None\<rparr>"

text \<open>\<open>None\<close>: the token has to be resolved; \<open>laneAfter\<close> runs on the resolution.\<close>

definition laneBefore :: "time \<Rightarrow> lane_request \<Rightarrow> RateLimiter \<Rightarrow> lane_result option" where
  "laneBefore now r failures =
     (if \<not> lr_inLane r then Some Next
      else if \<not> allowed (peek failures now (clientKey (lr_ip r))) then Some (Respond 429)
      else None)"

definition laneAfter :: "time \<Rightarrow> lane_request \<Rightarrow> TokenResolution \<Rightarrow> RateLimiter \<Rightarrow> lane_result \<times> RateLimiter" where
  "laneAfter now r resolution failures =
     (case resolution of
        Resolved grant \<Rightarrow> (RunAs (makeAgentUser grant), failures)
      | Refused status \<Rightarrow>
          (let (failed, failures') = check failures now (clientKey (lr_ip r))
           in if \<not> allowed failed then (Respond 429, failures') else (Respond status, failures')))"

section \<open>What enforcement guarantees\<close>

lemma walletCheck_Inr:
  assumes "walletCheck grant event data = Inr data'"
  shows "event \<in> set AGENT_WALLET_ACTIONS \<Longrightarrow> truthy (g_walletId grant)"
    and "event = ''SubmitWalletJob'' \<Longrightarrow> data' = Some d \<Longrightarrow> d_walletId d = g_walletId grant
      \<and> (parseGrantList (g_allowedJobKinds grant) = [] \<or> nullish (d_kind d) [] \<in> set (parseGrantList (g_allowedJobKinds grant)))"
  using assms by (auto simp: walletCheck_def AGENT_WALLET_ACTIONS_def Let_def split: if_splits option.splits)

lemma touchLastUsed_usage [simp]: "es_usage (touchLastUsed ok now grant st) = es_usage st"
  by (simp add: touchLastUsed_def Let_def)

lemma admin_events_not_allowlisted:
  "e \<in> set [''CreateAgentGrant'', ''RevokeAgentGrant'', ''RotateAgentGrantToken'', ''UpdateAgentGrant'']
   \<Longrightarrow> e \<notin> set AGENT_ALLOWLISTABLE_ACTIONS \<and> e \<notin> set AGENT_ALWAYS_ALLOWED_EVENTS"
  by (auto simp: AGENT_ALLOWLISTABLE_ACTIONS_def AGENT_ALWAYS_ALLOWED_EVENTS_def)


definition demo_enforce :: "enforce_result \<times> token_request \<times> enforce_state" where
  "demo_enforce = enforceAgentGrant
     \<lparr>ee_detached = True, ee_mode = Deferred, ee_between = id,
       ee_write = \<lparr>we_bump = True, we_insert = True, we_rebump = True, we_race = id\<rparr>, ee_touch = True\<rparr>
     ''CardanoWalletWorkerService'' 259200005
     \<lparr>tq_grant = Some demo_grant, tq_event = ''SubmitWalletJob'',
       tq_data = Some \<lparr>d_walletId = None, d_kind = Some ''mint'', d_grantId = None\<rparr>\<rparr>
     \<lparr>es_grants = [demo_grant], es_usage = \<lparr>us_table = [], us_buffer = []\<rparr>, es_touched = []\<rparr>"


end
