(* ===== verification/TransactionRows.thy ===== *)
theory TransactionRows imports SyncState LedgerState Collections begin

text \<open>
  The tables the crawler fills and \<open>srv/blockchain/transaction-rows.ts\<close>, which deletes
  transactions with everything that hangs on them. Inputs, outputs and their assets are keyed by
  \<open>txSeq\<close>, the other child tables by the transaction hash. Input, output and asset rows have the columns
  of the schema; a row of another child table carries its key and its remaining columns as a text.
\<close>

section \<open>The tables\<close>

record BlockRow =
  b_hash :: string
  b_slot :: "int option"
  b_height :: "int option"

record TxRow =
  t_hash :: string
  t_txSeq :: "int option"
  t_blockHash :: "string option"

record UtxoData =
  ud_dataHash :: "string option"
  ud_inlineDatum :: "string option"
  ud_referenceScriptHash :: "string option"
  ud_referenceScriptSize :: "int option"
  ud_referenceScriptType :: "string option"

record StoredInputRow =
  si_txSeq :: int
  si_inputIndex :: nat
  si_address :: "string option"
  si_data :: UtxoData
  si_paymentCredential :: "string option"
  si_spentTxHash :: "string option"
  si_spentOutputIndex :: "nat option"
  si_isCollateral :: bool
  si_isReference :: bool
  si_hasAddresses :: bool
  si_hasAssets :: bool

record StoredInputAssetRow =
  sj_txSeq :: int
  sj_inputIndex :: nat
  sj_unit :: string
  sj_quantity :: int
  sj_policyId :: "string option"
  sj_assetName :: string

record StoredOutputRow =
  so_txSeq :: int
  so_outputIndex :: nat
  so_address :: "string option"
  so_data :: UtxoData
  so_paymentCredential :: "string option"
  so_hasAddresses :: bool
  so_hasAssets :: bool

record StoredAssetRow =
  sa_txSeq :: int
  sa_outputIndex :: nat
  sa_unit :: string
  sa_quantity :: int
  sa_policyId :: "string option"
  sa_assetName :: string

text \<open>Rows of the other child tables: transaction hash and the rest of the key, then the remaining columns.\<close>

type_synonym hash_row = "(string \<times> string) \<times> string"

definition tx_hash :: "hash_row \<Rightarrow> string" where
  "tx_hash r = fst (fst r)"

type_synonym snapshot_row = "int option \<times> string"

record ReorgRow =
  rg_detectedAt :: time
  rg_forkSlot :: int
  rg_forkHeight :: "int option"
  rg_newTipHash :: "string option"
  rg_blocksRolledBack :: nat

record chain_db =
  cd_blocks :: "BlockRow list"
  cd_txs :: "TxRow list"
  cd_inputs :: "StoredInputRow list"
  cd_inputAssets :: "StoredInputAssetRow list"
  cd_outputs :: "StoredOutputRow list"
  cd_outputAssets :: "StoredAssetRow list"
  cd_metadata :: "hash_row list"
  cd_certificates :: "hash_row list"
  cd_withdrawals :: "hash_row list"
  cd_redeemers :: "hash_row list"
  cd_datums :: "hash_row list"
  cd_utxoAssets :: "hash_row list"
  cd_addressUtxos :: "hash_row list"
  cd_addressTxs :: "hash_row list"
  cd_assetHistory :: "hash_row list"
  cd_poolSnapshots :: "snapshot_row list"
  cd_drepSnapshots :: "snapshot_row list"
  cd_ledgerSnapshots :: "snapshot_row list"
  cd_ledger :: ldb
  cd_cursor :: sdb
  cd_reorgLog :: "ReorgRow list"

section \<open>Keys and deletion\<close>

record TxKey =
  k_hash :: string
  k_txSeq :: "int option"

definition keyOf :: "TxRow \<Rightarrow> TxKey" where
  "keyOf t = \<lparr>k_hash = t_hash t, k_txSeq = t_txSeq t\<rparr>"

definition readTxKeys :: "chain_db \<Rightarrow> string list \<Rightarrow> TxKey list" where
  "readTxKeys db hashes =
     concat (map (\<lambda>hashChunk. map keyOf (filter (\<lambda>t. t_hash t \<in> set hashChunk) (cd_txs db))) (chunks IN_CHUNK hashes))"

definition deleteSeqRows :: "int list \<Rightarrow> chain_db \<Rightarrow> chain_db" where
  "deleteSeqRows seqs db =
     (if seqs = [] then db
      else db\<lparr>cd_inputAssets := delete_where (\<lambda>r. sj_txSeq r \<in> set seqs) (cd_inputAssets db),
              cd_outputAssets := delete_where (\<lambda>r. sa_txSeq r \<in> set seqs) (cd_outputAssets db),
              cd_inputs := delete_where (\<lambda>r. si_txSeq r \<in> set seqs) (cd_inputs db),
              cd_outputs := delete_where (\<lambda>r. so_txSeq r \<in> set seqs) (cd_outputs db)\<rparr>)"

definition deleteKeyChunk :: "TxKey list \<Rightarrow> chain_db \<Rightarrow> chain_db" where
  "deleteKeyChunk keyChunk db =
     (let hashes = map k_hash keyChunk;
          seqs = List.map_filter k_txSeq keyChunk;
          db1 = deleteSeqRows seqs db
      in db1\<lparr>cd_metadata := delete_where (\<lambda>r. tx_hash r \<in> set hashes) (cd_metadata db1),
             cd_certificates := delete_where (\<lambda>r. tx_hash r \<in> set hashes) (cd_certificates db1),
             cd_withdrawals := delete_where (\<lambda>r. tx_hash r \<in> set hashes) (cd_withdrawals db1),
             cd_redeemers := delete_where (\<lambda>r. tx_hash r \<in> set hashes) (cd_redeemers db1),
             cd_datums := delete_where (\<lambda>r. tx_hash r \<in> set hashes) (cd_datums db1),
             cd_txs := delete_where (\<lambda>t. t_hash t \<in> set hashes) (cd_txs db1)\<rparr>)"

definition deleteTransactionRows :: "TxKey list \<Rightarrow> chain_db \<Rightarrow> chain_db" where
  "deleteTransactionRows keys db = fold deleteKeyChunk (chunks IN_CHUNK keys) db"

section \<open>What a deletion leaves\<close>

definition seqs_of :: "TxKey list \<Rightarrow> int set" where
  "seqs_of keys = set (List.map_filter k_txSeq keys)"

text \<open>The database without the transactions of the given keys and all their rows.\<close>

definition without :: "string set \<Rightarrow> int set \<Rightarrow> chain_db \<Rightarrow> chain_db" where
  "without H S db = db\<lparr>
     cd_inputAssets := filter (\<lambda>r. sj_txSeq r \<notin> S) (cd_inputAssets db),
     cd_outputAssets := filter (\<lambda>r. sa_txSeq r \<notin> S) (cd_outputAssets db),
     cd_inputs := filter (\<lambda>r. si_txSeq r \<notin> S) (cd_inputs db),
     cd_outputs := filter (\<lambda>r. so_txSeq r \<notin> S) (cd_outputs db),
     cd_metadata := filter (\<lambda>r. tx_hash r \<notin> H) (cd_metadata db),
     cd_certificates := filter (\<lambda>r. tx_hash r \<notin> H) (cd_certificates db),
     cd_withdrawals := filter (\<lambda>r. tx_hash r \<notin> H) (cd_withdrawals db),
     cd_redeemers := filter (\<lambda>r. tx_hash r \<notin> H) (cd_redeemers db),
     cd_datums := filter (\<lambda>r. tx_hash r \<notin> H) (cd_datums db),
     cd_txs := filter (\<lambda>t. t_hash t \<notin> H) (cd_txs db)\<rparr>"

lemma without_nothing [simp]: "without {} {} db = db"
  by (simp add: without_def)

lemma without_without: "without H' S' (without H S db) = without (H \<union> H') (S \<union> S') db"
  by (simp add: without_def filter_filter conj_commute)

lemma without_fields [simp]:
  "cd_blocks (without H S db) = cd_blocks db" "cd_utxoAssets (without H S db) = cd_utxoAssets db"
  "cd_addressUtxos (without H S db) = cd_addressUtxos db" "cd_addressTxs (without H S db) = cd_addressTxs db"
  "cd_assetHistory (without H S db) = cd_assetHistory db" "cd_cursor (without H S db) = cd_cursor db"
  "cd_ledger (without H S db) = cd_ledger db" "cd_reorgLog (without H S db) = cd_reorgLog db"
  "cd_poolSnapshots (without H S db) = cd_poolSnapshots db" "cd_drepSnapshots (without H S db) = cd_drepSnapshots db"
  "cd_ledgerSnapshots (without H S db) = cd_ledgerSnapshots db"
  "cd_txs (without H S db) = filter (\<lambda>t. t_hash t \<notin> H) (cd_txs db)"
  by (simp_all add: without_def)

lemma without_tables:
  "cd_inputs (without H S db) = filter (\<lambda>r. si_txSeq r \<notin> S) (cd_inputs db)"
  "cd_inputAssets (without H S db) = filter (\<lambda>r. sj_txSeq r \<notin> S) (cd_inputAssets db)"
  "cd_outputs (without H S db) = filter (\<lambda>r. so_txSeq r \<notin> S) (cd_outputs db)"
  "cd_outputAssets (without H S db) = filter (\<lambda>r. sa_txSeq r \<notin> S) (cd_outputAssets db)"
  "cd_metadata (without H S db) = filter (\<lambda>r. tx_hash r \<notin> H) (cd_metadata db)"
  "cd_certificates (without H S db) = filter (\<lambda>r. tx_hash r \<notin> H) (cd_certificates db)"
  "cd_withdrawals (without H S db) = filter (\<lambda>r. tx_hash r \<notin> H) (cd_withdrawals db)"
  "cd_redeemers (without H S db) = filter (\<lambda>r. tx_hash r \<notin> H) (cd_redeemers db)"
  "cd_datums (without H S db) = filter (\<lambda>r. tx_hash r \<notin> H) (cd_datums db)"
  by (simp_all add: without_def)

lemma deleteKeyChunk_without: "deleteKeyChunk keys db = without (k_hash ` set keys) (seqs_of keys) db"
  by (simp add: deleteKeyChunk_def deleteSeqRows_def without_def seqs_of_def delete_where_def Let_def)

lemma seqs_of_append: "seqs_of (xs @ ys) = seqs_of xs \<union> seqs_of ys"
  by (auto simp: seqs_of_def List.map_filter_def)

lemma seqs_of_Nil [simp]: "seqs_of [] = {}"
  by (simp add: seqs_of_def List.map_filter_simps)

lemma fold_deleteKeyChunk:
  "fold deleteKeyChunk parts db = without (k_hash ` set (concat parts)) (seqs_of (concat parts)) db"
proof (induction parts arbitrary: db)
  case (Cons p parts)
  then show ?case by (simp add: deleteKeyChunk_without without_without seqs_of_append image_Un)
qed simp

lemma IN_CHUNK_positive [simp]: "0 < IN_CHUNK"
  by (simp add: IN_CHUNK_def)

lemma deleteTransactionRows_without:
  "deleteTransactionRows keys db = without (k_hash ` set keys) (seqs_of keys) db"
  by (simp add: deleteTransactionRows_def fold_deleteKeyChunk concat_chunks)

lemma readTxKeys_set: "set (readTxKeys db hashes) = keyOf ` {t \<in> set (cd_txs db). t_hash t \<in> set hashes}"
proof -
  have "set (readTxKeys db hashes) = keyOf ` {t \<in> set (cd_txs db). t_hash t \<in> set (concat (chunks IN_CHUNK hashes))}"
    by (auto simp: readTxKeys_def)
  then show ?thesis by (simp add: concat_chunks)
qed

section \<open>No orphans\<close>

text \<open>Hashes and sequence numbers are unique, and every child row belongs to a stored transaction.\<close>

definition tx_keys_ok :: "chain_db \<Rightarrow> bool" where
  "tx_keys_ok db \<longleftrightarrow> distinct (map t_hash (cd_txs db)) \<and> distinct (List.map_filter t_txSeq (cd_txs db))"

definition no_orphans :: "chain_db \<Rightarrow> bool" where
  "no_orphans db \<longleftrightarrow>
     (let S = {s. \<exists>t \<in> set (cd_txs db). t_txSeq t = Some s}; H = t_hash ` set (cd_txs db)
      in si_txSeq ` set (cd_inputs db) \<union> sj_txSeq ` set (cd_inputAssets db) \<union> so_txSeq ` set (cd_outputs db)
           \<union> sa_txSeq ` set (cd_outputAssets db) \<subseteq> S
         \<and> tx_hash ` set (cd_metadata db) \<union> tx_hash ` set (cd_certificates db) \<union> tx_hash ` set (cd_withdrawals db)
           \<union> tx_hash ` set (cd_redeemers db) \<union> tx_hash ` set (cd_datums db) \<subseteq> H)"

lemma keys_seq_unique:
  assumes "tx_keys_ok db" "t \<in> set (cd_txs db)" "u \<in> set (cd_txs db)" "t_txSeq t = Some s" "t_txSeq u = Some s"
  shows "t = u"
proof -
  have all: "t = u" if "distinct (List.map_filter t_txSeq ts)" "t \<in> set ts" "u \<in> set ts" for ts
    using that assms(4,5)
  proof (induction ts)
    case (Cons x ts)
    have m: "s \<in> set (List.map_filter t_txSeq ts)" if "t \<in> set ts \<or> u \<in> set ts"
      using that assms(4,5) by (force simp: List.map_filter_def)
    show ?case
    proof (cases "t_txSeq x")
      case (Some k)
      then have "k \<notin> set (List.map_filter t_txSeq ts)" "distinct (List.map_filter t_txSeq ts)"
        using Cons.prems(1) by (simp_all add: List.map_filter_simps)
      with Cons m Some show ?thesis by auto
    qed (use Cons in \<open>auto simp: List.map_filter_simps\<close>)
  qed simp
  show ?thesis using all [of "cd_txs db"] assms(1-3) by (simp add: tx_keys_ok_def)
qed

lemma distinct_map_filter: "distinct (List.map_filter f xs) \<Longrightarrow> distinct (List.map_filter f (filter P xs))"
proof (induction xs)
  case (Cons x xs)
  have "set (List.map_filter f (filter P xs)) \<subseteq> set (List.map_filter f xs)" by (auto simp: List.map_filter_def)
  with Cons show ?case by (auto simp: List.map_filter_simps split: option.splits)
qed simp

text \<open>Deleting stored transactions keeps the keys unique and orphans no row of another transaction.\<close>

lemma without_ok:
  assumes "tx_keys_ok db" "no_orphans db" "set ts \<subseteq> set (cd_txs db)"
  shows "tx_keys_ok (without (t_hash ` set ts) {s. \<exists>t \<in> set ts. t_txSeq t = Some s} db)
    \<and> no_orphans (without (t_hash ` set ts) {s. \<exists>t \<in> set ts. t_txSeq t = Some s} db)"
proof
  let ?db = "without (t_hash ` set ts) {s. \<exists>t \<in> set ts. t_txSeq t = Some s} db"
  show "tx_keys_ok ?db"
    using assms(1) by (auto simp: tx_keys_ok_def distinct_map_filter intro: distinct_delete_where [unfolded delete_where_def, simplified])
  have kept: "(\<exists>t \<in> set (cd_txs ?db). t_txSeq t = Some s)"
    if had: "\<exists>t \<in> set (cd_txs db). t_txSeq t = Some s" and stays: "\<not> (\<exists>t \<in> set ts. t_txSeq t = Some s)" for s
  proof -
    obtain t where t: "t \<in> set (cd_txs db)" "t_txSeq t = Some s" using had by blast
    have "t_hash t \<notin> t_hash ` set ts"
    proof
      assume "t_hash t \<in> t_hash ` set ts"
      then obtain u where "u \<in> set ts" "t_hash u = t_hash t" by auto
      then have "u = t" using assms(1,3) t(1) by (metis find_row_unique option.inject subsetD tx_keys_ok_def)
      then show False using \<open>u \<in> set ts\<close> t(2) stays by blast
    qed
    then show ?thesis using t by auto
  qed
  have "si_txSeq ` set (cd_inputs ?db) \<union> sj_txSeq ` set (cd_inputAssets ?db) \<union> so_txSeq ` set (cd_outputs ?db)
      \<union> sa_txSeq ` set (cd_outputAssets ?db) \<subseteq> {s. \<exists>t \<in> set (cd_txs ?db). t_txSeq t = Some s}"
  proof
    fix s assume s: "s \<in> si_txSeq ` set (cd_inputs ?db) \<union> sj_txSeq ` set (cd_inputAssets ?db) \<union> so_txSeq ` set (cd_outputs ?db)
      \<union> sa_txSeq ` set (cd_outputAssets ?db)"
    then have "\<not> (\<exists>t \<in> set ts. t_txSeq t = Some s)" unfolding without_tables by auto
    moreover have "\<exists>t \<in> set (cd_txs db). t_txSeq t = Some s"
      using s assms(2) unfolding without_tables no_orphans_def Let_def by auto
    ultimately show "s \<in> {s. \<exists>t \<in> set (cd_txs ?db). t_txSeq t = Some s}" using kept by blast
  qed
  moreover have sub: "tx_hash ` set (cd_metadata db) \<union> tx_hash ` set (cd_certificates db) \<union> tx_hash ` set (cd_withdrawals db)
      \<union> tx_hash ` set (cd_redeemers db) \<union> tx_hash ` set (cd_datums db) \<subseteq> t_hash ` set (cd_txs db)"
    using assms(2) by (simp only: no_orphans_def Let_def)
  moreover have "tx_hash ` set (cd_metadata ?db) \<union> tx_hash ` set (cd_certificates ?db) \<union> tx_hash ` set (cd_withdrawals ?db)
      \<union> tx_hash ` set (cd_redeemers ?db) \<union> tx_hash ` set (cd_datums ?db) \<subseteq> t_hash ` set (cd_txs ?db)"
  proof
    fix h
    let ?T = "tx_hash ` set (cd_metadata db) \<union> tx_hash ` set (cd_certificates db) \<union> tx_hash ` set (cd_withdrawals db)
      \<union> tx_hash ` set (cd_redeemers db) \<union> tx_hash ` set (cd_datums db)"
    have cut: "tx_hash ` set (filter (\<lambda>r. tx_hash r \<notin> H) t) = tx_hash ` set t - H" for H and t :: "hash_row list" by auto
    assume "h \<in> tx_hash ` set (cd_metadata ?db) \<union> tx_hash ` set (cd_certificates ?db) \<union> tx_hash ` set (cd_withdrawals ?db)
      \<union> tx_hash ` set (cd_redeemers ?db) \<union> tx_hash ` set (cd_datums ?db)"
    then have h: "h \<in> ?T - t_hash ` set ts" unfolding without_tables cut by blast
    then have "h \<notin> t_hash ` set ts" by simp
    moreover have "h \<in> t_hash ` set (cd_txs db)" by (rule subsetD [OF sub]) (use h in simp)
    moreover have "t_hash ` set (filter (\<lambda>t. t_hash t \<notin> H) ts) = t_hash ` set ts - H" for H and ts :: "TxRow list" by auto
    ultimately show "h \<in> t_hash ` set (cd_txs ?db)" unfolding without_fields by blast
  qed
  ultimately show "no_orphans ?db" by (simp only: no_orphans_def Let_def simp_thms)
qed

end
