(* ===== verification/CrawlerReorg.thy ===== *)
theory CrawlerReorg imports TransactionRows LedgerSums begin

text \<open>
  A chain reorganisation, \<open>handleReorg\<close> and \<open>tryReorgRecovery\<close> of
  \<open>srv/blockchain/crawler/crawler.ts\<close>: one database transaction that removes every block after the
  fork, undoes the ledger, moves the cursor and logs the event.
\<close>

section \<open>The rollback\<close>

record ChainPoint =
  pt_slot :: int
  pt_hash :: string
  pt_height :: "int option"

datatype rollback_point = Origin | Point ChainPoint

record crawl_origin =
  co_startSlot :: "int option"
  co_startBlockHash :: "string option"

definition forkSlotOf :: "crawl_origin \<Rightarrow> rollback_point \<Rightarrow> int" where
  "forkSlotOf cfg point = (case point of Origin \<Rightarrow> nullish (co_startSlot cfg) 0 | Point p \<Rightarrow> pt_slot p)"

definition forkHeightOf :: "chain_db \<Rightarrow> rollback_point \<Rightarrow> int option" where
  "forkHeightOf db point =
     (case point of
        Origin \<Rightarrow> Some 0
      | Point p \<Rightarrow> (case pt_height p of
            Some h \<Rightarrow> Some h
          | None \<Rightarrow> map_option (\<lambda>b. nullish (b_height b) 0) (find_row b_hash (pt_hash p) (cd_blocks db))))"

definition staleBlocks :: "int \<Rightarrow> chain_db \<Rightarrow> BlockRow list" where
  "staleBlocks forkSlot db = filter (\<lambda>b. case b_slot b of None \<Rightarrow> False | Some s \<Rightarrow> s > forkSlot) (cd_blocks db)"

text \<open>The tables without a cascading delete, one chunk of transactions.\<close>

definition deleteAddressRows :: "string list \<Rightarrow> chain_db \<Rightarrow> chain_db" where
  "deleteAddressRows txChunk db = db\<lparr>
     cd_utxoAssets := delete_where (\<lambda>r. tx_hash r \<in> set txChunk) (cd_utxoAssets db),
     cd_addressUtxos := delete_where (\<lambda>r. tx_hash r \<in> set txChunk) (cd_addressUtxos db),
     cd_addressTxs := delete_where (\<lambda>r. tx_hash r \<in> set txChunk) (cd_addressTxs db),
     cd_assetHistory := delete_where (\<lambda>r. tx_hash r \<in> set txChunk) (cd_assetHistory db)\<rparr>"

definition rollbackChunk :: "string list \<Rightarrow> chain_db \<times> string list \<Rightarrow> chain_db \<times> string list" where
  "rollbackChunk blockChunk st =
     (case st of (db, rolledBack) \<Rightarrow>
        (let staleTxs = filter (\<lambda>t. case t_blockHash t of None \<Rightarrow> False | Some h \<Rightarrow> h \<in> set blockChunk) (cd_txs db);
             txHashes = map t_hash staleTxs;
             db1 = fold deleteAddressRows (chunks IN_CHUNK txHashes) db;
             db2 = deleteTransactionRows (map keyOf staleTxs) db1
         in (db2\<lparr>cd_blocks := delete_where (\<lambda>b. b_hash b \<in> set blockChunk) (cd_blocks db2)\<rparr>, rolledBack @ txHashes)))"

definition dropSnapshots :: "int \<Rightarrow> chain_db \<Rightarrow> chain_db" where
  "dropSnapshots forkSlot db =
     (let late = (\<lambda>r::snapshot_row. case fst r of None \<Rightarrow> False | Some s \<Rightarrow> s > forkSlot)
      in db\<lparr>cd_poolSnapshots := delete_where late (cd_poolSnapshots db),
            cd_drepSnapshots := delete_where late (cd_drepSnapshots db),
            cd_ledgerSnapshots := delete_where late (cd_ledgerSnapshots db)\<rparr>)"

definition no_patch :: utxo_patch where
  "no_patch = \<lparr>up_status = None, up_anchorSlot = None, up_anchorHash = None, up_importedAt = None,
     up_appliedSlot = None, up_error = None\<rparr>"

definition reorg_message :: "int \<Rightarrow> int \<Rightarrow> string" where
  "reorg_message forkSlot anchor =
     ''reorg to slot '' @ dec (nat forkSlot) @ '' before the UTxO set anchor '' @ dec (nat anchor) @ '': re-import the set''"

text \<open>The ledger part; the flag tells that the set was invalidated.\<close>

definition rollbackLedger :: "decoder \<Rightarrow> int \<Rightarrow> string list \<Rightarrow> chain_db \<Rightarrow> bool \<times> chain_db" where
  "rollbackLedger decode forkSlot rolledBack db =
     (case map_option y_utxoSet (readCursor (cd_cursor db)) of
        None \<Rightarrow> (False, db)
      | Some persisted \<Rightarrow>
          if us_status persisted \<noteq> UtxoActive then (False, db)
          else (case us_anchorSlot persisted of
             None \<Rightarrow> (False, db)
           | Some anchor \<Rightarrow>
               if forkSlot < anchor
               then (True, db\<lparr>cd_cursor := setUtxoSetState (cd_cursor db)
                       (no_patch\<lparr>up_status := Some UtxoInvalid, up_error := Some (Some (reorg_message forkSlot anchor))\<rparr>)\<rparr>)
               else (let db1 = db\<lparr>cd_ledger := snd (undoLedgerForTransactions decode (cd_ledger db) rolledBack)\<rparr>
                     in (False,
                         if (case us_appliedSlot persisted of None \<Rightarrow> False | Some s \<Rightarrow> s > forkSlot)
                         then db1\<lparr>cd_cursor := setUtxoSetState (cd_cursor db1) (no_patch\<lparr>up_appliedSlot := Some (Some forkSlot)\<rparr>)\<rparr>
                         else db1))))"

record reorg_outcome =
  ro_forkSlot :: int
  ro_forkHeight :: "int option"
  ro_blocksRolledBack :: nat
  ro_txsRolledBack :: nat
  ro_ledgerInvalidated :: bool

definition resetPoint :: "crawl_origin \<Rightarrow> rollback_point \<Rightarrow> int option \<Rightarrow> CrawlPoint" where
  "resetPoint cfg point forkHeight =
     (case point of
        Origin \<Rightarrow> \<lparr>cp_slot = forkSlotOf cfg point, cp_hash = nullish (co_startBlockHash cfg) [], cp_height = Some 0\<rparr>
      | Point p \<Rightarrow> \<lparr>cp_slot = pt_slot p, cp_hash = pt_hash p, cp_height = Some (nullish forkHeight 0)\<rparr>)"

definition reorgRow :: "crawl_origin \<Rightarrow> time \<Rightarrow> rollback_point \<Rightarrow> int option \<Rightarrow> nat \<Rightarrow> ReorgRow" where
  "reorgRow cfg now point forkHeight blocksRolledBack =
     \<lparr>rg_detectedAt = now, rg_forkSlot = forkSlotOf cfg point, rg_forkHeight = forkHeight,
      rg_newTipHash = (case point of Origin \<Rightarrow> None | Point p \<Rightarrow> Some (pt_hash p)), rg_blocksRolledBack = blocksRolledBack\<rparr>"

text \<open>\<open>None\<close>: the lease is lost, the transaction is rolled back and the crawler stops.\<close>

definition handleReorg ::
  "decoder \<Rightarrow> crawl_origin \<Rightarrow> string option \<Rightarrow> time \<Rightarrow> rollback_point \<Rightarrow> chain_db \<Rightarrow> reorg_outcome option \<times> chain_db" where
  "handleReorg decode cfg leaseOwner now point db =
     (let forkSlot = forkSlotOf cfg point;
          (renewed, cursor) = (if truthy leaseOwner then renewCrawlerLease (cd_cursor db) (the leaseOwner) now CRAWLER_LEASE_TTL_MS
                               else (True, cd_cursor db))
      in if \<not> renewed then (None, db)
         else
           (let db0 = db\<lparr>cd_cursor := cursor\<rparr>;
                forkHeight = forkHeightOf db0 point;
                blockHashes = map b_hash (staleBlocks forkSlot db0);
                (db1, rolledBack) = fold rollbackChunk (chunks IN_CHUNK blockHashes) (db0, []);
                db2 = (if blockHashes = [] then db1 else dropSnapshots forkSlot db1);
                (invalidated, db3) = rollbackLedger decode forkSlot rolledBack db2;
                db4 = db3\<lparr>cd_cursor := resetCursorTo (cd_cursor db3) (resetPoint cfg point forkHeight) now\<rparr>
            in (Some \<lparr>ro_forkSlot = forkSlot, ro_forkHeight = forkHeight, ro_blocksRolledBack = length blockHashes,
                      ro_txsRolledBack = length rolledBack, ro_ledgerInvalidated = invalidated\<rparr>,
                db4\<lparr>cd_reorgLog := cd_reorgLog db4 @ [reorgRow cfg now point forkHeight (length blockHashes)]\<rparr>)))"

section \<open>What a rollback removes\<close>

definition in_blocks :: "string set \<Rightarrow> TxRow \<Rightarrow> bool" where
  "in_blocks B t \<longleftrightarrow> (case t_blockHash t of None \<Rightarrow> False | Some h \<Rightarrow> h \<in> B)"

definition hashes_in :: "string set \<Rightarrow> chain_db \<Rightarrow> string set" where
  "hashes_in B db = t_hash ` {t \<in> set (cd_txs db). in_blocks B t}"

definition seqs_in :: "string set \<Rightarrow> chain_db \<Rightarrow> int set" where
  "seqs_in B db = {s. \<exists>t \<in> set (cd_txs db). in_blocks B t \<and> t_txSeq t = Some s}"

text \<open>The database without the blocks of \<open>B\<close>, the transactions \<open>H\<close>, \<open>S\<close> and the address rows of \<open>H\<close>.\<close>

definition cut :: "string set \<Rightarrow> string set \<Rightarrow> int set \<Rightarrow> chain_db \<Rightarrow> chain_db" where
  "cut B H S db = (without H S db)\<lparr>
     cd_blocks := filter (\<lambda>b. b_hash b \<notin> B) (cd_blocks db),
     cd_utxoAssets := filter (\<lambda>r. tx_hash r \<notin> H) (cd_utxoAssets db),
     cd_addressUtxos := filter (\<lambda>r. tx_hash r \<notin> H) (cd_addressUtxos db),
     cd_addressTxs := filter (\<lambda>r. tx_hash r \<notin> H) (cd_addressTxs db),
     cd_assetHistory := filter (\<lambda>r. tx_hash r \<notin> H) (cd_assetHistory db)\<rparr>"

lemma cut_nothing [simp]: "cut {} {} {} db = db"
  by (simp add: cut_def)

lemma cut_cut: "cut B' H' S' (cut B H S db) = cut (B \<union> B') (H \<union> H') (S \<union> S') db"
  by (simp add: cut_def without_def filter_filter conj_commute)

lemma cut_fields [simp]:
  "cd_txs (cut B H S db) = filter (\<lambda>t. t_hash t \<notin> H) (cd_txs db)"
  "cd_blocks (cut B H S db) = filter (\<lambda>b. b_hash b \<notin> B) (cd_blocks db)"
  "cd_cursor (cut B H S db) = cd_cursor db" "cd_ledger (cut B H S db) = cd_ledger db"
  "cd_reorgLog (cut B H S db) = cd_reorgLog db"
  by (simp_all add: cut_def)

definition strip :: "string set \<Rightarrow> chain_db \<Rightarrow> chain_db" where
  "strip H db = db\<lparr>
     cd_utxoAssets := filter (\<lambda>r. tx_hash r \<notin> H) (cd_utxoAssets db),
     cd_addressUtxos := filter (\<lambda>r. tx_hash r \<notin> H) (cd_addressUtxos db),
     cd_addressTxs := filter (\<lambda>r. tx_hash r \<notin> H) (cd_addressTxs db),
     cd_assetHistory := filter (\<lambda>r. tx_hash r \<notin> H) (cd_assetHistory db)\<rparr>"

lemma fold_deleteAddressRows: "fold deleteAddressRows parts db = strip (set (concat parts)) db"
proof (induction parts arbitrary: db)
  case (Cons p parts)
  have "deleteAddressRows p db = strip (set p) db" by (simp add: deleteAddressRows_def strip_def delete_where_def)
  moreover have "strip H' (strip H db) = strip (H \<union> H') db" for H H'
    by (simp add: strip_def filter_filter conj_commute)
  ultimately show ?case by (simp add: Cons.IH)
qed (simp add: strip_def)

lemma in_blocks_simps [simp]: "\<not> in_blocks {} t" "in_blocks (B \<union> B') t \<longleftrightarrow> in_blocks B t \<or> in_blocks B' t"
  by (auto simp: in_blocks_def split: option.split)

lemma delete_keys: "deleteTransactionRows (map keyOf ts) db = without (t_hash ` set ts) {s. \<exists>t \<in> set ts. t_txSeq t = Some s} db"
proof -
  have "k_hash ` set (map keyOf ts) = t_hash ` set ts" "seqs_of (map keyOf ts) = {s. \<exists>t \<in> set ts. t_txSeq t = Some s}"
    by (force simp: keyOf_def seqs_of_def List.map_filter_def)+
  then show ?thesis by (simp only: deleteTransactionRows_without)
qed

lemma rollbackChunk_cut:
  "rollbackChunk bs (db, acc) =
     (cut (set bs) (hashes_in (set bs) db) (seqs_in (set bs) db) db,
      acc @ map t_hash (filter (in_blocks (set bs)) (cd_txs db)))"
proof -
  let ?ts = "filter (in_blocks (set bs)) (cd_txs db)"
  have ts: "filter (\<lambda>t. case t_blockHash t of None \<Rightarrow> False | Some h \<Rightarrow> h \<in> set bs) (cd_txs db) = ?ts"
    by (simp add: in_blocks_def [abs_def])
  have H: "t_hash ` set ?ts = hashes_in (set bs) db" and S: "{s. \<exists>t \<in> set ?ts. t_txSeq t = Some s} = seqs_in (set bs) db"
    by (auto simp: hashes_in_def seqs_in_def)
  have strip: "fold deleteAddressRows (chunks IN_CHUNK (map t_hash ?ts)) db = strip (hashes_in (set bs) db) db"
    using H by (simp only: fold_deleteAddressRows concat_chunks [OF IN_CHUNK_positive] set_map)
  have del: "deleteTransactionRows (map keyOf ?ts) db' = without (hashes_in (set bs) db) (seqs_in (set bs) db) db'" for db'
    by (simp only: delete_keys H S)
  show ?thesis
    unfolding rollbackChunk_def prod.case Let_def ts strip del by (simp add: cut_def without_def delete_where_def strip_def)
qed

lemma hashes_in_cut: "hashes_in B (cut B' (hashes_in B' db) S db) \<union> hashes_in B' db = hashes_in (B \<union> B') db"
  unfolding hashes_in_def cut_fields in_blocks_simps by auto

lemma seqs_in_cut:
  assumes "distinct (map t_hash (cd_txs db))"
  shows "seqs_in B (cut B' (hashes_in B' db) S db) \<union> seqs_in B' db = seqs_in (B \<union> B') db"
proof -
  have same: "t_hash t \<in> hashes_in B' db \<longleftrightarrow> in_blocks B' t" if "t \<in> set (cd_txs db)" for t
    using that assms by (auto simp: hashes_in_def distinct_map inj_on_def)
  have "seqs_in B (cut B' (hashes_in B' db) S db)
      = {s. \<exists>t \<in> set (cd_txs db). \<not> in_blocks B' t \<and> in_blocks B t \<and> t_txSeq t = Some s}"
    using same by (auto simp: seqs_in_def)
  then show ?thesis by (auto simp: seqs_in_def)
qed

text \<open>All chunks together.\<close>

lemma fold_rollbackChunk:
  assumes "distinct (map t_hash (cd_txs db))"
  shows "fst (fold rollbackChunk parts (db, acc))
      = cut (set (concat parts)) (hashes_in (set (concat parts)) db) (seqs_in (set (concat parts)) db) db
    \<and> set (snd (fold rollbackChunk parts (db, acc))) = set acc \<union> hashes_in (set (concat parts)) db"
  using assms
proof (induction parts arbitrary: db acc)
  case Nil
  then show ?case by (simp add: hashes_in_def seqs_in_def)
next
  case (Cons bs parts)
  let ?db = "cut (set bs) (hashes_in (set bs) db) (seqs_in (set bs) db) db"
  have d: "distinct (map t_hash (cd_txs ?db))"
    using Cons.prems distinct_delete_where [of t_hash "cd_txs db" "\<lambda>t. t_hash t \<in> hashes_in (set bs) db"] by (simp add: delete_where_def)
  have H: "t_hash ` set (filter (in_blocks (set bs)) (cd_txs db)) = hashes_in (set bs) db" by (auto simp: hashes_in_def)
  show ?case
    using Cons.IH [OF d, of "acc @ map t_hash (filter (in_blocks (set bs)) (cd_txs db))"]
      hashes_in_cut [of "set (concat parts)" "set bs" db "seqs_in (set bs) db"] seqs_in_cut [OF Cons.prems, of "set (concat parts)" "set bs" "seqs_in (set bs) db"] H
    by (auto simp: rollbackChunk_cut cut_cut Un_ac)
qed

section \<open>The whole rollback\<close>

definition rolled_blocks :: "int \<Rightarrow> chain_db \<Rightarrow> string set" where
  "rolled_blocks forkSlot db = b_hash ` set (staleBlocks forkSlot db)"

lemma rollbackLedger_tables:
  assumes "rollbackLedger decode forkSlot hs db = (gone, db')"
  shows "db' = db\<lparr>cd_ledger := cd_ledger db', cd_cursor := cd_cursor db'\<rparr>"
  using assms by (auto simp: rollbackLedger_def Let_def split: option.splits if_splits)

lemma setUtxo_row: "setUtxoSetState (Some c) p = Some (c\<lparr>y_utxoSet := \<lparr>us_status = nullish (up_status p) (us_status (y_utxoSet c)),
           us_anchorSlot = nullish (up_anchorSlot p) (us_anchorSlot (y_utxoSet c)),
           us_anchorHash = nullish (up_anchorHash p) (us_anchorHash (y_utxoSet c)),
           us_importedAt = nullish (up_importedAt p) (us_importedAt (y_utxoSet c)),
           us_appliedSlot = nullish (up_appliedSlot p) (us_appliedSlot (y_utxoSet c)),
           us_error = nullish (up_error p) (us_error (y_utxoSet c))\<rparr>\<rparr>)" "setUtxoSetState None p = None"
  by (simp_all add: setUtxoSetState_def update_cursor_def Let_def)

text \<open>The lease part: nothing happens without the lease; with it only the deadline moves.\<close>

lemma handleReorg_cases:
  assumes "handleReorg decode cfg ow now point db = (res, db')"
  obtains "res = None" "db' = db"
  | out cursor db1 rolled gone db3 height where
      "res = Some out"
      "cursor = (if truthy ow then snd (renewCrawlerLease (cd_cursor db) (the ow) now CRAWLER_LEASE_TTL_MS) else cd_cursor db)"
      "fold rollbackChunk (chunks IN_CHUNK (map b_hash (staleBlocks (forkSlotOf cfg point) db))) (db\<lparr>cd_cursor := cursor\<rparr>, []) = (db1, rolled)"
      "rollbackLedger decode (forkSlotOf cfg point) rolled
         (if staleBlocks (forkSlotOf cfg point) db = [] then db1 else dropSnapshots (forkSlotOf cfg point) db1) = (gone, db3)"
      "db' = db3\<lparr>cd_cursor := resetCursorTo (cd_cursor db3) (resetPoint cfg point height) now,
         cd_reorgLog := cd_reorgLog db3 @ [reorgRow cfg now point height (length (staleBlocks (forkSlotOf cfg point) db))]\<rparr>"
      "ro_blocksRolledBack out = length (staleBlocks (forkSlotOf cfg point) db)" "ro_forkSlot out = forkSlotOf cfg point"
      "ro_ledgerInvalidated out = gone"
proof -
  obtain renewed cursor where r: "(if truthy ow then renewCrawlerLease (cd_cursor db) (the ow) now CRAWLER_LEASE_TTL_MS
      else (True, cd_cursor db)) = (renewed, cursor)" by fastforce
  have stale: "staleBlocks s (db\<lparr>cd_cursor := c\<rparr>) = staleBlocks s db" for s c by (simp add: staleBlocks_def)
  show thesis
  proof (cases renewed)
    case False
    then have "res = None" "db' = db" using assms r by (auto simp: handleReorg_def)
    then show thesis by (rule that(1))
  next
    case True
    obtain db1 rolled where f: "fold rollbackChunk (chunks IN_CHUNK (map b_hash (staleBlocks (forkSlotOf cfg point) db)))
        (db\<lparr>cd_cursor := cursor\<rparr>, []) = (db1, rolled)" by fastforce
    obtain gone db3 where l: "rollbackLedger decode (forkSlotOf cfg point) rolled
         (if staleBlocks (forkSlotOf cfg point) db = [] then db1 else dropSnapshots (forkSlotOf cfg point) db1) = (gone, db3)" by fastforce
    have c: "cursor = (if truthy ow then snd (renewCrawlerLease (cd_cursor db) (the ow) now CRAWLER_LEASE_TTL_MS) else cd_cursor db)"
      using r by (auto split: if_splits)
    let ?n = "length (staleBlocks (forkSlotOf cfg point) db)"
    define height where "height = forkHeightOf (db\<lparr>cd_cursor := cursor\<rparr>) point"
    define out where "out = \<lparr>ro_forkSlot = forkSlotOf cfg point, ro_forkHeight = height, ro_blocksRolledBack = ?n,
      ro_txsRolledBack = length rolled, ro_ledgerInvalidated = gone\<rparr>"
    have out: "ro_blocksRolledBack out = ?n" "ro_forkSlot out = forkSlotOf cfg point" "ro_ledgerInvalidated out = gone"
      by (simp_all add: out_def)
    have "res = Some out" and "db' = db3\<lparr>cd_cursor := resetCursorTo (cd_cursor db3) (resetPoint cfg point height) now,
         cd_reorgLog := cd_reorgLog db3 @ [reorgRow cfg now point height ?n]\<rparr>"
      using assms True by (auto simp: handleReorg_def Let_def r stale f l height_def out_def)
    then show thesis using that(2) c f l out by blast
  qed
qed


lemma rolled_blocks_concat: "set (concat (chunks IN_CHUNK (map b_hash (staleBlocks forkSlot db)))) = rolled_blocks forkSlot db"
  by (simp only: concat_chunks [OF IN_CHUNK_positive] rolled_blocks_def set_map)

text \<open>The tables of blocks, transactions and their rows.\<close>

definition core where
  "core db = (cd_blocks db, cd_txs db, cd_inputs db, cd_inputAssets db, cd_outputs db, cd_outputAssets db, cd_metadata db,
     cd_certificates db, cd_withdrawals db, cd_redeemers db, cd_datums db, cd_utxoAssets db, cd_addressUtxos db,
     cd_addressTxs db, cd_assetHistory db)"

lemma core_updates [simp]:
  "core (db\<lparr>cd_ledger := l\<rparr>) = core db" "core (db\<lparr>cd_cursor := c\<rparr>) = core db" "core (db\<lparr>cd_reorgLog := r\<rparr>) = core db"
  by (simp_all add: core_def)

lemma core_dropSnapshots [simp]: "core (dropSnapshots s db) = core db"
  by (simp add: core_def dropSnapshots_def Let_def)

lemma core_rollbackLedger: "rollbackLedger decode s hs db = (gone, db') \<Longrightarrow> core db' = core db"
  by (auto simp: rollbackLedger_def Let_def split: option.splits if_splits)

lemma coreD:
  assumes "core b = core a"
  shows "cd_blocks b = cd_blocks a" "cd_txs b = cd_txs a" "cd_utxoAssets b = cd_utxoAssets a"
    "cd_addressUtxos b = cd_addressUtxos a" "cd_addressTxs b = cd_addressTxs a" "cd_assetHistory b = cd_assetHistory a"
    "tx_keys_ok b = tx_keys_ok a" "no_orphans b = no_orphans a"
  using assms by (simp_all add: core_def tx_keys_ok_def no_orphans_def)

lemma core_cut: "core db = core db' \<Longrightarrow> core (cut B H S db) = core (cut B H S db')"
  by (simp add: core_def cut_def without_def)

lemma rolled_cong: "core db = core db' \<Longrightarrow> hashes_in B db = hashes_in B db' \<and> seqs_in B db = seqs_in B db'"
  by (simp add: core_def hashes_in_def seqs_in_def)

lemma handleReorg_tables:
  assumes "handleReorg decode cfg ow now point db = (Some out, db')" "distinct (map t_hash (cd_txs db))"
  shows "core db' = core (cut (rolled_blocks (forkSlotOf cfg point) db) (hashes_in (rolled_blocks (forkSlotOf cfg point) db) db)
      (seqs_in (rolled_blocks (forkSlotOf cfg point) db) db) db)"
  using assms(1)
proof (cases rule: handleReorg_cases)
  case (2 out cursor db1 rolled gone db3 height)
  let ?B = "rolled_blocks (forkSlotOf cfg point) db" and ?d = "db\<lparr>cd_cursor := cursor\<rparr>"
  have c: "hashes_in ?B ?d = hashes_in ?B db" "seqs_in ?B ?d = seqs_in ?B db"
    using rolled_cong [of ?d db ?B] by simp_all
  have db1: "db1 = cut ?B (hashes_in ?B db) (seqs_in ?B db) ?d"
    using fold_rollbackChunk [of ?d "chunks IN_CHUNK (map b_hash (staleBlocks (forkSlotOf cfg point) db))" "[]"]
      assms(2) 2(3) unfolding rolled_blocks_concat c by simp
  have "core db' = core db3" by (simp add: 2(5))
  also have "\<dots> = core db1" using core_rollbackLedger [OF 2(4)] by simp
  also have "\<dots> = core (cut ?B (hashes_in ?B db) (seqs_in ?B db) db)" unfolding db1 by (rule core_cut) simp
  finally show ?thesis .
qed (use assms in simp)

section \<open>What a reorganisation does\<close>

definition after_fork :: "int \<Rightarrow> BlockRow \<Rightarrow> bool" where
  "after_fork forkSlot b \<longleftrightarrow> (case b_slot b of None \<Rightarrow> False | Some s \<Rightarrow> s > forkSlot)"

lemma staleBlocks_after: "staleBlocks forkSlot db = filter (after_fork forkSlot) (cd_blocks db)"
  by (simp add: staleBlocks_def after_fork_def [abs_def])

lemma filter_by_hash:
  "distinct (map kf t) \<Longrightarrow> filter (\<lambda>r. kf r \<notin> kf ` {r \<in> set t. P r}) t = filter (\<lambda>r. \<not> P r) t"
  by (rule filter_cong) (auto simp: distinct_map inj_on_def)

lemma resetCursor_row:
  "resetCursorTo (Some c) p now = Some (c\<lparr>y_lastSlot := cp_slot p, y_lastBlockHash := Some (cp_hash p),
     y_lastHeight := nullish (cp_height p) 0, y_lastIndexedAt := Some now\<rparr>)" "resetCursorTo None p now = None"
  by (simp_all add: resetCursorTo_def update_cursor_def)

lemma resetPoint_fields: "cp_slot (resetPoint cfg point h) = forkSlotOf cfg point"
  by (simp add: resetPoint_def forkSlotOf_def split: rollback_point.split)


text \<open>The ledger side, for an active set.\<close>

lemma reorg_ledger:
  assumes "handleReorg decode cfg ow now point db = (Some out, db')" "distinct (map t_hash (cd_txs db))"
    and "cd_cursor db = Some c" "us_status (y_utxoSet c) = UtxoActive" "us_anchorSlot (y_utxoSet c) = Some anchor"
  shows "forkSlotOf cfg point < anchor \<Longrightarrow> ro_ledgerInvalidated out \<and> cd_ledger db' = cd_ledger db
      \<and> (\<exists>c'. cd_cursor db' = Some c' \<and> us_status (y_utxoSet c') = UtxoInvalid)"
    and "anchor \<le> forkSlotOf cfg point \<Longrightarrow> \<not> ro_ledgerInvalidated out
      \<and> (\<exists>hs. set hs = hashes_in (rolled_blocks (forkSlotOf cfg point) db) db
           \<and> cd_ledger db' = snd (undoLedgerForTransactions decode (cd_ledger db) hs))
      \<and> (\<exists>c'. cd_cursor db' = Some c' \<and> us_status (y_utxoSet c') = UtxoActive
           \<and> (\<forall>s. us_appliedSlot (y_utxoSet c') = Some s \<longrightarrow> s \<le> forkSlotOf cfg point))"
proof -
  let ?s = "forkSlotOf cfg point"
  obtain cursor db1 rolled gone db3 height where r:
    "cursor = (if truthy ow then snd (renewCrawlerLease (cd_cursor db) (the ow) now CRAWLER_LEASE_TTL_MS) else cd_cursor db)"
    "fold rollbackChunk (chunks IN_CHUNK (map b_hash (staleBlocks ?s db))) (db\<lparr>cd_cursor := cursor\<rparr>, []) = (db1, rolled)"
    "rollbackLedger decode ?s rolled (if staleBlocks ?s db = [] then db1 else dropSnapshots ?s db1) = (gone, db3)"
    "db' = db3\<lparr>cd_cursor := resetCursorTo (cd_cursor db3) (resetPoint cfg point height) now,
         cd_reorgLog := cd_reorgLog db3 @ [reorgRow cfg now point height (length (staleBlocks ?s db))]\<rparr>"
    "ro_ledgerInvalidated out = gone"
    using assms(1) by (cases rule: handleReorg_cases) auto
  have "\<exists>c0. cursor = Some c0 \<and> y_utxoSet c0 = y_utxoSet c" unfolding r(1) assms(3) by (simp add: renew_crawler_row)
  then obtain c0 where c0: "cursor = Some c0" "y_utxoSet c0 = y_utxoSet c" by blast
  let ?d2 = "if staleBlocks ?s db = [] then db1 else dropSnapshots ?s db1"
  have f: "cd_cursor db1 = cursor" "cd_ledger db1 = cd_ledger db" "set rolled = hashes_in (rolled_blocks ?s db) db"
    using fold_rollbackChunk [of "db\<lparr>cd_cursor := cursor\<rparr>" "chunks IN_CHUNK (map b_hash (staleBlocks ?s db))" "[]"]
      assms(2) r(2) rolled_cong [of "db\<lparr>cd_cursor := cursor\<rparr>" db "rolled_blocks ?s db"]
    unfolding rolled_blocks_concat by simp_all
  then have d2: "cd_cursor ?d2 = Some c0" "cd_ledger ?d2 = cd_ledger db" by (simp_all add: dropSnapshots_def Let_def c0)
  define d2' where "d2' = ?d2"
  note d2 [folded d2'_def] and r(3) [folded d2'_def]
  note d = this
  show "?s < anchor \<Longrightarrow> ro_ledgerInvalidated out \<and> cd_ledger db' = cd_ledger db
      \<and> (\<exists>c'. cd_cursor db' = Some c' \<and> us_status (y_utxoSet c') = UtxoInvalid)"
    using d(3) by (simp add: rollbackLedger_def readCursor_def d(1,2) c0 assms r(4,5) setUtxo_row no_patch_def)
      (auto simp: d(1,2) setUtxo_row resetCursor_row)
  show "anchor \<le> ?s \<Longrightarrow> \<not> ro_ledgerInvalidated out
      \<and> (\<exists>hs. set hs = hashes_in (rolled_blocks ?s db) db \<and> cd_ledger db' = snd (undoLedgerForTransactions decode (cd_ledger db) hs))
      \<and> (\<exists>c'. cd_cursor db' = Some c' \<and> us_status (y_utxoSet c') = UtxoActive
           \<and> (\<forall>s. us_appliedSlot (y_utxoSet c') = Some s \<longrightarrow> s \<le> ?s))"
  proof -
    assume a: "anchor \<le> ?s"
    let ?L = "snd (undoLedgerForTransactions decode (cd_ledger db) rolled)"
    have gone: "\<not> gone" and led: "cd_ledger db3 = ?L"
      using d(3) a by (auto simp: rollbackLedger_def readCursor_def d(1,2) c0 assms Let_def split: if_splits)
    have "\<exists>c3. cd_cursor db3 = Some c3 \<and> us_status (y_utxoSet c3) = UtxoActive
        \<and> (\<forall>s. us_appliedSlot (y_utxoSet c3) = Some s \<longrightarrow> s \<le> ?s)"
      using d(3) a by (auto simp: rollbackLedger_def readCursor_def d(1,2) c0 assms Let_def setUtxo_row no_patch_def
          split: if_splits option.splits)
    then show ?thesis using gone led f(3) by (auto simp: r(4,5) resetCursor_row)
  qed
qed


text \<open>Block \<open>b1\<close> at slot 5 holds \<open>t1\<close>, is applied to the ledger and is then abandoned for \<open>b0\<close>.\<close>

definition demo_input :: StoredInputRow where
  "demo_input = \<lparr>si_txSeq = 5, si_inputIndex = 0, si_address = None,
     si_data = \<lparr>ud_dataHash = None, ud_inlineDatum = None, ud_referenceScriptHash = None, ud_referenceScriptSize = None,
                ud_referenceScriptType = None\<rparr>,
     si_paymentCredential = None, si_spentTxHash = Some ''s'', si_spentOutputIndex = Some 0, si_isCollateral = False,
     si_isReference = False, si_hasAddresses = False, si_hasAssets = False\<rparr>"

definition demo_chain :: chain_db where
  "demo_chain = \<lparr>cd_blocks = [\<lparr>b_hash = ''b0'', b_slot = Some 1, b_height = Some 1\<rparr>, \<lparr>b_hash = ''b1'', b_slot = Some 5, b_height = Some 2\<rparr>],
     cd_txs = [\<lparr>t_hash = ''t0'', t_txSeq = Some 1, t_blockHash = Some ''b0''\<rparr>, \<lparr>t_hash = ''t1'', t_txSeq = Some 5, t_blockHash = Some ''b1''\<rparr>],
     cd_inputs = [demo_input], cd_inputAssets = [], cd_outputs = [], cd_outputAssets = [], cd_metadata = [((''t0'', ''1''), ''m'')], cd_certificates = [],
     cd_withdrawals = [], cd_redeemers = [], cd_datums = [], cd_utxoAssets = [], cd_addressUtxos = [((''t1'', ''0''), ''u'')], cd_addressTxs = [],
     cd_assetHistory = [], cd_poolSnapshots = [], cd_drepSnapshots = [], cd_ledgerSnapshots = [],
     cd_ledger = snd (applyBlockToLedger demo_decode demo_ldb 5 [demo_tx] emptyLookup),
     cd_cursor = Some ((the demo_cursor)\<lparr>y_lastSlot := 5, y_utxoSet := empty_utxo_set\<lparr>us_status := UtxoActive, us_anchorSlot := Some 1, us_appliedSlot := Some 5\<rparr>\<rparr>),
     cd_reorgLog = []\<rparr>"

definition demo_fork :: rollback_point where
  "demo_fork = Point \<lparr>pt_slot = 1, pt_hash = ''b0'', pt_height = None\<rparr>"

definition demo_origin :: crawl_origin where
  "demo_origin = \<lparr>co_startSlot = None, co_startBlockHash = None\<rparr>"

lemma demo_chain_facts:
  "tx_keys_ok demo_chain" "no_orphans demo_chain" "distinct (map b_hash (cd_blocks demo_chain))"
  "rolled_blocks 1 demo_chain = {''b1''}" "forkSlotOf demo_origin demo_fork = 1"
  "\<exists>out. fst (handleReorg demo_decode demo_origin None 9 demo_fork demo_chain) = Some out"
  by (auto simp: demo_chain_def tx_keys_ok_def no_orphans_def List.map_filter_simps rolled_blocks_def staleBlocks_def
      forkSlotOf_def demo_fork_def handleReorg_def truthy_def Let_def demo_input_def tx_hash_def split: prod.split)

lemma demo_chain_hashes: "hashes_in {''b1''} demo_chain = {''t1''}"
proof -
  have "{t \<in> set (cd_txs demo_chain). in_blocks {''b1''} t} = {\<lparr>t_hash = ''t1'', t_txSeq = Some 5, t_blockHash = Some ''b1''\<rparr>}"
    by (auto simp: demo_chain_def in_blocks_def)
  then show ?thesis by (simp add: hashes_in_def)
qed



section \<open>Finding the fork\<close>

record BlockData =
  bd_hash :: string
  bd_slot :: "int option"
  bd_height :: "int option"

definition MAX_DEPTH :: int where
  "MAX_DEPTH = 100"

text \<open>
  The walk down from the cursor. \<open>onChain h\<close> is the provider's block at a height (\<open>None\<close>: the call
  failed), \<open>stopped h\<close> tells that the crawler was halted while it looked at that height. The
  result is the fork, \<open>None\<close> when none is proved.
\<close>

function walkBack ::
  "(int \<Rightarrow> BlockData option) \<Rightarrow> (int \<Rightarrow> bool) \<Rightarrow> BlockRow list \<Rightarrow> int \<Rightarrow> int \<Rightarrow> int \<Rightarrow> ChainPoint option" where
  "walkBack onChain stopped blocks tipH floor h =
     (if h \<le> floor \<or> stopped h then None
      else (case onChain h of
         None \<Rightarrow> None
       | Some chainBlock \<Rightarrow>
           (let ours = find (\<lambda>b. b_height b = Some h) blocks
            in if (case ours of None \<Rightarrow> False | Some b \<Rightarrow> b_hash b \<noteq> [] \<and> bd_hash chainBlock = b_hash b)
               then (if h = tipH then None
                     else map_option (\<lambda>s. \<lparr>pt_slot = s, pt_hash = bd_hash chainBlock, pt_height = Some h\<rparr>) (bd_slot chainBlock))
               else walkBack onChain stopped blocks tipH floor (h - 1))))"
  by pat_completeness auto
termination by (relation "measure (\<lambda>(_, _, _, _, floor, h). nat (h - floor))") auto

declare walkBack.simps [simp del]

text \<open>\<open>tryReorgRecovery\<close>; a lease lost in the rollback counts as not recovered.\<close>

definition tryReorgRecovery ::
  "(int \<Rightarrow> BlockData option) \<Rightarrow> (int \<Rightarrow> bool) \<Rightarrow> decoder \<Rightarrow> crawl_origin \<Rightarrow> string option \<Rightarrow> time \<Rightarrow> chain_db \<Rightarrow> bool \<times> chain_db" where
  "tryReorgRecovery onChain stopped decode cfg ow now db =
     (case readCursor (cd_cursor db) of
        None \<Rightarrow> (False, db)
      | Some cursor \<Rightarrow>
          if \<not> truthy (y_lastBlockHash cursor) then (False, db)
          else (let tipH = y_lastHeight cursor
                in case walkBack onChain stopped (cd_blocks db) tipH (max 0 (tipH - MAX_DEPTH)) tipH of
                     None \<Rightarrow> (False, db)
                   | Some p \<Rightarrow> (let (res, db') = handleReorg decode cfg ow now (Point p) db in (res \<noteq> None, db'))))"

definition stored_at :: "BlockRow list \<Rightarrow> int \<Rightarrow> string option" where
  "stored_at blocks h = map_option b_hash (find (\<lambda>b. b_height b = Some h) blocks)"

definition fork_at :: "(int \<Rightarrow> BlockData option) \<Rightarrow> BlockRow list \<Rightarrow> int \<Rightarrow> int \<Rightarrow> int \<Rightarrow> ChainPoint \<Rightarrow> int \<Rightarrow> bool" where
  "fork_at onChain blocks tipH floor h p k \<longleftrightarrow>
     pt_height p = Some k \<and> floor < k \<and> k \<le> h \<and> k \<noteq> tipH \<and> stored_at blocks k = Some (pt_hash p)
     \<and> (\<exists>b. onChain k = Some b \<and> bd_hash b = pt_hash p \<and> bd_slot b = Some (pt_slot p))
     \<and> (\<forall>j. k < j \<and> j \<le> h \<longrightarrow> (\<exists>b. onChain j = Some b \<and> (stored_at blocks j = Some (bd_hash b) \<longrightarrow> bd_hash b = [])))"

lemma fork_at_up:
  assumes "fork_at onChain blocks tipH floor (h - 1) p k" "onChain h = Some b" "stored_at blocks h = Some (bd_hash b) \<longrightarrow> bd_hash b = []"
  shows "fork_at onChain blocks tipH floor h p k"
  unfolding fork_at_def
proof (intro conjI allI impI)
  fix j assume "k < j \<and> j \<le> h"
  then show "\<exists>b. onChain j = Some b \<and> (stored_at blocks j = Some (bd_hash b) \<longrightarrow> bd_hash b = [])"
    using assms by (cases "j = h") (auto simp: fork_at_def)
qed (use assms(1) in \<open>auto simp: fork_at_def\<close>)

lemma walkBack_Some:
  "walkBack onChain stopped blocks tipH floor h = Some p \<Longrightarrow> \<exists>k. fork_at onChain blocks tipH floor h p k"
proof (induction onChain stopped blocks tipH floor h rule: walkBack.induct)
  case (1 onChain stopped blocks tipH floor h)
  from "1.prems" obtain b where b: "\<not> (h \<le> floor \<or> stopped h)" "onChain h = Some b"
    by (subst (asm) walkBack.simps) (auto split: if_splits option.splits)
  let ?match = "case find (\<lambda>b. b_height b = Some h) blocks of None \<Rightarrow> False | Some r \<Rightarrow> b_hash r \<noteq> [] \<and> bd_hash b = b_hash r"
  have step: "walkBack onChain stopped blocks tipH floor h =
      (if ?match then (if h = tipH then None else map_option (\<lambda>s. \<lparr>pt_slot = s, pt_hash = bd_hash b, pt_height = Some h\<rparr>) (bd_slot b))
       else walkBack onChain stopped blocks tipH floor (h - 1))"
    using b by (subst walkBack.simps) (simp add: Let_def)
  show ?case
  proof (cases ?match)
    case True
    then obtain s where "h \<noteq> tipH" "bd_slot b = Some s" "p = \<lparr>pt_slot = s, pt_hash = bd_hash b, pt_height = Some h\<rparr>"
      using "1.prems" unfolding step by (auto split: if_splits)
    then have "fork_at onChain blocks tipH floor h p h"
      using b True by (auto simp: fork_at_def stored_at_def split: option.splits)
    then show ?thesis ..
  next
    case False
    then have "walkBack onChain stopped blocks tipH floor (h - 1) = Some p" using "1.prems" step by simp
    from "1.IH" [OF b refl False this] obtain k where "fork_at onChain blocks tipH floor (h - 1) p k" ..
    moreover have "stored_at blocks h = Some (bd_hash b) \<longrightarrow> bd_hash b = []"
      using False by (auto simp: stored_at_def split: option.splits)
    ultimately show ?thesis using fork_at_up b(2) by blast
  qed
qed

text \<open>
  The recovery of a paginating crawl rolls back to the last common block: the fork lies strictly
  below the cursor and at most a hundred blocks deep, the provider's block there is the stored
  one, and at every height above it the provider answered with another hash than the stored one.
\<close>

theorem recovery_finds_fork:
  assumes "cd_cursor db = Some cursor" "tryReorgRecovery onChain stopped decode cfg ow now db = (True, db')"
  shows "\<exists>p k. (\<exists>out. handleReorg decode cfg ow now (Point p) db = (Some out, db'))
    \<and> pt_height p = Some k \<and> 0 < k \<and> y_lastHeight cursor - 100 < k \<and> k < y_lastHeight cursor
    \<and> stored_at (cd_blocks db) k = Some (pt_hash p)
    \<and> (\<exists>b. onChain k = Some b \<and> bd_hash b = pt_hash p \<and> bd_slot b = Some (pt_slot p))
    \<and> (\<forall>j. k < j \<and> j \<le> y_lastHeight cursor
         \<longrightarrow> (\<exists>b. onChain j = Some b \<and> (stored_at (cd_blocks db) j = Some (bd_hash b) \<longrightarrow> bd_hash b = [])))"
proof -
  let ?top = "y_lastHeight cursor"
  have "\<exists>p. walkBack onChain stopped (cd_blocks db) ?top (max 0 (?top - MAX_DEPTH)) ?top = Some p
      \<and> (\<exists>out. handleReorg decode cfg ow now (Point p) db = (Some out, db'))"
    using assms by (simp add: tryReorgRecovery_def readCursor_def Let_def split: if_splits option.splits prod.splits)
  then obtain p out where p: "walkBack onChain stopped (cd_blocks db) ?top (max 0 (?top - MAX_DEPTH)) ?top = Some p"
      "handleReorg decode cfg ow now (Point p) db = (Some out, db')" by blast
  from walkBack_Some [OF p(1)] obtain k where k: "fork_at onChain (cd_blocks db) ?top (max 0 (?top - MAX_DEPTH)) ?top p k" ..
  then have "0 < k" "?top - 100 < k" "k < ?top" by (auto simp: MAX_DEPTH_def fork_at_def)
  then show ?thesis using p(2) k unfolding fork_at_def by blast
qed

definition demo_provider :: "int \<Rightarrow> BlockData option" where
  "demo_provider h = Some (if h = 1 then \<lparr>bd_hash = ''b0'', bd_slot = Some 1, bd_height = Some 1\<rparr>
     else \<lparr>bd_hash = ''b1x'', bd_slot = Some 6, bd_height = Some h\<rparr>)"

definition demo_stale :: chain_db where
  "demo_stale = demo_chain\<lparr>cd_cursor := map_option (\<lambda>c. c\<lparr>y_lastHeight := 2, y_lastBlockHash := Some ''b1''\<rparr>) (cd_cursor demo_chain)\<rparr>"

theorem recovery_finds_fork_witness:
  "(\<exists>p. pt_height p = Some 1 \<and> pt_hash p = ''b0'' \<and>
     (\<exists>out. handleReorg demo_decode demo_origin None 9 (Point p) demo_stale
        = (Some out, snd (tryReorgRecovery demo_provider (\<lambda>_. False) demo_decode demo_origin None 9 demo_stale))))"
proof -
  let ?r = "tryReorgRecovery demo_provider (\<lambda>_. False) demo_decode demo_origin None 9 demo_stale"
  have r: "?r = (True, snd ?r)"
  proof -
    have "fst ?r" by code_simp
    then show ?thesis by (metis prod.collapse)
  qed
  have c: "cd_cursor demo_stale = Some (the (cd_cursor demo_stale))" "y_lastHeight (the (cd_cursor demo_stale)) = 2"
    by (simp_all add: demo_stale_def demo_chain_def)
  from recovery_finds_fork [OF c(1) r] c(2) obtain p k where p: "pt_height p = Some k" "0 < k" "k < 2"
      "\<exists>out. handleReorg demo_decode demo_origin None 9 (Point p) demo_stale = (Some out, snd ?r)"
      "\<exists>b. demo_provider k = Some b \<and> bd_hash b = pt_hash p \<and> bd_slot b = Some (pt_slot p)" by auto
  then have "k = 1" by simp
  with p(5) have "pt_hash p = ''b0''" by (auto simp: demo_provider_def)
  with \<open>k = 1\<close> p(1,4) show ?thesis by blast
qed

end
