(* ===== verification/CrawlerPersist.thy ===== *)
theory CrawlerPersist imports SyncState Errors Collections begin

text \<open>
  Storing one block, \<open>persistBlock\<close> of \<open>srv/blockchain/crawler/crawler.ts\<close>, with the part of
  \<open>srv/blockchain/cardano-indexer.ts\<close> that decides whether the block reaches the UTxO set. An
  attempt is one database transaction: it commits whole or leaves the database as it was, while
  what it changed in memory stays. Between two attempts other processes may write the cursor row
  and the crawler may be halted.
\<close>

section \<open>The anchor of the UTxO set\<close>

record LedgerAnchor =
  an_slot :: int
  an_hash :: string

text \<open>
  \<open>ix_pending\<close> is the memo update that waits for the commit: mark the anchor verified. It names the
  anchor object, so a new \<open>setUtxoAnchor\<close> makes it void.
\<close>

record anchor_state =
  ix_crawlUtxoSet :: bool
  ix_anchor :: "LedgerAnchor option"
  ix_verified :: bool
  ix_invalidation :: "string option"
  ix_pending :: "LedgerAnchor option"

definition setUtxoAnchor :: "LedgerAnchor option \<Rightarrow> anchor_state \<Rightarrow> anchor_state" where
  "setUtxoAnchor a ix = ix\<lparr>ix_anchor := a, ix_verified := False, ix_invalidation := None, ix_pending := None\<rparr>"

definition getUtxoAnchor :: "anchor_state \<Rightarrow> LedgerAnchor option" where
  "getUtxoAnchor ix = (if ix_crawlUtxoSet ix \<and> ix_invalidation ix = None then ix_anchor ix else None)"

definition confirmBlockCommit :: "anchor_state \<Rightarrow> anchor_state" where
  "confirmBlockCommit ix =
     (let ix1 = ix\<lparr>ix_pending := None\<rparr>
      in if ix_pending ix \<noteq> None \<and> ix_anchor ix = ix_pending ix then ix1\<lparr>ix_verified := True\<rparr> else ix1)"

definition takeLedgerInvalidation :: "anchor_state \<Rightarrow> string option \<times> anchor_state" where
  "takeLedgerInvalidation ix =
     (ix_invalidation ix,
      if ix_invalidation ix = None then ix else ix\<lparr>ix_invalidation := None, ix_anchor := None, ix_verified := False\<rparr>)"

definition invalid_patch :: "string \<Rightarrow> utxo_patch" where
  "invalid_patch reason = \<lparr>up_status = Some UtxoInvalid, up_anchorSlot = None, up_anchorHash = None, up_importedAt = None,
     up_appliedSlot = None, up_error = Some (Some (take 500 reason))\<rparr>"

definition point_text :: "int \<Rightarrow> string option \<Rightarrow> string" where
  "point_text slot hash = dec (nat slot) @ ''/'' @ nullish hash ''null''"

definition anchor_reason :: "SyncCursor option \<Rightarrow> LedgerAnchor \<Rightarrow> string" where
  "anchor_reason cursor anchor =
     (case cursor of
        Some c \<Rightarrow> ''anchor '' @ point_text (an_slot anchor) (Some (an_hash anchor)) @ '' is not the block the crawler followed (cursor ''
                    @ point_text (y_lastSlot c) (y_lastBlockHash c) @ '')''
      | None \<Rightarrow> ''no crawler cursor to verify the anchor '' @ point_text (an_slot anchor) (Some (an_hash anchor)) @ '' against'')"

definition verifyUtxoAnchor :: "LedgerAnchor \<Rightarrow> anchor_state \<times> sdb \<Rightarrow> bool \<times> anchor_state \<times> sdb" where
  "verifyUtxoAnchor anchor st =
     (case st of (ix, db) \<Rightarrow>
        (let cursor = readCursor db
         in if (case cursor of None \<Rightarrow> False | Some c \<Rightarrow> us_appliedSlot (y_utxoSet c) \<noteq> None) then (True, ix, db)
            else if (case cursor of None \<Rightarrow> False
                     | Some c \<Rightarrow> y_lastSlot c = an_slot anchor
                         \<and> toLowerCase (nullish (y_lastBlockHash c) []) = toLowerCase (an_hash anchor)) then (True, ix, db)
            else (let reason = anchor_reason cursor anchor
                  in (False, ix\<lparr>ix_invalidation := Some reason\<rparr>, setUtxoSetState db (invalid_patch reason)))))"

section \<open>The ledger decision of a block\<close>

record CrawlBlock =
  cb_hash :: string
  cb_slot :: "int option"
  cb_height :: "int option"
  cb_txCount :: nat

datatype ledger_action = LedgerOff | LedgerRewrite string | LedgerApply

definition ledgerDue :: "CrawlBlock \<Rightarrow> anchor_state \<Rightarrow> bool" where
  "ledgerDue block ix =
     (ix_crawlUtxoSet ix \<and> (case ix_anchor ix of None \<Rightarrow> False | Some a \<Rightarrow> nullish (cb_slot block) 0 > an_slot a))"

definition ledgerGate :: "CrawlBlock \<Rightarrow> anchor_state \<times> sdb \<Rightarrow> ledger_action \<times> anchor_state \<times> sdb" where
  "ledgerGate block st =
     (case st of (ix0, db) \<Rightarrow>
        (let ix = ix0\<lparr>ix_pending := None\<rparr>
         in if \<not> ledgerDue block ix then (LedgerOff, ix, db)
            else (case ix_invalidation ix of
                    Some reason \<Rightarrow> (LedgerRewrite reason, ix, db)
                  | None \<Rightarrow>
                      if ix_verified ix then (LedgerApply, ix, db)
                      else (let (verified, ix1, db1) = verifyUtxoAnchor (the (ix_anchor ix)) (ix, db)
                            in if verified then (LedgerApply, ix1\<lparr>ix_pending := ix_anchor ix\<rparr>, db1)
                               else (LedgerOff, ix1, db1)))))"

text \<open>The database as far as the cursor concerns it: stored blocks and those applied to the set.\<close>

record crawl_db =
  q_cursor :: sdb
  q_blocks :: "string list"
  q_applied :: "string list"

definition ledgerPart :: "ledger_action \<Rightarrow> CrawlBlock \<Rightarrow> crawl_db \<Rightarrow> crawl_db" where
  "ledgerPart action block db =
     (case action of
        LedgerOff \<Rightarrow> db
      | LedgerRewrite reason \<Rightarrow> db\<lparr>q_cursor := setUtxoSetState (q_cursor db) (invalid_patch reason)\<rparr>
      | LedgerApply \<Rightarrow> db\<lparr>q_applied := q_applied db @ [cb_hash block]\<rparr>)"

section \<open>Errors of an attempt\<close>

datatype error_class = RangeErr | SyntaxErr | OtherErr

record thrown =
  th_class :: error_class
  th_message :: string

definition DATA_REJECTION_PATTERNS :: "string list" where
  "DATA_REJECTION_PATTERNS =
    [''unsupported unicode escape sequence'', ''invalid byte sequence for encoding'', ''out of range for type'',
     ''invalid input syntax for type'', ''value too long for type'', ''numeric value out of range'',
     ''inserted value too large for column'', ''string or blob too big'', ''datatype mismatch'']"

definition isDataRejection :: "thrown \<Rightarrow> bool" where
  "isDataRejection err =
     (th_class err = RangeErr \<or> th_class err = SyntaxErr
      \<or> list_ex (str_includes (toLowerCase (th_message err))) DATA_REJECTION_PATTERNS)"

definition PERSIST_RETRIES :: nat where
  "PERSIST_RETRIES = 3"

definition POISON_BLOCK_THRESHOLD :: nat where
  "POISON_BLOCK_THRESHOLD = 5"

type_synonym poison = "(string \<times> nat) option"

definition notePersistFailure :: "string \<Rightarrow> poison \<Rightarrow> nat \<times> poison" where
  "notePersistFailure hash p =
     (case p of
        Some (h, n) \<Rightarrow> if h = hash then (n + 1, Some (hash, n + 1)) else (1, Some (hash, 1))
      | None \<Rightarrow> (1, Some (hash, 1)))"

section \<open>The crawler's memory\<close>

record crawler =
  cr_running :: bool
  cr_finalStatus :: CrawlSyncStatus
  cr_latchOnHalt :: bool
  cr_leaseRenewedAt :: time
  cr_poison :: poison
  cr_indexed :: "string list"
  cr_anchor :: anchor_state

definition beginHalt :: "CrawlSyncStatus \<Rightarrow> bool \<Rightarrow> crawler \<Rightarrow> crawler" where
  "beginHalt finalStatus latch cr =
     cr\<lparr>cr_latchOnHalt := cr_latchOnHalt cr \<or> latch,
        cr_finalStatus := (if cr_finalStatus cr \<noteq> SyncError \<or> finalStatus = SyncError then finalStatus else cr_finalStatus cr),
        cr_running := False\<rparr>"

text \<open>
  What happens around attempt \<open>i\<close>: the crawler was halted during the pause before it, other
  processes wrote the cursor, a statement of the block fails, the commit fails, the error record
  or the latch cannot be written.
\<close>

record attempt_env =
  ae_halted :: bool
  ae_others :: "sdb \<Rightarrow> sdb"
  ae_rows :: "thrown option"
  ae_commit :: "thrown option"
  ae_now :: time
  ae_recordFails :: bool
  ae_latchFails :: bool

datatype tx_result = Committed crawl_db | LeaseLost | Threw thrown

definition atTip :: "CrawlBlock \<Rightarrow> tip_info option \<Rightarrow> bool" where
  "atTip block tip =
     (case tip of None \<Rightarrow> False
      | Some t \<Rightarrow> (case cb_slot block of None \<Rightarrow> False | Some s \<Rightarrow> s \<ge> ti_slot t))"

definition persistTx ::
  "attempt_env \<Rightarrow> string option \<Rightarrow> CrawlBlock \<Rightarrow> tip_info option \<Rightarrow> anchor_state \<Rightarrow> crawl_db \<Rightarrow> tx_result \<times> anchor_state" where
  "persistTx env leaseOwner block tip ix db =
     (let (action, ix1, c1) = ledgerGate block (ix, q_cursor db);
          db1 = ledgerPart action block (db\<lparr>q_cursor := c1, q_blocks := q_blocks db @ [cb_hash block]\<rparr>);
          applied = (case getUtxoAnchor ix1 of None \<Rightarrow> False | Some a \<Rightarrow> nullish (cb_slot block) 0 > an_slot a);
          (held, c2) = advanceCursor (q_cursor db1)
             \<lparr>cp_slot = nullish (cb_slot block) 0, cp_hash = cb_hash block, cp_height = Some (nullish (cb_height block) 0)\<rparr>
             tip (if atTip block tip then Synced else Syncing)
             (if applied then Some (nullish (cb_slot block) 0) else None) leaseOwner (ae_now env) CRAWLER_LEASE_TTL_MS
      in (case ae_rows env of
            Some err \<Rightarrow> Threw err
          | None \<Rightarrow> if \<not> held then LeaseLost
                    else (case ae_commit env of Some err \<Rightarrow> Threw err | None \<Rightarrow> Committed (db1\<lparr>q_cursor := c2\<rparr>)), ix1))"

definition recordCrawlerError :: "attempt_env \<Rightarrow> string option \<Rightarrow> thrown \<Rightarrow> sdb \<Rightarrow> int \<times> sdb" where
  "recordCrawlerError env leaseOwner err db =
     (if ae_recordFails env then (0, db) else recordError db (th_message err) leaseOwner (ae_now env))"

definition afterCommit :: "attempt_env \<Rightarrow> CrawlBlock \<Rightarrow> crawler \<Rightarrow> crawler" where
  "afterCommit env block cr =
     cr\<lparr>cr_leaseRenewedAt := ae_now env,
        cr_anchor := snd (takeLedgerInvalidation (confirmBlockCommit (cr_anchor cr))),
        cr_poison := (if map_option fst (cr_poison cr) = Some (cb_hash block) then None else cr_poison cr),
        cr_indexed := cr_indexed cr @ [cb_hash block]\<rparr>"

definition poison_message :: "CrawlBlock \<Rightarrow> nat \<Rightarrow> thrown \<Rightarrow> string" where
  "poison_message block failures err =
     ''poison block '' @ cb_hash block @ '' @'' @ (case cb_height block of None \<Rightarrow> ''?'' | Some h \<Rightarrow> dec (nat h))
     @ '' failed '' @ dec failures @ ''x: '' @ th_message err"

text \<open>The final failure of a block: count it when its data is to blame, latch at the threshold.\<close>

definition finalFailure :: "attempt_env \<Rightarrow> CrawlBlock \<Rightarrow> thrown \<Rightarrow> crawler \<Rightarrow> crawl_db \<Rightarrow> crawler \<times> crawl_db" where
  "finalFailure env block err cr db =
     (let (failures, p) = (if isDataRejection err then notePersistFailure (cb_hash block) (cr_poison cr) else (0, cr_poison cr))
      in if failures \<ge> POISON_BLOCK_THRESHOLD
         then (if ae_latchFails env then (beginHalt SyncError True (cr\<lparr>cr_poison := p\<rparr>), db)
               else (beginHalt SyncError True (cr\<lparr>cr_poison := None\<rparr>),
                     db\<lparr>q_cursor := latchPoisonBlock (q_cursor db) (poison_message block failures err) (ae_now env)\<rparr>))
         else (beginHalt SyncError False (cr\<lparr>cr_poison := p\<rparr>), db))"

function persistAttempt ::
  "(nat \<Rightarrow> attempt_env) \<Rightarrow> string option \<Rightarrow> CrawlBlock \<Rightarrow> tip_info option \<Rightarrow> nat \<Rightarrow> crawler \<times> crawl_db \<Rightarrow> bool \<times> crawler \<times> crawl_db" where
  "persistAttempt env leaseOwner block tip attempt (cr0, db0) =
     (let e = env attempt;
          cr = (if ae_halted e then beginHalt Stopped False cr0 else cr0);
          db = db0\<lparr>q_cursor := ae_others e (q_cursor db0)\<rparr>
      in if \<not> cr_running cr then (False, cr, db)
         else (case persistTx e leaseOwner block tip (cr_anchor cr) db of
             (Committed db', ix) \<Rightarrow> (True, afterCommit e block (cr\<lparr>cr_anchor := ix\<rparr>), db')
           | (LeaseLost, ix) \<Rightarrow> (False, beginHalt Stopped False (cr\<lparr>cr_anchor := ix\<rparr>), db)
           | (Threw err, ix) \<Rightarrow>
               (let (streak, c) = recordCrawlerError e leaseOwner err (q_cursor db);
                    cr1 = cr\<lparr>cr_anchor := ix\<rparr>; db1 = db\<lparr>q_cursor := c\<rparr>
                in if streak < 0 then (False, beginHalt Stopped False cr1, db1)
                   else if attempt < PERSIST_RETRIES \<and> streak < MAX_CONSECUTIVE_ERRORS
                   then persistAttempt env leaseOwner block tip (attempt + 1) (cr1, db1)
                   else (False, finalFailure e block err cr1 db1))))"
  by pat_completeness auto
termination by (relation "measure (\<lambda>(_, _, _, _, attempt, _). PERSIST_RETRIES - attempt)") auto

declare persistAttempt.simps [simp del]

text \<open>\<open>None\<close>: the source delivered fewer transactions than the block has, and an error is thrown.\<close>

definition persistBlock ::
  "(nat \<Rightarrow> attempt_env) \<Rightarrow> string option \<Rightarrow> CrawlBlock \<Rightarrow> nat \<Rightarrow> tip_info option \<Rightarrow> crawler \<Rightarrow> crawl_db \<Rightarrow> (bool \<times> crawler \<times> crawl_db) option" where
  "persistBlock env leaseOwner block txs tip cr db =
     (if txs \<noteq> cb_txCount block then None else Some (persistAttempt env leaseOwner block tip 1 (cr, db)))"

section \<open>One commit or none\<close>

lemma setUtxo_keeps [simp]:
  "(setUtxoSetState db p = None) = (db = None)"
  by (simp add: setUtxoSetState_def update_cursor_def)

text \<open>The advance of a fenced transaction.\<close>

lemma advance_held:
  assumes "advanceCursor db b tip st applied (Some ow) now ttl = (True, db')" "truthy (Some ow)"
  shows "\<exists>c. db' = Some c \<and> y_lastSlot c = cp_slot b \<and> y_lastBlockHash c = Some (cp_hash b) \<and> y_leaseOwner c = Some ow
    \<and> y_desiredRunning c \<and> (case applied of None \<Rightarrow> True | Some s \<Rightarrow> us_appliedSlot (y_utxoSet c) = Some s)"
  using assms
  by (cases db) (auto simp: advanceCursor_def Let_def update_cursor_def readCursor_def leaseDeadlineReached_def advance_columns_def
      split: if_splits option.splits)

text \<open>What a committed attempt leaves: the block, the cursor on it, and the ledger with it when it is due.\<close>

definition stored :: "string \<Rightarrow> CrawlBlock \<Rightarrow> crawl_db \<Rightarrow> anchor_state \<Rightarrow> crawl_db \<Rightarrow> bool" where
  "stored ow block db ix db' \<longleftrightarrow>
     q_blocks db' = q_blocks db @ [cb_hash block]
     \<and> (\<exists>c. q_cursor db' = Some c \<and> y_lastSlot c = nullish (cb_slot block) 0 \<and> y_lastBlockHash c = Some (cb_hash block)
          \<and> y_leaseOwner c = Some ow \<and> y_desiredRunning c
          \<and> (q_applied db' = q_applied db @ [cb_hash block] \<and> us_appliedSlot (y_utxoSet c) = Some (nullish (cb_slot block) 0)
               \<and> getUtxoAnchor ix \<noteq> None
             \<or> q_applied db' = q_applied db \<and> (\<forall>a. getUtxoAnchor ix = Some a \<longrightarrow> nullish (cb_slot block) 0 \<le> an_slot a)))"

lemma verify_fields:
  assumes "verifyUtxoAnchor a (ix, db) = (ok, ix', db')"
  shows "ix_anchor ix' = ix_anchor ix" "ix_crawlUtxoSet ix' = ix_crawlUtxoSet ix"
    "ok \<Longrightarrow> ix' = ix" "\<not> ok \<Longrightarrow> ix_invalidation ix' \<noteq> None"
  using assms by (auto simp: verifyUtxoAnchor_def Let_def split: if_splits)

lemma gate_cases:
  assumes "ledgerGate block (ix, db) = (action, ix', db')"
  shows "if action = LedgerApply
    then \<exists>a. getUtxoAnchor ix' = Some a \<and> an_slot a < nullish (cb_slot block) 0
    else \<forall>a. getUtxoAnchor ix' = Some a \<longrightarrow> nullish (cb_slot block) 0 \<le> an_slot a"
proof -
  define ix0 where "ix0 = ix\<lparr>ix_pending := None\<rparr>"
  note gate = assms [unfolded ledgerGate_def Let_def prod.case, folded ix0_def]
  show ?thesis
  proof (cases "ledgerDue block ix0")
    case False
    then have "action = LedgerOff" "ix' = ix0" using gate by auto
    with False show ?thesis by (auto simp: ledgerDue_def getUtxoAnchor_def split: if_splits)
  next
    case True
    then obtain a where a: "ix_anchor ix0 = Some a" "ix_crawlUtxoSet ix0" "an_slot a < nullish (cb_slot block) 0"
      by (auto simp: ledgerDue_def split: option.splits)
    obtain ok ix1 db1 where v: "verifyUtxoAnchor a (ix0, db) = (ok, ix1, db1)" by (metis prod_cases3)
    note vf = verify_fields [OF v]
    consider r where "ix_invalidation ix0 = Some r" "action = LedgerRewrite r" "ix' = ix0"
      | "ix_invalidation ix0 = None" "action = LedgerApply" "ix' = ix0"
      | "ix_invalidation ix0 = None" "ok" "action = LedgerApply" "ix' = ix1\<lparr>ix_pending := ix_anchor ix0\<rparr>"
      | "\<not> ok" "action = LedgerOff" "ix' = ix1"
      using gate True a(1) v by (auto split: option.splits if_splits)
    then show ?thesis
    proof cases
      case 1
      then show ?thesis by (simp add: getUtxoAnchor_def)
    next
      case 2
      then show ?thesis using a by (simp add: getUtxoAnchor_def)
    next
      case 3
      then show ?thesis using a vf(3) by (simp add: getUtxoAnchor_def)
    next
      case 4
      then show ?thesis using vf(4) by (auto simp: getUtxoAnchor_def)
    qed
  qed
qed

lemma anchor_after_commit:
  "getUtxoAnchor (snd (takeLedgerInvalidation (confirmBlockCommit ix))) = getUtxoAnchor ix"
  by (auto simp: takeLedgerInvalidation_def confirmBlockCommit_def getUtxoAnchor_def Let_def)

lemma ledgerPart_fields [simp]: "q_blocks (ledgerPart action block db) = q_blocks db"
  "q_applied (ledgerPart action block db) = (if action = LedgerApply then q_applied db @ [cb_hash block] else q_applied db)"
  by (simp_all add: ledgerPart_def split: ledger_action.split)

lemma persistTx_committed:
  assumes "persistTx env (Some ow) block tip ix db = (Committed db', ix')" "truthy (Some ow)"
  shows "stored ow block db ix' db'"
proof -
  obtain action ix1 c1 where g: "ledgerGate block (ix, q_cursor db) = (action, ix1, c1)" by (metis prod_cases3)
  let ?db1 = "ledgerPart action block (db\<lparr>q_cursor := c1, q_blocks := q_blocks db @ [cb_hash block]\<rparr>)"
  let ?applied = "case getUtxoAnchor ix1 of None \<Rightarrow> False | Some a \<Rightarrow> nullish (cb_slot block) 0 > an_slot a"
  let ?adv = "advanceCursor (q_cursor ?db1)
     \<lparr>cp_slot = nullish (cb_slot block) 0, cp_hash = cb_hash block, cp_height = Some (nullish (cb_height block) 0)\<rparr>
     tip (if atTip block tip then Synced else Syncing) (if ?applied then Some (nullish (cb_slot block) 0) else None)
     (Some ow) (ae_now env) CRAWLER_LEASE_TTL_MS"
  obtain held c2 where a: "?adv = (held, c2)" by fastforce
  have res: "held" "ix' = ix1" "db' = ?db1\<lparr>q_cursor := c2\<rparr>"
    using assms(1) by (simp_all add: persistTx_def g a Let_def split: option.splits if_splits)
  from advance_held [OF a [unfolded \<open>held\<close> [THEN eqTrueI]] assms(2)] obtain c where c: "c2 = Some c"
    "y_lastSlot c = nullish (cb_slot block) 0" "y_lastBlockHash c = Some (cb_hash block)" "y_leaseOwner c = Some ow" "y_desiredRunning c"
    "?applied \<Longrightarrow> us_appliedSlot (y_utxoSet c) = Some (nullish (cb_slot block) 0)"
    by (auto split: if_splits)
  show ?thesis
  proof (cases "action = LedgerApply")
    case True
    with gate_cases [OF g] c(6) have "getUtxoAnchor ix1 \<noteq> None" "us_appliedSlot (y_utxoSet c) = Some (nullish (cb_slot block) 0)"
      by auto
    with True c res show ?thesis by (auto simp: stored_def)
  next
    case False
    with gate_cases [OF g] c res show ?thesis by (auto simp: stored_def)
  qed
qed

lemma persistAttempt_step:
  "persistAttempt env leaseOwner block tip attempt (cr0, db0) =
     (let e = env attempt;
          cr = (if ae_halted e then beginHalt Stopped False cr0 else cr0);
          db = db0\<lparr>q_cursor := ae_others e (q_cursor db0)\<rparr>
      in if \<not> cr_running cr then (False, cr, db)
         else (case persistTx e leaseOwner block tip (cr_anchor cr) db of
             (Committed db', ix) \<Rightarrow> (True, afterCommit e block (cr\<lparr>cr_anchor := ix\<rparr>), db')
           | (LeaseLost, ix) \<Rightarrow> (False, beginHalt Stopped False (cr\<lparr>cr_anchor := ix\<rparr>), db)
           | (Threw err, ix) \<Rightarrow>
               (let (streak, c) = recordCrawlerError e leaseOwner err (q_cursor db);
                    cr1 = cr\<lparr>cr_anchor := ix\<rparr>; db1 = db\<lparr>q_cursor := c\<rparr>
                in if streak < 0 then (False, beginHalt Stopped False cr1, db1)
                   else if attempt < PERSIST_RETRIES \<and> streak < MAX_CONSECUTIVE_ERRORS
                   then persistAttempt env leaseOwner block tip (attempt + 1) (cr1, db1)
                   else (False, finalFailure e block err cr1 db1))))"
  by (rule persistAttempt.simps)

text \<open>
  A rule for what holds after the loop: it holds when the crawler is found halted, after a commit,
  after a lost lease, after a refused error record and after the final failure; a retry keeps \<open>R\<close>,
  which relates the state at the start to that of the current attempt.
\<close>

lemma persistAttempt_rule:
  assumes "persistAttempt env leaseOwner block tip attempt (cr, db) = (ok, cr', db')"
    and start: "R cr db"
    and halted: "\<And>cr db. R cr db \<Longrightarrow> R (beginHalt Stopped False cr) db"
    and others: "\<And>cr db f. R cr db \<Longrightarrow> R cr (db\<lparr>q_cursor := f\<rparr>)"
    and anchor: "\<And>cr db ix. R cr db \<Longrightarrow> R (cr\<lparr>cr_anchor := ix\<rparr>) db"
    and commit: "\<And>i cr db db2 ix. R cr db \<Longrightarrow> cr_running cr \<Longrightarrow> persistTx (env i) leaseOwner block tip (cr_anchor cr) db = (Committed db2, ix)
        \<Longrightarrow> Q True (afterCommit (env i) block (cr\<lparr>cr_anchor := ix\<rparr>)) db2"
    and stop: "\<And>cr db. R cr db \<Longrightarrow> \<not> cr_running cr \<Longrightarrow> Q False cr db"
    and final: "\<And>i cr db err ix ix'. R cr db \<Longrightarrow> cr_running cr \<Longrightarrow> ae_rows (env i) = Some err \<or> ae_commit (env i) = Some err
        \<Longrightarrow> Q False (fst (finalFailure (env i) block err cr db)) (snd (finalFailure (env i) block err cr db))"
  shows "Q ok cr' db'"
  using assms(1) start
proof (induction "PERSIST_RETRIES - attempt" arbitrary: attempt cr db rule: less_induct)
  case less
  define e where "e = env attempt"
  define cr1 where "cr1 = (if ae_halted e then beginHalt Stopped False cr else cr)"
  define db1 where "db1 = db\<lparr>q_cursor := ae_others e (q_cursor db)\<rparr>"
  have R1: "R cr1 db1" using less.prems(2) halted others by (simp add: cr1_def db1_def)
  have halt_stop: "\<not> cr_running (beginHalt st l c)" for st l c by (simp add: beginHalt_def)
  note eq = less.prems(1) [unfolded persistAttempt_step [of env leaseOwner block tip attempt cr db], folded e_def, unfolded Let_def, folded cr1_def db1_def]
  show ?case
  proof (cases "cr_running cr1")
    case False
    then show ?thesis using eq stop [OF R1] by auto
  next
    case True
    obtain res ix where t: "persistTx e leaseOwner block tip (cr_anchor cr1) db1 = (res, ix)" by fastforce
    have R2: "R (cr1\<lparr>cr_anchor := ix\<rparr>) db1" using anchor [OF R1] .
    show ?thesis
    proof (cases res)
      case (Committed db2)
      then show ?thesis using eq True t commit [OF R1 True t [unfolded Committed e_def]] by (simp add: e_def)
    next
      case LeaseLost
      then show ?thesis using eq True t stop [OF halted [OF R2] halt_stop] by auto
    next
      case (Threw err)
      obtain streak c where r: "recordCrawlerError e leaseOwner err (q_cursor db1) = (streak, c)" by fastforce
      have R3: "R (cr1\<lparr>cr_anchor := ix\<rparr>) (db1\<lparr>q_cursor := c\<rparr>)" using others [OF R2] .
      have thrown: "ae_rows (env attempt) = Some err \<or> ae_commit (env attempt) = Some err"
        using t Threw by (auto simp: persistTx_def e_def Let_def split: prod.splits option.splits if_splits)
      consider "streak < 0" | "\<not> streak < 0" "attempt < PERSIST_RETRIES \<and> streak < MAX_CONSECUTIVE_ERRORS"
        | "\<not> streak < 0" "\<not> (attempt < PERSIST_RETRIES \<and> streak < MAX_CONSECUTIVE_ERRORS)" by blast
      then show ?thesis
      proof cases
        case 1
        then show ?thesis using eq True t Threw r stop [OF halted [OF R3] halt_stop] by auto
      next
        case 2
        then have "persistAttempt env leaseOwner block tip (attempt + 1) (cr1\<lparr>cr_anchor := ix\<rparr>, db1\<lparr>q_cursor := c\<rparr>) = (ok, cr', db')"
          using eq True t Threw r by simp
        moreover have "PERSIST_RETRIES - (attempt + 1) < PERSIST_RETRIES - attempt" using 2(2) by linarith
        ultimately show ?thesis using less.hyps R3 by blast
      next
        case 3
        then have "(ok, cr', db') = (False, finalFailure e block err (cr1\<lparr>cr_anchor := ix\<rparr>) (db1\<lparr>q_cursor := c\<rparr>))"
          using eq True t Threw r by auto
        then show ?thesis using final [OF R3 _ thrown] True by (metis e_def fst_conv prod.collapse prod.inject crawler.select_convs(1) crawler.surjective crawler.update_convs(7))
      qed
    qed
  qed
qed

text \<open>
  C32. A block is stored once or not at all, with its cursor: under a lease \<open>persistBlock\<close> answers
  true exactly when one attempt committed. Then the block is stored once more, the cursor stands
  on it and the lease is still the caller's, listeners are told once, and the UTxO set moves with
  the cursor: while its anchor is effective a block past the anchor was applied and the marker is
  its slot. Otherwise the crawler is halted and nothing is stored, applied or announced.
\<close>

theorem persist_commits_once:
  assumes "persistBlock env (Some ow) block txs tip cr db = Some (ok, cr', db')" "truthy (Some ow)" "cr_running cr"
  shows "txs = cb_txCount block
    \<and> (ok \<longrightarrow> q_blocks db' = q_blocks db @ [cb_hash block] \<and> cr_indexed cr' = cr_indexed cr @ [cb_hash block]
        \<and> (\<exists>c. q_cursor db' = Some c \<and> y_lastSlot c = nullish (cb_slot block) 0 \<and> y_lastBlockHash c = Some (cb_hash block)
             \<and> y_leaseOwner c = Some ow \<and> y_desiredRunning c
             \<and> (q_applied db' = q_applied db @ [cb_hash block] \<and> us_appliedSlot (y_utxoSet c) = Some (nullish (cb_slot block) 0)
                  \<and> getUtxoAnchor (cr_anchor cr') \<noteq> None
                \<or> q_applied db' = q_applied db
                  \<and> (\<forall>a. getUtxoAnchor (cr_anchor cr') = Some a \<longrightarrow> nullish (cb_slot block) 0 \<le> an_slot a))))
    \<and> (\<not> ok \<longrightarrow> \<not> cr_running cr' \<and> q_blocks db' = q_blocks db \<and> q_applied db' = q_applied db \<and> cr_indexed cr' = cr_indexed cr)"
proof -
  have txs: "txs = cb_txCount block" and run: "persistAttempt env (Some ow) block tip 1 (cr, db) = (ok, cr', db')"
    using assms(1) by (auto simp: persistBlock_def split: if_splits)
  define R where "R = (\<lambda>(c::crawler) (d::crawl_db). q_blocks d = q_blocks db \<and> q_applied d = q_applied db \<and> cr_indexed c = cr_indexed cr)"
  define Q where "Q = (\<lambda>ok (c::crawler) (d::crawl_db). if ok then cr_indexed c = cr_indexed cr @ [cb_hash block] \<and> stored ow block db (cr_anchor c) d
    else \<not> cr_running c \<and> R c d)"
  have "Q ok cr' db'"
    using run
  proof (rule persistAttempt_rule [where R = R and Q = Q])
    fix i c d d2 ix
    assume R: "R c d" and t: "persistTx (env i) (Some ow) block tip (cr_anchor c) d = (Committed d2, ix)"
    have "stored ow block d ix d2" by (rule persistTx_committed [OF t assms(2)])
    with R have "stored ow block db ix d2" by (simp add: stored_def R_def)
    moreover have "getUtxoAnchor (cr_anchor (afterCommit (env i) block (c\<lparr>cr_anchor := ix\<rparr>))) = getUtxoAnchor ix"
      by (simp add: afterCommit_def anchor_after_commit)
    ultimately show "Q True (afterCommit (env i) block (c\<lparr>cr_anchor := ix\<rparr>)) d2"
      using R by (simp add: Q_def stored_def R_def afterCommit_def)
  next
    fix i c d err
    assume "R c d"
    then show "Q False (fst (finalFailure (env i) block err c d)) (snd (finalFailure (env i) block err c d))"
      by (simp add: Q_def R_def finalFailure_def beginHalt_def Let_def split: prod.split)
  qed (auto simp: R_def Q_def beginHalt_def)
  then show ?thesis using txs by (simp add: Q_def stored_def R_def split: if_splits)
qed

definition calm :: attempt_env where
  "calm = \<lparr>ae_halted = False, ae_others = id, ae_rows = None, ae_commit = None, ae_now = 100, ae_recordFails = False, ae_latchFails = False\<rparr>"

definition demo_crawler :: crawler where
  "demo_crawler = \<lparr>cr_running = True, cr_finalStatus = Stopped, cr_latchOnHalt = False, cr_leaseRenewedAt = 0, cr_poison = None,
     cr_indexed = [], cr_anchor = \<lparr>ix_crawlUtxoSet = True, ix_anchor = Some \<lparr>an_slot = 3, an_hash = ''B0''\<rparr>, ix_verified = False,
       ix_invalidation = None, ix_pending = None\<rparr>\<rparr>"

definition demo_crawl_db :: crawl_db where
  "demo_crawl_db = \<lparr>q_cursor = map_option (\<lambda>c. c\<lparr>y_lastSlot := 3, y_lastBlockHash := Some ''b0'', y_leaseOwner := Some ''i1'', y_leaseUntil := Some 50\<rparr>)
     (snd (ensureSyncStateSingleton None ''preview'' None)), q_blocks = [''b0''], q_applied = []\<rparr>"

definition demo_block :: CrawlBlock where
  "demo_block = \<lparr>cb_hash = ''b1'', cb_slot = Some 5, cb_height = Some 2, cb_txCount = 0\<rparr>"

definition flaky :: "nat \<Rightarrow> attempt_env" where
  "flaky i = (if i = 1 then calm\<lparr>ae_commit := Some \<lparr>th_class = OtherErr, th_message = ''connection reset''\<rparr>\<rparr> else calm)"

theorem persist_commits_once_witness:
  "(case persistBlock flaky (Some ''i1'') demo_block 0 None demo_crawler demo_crawl_db of
      None \<Rightarrow> False | Some (ok, cr', db') \<Rightarrow> ok \<and> q_blocks db' = [''b0'', ''b1''] \<and> q_applied db' = [''b1''])"
proof -
  obtain ok cr' db' where e: "persistBlock flaky (Some ''i1'') demo_block 0 None demo_crawler demo_crawl_db = Some (ok, cr', db')"
    by (metis prod_cases3 persistBlock_def demo_block_def CrawlBlock.select_convs(4))
  have t: "truthy (Some ''i1'')" "cr_running demo_crawler" by (simp_all add: truthy_def demo_crawler_def)
  have run: "(case persistBlock flaky (Some ''i1'') demo_block 0 None demo_crawler demo_crawl_db of
      None \<Rightarrow> False | Some (ok, cr', db') \<Rightarrow> ok \<and> q_applied db' \<noteq> [])" by code_simp
  then have ok: "ok" "q_applied db' \<noteq> []" by (simp_all add: e)
  have d: "q_blocks demo_crawl_db = [''b0'']" "q_applied demo_crawl_db = []" "cb_hash demo_block = ''b1''"
    by (simp_all add: demo_crawl_db_def demo_block_def)
  from persist_commits_once [OF e t] ok have "q_blocks db' = [''b0'', ''b1'']" "q_applied db' = [''b1'']" by (auto simp: d)
  with ok show ?thesis by (simp add: e)
qed

section \<open>Poison blocks\<close>

text \<open>Whether the data of the block is to blame for every error of the attempts, or for none.\<close>

definition outages_only :: "(nat \<Rightarrow> attempt_env) \<Rightarrow> bool" where
  "outages_only env \<longleftrightarrow> (\<forall>i err. ae_rows (env i) = Some err \<or> ae_commit (env i) = Some err \<longrightarrow> \<not> isDataRejection err)"

definition rejected_always :: "(nat \<Rightarrow> attempt_env) \<Rightarrow> bool" where
  "rejected_always env \<longleftrightarrow> (\<forall>i. \<not> ae_halted (env i) \<and> \<not> ae_recordFails (env i) \<and> \<not> ae_latchFails (env i)
     \<and> ae_others (env i) = id \<and> (\<exists>err. ae_rows (env i) = Some err \<and> isDataRejection err))"

lemma record_unowned: "recordCrawlerError e None err (Some c) = (k, c') \<Longrightarrow> \<not> ae_recordFails e
    \<Longrightarrow> k = y_consecutiveErrors c + 1 \<and> (\<exists>d. c' = Some d \<and> y_consecutiveErrors d = k)"
  by (auto simp: recordCrawlerError_def recordError_def truthy_def readCursor_def update_cursor_def Let_def)

lemma rejected_latches:
  assumes "rejected_always env" "cr_running cr" "cr_poison cr = Some (cb_hash block, n)" "POISON_BLOCK_THRESHOLD \<le> n + 1"
    and "q_cursor db = Some c" "0 \<le> y_consecutiveErrors c"
  shows "\<exists>cr' db' c'. persistAttempt env None block tip attempt (cr, db) = (False, cr', db') \<and> cr_latchOnHalt cr'
    \<and> cr_poison cr' = None \<and> q_cursor db' = Some c' \<and> \<not> y_desiredRunning c'"
  using assms(2-6)
proof (induction "PERSIST_RETRIES - attempt" arbitrary: attempt cr db c rule: less_induct)
  case less
  obtain err where e: "\<not> ae_halted (env attempt)" "\<not> ae_recordFails (env attempt)" "\<not> ae_latchFails (env attempt)"
      "ae_others (env attempt) = id" "ae_rows (env attempt) = Some err" "isDataRejection err"
    using assms(1) by (auto simp: rejected_always_def)
  have "fst (persistTx (env attempt) None block tip (cr_anchor cr) db) = Threw err"
    using e(5) by (simp add: persistTx_def Let_def split: prod.split)
  then obtain ix where t: "persistTx (env attempt) None block tip (cr_anchor cr) db = (Threw err, ix)" by (metis prod.collapse)
  obtain k c' where r: "recordCrawlerError (env attempt) None err (Some c) = (k, c')" by fastforce
  from record_unowned [OF this e(2)] obtain d where d: "k = y_consecutiveErrors c + 1" "c' = Some d" "y_consecutiveErrors d = k" by blast
  have id: "db\<lparr>q_cursor := Some c\<rparr> = db" using less.prems(4) by simp
  have step: "persistAttempt env None block tip attempt (cr, db) =
      (if attempt < PERSIST_RETRIES \<and> k < MAX_CONSECUTIVE_ERRORS
       then persistAttempt env None block tip (attempt + 1) (cr\<lparr>cr_anchor := ix\<rparr>, db\<lparr>q_cursor := c'\<rparr>)
       else (False, finalFailure (env attempt) block err (cr\<lparr>cr_anchor := ix\<rparr>) (db\<lparr>q_cursor := c'\<rparr>)))"
    using less.prems e d(1) by (subst persistAttempt_step) (simp add: Let_def id t r)
  show ?case
  proof (cases "attempt < PERSIST_RETRIES \<and> k < MAX_CONSECUTIVE_ERRORS")
    case True
    then have "PERSIST_RETRIES - (attempt + 1) < PERSIST_RETRIES - attempt" by linarith
    from less.hyps [OF this, of "cr\<lparr>cr_anchor := ix\<rparr>" "db\<lparr>q_cursor := c'\<rparr>" d] show ?thesis
      using True less.prems d by (simp add: step)
  next
    case False
    show ?thesis
      unfolding step if_not_P [OF False] using less.prems d e
      by (simp add: finalFailure_def notePersistFailure_def beginHalt_def latchPoisonBlock_def update_cursor_def Let_def)
  qed
qed

text \<open>
  Only a poison block latches the crawler off. A failed block latches only when the process
  already counted four final failures of that same block caused by its data; failures that are
  outages neither count nor latch; and when the data of the block is to blame for all attempts of
  the fifth run, the cluster is switched off in the database and the memory of it is cleared.
\<close>

theorem poison_latch_exact:
  assumes "persistBlock env leaseOwner block txs tip cr db = Some (ok, cr', db')" "cr_running cr" "\<not> cr_latchOnHalt cr"
  shows "(cr_latchOnHalt cr' \<longrightarrow> \<not> ok \<and> (\<exists>n \<ge> 4. cr_poison cr = Some (cb_hash block, n)))
    \<and> (outages_only env \<and> \<not> ok \<longrightarrow> cr_poison cr' = cr_poison cr \<and> \<not> cr_latchOnHalt cr')
    \<and> (\<forall>n c. rejected_always env \<and> leaseOwner = None \<and> cr_poison cr = Some (cb_hash block, n) \<and> 4 \<le> n
         \<and> q_cursor db = Some c \<and> 0 \<le> y_consecutiveErrors c
        \<longrightarrow> \<not> ok \<and> cr_latchOnHalt cr' \<and> cr_poison cr' = None \<and> (\<exists>c'. q_cursor db' = Some c' \<and> \<not> y_desiredRunning c'))"
proof -
  have run: "persistAttempt env leaseOwner block tip 1 (cr, db) = (ok, cr', db')"
    using assms(1) by (auto simp: persistBlock_def split: if_splits)
  define R where "R = (\<lambda>(c::crawler) (d::crawl_db). cr_poison c = cr_poison cr \<and> \<not> cr_latchOnHalt c)"
  define Q where "Q = (\<lambda>ok (c::crawler) (d::crawl_db). (cr_latchOnHalt c \<longrightarrow> \<not> ok \<and> (\<exists>n \<ge> 4. cr_poison cr = Some (cb_hash block, n)))
    \<and> (outages_only env \<and> \<not> ok \<longrightarrow> cr_poison c = cr_poison cr \<and> \<not> cr_latchOnHalt c))"
  have "Q ok cr' db'"
    using run
  proof (rule persistAttempt_rule [where R = R and Q = Q])
    fix i c d err
    assume R: "R c d" and thrown: "ae_rows (env i) = Some err \<or> ae_commit (env i) = Some err"
    obtain failures p where f: "(if isDataRejection err then notePersistFailure (cb_hash block) (cr_poison c) else (0, cr_poison c)) = (failures, p)"
      by fastforce
    show "Q False (fst (finalFailure (env i) block err c d)) (snd (finalFailure (env i) block err c d))"
    proof (cases "failures \<ge> POISON_BLOCK_THRESHOLD")
      case True
      then have rej: "isDataRejection err" using f by (auto simp: POISON_BLOCK_THRESHOLD_def split: if_splits)
      then have "notePersistFailure (cb_hash block) (cr_poison cr) = (failures, p)" using f R by (simp add: R_def)
      with True have "\<exists>n \<ge> 4. cr_poison cr = Some (cb_hash block, n)"
        by (auto simp: notePersistFailure_def POISON_BLOCK_THRESHOLD_def split: option.splits if_splits)
      moreover have "\<not> outages_only env" using thrown rej by (auto simp: outages_only_def)
      ultimately show ?thesis by (simp add: Q_def)
    next
      case False
      then have "finalFailure (env i) block err c d = (beginHalt SyncError False (c\<lparr>cr_poison := p\<rparr>), d)"
        by (simp add: finalFailure_def f)
      moreover have "p = cr_poison cr" if "outages_only env"
        using that thrown f R by (auto simp: outages_only_def R_def split: if_splits)
      ultimately show ?thesis using R by (simp add: Q_def R_def beginHalt_def)
    qed
  qed (use assms(3) in \<open>auto simp: R_def Q_def beginHalt_def afterCommit_def\<close>)
  moreover have "\<not> ok \<and> cr_latchOnHalt cr' \<and> cr_poison cr' = None \<and> (\<exists>c'. q_cursor db' = Some c' \<and> \<not> y_desiredRunning c')"
    if "rejected_always env" "leaseOwner = None" "cr_poison cr = Some (cb_hash block, n)" "4 \<le> n"
      "q_cursor db = Some c" "0 \<le> y_consecutiveErrors c" for n c
    using rejected_latches [OF that(1) assms(2) that(3) _ that(5,6), of tip 1] run that(2,4)
    by (auto simp: POISON_BLOCK_THRESHOLD_def)
  ultimately show ?thesis unfolding Q_def by blast
qed

definition bad_data :: "nat \<Rightarrow> attempt_env" where
  "bad_data i = calm\<lparr>ae_rows := Some \<lparr>th_class = OtherErr, th_message = ''ERROR: Invalid byte sequence for encoding UTF8''\<rparr>\<rparr>"

theorem poison_latch_exact_witness:
  "(case persistBlock bad_data None demo_block 0 None (demo_crawler\<lparr>cr_poison := Some (''b1'', 4)\<rparr>) demo_crawl_db of
      None \<Rightarrow> False | Some (ok, cr', db') \<Rightarrow> \<not> ok \<and> cr_latchOnHalt cr' \<and> map_option y_desiredRunning (q_cursor db') = Some False)"
proof -
  let ?cr = "demo_crawler\<lparr>cr_poison := Some (''b1'', 4)\<rparr>"
  obtain ok cr' db' where e: "persistBlock bad_data None demo_block 0 None ?cr demo_crawl_db = Some (ok, cr', db')"
    by (metis prod_cases3 persistBlock_def demo_block_def CrawlBlock.select_convs(4))
  have cr: "cr_running ?cr" "\<not> cr_latchOnHalt ?cr" "cr_poison ?cr = Some (cb_hash demo_block, 4)"
    by (simp_all add: demo_crawler_def demo_block_def)
  have "isDataRejection \<lparr>th_class = OtherErr, th_message = ''ERROR: Invalid byte sequence for encoding UTF8''\<rparr>" by code_simp
  then have "rejected_always bad_data" by (simp add: rejected_always_def bad_data_def calm_def)
  moreover obtain c where "q_cursor demo_crawl_db = Some c" "0 \<le> y_consecutiveErrors c"
    by (simp add: demo_crawl_db_def ensureSyncStateSingleton_def Let_def)
  ultimately have "\<not> ok \<and> cr_latchOnHalt cr' \<and> (\<exists>c'. q_cursor db' = Some c' \<and> \<not> y_desiredRunning c')"
    using poison_latch_exact [OF e cr(1,2)] cr(3) by blast
  then show ?thesis by (auto simp: e)
qed

end
