(* ===== verification/CrawlerLoop.thy ===== *)
theory CrawlerLoop imports CrawlerReorg CrawlerPersist begin

text \<open>
  The control of the crawler, \<open>srv/blockchain/crawler/crawler.ts\<close>: starting and halting, the points
  a stream is opened at, what a stream error leads to, which source is read next, one round of
  pagination and when an epoch is snapshotted.
\<close>

section \<open>Starting\<close>

datatype crawl_source = OgmiosOnly | PaginationOnly | Auto

record CrawlerConfig =
  cc_startSlot :: "int option"
  cc_startBlockHash :: "string option"
  cc_startHeight :: "int option"
  cc_source :: crawl_source
  cc_batchSize :: nat
  cc_confirmationDepth :: int
  cc_utxoSet :: bool
  cc_epochSnapshots :: bool

definition startPoint :: "CrawlerConfig \<Rightarrow> CrawlPoint option" where
  "startPoint cfg =
     (case cc_startSlot cfg of
        Some slot \<Rightarrow> if truthy (cc_startBlockHash cfg)
          then Some \<lparr>cp_slot = slot, cp_hash = the (cc_startBlockHash cfg), cp_height = cc_startHeight cfg\<rparr> else None
      | None \<Rightarrow> None)"

datatype start_result = AlreadyRunning | StartFailed config_error | Refused | LeaseElsewhere | Started

definition stale_message :: "int \<Rightarrow> int \<Rightarrow> string" where
  "stale_message lastSlot lastApplied =
     ''cursor at slot '' @ dec (nat lastSlot) @ '' is past the last ledger-applied slot '' @ dec (nat lastApplied)
     @ '': blocks were crawled without the set; re-import''"

text \<open>The set as a starting crawler finds it: stale when blocks were crawled without it.\<close>

definition checkUtxoSet :: "SyncCursor \<Rightarrow> sdb \<Rightarrow> UtxoSetState \<times> sdb" where
  "checkUtxoSet cursor db =
     (let u = y_utxoSet cursor
      in case orElse (us_appliedSlot u) (us_anchorSlot u) of
           None \<Rightarrow> (u, db)
         | Some lastApplied \<Rightarrow>
             if us_status u = UtxoActive \<and> y_lastSlot cursor > lastApplied
             then (let msg = stale_message (y_lastSlot cursor) lastApplied
                   in (u\<lparr>us_status := UtxoInvalid, us_error := Some msg\<rparr>,
                       setUtxoSetState db (no_patch\<lparr>up_status := Some UtxoInvalid, up_error := Some (Some msg)\<rparr>)))
             else (u, db))"

definition anchorOf :: "UtxoSetState \<Rightarrow> LedgerAnchor option" where
  "anchorOf u =
     (case (us_anchorSlot u, us_anchorHash u) of
        (Some slot, Some hash) \<Rightarrow> if us_status u = UtxoActive \<and> hash \<noteq> [] then Some \<lparr>an_slot = slot, an_hash = hash\<rparr> else None
      | _ \<Rightarrow> None)"

text \<open>\<open>start\<close>; \<open>others\<close> is what other instances write between the two transactions.\<close>

definition startCrawler ::
  "CrawlerConfig \<Rightarrow> string \<Rightarrow> string option \<Rightarrow> (sdb \<Rightarrow> sdb) \<Rightarrow> time \<Rightarrow> crawler \<times> sdb \<Rightarrow> start_result \<times> crawler \<times> sdb" where
  "startCrawler cfg network leaseOwner others now st =
     (case st of (cr, db) \<Rightarrow>
        if cr_running cr then (AlreadyRunning, cr, db)
        else (case ensureSyncStateSingleton db network (startPoint cfg) of
           (Inl e, db1) \<Rightarrow> (StartFailed e, cr, db1)
         | (Inr cursor, db1) \<Rightarrow>
             if \<not> truthy (y_lastBlockHash cursor) \<and> startPoint cfg = None then (Refused, cr, db1)
             else
               (let db2 = others db1;
                    (held, db3) = (if truthy leaseOwner
                                   then tryAcquireCrawlerLease db2 db2 (the leaseOwner) now CRAWLER_LEASE_TTL_MS else (True, db2))
                in if \<not> held then (LeaseElsewhere, cr, db3)
                   else (let ix0 = (cr_anchor cr)\<lparr>ix_crawlUtxoSet := cc_utxoSet cfg\<rparr>;
                             (anchor, db4) = (if cc_utxoSet cfg
                                              then (let (u, db4) = checkUtxoSet cursor db3 in (anchorOf u, db4)) else (None, db3))
                         in (Started, cr\<lparr>cr_running := True, cr_anchor := setUtxoAnchor anchor ix0\<rparr>, db4)))))"

text \<open>The database part of a halt, after the pipeline has drained; failures are ignored (\<open>ok\<close>).\<close>

definition teardown :: "string option \<Rightarrow> bool \<Rightarrow> bool \<Rightarrow> crawler \<Rightarrow> sdb \<Rightarrow> sdb" where
  "teardown leaseOwner leaseHeld ok cr db =
     (if \<not> ok then db
      else if truthy leaseOwner \<and> leaseHeld then releaseCrawlerLease db (the leaseOwner) (cr_finalStatus cr) (cr_latchOnHalt cr)
      else if \<not> truthy leaseOwner then setSyncStatus db (cr_finalStatus cr) (cr_latchOnHalt cr)
      else db)"

definition haltedWithError :: "crawler \<Rightarrow> bool" where
  "haltedWithError cr = (\<not> cr_running cr \<and> cr_finalStatus cr = SyncError)"

section \<open>Intersection points\<close>

definition addPoint :: "ChainPoint list \<Rightarrow> ChainPoint \<Rightarrow> ChainPoint list" where
  "addPoint points p = (if pt_hash p = [] \<or> pt_hash p \<in> pt_hash ` set points then points else points @ [p])"

definition pushHeight :: "int \<Rightarrow> int list \<Rightarrow> int list" where
  "pushHeight h heights = (if h > 0 \<and> h \<notin> set heights then heights @ [h] else heights)"

definition DENSE_DEPTH :: nat where
  "DENSE_DEPTH = 10"

text \<open>One to ten blocks back, then 16 and doubling up to 16384.\<close>

definition back_steps :: "int list" where
  "back_steps = map int [1..<DENSE_DEPTH + 1] @ map (\<lambda>k. 2 ^ k) [4..<15]"

definition ancestorHeights :: "int \<Rightarrow> int list" where
  "ancestorHeights lastHeight = fold (\<lambda>s. pushHeight (lastHeight - s)) back_steps []"

definition ancestorPoint :: "BlockRow \<Rightarrow> ChainPoint option" where
  "ancestorPoint row =
     (case b_slot row of
        Some slot \<Rightarrow> if b_hash row \<noteq> [] then Some \<lparr>pt_slot = slot, pt_hash = b_hash row, pt_height = Some (nullish (b_height row) 0)\<rparr> else None
      | None \<Rightarrow> None)"

definition buildIntersectionPoints :: "CrawlerConfig \<Rightarrow> BlockRow list \<Rightarrow> SyncCursor option \<Rightarrow> ChainPoint list" where
  "buildIntersectionPoints cfg blocks cursor =
     (let points1 = (case cursor of
          None \<Rightarrow> []
        | Some c \<Rightarrow>
            if \<not> truthy (y_lastBlockHash c) then []
            else (let heights = ancestorHeights (y_lastHeight c);
                      rows = filter (\<lambda>b. case b_height b of None \<Rightarrow> False | Some h \<Rightarrow> h \<in> set heights) blocks;
                      newest = sort_key (\<lambda>b. - nullish (b_height b) 0) rows
                  in fold (\<lambda>p points. addPoint points p) (List.map_filter ancestorPoint newest)
                       (addPoint [] \<lparr>pt_slot = y_lastSlot c, pt_hash = the (y_lastBlockHash c), pt_height = Some (y_lastHeight c)\<rparr>)))
      in case startPoint cfg of
           None \<Rightarrow> points1
         | Some s \<Rightarrow> addPoint points1 \<lparr>pt_slot = cp_slot s, pt_hash = cp_hash s, pt_height = cp_height s\<rparr>)"

section \<open>Events of a stream\<close>

text \<open>The rollback a stream opens with is the handshake, not a reorganisation.\<close>

definition rollBackward ::
  "decoder \<Rightarrow> crawl_origin \<Rightarrow> string option \<Rightarrow> time \<Rightarrow> bool \<Rightarrow> rollback_point \<Rightarrow> chain_db \<Rightarrow> reorg_outcome option \<times> chain_db" where
  "rollBackward decode cfg leaseOwner now running point db =
     (let acknowledged = (case point of
            Origin \<Rightarrow> False
          | Point p \<Rightarrow> (case readCursor (cd_cursor db) of None \<Rightarrow> False | Some c \<Rightarrow> y_lastBlockHash c = Some (pt_hash p)))
      in if \<not> running \<or> acknowledged then (None, db) else handleReorg decode cfg leaseOwner now point db)"

datatype stream_error = HaltSignal | FrameError "int option" | StreamClosed | OtherError

datatype stream_reaction = Ignore | DegradeAt int | Reopen | HaltRecorded

definition canDegradeToPagination :: "CrawlerConfig \<Rightarrow> bool \<Rightarrow> int option \<Rightarrow> bool" where
  "canDegradeToPagination cfg paginating height \<longleftrightarrow> height \<noteq> None \<and> cc_source cfg \<noteq> OgmiosOnly \<and> paginating"

definition onStreamError :: "CrawlerConfig \<Rightarrow> bool \<Rightarrow> nat \<Rightarrow> SyncCursor option \<Rightarrow> stream_error \<Rightarrow> stream_reaction" where
  "onStreamError cfg paginating blocksThisStream cursor err =
     (case err of
        HaltSignal \<Rightarrow> Ignore
      | FrameError height \<Rightarrow> if canDegradeToPagination cfg paginating height then DegradeAt (the height) else HaltRecorded
      | StreamClosed \<Rightarrow>
          if blocksThisStream > 0 then Reopen
          else (case cursor of
                  Some c \<Rightarrow> if cc_source cfg \<noteq> OgmiosOnly \<and> paginating then DegradeAt (y_lastHeight c + 1) else HaltRecorded
                | None \<Rightarrow> HaltRecorded)
      | OtherError \<Rightarrow> HaltRecorded)"

text \<open>\<open>degradeToPagination\<close>: the error is recorded first; without the lease the crawler halts instead.\<close>

definition degradeToPagination :: "string option \<Rightarrow> attempt_env \<Rightarrow> thrown \<Rightarrow> crawler \<times> sdb \<Rightarrow> bool \<times> crawler \<times> sdb" where
  "degradeToPagination leaseOwner env err st =
     (case st of (cr, db) \<Rightarrow>
        (let (streak, db1) = recordCrawlerError env leaseOwner err db
         in if streak < 0 then (False, beginHalt Stopped False cr, db1) else (True, cr, db1)))"

section \<open>Which source is read\<close>

datatype ingest_step = StreamChain | PaginateAll | PaginateUntilChainSync | HaltMisconfigured

definition nextSource :: "CrawlerConfig \<Rightarrow> bool \<Rightarrow> ingest_step" where
  "nextSource cfg chainSyncUsable =
     (if cc_source cfg \<noteq> PaginationOnly \<and> chainSyncUsable then StreamChain
      else if cc_source cfg = OgmiosOnly then HaltMisconfigured
      else if cc_source cfg = PaginationOnly then PaginateAll
      else PaginateUntilChainSync)"

datatype stream_end = Leave | ReopenStream | PaginateUntil int

definition afterStream :: "bool \<Rightarrow> bool \<Rightarrow> int option \<Rightarrow> stream_end" where
  "afterStream running reopenDue failureHeight =
     (if \<not> running then Leave else if reopenDue then ReopenStream
      else case failureHeight of None \<Rightarrow> Leave | Some h \<Rightarrow> PaginateUntil (h + 1))"

section \<open>A round of pagination\<close>

record page_state =
  ps_tip :: BlockData
  ps_target :: int

datatype page_step = ToChainSync | NoResumePoint | Reached | CaughtUp | FetchFrom string nat "int option"

text \<open>\<open>latest\<close> is the tip the provider reports when it is asked; without a cache it is always asked.\<close>

definition refreshTip :: "CrawlerConfig \<Rightarrow> BlockData \<Rightarrow> SyncCursor \<Rightarrow> page_state option \<Rightarrow> page_state" where
  "refreshTip cfg latest cursor cache =
     (case cache of
        Some c \<Rightarrow> if y_lastHeight cursor \<ge> ps_target c
          then \<lparr>ps_tip = latest, ps_target = nullish (bd_height latest) 0 - cc_confirmationDepth cfg\<rparr> else c
      | None \<Rightarrow> \<lparr>ps_tip = latest, ps_target = nullish (bd_height latest) 0 - cc_confirmationDepth cfg\<rparr>)"

definition paginateRound ::
  "CrawlerConfig \<Rightarrow> int option \<Rightarrow> bool \<Rightarrow> BlockData \<Rightarrow> SyncCursor option \<Rightarrow> page_state option \<Rightarrow> page_step \<times> page_state option" where
  "paginateRound cfg untilHeight chainSyncDue latest cursor cache =
     (if chainSyncDue then (ToChainSync, cache)
      else (case cursor of
        None \<Rightarrow> (NoResumePoint, cache)
      | Some c \<Rightarrow>
          if \<not> truthy (y_lastBlockHash c) then (NoResumePoint, cache)
          else if (case untilHeight of None \<Rightarrow> False | Some u \<Rightarrow> y_lastHeight c \<ge> u) then (Reached, cache)
          else (let ps = refreshTip cfg latest c cache
                in if y_lastHeight c \<ge> ps_target ps then (CaughtUp, Some ps)
                   else (FetchFrom (the (y_lastBlockHash c)) (cc_batchSize cfg)
                           (if y_lastHeight c > 0 then Some (y_lastHeight c) else None), Some ps))))"

text \<open>The blocks of a batch that are stored: those up to the confirmation window.\<close>

definition blocksToStore :: "int \<Rightarrow> BlockData list \<Rightarrow> BlockData list" where
  "blocksToStore target blocks = takeWhile (\<lambda>b. nullish (bd_height b) 0 \<le> target) blocks"

section \<open>Epoch snapshots\<close>

definition SNAPSHOT_RETRY_BASE_MS :: int where
  "SNAPSHOT_RETRY_BASE_MS = 30000"

definition SNAPSHOT_RETRY_MAX_MS :: int where
  "SNAPSHOT_RETRY_MAX_MS = 10 * 60000"

definition SNAPSHOT_WINDOW_MARGIN :: int where
  "SNAPSHOT_WINDOW_MARGIN = 10"

record snapshot_memo =
  sm_settled :: "int option"
  sm_inFlight :: bool
  sm_failures :: nat
  sm_retryAfter :: time

definition snapshotDue ::
  "CrawlerConfig \<Rightarrow> Network \<Rightarrow> int \<Rightarrow> bool \<Rightarrow> time \<Rightarrow> snapshot_memo \<Rightarrow> int option \<Rightarrow> BlockData \<Rightarrow> (int \<times> int option) option \<Rightarrow> bool" where
  "snapshotDue cfg network k ledgerSource now memo blockEpoch block tip =
     (case blockEpoch of
        None \<Rightarrow> False
      | Some epoch \<Rightarrow>
          cc_epochSnapshots cfg \<and> sm_settled memo \<noteq> Some epoch \<and> \<not> sm_inFlight memo
          \<and> (case tip of
               None \<Rightarrow> False
             | Some (tipSlot, tipHeight) \<Rightarrow>
                 (if ledgerSource \<and> bd_hash block \<noteq> []
                  then (case (tipHeight, bd_height block) of
                          (Some th, Some bh) \<Rightarrow> th - bh < k - SNAPSHOT_WINDOW_MARGIN
                        | _ \<Rightarrow> False)
                  else epoch = epochOfSlot network tipSlot)
                 \<and> \<not> now < sm_retryAfter memo))"

definition snapshotFailed :: "time \<Rightarrow> snapshot_memo \<Rightarrow> snapshot_memo" where
  "snapshotFailed now memo =
     (let failures = sm_failures memo + 1;
          backoff = min (SNAPSHOT_RETRY_BASE_MS * 2 ^ (failures - 1)) SNAPSHOT_RETRY_MAX_MS
      in memo\<lparr>sm_failures := failures, sm_retryAfter := now + backoff, sm_inFlight := False\<rparr>)"

definition snapshotSettled :: "int \<Rightarrow> snapshot_memo \<Rightarrow> snapshot_memo" where
  "snapshotSettled epoch memo = memo\<lparr>sm_settled := Some epoch, sm_failures := 0, sm_retryAfter := 0, sm_inFlight := False\<rparr>"

section \<open>What the points offer\<close>

lemma addPoint_hashes: "pt_hash ` set (addPoint ps p) = pt_hash ` set ps \<union> (if pt_hash p = [] then {} else {pt_hash p})"
  by (auto simp: addPoint_def)

lemma addPoint_distinct: "distinct (map pt_hash ps) \<Longrightarrow> distinct (map pt_hash (addPoint ps p))"
  by (auto simp: addPoint_def)

lemma addPoint_set: "set (addPoint ps p) \<subseteq> insert p (set ps)" "set ps \<subseteq> set (addPoint ps p)"
  by (auto simp: addPoint_def)

lemma addPoint_hd: "ps \<noteq> [] \<Longrightarrow> addPoint ps p \<noteq> [] \<and> hd (addPoint ps p) = hd ps"
  by (simp add: addPoint_def)

lemma fold_addPoint:
  "distinct (map pt_hash ps) \<Longrightarrow> distinct (map pt_hash (fold (\<lambda>p ps. addPoint ps p) qs ps))
   \<and> pt_hash ` set (fold (\<lambda>p ps. addPoint ps p) qs ps) = pt_hash ` set ps \<union> {h \<in> pt_hash ` set qs. h \<noteq> []}
   \<and> set (fold (\<lambda>p ps. addPoint ps p) qs ps) \<subseteq> set ps \<union> set qs
   \<and> (ps \<noteq> [] \<longrightarrow> fold (\<lambda>p ps. addPoint ps p) qs ps \<noteq> [] \<and> hd (fold (\<lambda>p ps. addPoint ps p) qs ps) = hd ps)"
proof (induction qs arbitrary: ps)
  case (Cons q qs)
  from Cons.IH [OF addPoint_distinct [OF Cons.prems], of q] show ?case
    using addPoint_hashes [of ps q] addPoint_set [of ps q] addPoint_hd [of ps q] by auto
qed simp

lemma set_pushHeights: "set (fold (\<lambda>s. pushHeight (n - s)) ss hs) = set hs \<union> {n - s |s. s \<in> set ss \<and> 0 < n - s}"
  by (induction ss arbitrary: hs) (auto simp: pushHeight_def)

lemma ancestorHeights_set: "set (ancestorHeights n) = {n - s |s. s \<in> set back_steps \<and> 0 < n - s}"
  using set_pushHeights [of n back_steps "[]"] by (simp add: ancestorHeights_def)

lemma back_steps_facts: "\<forall>s \<in> set back_steps. 0 < s \<and> s \<le> 16384" "{1..10} \<subseteq> set back_steps"
proof -
  show "\<forall>s \<in> set back_steps. 0 < s \<and> s \<le> 16384" by code_simp
  have "{1..10::int} = set [1, 2, 3, 4, 5, 6, 7, 8, 9, 10]" by (auto, presburger)
  moreover have "set [1, 2, 3, 4, 5, 6, 7, 8, 9, 10] \<subseteq> set back_steps" by code_simp
  ultimately show "{1..10} \<subseteq> set back_steps" by simp
qed

text \<open>
  The points a stream is opened at let the node find the common block: no hash is offered twice
  and the cursor comes first; every other point is a stored block strictly below the cursor, at
  most 16384 back, or the configured start; every stored block of the ten heights below the cursor
  is among them; and the list is empty only without a cursor hash and without a configured start.
\<close>

theorem intersection_points:
  assumes "cursor = Some c" "truthy (y_lastBlockHash c)"
  shows "distinct (map pt_hash (buildIntersectionPoints cfg blocks cursor))
    \<and> buildIntersectionPoints cfg blocks cursor \<noteq> []
    \<and> pt_hash (hd (buildIntersectionPoints cfg blocks cursor)) = the (y_lastBlockHash c)
    \<and> pt_slot (hd (buildIntersectionPoints cfg blocks cursor)) = y_lastSlot c
    \<and> (\<forall>p \<in> set (tl (buildIntersectionPoints cfg blocks cursor)).
          (\<exists>b h. b \<in> set blocks \<and> b_hash b = pt_hash p \<and> b_slot b = Some (pt_slot p) \<and> b_height b = Some h
             \<and> 0 < h \<and> h < y_lastHeight c \<and> y_lastHeight c - h \<le> 16384)
          \<or> (\<exists>s. startPoint cfg = Some s \<and> pt_hash p = cp_hash s \<and> pt_slot p = cp_slot s))
    \<and> (\<forall>b h slot. b \<in> set blocks \<and> b_height b = Some h \<and> b_slot b = Some slot \<and> b_hash b \<noteq> [] \<and> 0 < h
          \<and> y_lastHeight c - 10 \<le> h \<and> h < y_lastHeight c
          \<longrightarrow> b_hash b \<in> pt_hash ` set (buildIntersectionPoints cfg blocks cursor))"
proof -
  define p0 where "p0 = \<lparr>pt_slot = y_lastSlot c, pt_hash = the (y_lastBlockHash c), pt_height = Some (y_lastHeight c)\<rparr>"
  define rows where "rows = filter (\<lambda>b. case b_height b of None \<Rightarrow> False | Some h \<Rightarrow> h \<in> set (ancestorHeights (y_lastHeight c))) blocks"
  define qs where "qs = List.map_filter ancestorPoint (sort_key (\<lambda>b. - nullish (b_height b) 0) rows)"
  define ps where "ps = fold (\<lambda>p ps. addPoint ps p) qs [p0]"
  have h0: "pt_hash p0 \<noteq> []" using assms(2) by (auto simp: p0_def truthy_def split: option.splits)
  then have start: "addPoint [] p0 = [p0]" by (simp add: addPoint_def)
  have eq: "buildIntersectionPoints cfg blocks cursor = (case startPoint cfg of None \<Rightarrow> ps
      | Some s \<Rightarrow> addPoint ps \<lparr>pt_slot = cp_slot s, pt_hash = cp_hash s, pt_height = cp_height s\<rparr>)"
    unfolding buildIntersectionPoints_def Let_def ps_def qs_def rows_def assms(1) option.case
      eqTrueI [OF assms(2)] simp_thms if_False p0_def [symmetric] start ..
  have f: "distinct (map pt_hash ps)" "pt_hash ` set ps = {pt_hash p0} \<union> {h \<in> pt_hash ` set qs. h \<noteq> []}"
      "set ps \<subseteq> {p0} \<union> set qs" "ps \<noteq> []" "hd ps = p0"
    using fold_addPoint [of "[p0]" qs] by (simp_all add: ps_def)
  have q: "\<exists>b h. b \<in> set blocks \<and> b_hash b = pt_hash p \<and> b_slot b = Some (pt_slot p) \<and> b_height b = Some h
      \<and> 0 < h \<and> h < y_lastHeight c \<and> y_lastHeight c - h \<le> 16384" if pq: "p \<in> set qs" for p
  proof -
    obtain b where b: "b \<in> set rows" "ancestorPoint b = Some p" using pq by (auto simp: qs_def List.map_filter_def)
    then obtain h where h: "b_height b = Some h" "h \<in> set (ancestorHeights (y_lastHeight c))" "b \<in> set blocks"
      by (auto simp: rows_def split: option.splits)
    then show ?thesis using b(2) back_steps_facts(1) by (fastforce simp: ancestorPoint_def ancestorHeights_set split: option.splits if_splits)
  qed
  have near: "b_hash b \<in> pt_hash ` set ps"
    if "b \<in> set blocks" "b_height b = Some h" "b_slot b = Some slot" "b_hash b \<noteq> []" "0 < h" "y_lastHeight c - 10 \<le> h" "h < y_lastHeight c" for b h slot
  proof -
    have "y_lastHeight c - h \<in> set back_steps" using that(6,7) back_steps_facts(2) by auto
    then have "h \<in> set (ancestorHeights (y_lastHeight c))" using that(5) by (force simp: ancestorHeights_set)
    then have "b \<in> set rows" using that by (simp add: rows_def)
    then have "\<lparr>pt_slot = slot, pt_hash = b_hash b, pt_height = Some h\<rparr> \<in> set qs"
      using that by (force simp: qs_def List.map_filter_def ancestorPoint_def)
    then show ?thesis using that(4) by (force simp: f(2))
  qed
  have tl: "set (tl ps) \<subseteq> set qs"
  proof
    fix p assume p: "p \<in> set (tl ps)"
    have "ps = p0 # tl ps" using f(4,5) by (metis list.collapse)
    then have "p \<noteq> p0" using f(1) p by (metis distinct.simps(2) image_eqI list.simps(9) list.set_map)
    then show "p \<in> set qs" using f(3,4) p by (metis Un_iff empty_iff insert_iff list.set_sel(2) subsetD)
  qed
  show ?thesis
  proof (cases "startPoint cfg")
    case None
    then show ?thesis using f q tl near by (auto simp: eq p0_def)
  next
    case (Some s)
    let ?s = "\<lparr>pt_slot = cp_slot s, pt_hash = cp_hash s, pt_height = cp_height s\<rparr>"
    have e: "buildIntersectionPoints cfg blocks cursor = addPoint ps ?s" by (simp add: eq Some)
    have sub: "set (tl (addPoint ps ?s)) \<subseteq> set (tl ps) \<union> {?s}" using f(4) by (auto simp: addPoint_def)
    have "\<forall>p \<in> set (tl (addPoint ps ?s)).
        (\<exists>b h. b \<in> set blocks \<and> b_hash b = pt_hash p \<and> b_slot b = Some (pt_slot p) \<and> b_height b = Some h
           \<and> 0 < h \<and> h < y_lastHeight c \<and> y_lastHeight c - h \<le> 16384)
        \<or> (\<exists>s. startPoint cfg = Some s \<and> pt_hash p = cp_hash s \<and> pt_slot p = cp_slot s)"
    proof
      fix p assume "p \<in> set (tl (addPoint ps ?s))"
      with sub tl have "p \<in> set qs \<or> p = ?s" by auto
      then show "(\<exists>b h. b \<in> set blocks \<and> b_hash b = pt_hash p \<and> b_slot b = Some (pt_slot p) \<and> b_height b = Some h
           \<and> 0 < h \<and> h < y_lastHeight c \<and> y_lastHeight c - h \<le> 16384)
        \<or> (\<exists>s. startPoint cfg = Some s \<and> pt_hash p = cp_hash s \<and> pt_slot p = cp_slot s)"
        using q [of p] Some by (elim disjE) simp_all
    qed
    moreover have "pt_hash ` set ps \<subseteq> pt_hash ` set (addPoint ps ?s)" by (auto simp: addPoint_hashes)
    then have "\<forall>b h slot. b \<in> set blocks \<and> b_height b = Some h \<and> b_slot b = Some slot \<and> b_hash b \<noteq> [] \<and> 0 < h
        \<and> y_lastHeight c - 10 \<le> h \<and> h < y_lastHeight c \<longrightarrow> b_hash b \<in> pt_hash ` set (addPoint ps ?s)"
      using near by blast
    moreover have "pt_hash (hd (addPoint ps ?s)) = the (y_lastBlockHash c)" "pt_slot (hd (addPoint ps ?s)) = y_lastSlot c" "addPoint ps ?s \<noteq> []"
      using addPoint_hd [OF f(4), of ?s] f(5) by (simp_all add: p0_def)
    ultimately show ?thesis unfolding e using addPoint_distinct [OF f(1), of ?s] by blast
  qed
qed

definition demo_config :: CrawlerConfig where
  "demo_config = \<lparr>cc_startSlot = Some 1, cc_startBlockHash = Some ''b0'', cc_startHeight = Some 1, cc_source = Auto,
     cc_batchSize = 20, cc_confirmationDepth = 3, cc_utxoSet = True, cc_epochSnapshots = False\<rparr>"

definition demo_row :: SyncCursor where
  "demo_row = (the demo_cursor)\<lparr>y_lastSlot := 5, y_lastHeight := 2, y_lastBlockHash := Some ''b1''\<rparr>"

theorem intersection_points_witness:
  "''b0'' \<in> pt_hash ` set (buildIntersectionPoints demo_config (cd_blocks demo_chain) (Some demo_row))
   \<and> pt_hash (hd (buildIntersectionPoints demo_config (cd_blocks demo_chain) (Some demo_row))) = ''b1''"
proof -
  have r: "truthy (y_lastBlockHash demo_row)" "y_lastHeight demo_row = 2" "the (y_lastBlockHash demo_row) = ''b1''"
    by (simp_all add: demo_row_def truthy_def)
  have b: "\<lparr>b_hash = ''b0'', b_slot = Some 1, b_height = Some 1\<rparr> \<in> set (cd_blocks demo_chain)" by (simp add: demo_chain_def)
  note all = intersection_points [OF refl r(1), of demo_config "cd_blocks demo_chain"]
  then have "''b0'' \<in> pt_hash ` set (buildIntersectionPoints demo_config (cd_blocks demo_chain) (Some demo_row))"
    using b r(2) by fastforce
  with all r(3) show ?thesis by simp
qed

section \<open>Starting safely\<close>

lemma acquire_same:
  assumes "tryAcquireCrawlerLease db db ow now CRAWLER_LEASE_TTL_MS = (True, db')"
  shows "\<exists>c c'. db = Some c \<and> y_desiredRunning c \<and> \<not> foreign_lease c ow now \<and> db' = Some c' \<and> y_leaseOwner c' = Some ow
    \<and> y_utxoSet c' = y_utxoSet c \<and> y_lastSlot c' = y_lastSlot c"
  using assms by (cases db) (auto simp: acquire_absent acquire_crawler_row take_lease_def split: if_splits)

text \<open>
  A crawler starts only from a known point, only on the network of its cursor and, with a lease
  owner, only holding the lease of a cluster that is meant to run and that nobody else held. The
  UTxO set is maintained only when the cursor row called it active and no block was crawled past
  the last applied one; a set that fell behind is marked invalid in the database.
\<close>

theorem start_is_safe:
  assumes "startCrawler cfg network (Some ow) others now (cr, db) = (Started, cr', db')" "truthy (Some ow)"
  shows "cr_running cr' \<and> (\<exists>cursor db1. ensureSyncStateSingleton db network (startPoint cfg) = (Inr cursor, db1)
    \<and> (truthy (y_lastBlockHash cursor) \<or> startPoint cfg \<noteq> None) \<and> y_network cursor = Some network
    \<and> (\<exists>c0 c'. others db1 = Some c0 \<and> y_desiredRunning c0 \<and> \<not> foreign_lease c0 ow now
         \<and> db' = Some c' \<and> y_leaseOwner c' = Some ow
         \<and> (\<forall>a. getUtxoAnchor (cr_anchor cr') = Some a \<longrightarrow> cc_utxoSet cfg \<and> us_status (y_utxoSet cursor) = UtxoActive
              \<and> us_anchorSlot (y_utxoSet cursor) = Some (an_slot a)
              \<and> (\<forall>s. orElse (us_appliedSlot (y_utxoSet cursor)) (us_anchorSlot (y_utxoSet cursor)) = Some s \<longrightarrow> y_lastSlot cursor \<le> s))
         \<and> (cc_utxoSet cfg \<and> us_status (y_utxoSet cursor) = UtxoActive
              \<and> (\<exists>s. orElse (us_appliedSlot (y_utxoSet cursor)) (us_anchorSlot (y_utxoSet cursor)) = Some s \<and> s < y_lastSlot cursor)
             \<longrightarrow> us_status (y_utxoSet c') = UtxoInvalid)))"
proof -
  obtain cursor db1 where en: "ensureSyncStateSingleton db network (startPoint cfg) = (Inr cursor, db1)"
      and res: "truthy (y_lastBlockHash cursor) \<or> startPoint cfg \<noteq> None"
    using assms(1) by (auto simp: startCrawler_def split: prod.splits sum.splits if_splits)
  have net: "y_network cursor = Some network"
    using en by (auto simp: ensureSyncStateSingleton_def Let_def split: option.splits if_splits)
  obtain held db3 where acq: "tryAcquireCrawlerLease (others db1) (others db1) ow now CRAWLER_LEASE_TTL_MS = (held, db3)" by fastforce
  obtain anchor db4 where a: "(if cc_utxoSet cfg then (let (u, db4) = checkUtxoSet cursor db3 in (anchorOf u, db4)) else (None, db3)) = (anchor, db4)"
    by fastforce
  have out: "held" "cr' = cr\<lparr>cr_running := True, cr_anchor := setUtxoAnchor anchor ((cr_anchor cr)\<lparr>ix_crawlUtxoSet := cc_utxoSet cfg\<rparr>)\<rparr>" "db' = db4"
    using assms(1,2) res en acq a by (auto simp: startCrawler_def Let_def split: if_splits)
  from acquire_same [OF acq [unfolded out(1) [THEN eqTrueI]]] obtain c0 c3 where c: "others db1 = Some c0" "y_desiredRunning c0"
      "\<not> foreign_lease c0 ow now" "db3 = Some c3" "y_leaseOwner c3 = Some ow" by blast
  let ?last = "orElse (us_appliedSlot (y_utxoSet cursor)) (us_anchorSlot (y_utxoSet cursor))"
  have got: "getUtxoAnchor (cr_anchor cr') = (if cc_utxoSet cfg then anchor else None)"
    by (simp add: out(2) getUtxoAnchor_def setUtxoAnchor_def)
  have anc: "us_status (y_utxoSet cursor) = UtxoActive \<and> us_anchorSlot (y_utxoSet cursor) = Some (an_slot x)
      \<and> (\<forall>s. ?last = Some s \<longrightarrow> y_lastSlot cursor \<le> s)" if "cc_utxoSet cfg" "anchor = Some x" for x
    using a that by (auto simp: checkUtxoSet_def anchorOf_def Let_def split: option.splits if_splits)
  have inval: "\<exists>c'. db4 = Some c' \<and> y_leaseOwner c' = Some ow \<and> (cc_utxoSet cfg \<and> us_status (y_utxoSet cursor) = UtxoActive
      \<and> (\<exists>s. ?last = Some s \<and> s < y_lastSlot cursor) \<longrightarrow> us_status (y_utxoSet c') = UtxoInvalid)"
    using a c(4,5) by (auto simp: checkUtxoSet_def setUtxo_row no_patch_def Let_def split: option.splits if_splits)
  show ?thesis
    using res net c inval anc got out en by (auto split: if_splits)
qed

theorem start_is_safe_witness:
  "(case startCrawler demo_config ''preview'' (Some ''i1'') id 7 (demo_crawler\<lparr>cr_running := False\<rparr>, None) of
     (r, cr', db') \<Rightarrow> r = Started \<and> cr_running cr' \<and> map_option y_leaseOwner db' = Some (Some ''i1''))"
proof -
  let ?r = "startCrawler demo_config ''preview'' (Some ''i1'') id 7 (demo_crawler\<lparr>cr_running := False\<rparr>, None)"
  have "fst ?r = Started" by code_simp
  then obtain cr' db' where r: "?r = (Started, cr', db')" by (metis prod.collapse)
  have t: "truthy (Some ''i1'')" by (simp add: truthy_def)
  show ?thesis using start_is_safe [OF r t] r by auto
qed

end
