(* ===== verification/ClientFailover.thy ===== *)
theory ClientFailover imports CircuitBreaker Errors PendingSpends begin

text \<open>
  The multi-backend client (\<open>srv/blockchain/cardano-client.ts\<close>) with the capability guards of
  \<open>backends/cardano-backend.ts\<close>: construction, startup and lazy initialisation, the failover loop
  over live and historical backends with circuit breaker, timeout and error normalisation, the
  choice of a backend by capability, submission, and the cache of protocol parameters.

  A backend is its name (the constructor makes at most one of each), the functions it implements and
  the methods it declares unsupported. What a call does outside the client is a \<open>call_env\<close>: the
  clock readings, the result of a lazy \<open>init\<close>, and when and how the backend's promise settles. The
  circuit breaker and the pending transactions are those of the theories
  \<open>CircuitBreaker\<close> and \<open>PendingSpends\<close>.
\<close>

section \<open>State\<close>

record backend =
  bk_name :: string
  bk_methods :: "string list"
  bk_unsupported :: "string list"

record CardanoClientConfig =
  cc_backends :: "string list"
  cc_primaryTimeoutMs :: time
  cc_fallbackTimeoutMs :: time
  cc_indexTtlMs :: "time option"
  cc_circuitBreaker :: CircuitBreakerConfig

record LedgerProtocolParameters =
  lp_epoch :: int
  lp_values :: string

record client =
  cl_config :: CardanoClientConfig
  cl_live :: "backend option"
  cl_historical :: "backend list"
  cl_initialized :: bool
  cl_uninitialized :: "string list"
  cl_circuits :: circuits
  cl_max_age_ms :: time
  cl_pendingSpends :: pending
  cl_paramsCache :: "(LedgerProtocolParameters \<times> time) option"
  cl_paramsFetching :: bool
  cl_lastLiveParams :: "LedgerProtocolParameters option"

text \<open>\<open>METHOD_ROUTING\<close>: preferLive and finalOnClientError; a method without an entry is historical first.\<close>

definition METHOD_ROUTING :: "(string \<times> bool \<times> bool) list" where
  "METHOD_ROUTING =
     [(''getTransaction'', False, False), (''getAddress'', True, False), (''getAddressUtxos'', True, False),
      (''getAddressTransactions'', False, False), (''getNetworkInformation'', False, False),
      (''getTransactionMetadata'', False, False), (''getBlock'', False, False), (''getEpoch'', False, False),
      (''getLatestEpoch'', True, False), (''getLatestBlock'', True, False), (''getCurrentSlot'', True, False),
      (''isUtxoUnspent'', True, False), (''getPool'', True, False), (''getDrep'', True, False),
      (''getAccount'', True, False), (''getAssetInfo'', False, False), (''getProtocolParameters'', True, False),
      (''submitTransaction'', True, True)]"

definition newClient :: "CardanoClientConfig \<Rightarrow> (string \<Rightarrow> backend) \<Rightarrow> string + client" where
  "newClient cfg mk =
     (let bs = cc_backends cfg;
          live = (if ''ogmios'' \<in> set bs then Some (mk ''ogmios'') else None);
          historical = map mk (filter (\<lambda>n. n \<in> set bs) [''blockfrost'', ''koios'', ''odatano''])
      in if live = None \<and> historical = [] then Inl ''No valid backends configured for CardanoClient''
         else Inr \<lparr>cl_config = cfg, cl_live = live, cl_historical = historical, cl_initialized = False,
                   cl_uninitialized = [], cl_circuits = [],
                   cl_max_age_ms = (case cc_indexTtlMs cfg of Some t \<Rightarrow> if t > 0 then t else 60000 | None \<Rightarrow> 60000),
                   cl_pendingSpends = [], cl_paramsCache = None, cl_paramsFetching = False,
                   cl_lastLiveParams = None\<rparr>)"

definition liveFirst :: "client \<Rightarrow> backend list" where
  "liveFirst st = (case cl_live st of None \<Rightarrow> [] | Some b \<Rightarrow> [b]) @ cl_historical st"

definition getOrderedBackends :: "client \<Rightarrow> backend list" where
  "getOrderedBackends st = cl_historical st @ (case cl_live st of None \<Rightarrow> [] | Some b \<Rightarrow> [b])"

definition listBackends :: "client \<Rightarrow> string list" where
  "listBackends st = map bk_name (liveFirst st)"

section \<open>Initialisation\<close>

record init_failure =
  if_code :: "string option"
  if_message :: "string option"
  if_cause_code :: "string option"
  if_cause_message :: "string option"

definition TRANSIENT_CODES :: "string list" where
  "TRANSIENT_CODES = [''ECONNRESET'', ''ECONNREFUSED'', ''ETIMEDOUT'', ''EPIPE'', ''EAI_AGAIN'', ''ENOTFOUND'', ''UND_ERR_SOCKET'']"

definition TRANSIENT_HINTS :: "string list" where
  "TRANSIENT_HINTS = [''premature close'', ''socket hang up'', ''econnreset'', ''econnrefused'', ''etimedout'',
     ''timeout'', ''fetch failed'', ''terminated'', ''other side closed'']"

definition isTransientInitError :: "init_failure \<Rightarrow> bool" where
  "isTransientInitError e =
     (let c = nullish (orElse (if_code e) (if_cause_code e)) [];
          msg = toLowerCase (nullish (if_message e) [] @ '' '' @ nullish (if_cause_message e) [])
      in c \<in> set TRANSIENT_CODES \<or> anyHint TRANSIENT_HINTS msg)"

definition maxAttempts :: nat where "maxAttempts = 3"

text \<open>
  \<open>attempts k\<close> is what \<open>backend.init()\<close> does when it is called for the \<open>k\<close>-th time; the result is
  the last error, or \<open>None\<close> after a success.
\<close>

fun initAttempts :: "nat \<Rightarrow> nat \<Rightarrow> (nat \<Rightarrow> init_failure option) \<Rightarrow> init_failure option" where
  "initAttempts 0 attempt attempts = None"
| "initAttempts (Suc left) attempt attempts =
     (case attempts attempt of
        None \<Rightarrow> None
      | Some err \<Rightarrow>
          if attempt \<ge> maxAttempts \<or> \<not> isTransientInitError err then Some err
          else initAttempts left (attempt + 1) attempts)"

definition initBackendWithRetry :: "(nat \<Rightarrow> init_failure option) \<Rightarrow> init_failure option" where
  "initBackendWithRetry attempts = initAttempts maxAttempts 1 attempts"

definition initOne :: "(string \<Rightarrow> nat \<Rightarrow> init_failure option) \<Rightarrow> backend \<Rightarrow> client \<times> string list \<Rightarrow> client \<times> string list" where
  "initOne ienv b acc =
     (case acc of (st, failed) \<Rightarrow>
        (case initBackendWithRetry (ienv (bk_name b)) of
           None \<Rightarrow> (st\<lparr>cl_uninitialized := removeAll (bk_name b) (cl_uninitialized st)\<rparr>, failed)
         | Some err \<Rightarrow> (st\<lparr>cl_uninitialized := List.insert (bk_name b) (cl_uninitialized st)\<rparr>, failed @ [bk_name b])))"

text \<open>\<open>Inl\<close>: \<open>AllBackendsInitFailedError\<close> with the names of the backends.\<close>

definition initBackends :: "(string \<Rightarrow> nat \<Rightarrow> init_failure option) \<Rightarrow> client \<Rightarrow> (string list + unit) \<times> client" where
  "initBackends ienv st =
     (let (st1, failed) = fold (initOne ienv) (liveFirst st) (st, [])
      in if length failed \<ge> length (liveFirst st) then (Inl failed, st1)
         else (Inr (), st1\<lparr>cl_initialized := True\<rparr>))"

definition ensureInitialized :: "(string \<Rightarrow> nat \<Rightarrow> init_failure option) \<Rightarrow> client \<Rightarrow> (string list + unit) \<times> client" where
  "ensureInitialized ienv st = (if cl_initialized st then (Inr (), st) else initBackends ienv st)"

section \<open>One call to one backend\<close>

record 'a call_env =
  ce_now :: time
  ce_initFails :: bool
  ce_initDone :: time
  ce_settles :: "(time \<times> (thrown + 'a)) option"
  ce_done :: time

definition getTimeoutForBackend :: "CardanoClientConfig \<Rightarrow> backend \<Rightarrow> time" where
  "getTimeoutForBackend cfg b =
     (if bk_name b = ''koios'' \<or> bk_name b = ''odatano'' then cc_fallbackTimeoutMs cfg else cc_primaryTimeoutMs cfg)"

text \<open>The race of the call against the timer; the promise may never settle.\<close>

definition withTimeout :: "(time \<times> (thrown + 'a)) option \<Rightarrow> time \<Rightarrow> string \<Rightarrow> thrown + 'a" where
  "withTimeout settles ms bname =
     (case settles of
        Some (t, r) \<Rightarrow> if t < ms then r else Inl (Typed (ProviderUnavailableError (Some bname)))
      | None \<Rightarrow> Inl (Typed (ProviderUnavailableError (Some bname))))"

definition isClientError :: "backend_error \<Rightarrow> bool" where
  "isClientError e \<longleftrightarrow> 400 \<le> statusCode e \<and> statusCode e < 500"

definition callBackend ::
  "CardanoClientConfig \<Rightarrow> 'a call_env \<Rightarrow> backend \<Rightarrow> circuits \<Rightarrow> (backend_error + 'a) \<times> circuits" where
  "callBackend cfg ce b cs =
     (case withTimeout (ce_settles ce) (getTimeoutForBackend cfg b) (bk_name b) of
        Inr v \<Rightarrow> (Inr v, recordSuccess (cc_circuitBreaker cfg) cs (bk_name b))
      | Inl t \<Rightarrow>
          (let e = normalizeBackendError t (Some (bk_name b))
           in (Inl e, if isClientError e then cs
                      else recordFailure (cc_circuitBreaker cfg) (ce_done ce) cs (bk_name b))))"

definition ensureBackendInitialized :: "'a call_env \<Rightarrow> backend \<Rightarrow> client \<Rightarrow> bool \<times> client" where
  "ensureBackendInitialized ce b st =
     (if bk_name b \<notin> set (cl_uninitialized st) then (True, st)
      else if ce_initFails ce
      then (False, st\<lparr>cl_circuits := recordFailure (cc_circuitBreaker (cl_config st)) (ce_initDone ce) (cl_circuits st) (bk_name b)\<rparr>)
      else (True, st\<lparr>cl_uninitialized := removeAll (bk_name b) (cl_uninitialized st)\<rparr>))"

definition callWithResilience :: "'a call_env \<Rightarrow> backend \<Rightarrow> client \<Rightarrow> (backend_error + 'a) \<times> client" where
  "callWithResilience ce b st =
     (let cfg = cl_config st;
          (ok, cs) = shouldAttempt (cc_circuitBreaker cfg) (ce_now ce) (cl_circuits st) (bk_name b);
          st1 = st\<lparr>cl_circuits := cs\<rparr>
      in if \<not> ok then (Inl (ProviderUnavailableError (Some (bk_name b))), st1)
         else
           (let (ready, st2) = ensureBackendInitialized ce b st1
            in if \<not> ready then (Inl (ProviderUnavailableError (Some (bk_name b))), st2)
               else (let (r, cs2) = callBackend cfg ce b (cl_circuits st2) in (r, st2\<lparr>cl_circuits := cs2\<rparr>))))"

section \<open>Failover\<close>

datatype skip_reason = DoesNotSupport string | CircuitIsOpen

datatype 'a outcome =
    Answered 'a
  | Rejected backend_error
  | AllFailed "backend_error list" "(string \<times> skip_reason) list"
  | InitFailed "string list"

text \<open>The error the caller sees; \<open>skipped\<close> is only part of its message.\<close>

definition outcome_error :: "'a outcome \<Rightarrow> backend_error option" where
  "outcome_error out =
     (case out of Rejected e \<Rightarrow> Some e | AllFailed es _ \<Rightarrow> Some (AllBackendsFailedError es) | _ \<Rightarrow> None)"

definition declines :: "string option \<Rightarrow> backend \<Rightarrow> bool" where
  "declines meth b = (case meth of None \<Rightarrow> False | Some m \<Rightarrow> m \<in> set (bk_unsupported b))"

fun tryBackends ::
  "(string \<Rightarrow> 'a call_env) \<Rightarrow> string option \<Rightarrow> bool \<Rightarrow> backend list \<Rightarrow> client
     \<Rightarrow> backend_error list \<Rightarrow> (string \<times> skip_reason) list \<Rightarrow> 'a outcome \<times> client" where
  "tryBackends env meth final [] st errs skipped = (AllFailed errs skipped, st)"
| "tryBackends env meth final (b # bs) st errs skipped =
     (let n = bk_name b; ce = env n; cfg = cl_config st in
      if declines meth b
      then tryBackends env meth final bs st errs (skipped @ [(n, DoesNotSupport (nullish meth []))])
      else
        (let (ok, cs) = shouldAttempt (cc_circuitBreaker cfg) (ce_now ce) (cl_circuits st) n;
             st1 = st\<lparr>cl_circuits := cs\<rparr>
         in if \<not> ok then tryBackends env meth final bs st1 errs (skipped @ [(n, CircuitIsOpen)])
            else
              (let (ready, st2) = ensureBackendInitialized ce b st1
               in if \<not> ready then tryBackends env meth final bs st2 (errs @ [BackendInitError n]) skipped
                  else
                    (let (r, cs2) = callBackend cfg ce b (cl_circuits st2);
                         st3 = st2\<lparr>cl_circuits := cs2\<rparr>
                     in case r of
                          Inr v \<Rightarrow> (Answered v, st3)
                        | Inl e \<Rightarrow>
                            if final \<and> isClientError e then (Rejected e, st3)
                            else tryBackends env meth final bs st3 (errs @ [e]) skipped))))"

definition backendOrder :: "bool \<Rightarrow> client \<Rightarrow> backend list" where
  "backendOrder preferLive st = (if preferLive then liveFirst st else getOrderedBackends st)"

definition executeWithPriority ::
  "(string \<Rightarrow> nat \<Rightarrow> init_failure option) \<Rightarrow> (string \<Rightarrow> 'a call_env) \<Rightarrow> bool \<Rightarrow> string option \<Rightarrow> bool
     \<Rightarrow> client \<Rightarrow> 'a outcome \<times> client" where
  "executeWithPriority ienv env preferLive meth final st =
     (case ensureInitialized ienv st of
        (Inl names, st1) \<Rightarrow> (InitFailed names, st1)
      | (Inr _, st1) \<Rightarrow> tryBackends env meth final (backendOrder preferLive st1) st1 [] [])"

definition route ::
  "(string \<Rightarrow> nat \<Rightarrow> init_failure option) \<Rightarrow> string \<Rightarrow> (string \<Rightarrow> 'a call_env) \<Rightarrow> client \<Rightarrow> 'a outcome \<times> client" where
  "route ienv methodName env st =
     (let (preferLive, final) = nullish (map_of METHOD_ROUTING methodName) (False, False)
      in executeWithPriority ienv env preferLive (Some methodName) final st)"

section \<open>Choosing a backend by what it implements\<close>

definition implements :: "string \<Rightarrow> backend \<Rightarrow> bool" where
  "implements f b \<longleftrightarrow> f \<in> set (bk_methods b)"

definition isEvaluatingBackend :: "backend \<Rightarrow> bool" where
  "isEvaluatingBackend b = implements ''evaluateTransaction'' b"

definition isChainSyncBackend :: "backend \<Rightarrow> bool" where
  "isChainSyncBackend b = implements ''openChainSync'' b"

definition isLedgerStateBackend :: "backend \<Rightarrow> bool" where
  "isLedgerStateBackend b = implements ''queryUtxoSetAt'' b"

definition isPaginatingBackend :: "backend \<Rightarrow> bool" where
  "isPaginatingBackend b \<longleftrightarrow> implements ''getBlockByHeight'' b \<and> implements ''getNextBlocks'' b \<and> implements ''getBlockTransactions'' b"

definition isEpochStateBackend :: "backend \<Rightarrow> bool" where
  "isEpochStateBackend b = implements ''epochStateAt'' b"

definition isEnumeratingBackend :: "backend \<Rightarrow> bool" where
  "isEnumeratingBackend b \<longleftrightarrow> implements ''getPoolIds'' b \<and> implements ''getPools'' b \<and> implements ''getDrepIds'' b \<and> implements ''getDreps'' b"

definition usable :: "client \<Rightarrow> backend \<Rightarrow> bool" where
  "usable st b \<longleftrightarrow> bk_name b \<notin> set (cl_uninitialized st)"

definition getChainSyncBackend :: "client \<Rightarrow> backend option" where
  "getChainSyncBackend st = find (\<lambda>b. usable st b \<and> isChainSyncBackend b) (liveFirst st)"

definition getLedgerStateBackend :: "client \<Rightarrow> backend option" where
  "getLedgerStateBackend st = find (\<lambda>b. usable st b \<and> isLedgerStateBackend b) (liveFirst st)"

definition outputLookupBackend :: "client \<Rightarrow> backend option" where
  "outputLookupBackend st = find (\<lambda>b. usable st b \<and> implements ''getUnspentOutputs'' b) (liveFirst st)"

text \<open>\<open>None\<close>: null, no backend can answer.\<close>

definition getUnspentOutputs :: "(string \<Rightarrow> 'a) \<Rightarrow> client \<Rightarrow> 'a option" where
  "getUnspentOutputs lookup st =
     map_option (\<lambda>b. lookup (bk_name b)) (orElse (getLedgerStateBackend st) (outputLookupBackend st))"

definition hasBackendFor :: "string \<Rightarrow> client \<Rightarrow> bool" where
  "hasBackendFor meth st = list_ex (\<lambda>b. usable st b \<and> implements meth b \<and> meth \<notin> set (bk_unsupported b)) (liveFirst st)"

definition getEpochStateBackend :: "client \<Rightarrow> backend option" where
  "getEpochStateBackend st = find (\<lambda>b. usable st b \<and> isEpochStateBackend b) (liveFirst st)"

definition getEnumeratingBackend :: "client \<Rightarrow> backend option" where
  "getEnumeratingBackend st = find (\<lambda>b. usable st b \<and> isEnumeratingBackend b) (getOrderedBackends st)"

definition getPaginatingBackend :: "client \<Rightarrow> backend option" where
  "getPaginatingBackend st =
     (let cands = filter (\<lambda>b. usable st b \<and> isPaginatingBackend b) (cl_historical st)
      in case find (\<lambda>b. bk_name b = ''koios'') cands of
           Some k \<Rightarrow> Some k
         | None \<Rightarrow>
             (case cands of
                b # _ \<Rightarrow> Some b
              | [] \<Rightarrow> (case cl_live st of
                         Some l \<Rightarrow> if usable st l \<and> isPaginatingBackend l then Some l else None
                       | None \<Rightarrow> None)))"

fun recoverFirst :: "(string \<Rightarrow> 'a call_env) \<Rightarrow> backend list \<Rightarrow> client \<Rightarrow> backend option \<times> client" where
  "recoverFirst env [] st = (None, st)"
| "recoverFirst env (b # bs) st =
     (if \<not> isChainSyncBackend b then recoverFirst env bs st
      else (let (ready, st1) = ensureBackendInitialized (env (bk_name b)) b st
            in if ready then (Some b, st1) else recoverFirst env bs st1))"

definition recoverChainSyncBackend :: "(string \<Rightarrow> 'a call_env) \<Rightarrow> client \<Rightarrow> backend option \<times> client" where
  "recoverChainSyncBackend env st = recoverFirst env (liveFirst st) st"

definition hasOgmiosBackend :: "client \<Rightarrow> bool" where
  "hasOgmiosBackend st = (map_option bk_name (cl_live st) = Some ''ogmios'')"

definition evaluatingBackend :: "client \<Rightarrow> backend option" where
  "evaluatingBackend st = find isEvaluatingBackend (liveFirst st)"

definition hasEvaluatingBackend :: "client \<Rightarrow> bool" where
  "hasEvaluatingBackend st = (evaluatingBackend st \<noteq> None)"

section \<open>Calls with their own rules\<close>

definition outcome_of :: "backend_error + 'a \<Rightarrow> 'a outcome" where
  "outcome_of r = (case r of Inr v \<Rightarrow> Answered v | Inl e \<Rightarrow> Rejected e)"

definition evaluateTransaction ::
  "(string \<Rightarrow> nat \<Rightarrow> init_failure option) \<Rightarrow> (string \<Rightarrow> 'a call_env) \<Rightarrow> client \<Rightarrow> 'a outcome \<times> client" where
  "evaluateTransaction ienv env st =
     (case ensureInitialized ienv st of
        (Inl names, st1) \<Rightarrow> (InitFailed names, st1)
      | (Inr _, st1) \<Rightarrow>
          (case evaluatingBackend st1 of
             None \<Rightarrow> (Rejected (ProviderUnavailableError None), st1)
           | Some b \<Rightarrow> (let (r, st2) = callWithResilience (env (bk_name b)) b st1 in (outcome_of r, st2))))"

text \<open>The fetch that the coalescer of credentials shares.\<close>

definition getCredentialUtxos :: "(string \<Rightarrow> 'a call_env) \<Rightarrow> client \<Rightarrow> (backend_error + 'a) \<times> client" where
  "getCredentialUtxos env st =
     (let capable = filter (implements ''getCredentialUtxos'') (liveFirst st)
      in case orElse (find (\<lambda>b. bk_name b = ''koios'') capable) (case capable of [] \<Rightarrow> None | b # _ \<Rightarrow> Some b) of
           None \<Rightarrow> (Inl (ProviderUnavailableError (Some ''koios'')), st)
         | Some b \<Rightarrow> callWithResilience (env (bk_name b)) b st)"

definition getAssetHistory :: "(string \<Rightarrow> 'a call_env) \<Rightarrow> client \<Rightarrow> (backend_error + 'a) \<times> client" where
  "getAssetHistory env st =
     (let candidates = getOrderedBackends st
      in case orElse (find (\<lambda>b. bk_name b = ''koios'' \<and> implements ''getAssetHistory'' b) candidates)
                (find (implements ''getAssetHistory'') candidates) of
           None \<Rightarrow> (Inl (ProviderUnavailableError (Some ''asset-history'')), st)
         | Some b \<Rightarrow> callWithResilience (env (bk_name b)) b st)"

text \<open>The first backend that has the method and answers; a failure only moves on to the next.\<close>

fun firstAnswer :: "string \<Rightarrow> (string \<Rightarrow> 'a call_env) \<Rightarrow> backend list \<Rightarrow> client \<Rightarrow> 'a option \<times> client" where
  "firstAnswer meth env [] st = (None, st)"
| "firstAnswer meth env (b # bs) st =
     (if \<not> implements meth b then firstAnswer meth env bs st
      else (case callWithResilience (env (bk_name b)) b st of
              (Inr v, st1) \<Rightarrow> (Some v, st1)
            | (Inl _, st1) \<Rightarrow> firstAnswer meth env bs st1))"

definition getAddressTransactionHashes ::
  "(string \<Rightarrow> nat \<Rightarrow> init_failure option) \<Rightarrow> (string \<Rightarrow> string list call_env) \<Rightarrow> (string \<Rightarrow> ('t list) call_env)
     \<Rightarrow> ('t \<Rightarrow> string) \<Rightarrow> client \<Rightarrow> string list outcome \<times> client" where
  "getAddressTransactionHashes ienv env txEnv hashOf st =
     (case firstAnswer ''getAddressTransactionHashes'' env (getOrderedBackends st) st of
        (Some hs, st1) \<Rightarrow> (Answered hs, st1)
      | (None, st1) \<Rightarrow>
          (let (out, st2) = route ienv ''getAddressTransactions'' txEnv st1
           in (map_outcome (map hashOf) out, st2)))"

text \<open>Null: no source could tell.\<close>

datatype registration = Known bool | Undecided | Raised "bool outcome"

definition isRewardAccountRegistered ::
  "(string \<Rightarrow> nat \<Rightarrow> init_failure option) \<Rightarrow> (string \<Rightarrow> bool call_env) \<Rightarrow> client \<Rightarrow> registration \<times> client" where
  "isRewardAccountRegistered ienv env st =
     (let (out, st1) = executeWithPriority ienv env True (Some ''getAccount'') False st
      in (case out of
            Answered active \<Rightarrow> Known active
          | AllFailed errs _ \<Rightarrow>
              (let providers = filter (\<lambda>e. backendName e \<noteq> map_option bk_name (cl_live st1)) errs
               in if list_ex (\<lambda>e. statusCode e = 404) providers then Known False
                  else if errs \<noteq> [] \<and> list_all (\<lambda>e. statusCode e = 404) errs then Undecided
                  else Raised out)
          | _ \<Rightarrow> Raised out, st1))"

definition submitTransaction ::
  "(string \<Rightarrow> nat \<Rightarrow> init_failure option) \<Rightarrow> (string \<Rightarrow> string call_env) \<Rightarrow> (string \<Rightarrow> string + ParsedTransaction)
     \<Rightarrow> time \<Rightarrow> string \<Rightarrow> client \<Rightarrow> string outcome \<times> client" where
  "submitTransaction ienv env parse now signedTxCbor st =
     (let (out, st1) = route ienv ''submitTransaction'' env st;
          remember = st1\<lparr>cl_pendingSpends := record_tx parse now (cl_pendingSpends st1) signedTxCbor\<rparr>
      in (out,
          case out of
            Answered _ \<Rightarrow> remember
          | _ \<Rightarrow> (case outcome_error out of
                     Some e \<Rightarrow> if instanceof e TransactionAlreadySubmittedC then remember else st1
                   | None \<Rightarrow> st1)))"

definition shutdown :: "client \<Rightarrow> client" where
  "shutdown st = st\<lparr>cl_initialized := False\<rparr>"

section \<open>Protocol parameters\<close>

definition PROTOCOL_PARAMS_TTL_MS :: time where "PROTOCOL_PARAMS_TTL_MS = 5 * 60 * 1000"

datatype params_call = CachedParams LedgerProtocolParameters | JoinsFetch | StartsFetch

definition getProtocolParameters :: "time \<Rightarrow> client \<Rightarrow> params_call \<times> client" where
  "getProtocolParameters now st =
     (case cl_paramsCache st of
        Some (d, fetchedAt) \<Rightarrow>
          if now - fetchedAt < PROTOCOL_PARAMS_TTL_MS then (CachedParams d, st)
          else if cl_paramsFetching st then (JoinsFetch, st) else (StartsFetch, st\<lparr>cl_paramsFetching := True\<rparr>)
      | None \<Rightarrow>
          if cl_paramsFetching st then (JoinsFetch, st) else (StartsFetch, st\<lparr>cl_paramsFetching := True\<rparr>))"

text \<open>What the callback makes of the parameters that a backend answered.\<close>

definition paramsFrom :: "backend \<Rightarrow> LedgerProtocolParameters \<Rightarrow> client \<Rightarrow> LedgerProtocolParameters \<times> client" where
  "paramsFrom b params st =
     (if map_option bk_name (cl_live st) = Some (bk_name b) then (params, st\<lparr>cl_lastLiveParams := Some params\<rparr>)
      else (case cl_lastLiveParams st of
              Some live \<Rightarrow> (if lp_epoch live = lp_epoch params then live else params, st)
            | None \<Rightarrow> (params, st)))"

definition paramsSettled :: "(string + LedgerProtocolParameters) \<Rightarrow> time \<Rightarrow> client \<Rightarrow> client" where
  "paramsSettled r now st =
     (case r of
        Inr params \<Rightarrow> st\<lparr>cl_paramsCache := Some (params, now), cl_paramsFetching := False\<rparr>
      | Inl _ \<Rightarrow> st\<lparr>cl_paramsFetching := False\<rparr>)"

section \<open>What a call amounts to\<close>

text \<open>
  The specification the loop is held against: each backend is judged by itself, from the state the
  call started in, and the answer is the first judgement that settles the call.
\<close>

datatype 'a verdict = VUnsupported | VCircuitOpen | VInitFails | VFails backend_error | VAnswers 'a

definition verdict :: "(string \<Rightarrow> 'a call_env) \<Rightarrow> string option \<Rightarrow> client \<Rightarrow> backend \<Rightarrow> 'a verdict" where
  "verdict env meth st b =
     (let n = bk_name b; ce = env n; cfg = cl_config st in
      if declines meth b then VUnsupported
      else if \<not> fst (shouldAttempt (cc_circuitBreaker cfg) (ce_now ce) (cl_circuits st) n) then VCircuitOpen
      else if n \<in> set (cl_uninitialized st) \<and> ce_initFails ce then VInitFails
      else (case withTimeout (ce_settles ce) (getTimeoutForBackend cfg b) n of
              Inr v \<Rightarrow> VAnswers v
            | Inl t \<Rightarrow> VFails (normalizeBackendError t (Some n))))"

definition settles :: "bool \<Rightarrow> 'a verdict \<Rightarrow> bool" where
  "settles final v = (case v of VAnswers _ \<Rightarrow> True | VFails e \<Rightarrow> final \<and> isClientError e | _ \<Rightarrow> False)"

definition error_of :: "backend \<Rightarrow> 'a verdict \<Rightarrow> backend_error list" where
  "error_of b v = (case v of VInitFails \<Rightarrow> [BackendInitError (bk_name b)] | VFails e \<Rightarrow> [e] | _ \<Rightarrow> [])"

definition skip_of :: "string option \<Rightarrow> backend \<Rightarrow> 'a verdict \<Rightarrow> (string \<times> skip_reason) list" where
  "skip_of meth b v =
     (case v of VUnsupported \<Rightarrow> [(bk_name b, DoesNotSupport (nullish meth []))]
      | VCircuitOpen \<Rightarrow> [(bk_name b, CircuitIsOpen)] | _ \<Rightarrow> [])"

definition breaker_events :: "(string \<Rightarrow> 'a call_env) \<Rightarrow> backend \<Rightarrow> 'a verdict \<Rightarrow> (string \<times> time \<times> cb_event) list" where
  "breaker_events env b v =
     (let n = bk_name b; ce = env n in
      case v of
        VUnsupported \<Rightarrow> []
      | VCircuitOpen \<Rightarrow> [(n, ce_now ce, Attempt)]
      | VInitFails \<Rightarrow> [(n, ce_now ce, Attempt), (n, ce_initDone ce, Failure)]
      | VFails e \<Rightarrow> (n, ce_now ce, Attempt) # (if isClientError e then [] else [(n, ce_done ce, Failure)])
      | VAnswers _ \<Rightarrow> [(n, ce_now ce, Attempt), (n, ce_done ce, Success)])"

definition spec_outcome :: "string option \<Rightarrow> bool \<Rightarrow> (backend \<times> 'a verdict) list \<Rightarrow> 'a outcome" where
  "spec_outcome meth final vs =
     (case find (\<lambda>(b, v). settles final v) vs of
        Some (_, VAnswers v) \<Rightarrow> Answered v
      | Some (_, VFails e) \<Rightarrow> Rejected e
      | _ \<Rightarrow> AllFailed (concat (map (\<lambda>(b, v). error_of b v) vs)) (concat (map (\<lambda>(b, v). skip_of meth b v) vs)))"

text \<open>The backends asked: all up to the first that settles the call.\<close>

fun visited :: "bool \<Rightarrow> (backend \<times> 'a verdict) list \<Rightarrow> (backend \<times> 'a verdict) list" where
  "visited final [] = []"
| "visited final ((b, v) # vs) = (b, v) # (if settles final v then [] else visited final vs)"

definition events_visited :: "(string \<Rightarrow> 'a call_env) \<Rightarrow> bool \<Rightarrow> (backend \<times> 'a verdict) list \<Rightarrow> (string \<times> time \<times> cb_event) list" where
  "events_visited env final vs = concat (map (\<lambda>(b, v). breaker_events env b v) (visited final vs))"

definition reached :: "'a verdict \<Rightarrow> bool" where
  "reached v = (case v of VFails _ \<Rightarrow> True | VAnswers _ \<Rightarrow> True | _ \<Rightarrow> False)"

definition after_visit :: "(string \<Rightarrow> 'a call_env) \<Rightarrow> backend \<Rightarrow> 'a verdict \<Rightarrow> client \<Rightarrow> client" where
  "after_visit env b v st =
     st\<lparr>cl_circuits := cb_run (cc_circuitBreaker (cl_config st)) (cl_circuits st) (breaker_events env b v),
        cl_uninitialized := (if reached v then removeAll (bk_name b) (cl_uninitialized st) else cl_uninitialized st)\<rparr>"

lemma after_visit_config [simp]: "cl_config (after_visit env b v st) = cl_config st"
  by (simp add: after_visit_def)

lemma client_keep: "st\<lparr>cl_circuits := c, cl_uninitialized := cl_uninitialized st\<rparr> = st\<lparr>cl_circuits := c\<rparr>"
  by (cases st) simp

lemma client_swap: "st\<lparr>cl_uninitialized := u, cl_circuits := c\<rparr> = st\<lparr>cl_circuits := c, cl_uninitialized := u\<rparr>"
  by (cases st) simp

lemma tryBackends_visit:
  "tryBackends env meth final (b # bs) st errs skipped =
     (let v = verdict env meth st b; st' = after_visit env b v st
      in if settles final v
         then (case v of VAnswers a \<Rightarrow> (Answered a, st') | VFails e \<Rightarrow> (Rejected e, st') | _ \<Rightarrow> (AllFailed [] [], st'))
         else tryBackends env meth final bs st' (errs @ error_of b v) (skipped @ skip_of meth b v))"
proof (cases "declines meth b \<or> \<not> fst (shouldAttempt (cc_circuitBreaker (cl_config st)) (ce_now (env (bk_name b))) (cl_circuits st) (bk_name b))")
  case True
  then show ?thesis
    by (auto simp: verdict_def Let_def after_visit_def settles_def error_of_def skip_of_def breaker_events_def
        reached_def split_beta)
next
  case False
  then show ?thesis
    by (cases "bk_name b \<in> set (cl_uninitialized st)"; cases "ce_initFails (env (bk_name b))")
       (simp_all add: verdict_def Let_def after_visit_def settles_def error_of_def skip_of_def breaker_events_def
        reached_def split_beta ensureBackendInitialized_def callBackend_def removeAll_id client_keep client_swap split: sum.split)
qed

lemma verdict_local:
  assumes "cl_config st = cl_config st'" "mget (cl_circuits st) (bk_name b) = mget (cl_circuits st') (bk_name b)"
    and "bk_name b \<in> set (cl_uninitialized st) \<longleftrightarrow> bk_name b \<in> set (cl_uninitialized st')"
  shows "verdict env meth st b = verdict env meth st' b"
  using assms breaker.decided [OF assms(2)] by (simp add: verdict_def Let_def)

lemma breaker_events_own: "fst ` set (breaker_events env b v) \<subseteq> {bk_name b}"
  by (cases v) (auto simp: breaker_events_def Let_def)

lemma verdict_undisturbed:
  assumes "bk_name c \<noteq> bk_name b"
  shows "verdict env meth (after_visit env b v st) c = verdict env meth st c"
proof (rule verdict_local)
  have "bk_name c \<notin> fst ` set (breaker_events env b v)" using breaker_events_own [of env b v] assms by auto
  from cb_run_other [OF this]
  show "mget (cl_circuits (after_visit env b v st)) (bk_name c) = mget (cl_circuits st) (bk_name c)"
    by (simp add: after_visit_def)
qed (use assms in \<open>simp_all add: after_visit_def\<close>)

text \<open>What the loop carries along is put before what the rest adds.\<close>

definition carry :: "backend_error list \<Rightarrow> (string \<times> skip_reason) list \<Rightarrow> 'a outcome \<Rightarrow> 'a outcome" where
  "carry errs skipped out = (case out of AllFailed es sk \<Rightarrow> AllFailed (errs @ es) (skipped @ sk) | _ \<Rightarrow> out)"

definition judged :: "(string \<Rightarrow> 'a call_env) \<Rightarrow> string option \<Rightarrow> client \<Rightarrow> backend list \<Rightarrow> (backend \<times> 'a verdict) list" where
  "judged env meth st bs = map (\<lambda>b. (b, verdict env meth st b)) bs"

lemma judged_undisturbed:
  assumes "bk_name b \<notin> bk_name ` set bs"
  shows "judged env meth (after_visit env b v st) bs = judged env meth st bs"
proof -
  have "bk_name c \<noteq> bk_name b" if "c \<in> set bs" for c using assms that by (metis imageI)
  then show ?thesis by (simp add: judged_def verdict_undisturbed)
qed

lemma spec_outcome_Cons:
  "spec_outcome meth final ((b, v) # vs) =
     (if settles final v then (case v of VAnswers a \<Rightarrow> Answered a | VFails e \<Rightarrow> Rejected e | _ \<Rightarrow> AllFailed [] [])
      else carry (error_of b v) (skip_of meth b v) (spec_outcome meth final vs))"
  by (cases v) (auto simp: spec_outcome_def carry_def settles_def split: option.split prod.split verdict.split)

lemma carry_carry: "carry errs sk (carry errs' sk' out) = carry (errs @ errs') (sk @ sk') out"
  by (simp add: carry_def split: outcome.split)

lemma carry_Nil [simp]: "carry [] [] out = out"
  by (simp add: carry_def split: outcome.split)

definition same_but_rotation :: "client \<Rightarrow> client \<Rightarrow> bool" where
  "same_but_rotation st st' \<longleftrightarrow> st' = st\<lparr>cl_circuits := cl_circuits st', cl_uninitialized := cl_uninitialized st'\<rparr>"

lemma same_but_rotation_trans:
  "same_but_rotation st st' \<Longrightarrow> same_but_rotation st' st'' \<Longrightarrow> same_but_rotation st st''"
  unfolding same_but_rotation_def by (cases st; cases st'; cases st'') simp

lemma tryBackends_spec:
  assumes "distinct (map bk_name bs)"
  shows "fst (tryBackends env meth final bs st errs skipped)
           = carry errs skipped (spec_outcome meth final (judged env meth st bs))
       \<and> cl_circuits (snd (tryBackends env meth final bs st errs skipped))
           = cb_run (cc_circuitBreaker (cl_config st)) (cl_circuits st) (events_visited env final (judged env meth st bs))
       \<and> cl_uninitialized (snd (tryBackends env meth final bs st errs skipped))
           = filter (\<lambda>n. \<not> (\<exists>(b, v) \<in> set (visited final (judged env meth st bs)). bk_name b = n \<and> reached v)) (cl_uninitialized st)
       \<and> same_but_rotation st (snd (tryBackends env meth final bs st errs skipped))"
  using assms
proof (induction bs arbitrary: st errs skipped)
  case Nil
  show ?case by (simp add: judged_def spec_outcome_def events_visited_def same_but_rotation_def carry_def)
next
  case (Cons b bs)
  define v where "v = verdict env meth st b"
  define st' where "st' = after_visit env b v st"
  have J: "judged env meth st (b # bs) = (b, v) # judged env meth st bs" by (simp add: judged_def v_def)
  have J': "judged env meth st' bs = judged env meth st bs"
    using Cons.prems unfolding st'_def by (intro judged_undisturbed) auto
  have step: "tryBackends env meth final (b # bs) st errs skipped =
     (if settles final v
      then (case v of VAnswers a \<Rightarrow> (Answered a, st') | VFails e \<Rightarrow> (Rejected e, st') | _ \<Rightarrow> (AllFailed [] [], st'))
      else tryBackends env meth final bs st' (errs @ error_of b v) (skipped @ skip_of meth b v))"
    unfolding tryBackends_visit [of env meth final b bs st errs skipped] Let_def v_def st'_def by (rule refl)
  show ?case
  proof (cases "settles final v")
    case True
    then have "snd (tryBackends env meth final (b # bs) st errs skipped) = st'"
      and "fst (tryBackends env meth final (b # bs) st errs skipped)
           = (case v of VAnswers a \<Rightarrow> Answered a | VFails e \<Rightarrow> Rejected e | _ \<Rightarrow> AllFailed [] [])"
      unfolding step by (auto split: verdict.split)
    with True show ?thesis
      by (cases v) (auto simp: J spec_outcome_Cons events_visited_def st'_def after_visit_def
          same_but_rotation_def settles_def reached_def carry_def removeAll_filter_not_eq intro: filter_cong)
  next
    case False
    from False have eq: "tryBackends env meth final (b # bs) st errs skipped
        = tryBackends env meth final bs st' (errs @ error_of b v) (skipped @ skip_of meth b v)"
      unfolding step by simp
    from Cons.prems have "distinct (map bk_name bs)" by simp
    note IH = Cons.IH [OF this, of st' "errs @ error_of b v" "skipped @ skip_of meth b v", unfolded J']
    have open_names: "cl_uninitialized st' = filter (\<lambda>n. \<not> (bk_name b = n \<and> reached v)) (cl_uninitialized st)"
      by (auto simp: st'_def after_visit_def removeAll_filter_not_eq intro!: filter_cong)
    have circuits: "cl_circuits st' = cb_run (cc_circuitBreaker (cl_config st)) (cl_circuits st) (breaker_events env b v)"
      by (simp add: st'_def after_visit_def)
    have same: "same_but_rotation st st'" by (simp add: same_but_rotation_def st'_def after_visit_def)
    have vis: "visited final ((b, v) # judged env meth st bs) = (b, v) # visited final (judged env meth st bs)"
      using False by simp
    have cfg: "cl_config st' = cl_config st" by (simp add: st'_def)
    show ?thesis
      unfolding eq J
    proof (intro conjI)
      show "fst (tryBackends env meth final bs st' (errs @ error_of b v) (skipped @ skip_of meth b v))
          = carry errs skipped (spec_outcome meth final ((b, v) # judged env meth st bs))"
        using False IH by (simp add: spec_outcome_Cons carry_carry)
      show "cl_circuits (snd (tryBackends env meth final bs st' (errs @ error_of b v) (skipped @ skip_of meth b v)))
          = cb_run (cc_circuitBreaker (cl_config st)) (cl_circuits st) (events_visited env final ((b, v) # judged env meth st bs))"
        using False IH by (simp add: events_visited_def cb_run_append circuits cfg)
      show "cl_uninitialized (snd (tryBackends env meth final bs st' (errs @ error_of b v) (skipped @ skip_of meth b v)))
          = filter (\<lambda>n. \<not> (\<exists>(c, w) \<in> set (visited final ((b, v) # judged env meth st bs)). bk_name c = n \<and> reached w)) (cl_uninitialized st)"
        using IH unfolding vis by (auto simp: open_names intro!: filter_cong)
      show "same_but_rotation st (snd (tryBackends env meth final bs st' (errs @ error_of b v) (skipped @ skip_of meth b v)))"
        using IH by (blast intro: same_but_rotation_trans [OF same])
    qed
  qed
qed

section \<open>Consequences\<close>

lemma liveFirst_names: "listBackends st = map bk_name (liveFirst st)"
  by (simp add: listBackends_def)

lemma backendOrder_set: "set (backendOrder preferLive st) = set (liveFirst st)"
  by (auto simp: backendOrder_def liveFirst_def getOrderedBackends_def split: option.split)

lemma backendOrder_distinct: "distinct (listBackends st) \<Longrightarrow> distinct (map bk_name (backendOrder preferLive st))"
  by (auto simp: backendOrder_def liveFirst_names liveFirst_def getOrderedBackends_def split: option.splits)

lemma newClient_distinct:
  assumes "newClient cfg mk = Inr st" "\<And>n. bk_name (mk n) = n"
  shows "distinct (listBackends st)"
  using assms by (auto simp: newClient_def Let_def liveFirst_names liveFirst_def split: if_splits)

lemma visited_unsettled_prefix:
  "\<forall>(b, v) \<in> set vs. \<not> settles final v \<Longrightarrow> visited final (vs @ ws) = vs @ visited final ws"
  by (induction vs) auto

text \<open>What the error of a backend says about it.\<close>

lemma normalize_404_names:
  assumes "statusCode (normalizeBackendError t (Some n)) = 404" "\<And>e. t = Typed e \<Longrightarrow> backendName e = Some n"
  shows "backendName (normalizeBackendError t (Some n)) = Some n"
  using assms
  by (cases t) (auto simp: normalizeBackendError_def classifyHttp_def error_makers Let_def split: if_splits list.splits)

lemma error_of_judged:
  assumes "e \<in> set (concat (map (\<lambda>(b, v). error_of b v) (judged env meth st bs)))"
  shows "\<exists>b \<in> set bs. verdict env meth st b = VFails e \<or> e = BackendInitError (bk_name b)"
proof -
  from assms obtain b where "b \<in> set bs" "e \<in> set (error_of b (verdict env meth st b))" by (auto simp: judged_def)
  then show ?thesis by (cases "verdict env meth st b") (auto simp: error_of_def)
qed

lemma verdict_VFails:
  assumes "verdict env meth st b = VFails e"
  obtains t where "withTimeout (ce_settles (env (bk_name b))) (getTimeoutForBackend (cl_config st) b) (bk_name b) = Inl t"
    "e = normalizeBackendError t (Some (bk_name b))"
  using assms by (auto simp: verdict_def Let_def split: if_splits sum.splits)

lemma verdict_404_names:
  assumes "verdict env meth st b = VFails e" "statusCode e = 404"
    and "\<And>t e. ce_settles (env (bk_name b)) = Some (t, Inl (Typed e)) \<Longrightarrow> statusCode e = 404 \<Longrightarrow> backendName e = Some (bk_name b)"
  shows "backendName e = Some (bk_name b)"
proof -
  from assms(1) obtain t where t: "withTimeout (ce_settles (env (bk_name b))) (getTimeoutForBackend (cl_config st) b) (bk_name b) = Inl t"
    and e: "e = normalizeBackendError t (Some (bk_name b))"
    by (rule verdict_VFails)
  have "backendName x = Some (bk_name b)" if "t = Typed x" for x
    using t that assms(2,3) e
    by (auto simp: withTimeout_def ProviderUnavailableError_def normalizeBackendError_def split: option.splits prod.splits if_splits)
  with normalize_404_names assms(2) show ?thesis unfolding e by blast
qed

lemma spec_outcome_Answered:
  assumes "spec_outcome meth final (judged env meth st bs) = Answered a"
  shows "\<exists>b \<in> set bs. verdict env meth st b = VAnswers a"
proof -
  from assms obtain b v where "find (\<lambda>(b, v). settles final v) (judged env meth st bs) = Some (b, v)" "v = VAnswers a"
    by (auto simp: spec_outcome_def split: option.splits verdict.splits)
  then have "(b, v) \<in> set (judged env meth st bs)" by (auto simp: find_Some_iff in_set_conv_nth)
  with \<open>v = VAnswers a\<close> show ?thesis by (force simp: judged_def)
qed

lemma spec_outcome_AllFailed:
  assumes "spec_outcome meth final vs = AllFailed errs sk"
  shows "errs = concat (map (\<lambda>(b, v). error_of b v) vs)"
proof (cases "find (\<lambda>(b, v). settles final v) vs")
  case (Some p)
  then have "settles final (snd p)" by (auto simp: find_Some_iff split_beta)
  with Some assms show ?thesis by (cases p) (auto simp: spec_outcome_def settles_def split: verdict.splits)
qed (use assms in \<open>simp add: spec_outcome_def\<close>)

lemma executeWithPriority_spec:
  assumes "cl_initialized st" "distinct (listBackends st)"
  shows "executeWithPriority ienv env preferLive meth final st
     = (let vs = judged env meth st (backendOrder preferLive st)
        in (spec_outcome meth final vs,
            st\<lparr>cl_circuits := cb_run (cc_circuitBreaker (cl_config st)) (cl_circuits st) (events_visited env final vs),
               cl_uninitialized :=
                 filter (\<lambda>n. \<not> (\<exists>(b, v) \<in> set (visited final vs). bk_name b = n \<and> reached v)) (cl_uninitialized st)\<rparr>))"
proof -
  define run where "run = tryBackends env meth final (backendOrder preferLive st) st [] []"
  define vs where "vs = judged env meth st (backendOrder preferLive st)"
  note spec = tryBackends_spec [OF backendOrder_distinct [OF assms(2), of preferLive],
      of env meth final st "[]" "[]", folded run_def vs_def]
  have "snd run = st\<lparr>cl_circuits := cl_circuits (snd run), cl_uninitialized := cl_uninitialized (snd run)\<rparr>"
    using spec unfolding same_but_rotation_def by blast
  moreover have "executeWithPriority ienv env preferLive meth final st = (fst run, snd run)"
    using assms(1) by (simp add: executeWithPriority_def ensureInitialized_def run_def)
  ultimately show ?thesis
    using spec unfolding Let_def vs_def [symmetric] by (metis carry_Nil)
qed

section \<open>Properties\<close>


definition sample_config :: CardanoClientConfig where
  "sample_config = \<lparr>cc_backends = [''koios'', ''ogmios''], cc_primaryTimeoutMs = 5000, cc_fallbackTimeoutMs = 9000,
     cc_indexTtlMs = None, cc_circuitBreaker = DEFAULT_CONFIG\<rparr>"

definition sample_client :: client where
  "sample_client = \<lparr>cl_config = sample_config,
     cl_live = Some \<lparr>bk_name = ''ogmios'', bk_methods = [''openChainSync''], bk_unsupported = []\<rparr>,
     cl_historical = [\<lparr>bk_name = ''koios'', bk_methods = [], bk_unsupported = []\<rparr>],
     cl_initialized = True, cl_uninitialized = [], cl_circuits = [], cl_max_age_ms = 60000,
     cl_pendingSpends = [], cl_paramsCache = None, cl_paramsFetching = False, cl_lastLiveParams = None\<rparr>"

text \<open>The node does not settle in time; Koios settles with \<open>r\<close>.\<close>

definition sample_env :: "(thrown + 'a) \<Rightarrow> string \<Rightarrow> 'a call_env" where
  "sample_env r n =
     \<lparr>ce_now = 1000, ce_initFails = False, ce_initDone = 1000,
      ce_settles = (if n = ''ogmios'' then None else Some (20, r)), ce_done = 6000\<rparr>"

lemmas sample_defs = sample_client_def sample_config_def sample_env_def listBackends_def liveFirst_def
  backendOrder_def judged_def verdict_def declines_def shouldAttempt_def withTimeout_def getTimeoutForBackend_def Let_def


lemma submit_route:
  "route ienv ''submitTransaction'' env st = executeWithPriority ienv env True (Some ''submitTransaction'') True st"
  by (simp add: route_def METHOD_ROUTING_def)

lemma events_visited_names: "fst ` set (events_visited env final vs) \<subseteq> bk_name ` fst ` set (visited final vs)"
  unfolding events_visited_def using breaker_events_own [of env] by (force simp: image_iff)

lemma find_skip: "\<forall>x \<in> set xs. \<not> P x \<Longrightarrow> find P (xs @ ys) = find P ys"
  by (induction xs) auto

lemma judged_append: "judged env meth st (xs @ ys) = judged env meth st xs @ judged env meth st ys"
  by (simp add: judged_def)


text \<open>
  A stake address is reported as not registered only on the word of a source that can know: a
  backend that answered so, or a provider other than the node that answered 404. The node lists
  delegated credentials only, so its 404 alone, and outages, leave the question open.
\<close>

theorem unregistered_needs_provider:
  assumes "cl_initialized st" "distinct (listBackends st)"
    and known: "fst (isRewardAccountRegistered ienv env st) = Known False"
    and named: "\<forall>b \<in> set (liveFirst st). \<forall>t e. ce_settles (env (bk_name b)) = Some (t, Inl (Typed e))
                  \<and> statusCode e = 404 \<longrightarrow> backendName e = Some (bk_name b)"
  shows "\<exists>b \<in> set (liveFirst st). verdict env (Some ''getAccount'') st b = VAnswers False
           \<or> b \<in> set (cl_historical st) \<and> (\<exists>e. verdict env (Some ''getAccount'') st b = VFails e \<and> statusCode e = 404)"
proof -
  define vs where "vs = judged env (Some ''getAccount'') st (liveFirst st)"
  define out where "out = spec_outcome (Some ''getAccount'') False vs"
  have run: "executeWithPriority ienv env True (Some ''getAccount'') False st = (out, st1)
      \<Longrightarrow> cl_live st1 = cl_live st" for st1
    unfolding executeWithPriority_spec [OF assms(1,2)] by (auto simp: Let_def)
  obtain st1 where st1: "executeWithPriority ienv env True (Some ''getAccount'') False st = (out, st1)"
    unfolding executeWithPriority_spec [OF assms(1,2)] by (simp add: Let_def out_def vs_def backendOrder_def)
  consider (answered) "out = Answered False"
    | (failed) errs sk e where "out = AllFailed errs sk" "e \<in> set errs" "statusCode e = 404"
        "backendName e \<noteq> map_option bk_name (cl_live st)"
    using known run [OF st1]
    by (auto simp: isRewardAccountRegistered_def st1 list_ex_iff split: outcome.splits if_splits)
  then show ?thesis
  proof cases
    case answered
    with spec_outcome_Answered [of _ False env st "liveFirst st" False]
    have "\<exists>b \<in> set (liveFirst st). verdict env (Some ''getAccount'') st b = VAnswers False"
      unfolding out_def vs_def by blast
    then show ?thesis by blast
  next
    case failed
    then have "e \<in> set (concat (map (\<lambda>(b, v). error_of b v) vs))"
      using spec_outcome_AllFailed unfolding out_def by blast
    then obtain b where b: "b \<in> set (liveFirst st)"
        "verdict env (Some ''getAccount'') st b = VFails e \<or> e = BackendInitError (bk_name b)"
      using error_of_judged unfolding vs_def by blast
    with failed have v: "verdict env (Some ''getAccount'') st b = VFails e" by (auto simp: BackendInitError_def)
    from v failed(3) have "backendName e = Some (bk_name b)"
      by (rule verdict_404_names) (use named b(1) in blast)
    with failed(4) b(1) have "b \<in> set (cl_historical st)"
      by (cases "cl_live st") (auto simp: liveFirst_def)
    with b(1) v failed(3) show ?thesis by blast
  qed
qed

definition absent_env :: "string \<Rightarrow> bool call_env" where
  "absent_env = sample_env (Inl (Typed (NotFoundError (Some ''koios''))))"

theorem unregistered_needs_provider_witness:
  "\<exists>b \<in> set (liveFirst sample_client). verdict absent_env (Some ''getAccount'') sample_client b = VAnswers False
    \<or> b \<in> set (cl_historical sample_client)
      \<and> (\<exists>e. verdict absent_env (Some ''getAccount'') sample_client b = VFails e \<and> statusCode e = 404)"
  by (rule unregistered_needs_provider)
     (simp_all add: isRewardAccountRegistered_def executeWithPriority_spec absent_env_def sample_defs spec_outcome_def
       settles_def error_of_def normalizeBackendError_def error_makers)

definition rejecting_env :: "string \<Rightarrow> string call_env" where
  "rejecting_env n =
     \<lparr>ce_now = 1000, ce_initFails = False, ce_initDone = 1000,
      ce_settles = Some (30, Inl (Typed ScriptValidationError)), ce_done = 1030\<rparr>"


end
