(* ===== verification/Addresses.thy ===== *)
theory Addresses imports TransactionRows Errors "HOL-Library.Word" begin

text \<open>
  Shelley addresses: the decoder and the encoders of \<open>srv/utils/mappers.ts\<close> and
  \<open>extractPaymentCredential\<close> of \<open>srv/utils/validators.ts\<close>. Bytes are 8-bit words. Bech32 is a
  library of the program and a parameter here: \<open>bdec s limit\<close> is the prefix with the payload
  bytes, or \<open>None\<close> when the library throws; \<open>benc prefix bytes\<close> is the encoded string.
\<close>

unbundle bit_operations_syntax

section \<open>Bytes and hex\<close>

type_synonym byte = "8 word"
type_synonym bech32_decode = "string \<Rightarrow> nat \<Rightarrow> (string \<times> byte list) option"
type_synonym bech32_encode = "string \<Rightarrow> byte list \<Rightarrow> string"

definition hex_char :: "nat \<Rightarrow> char" where
  "hex_char n = (if n < 10 then char_of (48 + n) else char_of (87 + n))"

fun hex_of :: "byte list \<Rightarrow> string" where
  "hex_of [] = []"
| "hex_of (b # bs) = hex_char (unat (drop_bit 4 b)) # hex_char (unat (b AND 15)) # hex_of bs"

definition bytes_of_hex :: "string \<Rightarrow> byte list" where
  "bytes_of_hex s = map word_of_nat (hex_bytes s)"

lemma hex_digit_char: "n < 16 \<Longrightarrow> hex_digit (hex_char n) = Some n"
  by (auto simp: hex_digit_def hex_char_def Let_def)

lemma high_nibble: "unat (drop_bit 4 (b::byte)) = unat b div 16"
proof -
  have "unat (drop_bit 4 b) = drop_bit 4 (unat b)" by (rule unat_drop_bit_eq)
  then show ?thesis by (simp add: drop_bit_eq_div)
qed

lemma low_nibble: "unat ((b::byte) AND 15) = unat b mod 16"
proof -
  have "b AND 15 = take_bit 4 b" by (simp add: take_bit_eq_mask mask_eq_exp_minus_1)
  moreover have "unat (take_bit 4 b) = take_bit 4 (unat b)" by (rule unsigned_take_bit_eq)
  ultimately show ?thesis by (simp add: take_bit_eq_mod)
qed

lemma nibbles: "16 * unat (drop_bit 4 (b::byte)) + unat (b AND 15) = unat b"
  by (simp add: high_nibble low_nibble)

lemma nibble_bounds: "unat (drop_bit 4 (b::byte)) < 16" "unat (b AND 15) < 16"
proof -
  have "unat b < 2 ^ LENGTH(8)" by (rule unsigned_less)
  then show "unat (drop_bit 4 b) < 16" by (simp add: high_nibble)
qed (simp add: low_nibble)

lemma hex_bytes_hex_of: "hex_bytes (hex_of bs) = map unat bs"
  by (induction bs) (simp_all add: hex_digit_char nibble_bounds nibbles)

lemma bytes_of_hex_of [simp]: "bytes_of_hex (hex_of bs) = bs"
  by (simp add: bytes_of_hex_def hex_bytes_hex_of comp_def)

lemma hex_of_inject: "hex_of bs = hex_of cs \<longleftrightarrow> bs = cs"
  by (metis bytes_of_hex_of)

section \<open>Encoding\<close>

text \<open>\<open>Buffer.alloc(29)\<close> with a header byte and the credential copied behind it.\<close>

definition payload29 :: "byte \<Rightarrow> string \<Rightarrow> byte list" where
  "payload29 header credentialHex = header # take 28 (bytes_of_hex credentialHex @ replicate 28 0)"

definition scriptHashToEnterpriseAddress :: "bech32_encode \<Rightarrow> string \<Rightarrow> Network \<Rightarrow> string" where
  "scriptHashToEnterpriseAddress benc scriptHashHex network =
     benc (if network = Mainnet then ''addr'' else ''addr_test'')
       (payload29 (if network = Mainnet then 0x71 else 0x70) scriptHashHex)"

definition credentialToStakeAddress :: "bech32_encode \<Rightarrow> string \<Rightarrow> bool \<Rightarrow> Network \<Rightarrow> string" where
  "credentialToStakeAddress benc credentialHex isScript network =
     (let header = (if isScript then 0xf0 else 0xe0) OR (if network = Mainnet then 0x01 else 0x00)
      in benc (if network = Mainnet then ''stake'' else ''stake_test'') (payload29 header credentialHex))"

definition credentialToDrepId :: "bech32_encode \<Rightarrow> string \<Rightarrow> bool \<Rightarrow> string" where
  "credentialToDrepId benc credentialHex isScript =
     benc ''drep'' (payload29 (if isScript then 0x23 else 0x22) credentialHex)"

section \<open>Decoding\<close>

record ShelleyAddress = DecodedAddress +
  da_networkId :: "nat option"

definition unknown_address :: ShelleyAddress where
  "unknown_address = \<lparr>da_type = ''unknown'', da_isScript = False, da_stakeAddress = None,
     da_paymentCredential = None, da_networkId = None\<rparr>"

definition ADDRESS_PREFIXES :: "string list" where
  "ADDRESS_PREFIXES = [''addr'', ''addr_test'', ''stake'', ''stake_test'']"

definition BYRON_PREFIXES :: "string list" where
  "BYRON_PREFIXES = [''Ae2'', ''DdzFF'', ''2cWKM'', ''37btj'', ''KjgoiX'']"

definition SHELLEY_LIMIT :: nat where "SHELLEY_LIMIT = 120"

definition decodeBytes :: "bech32_encode \<Rightarrow> string \<Rightarrow> byte list \<Rightarrow> ShelleyAddress" where
  "decodeBytes benc address bytes =
     (case bytes of
        [] \<Rightarrow> unknown_address
      | header # _ \<Rightarrow>
          (let type = unat (drop_bit 4 header);
               networkId = unat (header AND 0x0f);
               net = (if networkId = 1 then Mainnet else Preview);
               cred = (if type \<le> 7 \<and> length bytes \<ge> 29 then Some (hex_of (take 28 (drop 1 bytes))) else None)
           in if type \<le> 3
              then \<lparr>da_type = ''base'', da_isScript = (type = 1 \<or> type = 3),
                    da_stakeAddress = (if length bytes \<ge> 57
                      then Some (credentialToStakeAddress benc (hex_of (take 28 (drop 29 bytes))) (type \<ge> 2) net) else None),
                    da_paymentCredential = cred, da_networkId = Some networkId\<rparr>
              else if type = 4 \<or> type = 5
              then \<lparr>da_type = ''pointer'', da_isScript = (type = 5), da_stakeAddress = None,
                    da_paymentCredential = cred, da_networkId = Some networkId\<rparr>
              else if type = 6 \<or> type = 7
              then \<lparr>da_type = ''enterprise'', da_isScript = (type = 7), da_stakeAddress = None,
                    da_paymentCredential = cred, da_networkId = Some networkId\<rparr>
              else if type = 14 \<or> type = 15
              then \<lparr>da_type = ''reward'', da_isScript = (type = 15), da_stakeAddress = Some address,
                    da_paymentCredential = None, da_networkId = Some networkId\<rparr>
              else unknown_address\<lparr>da_networkId := Some networkId\<rparr>))"

definition decodeShelleyAddress :: "bech32_decode \<Rightarrow> bech32_encode \<Rightarrow> string \<Rightarrow> ShelleyAddress" where
  "decodeShelleyAddress bdec benc address =
     (if address = [] then unknown_address
      else (case bdec address SHELLEY_LIMIT of
              None \<Rightarrow> if list_ex (startsWith address) BYRON_PREFIXES
                      then unknown_address\<lparr>da_type := ''byron''\<rparr> else unknown_address
            | Some (prefix, bytes) \<Rightarrow>
                if prefix \<in> set ADDRESS_PREFIXES then decodeBytes benc address bytes else unknown_address))"

definition paymentCredentialOf :: "bech32_decode \<Rightarrow> bech32_encode \<Rightarrow> string option \<Rightarrow> string option" where
  "paymentCredentialOf bdec benc address =
     (if truthy address then da_paymentCredential (decodeShelleyAddress bdec benc (the address)) else None)"

definition BECH32_MAX_LENGTH :: nat where "BECH32_MAX_LENGTH = 2000"

text \<open>The second decoder, of \<open>validators.ts\<close>: credential hash and whether it is a script's.\<close>

definition extractPaymentCredential :: "bech32_decode \<Rightarrow> string \<Rightarrow> (string \<times> bool) option" where
  "extractPaymentCredential bdec address =
     (case bdec address BECH32_MAX_LENGTH of
        None \<Rightarrow> None
      | Some (_, bytes) \<Rightarrow>
          if length bytes < 29 then None
          else (let addrType = drop_bit 4 (hd bytes)
                in if addrType > 7 then None
                   else Some (hex_of (take 28 (drop 1 bytes)), addrType AND 1 = 1)))"

section \<open>Lemmas\<close>

lemma payload29_hex: "length c = 28 \<Longrightarrow> payload29 header (hex_of c) = header # c"
  by (simp add: payload29_def)

lemma small_nibble_odd: "unat (t::byte) \<le> 7 \<Longrightarrow> t AND 1 = 1 \<longleftrightarrow> unat t \<in> {1, 3, 5, 7}"
proof -
  assume le: "unat t \<le> 7"
  have "t AND 1 = 1 \<longleftrightarrow> bit t 0" by (simp add: and_one_eq mod_2_eq_odd bit_0)
  also have "\<dots> \<longleftrightarrow> bit (unat t) 0" by (simp add: bit_unsigned_iff)
  also have "\<dots> \<longleftrightarrow> odd (unat t)" by (simp only: bit_0)
  also have "\<dots> \<longleftrightarrow> unat t \<in> {1, 3, 5, 7}" using le by simp presburger
  finally show ?thesis .
qed

lemma nibble_le: "(t::byte) \<le> 7 \<longleftrightarrow> unat t \<le> 7"
  by (simp add: word_le_nat_alt)

text \<open>A codec that only the witnesses use: a separator and one character per byte.\<close>

definition demo_enc :: bech32_encode where
  "demo_enc prefix bs = prefix @ CHR ''1'' # map (\<lambda>b. char_of (unat b)) bs"

definition demo_dec :: bech32_decode where
  "demo_dec s limit =
     (if length s > limit then None
      else Some (takeWhile (\<lambda>c. c \<noteq> CHR ''1'') s,
                 map (\<lambda>c. word_of_nat (of_char c)) (drop 1 (dropWhile (\<lambda>c. c \<noteq> CHR ''1'') s))))"

lemma demo_codec:
  assumes "CHR ''1'' \<notin> set p" "length p + length bs < l"
  shows "demo_dec (demo_enc p bs) l = Some (p, bs)"
proof -
  have b: "word_of_nat (of_char (char_of (unat b) :: char)) = b" for b :: byte
  proof -
    have "unat b < 2 ^ LENGTH(8)" by (rule unsigned_less)
    then show ?thesis by simp
  qed
  have "takeWhile (\<lambda>c. c \<noteq> CHR ''1'') (p @ CHR ''1'' # xs) = p"
    "dropWhile (\<lambda>c. c \<noteq> CHR ''1'') (p @ CHR ''1'' # xs) = CHR ''1'' # xs" for xs
    using assms(1) by (induction p) auto
  then show ?thesis using assms(2) b by (simp add: demo_dec_def demo_enc_def comp_def)
qed

lemma demo_codec_shelley:
  assumes "p \<in> set ADDRESS_PREFIXES" "length bs \<le> 57"
  shows "demo_dec (demo_enc p bs) SHELLEY_LIMIT = Some (p, bs)"
  using assms by (intro demo_codec) (auto simp: ADDRESS_PREFIXES_def SHELLEY_LIMIT_def)

section \<open>Properties\<close>

text \<open>
  The two decoders of the code base agree: on an address that decodes under one of the Cardano
  prefixes, \<open>extractPaymentCredential\<close> answers the payment credential of \<open>decodeShelleyAddress\<close>
  together with its script flag, for every header byte and payload length.
\<close>

theorem credential_decoders_agree:
  assumes "address \<noteq> []" "bdec address BECH32_MAX_LENGTH = bdec address SHELLEY_LIMIT"
    and "bdec address SHELLEY_LIMIT = Some (prefix, bytes)" "prefix \<in> set ADDRESS_PREFIXES"
  shows "extractPaymentCredential bdec address
           = (let d = decodeShelleyAddress bdec benc address
              in map_option (\<lambda>c. (c, da_isScript d)) (da_paymentCredential d))"
proof (cases bytes)
  case Nil
  then show ?thesis
    using assms by (simp add: extractPaymentCredential_def decodeShelleyAddress_def decodeBytes_def unknown_address_def)
next
  case (Cons header rest)
  define t where "t = drop_bit 4 header"
  have d: "decodeShelleyAddress bdec benc address = decodeBytes benc address bytes"
    using assms by (simp add: decodeShelleyAddress_def)
  have x: "extractPaymentCredential bdec address =
      (if length bytes < 29 \<or> \<not> unat t \<le> 7 then None else Some (hex_of (take 28 (drop 1 bytes)), unat t \<in> {1, 3, 5, 7}))"
  proof (cases "length bytes < 29 \<or> t > 7")
    case True
    then have "length bytes < 29 \<or> \<not> unat t \<le> 7" by (auto simp: nibble_le [symmetric])
    moreover have "extractPaymentCredential bdec address = None"
      using True assms Cons by (auto simp: extractPaymentCredential_def t_def)
    ultimately show ?thesis by auto
  next
    case False
    then have "\<not> length bytes < 29" "unat t \<le> 7" by (auto simp: nibble_le [symmetric])
    with False show ?thesis
      using assms Cons small_nibble_odd [of t] by (simp add: extractPaymentCredential_def t_def [symmetric])
  qed
  show ?thesis
  proof (cases "unat t \<le> 7")
    case True
    then show ?thesis unfolding d x Let_def by (auto simp: decodeBytes_def Cons t_def [symmetric] Let_def)
  next
    case False
    then show ?thesis unfolding d x Let_def by (auto simp: decodeBytes_def Cons t_def [symmetric] Let_def unknown_address_def)
  qed
qed

theorem credential_decoders_agree_witness:
  "extractPaymentCredential demo_dec (demo_enc ''addr'' (0x71 # replicate 28 7)) = Some (hex_of (replicate 28 7), True)"
proof -
  let ?b = "0x71 # replicate 28 (7::byte)"
  have "demo_dec (demo_enc ''addr'' ?b) BECH32_MAX_LENGTH = Some (''addr'', ?b)"
    and s: "demo_dec (demo_enc ''addr'' ?b) SHELLEY_LIMIT = Some (''addr'', ?b)"
    by (rule demo_codec; simp add: BECH32_MAX_LENGTH_def SHELLEY_LIMIT_def)+
  then have "extractPaymentCredential demo_dec (demo_enc ''addr'' ?b)
      = (let d = decodeShelleyAddress demo_dec demo_enc (demo_enc ''addr'' ?b)
         in map_option (\<lambda>c. (c, da_isScript d)) (da_paymentCredential d))"
    by (intro credential_decoders_agree [where prefix = "''addr''" and bytes = ?b]) (simp_all add: demo_enc_def ADDRESS_PREFIXES_def)
  moreover have "decodeShelleyAddress demo_dec demo_enc (demo_enc ''addr'' ?b) = decodeBytes demo_enc (demo_enc ''addr'' ?b) ?b"
    using s by (simp add: decodeShelleyAddress_def ADDRESS_PREFIXES_def demo_enc_def)
  ultimately show ?thesis by (simp add: decodeBytes_def Let_def high_nibble)
qed

text \<open>
  Encoding and decoding invert each other, given a Bech32 library that does: a base address yields
  the payment credential it was built from, its script flag, and a reward account that decodes to the
  stake credential's kind and network and carries its bytes; the enterprise address of a script hash
  decodes to that hash as a script credential.
\<close>

theorem address_roundtrip:
  assumes codec: "\<And>p bs. p \<in> set ADDRESS_PREFIXES \<Longrightarrow> length bs \<le> 57 \<Longrightarrow> bdec (benc p bs) SHELLEY_LIMIT = Some (p, bs)"
    and nonempty: "\<And>p bs. benc p bs \<noteq> []"
    and "length pay = 28" "length stk = 28" "unat (drop_bit 4 header) = t" "t \<le> 3" "p \<in> set ADDRESS_PREFIXES"
  shows "(let d = decodeShelleyAddress bdec benc (benc p (header # pay @ stk));
              net = (if unat (header AND 0x0f) = 1 then Mainnet else Preview);
              sa = credentialToStakeAddress benc (hex_of stk) (t \<ge> 2) net;
              r = decodeShelleyAddress bdec benc sa
          in da_type d = ''base'' \<and> da_paymentCredential d = Some (hex_of pay) \<and> da_isScript d = odd t
             \<and> da_stakeAddress d = Some sa
             \<and> da_type r = ''reward'' \<and> da_isScript r = (t \<ge> 2) \<and> da_networkId r = Some (if net = Mainnet then 1 else 0)
             \<and> (\<exists>q h. bdec sa SHELLEY_LIMIT = Some (q, h # stk)))
       \<and> (let e = decodeShelleyAddress bdec benc (scriptHashToEnterpriseAddress benc (hex_of pay) network)
          in da_type e = ''enterprise'' \<and> da_isScript e \<and> da_paymentCredential e = Some (hex_of pay))"
proof -
  define net where "net = (if unat (header AND 0x0f) = 1 then Mainnet else Preview)"
  define sa where "sa = credentialToStakeAddress benc (hex_of stk) (t \<ge> 2) net"
  define h :: byte where "h = (if t \<ge> 2 then 0xf0 else 0xe0) OR (if net = Mainnet then 0x01 else 0x00)"
  have dec: "decodeShelleyAddress bdec benc (benc q bs) = decodeBytes benc (benc q bs) bs"
    if "q \<in> set ADDRESS_PREFIXES" "length bs \<le> 57" for q bs
    using codec [OF that] nonempty that by (simp add: decodeShelleyAddress_def)
  define q where "q = (if net = Mainnet then ''stake'' else ''stake_test'')"
  have q: "q \<in> set ADDRESS_PREFIXES" by (simp add: q_def ADDRESS_PREFIXES_def)
  have sa: "sa = benc q (h # stk)"
    by (simp add: sa_def q_def h_def credentialToStakeAddress_def Let_def payload29_hex assms(4))
  have h4: "unat (drop_bit 4 h) = (if t \<ge> 2 then 15 else 14)" "unat (h AND 0x0f) = (if net = Mainnet then 1 else 0)"
    by (simp_all add: h_def high_nibble)
  have r: "decodeShelleyAddress bdec benc sa = decodeBytes benc sa (h # stk)"
    unfolding sa by (rule dec [OF q]) (simp add: assms(4))
  have d: "decodeShelleyAddress bdec benc (benc p (header # pay @ stk)) = decodeBytes benc (benc p (header # pay @ stk)) (header # pay @ stk)"
    by (rule dec) (simp_all add: assms)
  have "odd t \<longleftrightarrow> t = 1 \<or> t = 3" using assms(6) by presburger
  then have base: "da_type (decodeShelleyAddress bdec benc (benc p (header # pay @ stk))) = ''base''"
    "da_paymentCredential (decodeShelleyAddress bdec benc (benc p (header # pay @ stk))) = Some (hex_of pay)"
    "da_isScript (decodeShelleyAddress bdec benc (benc p (header # pay @ stk))) = odd t"
    "da_stakeAddress (decodeShelleyAddress bdec benc (benc p (header # pay @ stk))) = Some sa"
    using assms(3-6) by (simp_all add: d decodeBytes_def Let_def sa_def net_def)
  have reward: "da_type (decodeShelleyAddress bdec benc sa) = ''reward''" "da_isScript (decodeShelleyAddress bdec benc sa) = (t \<ge> 2)"
    "da_networkId (decodeShelleyAddress bdec benc sa) = Some (if net = Mainnet then 1 else 0)"
    by (simp_all add: r decodeBytes_def Let_def h4)
  have stored: "bdec sa SHELLEY_LIMIT = Some (q, h # stk)"
    unfolding sa by (rule codec [OF q]) (simp add: assms(4))
  define e where "e = (if network = Mainnet then ''addr'' else ''addr_test'')"
  define eh :: byte where "eh = (if network = Mainnet then 0x71 else 0x70)"
  have ee: "scriptHashToEnterpriseAddress benc (hex_of pay) network = benc e (eh # pay)"
    by (simp add: scriptHashToEnterpriseAddress_def e_def eh_def payload29_hex assms(3))
  have "decodeShelleyAddress bdec benc (benc e (eh # pay)) = decodeBytes benc (benc e (eh # pay)) (eh # pay)"
    by (rule dec) (simp_all add: e_def ADDRESS_PREFIXES_def assms(3))
  moreover have "unat (drop_bit 4 eh) = 7" by (simp add: eh_def high_nibble)
  ultimately have ent: "da_type (decodeShelleyAddress bdec benc (benc e (eh # pay))) = ''enterprise''"
    "da_isScript (decodeShelleyAddress bdec benc (benc e (eh # pay)))"
    "da_paymentCredential (decodeShelleyAddress bdec benc (benc e (eh # pay))) = Some (hex_of pay)"
    using assms(3) by (simp_all add: decodeBytes_def Let_def)
  show ?thesis
    unfolding Let_def net_def [symmetric] sa_def [symmetric] ee
    using base reward stored ent by blast
qed

theorem address_roundtrip_witness:
  "(let d = decodeShelleyAddress demo_dec demo_enc (demo_enc ''stake'' (0x31 # replicate 28 5 @ replicate 28 9))
    in da_paymentCredential d = Some (hex_of (replicate 28 5)) \<and> da_isScript d)"
  using address_roundtrip [where bdec = demo_dec and benc = demo_enc and pay = "replicate 28 5" and stk = "replicate 28 9"
      and header = "0x31" and t = 3 and p = "''stake''" and network = Mainnet, OF demo_codec_shelley]
  by (simp add: demo_enc_def high_nibble ADDRESS_PREFIXES_def Let_def)

end
