(* ===== verification/Texts.thy ===== *)
theory Texts imports Prelude begin

text \<open>
  Character classes and small parsers that the mappers, the validators and the request parsers share:
  the regular expressions of \<open>srv/utils/const.ts\<close> as predicates on strings, \<open>trim\<close> on code
  units up to 255, and decimal numerals (\<open>BigInt(text)\<close>).
\<close>

definition code_unit :: "char \<Rightarrow> nat" where
  "code_unit c = of_char c"

definition js_white :: "char \<Rightarrow> bool" where
  "js_white c = (let n = code_unit c in 9 \<le> n \<and> n \<le> 13 \<or> n = 32 \<or> n = 160)"

definition trim_text :: "string \<Rightarrow> string" where
  "trim_text s = rev (dropWhile js_white (rev (dropWhile js_white s)))"

definition is_digit :: "char \<Rightarrow> bool" where
  "is_digit c = (48 \<le> code_unit c \<and> code_unit c \<le> 57)"

definition is_lower_hex :: "char \<Rightarrow> bool" where
  "is_lower_hex c = (is_digit c \<or> 97 \<le> code_unit c \<and> code_unit c \<le> 102)"

definition is_hex :: "char \<Rightarrow> bool" where
  "is_hex c = (is_lower_hex c \<or> 65 \<le> code_unit c \<and> code_unit c \<le> 70)"

text \<open>\<open>/^\d+$/\<close>\<close>

definition digits :: "string \<Rightarrow> bool" where
  "digits s \<longleftrightarrow> s \<noteq> [] \<and> list_all is_digit s"

definition decimal_value :: "string \<Rightarrow> int" where
  "decimal_value s = foldl (\<lambda>n c. 10 * n + (int (code_unit c) - 48)) 0 s"

text \<open>The regular expressions on identifiers.\<close>

definition TX_HASH_REGEX :: "string \<Rightarrow> bool" where
  "TX_HASH_REGEX s \<longleftrightarrow> length s = 64 \<and> list_all is_lower_hex s"

definition HEX_64_REGEX :: "string \<Rightarrow> bool" where
  "HEX_64_REGEX s \<longleftrightarrow> length s = 64 \<and> list_all is_lower_hex s"

definition HEX_56_REGEX :: "string \<Rightarrow> bool" where
  "HEX_56_REGEX s \<longleftrightarrow> length s = 56 \<and> list_all is_lower_hex s"

definition ASSET_UNIT_REGEX :: "string \<Rightarrow> bool" where
  "ASSET_UNIT_REGEX s \<longleftrightarrow> 56 \<le> length s \<and> length s \<le> 120 \<and> even (length s) \<and> list_all is_lower_hex s"

definition ED25519_KEY_HASH_REGEX :: "string \<Rightarrow> bool" where
  "ED25519_KEY_HASH_REGEX s \<longleftrightarrow> length s = 56 \<and> list_all is_hex s"

text \<open>Charset of Bech32 data.\<close>

definition bech32_char :: "char \<Rightarrow> bool" where
  "bech32_char c \<longleftrightarrow> c \<in> set ''qpzry9x8gf2tvdw0s3jn54khce6mua7l''"

fun strip_prefix :: "string \<Rightarrow> string \<Rightarrow> string option" where
  "strip_prefix [] s = Some s"
| "strip_prefix (p # ps) [] = None"
| "strip_prefix (p # ps) (c # s) = (if p = c then strip_prefix ps s else None)"

definition POOL_ID_REGEX :: "string \<Rightarrow> bool" where
  "POOL_ID_REGEX s = (case strip_prefix ''pool1'' s of None \<Rightarrow> False | Some r \<Rightarrow> length r = 51 \<and> list_all bech32_char r)"

definition DREP_ID_REGEX :: "string \<Rightarrow> bool" where
  "DREP_ID_REGEX s = (case strip_prefix ''drep1'' s of None \<Rightarrow> False
     | Some r \<Rightarrow> 50 \<le> length r \<and> length r \<le> 60 \<and> list_all bech32_char r)"

section \<open>Lemmas\<close>

lemma lower_hex_is_hex: "is_lower_hex c \<Longrightarrow> is_hex c"
  by (simp add: is_hex_def)

lemma lower_hex_fixed: "is_lower_hex c \<Longrightarrow> lower_char c = c"
  by (auto simp: lower_char_def is_lower_hex_def is_digit_def code_unit_def Let_def)

lemma digit_char_is_digit: "d < 10 \<Longrightarrow> is_digit (digit_char d)"
  by (simp add: is_digit_def code_unit_def of_digit_char)

lemma decimal_value_append: "decimal_value (s @ [c]) = 10 * decimal_value s + (int (code_unit c) - 48)"
  by (simp add: decimal_value_def)

lemma decimal_dec: "digits (dec n) \<and> decimal_value (dec n) = int n"
proof (induction n rule: dec.induct)
  case (1 n)
  have d: "is_digit (digit_char (n mod 10))" "int (code_unit (digit_char (n mod 10))) - 48 = int (n mod 10)"
    by (simp_all add: digit_char_is_digit code_unit_def of_digit_char)
  show ?case
  proof (cases "n < 10")
    case True
    with d show ?thesis by (subst (1 2) dec.simps) (simp add: digits_def decimal_value_def)
  next
    case False
    with 1 have "digits (dec (n div 10))" "decimal_value (dec (n div 10)) = int (n div 10)" by auto
    moreover have "10 * int (n div 10) + int (n mod 10) = int n" by presburger
    ultimately show ?thesis
      using False d by (subst (1 2) dec.simps) (simp add: digits_def decimal_value_append)
  qed
qed

end
