(* ===== verification/ChainMappers.thy ===== *)
theory ChainMappers
  imports Addresses Texts "HOL-Library.Multiset" "HOL-Library.Product_Lexorder" "HOL-Library.List_Lexorder" "HOL-Library.Char_ord"
begin

text \<open>
  The mappers of \<open>srv/utils/mappers.ts\<close> from provider transactions to stored rows: the canonical
  view of a transaction (\<open>ledgerView\<close>), transaction, input, output, asset, certificate, withdrawal,
  redeemer, datum and metadata rows, net amounts of an address, and balances. Quantities, which the
  code parses with \<open>BigInt\<close>, are \<open>int\<close>; text that was decoded from UTF-8 is kept as its bytes.
\<close>

section \<open>Transactions as the backends report them\<close>

record InputLine = TxInputLine +
  i_address :: string
  i_amount :: "Amount list"
  i_data :: UtxoData

datatype label = LNumber "int option" | LText string

record MetadataLabelTx =
  ml_txHash :: string
  ml_label :: label
  ml_json :: "string option"

record TxCertificate =
  ce_certIndex :: nat
  ce_kind :: string
  ce_rest :: string

record TxWithdrawal =
  tw_stakeAddress :: string
  tw_amount :: "int option"

record TxRedeemer =
  rd_purpose :: string
  rd_index :: nat
  rd_rest :: string

record TxDatum =
  td_hash :: string
  td_cbor :: string

record ChainTransaction =
  c_hash :: string
  c_blockHash :: string
  c_blockHeight :: "int option"
  c_slot :: int
  c_index :: int
  c_fee :: "int option"
  c_deposit :: "int option"
  c_spendsCollaterals :: "bool option"
  c_totalCollateral :: "int option"
  c_mint :: "Amount list option"
  c_size :: "int option"
  c_blockTime :: "int option"
  c_inputs :: "InputLine list"
  c_outputs :: "TxOutputLine list"
  c_metadata :: "MetadataLabelTx list"
  c_certificates :: "TxCertificate list option"
  c_withdrawals :: "TxWithdrawal list option"
  c_redeemers :: "TxRedeemer list"
  c_datums :: "TxDatum list"

record TransactionRow = TxRow +
  tr_blockHeight :: "int option"
  tr_blockTime :: "int option"
  tr_slot :: int
  tr_txIndex :: int
  tr_fee :: int
  tr_deposit :: int
  tr_size :: "int option"
  tr_hasInputs :: bool
  tr_hasOutputs :: bool
  tr_hasMetadata :: bool

definition TX_SEQ_SLOT_FACTOR :: int where "TX_SEQ_SLOT_FACTOR = 65536"

definition txSeqOf :: "int \<Rightarrow> int \<Rightarrow> int" where
  "txSeqOf slot txIndex = slot * TX_SEQ_SLOT_FACTOR + txIndex"

definition mapTransaction :: "ChainTransaction \<Rightarrow> TransactionRow" where
  "mapTransaction t =
     \<lparr>t_hash = c_hash t, t_txSeq = Some (txSeqOf (c_slot t) (c_index t)), t_blockHash = Some (c_blockHash t),
      tr_blockHeight = c_blockHeight t, tr_blockTime = c_blockTime t, tr_slot = c_slot t, tr_txIndex = c_index t,
      tr_fee = nullish (c_fee t) 0, tr_deposit = nullish (c_deposit t) 0, tr_size = c_size t,
      tr_hasInputs = (c_inputs t \<noteq> []), tr_hasOutputs = (c_outputs t \<noteq> []), tr_hasMetadata = (c_metadata t \<noteq> [])\<rparr>"

section \<open>Asset units\<close>

text \<open>Well-formed UTF-8 (\<open>TextDecoder\<close> with \<open>fatal\<close>): no overlong forms, no surrogates, up to U+10FFFF.\<close>

definition cont :: "nat \<Rightarrow> nat \<Rightarrow> nat \<Rightarrow> bool" where
  "cont lo hi b \<longleftrightarrow> lo \<le> b \<and> b \<le> hi"

fun utf8_ok :: "nat list \<Rightarrow> bool" where
  "utf8_ok [] = True"
| "utf8_ok (a # bs) =
     (if a \<le> 0x7f then utf8_ok bs
      else if cont 0xc2 0xdf a then (case bs of b # r \<Rightarrow> cont 0x80 0xbf b \<and> utf8_ok r | _ \<Rightarrow> False)
      else if cont 0xe0 0xef a then
        (case bs of
           b # c # r \<Rightarrow> cont (if a = 0xe0 then 0xa0 else 0x80) (if a = 0xed then 0x9f else 0xbf) b
                         \<and> cont 0x80 0xbf c \<and> utf8_ok r
         | _ \<Rightarrow> False)
      else if cont 0xf0 0xf4 a then
        (case bs of
           b # c # d # r \<Rightarrow> cont (if a = 0xf0 then 0x90 else 0x80) (if a = 0xf4 then 0x8f else 0xbf) b
                             \<and> cont 0x80 0xbf c \<and> cont 0x80 0xbf d \<and> utf8_ok r
         | _ \<Rightarrow> False)
      else False)"

definition decodeAssetNameUtf8 :: "string \<Rightarrow> string" where
  "decodeAssetNameUtf8 hex =
     (if hex = [] then hex
      else (let bytes = hex_bytes hex
            in if utf8_ok bytes \<and> 0 \<notin> set bytes then map char_of bytes else hex))"

definition parseAssetUnit :: "string \<Rightarrow> string option \<times> string" where
  "parseAssetUnit u =
     (if u = ''lovelace'' then (None, ''lovelace'')
      else if length u < 56 \<or> \<not> list_all is_hex u then (None, u)
      else (Some (take 56 u), if drop 56 u = [] then [] else decodeAssetNameUtf8 (drop 56 u)))"

section \<open>Child rows\<close>

definition orNullText :: "string option \<Rightarrow> string option" where
  "orNullText v = (if truthy v then v else None)"

definition storedData :: "UtxoData \<Rightarrow> UtxoData" where
  "storedData d = d\<lparr>ud_dataHash := orNullText (ud_dataHash d), ud_inlineDatum := orNullText (ud_inlineDatum d),
     ud_referenceScriptHash := orNullText (ud_referenceScriptHash d)\<rparr>"

definition mapTransactionInput :: "(string option \<Rightarrow> string option) \<Rightarrow> int \<Rightarrow> nat \<times> InputLine \<Rightarrow> StoredInputRow" where
  "mapTransactionInput cred txSeq p =
     (case p of (idx, i) \<Rightarrow>
        \<lparr>si_txSeq = txSeq, si_inputIndex = idx,
         si_address = (if i_address i = [] then None else Some (i_address i)),
         si_data = storedData (i_data i), si_paymentCredential = cred (Some (i_address i)),
         si_spentTxHash = (if i_txHash i = [] then None else Some (i_txHash i)),
         si_spentOutputIndex = Some (i_outputIndex i),
         si_isCollateral = i_isCollateral i, si_isReference = i_isReference i,
         si_hasAddresses = (i_address i \<noteq> []), si_hasAssets = (i_amount i \<noteq> [])\<rparr>)"

definition mapTransactionInputs :: "(string option \<Rightarrow> string option) \<Rightarrow> int \<Rightarrow> InputLine list \<Rightarrow> StoredInputRow list" where
  "mapTransactionInputs cred txSeq ins = map (mapTransactionInput cred txSeq) (enumerate 0 ins)"

definition mapTransactionInputAssets :: "int \<Rightarrow> InputLine list \<Rightarrow> StoredInputAssetRow list" where
  "mapTransactionInputAssets txSeq ins =
     concat (map (\<lambda>(idx, i). map (\<lambda>a. (case parseAssetUnit (am_unit a) of (policyId, assetName) \<Rightarrow>
         \<lparr>sj_txSeq = txSeq, sj_inputIndex = idx, sj_unit = am_unit a, sj_quantity = am_quantity a,
          sj_policyId = policyId, sj_assetName = assetName\<rparr>)) (i_amount i)) (enumerate 0 ins))"

definition outputData :: "TxOutputLine \<Rightarrow> UtxoData" where
  "outputData x = \<lparr>ud_dataHash = o_dataHash x, ud_inlineDatum = o_inlineDatum x,
     ud_referenceScriptHash = o_referenceScriptHash x, ud_referenceScriptSize = o_referenceScriptSize x,
     ud_referenceScriptType = o_referenceScriptType x\<rparr>"

definition mapTransactionOutput :: "(string option \<Rightarrow> string option) \<Rightarrow> int \<Rightarrow> TxOutputLine \<Rightarrow> StoredOutputRow" where
  "mapTransactionOutput cred txSeq x =
     \<lparr>so_txSeq = txSeq, so_outputIndex = o_outputIndex x, so_address = Some (o_address x),
      so_data = storedData (outputData x), so_paymentCredential = cred (Some (o_address x)),
      so_hasAddresses = (o_address x \<noteq> []), so_hasAssets = (o_amount x \<noteq> [])\<rparr>"

definition mapTransactionOutputs :: "(string option \<Rightarrow> string option) \<Rightarrow> int \<Rightarrow> TxOutputLine list \<Rightarrow> StoredOutputRow list" where
  "mapTransactionOutputs cred txSeq outs = map (mapTransactionOutput cred txSeq) outs"

definition mapTransactionOutputAssets :: "int \<Rightarrow> TxOutputLine list \<Rightarrow> StoredAssetRow list" where
  "mapTransactionOutputAssets txSeq outs =
     concat (map (\<lambda>x. map (\<lambda>a. (case parseAssetUnit (am_unit a) of (policyId, assetName) \<Rightarrow>
         \<lparr>sa_txSeq = txSeq, sa_outputIndex = o_outputIndex x, sa_unit = am_unit a, sa_quantity = am_quantity a,
          sa_policyId = policyId, sa_assetName = assetName\<rparr>)) (o_amount x)) outs)"

text \<open>Keys of the hash-keyed tables, printed with a separator.\<close>

definition key2 :: "nat \<Rightarrow> string \<Rightarrow> string" where
  "key2 n s = s @ ''#'' @ dec n"

definition mapTransactionCertificates :: "string \<Rightarrow> TxCertificate list \<Rightarrow> hash_row list" where
  "mapTransactionCertificates txHash cs = map (\<lambda>c. ((txHash, key2 (ce_certIndex c) (ce_kind c)), ce_rest c)) cs"

definition signed_dec :: "int \<Rightarrow> string" where
  "signed_dec n = (if n < 0 then CHR ''-'' # dec (nat (- n)) else dec (nat n))"

definition mapTransactionWithdrawals :: "string \<Rightarrow> TxWithdrawal list \<Rightarrow> hash_row list" where
  "mapTransactionWithdrawals txHash ws =
     map (\<lambda>w. ((txHash, tw_stakeAddress w), signed_dec (nullish (tw_amount w) 0)))
       (filter (\<lambda>w. tw_stakeAddress w \<noteq> []) ws)"

definition mapTransactionRedeemers :: "string \<Rightarrow> TxRedeemer list \<Rightarrow> hash_row list" where
  "mapTransactionRedeemers txHash rs = map (\<lambda>r. ((txHash, key2 (rd_index r) (rd_purpose r)), rd_rest r)) rs"

definition mapTransactionDatums :: "string \<Rightarrow> TxDatum list \<Rightarrow> hash_row list" where
  "mapTransactionDatums txHash ds = map (\<lambda>d. ((txHash, td_hash d), td_cbor d)) ds"

text \<open>
  A metadata label as the int64 key: \<open>BigInt.asIntN(64, _)\<close>. The code answers it as a number or, beyond
  the safe integers, as its decimal text; both stand for this integer.
\<close>

definition asInt64 :: "int \<Rightarrow> int" where
  "asInt64 n = sint (word_of_int n :: 64 word)"

definition metadataIdFor :: "label \<Rightarrow> int option" where
  "metadataIdFor l =
     (case l of
        LNumber n \<Rightarrow> map_option asInt64 n
      | LText s \<Rightarrow> (let t = trim_text s in if digits t then Some (asInt64 (decimal_value t)) else None))"

definition mapTransactionMetadata :: "MetadataLabelTx list \<Rightarrow> hash_row list" where
  "mapTransactionMetadata ls =
     List.map_filter (\<lambda>l. map_option (\<lambda>k. ((ml_txHash l, signed_dec k), nullish (ml_json l) [])) (metadataIdFor (ml_label l))) ls"

section \<open>The canonical view\<close>

definition input_rank :: "'a TxInputLine_scheme \<Rightarrow> nat" where
  "input_rank i = (if i_isReference i then 2 else if i_isCollateral i then 1 else 0)"

text \<open>\<open>rank(a) - rank(b) || compareOutRef(a, b)\<close> compares these keys.\<close>

definition outref_key :: "InputLine \<Rightarrow> nat \<times> string \<times> nat" where
  "outref_key i = (input_rank i, toLowerCase (i_txHash i), i_outputIndex i)"

definition ledgerInputOrder :: "InputLine list \<Rightarrow> InputLine list" where
  "ledgerInputOrder ins = sort_key outref_key ins"

definition ledgerView :: "ChainTransaction \<Rightarrow> ChainTransaction" where
  "ledgerView t =
     (let ins = ledgerInputOrder (c_inputs t) in
      case c_spendsCollaterals t of
        None \<Rightarrow> t\<lparr>c_inputs := ins\<rparr>
      | Some failed \<Rightarrow>
          t\<lparr>c_inputs := (if failed then filter (\<lambda>i. i_isCollateral i \<or> i_isReference i) ins else ins),
            c_outputs := filter (\<lambda>x. if failed then o_isCollateral x else \<not> o_isCollateral x) (c_outputs t),
            c_mint := (if failed then None else c_mint t)\<rparr>)"

section \<open>Balances\<close>

definition addTo :: "string \<Rightarrow> int \<Rightarrow> (string, int) jmap \<Rightarrow> (string, int) jmap" where
  "addTo u q m = mput m u (nullish (mget m u) 0 + q)"

definition isLovelace :: "Amount \<Rightarrow> bool" where
  "isLovelace a = (am_unit a = ''lovelace'')"

text \<open>Lovelace of a line's amounts, and its native amounts added with a sign.\<close>

definition sumLovelace :: "Amount list \<Rightarrow> int" where
  "sumLovelace as = sum_list (map am_quantity (filter isLovelace as))"

definition addNative :: "int \<Rightarrow> Amount list \<Rightarrow> (string, int) jmap \<Rightarrow> (string, int) jmap" where
  "addNative sign as m = fold (\<lambda>a m. addTo (am_unit a) (sign * am_quantity a) m) (filter (\<lambda>a. \<not> isLovelace a) as) m"

definition calculateNetAmounts :: "string \<Rightarrow> ChainTransaction \<Rightarrow> int \<times> (string \<times> int) list" where
  "calculateNetAmounts addr t =
     (let ins = filter (\<lambda>i. i_address i = addr) (c_inputs t);
          outs = filter (\<lambda>x. o_address x = addr) (c_outputs t);
          balances = fold (\<lambda>x. addNative 1 (o_amount x)) outs (fold (\<lambda>i. addNative (- 1) (i_amount i)) ins [])
      in (sum_list (map (\<lambda>x. sumLovelace (o_amount x)) outs) - sum_list (map (\<lambda>i. sumLovelace (i_amount i)) ins),
          filter (\<lambda>(u, q). q \<noteq> 0) balances))"

record AddressTransactionRow =
  at_address :: string
  at_txHash :: string
  at_netAmount :: int
  at_blockTime :: "int option"
  at_netAssets :: "(string \<times> int) list option"
  at_hasAssets :: bool

definition mapAddressTransactions :: "string \<Rightarrow> ChainTransaction list \<Rightarrow> AddressTransactionRow list" where
  "mapAddressTransactions addr txs =
     map (\<lambda>t. (case calculateNetAmounts addr t of (netLovelace, netAssets) \<Rightarrow>
        \<lparr>at_address = addr, at_txHash = c_hash t, at_netAmount = netLovelace, at_blockTime = c_blockTime t,
         at_netAssets = (if netAssets = [] then None else Some netAssets), at_hasAssets = (netAssets \<noteq> [])\<rparr>)) txs"

definition sumUtxoAmounts :: "Amount list list \<Rightarrow> Amount list" where
  "sumUtxoAmounts amounts =
     map (\<lambda>(u, q). \<lparr>am_unit = u, am_quantity = q\<rparr>)
       (fold (\<lambda>as m. fold (\<lambda>a m. addTo (am_unit a) (am_quantity a) m) as m) amounts [(''lovelace'', 0)])"

section \<open>Lemmas\<close>

lemma sort_key_unique:
  assumes "mset xs = mset ys" "distinct (map f xs)"
  shows "sort_key f xs = sort_key f ys"
proof (rule properties_for_sort_key)
  have "distinct (map f (sort_key f ys))"
    using assms by (metis mset_eq_imp_distinct_iff mset_map mset_sort)
  show "mset (sort_key f ys) = mset xs" using assms(1) by simp
  have one: "filter (\<lambda>x. f k = f x) zs = [k]" if "k \<in> set zs" "distinct (map f zs)" for k zs
    using that
  proof (induction zs)
    case (Cons z zs)
    show ?case
    proof (cases "k = z")
      case True
      with Cons.prems have "\<forall>x \<in> set zs. f k \<noteq> f x" by auto
      with True show ?thesis by (simp add: filter_empty_conv)
    next
      case False
      with Cons show ?thesis by (auto simp: rev_image_eqI)
    qed
  qed simp
  fix k assume "k \<in> set (sort_key f ys)"
  then have "k \<in> set xs" using assms(1) by (metis mset_eq_setD set_sort)
  with \<open>k \<in> set (sort_key f ys)\<close> show "filter (\<lambda>x. f k = f x) (sort_key f ys) = filter (\<lambda>x. f k = f x) xs"
    using one [of k "sort_key f ys"] one [of k xs] \<open>distinct (map f (sort_key f ys))\<close> assms(2) by simp
qed simp

definition unitSum :: "string \<Rightarrow> Amount list \<Rightarrow> int" where
  "unitSum u as = sum_list (map am_quantity (filter (\<lambda>a. am_unit a = u) as))"

lemma unitSum_simps [simp]:
  "unitSum u [] = 0" "unitSum u (a # as) = (if am_unit a = u then am_quantity a else 0) + unitSum u as"
  by (simp_all add: unitSum_def)

lemma addTo_get: "nullish (mget (addTo u q m) v) 0 = nullish (mget m v) 0 + (if v = u then q else 0)"
  by (simp add: addTo_def)

lemma addNative_get:
  assumes "u \<noteq> ''lovelace''"
  shows "nullish (mget (addNative sign as m) u) 0 = nullish (mget m u) 0 + sign * unitSum u as"
  by (induction as arbitrary: m)
     (auto simp: addNative_def addTo_get isLovelace_def assms algebra_simps)

lemma fold_addNative_get:
  assumes "u \<noteq> ''lovelace''"
  shows "nullish (mget (fold (\<lambda>x. addNative sign (am x)) xs m) u) 0
       = nullish (mget m u) 0 + sign * sum_list (map (\<lambda>x. unitSum u (am x)) xs)"
  by (induction xs arbitrary: m) (simp_all add: addNative_get assms algebra_simps)

lemma addNative_wf: "jmap_wf m \<Longrightarrow> jmap_wf (addNative sign as m)"
  unfolding addNative_def addTo_def by (rule fold_invar) auto

lemma fold_addNative_wf: "jmap_wf m \<Longrightarrow> jmap_wf (fold (\<lambda>x. addNative sign (am x)) xs m)"
  by (rule fold_invar) (auto simp: addNative_wf)

lemma mget_map_of: "jmap_wf m \<Longrightarrow> mget m k = map_of m k"
  by (induction m) (auto simp: mget_def jmap_wf_def)

lemma map_of_filter_snd:
  "distinct (map fst m) \<Longrightarrow> map_of (filter (\<lambda>(u, q). q \<noteq> 0) m) k = (case map_of m k of Some q \<Rightarrow> if q = 0 then None else Some q | None \<Rightarrow> None)"
proof (induction m)
  case (Cons p m)
  obtain u q where p: "p = (u, q)" by (cases p) auto
  have "map_of m u = None" using Cons.prems p by (simp add: map_of_eq_None_iff)
  with Cons p show ?case by auto
qed simp

lemma net_asset:
  assumes "u \<noteq> ''lovelace''"
  shows "nullish (map_of (snd (calculateNetAmounts addr t)) u) 0
       = sum_list (map (\<lambda>x. unitSum u (o_amount x)) (filter (\<lambda>x. o_address x = addr) (c_outputs t)))
         - sum_list (map (\<lambda>i. unitSum u (i_amount i)) (filter (\<lambda>i. i_address i = addr) (c_inputs t)))"
proof -
  define m where "m = fold (\<lambda>x. addNative 1 (o_amount x)) (filter (\<lambda>x. o_address x = addr) (c_outputs t))
     (fold (\<lambda>i. addNative (- 1) (i_amount i)) (filter (\<lambda>i. i_address i = addr) (c_inputs t)) [])"
  have "jmap_wf m" unfolding m_def by (intro fold_addNative_wf) simp
  then have "nullish (map_of (filter (\<lambda>(u, q). q \<noteq> 0) m) u) 0 = nullish (mget m u) 0"
    by (auto simp: map_of_filter_snd mget_map_of jmap_wf_def split: option.split)
  then show ?thesis
    by (simp add: calculateNetAmounts_def Let_def m_def [symmetric]) (simp add: m_def fold_addNative_get assms)
qed

lemma sum_by_key:
  assumes "distinct A" "\<forall>x \<in> set xs. k x \<in> set A"
  shows "(\<Sum>a\<leftarrow>A. sum_list (map g (filter (\<lambda>x. k x = a) xs))) = sum_list (map (g :: _ \<Rightarrow> int) xs)"
  using assms(2)
proof (induction xs)
  case (Cons x xs)
  have "(\<Sum>a\<leftarrow>A. sum_list (map g (filter (\<lambda>y. k y = a) (x # xs))))
      = (\<Sum>a\<leftarrow>A. (if k x = a then g x else 0) + sum_list (map g (filter (\<lambda>y. k y = a) xs)))"
    by (rule arg_cong [where f = sum_list], rule map_cong) auto
  also have "\<dots> = (\<Sum>a\<leftarrow>A. if k x = a then g x else 0) + sum_list (map g xs)"
    using Cons by (simp add: sum_list_addf)
  also have "(\<Sum>a\<leftarrow>A. if k x = a then g x else 0) = g x"
    using Cons.prems assms(1) by (subst sum_list_distinct_conv_sum_set) auto
  finally show ?case by simp
qed simp

section \<open>Properties\<close>

text \<open>
  C30. The canonical view does not depend on the source: two reports of one transaction that agree on
  the inputs and outputs the ledger applied, in whatever order the inputs come and whatever else is
  reported (collateral that was not taken, inputs of a failed script, the return that was not paid),
  have the same view; and the view of a view is the view.
\<close>

definition applied_input :: "bool \<Rightarrow> InputLine \<Rightarrow> bool" where
  "applied_input failed i \<longleftrightarrow> (failed \<longrightarrow> i_isCollateral i \<or> i_isReference i)"

definition applied_output :: "bool \<Rightarrow> TxOutputLine \<Rightarrow> bool" where
  "applied_output failed x = (if failed then o_isCollateral x else \<not> o_isCollateral x)"

definition rest_of_tx :: "ChainTransaction \<Rightarrow> ChainTransaction" where
  "rest_of_tx t = t\<lparr>c_inputs := [], c_outputs := [], c_mint := None\<rparr>"

lemma applied_fun:
  "applied_input True = (\<lambda>i. i_isCollateral i \<or> i_isReference i)" "applied_input False = (\<lambda>_. True)"
  "applied_output True = o_isCollateral" "applied_output False = (\<lambda>x. \<not> o_isCollateral x)"
  by (simp_all add: fun_eq_iff applied_input_def applied_output_def)

lemma ledgerView_known:
  "c_spendsCollaterals t = Some failed \<Longrightarrow> ledgerView t =
     t\<lparr>c_inputs := sort_key outref_key (filter (applied_input failed) (c_inputs t)),
       c_outputs := filter (applied_output failed) (c_outputs t), c_mint := (if failed then None else c_mint t)\<rparr>"
  by (cases failed) (simp_all add: ledgerView_def ledgerInputOrder_def Let_def applied_fun filter_sort)

lemma sort_key_again: "sort_key f (sort_key f xs) = sort_key f xs"
  by (rule sort_key_id_if_sorted) simp


text \<open>Two sources of one failed transaction: Ogmios omits what was not applied, Koios lists it.\<close>

definition sample_input :: "string \<Rightarrow> nat \<Rightarrow> bool \<Rightarrow> string \<Rightarrow> int \<Rightarrow> InputLine" where
  "sample_input h n collateral address lovelace =
     \<lparr>i_txHash = h, i_outputIndex = n, i_isReference = False, i_isCollateral = collateral, i_address = address,
      i_amount = [\<lparr>am_unit = ''lovelace'', am_quantity = lovelace\<rparr>],
      i_data = \<lparr>ud_dataHash = None, ud_inlineDatum = None, ud_referenceScriptHash = None,
               ud_referenceScriptSize = None, ud_referenceScriptType = None\<rparr>\<rparr>"

definition sample_output :: "nat \<Rightarrow> bool \<Rightarrow> string \<Rightarrow> int \<Rightarrow> TxOutputLine" where
  "sample_output n collateral address lovelace =
     \<lparr>o_outputIndex = n, o_address = address, o_amount = [\<lparr>am_unit = ''lovelace'', am_quantity = lovelace\<rparr>],
      o_isCollateral = collateral, o_dataHash = None, o_inlineDatum = None, o_referenceScriptHash = None,
      o_referenceScriptSize = None, o_referenceScriptType = None\<rparr>"

definition sample_tx :: "bool \<Rightarrow> InputLine list \<Rightarrow> TxOutputLine list \<Rightarrow> ChainTransaction" where
  "sample_tx failed ins outs =
     \<lparr>c_hash = ''t'', c_blockHash = ''b'', c_blockHeight = Some 1, c_slot = 10, c_index = 0, c_fee = Some 2,
      c_deposit = None, c_spendsCollaterals = Some failed, c_totalCollateral = None, c_mint = None, c_size = None,
      c_blockTime = None, c_inputs = ins, c_outputs = outs, c_metadata = [], c_certificates = None,
      c_withdrawals = None, c_redeemers = [], c_datums = []\<rparr>"

lemmas sample_tx_defs = sample_tx_def sample_input_def sample_output_def


text \<open>
  Net amounts balance: summed over the addresses of a transaction, the net lovelace and the net
  quantity of every asset that the rows of its addresses get are the outputs minus the inputs, so no
  value is lost or counted twice between two addresses.
\<close>

theorem net_amounts_balance:
  assumes "distinct A" "\<forall>i \<in> set (c_inputs t). i_address i \<in> set A" "\<forall>x \<in> set (c_outputs t). o_address x \<in> set A"
    and "u \<noteq> ''lovelace''"
  shows "(\<Sum>a\<leftarrow>A. fst (calculateNetAmounts a t))
           = (\<Sum>x\<leftarrow>c_outputs t. sumLovelace (o_amount x)) - (\<Sum>i\<leftarrow>c_inputs t. sumLovelace (i_amount i))
       \<and> (\<Sum>a\<leftarrow>A. nullish (map_of (snd (calculateNetAmounts a t)) u) 0)
           = (\<Sum>x\<leftarrow>c_outputs t. unitSum u (o_amount x)) - (\<Sum>i\<leftarrow>c_inputs t. unitSum u (i_amount i))"
proof
  show "(\<Sum>a\<leftarrow>A. fst (calculateNetAmounts a t))
      = (\<Sum>x\<leftarrow>c_outputs t. sumLovelace (o_amount x)) - (\<Sum>i\<leftarrow>c_inputs t. sumLovelace (i_amount i))"
    by (simp add: calculateNetAmounts_def Let_def sum_list_subtractf sum_by_key [OF assms(1,2)] sum_by_key [OF assms(1,3)])
  show "(\<Sum>a\<leftarrow>A. nullish (map_of (snd (calculateNetAmounts a t)) u) 0)
      = (\<Sum>x\<leftarrow>c_outputs t. unitSum u (o_amount x)) - (\<Sum>i\<leftarrow>c_inputs t. unitSum u (i_amount i))"
    by (simp add: net_asset [OF assms(4)] sum_list_subtractf sum_by_key [OF assms(1,2)] sum_by_key [OF assms(1,3)])
qed

theorem net_amounts_balance_witness:
  "(\<Sum>a\<leftarrow>[''w'', ''v'']. fst (calculateNetAmounts a (sample_tx False [sample_input ''a'' 0 False ''w'' 10] [sample_output 0 False ''v'' 8])))
   = (8::int) - 10"
  using net_amounts_balance [of "[''w'', ''v'']"
      "sample_tx False [sample_input ''a'' 0 False ''w'' 10] [sample_output 0 False ''v'' 8]" "''x''"]
  by (simp add: sample_tx_defs sumLovelace_def isLovelace_def)

text \<open>
  The inputs of a valid transaction include the collateral it put up, which the ledger did not take.
  The net amount subtracts it all the same: this wallet paid 2 lovelace and its row says 7.
\<close>

theorem collateral_counted_as_spent:
  "map at_netAmount (mapAddressTransactions ''w''
     [ledgerView (sample_tx False [sample_input ''a'' 0 False ''w'' 10, sample_input ''b'' 0 True ''w'' 5]
        [sample_output 0 False ''w'' 8])]) = [- 7]"
  by (simp add: sample_tx_defs mapAddressTransactions_def calculateNetAmounts_def ledgerView_def ledgerInputOrder_def
      outref_key_def input_rank_def toLowerCase_def lower_char_def sumLovelace_def isLovelace_def Let_def)

lemma trim_digits:
  assumes "digits s"
  shows "trim_text s = s"
proof -
  have w: "dropWhile js_white t = t" if "list_all is_digit t" for t
    using that by (cases t) (auto simp: is_digit_def js_white_def Let_def)
  have "list_all is_digit s" "list_all is_digit (rev s)" using assms by (simp_all add: digits_def list_all_iff)
  then show ?thesis using w by (simp add: trim_text_def)
qed

lemma asInt64_inject:
  assumes "0 \<le> m" "m < 2 ^ 64" "0 \<le> n" "n < 2 ^ 64"
  shows "asInt64 m = asInt64 n \<longleftrightarrow> m = n"
proof
  assume "asInt64 m = asInt64 n"
  then have "(word_of_int m :: 64 word) = word_of_int n" unfolding asInt64_def by (rule signed_word_eqI)
  then have "take_bit 64 m = take_bit 64 n" by (simp add: word_of_int_eq_iff)
  then show "m = n" using assms by (simp add: take_bit_eq_mod)
qed simp

text \<open>
  Metadata rows keep their labels apart: every uint64 label, given as a number or as its decimal
  text, has an int64 key, and two labels have the same key only if they are equal.
\<close>

theorem metadata_ids_distinct:
  assumes "m < 2 ^ 64" "n < (2::nat) ^ 64"
  shows "\<exists>k l. metadataIdFor (LText (dec m)) = Some k \<and> metadataIdFor (LNumber (Some (int m))) = Some k
           \<and> metadataIdFor (LText (dec n)) = Some l \<and> (k = l \<longleftrightarrow> m = n) \<and> - (2 ^ 63) \<le> k \<and> k < 2 ^ 63"
proof -
  have id: "metadataIdFor (LText (dec j)) = Some (asInt64 (int j))" for j
    using decimal_dec [of j] by (simp add: metadataIdFor_def trim_digits Let_def)
  have "int m < 2 ^ 64" "int n < 2 ^ 64" using assms by (metis of_nat_less_iff of_nat_numeral of_nat_power)+
  then have "asInt64 (int m) = asInt64 (int n) \<longleftrightarrow> m = n" by (simp add: asInt64_inject)
  moreover have "- (2 ^ 63) \<le> asInt64 (int m)" "asInt64 (int m) < 2 ^ 63"
    using sint_greater_eq [of "word_of_int (int m) :: 64 word"] sint_less [of "word_of_int (int m) :: 64 word"]
    by (simp_all add: asInt64_def)
  ultimately show ?thesis using id by (auto simp: metadataIdFor_def)
qed

theorem metadata_ids_distinct_witness:
  "metadataIdFor (LText (dec 721)) \<noteq> metadataIdFor (LText (dec 18446744073709551615))"
  using metadata_ids_distinct [of 721 18446744073709551615] by auto

end
