(* ===== verification/BlockIndex.thy ===== *)
theory BlockIndex imports ChainMappers LedgerSums begin

text \<open>
  What the crawler does with one block (\<open>indexBlockFull\<close> of \<open>srv/blockchain/cardano-indexer.ts\<close>):
  the inputs of a chain-sync block are resolved from the block itself, the UTxO set and the stored
  outputs; the fee of a failed script is settled; mint and burn rows are derived; rows of another fork
  that hold one of the block's keys are dropped; and every row of the block is written. The epoch memo,
  the asset catalogue and the CIP-68 decimals, which need the backends, are not part of it; whether the
  block is due for the UTxO set is decided in \<open>CrawlerPersist\<close> and is an argument here.
\<close>

section \<open>Resolving inputs\<close>

definition copyUtxoData :: "UtxoData \<Rightarrow> InputLine \<Rightarrow> InputLine" where
  "copyUtxoData out i =
     (let d = i_data i in
      i\<lparr>i_data :=
        \<lparr>ud_dataHash = orElse (ud_dataHash d) (ud_dataHash out),
         ud_inlineDatum = orElse (ud_inlineDatum d) (ud_inlineDatum out),
         ud_referenceScriptHash = orElse (ud_referenceScriptHash d) (ud_referenceScriptHash out),
         ud_referenceScriptSize = orElse (ud_referenceScriptSize d) (ud_referenceScriptSize out),
         ud_referenceScriptType = orElse (ud_referenceScriptType d) (ud_referenceScriptType out)\<rparr>\<rparr>)"

definition utxoDataOf :: "TxOutputLine \<Rightarrow> UtxoData" where
  "utxoDataOf x = outputData x"

definition ledgerData :: "LedgerUtxoRow \<Rightarrow> UtxoData" where
  "ledgerData r = \<lparr>ud_dataHash = u_dataHash r, ud_inlineDatum = u_inlineDatum r,
     ud_referenceScriptHash = u_referenceScriptHash r, ud_referenceScriptSize = u_referenceScriptSize r,
     ud_referenceScriptType = u_referenceScriptType r\<rparr>"

definition inputKey :: "InputLine \<Rightarrow> string" where
  "inputKey i = outpoint (i_txHash i) (i_outputIndex i)"

definition blockOutputs :: "ChainTransaction list \<Rightarrow> (string, TxOutputLine) jmap" where
  "blockOutputs txs =
     fold (\<lambda>(h, x) m. mput m (outpoint h (o_outputIndex x)) x)
       (concat (map (\<lambda>t. map (Pair (c_hash t)) (c_outputs t)) txs)) []"

definition pendingInputs :: "(string, TxOutputLine) jmap \<Rightarrow> ChainTransaction list \<Rightarrow> InputLine list" where
  "pendingInputs bo txs = filter (\<lambda>i. i_address i = [] \<and> mget bo (inputKey i) = None) (concat (map c_inputs txs))"

text \<open>Stored outputs and their amounts, read per source transaction in chunks and keyed by outpoint.\<close>

definition hashBySeq :: "chain_db \<Rightarrow> string list \<Rightarrow> (int, string) jmap" where
  "hashBySeq db hashes =
     fold (\<lambda>k m. case k_txSeq k of None \<Rightarrow> m | Some s \<Rightarrow> mput m s (k_hash k)) (readTxKeys db hashes) []"

definition storedOutputs :: "chain_db \<Rightarrow> (int, string) jmap \<Rightarrow> (string, StoredOutputRow) jmap" where
  "storedOutputs db hs =
     fold (\<lambda>r m. mput m (outpoint (nullish (mget hs (so_txSeq r)) ''undefined'') (so_outputIndex r)) r)
       (concat (map (\<lambda>seqChunk. filter (\<lambda>r. so_txSeq r \<in> set seqChunk) (cd_outputs db)) (chunks IN_CHUNK (mkeys hs)))) []"

definition storedAmounts :: "chain_db \<Rightarrow> (int, string) jmap \<Rightarrow> (string, Amount list) jmap" where
  "storedAmounts db hs =
     fold (\<lambda>r m. let k = outpoint (nullish (mget hs (sa_txSeq r)) ''undefined'') (sa_outputIndex r)
                in mput m k (nullish (mget m k) [] @ [\<lparr>am_unit = sa_unit r, am_quantity = sa_quantity r\<rparr>]))
       (concat (map (\<lambda>seqChunk. filter (\<lambda>r. sa_txSeq r \<in> set seqChunk) (cd_outputAssets db)) (chunks IN_CHUNK (mkeys hs)))) []"

definition fromStored :: "(string, StoredOutputRow) jmap \<Rightarrow> (string, Amount list) jmap \<Rightarrow> InputLine \<Rightarrow> InputLine" where
  "fromStored outByKey amtByKey i =
     (let key = inputKey i;
          i1 = (case mget outByKey key of
                  None \<Rightarrow> i
                | Some r \<Rightarrow> copyUtxoData (so_data r) (case so_address r of None \<Rightarrow> i | Some a \<Rightarrow> i\<lparr>i_address := a\<rparr>))
      in case mget amtByKey key of None \<Rightarrow> i1 | Some amt \<Rightarrow> i1\<lparr>i_amount := amt\<rparr>)"

definition fromLedger :: "LedgerLookup option \<Rightarrow> InputLine \<Rightarrow> InputLine option" where
  "fromLedger lk i =
     (case lk of
        None \<Rightarrow> None
      | Some l \<Rightarrow>
          (case mget (lk_rows l) (inputKey i) of
             None \<Rightarrow> None
           | Some row \<Rightarrow>
               Some (copyUtxoData (ledgerData row)
                 (i\<lparr>i_address := u_address row, i_amount := ledgerRowAmount row (nullish (mget (lk_assets l) (inputKey i)) [])\<rparr>))))"

definition resolveInput ::
  "(string, TxOutputLine) jmap \<Rightarrow> LedgerLookup option \<Rightarrow> (string, StoredOutputRow) jmap \<Rightarrow> (string, Amount list) jmap
     \<Rightarrow> InputLine \<Rightarrow> InputLine" where
  "resolveInput bo lk outByKey amtByKey i =
     (if i_address i \<noteq> [] then i
      else (case mget bo (inputKey i) of
              Some x \<Rightarrow> copyUtxoData (utxoDataOf x) (i\<lparr>i_address := o_address x, i_amount := o_amount x\<rparr>)
            | None \<Rightarrow> (case fromLedger lk i of Some i1 \<Rightarrow> i1 | None \<Rightarrow> fromStored outByKey amtByKey i)))"

definition resolveInputs ::
  "chain_db \<Rightarrow> LedgerLookup option \<Rightarrow> ChainTransaction list \<Rightarrow> ChainTransaction list \<times> LedgerLookup option" where
  "resolveInputs db ledger txs =
     (let bo = blockOutputs txs;
          unresolved = pendingInputs bo txs;
          lk = (if unresolved = [] then ledger
                else map_option (readLedgerOutputs (cd_ledger db) (map i_txHash unresolved)) ledger);
          hs = hashBySeq db (jset (map i_txHash (filter (\<lambda>i. fromLedger lk i = None) unresolved)))
      in (map (\<lambda>t. t\<lparr>c_inputs := map (resolveInput bo lk (storedOutputs db hs) (storedAmounts db hs)) (c_inputs t)\<rparr>) txs, lk))"

section \<open>The fee of a failed script\<close>

definition chargedCollateral :: "ChainTransaction \<Rightarrow> int option" where
  "chargedCollateral t =
     (let collateral = filter i_isCollateral (c_inputs t);
          consumed = sum_list (map (\<lambda>i. lovelaceOf (i_amount i)) collateral);
          returned = sum_list (map (\<lambda>x. lovelaceOf (o_amount x)) (filter o_isCollateral (c_outputs t)))
      in if c_spendsCollaterals t \<noteq> Some True \<or> c_totalCollateral t \<noteq> None then None
         else if collateral = [] then None
         else if list_ex (\<lambda>i. i_address i = []) collateral then None
         else if consumed - returned < 0 then None
         else Some (consumed - returned))"

definition applyCollateralFees :: "int option \<Rightarrow> ChainTransaction list \<Rightarrow> int option \<times> ChainTransaction list" where
  "applyCollateralFees blockFees txs =
     (let corrected = list_ex (\<lambda>t. chargedCollateral t \<noteq> None) txs;
          txs1 = map (\<lambda>t. case chargedCollateral t of None \<Rightarrow> t | Some c \<Rightarrow> t\<lparr>c_fee := Some c\<rparr>) txs
      in (if corrected then Some (sum_list (map (\<lambda>t. nullish (c_fee t) 0) txs1)) else blockFees, txs1))"

section \<open>Mint and burn\<close>

datatype mint_action = Mint | Burn

record AssetHistoryEntry =
  ah_unit :: string
  ah_txHash :: string
  ah_action :: mint_action
  ah_quantity :: int
  ah_blockTime :: "int option"
  ah_blockHeight :: "int option"

record BlockData =
  bd_hash :: string
  bd_slot :: "int option"
  bd_height :: "int option"
  bd_time :: "int option"
  bd_fees :: "int option"

text \<open>The net quantity per unit; \<open>None\<close>: nothing is recorded for this transaction.\<close>

definition mintDelta :: "ChainTransaction \<Rightarrow> (string, int) jmap option" where
  "mintDelta t =
     (case c_mint t of
        Some mint \<Rightarrow> Some (addNative 1 mint [])
      | None \<Rightarrow>
          if c_spendsCollaterals t = Some True then None
          else (let consumed = filter (\<lambda>i. \<not> i_isReference i \<and> \<not> i_isCollateral i) (c_inputs t)
                in if list_ex (\<lambda>i. i_address i = []) consumed then None
                   else Some (fold (\<lambda>i. addNative (- 1) (i_amount i)) consumed
                          (fold (\<lambda>x. addNative 1 (o_amount x)) (filter (\<lambda>x. \<not> o_isCollateral x) (c_outputs t)) []))))"

definition historyEntries :: "BlockData \<Rightarrow> ChainTransaction \<Rightarrow> AssetHistoryEntry list" where
  "historyEntries block t =
     (case mintDelta t of
        None \<Rightarrow> []
      | Some net \<Rightarrow>
          map (\<lambda>(u, q). \<lparr>ah_unit = u, ah_txHash = c_hash t, ah_action = (if q > 0 then Mint else Burn),
                 ah_quantity = \<bar>q\<bar>, ah_blockTime = bd_time block, ah_blockHeight = bd_height block\<rparr>)
            (filter (\<lambda>(u, q). q \<noteq> 0) net))"

definition buildAssetHistoryRows :: "BlockData \<Rightarrow> ChainTransaction list \<Rightarrow> AssetHistoryEntry list" where
  "buildAssetHistoryRows block txs = concat (map (historyEntries block) txs)"

definition collectBlockUnits :: "ChainTransaction list \<Rightarrow> AssetHistoryEntry list \<Rightarrow> string list" where
  "collectBlockUnits txs rows =
     jset (filter (\<lambda>u. u \<noteq> ''lovelace'')
             (concat (map (\<lambda>t. map am_unit (concat (map o_amount (c_outputs t)) @ concat (map i_amount (c_inputs t)))) txs))
           @ filter (\<lambda>u. u \<noteq> []) (map ah_unit rows))"

definition historyRow :: "AssetHistoryEntry \<Rightarrow> hash_row" where
  "historyRow e = ((ah_txHash e, ah_unit e), (case ah_action e of Mint \<Rightarrow> ''mint '' | Burn \<Rightarrow> ''burn '') @ dec (nat (ah_quantity e)))"

section \<open>Rows of another fork\<close>

definition seqOf :: "ChainTransaction \<Rightarrow> int" where
  "seqOf t = txSeqOf (c_slot t) (c_index t)"

definition removeStaleTxSeqs :: "ChainTransaction list \<Rightarrow> chain_db \<Rightarrow> chain_db" where
  "removeStaleTxSeqs txs db =
     (if txs = [] then db
      else
        (let seqs = map seqOf txs;
             rows = filter (\<lambda>r. case t_txSeq r of None \<Rightarrow> False | Some s \<Rightarrow> Min (set seqs) \<le> s \<and> s \<le> Max (set seqs)) (cd_txs db);
             stale = filter (\<lambda>r. t_hash r \<notin> c_hash ` set txs) rows
         in if stale = [] then db else deleteTransactionRows (map keyOf stale) db))"

definition removeSupersededBlocks :: "BlockData \<Rightarrow> chain_db \<Rightarrow> chain_db" where
  "removeSupersededBlocks block db =
     (case bd_height block of
        None \<Rightarrow> db
      | Some h \<Rightarrow>
          (let hashes = map b_hash (filter (\<lambda>b. b_height b = Some h \<and> b_hash b \<noteq> bd_hash block) (cd_blocks db));
               referenced = List.map_filter t_blockHash (filter (\<lambda>t. case t_blockHash t of None \<Rightarrow> False | Some x \<Rightarrow> x \<in> set hashes) (cd_txs db));
               stale = filter (\<lambda>x. x \<notin> set referenced) hashes
           in db\<lparr>cd_blocks := delete_where (\<lambda>b. b_hash b \<in> set stale) (cd_blocks db)\<rparr>))"

section \<open>Writing the block\<close>

record crawl_coverage =
  cv_assetHistory :: bool
  cv_certificates :: bool

definition mapBlock :: "BlockData \<Rightarrow> BlockRow" where
  "mapBlock b = \<lparr>b_hash = bd_hash b, b_slot = bd_slot b, b_height = bd_height b\<rparr>"

definition input_key :: "StoredInputRow \<Rightarrow> int \<times> nat" where
  "input_key r = (si_txSeq r, si_inputIndex r)"

definition input_asset_key :: "StoredInputAssetRow \<Rightarrow> int \<times> nat \<times> string" where
  "input_asset_key r = (sj_txSeq r, sj_inputIndex r, sj_unit r)"

definition output_key :: "StoredOutputRow \<Rightarrow> int \<times> nat" where
  "output_key r = (so_txSeq r, so_outputIndex r)"

definition output_asset_key :: "StoredAssetRow \<Rightarrow> int \<times> nat \<times> string" where
  "output_asset_key r = (sa_txSeq r, sa_outputIndex r, sa_unit r)"

definition txRows :: "ChainTransaction list \<Rightarrow> TxRow list" where
  "txRows txs = map (\<lambda>t. TxRow.truncate (mapTransaction t)) txs"

definition writeRows ::
  "(string option \<Rightarrow> string option) \<Rightarrow> crawl_coverage \<Rightarrow> ChainTransaction list \<Rightarrow> chain_db \<Rightarrow> chain_db" where
  "writeRows cred cv txs db = db\<lparr>
     cd_txs := upsert_all t_hash (txRows txs) (cd_txs db),
     cd_inputs := upsert_all input_key (concat (map (\<lambda>t. mapTransactionInputs cred (seqOf t) (c_inputs t)) txs)) (cd_inputs db),
     cd_inputAssets := upsert_all input_asset_key (concat (map (\<lambda>t. mapTransactionInputAssets (seqOf t) (c_inputs t)) txs)) (cd_inputAssets db),
     cd_outputs := upsert_all output_key (concat (map (\<lambda>t. mapTransactionOutputs cred (seqOf t) (c_outputs t)) txs)) (cd_outputs db),
     cd_outputAssets := upsert_all output_asset_key (concat (map (\<lambda>t. mapTransactionOutputAssets (seqOf t) (c_outputs t)) txs)) (cd_outputAssets db),
     cd_metadata := upsert_all fst (concat (map (\<lambda>t. mapTransactionMetadata (c_metadata t)) txs)) (cd_metadata db),
     cd_certificates := upsert_all fst (if cv_certificates cv
        then concat (map (\<lambda>t. mapTransactionCertificates (c_hash t) (nullish (c_certificates t) [])) txs) else []) (cd_certificates db),
     cd_withdrawals := upsert_all fst (if cv_certificates cv
        then concat (map (\<lambda>t. mapTransactionWithdrawals (c_hash t) (nullish (c_withdrawals t) [])) txs) else []) (cd_withdrawals db),
     cd_redeemers := upsert_all fst (concat (map (\<lambda>t. mapTransactionRedeemers (c_hash t) (c_redeemers t)) txs)) (cd_redeemers db),
     cd_datums := upsert_all fst (concat (map (\<lambda>t. mapTransactionDatums (c_hash t) (c_datums t)) txs)) (cd_datums db)\<rparr>"

definition ledgerTx :: "ChainTransaction \<Rightarrow> ProviderTransaction" where
  "ledgerTx t = \<lparr>p_hash = c_hash t, p_inputs = map TxInputLine.truncate (c_inputs t), p_outputs = c_outputs t,
     p_spendsCollaterals = (c_spendsCollaterals t = Some True)\<rparr>"

text \<open>\<open>ledger\<close>: an empty lookup when the block is due for the UTxO set and its anchor is verified.\<close>

definition indexBlockFull ::
  "decoder \<Rightarrow> (string option \<Rightarrow> string option) \<Rightarrow> crawl_coverage \<Rightarrow> LedgerLookup option \<Rightarrow> BlockData
     \<Rightarrow> ChainTransaction list \<Rightarrow> chain_db \<Rightarrow> chain_db" where
  "indexBlockFull decode cred cv ledger block txs0 db =
     (let (txs1, lk) = resolveInputs db ledger txs0;
          (fees, txs) = applyCollateralFees (bd_fees block) txs1;
          db1 = db\<lparr>cd_blocks := upsert b_hash (mapBlock (block\<lparr>bd_fees := fees\<rparr>)) (cd_blocks db)\<rparr>;
          db2 = removeStaleTxSeqs txs db1;
          history = (if cv_assetHistory cv then buildAssetHistoryRows block txs else []);
          db3 = writeRows cred cv txs db2;
          db4 = removeSupersededBlocks block db3;
          db5 = (case lk of
                   None \<Rightarrow> db4
                 | Some l \<Rightarrow> db4\<lparr>cd_ledger := snd (applyBlockToLedger decode (cd_ledger db4) (nullish (bd_slot block) 0)
                                              (map ledgerTx txs) l)\<rparr>)
      in db5\<lparr>cd_assetHistory := upsert_all fst (map historyRow history) (cd_assetHistory db5)\<rparr>)"

section \<open>Upserts\<close>

lemma upsert_all_subset: "set (upsert_all kf rs t) \<subseteq> set t \<union> set rs"
proof -
  have "set (upsert kf r t) \<subseteq> insert r (set t)" for r t by (auto simp: upsert_def)
  then show ?thesis unfolding upsert_all_def by (induction rs arbitrary: t) fastforce+
qed

lemma upsert_all_distinct: "distinct (map kf t) \<Longrightarrow> distinct (map kf (upsert_all kf rs t))"
  unfolding upsert_all_def by (rule fold_invar) auto

lemma upsert_all_set:
  assumes "distinct (map kf t)" "distinct (map kf rs)"
  shows "set (upsert_all kf rs t) = {r \<in> set t. kf r \<notin> kf ` set rs} \<union> set rs"
proof -
  have "r \<in> set (upsert_all kf rs t) \<longleftrightarrow> find_row kf (kf r) (upsert_all kf rs t) = Some r" for r
    by (simp add: find_row_iff [OF upsert_all_distinct [OF assms(1)]])
  moreover have "find_row kf k (rev rs) = find_row kf k rs" for k
  proof (cases "find_row kf k rs")
    case None
    moreover from this have "find_row kf k (rev rs) = None" unfolding find_row_None_iff by simp
    ultimately show ?thesis by simp
  next
    case (Some r)
    moreover have "distinct (map kf (rev rs))" using assms(2) by (metis distinct_rev rev_map)
    ultimately show ?thesis using find_row_iff [OF assms(2)] find_row_iff by (metis set_rev)
  qed
  ultimately have mem: "r \<in> set (upsert_all kf rs t) \<longleftrightarrow>
      (case find_row kf (kf r) rs of Some r' \<Rightarrow> r' = r | None \<Rightarrow> find_row kf (kf r) t = Some r)" for r
    by (simp add: upsert_all_def find_row_fold_upsert split: option.split)
  show ?thesis
  proof (rule set_eqI)
    fix r
    show "r \<in> set (upsert_all kf rs t) \<longleftrightarrow> r \<in> {r \<in> set t. kf r \<notin> kf ` set rs} \<union> set rs"
    proof (cases "find_row kf (kf r) rs")
      case None
      then have "kf r \<notin> kf ` set rs" by (simp add: find_row_None_iff)
      then show ?thesis using mem [of r] None find_row_iff [OF assms(1), of "kf r" r] by auto
    next
      case (Some r')
      then have "kf r \<in> kf ` set rs" by (metis find_row_SomeD imageI)
      then show ?thesis using mem [of r] Some find_row_iff [OF assms(2), of "kf r" r] by auto
    qed
  qed
qed

text \<open>The rows of one owner after an upsert of rows, when every row of the owner has a key of the owner's.\<close>

lemma upsert_all_owner:
  assumes "\<forall>r \<in> set t. owner r \<noteq> k"
  shows "{r \<in> set (upsert_all kf rs t). owner r = k} \<subseteq> {r \<in> set rs. owner r = k}"
  using assms upsert_all_subset [of kf rs t] by auto

lemma distinct_map_filter_iff:
  assumes "distinct xs"
  shows "distinct (List.map_filter f xs) \<longleftrightarrow> (\<forall>x \<in> set xs. \<forall>y \<in> set xs. f x \<noteq> None \<and> f x = f y \<longrightarrow> x = y)"
  using assms
proof (induction xs)
  case (Cons x xs)
  then have IH: "distinct (List.map_filter f xs) \<longleftrightarrow> (\<forall>x \<in> set xs. \<forall>y \<in> set xs. f x \<noteq> None \<and> f x = f y \<longrightarrow> x = y)"
    and x: "x \<notin> set xs" by auto
  show ?case
  proof (cases "f x")
    case None
    then have "distinct (List.map_filter f (x # xs)) = distinct (List.map_filter f xs)" by (simp add: List.map_filter_simps)
    with None IH show ?thesis by (metis list.set_intros(2) set_ConsD)
  next
    case (Some v)
    have "v \<in> set (List.map_filter f xs) \<longleftrightarrow> (\<exists>y \<in> set xs. f y = Some v)" by (force simp: List.map_filter_def)
    with Some have "distinct (List.map_filter f (x # xs)) \<longleftrightarrow> (\<forall>y \<in> set xs. f y \<noteq> f x) \<and> distinct (List.map_filter f xs)"
      by (auto simp: List.map_filter_simps)
    moreover have "(\<forall>y \<in> set (x # xs). \<forall>z \<in> set (x # xs). f y \<noteq> None \<and> f y = f z \<longrightarrow> y = z)
        \<longleftrightarrow> (\<forall>y \<in> set xs. f y \<noteq> f x) \<and> (\<forall>y \<in> set xs. \<forall>z \<in> set xs. f y \<noteq> None \<and> f y = f z \<longrightarrow> y = z)"
      unfolding set_simps ball_simps using Some x by (auto; metis option.distinct(1))
    ultimately show ?thesis using IH by blast
  qed
qed (simp add: List.map_filter_simps)

section \<open>What the first steps keep\<close>

text \<open>Resolving and fee correction leave the key, the outputs, the metadata and the outpoints spent as they are.\<close>

definition spentOutpoint :: "InputLine \<Rightarrow> string \<times> nat" where
  "spentOutpoint i = (i_txHash i, i_outputIndex i)"

definition tx_core :: "ChainTransaction \<Rightarrow> string \<times> int \<times> string \<times> TxOutputLine list \<times> MetadataLabelTx list \<times> (string \<times> nat) list" where
  "tx_core t = (c_hash t, seqOf t, c_blockHash t, c_outputs t, c_metadata t, map spentOutpoint (c_inputs t))"

lemma copyUtxoData_spent: "spentOutpoint (copyUtxoData d i) = spentOutpoint i"
  by (simp add: copyUtxoData_def spentOutpoint_def Let_def)

lemma resolveInput_spent: "spentOutpoint (resolveInput bo lk ob am i) = spentOutpoint i"
  by (auto simp: resolveInput_def copyUtxoData_spent fromLedger_def fromStored_def Let_def split: option.split)
     (auto simp: spentOutpoint_def copyUtxoData_def Let_def)

lemma resolveInputs_keeps:
  assumes "resolveInputs db lk txs = (txs', lk')"
  shows "map tx_core txs' = map tx_core txs"
  using assms by (auto simp: resolveInputs_def Let_def tx_core_def seqOf_def resolveInput_spent)

lemma applyCollateralFees_keeps:
  assumes "applyCollateralFees f txs = (f', txs')"
  shows "map tx_core txs' = map tx_core txs"
  using assms by (auto simp: applyCollateralFees_def Let_def tx_core_def seqOf_def split: option.split)

lemma removeStaleTxSeqs_without:
  assumes "txs \<noteq> []"
  shows "removeStaleTxSeqs txs db =
     (let st = {r \<in> set (cd_txs db). (\<exists>s. t_txSeq r = Some s \<and> Min (seqOf ` set txs) \<le> s \<and> s \<le> Max (seqOf ` set txs))
                 \<and> t_hash r \<notin> c_hash ` set txs}
      in without (t_hash ` st) {s. \<exists>r \<in> st. t_txSeq r = Some s} db)"
proof -
  define st where "st = filter (\<lambda>r. t_hash r \<notin> c_hash ` set txs)
     (filter (\<lambda>r. case t_txSeq r of None \<Rightarrow> False | Some s \<Rightarrow> Min (set (map seqOf txs)) \<le> s \<and> s \<le> Max (set (map seqOf txs))) (cd_txs db))"
  have set_st: "set st = {r \<in> set (cd_txs db). (\<exists>s. t_txSeq r = Some s \<and> Min (seqOf ` set txs) \<le> s \<and> s \<le> Max (seqOf ` set txs))
                 \<and> t_hash r \<notin> c_hash ` set txs}"
    by (auto simp: st_def split: option.splits)
  have seqs: "seqs_of (map keyOf st) = {s. \<exists>r \<in> set st. t_txSeq r = Some s}"
    by (force simp: seqs_of_def List.map_filter_def keyOf_def)
  have hashes: "k_hash ` set (map keyOf st) = t_hash ` set st" by (force simp: keyOf_def)
  have "removeStaleTxSeqs txs db = (if st = [] then db else deleteTransactionRows (map keyOf st) db)"
    unfolding removeStaleTxSeqs_def Let_def st_def [symmetric] using assms by simp
  then have "removeStaleTxSeqs txs db = without (t_hash ` set st) {s. \<exists>r \<in> set st. t_txSeq r = Some s} db"
    unfolding deleteTransactionRows_without hashes seqs by simp
  then show ?thesis unfolding set_st Let_def .
qed

section \<open>The transaction tables after a block\<close>

text \<open>The part of the block that writes transactions: drop what another fork left, then write.\<close>

definition storeTransactions ::
  "(string option \<Rightarrow> string option) \<Rightarrow> crawl_coverage \<Rightarrow> ChainTransaction list \<Rightarrow> chain_db \<Rightarrow> chain_db" where
  "storeTransactions cred cv txs db = writeRows cred cv txs (removeStaleTxSeqs txs db)"

definition same_tx_tables :: "chain_db \<Rightarrow> chain_db \<Rightarrow> bool" where
  "same_tx_tables a b \<longleftrightarrow> cd_txs a = cd_txs b \<and> cd_inputs a = cd_inputs b \<and> cd_inputAssets a = cd_inputAssets b
     \<and> cd_outputs a = cd_outputs b \<and> cd_outputAssets a = cd_outputAssets b \<and> cd_metadata a = cd_metadata b
     \<and> cd_certificates a = cd_certificates b \<and> cd_withdrawals a = cd_withdrawals b
     \<and> cd_redeemers a = cd_redeemers b \<and> cd_datums a = cd_datums b"

lemma same_tx_tables_simps:
  assumes "same_tx_tables a b"
  shows "tx_keys_ok a = tx_keys_ok b" "no_orphans a = no_orphans b" "cd_txs a = cd_txs b"
    "cd_outputs a = cd_outputs b" "cd_inputs a = cd_inputs b"
  using assms by (simp_all add: same_tx_tables_def tx_keys_ok_def no_orphans_def)

lemma superseded_tables: "same_tx_tables (removeSupersededBlocks block db) db"
  by (simp add: same_tx_tables_def removeSupersededBlocks_def Let_def split: option.split)

lemma same_tx_tables_trans: "same_tx_tables a b \<Longrightarrow> same_tx_tables b c \<Longrightarrow> same_tx_tables a c"
  by (simp add: same_tx_tables_def)

lemma indexBlockFull_stores:
  obtains blocks txs' where
    "same_tx_tables (indexBlockFull decode cred cv ledger block txs db) (storeTransactions cred cv txs' (db\<lparr>cd_blocks := blocks\<rparr>))"
    "map tx_core txs' = map tx_core txs"
proof -
  obtain txs1 lk where r: "resolveInputs db ledger txs = (txs1, lk)" by fastforce
  obtain fees txs2 where f: "applyCollateralFees (bd_fees block) txs1 = (fees, txs2)" by fastforce
  define blocks where "blocks = upsert b_hash (mapBlock (block\<lparr>bd_fees := fees\<rparr>)) (cd_blocks db)"
  define db4 where "db4 = removeSupersededBlocks block (storeTransactions cred cv txs2 (db\<lparr>cd_blocks := blocks\<rparr>))"
  have "same_tx_tables (indexBlockFull decode cred cv ledger block txs db) db4"
    by (simp add: same_tx_tables_def indexBlockFull_def r f Let_def db4_def storeTransactions_def blocks_def split: option.split)
  moreover have "same_tx_tables db4 (storeTransactions cred cv txs2 (db\<lparr>cd_blocks := blocks\<rparr>))"
    unfolding db4_def by (rule superseded_tables)
  ultimately have "same_tx_tables (indexBlockFull decode cred cv ledger block txs db) (storeTransactions cred cv txs2 (db\<lparr>cd_blocks := blocks\<rparr>))"
    by (rule same_tx_tables_trans)
  with that show ?thesis
    using resolveInputs_keeps [OF r] applyCollateralFees_keeps [OF f] by metis
qed

lemma txRows_facts:
  "map t_hash (txRows txs) = map c_hash txs"
  "set (txRows txs) = (\<lambda>t. \<lparr>t_hash = c_hash t, t_txSeq = Some (seqOf t), t_blockHash = Some (c_blockHash t)\<rparr>) ` set txs"
  by (simp_all add: txRows_def mapTransaction_def TxRow.truncate_def seqOf_def)

definition in_range :: "ChainTransaction list \<Rightarrow> TxRow \<Rightarrow> bool" where
  "in_range txs r \<longleftrightarrow> (\<exists>s. t_txSeq r = Some s \<and> Min (seqOf ` set txs) \<le> s \<and> s \<le> Max (seqOf ` set txs))"

lemma seqs_in_range: "t \<in> set txs \<Longrightarrow> t_txSeq r = Some (seqOf t) \<Longrightarrow> in_range txs r"
  by (simp add: in_range_def)

definition stale_rows :: "ChainTransaction list \<Rightarrow> chain_db \<Rightarrow> TxRow set" where
  "stale_rows txs db = {r \<in> set (cd_txs db). in_range txs r \<and> t_hash r \<notin> c_hash ` set txs}"

lemma removeStale_without:
  assumes "txs \<noteq> []"
  shows "removeStaleTxSeqs txs db = without (t_hash ` stale_rows txs db) {s. \<exists>r \<in> stale_rows txs db. t_txSeq r = Some s} db"
  unfolding removeStaleTxSeqs_without [OF assms] stale_rows_def in_range_def Let_def by simp

lemma removeStale_ok:
  assumes "tx_keys_ok db" "no_orphans db" "txs \<noteq> []"
  shows "no_orphans (removeStaleTxSeqs txs db)"
proof -
  define st where "st = filter (\<lambda>r. in_range txs r \<and> t_hash r \<notin> c_hash ` set txs) (cd_txs db)"
  have "stale_rows txs db = set st" by (auto simp: stale_rows_def st_def)
  with without_ok [OF assms(1,2), of st] show ?thesis
    unfolding removeStale_without [OF assms(3)] by (simp add: st_def)
qed

lemma kept_rows:
  assumes "tx_keys_ok db" "txs \<noteq> []"
  shows "set (cd_txs (removeStaleTxSeqs txs db)) = {r \<in> set (cd_txs db). t_hash r \<in> c_hash ` set txs \<or> \<not> in_range txs r}"
proof -
  have "r = u" if "r \<in> set (cd_txs db)" "u \<in> stale_rows txs db" "t_hash r = t_hash u" for r u
    using that assms(1) by (metis (no_types, lifting) find_row_unique mem_Collect_eq option.inject stale_rows_def tx_keys_ok_def)
  then show ?thesis
    unfolding removeStale_without [OF assms(2)] by (auto simp: stale_rows_def)
qed

lemma removeStale_keys: "tx_keys_ok db \<Longrightarrow> tx_keys_ok (removeStaleTxSeqs txs db)"
  by (cases "txs = []")
     (auto simp: removeStaleTxSeqs_def [of "[]"] removeStale_without tx_keys_ok_def distinct_map_filter
       intro: distinct_delete_where [unfolded delete_where_def, simplified])

lemma stored_txs:
  assumes "tx_keys_ok db" "distinct (map c_hash txs)" "txs \<noteq> []"
  shows "set (cd_txs (storeTransactions cred cv txs db)) =
     {r \<in> set (cd_txs db). t_hash r \<notin> c_hash ` set txs \<and> \<not> in_range txs r}
     \<union> (\<lambda>t. \<lparr>t_hash = c_hash t, t_txSeq = Some (seqOf t), t_blockHash = Some (c_blockHash t)\<rparr>) ` set txs"
proof -
  have "distinct (map t_hash (cd_txs (removeStaleTxSeqs txs db)))" using removeStale_keys [OF assms(1)] by (simp add: tx_keys_ok_def)
  moreover have "distinct (map t_hash (txRows txs))" using assms(2) by (simp add: txRows_facts)
  moreover have "t_hash ` set (txRows txs) = c_hash ` set txs" by (metis txRows_facts(1) list.set_map)
  ultimately show ?thesis
    by (auto simp: storeTransactions_def writeRows_def upsert_all_set kept_rows [OF assms(1,3)] txRows_facts(2))
qed

lemma stored_keys_ok:
  assumes "tx_keys_ok db" "distinct (map c_hash txs)" "distinct (map seqOf txs)" "txs \<noteq> []"
  shows "tx_keys_ok (storeTransactions cred cv txs db)"
proof -
  let ?T = "cd_txs (storeTransactions cred cv txs db)"
  have d: "distinct (map t_hash ?T)"
    using removeStale_keys [OF assms(1), of txs]
    by (simp add: storeTransactions_def writeRows_def upsert_all_distinct tx_keys_ok_def)
  have "x = y" if x: "x \<in> set ?T" and y: "y \<in> set ?T" and eq: "t_txSeq x \<noteq> None" "t_txSeq x = t_txSeq y" for x y
  proof -
    have old: "r = u" if "r \<in> set (cd_txs db)" "u \<in> set (cd_txs db)" "t_txSeq r \<noteq> None" "t_txSeq r = t_txSeq u" for r u
      using keys_seq_unique [OF assms(1) that(1,2)] that(3,4) by auto
    have out: "\<not> (\<exists>t \<in> set txs. t_txSeq r = Some (seqOf t))" if "\<not> in_range txs r" for r
      using that seqs_in_range by blast
    have mine: "t = u" if "t \<in> set txs" "u \<in> set txs" "seqOf t = seqOf u" for t u
      using that assms(3) by (simp add: distinct_map inj_on_def)
    define row where "row = (\<lambda>t. \<lparr>t_hash = c_hash t, t_txSeq = Some (seqOf t), t_blockHash = Some (c_blockHash t)\<rparr>)"
    have seq: "t_txSeq (row t) = Some (seqOf t)" for t by (simp add: row_def)
    have split: "r \<in> set (cd_txs db) \<and> \<not> in_range txs r \<or> (\<exists>t \<in> set txs. r = row t)" if "r \<in> set ?T" for r
      using that unfolding stored_txs [OF assms(1,2,4)] row_def by blast
    from split [OF x] split [OF y] show ?thesis
    proof (elim disjE)
      assume "x \<in> set (cd_txs db) \<and> \<not> in_range txs x" "y \<in> set (cd_txs db) \<and> \<not> in_range txs y"
      with old eq show ?thesis by blast
    next
      assume "x \<in> set (cd_txs db) \<and> \<not> in_range txs x" "\<exists>t \<in> set txs. y = row t"
      with out eq seq show ?thesis by metis
    next
      assume "\<exists>t \<in> set txs. x = row t" "y \<in> set (cd_txs db) \<and> \<not> in_range txs y"
      with out eq seq show ?thesis by metis
    next
      assume "\<exists>t \<in> set txs. x = row t" "\<exists>t \<in> set txs. y = row t"
      with mine eq seq show ?thesis by (metis option.inject)
    qed
  qed
  then have uniq: "\<forall>x \<in> set ?T. \<forall>y \<in> set ?T. t_txSeq x \<noteq> None \<and> t_txSeq x = t_txSeq y \<longrightarrow> x = y" by blast
  from d have "distinct ?T" by (simp add: distinct_map)
  then have "distinct (List.map_filter t_txSeq ?T)" using uniq by (rule distinct_map_filter_iff [THEN iffD2])
  with d show ?thesis by (simp only: tx_keys_ok_def)
qed

text \<open>
  A transaction that is stored already sits where the block has it. Without this its old rows stay
  behind under a key of another transaction.
\<close>

definition in_place :: "ChainTransaction list \<Rightarrow> chain_db \<Rightarrow> bool" where
  "in_place txs db \<longleftrightarrow> (\<forall>r \<in> set (cd_txs db). \<forall>t \<in> set txs. t_hash r = c_hash t \<longrightarrow> t_txSeq r = Some (seqOf t))"

definition stored_seqs :: "chain_db \<Rightarrow> int set" where
  "stored_seqs db = {s. \<exists>r \<in> set (cd_txs db). t_txSeq r = Some s}"

lemma no_orphans_tables:
  assumes "no_orphans db"
  shows "si_txSeq ` set (cd_inputs db) \<subseteq> stored_seqs db" "sj_txSeq ` set (cd_inputAssets db) \<subseteq> stored_seqs db"
    "so_txSeq ` set (cd_outputs db) \<subseteq> stored_seqs db" "sa_txSeq ` set (cd_outputAssets db) \<subseteq> stored_seqs db"
    "tx_hash ` set (cd_metadata db) \<subseteq> t_hash ` set (cd_txs db)" "tx_hash ` set (cd_certificates db) \<subseteq> t_hash ` set (cd_txs db)"
    "tx_hash ` set (cd_withdrawals db) \<subseteq> t_hash ` set (cd_txs db)" "tx_hash ` set (cd_redeemers db) \<subseteq> t_hash ` set (cd_txs db)"
    "tx_hash ` set (cd_datums db) \<subseteq> t_hash ` set (cd_txs db)"
  using assms unfolding no_orphans_def Let_def stored_seqs_def Un_subset_iff by - (elim conjE, assumption)+

lemma no_orphans_intro:
  assumes "si_txSeq ` set (cd_inputs db) \<subseteq> stored_seqs db" "sj_txSeq ` set (cd_inputAssets db) \<subseteq> stored_seqs db"
    "so_txSeq ` set (cd_outputs db) \<subseteq> stored_seqs db" "sa_txSeq ` set (cd_outputAssets db) \<subseteq> stored_seqs db"
    "tx_hash ` set (cd_metadata db) \<subseteq> t_hash ` set (cd_txs db)" "tx_hash ` set (cd_certificates db) \<subseteq> t_hash ` set (cd_txs db)"
    "tx_hash ` set (cd_withdrawals db) \<subseteq> t_hash ` set (cd_txs db)" "tx_hash ` set (cd_redeemers db) \<subseteq> t_hash ` set (cd_txs db)"
    "tx_hash ` set (cd_datums db) \<subseteq> t_hash ` set (cd_txs db)"
  shows "no_orphans db"
  using assms unfolding no_orphans_def Let_def stored_seqs_def Un_subset_iff by (intro conjI) assumption+

text \<open>After the stale rows are gone no row of an input or output table has a key of a transaction that is new.\<close>

lemma seq_is_free:
  assumes "tx_keys_ok db" "in_place txs db" "distinct (map seqOf txs)" "t \<in> set txs" "c_hash t \<notin> t_hash ` set (cd_txs db)"
  shows "seqOf t \<notin> stored_seqs (removeStaleTxSeqs txs db)"
proof
  assume "seqOf t \<in> stored_seqs (removeStaleTxSeqs txs db)"
  moreover have "txs \<noteq> []" using assms(4) by auto
  ultimately obtain r where r: "r \<in> set (cd_txs db)" "t_txSeq r = Some (seqOf t)" "t_hash r \<in> c_hash ` set txs \<or> \<not> in_range txs r"
    unfolding stored_seqs_def kept_rows [OF assms(1) \<open>txs \<noteq> []\<close>] by blast
  with seqs_in_range [OF assms(4)] obtain u where u: "u \<in> set txs" "t_hash r = c_hash u" by auto
  with assms(2) r(1) have "t_txSeq r = Some (seqOf u)" by (simp add: in_place_def)
  with r(2) u(1) assms(3,4) have "u = t" by (simp add: distinct_map inj_on_def)
  with u(2) r(1) assms(5) show False by (metis imageI)
qed

lemma stored_seqs_after:
  assumes "tx_keys_ok db" "in_place txs db" "distinct (map c_hash txs)" "txs \<noteq> []"
  shows "stored_seqs (removeStaleTxSeqs txs db) \<union> seqOf ` set txs \<subseteq> stored_seqs (storeTransactions cred cv txs db)"
    and "t_hash ` set (cd_txs (removeStaleTxSeqs txs db)) \<union> c_hash ` set txs \<subseteq> t_hash ` set (cd_txs (storeTransactions cred cv txs db))"
proof -
  note rows = stored_txs [OF assms(1,3,4), of cred cv]
  have new: "seqOf t \<in> stored_seqs (storeTransactions cred cv txs db)
      \<and> c_hash t \<in> t_hash ` set (cd_txs (storeTransactions cred cv txs db))" if "t \<in> set txs" for t
    unfolding stored_seqs_def rows using that by force
  have "s \<in> stored_seqs (storeTransactions cred cv txs db)" if "s \<in> stored_seqs (removeStaleTxSeqs txs db)" for s
  proof -
    from that obtain r where r: "r \<in> set (cd_txs db)" "t_txSeq r = Some s" "t_hash r \<in> c_hash ` set txs \<or> \<not> in_range txs r"
      unfolding stored_seqs_def kept_rows [OF assms(1,4)] by blast
    show ?thesis
    proof (cases "t_hash r \<in> c_hash ` set txs")
      case True
      then obtain t where "t \<in> set txs" "t_hash r = c_hash t" by auto
      with assms(2) r(1,2) have "s = seqOf t" by (simp add: in_place_def)
      with new \<open>t \<in> set txs\<close> show ?thesis by blast
    next
      case False
      with r show ?thesis unfolding stored_seqs_def rows by blast
    qed
  qed
  with new show "stored_seqs (removeStaleTxSeqs txs db) \<union> seqOf ` set txs \<subseteq> stored_seqs (storeTransactions cred cv txs db)" by blast
  have "t_hash r \<in> t_hash ` set (cd_txs (storeTransactions cred cv txs db))" if "r \<in> set (cd_txs (removeStaleTxSeqs txs db))" for r
  proof (cases "t_hash r \<in> c_hash ` set txs")
    case True
    with new show ?thesis by auto
  next
    case False
    with that have "r \<in> set (cd_txs (storeTransactions cred cv txs db))"
      unfolding kept_rows [OF assms(1,4)] rows by blast
    then show ?thesis by blast
  qed
  with new show "t_hash ` set (cd_txs (removeStaleTxSeqs txs db)) \<union> c_hash ` set txs \<subseteq> t_hash ` set (cd_txs (storeTransactions cred cv txs db))"
    by blast
qed

lemma tx_core_maps:
  assumes "map tx_core txs' = map tx_core txs"
  shows "map c_hash txs' = map c_hash txs" "map seqOf txs' = map seqOf txs"
proof -
  have "map fst (map tx_core txs') = map fst (map tx_core txs)"
    and "map (\<lambda>p. fst (snd p)) (map tx_core txs') = map (\<lambda>p. fst (snd p)) (map tx_core txs)"
    by (simp_all only: assms)
  then show "map c_hash txs' = map c_hash txs" "map seqOf txs' = map seqOf txs"
    by (simp_all add: comp_def tx_core_def)
qed

lemma tx_core_member:
  assumes "map tx_core txs' = map tx_core txs" "t \<in> set txs"
  shows "\<exists>t' \<in> set txs'. tx_core t' = tx_core t"
proof -
  from assms have "tx_core t \<in> set (map tx_core txs')" by simp
  then show ?thesis by auto
qed

lemma upsert_all_within:
  assumes "sel ` set t \<subseteq> A" "sel ` set rs \<subseteq> B" "A \<union> B \<subseteq> C"
  shows "sel ` set (upsert_all kf rs t) \<subseteq> C"
  using assms upsert_all_subset [of kf rs t] by blast

lemma mapped_owners:
  "si_txSeq ` set (concat (map (\<lambda>t. mapTransactionInputs cred (seqOf t) (c_inputs t)) txs)) \<subseteq> seqOf ` set txs"
  "sj_txSeq ` set (concat (map (\<lambda>t. mapTransactionInputAssets (seqOf t) (c_inputs t)) txs)) \<subseteq> seqOf ` set txs"
  "so_txSeq ` set (concat (map (\<lambda>t. mapTransactionOutputs cred (seqOf t) (c_outputs t)) txs)) \<subseteq> seqOf ` set txs"
  "sa_txSeq ` set (concat (map (\<lambda>t. mapTransactionOutputAssets (seqOf t) (c_outputs t)) txs)) \<subseteq> seqOf ` set txs"
  "tx_hash ` set (concat (map (\<lambda>t. mapTransactionCertificates (c_hash t) (f t)) txs)) \<subseteq> c_hash ` set txs"
  "tx_hash ` set (concat (map (\<lambda>t. mapTransactionWithdrawals (c_hash t) (g t)) txs)) \<subseteq> c_hash ` set txs"
  "tx_hash ` set (concat (map (\<lambda>t. mapTransactionRedeemers (c_hash t) (c_redeemers t)) txs)) \<subseteq> c_hash ` set txs"
  "tx_hash ` set (concat (map (\<lambda>t. mapTransactionDatums (c_hash t) (c_datums t)) txs)) \<subseteq> c_hash ` set txs"
  subgoal by (auto simp: mapTransactionInputs_def mapTransactionInput_def split: prod.splits)
  subgoal by (auto simp: mapTransactionInputAssets_def split: prod.splits)
  subgoal by (auto simp: mapTransactionOutputs_def mapTransactionOutput_def)
  subgoal by (auto simp: mapTransactionOutputAssets_def split: prod.splits)
  subgoal by (auto simp: mapTransactionCertificates_def tx_hash_def)
  subgoal by (auto simp: mapTransactionWithdrawals_def tx_hash_def)
  subgoal by (auto simp: mapTransactionRedeemers_def tx_hash_def)
  subgoal by (auto simp: mapTransactionDatums_def tx_hash_def)
  done

lemma metadata_owners:
  assumes "\<forall>t \<in> set txs. \<forall>l \<in> set (c_metadata t). ml_txHash l = c_hash t"
  shows "tx_hash ` set (concat (map (\<lambda>t. mapTransactionMetadata (c_metadata t)) txs)) \<subseteq> c_hash ` set txs"
  using assms by (fastforce simp: mapTransactionMetadata_def List.map_filter_def tx_hash_def)

lemma storeTransactions_nil: "same_tx_tables (storeTransactions cred cv [] db) db"
  by (simp add: same_tx_tables_def storeTransactions_def writeRows_def removeStaleTxSeqs_def upsert_all_def txRows_def)

lemma store_tables:
  "cd_inputs (storeTransactions cred cv txs db) = upsert_all input_key
     (concat (map (\<lambda>t. mapTransactionInputs cred (seqOf t) (c_inputs t)) txs)) (cd_inputs (removeStaleTxSeqs txs db))"
  "cd_inputAssets (storeTransactions cred cv txs db) = upsert_all input_asset_key
     (concat (map (\<lambda>t. mapTransactionInputAssets (seqOf t) (c_inputs t)) txs)) (cd_inputAssets (removeStaleTxSeqs txs db))"
  "cd_outputs (storeTransactions cred cv txs db) = upsert_all output_key
     (concat (map (\<lambda>t. mapTransactionOutputs cred (seqOf t) (c_outputs t)) txs)) (cd_outputs (removeStaleTxSeqs txs db))"
  "cd_outputAssets (storeTransactions cred cv txs db) = upsert_all output_asset_key
     (concat (map (\<lambda>t. mapTransactionOutputAssets (seqOf t) (c_outputs t)) txs)) (cd_outputAssets (removeStaleTxSeqs txs db))"
  "cd_metadata (storeTransactions cred cv txs db) = upsert_all fst
     (concat (map (\<lambda>t. mapTransactionMetadata (c_metadata t)) txs)) (cd_metadata (removeStaleTxSeqs txs db))"
  "cd_certificates (storeTransactions cred cv txs db) = upsert_all fst (if cv_certificates cv
     then concat (map (\<lambda>t. mapTransactionCertificates (c_hash t) (nullish (c_certificates t) [])) txs) else [])
     (cd_certificates (removeStaleTxSeqs txs db))"
  "cd_withdrawals (storeTransactions cred cv txs db) = upsert_all fst (if cv_certificates cv
     then concat (map (\<lambda>t. mapTransactionWithdrawals (c_hash t) (nullish (c_withdrawals t) [])) txs) else [])
     (cd_withdrawals (removeStaleTxSeqs txs db))"
  "cd_redeemers (storeTransactions cred cv txs db) = upsert_all fst
     (concat (map (\<lambda>t. mapTransactionRedeemers (c_hash t) (c_redeemers t)) txs)) (cd_redeemers (removeStaleTxSeqs txs db))"
  "cd_datums (storeTransactions cred cv txs db) = upsert_all fst
     (concat (map (\<lambda>t. mapTransactionDatums (c_hash t) (c_datums t)) txs)) (cd_datums (removeStaleTxSeqs txs db))"
  unfolding storeTransactions_def writeRows_def by simp_all

lemma stored_no_orphans:
  assumes "tx_keys_ok db" "no_orphans db" "in_place txs db" "distinct (map c_hash txs)" "txs \<noteq> []"
    and "\<forall>t \<in> set txs. \<forall>l \<in> set (c_metadata t). ml_txHash l = c_hash t"
  shows "no_orphans (storeTransactions cred cv txs db)"
proof (rule no_orphans_intro)
  note base = no_orphans_tables [OF removeStale_ok [OF assms(1,2,5)]]
  note seqs = stored_seqs_after(1) [OF assms(1,3,4,5), of cred cv]
  note hashes = stored_seqs_after(2) [OF assms(1,3,4,5), of cred cv]
  have empty: "tx_hash ` set [] \<subseteq> c_hash ` set txs" by simp
  show "si_txSeq ` set (cd_inputs (storeTransactions cred cv txs db)) \<subseteq> stored_seqs (storeTransactions cred cv txs db)"
    unfolding store_tables(1) by (rule upsert_all_within [OF base(1) mapped_owners(1) seqs])
  show "sj_txSeq ` set (cd_inputAssets (storeTransactions cred cv txs db)) \<subseteq> stored_seqs (storeTransactions cred cv txs db)"
    unfolding store_tables(2) by (rule upsert_all_within [OF base(2) mapped_owners(2) seqs])
  show "so_txSeq ` set (cd_outputs (storeTransactions cred cv txs db)) \<subseteq> stored_seqs (storeTransactions cred cv txs db)"
    unfolding store_tables(3) by (rule upsert_all_within [OF base(3) mapped_owners(3) seqs])
  show "sa_txSeq ` set (cd_outputAssets (storeTransactions cred cv txs db)) \<subseteq> stored_seqs (storeTransactions cred cv txs db)"
    unfolding store_tables(4) by (rule upsert_all_within [OF base(4) mapped_owners(4) seqs])
  show "tx_hash ` set (cd_metadata (storeTransactions cred cv txs db)) \<subseteq> t_hash ` set (cd_txs (storeTransactions cred cv txs db))"
    unfolding store_tables(5) by (rule upsert_all_within [OF base(5) metadata_owners [OF assms(6)] hashes])
  show "tx_hash ` set (cd_certificates (storeTransactions cred cv txs db)) \<subseteq> t_hash ` set (cd_txs (storeTransactions cred cv txs db))"
    unfolding store_tables(6) by (rule upsert_all_within [OF base(6) _ hashes]) (cases "cv_certificates cv"; simp only: if_True if_False mapped_owners(5) empty)
  show "tx_hash ` set (cd_withdrawals (storeTransactions cred cv txs db)) \<subseteq> t_hash ` set (cd_txs (storeTransactions cred cv txs db))"
    unfolding store_tables(7) by (rule upsert_all_within [OF base(7) _ hashes]) (cases "cv_certificates cv"; simp only: if_True if_False mapped_owners(6) empty)
  show "tx_hash ` set (cd_redeemers (storeTransactions cred cv txs db)) \<subseteq> t_hash ` set (cd_txs (storeTransactions cred cv txs db))"
    unfolding store_tables(8) by (rule upsert_all_within [OF base(8) mapped_owners(7) hashes])
  show "tx_hash ` set (cd_datums (storeTransactions cred cv txs db)) \<subseteq> t_hash ` set (cd_txs (storeTransactions cred cv txs db))"
    unfolding store_tables(9) by (rule upsert_all_within [OF base(9) mapped_owners(8) hashes])
qed

text \<open>The rows of a new transaction: exactly the mapped ones.\<close>

lemma upsert_all_new_owner:
  assumes "\<forall>r \<in> set t. sel r \<noteq> k" "distinct (map kf rs)"
  shows "{r \<in> set (upsert_all kf rs t). sel r = k} = {r \<in> set rs. sel r = k}"
proof
  show "{r \<in> set (upsert_all kf rs t). sel r = k} \<subseteq> {r \<in> set rs. sel r = k}"
    by (rule upsert_all_owner [OF assms(1)])
  have "r \<in> set (upsert_all kf rs t)" if "r \<in> set rs" for r
  proof -
    have "distinct (map kf (rev rs))" using assms(2) by (metis distinct_rev rev_map)
    then have "find_row kf (kf r) (rev rs) = Some r" using that by (intro find_row_unique) auto
    then have "find_row kf (kf r) (upsert_all kf rs t) = Some r" by (simp add: upsert_all_def find_row_fold_upsert)
    then show ?thesis by (meson find_row_SomeD)
  qed
  then show "{r \<in> set rs. sel r = k} \<subseteq> {r \<in> set (upsert_all kf rs t). sel r = k}" by blast
qed

lemma concat_owner:
  assumes "distinct (map f ts)" "t \<in> set ts" "\<And>u r. u \<in> set ts \<Longrightarrow> r \<in> set (g u) \<Longrightarrow> sel r = f u"
  shows "{r \<in> set (concat (map g ts)). sel r = f t} = set (g t)"
proof -
  have "u = t" if "u \<in> set ts" "f u = f t" for u using that assms(1,2) by (simp add: distinct_map inj_on_def)
  then show ?thesis using assms(2,3) by fastforce
qed

lemma concat_keys_distinct:
  assumes "distinct (map f ts)" "\<And>u. u \<in> set ts \<Longrightarrow> distinct (map kf (g u))"
    and "\<And>u r. u \<in> set ts \<Longrightarrow> r \<in> set (g u) \<Longrightarrow> fst (kf r) = f u"
  shows "distinct (map kf (concat (map g ts)))"
  using assms
proof (induction ts)
  case (Cons u ts)
  have "kf r \<noteq> kf q" if "r \<in> set (g u)" "v \<in> set ts" "q \<in> set (g v)" for r v q
  proof -
    have "f u \<noteq> f v" using Cons.prems(1) that(2) by (auto simp: rev_image_eqI)
    with that Cons.prems(3) [of u r] Cons.prems(3) [of v q] show ?thesis by auto
  qed
  moreover have "distinct (map kf (concat (map g ts)))" using Cons by simp
  ultimately show ?case using Cons.prems(2) [of u] by force
qed simp

lemma new_tx_rows:
  assumes "tx_keys_ok db" "no_orphans db" "in_place txs db" "distinct (map c_hash txs)" "distinct (map seqOf txs)"
    and "\<forall>t \<in> set txs. distinct (map o_outputIndex (c_outputs t))" "t \<in> set txs" "c_hash t \<notin> t_hash ` set (cd_txs db)"
  shows "{r \<in> set (cd_outputs (storeTransactions cred cv txs db)). so_txSeq r = seqOf t}
           = set (mapTransactionOutputs cred (seqOf t) (c_outputs t))"
    and "{r \<in> set (cd_inputs (storeTransactions cred cv txs db)). si_txSeq r = seqOf t}
           = set (mapTransactionInputs cred (seqOf t) (c_inputs t))"
proof -
  have ne: "txs \<noteq> []" using assms(7) by auto
  note base = no_orphans_tables [OF removeStale_ok [OF assms(1,2) ne]]
  note free = seq_is_free [OF assms(1,3,5,7,8)]
  have fo: "\<forall>r \<in> set (cd_outputs (removeStaleTxSeqs txs db)). so_txSeq r \<noteq> seqOf t" using free base(3) [unfolded image_subset_iff] by metis
  have fi: "\<forall>r \<in> set (cd_inputs (removeStaleTxSeqs txs db)). si_txSeq r \<noteq> seqOf t" using free base(1) [unfolded image_subset_iff] by metis
  have ko: "distinct (map output_key (concat (map (\<lambda>t. mapTransactionOutputs cred (seqOf t) (c_outputs t)) txs)))"
  proof (rule concat_keys_distinct [OF assms(5)])
    show "distinct (map output_key (mapTransactionOutputs cred (seqOf u) (c_outputs u)))" if "u \<in> set txs" for u
    proof -
      have "map output_key (mapTransactionOutputs cred (seqOf u) (c_outputs u)) = map (Pair (seqOf u)) (map o_outputIndex (c_outputs u))"
        by (simp add: mapTransactionOutputs_def mapTransactionOutput_def output_key_def)
      then show ?thesis using assms(6) that by (simp add: distinct_map inj_on_def)
    qed
  qed (auto simp: mapTransactionOutputs_def mapTransactionOutput_def output_key_def)
  have ki: "distinct (map input_key (concat (map (\<lambda>t. mapTransactionInputs cred (seqOf t) (c_inputs t)) txs)))"
  proof (rule concat_keys_distinct [OF assms(5)])
    show "distinct (map input_key (mapTransactionInputs cred (seqOf u) (c_inputs u)))" for u
    proof -
      have "map input_key (mapTransactionInputs cred (seqOf u) (c_inputs u)) = map (Pair (seqOf u)) (map fst (enumerate 0 (c_inputs u)))"
        by (rule nth_equalityI) (simp_all add: mapTransactionInputs_def mapTransactionInput_def input_key_def nth_enumerate_eq)
      then show ?thesis by (simp add: distinct_map inj_on_def)
    qed
  qed (auto simp: mapTransactionInputs_def mapTransactionInput_def input_key_def split: prod.splits)
  show "{r \<in> set (cd_outputs (storeTransactions cred cv txs db)). so_txSeq r = seqOf t}
       = set (mapTransactionOutputs cred (seqOf t) (c_outputs t))"
    unfolding store_tables(3) upsert_all_new_owner [OF fo ko]
    by (rule concat_owner [OF assms(5,7)]) (auto simp: mapTransactionOutputs_def mapTransactionOutput_def)
  show "{r \<in> set (cd_inputs (storeTransactions cred cv txs db)). si_txSeq r = seqOf t}
       = set (mapTransactionInputs cred (seqOf t) (c_inputs t))"
    unfolding store_tables(1) upsert_all_new_owner [OF fi ki]
    by (rule concat_owner [OF assms(5,7)]) (auto simp: mapTransactionInputs_def mapTransactionInput_def split: prod.splits)
qed

section \<open>Properties\<close>



text \<open>
  An abandoned tip left transaction \<open>x\<close> with two outputs at the first position of slot 10; the block of
  the winning fork has transaction \<open>t\<close> there.
\<close>

definition old_tx :: ChainTransaction where
  "old_tx = (sample_tx False [sample_input ''s'' 0 False ''w'' 9] [sample_output 0 False ''v'' 4, sample_output 1 False ''w'' 3])\<lparr>c_hash := ''x''\<rparr>"

definition new_tx :: ChainTransaction where
  "new_tx = sample_tx False [sample_input ''r'' 3 False ''w'' 9] [sample_output 0 False ''u'' 7]"

definition fork_chain :: chain_db where
  "fork_chain = \<lparr>cd_blocks = [], cd_txs = [\<lparr>t_hash = ''x'', t_txSeq = Some 655360, t_blockHash = Some ''old''\<rparr>],
     cd_inputs = mapTransactionInputs (\<lambda>_. None) 655360 (c_inputs old_tx), cd_inputAssets = [],
     cd_outputs = mapTransactionOutputs (\<lambda>_. None) 655360 (c_outputs old_tx), cd_outputAssets = [],
     cd_metadata = [], cd_certificates = [], cd_withdrawals = [], cd_redeemers = [], cd_datums = [], cd_utxoAssets = [],
     cd_addressUtxos = [], cd_addressTxs = [], cd_assetHistory = [], cd_poolSnapshots = [], cd_drepSnapshots = [],
     cd_ledgerSnapshots = [], cd_ledger = demo_ldb, cd_cursor = None, cd_reorgLog = []\<rparr>"

definition fork_cover :: crawl_coverage where
  "fork_cover = \<lparr>cv_assetHistory = True, cv_certificates = True\<rparr>"

definition fork_block :: BlockData where
  "fork_block = \<lparr>bd_hash = ''b'', bd_slot = Some 10, bd_height = Some 1, bd_time = None, bd_fees = None\<rparr>"

lemma seqOf_samples: "seqOf old_tx = 655360" "seqOf new_tx = 655360" "c_hash new_tx = ''t''" "c_hash old_tx = ''x''"
  by (simp_all add: seqOf_def txSeqOf_def TX_SEQ_SLOT_FACTOR_def old_tx_def new_tx_def sample_tx_def)

lemma fork_chain_ok: "tx_keys_ok fork_chain" "no_orphans fork_chain" "in_place [new_tx] fork_chain"
  by (simp_all add: fork_chain_def tx_keys_ok_def no_orphans_def in_place_def List.map_filter_simps mapTransactionInputs_def
      mapTransactionInput_def mapTransactionOutputs_def mapTransactionOutput_def old_tx_def sample_tx_defs seqOf_samples)



text \<open>
  When the winning block holds the same transaction at another position, its old rows are taken for rows
  of the block and stay: after \<open>x\<close> moves to the second position behind \<open>t\<close>, output 1 of \<open>x\<close> is still
  stored under the sequence number that now belongs to \<open>t\<close>, which has one output.
\<close>

definition moved_tx :: ChainTransaction where
  "moved_tx = old_tx\<lparr>c_index := 1\<rparr>"

theorem moved_transaction_mixes_rows:
  "map so_outputIndex (filter (\<lambda>r. so_txSeq r = seqOf new_tx)
      (cd_outputs (writeRows (\<lambda>_. None) fork_cover [new_tx, moved_tx] (removeStaleTxSeqs [new_tx, moved_tx] fork_chain)))) = [0, 1]
   \<and> length (c_outputs new_tx) = 1"
  by (simp add: fork_chain_def writeRows_def removeStaleTxSeqs_def seqOf_def txSeqOf_def TX_SEQ_SLOT_FACTOR_def
      new_tx_def old_tx_def moved_tx_def sample_tx_defs mapTransactionOutputs_def mapTransactionOutput_def
      upsert_all_def upsert_def output_key_def)

section \<open>Two ways to the mint\<close>

definition consumedInputs :: "ChainTransaction \<Rightarrow> InputLine list" where
  "consumedInputs t = filter (\<lambda>i. \<not> i_isReference i \<and> \<not> i_isCollateral i) (c_inputs t)"

definition paidOutputs :: "ChainTransaction \<Rightarrow> TxOutputLine list" where
  "paidOutputs t = filter (\<lambda>x. \<not> o_isCollateral x) (c_outputs t)"

text \<open>The ledger's rule: what leaves a transaction is what enters it and what it mints.\<close>

definition asset_balanced :: "ChainTransaction \<Rightarrow> Amount list \<Rightarrow> bool" where
  "asset_balanced t mint \<longleftrightarrow>
     (\<forall>u. u \<noteq> ''lovelace'' \<longrightarrow> (\<Sum>x\<leftarrow>paidOutputs t. unitSum u (o_amount x))
                               = (\<Sum>i\<leftarrow>consumedInputs t. unitSum u (i_amount i)) + unitSum u mint)"

definition historyEntry :: "BlockData \<Rightarrow> ChainTransaction \<Rightarrow> string \<times> int \<Rightarrow> AssetHistoryEntry" where
  "historyEntry block t p = (case p of (u, q) \<Rightarrow>
     \<lparr>ah_unit = u, ah_txHash = c_hash t, ah_action = (if q > 0 then Mint else Burn),
      ah_quantity = \<bar>q\<bar>, ah_blockTime = bd_time block, ah_blockHeight = bd_height block\<rparr>)"

lemma historyEntries_alt:
  "historyEntries block t = (case mintDelta t of None \<Rightarrow> [] | Some net \<Rightarrow> map (historyEntry block t) (filter (\<lambda>(u, q). q \<noteq> 0) net))"
  by (simp add: historyEntries_def historyEntry_def split_def split: option.split)

lemma nonzero_entries:
  assumes "jmap_wf m"
  shows "(u, q) \<in> set (filter (\<lambda>(u, q). q \<noteq> (0::int)) m) \<longleftrightarrow> nullish (mget m u) 0 = q \<and> q \<noteq> 0"
proof -
  have "(u, q) \<in> set m \<longleftrightarrow> map_of m u = Some q" using assms unfolding jmap_wf_def by (simp add: map_of_eq_Some_iff)
  then show ?thesis using mget_map_of [OF assms] by (auto split: option.splits) (cases "map_of m u"; simp)
qed

lemma lovelace_absent: "mget m ''lovelace'' = None \<Longrightarrow> mget (addNative sign as m) ''lovelace'' = None"
  unfolding addNative_def by (induction as arbitrary: m) (auto simp: addTo_def isLovelace_def)

lemma fold_lovelace_absent: "mget m ''lovelace'' = None \<Longrightarrow> mget (fold (\<lambda>x. addNative sign (am x)) xs m) ''lovelace'' = None"
  by (induction xs arbitrary: m) (simp_all add: lovelace_absent)

lemma same_nonzero:
  assumes "jmap_wf m" "jmap_wf n" "\<And>u. nullish (mget m u) 0 = nullish (mget n u) (0::int)"
  shows "set (filter (\<lambda>(u, q). q \<noteq> 0) m) = set (filter (\<lambda>(u, q). q \<noteq> 0) n)"
proof (rule set_eqI)
  fix p :: "'a \<times> int"
  show "p \<in> set (filter (\<lambda>(u, q). q \<noteq> 0) m) \<longleftrightarrow> p \<in> set (filter (\<lambda>(u, q). q \<noteq> 0) n)"
    using nonzero_entries [OF assms(1)] nonzero_entries [OF assms(2)] assms(3) by (cases p) metis
qed

text \<open>
  The mint and burn rows do not depend on the source of a block: for a valid transaction whose inputs
  are known and whose assets balance, the rows derived from outputs minus inputs are those derived from
  the mint field of the ledger, one for each unit.
\<close>

theorem mint_field_matches_balance:
  assumes "asset_balanced t mint" "c_spendsCollaterals t \<noteq> Some True" "\<forall>i \<in> set (consumedInputs t). i_address i \<noteq> []"
  shows "set (historyEntries block (t\<lparr>c_mint := Some mint\<rparr>)) = set (historyEntries block (t\<lparr>c_mint := None\<rparr>))
       \<and> distinct (map ah_unit (historyEntries block (t\<lparr>c_mint := None\<rparr>)))"
proof -
  define m where "m = addNative 1 mint []"
  define n where "n = fold (\<lambda>i. addNative (- 1) (i_amount i)) (consumedInputs t)
                          (fold (\<lambda>x. addNative 1 (o_amount x)) (paidOutputs t) [])"
  have deltas: "mintDelta (t\<lparr>c_mint := Some mint\<rparr>) = Some m" "mintDelta (t\<lparr>c_mint := None\<rparr>) = Some n"
    using assms(2,3) by (simp_all add: mintDelta_def m_def n_def consumedInputs_def paidOutputs_def list_ex_iff Let_def)
  have wf: "jmap_wf m" "jmap_wf n" unfolding m_def n_def by (intro addNative_wf fold_addNative_wf; simp)+
  have "nullish (mget m u) 0 = nullish (mget n u) 0" for u
  proof (cases "u = ''lovelace''")
    case True
    then show ?thesis by (simp add: m_def n_def lovelace_absent fold_lovelace_absent)
  next
    case False
    then show ?thesis using assms(1) by (simp add: m_def n_def fold_addNative_get addNative_get asset_balanced_def)
  qed
  from same_nonzero [OF wf this] have "set (historyEntries block (t\<lparr>c_mint := Some mint\<rparr>)) = set (historyEntries block (t\<lparr>c_mint := None\<rparr>))"
    by (simp add: historyEntries_alt deltas historyEntry_def [abs_def])
  moreover have "map ah_unit (historyEntries block (t\<lparr>c_mint := None\<rparr>)) = map fst (filter (\<lambda>(u, q). q \<noteq> 0) n)"
    by (simp add: historyEntries_alt deltas historyEntry_def split_def)
  ultimately show ?thesis using jmap_wf_filter [OF wf(2)] by (simp add: jmap_wf_def)
qed

definition mint_tx :: ChainTransaction where
  "mint_tx = new_tx\<lparr>c_outputs := [(sample_output 0 False ''u'' 7)\<lparr>o_amount := [\<lparr>am_unit = ''p'', am_quantity = 3\<rparr>]\<rparr>]\<rparr>"

theorem mint_field_matches_balance_witness:
  "set (historyEntries fork_block (mint_tx\<lparr>c_mint := None\<rparr>))
     = {\<lparr>ah_unit = ''p'', ah_txHash = ''t'', ah_action = Mint, ah_quantity = 3, ah_blockTime = None, ah_blockHeight = Some 1\<rparr>}"
proof -
  have "asset_balanced mint_tx [\<lparr>am_unit = ''p'', am_quantity = 3\<rparr>]" "c_spendsCollaterals mint_tx \<noteq> Some True"
    "\<forall>i \<in> set (consumedInputs mint_tx). i_address i \<noteq> []"
    by (simp_all add: asset_balanced_def consumedInputs_def paidOutputs_def mint_tx_def new_tx_def sample_tx_defs)
  from mint_field_matches_balance [OF this, of fork_block]
  have "set (historyEntries fork_block (mint_tx\<lparr>c_mint := None\<rparr>))
      = set (historyEntries fork_block (mint_tx\<lparr>c_mint := Some [\<lparr>am_unit = ''p'', am_quantity = 3\<rparr>]\<rparr>))" by simp
  then show ?thesis
    by (simp add: historyEntries_def mintDelta_def addNative_def addTo_def isLovelace_def mput_def upsert_def
        mint_tx_def new_tx_def sample_tx_def fork_block_def)
qed

end
