(* ===== verification/Json.thy ===== *)
theory Json imports Texts begin

text \<open>
  JSON values as \<open>JSON.parse\<close> returns them and the complexity limits of \<open>srv/utils/validators.ts\<close>.
  Numbers are split into integral ones and the rest, which the code only tells apart with
  \<open>Number.isInteger\<close>. The text syntax of JSON is the standard library's: its parser is the argument
  \<open>parse\<close>, which answers \<open>None\<close> where \<open>JSON.parse\<close> throws.
\<close>

datatype json = JNull | JBool bool | JInt int | JFrac string | JStr string | JArr "json list" | JObj "(string \<times> json) list"

type_synonym json_parser = "string \<Rightarrow> json option"

section \<open>Reading fields\<close>

text \<open>\<open>entry.key\<close>; a missing key is \<open>undefined\<close>. A key that was set twice keeps the last value, so keys are unique.\<close>

definition jfield :: "(string \<times> json) list \<Rightarrow> string \<Rightarrow> json option" where
  "jfield o1 k = map_of o1 k"

text \<open>\<open>v !== undefined && v !== null\<close>\<close>

definition present :: "json option \<Rightarrow> bool" where
  "present v \<longleftrightarrow> v \<noteq> None \<and> v \<noteq> Some JNull"

definition as_string :: "json option \<Rightarrow> string option" where
  "as_string v = (case v of Some (JStr s) \<Rightarrow> Some s | _ \<Rightarrow> None)"

text \<open>\<open>typeof v === 'number' && Number.isInteger(v) && v >= 0\<close>\<close>

definition as_index :: "json option \<Rightarrow> nat option" where
  "as_index v = (case v of Some (JInt n) \<Rightarrow> if n \<ge> 0 then Some (nat n) else None | _ \<Rightarrow> None)"

section \<open>Limits\<close>

definition MAX_JSON_SIZE :: nat where "MAX_JSON_SIZE = 1048576"
definition MAX_DEPTH :: nat where "MAX_DEPTH = 10"
definition PLUTUS_DATA_MAX_DEPTH :: nat where "PLUTUS_DATA_MAX_DEPTH = 64"
definition MAX_KEYS :: nat where "MAX_KEYS = 100"
definition MAX_ARRAY_LENGTH :: nat where "MAX_ARRAY_LENGTH = 1000"
definition MAX_STRING_LENGTH :: nat where "MAX_STRING_LENGTH = 65536"

datatype complexity_error = TooDeep nat | StringTooLong | ArrayTooLong | TooManyKeys

text \<open>\<open>checkJsonComplexity\<close>: the first violation in document order, \<open>None\<close> when there is none.\<close>

fun checkJsonComplexity :: "nat \<Rightarrow> json \<Rightarrow> nat \<Rightarrow> complexity_error option"
and checkItems :: "nat \<Rightarrow> json list \<Rightarrow> nat \<Rightarrow> complexity_error option"
and checkEntries :: "nat \<Rightarrow> (string \<times> json) list \<Rightarrow> nat \<Rightarrow> complexity_error option"
where
  "checkJsonComplexity maxDepth value1 depth =
     (if depth > maxDepth then Some (TooDeep maxDepth)
      else case value1 of
          JStr s \<Rightarrow> if length s > MAX_STRING_LENGTH then Some StringTooLong else None
        | JArr xs \<Rightarrow> if length xs > MAX_ARRAY_LENGTH then Some ArrayTooLong else checkItems maxDepth xs (depth + 1)
        | JObj es \<Rightarrow> if length es > MAX_KEYS then Some TooManyKeys else checkEntries maxDepth es (depth + 1)
        | _ \<Rightarrow> None)"
| "checkItems maxDepth [] depth = None"
| "checkItems maxDepth (x # xs) depth =
     (case checkJsonComplexity maxDepth x depth of Some e \<Rightarrow> Some e | None \<Rightarrow> checkItems maxDepth xs depth)"
| "checkEntries maxDepth [] depth = None"
| "checkEntries maxDepth (e # es) depth =
     (case checkJsonComplexity maxDepth (snd e) depth of Some x \<Rightarrow> Some x | None \<Rightarrow> checkEntries maxDepth es depth)"

datatype json_error = TooLarge | InvalidJson | TooComplex complexity_error

definition validateJsonWithLimits :: "json_parser \<Rightarrow> string \<Rightarrow> nat \<Rightarrow> json_error + json" where
  "validateJsonWithLimits parse jsonString maxDepth =
     (if length jsonString > MAX_JSON_SIZE then Inl TooLarge
      else case parse jsonString of
          None \<Rightarrow> Inl InvalidJson
        | Some v \<Rightarrow> (case checkJsonComplexity maxDepth v 0 of Some e \<Rightarrow> Inl (TooComplex e) | None \<Rightarrow> Inr v))"

definition validatePlutusJson :: "json_parser \<Rightarrow> string \<Rightarrow> json_error + json" where
  "validatePlutusJson parse jsonString = validateJsonWithLimits parse jsonString PLUTUS_DATA_MAX_DEPTH"

section \<open>What the limits mean\<close>

text \<open>Nesting of a value and the values below it, without the limits' order of checks.\<close>

fun json_height :: "json \<Rightarrow> nat" where
  "json_height (JArr xs) = (if xs = [] then 0 else Suc (Max (json_height ` set xs)))"
| "json_height (JObj es) = (if es = [] then 0 else Suc (Max (json_height ` snd ` set es)))"
| "json_height _ = 0"

fun subvalues :: "json \<Rightarrow> json set" where
  "subvalues (JArr xs) = insert (JArr xs) (\<Union> (subvalues ` set xs))"
| "subvalues (JObj es) = insert (JObj es) (\<Union> (subvalues ` snd ` set es))"
| "subvalues v = {v}"

fun width_ok :: "json \<Rightarrow> bool" where
  "width_ok (JStr s) \<longleftrightarrow> length s \<le> MAX_STRING_LENGTH"
| "width_ok (JArr xs) \<longleftrightarrow> length xs \<le> MAX_ARRAY_LENGTH"
| "width_ok (JObj es) \<longleftrightarrow> length es \<le> MAX_KEYS"
| "width_ok _ \<longleftrightarrow> True"

lemma height_list: "xs \<noteq> [] \<Longrightarrow> Suc (Max (json_height ` set xs)) + d \<le> m \<longleftrightarrow> (\<forall>x \<in> set xs. json_height x + (d + 1) \<le> m)"
proof -
  assume "xs \<noteq> []"
  then have "Max (json_height ` set xs) \<le> k \<longleftrightarrow> (\<forall>x \<in> set xs. json_height x \<le> k)" for k by simp
  from this [of "m - (d + 1)"] show ?thesis
    using \<open>xs \<noteq> []\<close> by (cases "d + 1 \<le> m") (auto simp: le_diff_conv2 neq_Nil_conv)
qed

lemma check_complexity:
  "checkJsonComplexity m v d = None \<longleftrightarrow> d + json_height v \<le> m \<and> (\<forall>w \<in> subvalues v. width_ok w)"
  "checkItems m xs d = None \<longleftrightarrow> (\<forall>x \<in> set xs. d + json_height x \<le> m \<and> (\<forall>w \<in> subvalues x. width_ok w))"
  "checkEntries m es d = None \<longleftrightarrow> (\<forall>x \<in> snd ` set es. d + json_height x \<le> m \<and> (\<forall>w \<in> subvalues x. width_ok w))"
proof (induction m v d and m xs d and m es d rule: checkJsonComplexity_checkItems_checkEntries.induct)
  case (1 m v d)
  show ?case
  proof (cases "d \<le> m")
    case True
    then have d: "\<not> d > m" by simp
    show ?thesis
    proof (cases v)
      case (JArr xs)
      have "d + json_height v \<le> m \<longleftrightarrow> (\<forall>x \<in> set xs. d + 1 + json_height x \<le> m)"
        using True height_list [of xs d m] by (cases "xs = []") (simp_all add: JArr add.commute)
      then show ?thesis using 1(1) [OF d JArr] d by (cases "length xs > MAX_ARRAY_LENGTH") (auto simp: JArr)
    next
      case (JObj es)
      have "d + json_height v \<le> m \<longleftrightarrow> (\<forall>x \<in> snd ` set es. d + 1 + json_height x \<le> m)"
        using True height_list [of "map snd es" d m] by (cases "es = []") (simp_all add: JObj add.commute)
      then show ?thesis using 1(2) [OF d JObj] d by (cases "length es > MAX_KEYS") (auto simp: JObj)
    qed (simp_all add: True not_less)
  qed simp
next
  case (3 m x xs d)
  then show ?case by (cases "checkJsonComplexity m x d") (auto simp del: checkJsonComplexity.simps)
next
  case (5 m e es d)
  then show ?case by (cases "checkJsonComplexity m (snd e) d") (auto simp del: checkJsonComplexity.simps)
qed simp_all

section \<open>Properties\<close>

text \<open>
  The complexity check is exact: a document passes if and only if it is at most as large as allowed,
  nests at most \<open>maxDepth\<close> levels below its top, and no string, array or object anywhere in it exceeds
  its limit. An accepted document is returned as it was parsed.
\<close>

theorem json_limits_exact:
  "validateJsonWithLimits parse s maxDepth = Inr v
     \<longleftrightarrow> length s \<le> MAX_JSON_SIZE \<and> parse s = Some v \<and> json_height v \<le> maxDepth \<and> (\<forall>w \<in> subvalues v. width_ok w)"
  using check_complexity(1) [of maxDepth v 0]
  by (auto simp: validateJsonWithLimits_def split: option.splits)

theorem json_limits_exact_witness:
  "validateJsonWithLimits (\<lambda>_. Some (JArr [JStr ''a'', JArr []])) ''[\"a\",[]]'' 1 = Inr (JArr [JStr ''a'', JArr []])"
  by (rule json_limits_exact [THEN iffD2]) (simp add: MAX_JSON_SIZE_def MAX_ARRAY_LENGTH_def MAX_STRING_LENGTH_def)

end
