(* ===== verification/Placeholders.thy ===== *)
theory Placeholders
  imports Json LedgerState Errors "HOL-Library.Product_Lexorder" "HOL-Library.List_Lexorder"
begin

text \<open>
  Index placeholders in PlutusData (\<open>srv/utils/plutus-placeholders.ts\<close>) and the orders they resolve
  against: inputs and reference inputs by transaction hash bytes and index, withdrawals with script
  credentials first. Second part: the check of \<open>buildooor-tx.ts\<close> that refuses withdrawals whose
  redeemers the builder library would number differently.
\<close>

section \<open>Ledger orders\<close>

record InputRef =
  rf_txHash :: string
  rf_outputIndex :: nat

record WithdrawalCredential =
  wc_credentialHash :: string
  wc_isScript :: bool

definition input_sort_key :: "'a InputRef_scheme \<Rightarrow> nat list \<times> nat" where
  "input_sort_key r = (hex_bytes (rf_txHash r), rf_outputIndex r)"

definition sortInputsLikeBuildooor :: "'a InputRef_scheme list \<Rightarrow> 'a InputRef_scheme list" where
  "sortInputsLikeBuildooor refs = sort_key input_sort_key refs"

text \<open>Script credentials before key credentials, then hash bytes.\<close>

definition withdrawal_sort_key :: "'a WithdrawalCredential_scheme \<Rightarrow> bool \<times> nat list" where
  "withdrawal_sort_key e = (\<not> wc_isScript e, hex_bytes (wc_credentialHash e))"

definition sortWithdrawalsLikeLedger :: "'a WithdrawalCredential_scheme list \<Rightarrow> 'a WithdrawalCredential_scheme list" where
  "sortWithdrawalsLikeLedger entries = sort_key withdrawal_sort_key entries"

record ResolveContext =
  rc_sortedInputs :: "InputRef list"
  rc_sortedReferenceInputs :: "InputRef list option"
  rc_sortedWithdrawals :: "string list option"

section \<open>Placeholders\<close>

text \<open>\<open>/^PREFIX([0-9a-fA-F]{n})REST$/\<close>: the hash and the rest.\<close>

definition match_hash :: "string \<Rightarrow> nat \<Rightarrow> string \<Rightarrow> (string \<times> string) option" where
  "match_hash prefix n s =
     (case strip_prefix prefix s of
        None \<Rightarrow> None
      | Some r \<Rightarrow> if length r \<ge> n \<and> list_all is_hex (take n r) then Some (take n r, drop n r) else None)"

text \<open>\<open>/^#(\d+)__$/\<close> on the rest.\<close>

definition match_index :: "string \<Rightarrow> nat option" where
  "match_index r =
     (case strip_prefix ''#'' r of
        None \<Rightarrow> None
      | Some q \<Rightarrow> if length q \<ge> 3 \<and> drop (length q - 2) q = ''__'' \<and> digits (take (length q - 2) q)
                 then Some (nat (decimal_value (take (length q - 2) q))) else None)"

definition match_ref :: "string \<Rightarrow> string \<Rightarrow> InputRef option" where
  "match_ref prefix s =
     (case match_hash prefix 64 s of
        None \<Rightarrow> None
      | Some (h, r) \<Rightarrow> (case match_index r of
            None \<Rightarrow> None | Some i \<Rightarrow> Some \<lparr>rf_txHash = toLowerCase h, rf_outputIndex = i\<rparr>))"

definition INPUT_IDX_REGEX :: "string \<Rightarrow> InputRef option" where
  "INPUT_IDX_REGEX = match_ref ''__INPUT_IDX:''"

definition REF_IDX_REGEX :: "string \<Rightarrow> InputRef option" where
  "REF_IDX_REGEX = match_ref ''__REF_IDX:''"

definition WDRL_IDX_REGEX :: "string \<Rightarrow> string option" where
  "WDRL_IDX_REGEX s =
     (case match_hash ''__WDRL_IDX:'' 56 s of
        Some (h, r) \<Rightarrow> if r = ''__'' then Some (toLowerCase h) else None
      | None \<Rightarrow> None)"

fun findIndex :: "('a \<Rightarrow> bool) \<Rightarrow> 'a list \<Rightarrow> nat option" where
  "findIndex P [] = None"
| "findIndex P (x # xs) = (if P x then Some 0 else map_option Suc (findIndex P xs))"

definition invalid :: backend_error where
  "invalid = TransactionValidationError TX_VALIDATION_FAILED"

definition position_or_fail :: "nat option \<Rightarrow> backend_error + nat option" where
  "position_or_fail p = (case p of None \<Rightarrow> Inl invalid | Some i \<Rightarrow> Inr (Some i))"

text \<open>\<open>Inr None\<close>: not a placeholder.\<close>

definition positionOf :: "ResolveContext \<Rightarrow> string \<Rightarrow> backend_error + nat option" where
  "positionOf ctx v =
     (case INPUT_IDX_REGEX v of
        Some r \<Rightarrow> position_or_fail (findIndex ((=) r) (rc_sortedInputs ctx))
      | None \<Rightarrow>
     (case REF_IDX_REGEX v of
        Some r \<Rightarrow> (case rc_sortedReferenceInputs ctx of
            None \<Rightarrow> Inl invalid
          | Some refs \<Rightarrow> position_or_fail (findIndex ((=) r) refs))
      | None \<Rightarrow>
     (case WDRL_IDX_REGEX v of
        Some h \<Rightarrow> (case rc_sortedWithdrawals ctx of
            None \<Rightarrow> Inl invalid
          | Some ws \<Rightarrow> position_or_fail (findIndex ((=) h) ws))
      | None \<Rightarrow> Inr None)))"

definition MAX_WALK_DEPTH :: nat where "MAX_WALK_DEPTH = 64"

definition entry_position :: "ResolveContext \<Rightarrow> string \<Rightarrow> json \<Rightarrow> backend_error + nat option" where
  "entry_position ctx key v =
     (case v of JStr s \<Rightarrow> if key = ''int'' then positionOf ctx s else Inr None | _ \<Rightarrow> Inr None)"

fun walk :: "ResolveContext \<Rightarrow> json \<Rightarrow> nat \<Rightarrow> backend_error + json"
and walkItems :: "ResolveContext \<Rightarrow> json list \<Rightarrow> nat \<Rightarrow> backend_error + json list"
and walkEntries :: "ResolveContext \<Rightarrow> (string \<times> json) list \<Rightarrow> nat \<Rightarrow> backend_error + (string \<times> json) list"
where
  "walk ctx node depth =
     (if depth > MAX_WALK_DEPTH then Inl invalid
      else case node of
          JArr xs \<Rightarrow> sbind (walkItems ctx xs (depth + 1)) (\<lambda>ys. Inr (JArr ys))
        | JObj es \<Rightarrow> sbind (walkEntries ctx es (depth + 1)) (\<lambda>fs. Inr (JObj fs))
        | v \<Rightarrow> Inr v)"
| "walkItems ctx [] depth = Inr []"
| "walkItems ctx (x # xs) depth =
     sbind (walk ctx x depth) (\<lambda>y. sbind (walkItems ctx xs depth) (\<lambda>ys. Inr (y # ys)))"
| "walkEntries ctx [] depth = Inr []"
| "walkEntries ctx (e # es) depth =
     sbind (entry_position ctx (fst e) (snd e)) (\<lambda>p.
       sbind (case p of Some i \<Rightarrow> Inr (JInt (int i)) | None \<Rightarrow> walk ctx (snd e) depth) (\<lambda>y.
         sbind (walkEntries ctx es depth) (\<lambda>fs. Inr ((fst e, y) # fs))))"

definition resolveIndexPlaceholders :: "ResolveContext \<Rightarrow> json \<Rightarrow> backend_error + json" where
  "resolveIndexPlaceholders ctx node = walk ctx node 0"

section \<open>The order of withdrawal redeemers\<close>

record withdrawal_entry = WithdrawalCredential +
  we_scripted :: bool

text \<open>\<open>_ledgerWithdrawalOrder\<close>: the ledger's order, or a refusal when the library's order by hash alone differs.\<close>

definition misplaced :: "withdrawal_entry list \<Rightarrow> withdrawal_entry \<Rightarrow> bool" where
  "misplaced entries e \<longleftrightarrow> we_scripted e \<and>
     findIndex ((=) (wc_credentialHash e)) (map wc_credentialHash (sortWithdrawalsLikeLedger entries))
       \<noteq> findIndex ((=) (wc_credentialHash e)) (sort_key hex_bytes (map wc_credentialHash entries))"

definition ledgerWithdrawalOrder :: "withdrawal_entry list \<Rightarrow> backend_error + string list" where
  "ledgerWithdrawalOrder entries =
     (if list_ex (misplaced entries) entries then Inl invalid
      else Inr (map wc_credentialHash (sortWithdrawalsLikeLedger entries)))"

section \<open>Positions in a sorted list\<close>

lemma findIndex_Some: "findIndex P xs = Some i \<longleftrightarrow> i < length xs \<and> P (xs ! i) \<and> (\<forall>j < i. \<not> P (xs ! j))"
proof (induction xs arbitrary: i)
  case (Cons x xs)
  show ?case
  proof (cases i)
    case 0
    then show ?thesis by (cases "findIndex P xs") simp_all
  next
    case (Suc k)
    have "(\<forall>j < Suc k. \<not> P ((x # xs) ! j)) \<longleftrightarrow> \<not> P x \<and> (\<forall>j < k. \<not> P (xs ! j))"
      by (simp add: All_less_Suc2)
    then show ?thesis using Cons [of k] Suc by (cases "findIndex P xs") auto
  qed
qed simp

lemma findIndex_None: "findIndex P xs = None \<longleftrightarrow> (\<forall>x \<in> set xs. \<not> P x)"
  by (induction xs) auto

lemma findIndex_map: "findIndex P (map f xs) = findIndex (\<lambda>x. P (f x)) xs"
  by (induction xs) auto

lemma sorted_index_card:
  assumes "sorted (map f xs)" "distinct (map f xs)" "i < length xs"
  shows "card {y \<in> set xs. f y < f (xs ! i)} = i"
proof -
  have lt: "f (xs ! j) < f (xs ! i) \<longleftrightarrow> j < i" if "j < length xs" for j
  proof (cases "j < i")
    case True
    then have "f (xs ! j) \<le> f (xs ! i)" using sorted_nth_mono [OF assms(1), of j i] assms(3) by simp
    moreover have "map f xs ! j \<noteq> map f xs ! i"
      using nth_eq_iff_index_eq [OF assms(2)] that assms(3) True by simp
    ultimately show ?thesis using that assms(3) True by simp
  next
    case False
    then have "f (xs ! i) \<le> f (xs ! j)" using sorted_nth_mono [OF assms(1), of i j] that by simp
    with False show ?thesis by simp
  qed
  have "{y \<in> set xs. f y < f (xs ! i)} = (!) xs ` {..<i}"
    using lt assms(3) by (force simp: set_conv_nth)
  moreover have "inj_on ((!) xs) {..<i}"
    using assms(2,3) by (intro inj_on_nth) (auto simp: distinct_map)
  ultimately show ?thesis by (simp add: card_image)
qed

text \<open>The index of an element of a sorted list is the number of elements before it.\<close>

lemma sort_position:
  assumes "distinct (map f xs)" "x \<in> set xs"
  shows "findIndex ((=) x) (sort_key f xs) = Some (card {y \<in> set xs. f y < f x})"
proof -
  let ?s = "sort_key f xs"
  have d: "distinct (map f ?s)" using assms(1) by (metis distinct_map distinct_sort set_sort)
  obtain i where i: "i < length ?s" "?s ! i = x" using assms(2) by (metis in_set_conv_nth set_sort)
  have "?s ! j \<noteq> x" if "j < i" for j
    using d i that by (metis distinct_map less_trans nat_neq_iff nth_eq_iff_index_eq)
  then have "findIndex ((=) x) ?s = Some i" using i unfolding findIndex_Some by metis
  moreover have "card {y \<in> set ?s. f y < f (?s ! i)} = i" using d i(1) by (intro sorted_index_card) simp_all
  ultimately show ?thesis using i(2) by simp
qed

lemma list_all_replicate: "list_all P (replicate n x) \<longleftrightarrow> n = 0 \<or> P x"
  by (auto simp: list_all_iff)

section \<open>Withdrawals\<close>

lemma withdrawal_index:
  assumes "distinct (map (\<lambda>e. hex_bytes (wc_credentialHash e)) es)" "e \<in> set es"
  shows "findIndex ((=) (wc_credentialHash e)) (map wc_credentialHash (sortWithdrawalsLikeLedger es))
         = Some (card {y \<in> set es. withdrawal_sort_key y < withdrawal_sort_key e})"
    and "findIndex ((=) (wc_credentialHash e)) (sort_key hex_bytes (map wc_credentialHash es))
         = Some (card {y \<in> set es. hex_bytes (wc_credentialHash y) < hex_bytes (wc_credentialHash e)})"
proof -
  have inj: "inj_on (\<lambda>e. hex_bytes (wc_credentialHash e)) (set es)" and ds: "distinct es"
    using assms(1) by (simp_all add: distinct_map)
  have "distinct (map withdrawal_sort_key es)"
    unfolding distinct_map using ds inj by (auto simp: inj_on_def withdrawal_sort_key_def)
  from sort_position [OF this assms(2)]
  have "findIndex ((=) e) (sortWithdrawalsLikeLedger es) = Some (card {y \<in> set es. withdrawal_sort_key y < withdrawal_sort_key e})"
    by (simp add: sortWithdrawalsLikeLedger_def)
  moreover have "findIndex (\<lambda>y. wc_credentialHash e = wc_credentialHash y) (sortWithdrawalsLikeLedger es)
      = findIndex ((=) e) (sortWithdrawalsLikeLedger es)"
  proof -
    have "wc_credentialHash e = wc_credentialHash y \<longleftrightarrow> e = y" if "y \<in> set es" for y
      using inj assms(2) that by (metis (mono_tags, lifting) inj_onD)
    then have "findIndex (\<lambda>y. wc_credentialHash e = wc_credentialHash y) ys = findIndex ((=) e) ys" if "set ys \<subseteq> set es" for ys
      using that by (induction ys) auto
    then show ?thesis by (simp add: sortWithdrawalsLikeLedger_def)
  qed
  ultimately show "findIndex ((=) (wc_credentialHash e)) (map wc_credentialHash (sortWithdrawalsLikeLedger es))
         = Some (card {y \<in> set es. withdrawal_sort_key y < withdrawal_sort_key e})"
    by (simp add: findIndex_map)
  have "distinct (map hex_bytes (map wc_credentialHash es))" using assms(1) by (simp add: comp_def)
  from sort_position [OF this, of "wc_credentialHash e"]
  have "findIndex ((=) (wc_credentialHash e)) (sort_key hex_bytes (map wc_credentialHash es))
      = Some (card {h \<in> wc_credentialHash ` set es. hex_bytes h < hex_bytes (wc_credentialHash e)})"
    using assms(2) by simp
  moreover have "{h \<in> wc_credentialHash ` set es. hex_bytes h < hex_bytes (wc_credentialHash e)}
      = wc_credentialHash ` {y \<in> set es. hex_bytes (wc_credentialHash y) < hex_bytes (wc_credentialHash e)}" by blast
  moreover have "inj_on wc_credentialHash {y \<in> set es. hex_bytes (wc_credentialHash y) < hex_bytes (wc_credentialHash e)}"
    using inj by (auto simp: inj_on_def)
  ultimately show "findIndex ((=) (wc_credentialHash e)) (sort_key hex_bytes (map wc_credentialHash es))
         = Some (card {y \<in> set es. hex_bytes (wc_credentialHash y) < hex_bytes (wc_credentialHash e)})"
    by (simp add: card_image)
qed

lemma misplaced_iff:
  assumes "distinct (map (\<lambda>e. hex_bytes (wc_credentialHash e)) es)" "e \<in> set es" "wc_isScript e"
  shows "misplaced es e \<longleftrightarrow> we_scripted e \<and>
     (\<exists>k \<in> set es. \<not> wc_isScript k \<and> hex_bytes (wc_credentialHash k) < hex_bytes (wc_credentialHash e))"
proof -
  let ?A = "{y \<in> set es. withdrawal_sort_key y < withdrawal_sort_key e}"
  let ?B = "{y \<in> set es. hex_bytes (wc_credentialHash y) < hex_bytes (wc_credentialHash e)}"
  have A: "?A = {y \<in> ?B. wc_isScript y}" using assms(3) by (auto simp: withdrawal_sort_key_def less_prod_def)
  have "?A \<subseteq> ?B" unfolding A by (rule Collect_restrict)
  then have "card ?A = card ?B \<longleftrightarrow> ?A = ?B" using card_subset_eq [of ?B ?A] by auto
  also have "?A = ?B \<longleftrightarrow> (\<forall>y \<in> ?B. wc_isScript y)" unfolding A by blast
  finally have "card ?A = card ?B \<longleftrightarrow> (\<forall>y \<in> ?B. wc_isScript y)" .
  then show ?thesis unfolding misplaced_def withdrawal_index [OF assms(1,2)] option.inject by blast
qed

section \<open>Placeholders in a document\<close>

definition is_placeholder :: "string \<Rightarrow> bool" where
  "is_placeholder s \<longleftrightarrow> INPUT_IDX_REGEX s \<noteq> None \<or> REF_IDX_REGEX s \<noteq> None \<or> WDRL_IDX_REGEX s \<noteq> None"

definition placeholder_entry :: "string \<times> json \<Rightarrow> bool" where
  "placeholder_entry e \<longleftrightarrow> (\<exists>s. e = (''int'', JStr s) \<and> is_placeholder s)"

fun has_placeholder :: "json \<Rightarrow> bool" where
  "has_placeholder (JArr xs) \<longleftrightarrow> (\<exists>x \<in> set xs. has_placeholder x)"
| "has_placeholder (JObj es) \<longleftrightarrow> (\<exists>e \<in> set es. placeholder_entry e \<or> has_placeholder (snd e))"
| "has_placeholder _ \<longleftrightarrow> False"

lemma positionOf_None: "positionOf ctx s = Inr None \<longleftrightarrow> \<not> is_placeholder s"
  by (auto simp: positionOf_def is_placeholder_def position_or_fail_def split: option.split)

lemma entry_position_None: "entry_position ctx k v = Inr None \<longleftrightarrow> \<not> placeholder_entry (k, v)"
  by (auto simp: entry_position_def placeholder_entry_def positionOf_None split: json.split)

lemma walk_clears:
  "walk ctx v d = Inr w \<Longrightarrow> \<not> has_placeholder w"
  "walkItems ctx xs d = Inr ys \<Longrightarrow> \<forall>y \<in> set ys. \<not> has_placeholder y"
  "walkEntries ctx es d = Inr fs \<Longrightarrow> \<forall>f \<in> set fs. \<not> placeholder_entry f \<and> \<not> has_placeholder (snd f)"
proof (induction ctx v d and ctx xs d and ctx es d arbitrary: w and ys and fs rule: walk_walkItems_walkEntries.induct)
  case (1 ctx v d)
  then show ?case by (cases v) (auto simp: sbind_Inr_iff split: if_splits)
next
  case (5 ctx e es d)
  from "5.prems" obtain p y fs' where p: "entry_position ctx (fst e) (snd e) = Inr p"
    and y: "(case p of Some i \<Rightarrow> Inr (JInt (int i)) | None \<Rightarrow> walk ctx (snd e) d) = Inr y"
    and fs: "walkEntries ctx es d = Inr fs'" "fs = (fst e, y) # fs'"
    by (auto simp: sbind_Inr_iff)
  have "\<not> placeholder_entry (fst e, y) \<and> \<not> has_placeholder y"
  proof (cases p)
    case None
    with y have w: "walk ctx (snd e) d = Inr y" by simp
    then have "\<not> has_placeholder y" using "5.IH"(1) [OF refl w] by simp
    moreover have "\<not> placeholder_entry (fst e, y)"
    proof
      assume a: "placeholder_entry (fst e, y)"
      then obtain s where "y = JStr s" by (auto simp: placeholder_entry_def)
      with w have "snd e = JStr s" by (cases "snd e") (auto simp: sbind_Inr_iff split: if_splits)
      then have "placeholder_entry (fst e, snd e)" using a \<open>y = JStr s\<close> by simp
      moreover have "\<not> placeholder_entry (fst e, snd e)" using p None entry_position_None by simp
      ultimately show False by simp
    qed
    ultimately show ?thesis by simp
  next
    case (Some i)
    then have "y = JInt (int i)" using y by simp
    then show ?thesis by (simp add: placeholder_entry_def)
  qed
  moreover have "\<forall>f \<in> set fs'. \<not> placeholder_entry f \<and> \<not> has_placeholder (snd f)"
    using "5.IH"(2) [OF fs(1)] .
  ultimately show ?case using fs(2) by simp
qed (auto simp: sbind_Inr_iff)

lemma walk_identity:
  "\<not> has_placeholder v \<Longrightarrow> d + json_height v \<le> MAX_WALK_DEPTH \<Longrightarrow> walk ctx v d = Inr v"
  "\<forall>x \<in> set xs. \<not> has_placeholder x \<and> d + json_height x \<le> MAX_WALK_DEPTH \<Longrightarrow> walkItems ctx xs d = Inr xs"
  "\<forall>e \<in> set es. \<not> placeholder_entry e \<and> \<not> has_placeholder (snd e) \<and> d + json_height (snd e) \<le> MAX_WALK_DEPTH
     \<Longrightarrow> walkEntries ctx es d = Inr es"
proof (induction ctx v d and ctx xs d and ctx es d rule: walk_walkItems_walkEntries.induct)
  case (1 ctx v d)
  then have d: "\<not> d > MAX_WALK_DEPTH" by simp
  show ?case
  proof (cases v)
    case (JArr xs)
    have "\<forall>x \<in> set xs. d + 1 + json_height x \<le> MAX_WALK_DEPTH"
      using "1.prems"(2) height_list [of xs d MAX_WALK_DEPTH] d unfolding JArr by (cases "xs = []") (simp_all add: add.commute)
    then show ?thesis using "1.IH"(1) [OF d JArr] "1.prems"(1) d by (simp add: JArr)
  next
    case (JObj es)
    have "\<forall>e \<in> set es. d + 1 + json_height (snd e) \<le> MAX_WALK_DEPTH"
      using "1.prems"(2) height_list [of "map snd es" d MAX_WALK_DEPTH] d unfolding JObj by (cases "es = []") (simp_all add: add.commute)
    then show ?thesis using "1.IH"(2) [OF d JObj] "1.prems"(1) d by (simp add: JObj)
  qed (use d in simp_all)
next
  case (3 ctx x xs d)
  then show ?case by (simp del: walk.simps)
next
  case (5 ctx e es d)
  then have "\<not> placeholder_entry (fst e, snd e)" by simp
  then have "entry_position ctx (fst e) (snd e) = Inr None" by (simp only: entry_position_None not_False_eq_True)
  with 5 show ?case by (simp del: walk.simps)
qed simp_all

lemma toLowerCase_length [simp]: "length (toLowerCase s) = length s"
  by (simp add: toLowerCase_def)

lemma strip_prefix_append [simp]: "strip_prefix p (p @ s) = Some s"
  by (induction p) simp_all

lemma match_index_dec: "match_index (''#'' @ dec n @ ''__'') = Some n"
proof -
  have "dec n \<noteq> []" using decimal_dec [of n] by (simp add: digits_def)
  then have "length (dec n @ ''__'') \<ge> 3" by (cases "dec n") simp_all
  then show ?thesis using decimal_dec [of n] by (simp add: match_index_def)
qed

text \<open>A placeholder for an input, its hash in any case.\<close>

lemma input_placeholder:
  assumes "length h = 64" "list_all is_hex h"
  shows "INPUT_IDX_REGEX (''__INPUT_IDX:'' @ h @ ''#'' @ dec n @ ''__'') = Some \<lparr>rf_txHash = toLowerCase h, rf_outputIndex = n\<rparr>"
  unfolding INPUT_IDX_REGEX_def match_ref_def match_hash_def strip_prefix_append
  using assms match_index_dec [of n] by simp

text \<open>Lower-case hashes of one length sort by the numbers they stand for, and none are equal as bytes.\<close>

lemma hex_digit_lower: "is_lower_hex c \<Longrightarrow> \<exists>x. hex_digit c = Some x \<and> x < 16 \<and> code_unit c = (if x < 10 then 48 + x else 87 + x)"
  by (auto simp: is_lower_hex_def is_digit_def hex_digit_def code_unit_def Let_def)

lemma hex_digit_lower_inject:
  assumes "is_lower_hex c" "is_lower_hex d" "hex_digit c = hex_digit d"
  shows "c = d"
proof -
  from assms hex_digit_lower [OF assms(1)] hex_digit_lower [OF assms(2)]
  have "code_unit c = code_unit d" by auto
  then show ?thesis unfolding code_unit_def of_char_eq_iff .
qed

lemma hex_bytes_inject:
  assumes "length s = 2 * n" "length t = 2 * n" "list_all is_lower_hex s" "list_all is_lower_hex t" "hex_bytes s = hex_bytes t"
  shows "s = t"
  using assms
proof (induction n arbitrary: s t)
  case (Suc n)
  then obtain a b s' where s: "s = a # b # s'" by (metis length_Suc_conv mult_Suc_right add_2_eq_Suc)
  from Suc obtain c d t' where t: "t = c # d # t'" by (metis length_Suc_conv mult_Suc_right add_2_eq_Suc)
  have l: "is_lower_hex a" "is_lower_hex b" "is_lower_hex c" "is_lower_hex d" using Suc.prems s t by simp_all
  obtain x y z w where h: "hex_digit a = Some x" "hex_digit b = Some y" "hex_digit c = Some z" "hex_digit d = Some w"
    and b: "x < 16" "y < 16" "z < 16" "w < 16"
    using hex_digit_lower [OF l(1)] hex_digit_lower [OF l(2)] hex_digit_lower [OF l(3)] hex_digit_lower [OF l(4)] by blast
  have e: "16 * x + y = 16 * z + w" "hex_bytes s' = hex_bytes t'" using Suc.prems(5) h s t by simp_all
  have "x = (16 * x + y) div 16" "z = (16 * z + w) div 16" using b by simp_all
  then have xz: "x = z" using e(1) by simp
  with e(1) have yw: "y = w" by simp
  have "a = c" "b = d" using xz yw h hex_digit_lower_inject [OF l(1,3)] hex_digit_lower_inject [OF l(2,4)] by simp_all
  moreover have "s' = t'" using Suc.prems s t e(2) by (intro Suc.IH) simp_all
  ultimately show ?case using s t by simp
qed simp

section \<open>Properties\<close>

lemma input_keys_distinct:
  assumes "distinct (refs :: InputRef list)" "\<forall>r \<in> set refs. TX_HASH_REGEX (rf_txHash r)"
  shows "distinct (map input_sort_key refs)"
proof -
  have "r = q" if "r \<in> set refs" "q \<in> set refs" "input_sort_key r = input_sort_key q" for r q
  proof -
    have "rf_txHash r = rf_txHash q"
      using that assms(2) hex_bytes_inject [of "rf_txHash r" 32 "rf_txHash q"]
      by (simp add: input_sort_key_def TX_HASH_REGEX_def)
    with that(3) show ?thesis by (simp add: input_sort_key_def)
  qed
  with assms(1) show ?thesis by (simp add: distinct_map inj_on_def)
qed

text \<open>
  C24. A placeholder becomes the index the ledger gives its input: the number of inputs of the
  transaction that come before it by transaction hash and output index. A placeholder for an output
  the transaction does not spend is refused.
\<close>

theorem placeholder_is_ledger_index:
  assumes "distinct refs" "\<forall>r \<in> set refs. TX_HASH_REGEX (rf_txHash r)" "rc_sortedInputs ctx = sortInputsLikeBuildooor refs"
    and "length h = 64" "list_all is_hex h" "r = \<lparr>rf_txHash = toLowerCase h, rf_outputIndex = n\<rparr>"
  shows "resolveIndexPlaceholders ctx (JObj [(''int'', JStr (''__INPUT_IDX:'' @ h @ ''#'' @ dec n @ ''__''))])
    = (if r \<in> set refs then Inr (JObj [(''int'', JInt (int (card {q \<in> set refs. input_sort_key q < input_sort_key r})))])
       else Inl invalid)"
proof -
  let ?s = "''__INPUT_IDX:'' @ h @ ''#'' @ dec n @ ''__''"
  have regex: "INPUT_IDX_REGEX ?s = Some r" using input_placeholder [OF assms(4,5), of n] assms(6) by simp
  have pos: "positionOf ctx ?s = position_or_fail (findIndex ((=) r) (sort_key input_sort_key refs))"
    unfolding positionOf_def regex by (simp add: assms(3) sortInputsLikeBuildooor_def)
  have "findIndex ((=) r) (sort_key input_sort_key refs)
      = (if r \<in> set refs then Some (card {q \<in> set refs. input_sort_key q < input_sort_key r}) else None)"
    using sort_position [OF input_keys_distinct [OF assms(1,2)], of r] by (auto simp: findIndex_None)
  with pos have "entry_position ctx ''int'' (JStr ?s)
      = (if r \<in> set refs then Inr (Some (card {q \<in> set refs. input_sort_key q < input_sort_key r})) else Inl invalid)"
    by (simp add: entry_position_def position_or_fail_def)
  then show ?thesis by (simp add: resolveIndexPlaceholders_def MAX_WALK_DEPTH_def)
qed

definition demo_hash :: "char \<Rightarrow> string" where
  "demo_hash c = replicate 64 c"

theorem placeholder_is_ledger_index_witness:
  "resolveIndexPlaceholders
     \<lparr>rc_sortedInputs = sortInputsLikeBuildooor [\<lparr>rf_txHash = demo_hash CHR ''f'', rf_outputIndex = 0\<rparr>, \<lparr>rf_txHash = demo_hash CHR ''0'', rf_outputIndex = 5\<rparr>],
      rc_sortedReferenceInputs = None, rc_sortedWithdrawals = None\<rparr>
     (JObj [(''int'', JStr (''__INPUT_IDX:'' @ demo_hash CHR ''f'' @ ''#'' @ dec 7 @ ''__''))]) = Inl invalid"
  by (subst placeholder_is_ledger_index [where refs = "[\<lparr>rf_txHash = demo_hash CHR ''f'', rf_outputIndex = 0\<rparr>, \<lparr>rf_txHash = demo_hash CHR ''0'', rf_outputIndex = 5\<rparr>]"
      and r = "\<lparr>rf_txHash = toLowerCase (demo_hash CHR ''f''), rf_outputIndex = 7\<rparr>"])
     (simp_all add: demo_hash_def TX_HASH_REGEX_def is_lower_hex_def is_hex_def is_digit_def code_unit_def list_all_replicate toLowerCase_def lower_char_def)

text \<open>
  Resolution is complete and changes nothing else: no placeholder survives in a resolved document,
  and a document without placeholders that nests at most 64 levels is returned as it is.
\<close>

theorem resolution_complete:
  "(resolveIndexPlaceholders ctx v = Inr w \<longrightarrow> \<not> has_placeholder w)
   \<and> (\<not> has_placeholder v \<and> json_height v \<le> MAX_WALK_DEPTH \<longrightarrow> resolveIndexPlaceholders ctx v = Inr v)"
  unfolding resolveIndexPlaceholders_def using walk_clears(1) [of ctx v 0 w] walk_identity(1) [of v 0 ctx] by (simp del: walk.simps)

theorem resolution_complete_witness:
  "resolveIndexPlaceholders \<lparr>rc_sortedInputs = [], rc_sortedReferenceInputs = None, rc_sortedWithdrawals = None\<rparr>
     (JObj [(''int'', JInt 3)]) = Inr (JObj [(''int'', JInt 3)])"
  by (rule resolution_complete [THEN conjunct2, THEN mp]) (simp add: placeholder_entry_def MAX_WALK_DEPTH_def)

text \<open>
  Withdrawal redeemers are numbered right or the build is refused: it is refused exactly when a key
  credential sorts before a scripted withdrawal by hash; otherwise the position of every scripted
  withdrawal in the ledger's order is its position by hash alone, which the library uses.
\<close>

theorem withdrawal_order_exact:
  assumes "distinct (map (\<lambda>e. hex_bytes (wc_credentialHash e)) es)" "\<forall>e \<in> set es. we_scripted e \<longrightarrow> wc_isScript e"
  shows "case ledgerWithdrawalOrder es of
      Inl _ \<Rightarrow> \<exists>e \<in> set es. \<exists>k \<in> set es. we_scripted e \<and> \<not> wc_isScript k \<and> hex_bytes (wc_credentialHash k) < hex_bytes (wc_credentialHash e)
    | Inr order \<Rightarrow> (\<forall>e \<in> set es. we_scripted e \<longrightarrow>
          findIndex ((=) (wc_credentialHash e)) order
            = Some (card {y \<in> set es. hex_bytes (wc_credentialHash y) < hex_bytes (wc_credentialHash e)}))"
proof (cases "list_ex (misplaced es) es")
  case True
  then obtain e where e: "e \<in> set es" "misplaced es e" by (auto simp: list_ex_iff)
  then have "wc_isScript e" using assms(2) by (simp add: misplaced_def)
  from e(2) [unfolded misplaced_iff [OF assms(1) e(1) this]] e(1) show ?thesis
    using True unfolding ledgerWithdrawalOrder_def by auto
next
  case False
  then have order: "ledgerWithdrawalOrder es = Inr (map wc_credentialHash (sortWithdrawalsLikeLedger es))"
    by (simp add: ledgerWithdrawalOrder_def)
  have "findIndex ((=) (wc_credentialHash e)) (map wc_credentialHash (sortWithdrawalsLikeLedger es))
      = Some (card {y \<in> set es. hex_bytes (wc_credentialHash y) < hex_bytes (wc_credentialHash e)})"
    if "e \<in> set es" "we_scripted e" for e
    using False that withdrawal_index(2) [OF assms(1) that(1)] by (auto simp: misplaced_def list_ex_iff)
  then show ?thesis unfolding order by simp
qed

theorem withdrawal_order_exact_witness:
  "\<exists>order. ledgerWithdrawalOrder [\<lparr>wc_credentialHash = ''aa'', wc_isScript = True, we_scripted = True\<rparr>] = Inr order"
proof (cases "ledgerWithdrawalOrder [\<lparr>wc_credentialHash = ''aa'', wc_isScript = True, we_scripted = True\<rparr>]")
  case (Inl e)
  then show ?thesis
    using withdrawal_order_exact [of "[\<lparr>wc_credentialHash = ''aa'', wc_isScript = True, we_scripted = True\<rparr>]"] by simp
qed simp

end
