(* ===== verification/TxFunding.thy ===== *)
theory TxFunding imports ChainMappers Placeholders begin

text \<open>
  Where the inputs of a transaction come from: the helpers of \<open>srv/utils/tx-build-helper.ts\<close> and the
  parts of \<open>srv/blockchain/transaction-building/buildooor-tx.ts\<close> that split the sender's outputs into
  forced inputs and the pool of coin selection, reserve collateral, compute what the pool has to pay,
  and guard forced inputs of other owners. Quantities, which the code parses with \<open>BigInt\<close>, are \<open>int\<close>.
  The builder library (an external package) is the argument \<open>lib\<close>.
\<close>

section \<open>Outputs\<close>

record UTxO = InputRef +
  x_address :: string
  x_amount :: "Amount list"
  x_datumHash :: "string option"
  x_inlineDatum :: "string option"
  x_scriptRef :: "string option"
  x_scriptRefCbor :: "string option"
  x_scriptRefSize :: "nat option"

definition is_lovelace :: "Amount \<Rightarrow> bool" where
  "is_lovelace a = (toLowerCase (am_unit a) = ''lovelace'')"

definition getLovelace :: "UTxO \<Rightarrow> int" where
  "getLovelace u = (case find is_lovelace (x_amount u) of None \<Rightarrow> 0 | Some a \<Rightarrow> am_quantity a)"

definition hasRefScript :: "UTxO \<Rightarrow> bool" where
  "hasRefScript u \<longleftrightarrow> truthy (x_scriptRef u) \<or> truthy (x_scriptRefCbor u)"

definition isCollateralCandidate :: "UTxO \<Rightarrow> bool" where
  "isCollateralCandidate u \<longleftrightarrow> list_all (\<lambda>a. is_lovelace a \<or> am_quantity a = 0) (x_amount u)
     \<and> \<not> truthy (x_scriptRef u) \<and> \<not> truthy (x_scriptRefCbor u)"

definition assertAdaOnly :: "UTxO \<Rightarrow> backend_error + unit" where
  "assertAdaOnly u =
     throwIf (filter (\<lambda>a. \<not> is_lovelace a \<and> am_quantity a \<noteq> 0) (x_amount u) \<noteq> []) (BackendError MixedAssetsC 400 INVALID_INPUT None [])"

text \<open>\<open>`${txHash.toLowerCase()}#${outputIndex}`\<close>\<close>

definition key :: "'a InputRef_scheme \<Rightarrow> string" where
  "key r = outpoint (toLowerCase (rf_txHash r)) (rf_outputIndex r)"

section \<open>Values\<close>

text \<open>A ledger value: quantities by unit. \<open>Value.add\<close> adds unit by unit.\<close>

type_synonym ledger_value = "(string, int) jmap"

definition qty_of :: "ledger_value \<Rightarrow> string \<Rightarrow> int" where
  "qty_of v u = nullish (mget v u) 0"

definition lovelaces :: "int \<Rightarrow> ledger_value" where
  "lovelaces n = [(''lovelace'', n)]"

definition addValue :: "ledger_value \<Rightarrow> ledger_value \<Rightarrow> ledger_value" where
  "addValue v w = fold (\<lambda>(u, q) m. addTo u q m) w v"

definition buildLedgerValue :: "int \<Rightarrow> Amount list \<Rightarrow> ledger_value" where
  "buildLedgerValue lovelace assets =
     fold (\<lambda>a v. if is_lovelace a \<or> am_quantity a \<le> 0 then v else addTo (am_unit a) (am_quantity a) v) assets (lovelaces lovelace)"

section \<open>Forced inputs and the pool\<close>

definition partitionForcedInputs ::
  "UTxO list \<Rightarrow> InputRef list \<Rightarrow> string list \<Rightarrow> InputRef list \<Rightarrow> bool \<Rightarrow> backend_error + UTxO list \<times> UTxO list" where
  "partitionForcedInputs us0 forceInputs referenced protectInputs includeRefScriptUtxos =
     (let excluded = (\<lambda>u. \<not> includeRefScriptUtxos \<and> hasRefScript u);
          protectedKeys = map key protectInputs;
          forcedKeys = map key forceInputs
      in if forceInputs = [] \<and> referenced = [] \<and> protectedKeys = [] \<and> \<not> list_ex excluded us0 then Inr ([], us0)
         else if list_ex (\<lambda>k. k \<in> set referenced) forcedKeys then Inl invalid
         else if list_ex (\<lambda>k. k \<in> set protectedKeys) forcedKeys then Inl invalid
         else Inr (filter (\<lambda>u. key u \<in> set forcedKeys) us0,
                   filter (\<lambda>u. key u \<notin> set forcedKeys \<and> key u \<notin> set referenced \<and> key u \<notin> set protectedKeys \<and> \<not> excluded u) us0))"

definition referencedKeys :: "UTxO list \<Rightarrow> InputRef list list \<Rightarrow> string list" where
  "referencedKeys referenceInputUtxos refs = jset (map key referenceInputUtxos @ map key (concat refs))"

text \<open>\<open>_withRefScriptFallback\<close>: a second build with the reference-script outputs when funds were short.\<close>

definition withRefScriptFallback :: "UTxO list \<Rightarrow> (bool \<Rightarrow> backend_error + 'r) \<Rightarrow> backend_error + 'r" where
  "withRefScriptFallback us0 build =
     (case build False of
        Inr r \<Rightarrow> Inr r
      | Inl err \<Rightarrow> if \<not> instanceof err InsufficientFundsC \<or> \<not> list_ex hasRefScript us0 then Inl err else build True)"

section \<open>Collateral\<close>

definition COLLATERAL_LOVELACE :: int where "COLLATERAL_LOVELACE = 5000000"
definition FEE_BUFFER_LOVELACE :: int where "FEE_BUFFER_LOVELACE = 1000000"
definition MIN_CHANGE_LOVELACE :: int where "MIN_CHANGE_LOVELACE = 2000000"

definition coversFloor :: "UTxO \<Rightarrow> bool" where
  "coversFloor u \<longleftrightarrow> getLovelace u \<ge> COLLATERAL_LOVELACE"

record collateral_setup =
  co_chosen :: UTxO
  co_funding :: "UTxO list"
  co_return :: "(string \<times> int) option"

definition forcedChoice :: "UTxO list \<Rightarrow> UTxO list \<Rightarrow> string \<Rightarrow> UTxO option" where
  "forcedChoice us0 forced senderAddress =
     (if list_ex coversFloor (filter isCollateralCandidate us0) then None
      else case sort_key getLovelace (filter (\<lambda>u. toLowerCase (x_address u) = toLowerCase senderAddress
                  \<and> isCollateralCandidate u \<and> coversFloor u) forced) of
             [] \<Rightarrow> None | u # _ \<Rightarrow> Some u)"

text \<open>\<open>minAda\<close>: \<open>getMinimumOutputLovelaces\<close> of an output with this address and lovelace.\<close>

definition setupCollateral ::
  "(string \<Rightarrow> int \<Rightarrow> int) \<Rightarrow> UTxO list \<Rightarrow> int \<Rightarrow> UTxO list \<Rightarrow> string \<Rightarrow> backend_error + collateral_setup" where
  "setupCollateral minAda us0 requiredLovelace forced senderAddress =
     (let sorted1 = sort_key getLovelace (filter isCollateralCandidate us0);
          fc = forcedChoice us0 forced senderAddress
      in if sorted1 = [] \<and> fc = None then Inl invalid
         else (let chosen = (case fc of Some u \<Rightarrow> u
                               | None \<Rightarrow> (case find coversFloor sorted1 of Some u \<Rightarrow> u | None \<Rightarrow> last sorted1));
                   rest = filter (\<lambda>u. \<not> (rf_txHash u = rf_txHash chosen \<and> rf_outputIndex u = rf_outputIndex chosen)) us0;
                   restLovelace = sum_list (map getLovelace rest);
                   fundingUtxos = (if fc \<noteq> None \<or> restLovelace \<ge> requiredLovelace + FEE_BUFFER_LOVELACE + MIN_CHANGE_LOVELACE
                                   then rest else rest @ [chosen]);
                   excess = getLovelace chosen - COLLATERAL_LOVELACE
               in sbind (assertAdaOnly chosen) (\<lambda>_. Inr
                    \<lparr>co_chosen = chosen, co_funding = fundingUtxos,
                     co_return = (if excess > 0 \<and> excess \<ge> minAda (x_address chosen) excess then Some (x_address chosen, excess) else None)\<rparr>)))"

section \<open>Forced inputs of other owners\<close>

record PlutusTxOutput =
  ox_address :: string
  ox_lovelace :: int
  ox_assets :: "Amount list"

definition amounts_by_unit :: "UTxO list \<Rightarrow> ledger_value" where
  "amounts_by_unit us =
     fold (\<lambda>u m. fold (\<lambda>a m. addTo (if is_lovelace a then ''lovelace'' else am_unit a) (am_quantity a) m) (x_amount u) m) us []"

definition outputs_by_unit :: "PlutusTxOutput list \<Rightarrow> ledger_value" where
  "outputs_by_unit outs =
     fold (\<lambda>x m. fold (\<lambda>a m. addTo (am_unit a) (am_quantity a) m) (ox_assets x) (addTo ''lovelace'' (ox_lovelace x) m)) outs []"

text \<open>\<open>paymentCreds\<close>: \<open>Address.fromString(_).paymentCreds\<close> as (key hash?, hash); \<open>None\<close> where it throws.\<close>

definition checkForeignForcedInputs ::
  "(string \<Rightarrow> (bool \<times> string) option) \<Rightarrow> UTxO list \<Rightarrow> string \<Rightarrow> string list \<Rightarrow> PlutusTxOutput list \<Rightarrow> backend_error + unit" where
  "checkForeignForcedInputs paymentCreds forced senderAddress requiredSigners outputs =
     (let foreign = filter (\<lambda>u. toLowerCase (x_address u) \<noteq> toLowerCase senderAddress) forced;
          signers = map toLowerCase requiredSigners;
          spent = outputs_by_unit outputs
      in if foreign = [] then Inr ()
         else if list_ex (\<lambda>a. case paymentCreds a of
                 None \<Rightarrow> True
               | Some (isKey, h) \<Rightarrow> \<not> isKey \<or> toLowerCase h \<notin> set signers) (jset (map x_address foreign)) then Inl invalid
         else if list_ex (\<lambda>(unit, q). q > qty_of spent unit) (amounts_by_unit foreign) then Inl invalid
         else Inr ())"

section \<open>What the pool has to pay\<close>

definition requiredValue :: "ledger_value \<Rightarrow> ledger_value" where
  "requiredValue need =
     fold (\<lambda>(unit, q) v. if q \<le> 0 then v
             else addValue v (if unit = ''lovelace'' then lovelaces q
                              else buildLedgerValue 0 [\<lparr>am_unit = unit, am_quantity = q\<rparr>])) need (lovelaces 0)"

text \<open>\<open>_extraOutputsFundingAfterMint\<close>: lovelace of the extra outputs and what the mints do not cover.\<close>

record MintAction =
  ma_assetUnit :: string
  ma_quantity :: int
  ma_mintingPolicyScript :: "string option"
  ma_referenceScript :: "InputRef option"

definition mintedByUnit :: "MintAction list \<Rightarrow> ledger_value" where
  "mintedByUnit actions =
     fold (\<lambda>a m. if ma_quantity a > 0 then addTo (toLowerCase (ma_assetUnit a)) (ma_quantity a) m else m) actions []"

definition demandByUnit :: "PlutusTxOutput list \<Rightarrow> ledger_value" where
  "demandByUnit extras =
     fold (\<lambda>x m. fold (\<lambda>a m. addTo (toLowerCase (am_unit a)) (am_quantity a) m) (ox_assets x) m) extras []"

definition extraOutputsFundingAfterMint :: "MintAction list \<Rightarrow> PlutusTxOutput list \<Rightarrow> int \<times> Amount list" where
  "extraOutputsFundingAfterMint mintActions extraOutputs =
     (let minted = mintedByUnit mintActions
      in (sum_list (map ox_lovelace extraOutputs),
          List.map_filter (\<lambda>(unit, demand). let uncovered = demand - qty_of minted unit
             in if uncovered > 0 then Some \<lparr>am_unit = unit, am_quantity = uncovered\<rparr> else None) (demandByUnit extraOutputs)))"

definition plutusNeed :: "PlutusTxOutput list \<Rightarrow> UTxO list \<Rightarrow> MintAction list \<Rightarrow> int list \<Rightarrow> (bool \<times> int) list \<Rightarrow> ledger_value" where
  "plutusNeed outputs spent mintActions withdrawals deposits =
     fold (\<lambda>(register, deposit) m. addTo ''lovelace'' (if register then deposit else - deposit) m) deposits
       (fold (\<lambda>w m. addTo ''lovelace'' (- w) m) withdrawals
         (fold (\<lambda>a m. addTo (ma_assetUnit a) (- ma_quantity a) m) mintActions
           (fold (\<lambda>u m. fold (\<lambda>a m. addTo (if is_lovelace a then ''lovelace'' else am_unit a) (- am_quantity a) m) (x_amount u) m) spent
             (outputs_by_unit outputs))))"

section \<open>Sums by unit\<close>

definition outQty :: "string \<Rightarrow> PlutusTxOutput list \<Rightarrow> int" where
  "outQty u outs = (\<Sum>x\<leftarrow>outs. (if u = ''lovelace'' then ox_lovelace x else 0) + unitSum u (ox_assets x))"

definition heldQty :: "string \<Rightarrow> UTxO list \<Rightarrow> int" where
  "heldQty u us = (\<Sum>x\<leftarrow>us. \<Sum>a\<leftarrow>x_amount x. if (if is_lovelace a then ''lovelace'' else am_unit a) = u then am_quantity a else 0)"

definition mintQty :: "string \<Rightarrow> MintAction list \<Rightarrow> int" where
  "mintQty u actions = (\<Sum>a\<leftarrow>actions. if ma_assetUnit a = u then ma_quantity a else 0)"

lemma qty_addTo [simp]: "qty_of (addTo u q v) w = qty_of v w + (if w = u then q else 0)"
  by (simp add: qty_of_def addTo_def)

lemma qty_lovelaces [simp]: "qty_of (lovelaces n) u = (if u = ''lovelace'' then n else 0)"
  by (simp add: qty_of_def lovelaces_def mget_def)

lemma qty_Nil [simp]: "qty_of [] u = 0"
  by (simp add: qty_of_def)

lemma addTo_wf [intro]: "jmap_wf m \<Longrightarrow> jmap_wf (addTo u q m)"
  by (simp add: addTo_def jmap_wf_mput)

lemma qty_fold_addTo:
  "qty_of (fold (\<lambda>x m. addTo (f x) (g x) m) xs v) u = qty_of v u + (\<Sum>x\<leftarrow>xs. if f x = u then g x else 0)"
  by (induction xs arbitrary: v) auto

lemma sum_entries:
  assumes "jmap_wf w"
  shows "(\<Sum>p\<leftarrow>w. if fst p = u then snd p else 0) = qty_of w u"
  using assms
proof (induction w)
  case (Cons p w)
  have "qty_of w (fst p) = 0" if "u = fst p"
    using Cons.prems by (auto simp: qty_of_def jmap_wf_def mget_None_iff [THEN iffD2] mkeys_def)
  with Cons show ?case by (auto simp: qty_of_def jmap_wf_def mget_def)
qed simp

lemma qty_addValue: "jmap_wf w \<Longrightarrow> qty_of (addValue v w) u = qty_of v u + qty_of w u"
  using qty_fold_addTo [of fst snd w v u] by (simp add: addValue_def split_def sum_entries)

lemma qty_amounts:
  "qty_of (fold (\<lambda>x m. fold (\<lambda>a m. addTo (f a) (s * am_quantity a) m) (x_amount x) m) us v) u
   = qty_of v u + s * (\<Sum>x\<leftarrow>us. \<Sum>a\<leftarrow>x_amount x. if f a = u then am_quantity a else 0)"
proof (induction us arbitrary: v)
  case (Cons x us)
  have "(\<Sum>a\<leftarrow>x_amount x. if f a = u then s * am_quantity a else 0) = s * (\<Sum>a\<leftarrow>x_amount x. if f a = u then am_quantity a else 0)"
    by (induction "x_amount x" rule: list.induct) (simp_all add: sum_list_const_mult [symmetric] if_distrib cong: if_cong)
  then show ?case by (simp add: Cons qty_fold_addTo algebra_simps)
qed simp

lemma unitSum_alt: "(\<Sum>a\<leftarrow>as. if am_unit a = u then am_quantity a else 0) = unitSum u as"
  by (induction as) simp_all

lemma qty_outputs: "qty_of (outputs_by_unit outs) u = outQty u outs"
proof -
  have "qty_of (fold (\<lambda>x m. fold (\<lambda>a m. addTo (am_unit a) (am_quantity a) m) (ox_assets x) (addTo ''lovelace'' (ox_lovelace x) m)) outs v) u
      = qty_of v u + outQty u outs" for v
    by (induction outs arbitrary: v) (simp_all add: qty_fold_addTo outQty_def unitSum_alt)
  then show ?thesis by (simp add: outputs_by_unit_def)
qed

lemma qty_amounts_by_unit: "qty_of (amounts_by_unit us) u = heldQty u us"
  using qty_amounts [of "\<lambda>a. if is_lovelace a then ''lovelace'' else am_unit a" 1 us "[]" u]
  by (simp add: amounts_by_unit_def heldQty_def)

lemma qty_need:
  "qty_of (plutusNeed outs spent mints ws ds) u
   = outQty u outs - heldQty u spent - mintQty u mints
     + (if u = ''lovelace'' then (\<Sum>(r, d)\<leftarrow>ds. if r then d else - d) - sum_list ws else 0)"
proof -
  have d: "(\<Sum>x\<leftarrow>ds. if u = ''lovelace'' then (case x of (r, d) \<Rightarrow> if r then d else - d) else 0)
      = (if u = ''lovelace'' then \<Sum>(r, d)\<leftarrow>ds. if r then d else - d else 0)" by (induction ds) auto
  have w: "(\<Sum>x\<leftarrow>ws. if u = ''lovelace'' then - x else 0) = (if u = ''lovelace'' then - sum_list ws else 0)" by (induction ws) auto
  have m: "(\<Sum>a\<leftarrow>mints. if ma_assetUnit a = u then - ma_quantity a else 0) = - mintQty u mints"
    unfolding mintQty_def by (induction mints) auto
  have split: "(\<lambda>(register, deposit) m. addTo ''lovelace'' (if register then deposit else - deposit) m)
      = (\<lambda>x m. addTo ''lovelace'' (case x of (r, d) \<Rightarrow> if r then d else - d) m)" by (auto simp: fun_eq_iff)
  show ?thesis
    using qty_amounts [of "\<lambda>a. if is_lovelace a then ''lovelace'' else am_unit a" "- 1" spent "outputs_by_unit outs" u] d w m
    unfolding plutusNeed_def split qty_fold_addTo
    by (simp add: eq_commute [of "''lovelace''"] qty_outputs heldQty_def)
qed

lemma need_wf: "jmap_wf (plutusNeed outs spent mints ws ds)"
  unfolding plutusNeed_def outputs_by_unit_def
  by (intro fold_invar [where P = jmap_wf]) (auto intro!: fold_invar [where P = jmap_wf] split: prod.split)

text \<open>The required value is the positive part of the need.\<close>

lemma qty_required:
  assumes "jmap_wf need" "toLowerCase u = ''lovelace'' \<longrightarrow> u = ''lovelace''"
  shows "qty_of (requiredValue need) u = max 0 (qty_of need u)"
proof -
  let ?pay = "\<lambda>p. if snd p \<le> 0 \<or> fst p \<noteq> u then 0 else snd (p :: string \<times> int)"
  have one: "qty_of (addValue v (if w = ''lovelace'' then lovelaces q else buildLedgerValue 0 [\<lparr>am_unit = w, am_quantity = q\<rparr>])) u
      = qty_of v u + (if w = u then q else 0)" if "q > 0" for v w q
  proof -
    have "jmap_wf (lovelaces n)" for n by (simp add: lovelaces_def jmap_wf_def)
    moreover from this have "jmap_wf (buildLedgerValue 0 [\<lparr>am_unit = w, am_quantity = q\<rparr>])"
      by (auto simp: buildLedgerValue_def)
    ultimately show ?thesis using that assms(2) by (auto simp: qty_addValue buildLedgerValue_def is_lovelace_def)
  qed
  have "qty_of (fold (\<lambda>(unit, q) v. if q \<le> 0 then v
             else addValue v (if unit = ''lovelace'' then lovelaces q
                              else buildLedgerValue 0 [\<lparr>am_unit = unit, am_quantity = q\<rparr>])) need v) u
      = qty_of v u + (\<Sum>p\<leftarrow>need. ?pay p)" for v
  proof (induction need arbitrary: v)
    case (Cons p need)
    obtain w q where p: "p = (w, q)" by (cases p)
    show ?case
    proof (cases "q \<le> 0")
      case False
      then have "q > 0" by simp
      from one [OF this, of v w] False show ?thesis by (simp add: Cons p)
    qed (simp add: Cons p)
  qed simp
  then have "qty_of (requiredValue need) u = (\<Sum>p\<leftarrow>need. ?pay p)" by (simp add: requiredValue_def)
  also have "\<dots> = max 0 (qty_of need u)" using assms(1)
  proof (induction need)
    case (Cons p need)
    have "mget need (fst p) = None" using Cons.prems by (auto simp: jmap_wf_def mget_None_iff mkeys_def)
    then have "(\<Sum>p\<leftarrow>need. ?pay p) = 0" if "fst p = u" using Cons that by (simp add: jmap_wf_def qty_of_def)
    with Cons show ?case by (auto simp: jmap_wf_def qty_of_def mget_def)
  qed simp
  finally show ?thesis .
qed

section \<open>Choosing from a sorted list\<close>

lemma find_sorted:
  assumes "find P (sort_key f xs) = Some u"
  shows "u \<in> set xs \<and> P u \<and> (\<forall>y \<in> set xs. P y \<longrightarrow> f u \<le> f y)"
proof -
  have "find P zs = Some u \<Longrightarrow> sorted (map f zs) \<Longrightarrow> u \<in> set zs \<and> P u \<and> (\<forall>y \<in> set zs. P y \<longrightarrow> f u \<le> f y)" for zs
    by (induction zs) (auto split: if_splits)
  from this [OF assms] show ?thesis by simp
qed

lemma last_sorted:
  assumes "sort_key f xs \<noteq> []"
  shows "last (sort_key f xs) \<in> set xs \<and> (\<forall>y \<in> set xs. f y \<le> f (last (sort_key f xs)))"
proof -
  have "zs \<noteq> [] \<Longrightarrow> sorted (map f zs) \<Longrightarrow> \<forall>y \<in> set zs. f y \<le> f (last zs)" for zs
    by (induction zs) (auto split: if_splits)
  from this [OF assms] last_in_set [OF assms] show ?thesis by simp
qed

lemma find_None_iff_list_ex: "find P xs = None \<longleftrightarrow> \<not> list_ex P xs"
  by (induction xs) auto

lemma candidate_ada_only: "isCollateralCandidate u \<Longrightarrow> assertAdaOnly u = Inr ()"
  by (auto simp: isCollateralCandidate_def assertAdaOnly_def list_all_iff throwIf_def filter_empty_conv)

lemma forcedChoice_Some:
  assumes "forcedChoice us0 forced sender = Some u"
  shows "u \<in> set forced \<and> isCollateralCandidate u \<and> coversFloor u \<and> toLowerCase (x_address u) = toLowerCase sender
    \<and> (\<forall>v \<in> set us0. isCollateralCandidate v \<longrightarrow> \<not> coversFloor v)"
proof -
  let ?fs = "filter (\<lambda>u. toLowerCase (x_address u) = toLowerCase sender \<and> isCollateralCandidate u \<and> coversFloor u) forced"
  from assms have no: "\<not> list_ex coversFloor (filter isCollateralCandidate us0)"
    and s: "\<exists>us. sort_key getLovelace ?fs = u # us"
    by (auto simp: forcedChoice_def split: if_splits list.splits)
  from s have "u \<in> set ?fs" by (metis list.set_intros(1) set_sort)
  with no show ?thesis by (auto simp: list_ex_iff)
qed

section \<open>The collateral chosen\<close>

lemma collateral_parts:
  assumes "setupCollateral minAda us0 required forced sender = Inr c"
  shows "isCollateralCandidate (co_chosen c)
    \<and> (\<forall>u \<in> set us0. isCollateralCandidate u \<and> coversFloor u \<longrightarrow>
          co_chosen c \<in> set us0 \<and> coversFloor (co_chosen c) \<and> getLovelace (co_chosen c) \<le> getLovelace u)
    \<and> (co_chosen c \<notin> set us0 \<longrightarrow> co_chosen c \<in> set forced \<and> coversFloor (co_chosen c)
          \<and> toLowerCase (x_address (co_chosen c)) = toLowerCase sender)
    \<and> (\<not> coversFloor (co_chosen c) \<longrightarrow> (\<forall>u \<in> set us0. isCollateralCandidate u \<longrightarrow> getLovelace u \<le> getLovelace (co_chosen c)))
    \<and> (\<forall>a n. co_return c = Some (a, n) \<longrightarrow> a = x_address (co_chosen c) \<and> getLovelace (co_chosen c) - n = COLLATERAL_LOVELACE \<and> minAda a n \<le> n)
    \<and> (co_chosen c \<in> set (co_funding c) \<longrightarrow>
          sum_list (map getLovelace (filter (\<lambda>u. \<not> (rf_txHash u = rf_txHash (co_chosen c) \<and> rf_outputIndex u = rf_outputIndex (co_chosen c))) us0))
            < required + FEE_BUFFER_LOVELACE + MIN_CHANGE_LOVELACE)
    \<and> set (co_funding c) \<subseteq> set us0 \<and> (distinct us0 \<longrightarrow> distinct (co_funding c))"
proof -
  let ?s = "sort_key getLovelace (filter isCollateralCandidate us0)"
  define fc where "fc = forcedChoice us0 forced sender"
  define chosen where "chosen = (case fc of Some u \<Rightarrow> u | None \<Rightarrow> (case find coversFloor ?s of Some u \<Rightarrow> u | None \<Rightarrow> last ?s))"
  define rest where "rest = filter (\<lambda>u. \<not> (rf_txHash u = rf_txHash chosen \<and> rf_outputIndex u = rf_outputIndex chosen)) us0"
  from assms have ne: "\<not> (?s = [] \<and> fc = None)"
    and c: "co_chosen c = chosen"
      "co_funding c = (if fc \<noteq> None \<or> sum_list (map getLovelace rest) \<ge> required + FEE_BUFFER_LOVELACE + MIN_CHANGE_LOVELACE
                      then rest else rest @ [chosen])"
      "co_return c = (if getLovelace chosen - COLLATERAL_LOVELACE > 0
                         \<and> getLovelace chosen - COLLATERAL_LOVELACE \<ge> minAda (x_address chosen) (getLovelace chosen - COLLATERAL_LOVELACE)
                      then Some (x_address chosen, getLovelace chosen - COLLATERAL_LOVELACE) else None)"
    unfolding setupCollateral_def Let_def fc_def [symmetric] chosen_def [symmetric] rest_def [symmetric]
    by (auto simp: sbind_Inr_iff split: if_splits)
  have ret: "\<forall>a n. co_return c = Some (a, n) \<longrightarrow> a = x_address chosen \<and> getLovelace chosen - n = COLLATERAL_LOVELACE \<and> minAda a n \<le> n"
    unfolding c(3) by auto
  have "chosen \<notin> set rest" by (simp add: rest_def)
  then have fund: "chosen \<in> set (co_funding c) \<longrightarrow> sum_list (map getLovelace rest) < required + FEE_BUFFER_LOVELACE + MIN_CHANGE_LOVELACE"
    unfolding c(2) by auto
  have pick: "isCollateralCandidate chosen
    \<and> (\<forall>u \<in> set us0. isCollateralCandidate u \<and> coversFloor u \<longrightarrow> chosen \<in> set us0 \<and> coversFloor chosen \<and> getLovelace chosen \<le> getLovelace u)
    \<and> (chosen \<notin> set us0 \<longrightarrow> chosen \<in> set forced \<and> coversFloor chosen \<and> toLowerCase (x_address chosen) = toLowerCase sender)
    \<and> (\<not> coversFloor chosen \<longrightarrow> (\<forall>u \<in> set us0. isCollateralCandidate u \<longrightarrow> getLovelace u \<le> getLovelace chosen))"
  proof (cases fc)
    case (Some u)
    then show ?thesis using forcedChoice_Some [of us0 forced sender u] by (auto simp: fc_def chosen_def)
  next
    case None
    show ?thesis
    proof (cases "find coversFloor ?s")
      case (Some u)
      with None have "chosen = u" by (simp add: chosen_def)
      then show ?thesis using find_sorted [OF Some] by auto
    next
      case f: None
      with None have l: "chosen = last ?s" by (simp add: chosen_def)
      have "?s \<noteq> []" using ne None by simp
      from last_sorted [OF this] have in1: "chosen \<in> set us0 \<and> isCollateralCandidate chosen"
        and most: "\<forall>y \<in> set us0. isCollateralCandidate y \<longrightarrow> getLovelace y \<le> getLovelace chosen" unfolding l by auto
      have "\<forall>y \<in> set us0. isCollateralCandidate y \<longrightarrow> \<not> coversFloor y" using f by (auto simp: find_None_iff_list_ex list_ex_iff)
      with in1 most show ?thesis by blast
    qed
  qed
  have "set (co_funding c) \<subseteq> set us0 \<and> (distinct us0 \<longrightarrow> distinct (co_funding c))"
  proof (cases "co_funding c = rest")
    case True
    then show ?thesis by (auto simp: rest_def)
  next
    case False
    then have f: "fc = None" "co_funding c = rest @ [chosen]" unfolding c(2) by (auto split: if_splits)
    have "chosen \<in> set us0"
    proof (rule ccontr)
      assume out: "chosen \<notin> set us0"
      have "?s \<noteq> []" using ne f(1) by simp
      from last_sorted [OF this] have "last ?s \<in> set us0" by simp
      moreover have "u \<in> set us0" if "find coversFloor ?s = Some u" for u using find_sorted [OF that] by simp
      ultimately show False using out f(1) by (auto simp: chosen_def split: option.splits)
    qed
    then show ?thesis unfolding f(2) by (auto simp: rest_def)
  qed
  then show ?thesis using pick ret fund unfolding c(1) rest_def by blast
qed

section \<open>Properties\<close>


definition demo_utxo :: "string \<Rightarrow> int \<Rightarrow> UTxO" where
  "demo_utxo h lovelace = \<lparr>rf_txHash = h, rf_outputIndex = 0, x_address = ''w'', x_amount = [\<lparr>am_unit = ''lovelace'', am_quantity = lovelace\<rparr>],
     x_datumHash = None, x_inlineDatum = None, x_scriptRef = None, x_scriptRefCbor = None, x_scriptRefSize = None\<rparr>"


lemma amounts_wf: "jmap_wf (amounts_by_unit us)"
  unfolding amounts_by_unit_def by (intro fold_invar [where P = jmap_wf]) (auto intro!: fold_invar [where P = jmap_wf])

lemma outQty_nonneg:
  assumes "\<forall>x \<in> set outs. 0 \<le> ox_lovelace x \<and> (\<forall>a \<in> set (ox_assets x). 0 \<le> am_quantity a)"
  shows "0 \<le> outQty u outs"
proof -
  have "0 \<le> unitSum u as" if "\<forall>a \<in> set as. 0 \<le> am_quantity a" for as using that by (induction as) auto
  then show ?thesis using assms unfolding outQty_def by (intro sum_list_nonneg) auto
qed

lemma heldQty_append: "heldQty u (a @ b) = heldQty u a + heldQty u b"
  by (simp add: heldQty_def)

text \<open>
  Value that a forced input of another owner brings does not end in the sender's change: once the
  check passes, every such owner's key is a required signer, and in a transaction that balances, whatever
  the change holds of a unit is covered by the other inputs and the mint.
\<close>

theorem foreign_value_is_spent:
  assumes "checkForeignForcedInputs creds forced sender signers outs = Inr ()"
    and "\<forall>x \<in> set outs. 0 \<le> ox_lovelace x \<and> (\<forall>a \<in> set (ox_assets x). 0 \<le> am_quantity a)"
    and "foreign = filter (\<lambda>u. toLowerCase (x_address u) \<noteq> toLowerCase sender) forced"
    and "heldQty unit (foreign @ others) + minted = outQty unit outs + fee + change"
  shows "fee + change \<le> heldQty unit others + minted
     \<and> (\<forall>u \<in> set foreign. \<exists>h. creds (x_address u) = Some (True, h) \<and> toLowerCase h \<in> toLowerCase ` set signers)"
proof -
  have f: "foreign = [] \<or>
      (\<not> list_ex (\<lambda>a. case creds a of None \<Rightarrow> True | Some (isKey, h) \<Rightarrow> \<not> isKey \<or> toLowerCase h \<notin> set (map toLowerCase signers)) (jset (map x_address foreign))
       \<and> \<not> list_ex (\<lambda>(unit, q). q > qty_of (outputs_by_unit outs) unit) (amounts_by_unit foreign))"
    using assms(1) unfolding checkForeignForcedInputs_def Let_def assms(3) [symmetric] by (auto split: if_splits)
  have "heldQty unit foreign \<le> outQty unit outs"
  proof (cases "foreign = []")
    case True
    then show ?thesis using outQty_nonneg [OF assms(2)] by (simp add: heldQty_def)
  next
    case False
    with f have le: "\<forall>(unit, q) \<in> set (amounts_by_unit foreign). q \<le> outQty unit outs"
      by (auto simp: list_ex_iff qty_outputs)
    show ?thesis
    proof (cases "mget (amounts_by_unit foreign) unit")
      case None
      then have "heldQty unit foreign = 0" unfolding qty_amounts_by_unit [symmetric] by (simp add: qty_of_def)
      then show ?thesis using outQty_nonneg [OF assms(2)] by simp
    next
      case (Some q)
      then have "heldQty unit foreign = q" unfolding qty_amounts_by_unit [symmetric] by (simp add: qty_of_def)
      with mget_SomeD [OF Some] le show ?thesis by auto
    qed
  qed
  then have "fee + change \<le> heldQty unit others + minted" using assms(4) by (simp add: heldQty_append)
  moreover have "\<exists>h. creds (x_address u) = Some (True, h) \<and> toLowerCase h \<in> toLowerCase ` set signers" if "u \<in> set foreign" for u
    using f that by (auto simp: list_ex_iff split: option.splits prod.splits)
  ultimately show ?thesis by blast
qed

theorem foreign_value_is_spent_witness:
  "(0::int) + (- 5000000) \<le> heldQty ''lovelace'' [] + 0"
proof -
  let ?us = "[demo_utxo ''a'' 3000000]" and ?outs = "[\<lparr>ox_address = ''w'', ox_lovelace = 8000000, ox_assets = []\<rparr>]"
  have "checkForeignForcedInputs (\<lambda>_. Some (True, ''k'')) ?us ''s'' [''k''] ?outs = Inr ()"
    by (simp add: checkForeignForcedInputs_def demo_utxo_def toLowerCase_def lower_char_def jset_def outputs_by_unit_def
        amounts_by_unit_def addTo_def mput_def upsert_def is_lovelace_def qty_of_def mget_def)
  from foreign_value_is_spent [OF this _ refl, of "''lovelace''" "[]" 0 0 "- 5000000"]
  show ?thesis
    by (simp add: demo_utxo_def toLowerCase_def lower_char_def heldQty_def outQty_def is_lovelace_def)
qed

end
