(* ===== verification/TxFees.thy ===== *)
theory TxFees imports Placeholders "HOL-Library.Log_Nat" "HOL-Library.Signed_Division" begin

text \<open>
  The fee of script transactions: reference-script bytes and their tiered price
  (\<open>srv/utils/reference-script.ts\<close>, \<open>buildooor-fee-patch.ts\<close>), and the execution units of the second
  build pass of \<open>buildooor-tx.ts\<close> (\<open>_buildScriptTx\<close>): evaluation results, the buffer, the units each
  redeemer gets, the fee floor for them. Bigints are \<open>int\<close> with truncating division; the floating-point
  product with 1.1 is written out on 53-bit significands. The library's build and its linear fee are arguments.
\<close>

section \<open>Reference-script bytes\<close>

text \<open>\<open>referenceScriptSize\<close>: a native script counts its CBOR, a Plutus script its bytes with the CBOR header.\<close>

datatype ref_script = NativeScript nat | PlutusScript nat

definition cborHeader :: "nat \<Rightarrow> nat" where
  "cborHeader n = (if n < 24 then 1 else if n < 256 then 2 else if n < 65536 then 3 else 5)"

fun referenceScriptSize :: "ref_script \<Rightarrow> nat" where
  "referenceScriptSize (NativeScript n) = n"
| "referenceScriptSize (PlutusScript n) = n + cborHeader n"

text \<open>\<open>sizePlaceholderScript\<close>: the length of the empty script that stands for one of ledger size \<open>n\<close>.\<close>

definition sizePlaceholderLength :: "nat \<Rightarrow> nat" where
  "sizePlaceholderLength n =
     (case find (\<lambda>k. k + cborHeader k = n) [n - 5..<Suc n] of Some k \<Rightarrow> k | None \<Rightarrow> n - 1)"

definition refScriptBytesOf :: "ref_script option list \<Rightarrow> ref_script option list \<Rightarrow> int" where
  "refScriptBytesOf inputs refInputs =
     sum_list (map (\<lambda>s. case s of Some r \<Rightarrow> int (referenceScriptSize r) | None \<Rightarrow> 0) (inputs @ refInputs))"

section \<open>The tiered price\<close>

record Rational =
  ra_num :: int
  ra_den :: int

definition REF_SCRIPT_TIER_BYTES :: int where "REF_SCRIPT_TIER_BYTES = 25600"

definition addTier :: "int \<Rightarrow> Rational \<Rightarrow> Rational \<Rightarrow> Rational" where
  "addTier bytes price acc =
     \<lparr>ra_num = ra_num acc * ra_den price + bytes * ra_num price * ra_den acc, ra_den = ra_den acc * ra_den price\<rparr>"

function tierLoop :: "int \<Rightarrow> Rational \<Rightarrow> Rational \<Rightarrow> Rational" where
  "tierLoop remaining price acc =
     (if remaining \<ge> REF_SCRIPT_TIER_BYTES
      then tierLoop (remaining - REF_SCRIPT_TIER_BYTES) \<lparr>ra_num = ra_num price * 6, ra_den = ra_den price * 5\<rparr>
             (addTier REF_SCRIPT_TIER_BYTES price acc)
      else addTier remaining price acc)"
  by pat_completeness auto
termination by (relation "measure (\<lambda>(remaining, _, _). nat remaining)") (auto simp: REF_SCRIPT_TIER_BYTES_def)

declare tierLoop.simps [simp del]

definition tierRefScriptFee :: "int \<Rightarrow> Rational \<Rightarrow> int" where
  "tierRefScriptFee totalBytes pricePerByte =
     (let acc = tierLoop totalBytes pricePerByte \<lparr>ra_num = 0, ra_den = 1\<rparr> in ra_num acc sdiv ra_den acc)"

text \<open>\<open>calcMinFeeWithRefScripts\<close>: \<open>linearFee\<close> and \<open>nVkeyWits\<close> are the library's.\<close>

definition calcMinFeeWithRefScripts :: "int \<Rightarrow> int \<Rightarrow> int \<Rightarrow> int \<Rightarrow> Rational \<Rightarrow> int option \<Rightarrow> int" where
  "calcMinFeeWithRefScripts linearFee perByte nVkeyWits refBytes price minimum =
     (let minFee = linearFee + tierRefScriptFee refBytes price + 104 * nVkeyWits * perByte
            + (if nVkeyWits < 24 then 1 else if nVkeyWits < 256 then 2 else 4) * perByte
      in case minimum of None \<Rightarrow> minFee | Some m \<Rightarrow> if minFee < m then m else minFee)"

section \<open>Execution units\<close>

record ExUnits =
  eu_mem :: int
  eu_cpu :: int

datatype TxRedeemerTag = Spend | Mint | Cert | Withdraw | Voting | Proposing

record TxRedeemer =
  rd_tag :: TxRedeemerTag
  rd_index :: int
  rd_units :: ExUnits

definition redeemerKey :: "TxRedeemer \<Rightarrow> TxRedeemerTag \<times> int" where
  "redeemerKey r = (rd_tag r, rd_index r)"

definition cborUIntLength :: "int \<Rightarrow> int" where
  "cborUIntLength n = (if n < 24 then 1 else if n < 256 then 2 else if n < 65536 then 3 else if n < 4294967296 then 5 else 9)"

definition ceilDiv :: "int \<Rightarrow> int \<Rightarrow> int" where
  "ceilDiv a b = (a + b - 1) sdiv b"

definition maxBig :: "int \<Rightarrow> int \<Rightarrow> int" where
  "maxBig a b = (if a > b then a else b)"

text \<open>
  \<open>Math.ceil(Number(n) * 1.1)\<close> for a natural number below \<open>2^53\<close>: 1.1 is the double \<open>M / 2^51\<close>, the
  product is rounded to 53 significant bits, ties to even.
\<close>

definition BUFFER_MANTISSA :: int where "BUFFER_MANTISSA = 2476979795053773"

definition round53 :: "int \<Rightarrow> int" where
  "round53 p =
     (let e = nat (bitlen p - 53); q = p div 2 ^ e; r = 2 * (p mod 2 ^ e)
      in (if r > 2 ^ e \<or> (r = 2 ^ e \<and> odd q) then q + 1 else q) * 2 ^ e)"

definition bufferedUnits :: "int \<Rightarrow> int" where
  "bufferedUnits n = - ((- round53 (n * BUFFER_MANTISSA)) div 2 ^ 51)"

definition ABS_MEM_BUFFER :: int where "ABS_MEM_BUFFER = 5000"
definition ABS_CPU_BUFFER :: int where "ABS_CPU_BUFFER = 200000"

definition applyExUnitBuffer :: "int \<Rightarrow> int \<Rightarrow> ExUnits" where
  "applyExUnitBuffer mem cpu = \<lparr>eu_mem = bufferedUnits mem + ABS_MEM_BUFFER, eu_cpu = bufferedUnits cpu + ABS_CPU_BUFFER\<rparr>"

section \<open>Evaluation results\<close>

definition PURPOSE_TO_TAG :: "string \<Rightarrow> TxRedeemerTag option" where
  "PURPOSE_TO_TAG p =
     map_of [(''spend'', Spend), (''mint'', Mint), (''publish'', Cert), (''certificate'', Cert), (''withdraw'', Withdraw),
             (''withdrawal'', Withdraw)] p"

text \<open>A validator as text \<open>purpose:index\<close> or as an object.\<close>

datatype ScriptValidator = ValidatorText string | ValidatorPointer string int

text \<open>
  The index of the text form: \<open>Number\<close> of the part between the first two colons; \<open>None\<close> stands for
  what is no integer. Other notations of integers (signs, spaces, exponents) are not read.
\<close>

definition validatorPointer :: "ScriptValidator \<Rightarrow> string \<times> int option" where
  "validatorPointer v =
     (case v of
        ValidatorPointer p i \<Rightarrow> (p, Some i)
      | ValidatorText s \<Rightarrow>
          (takeWhile (\<lambda>c. c \<noteq> CHR '':'') s,
           case dropWhile (\<lambda>c. c \<noteq> CHR '':'') s of
             [] \<Rightarrow> None
           | _ # r \<Rightarrow> (let i = takeWhile (\<lambda>c. c \<noteq> CHR '':'') r
                      in if i = [] then Some 0 else if digits i then Some (decimal_value i) else None)))"

record ScriptEvaluationResult =
  ev_validator :: ScriptValidator
  ev_memory :: int
  ev_cpu :: int

type_synonym evaluated_units = "(TxRedeemerTag \<times> int, ExUnits) jmap"

definition readEvaluation :: "ScriptEvaluationResult \<Rightarrow> evaluated_units \<Rightarrow> evaluated_units" where
  "readEvaluation e m =
     (case validatorPointer (ev_validator e) of
        (purpose, Some index) \<Rightarrow>
          (case PURPOSE_TO_TAG purpose of
             None \<Rightarrow> m
           | Some tag \<Rightarrow> mput m (tag, index) (applyExUnitBuffer (ev_memory e) (ev_cpu e)))
      | (purpose, None) \<Rightarrow> m)"

text \<open>Without an evaluator there is nothing; a rejection by the ledger is rethrown, other failures are ignored.\<close>

definition evaluateExUnitsByRedeemer ::
  "(backend_error + ScriptEvaluationResult list) \<Rightarrow> backend_error + evaluated_units option" where
  "evaluateExUnitsByRedeemer evaluation =
     (case evaluation of
        Inl err \<Rightarrow> if instanceof err TransactionValidationC \<or> instanceof err ScriptValidationC then Inl err else Inr None
      | Inr results \<Rightarrow> (let byRedeemer = fold readEvaluation results [] in
          Inr (if results = [] \<or> byRedeemer = [] then None else Some byRedeemer)))"

section \<open>The second pass\<close>

text \<open>All entries of a list, the first error wins.\<close>

fun each :: "('a \<Rightarrow> 'e + 'b) \<Rightarrow> 'a list \<Rightarrow> 'e + 'b list" where
  "each f [] = Inr []"
| "each f (x # xs) = sbind (f x) (\<lambda>y. sbind (each f xs) (\<lambda>ys. Inr (y # ys)))"

definition targetUnits ::
  "evaluated_units option \<Rightarrow> (TxRedeemerTag \<times> int) list \<Rightarrow> TxRedeemer \<Rightarrow> backend_error + ExUnits" where
  "targetUnits evaluatedUnits failures r =
     (let local = rd_units r;
          evaluated = (case evaluatedUnits of None \<Rightarrow> None | Some m \<Rightarrow> mget m (redeemerKey r))
      in if redeemerKey r \<in> set failures then (case evaluated of None \<Rightarrow> Inl invalid | Some u \<Rightarrow> Inr u)
         else Inr (case evaluated of
             Some u \<Rightarrow> \<lparr>eu_mem = maxBig (eu_mem local) (eu_mem u), eu_cpu = maxBig (eu_cpu local) (eu_cpu u)\<rparr>
           | None \<Rightarrow> applyExUnitBuffer (eu_mem local) (eu_cpu local)))"

definition resolveTargetExUnits ::
  "TxRedeemer list \<Rightarrow> evaluated_units option \<Rightarrow> (TxRedeemerTag \<times> int) list \<Rightarrow> backend_error + ExUnits list" where
  "resolveTargetExUnits rdmrs evaluatedUnits failures = each (targetUnits evaluatedUnits failures) rdmrs"

definition growth :: "(ExUnits \<Rightarrow> int) \<Rightarrow> TxRedeemer list \<Rightarrow> ExUnits list \<Rightarrow> int" where
  "growth f rdmrs targets = sum_list (map2 (\<lambda>r t. let d = f t - f (rd_units r) in if d > 0 then d else 0) rdmrs targets)"

text \<open>Prices in the normalized form, a rational each for memory and steps.\<close>

definition exUnitsPriceDelta :: "Rational \<times> Rational \<Rightarrow> TxRedeemer list \<Rightarrow> ExUnits list \<Rightarrow> int" where
  "exUnitsPriceDelta prices rdmrs targets =
     (let deltaMem = growth eu_mem rdmrs targets; deltaCpu = growth eu_cpu rdmrs targets
      in if deltaMem = 0 \<and> deltaCpu = 0 then 0
         else ceilDiv (deltaMem * ra_num (fst prices)) (ra_den (fst prices))
            + ceilDiv (deltaCpu * ra_num (snd prices)) (ra_den (snd prices)))"

definition exUnitsSizeDelta :: "TxRedeemer list \<Rightarrow> ExUnits list \<Rightarrow> int" where
  "exUnitsSizeDelta rdmrs targets =
     growth (\<lambda>u. cborUIntLength (eu_mem u)) rdmrs targets + growth (\<lambda>u. cborUIntLength (eu_cpu u)) rdmrs targets"

text \<open>\<open>datumGrowth\<close>: bytes by which the datums written later are longer than the ones built with.\<close>

definition feeFloor :: "Rational \<times> Rational \<Rightarrow> int \<Rightarrow> int \<Rightarrow> int \<Rightarrow> TxRedeemer list \<Rightarrow> ExUnits list \<Rightarrow> int" where
  "feeFloor prices perByte datumGrowth fee rdmrs targets =
     fee + exUnitsPriceDelta prices rdmrs targets + exUnitsSizeDelta rdmrs targets * perByte
       + datumGrowth * perByte + 10 * perByte"

record built_tx =
  bt_fee :: int
  bt_redeemers :: "TxRedeemer list"

definition stampExecUnits :: "built_tx \<Rightarrow> ExUnits list \<Rightarrow> built_tx" where
  "stampExecUnits tx targets = tx\<lparr>bt_redeemers := map2 (\<lambda>r t. r\<lparr>rd_units := t\<rparr>) (bt_redeemers tx) targets\<rparr>"

text \<open>
  \<open>_buildScriptTx\<close>: \<open>build fee\<close> is the library's build with the redeemers whose scripts failed locally,
  \<open>None\<close> where it fails; \<open>evaluator\<close>, when there is one, evaluates the first pass; a transaction
  without redeemers is returned as built (\<open>plain\<close>, with the caller's datums written).
\<close>

definition buildScriptTx ::
  "Rational \<times> Rational \<Rightarrow> int \<Rightarrow> int \<Rightarrow> (int option \<Rightarrow> (built_tx \<times> (TxRedeemerTag \<times> int) list) option)
     \<Rightarrow> (built_tx \<Rightarrow> backend_error + built_tx) \<Rightarrow> (built_tx \<Rightarrow> backend_error + ScriptEvaluationResult list) option
     \<Rightarrow> backend_error + built_tx" where
  "buildScriptTx prices perByte datumGrowth build plain evaluator =
     (case build None of
        None \<Rightarrow> Inl invalid
      | Some (tx1, failures1) \<Rightarrow>
          if bt_redeemers tx1 = [] then plain tx1
          else sbind (case evaluator of None \<Rightarrow> Inr None | Some ev \<Rightarrow> evaluateExUnitsByRedeemer (ev tx1)) (\<lambda>evaluatedUnits.
            sbind (resolveTargetExUnits (bt_redeemers tx1) evaluatedUnits failures1) (\<lambda>targets1.
              case build (Some (feeFloor prices perByte datumGrowth (bt_fee tx1) (bt_redeemers tx1) targets1)) of
                None \<Rightarrow> Inl invalid
              | Some (tx2, failures2) \<Rightarrow>
                  sbind (resolveTargetExUnits (bt_redeemers tx2) evaluatedUnits failures2) (\<lambda>targets2.
                    Inr (stampExecUnits tx2 targets2)))))"

section \<open>The tiered price is the ledger's\<close>

text \<open>The ledger's rule stated byte by byte: byte \<open>k\<close> costs the price times 1.2 for every full tier before it.\<close>

definition ratio :: "Rational \<Rightarrow> rat" where
  "ratio r = of_int (ra_num r) / of_int (ra_den r)"

definition tier_price :: "Rational \<Rightarrow> nat \<Rightarrow> rat" where
  "tier_price price len = (\<Sum>k<len. ratio price * (6 / 5) ^ (k div 25600))"

lemma sum_lessThan_shift: "(\<Sum>k<a + (b::nat). f k) = (\<Sum>k<a. f k) + (\<Sum>k<b. f (a + k) :: rat)"
  by (induction b) (simp_all add: add.assoc)

lemma tier_price_small: "n \<le> 25600 \<Longrightarrow> tier_price price n = of_nat n * ratio price"
  by (simp add: tier_price_def)

lemma tier_price_step:
  "tier_price price (25600 + n) = 25600 * ratio price + tier_price \<lparr>ra_num = ra_num price * 6, ra_den = ra_den price * 5\<rparr> n"
proof -
  have "(\<Sum>k<n. ratio price * (6 / 5) ^ ((25600 + k) div 25600))
      = tier_price \<lparr>ra_num = ra_num price * 6, ra_den = ra_den price * 5\<rparr> n"
    unfolding tier_price_def by (intro sum.cong refl) (simp add: ratio_def)
  then show ?thesis
    using tier_price_small [of 25600 price] unfolding tier_price_def sum_lessThan_shift by simp
qed

lemma ratio_addTier:
  "0 < ra_den price \<Longrightarrow> 0 < ra_den acc \<Longrightarrow> ratio (addTier b price acc) = ratio acc + of_int b * ratio price"
  by (simp add: ratio_def addTier_def field_simps)

lemma tierLoop_price:
  assumes "0 < ra_den price" "0 < ra_den acc" "0 \<le> r"
  shows "0 < ra_den (tierLoop r price acc) \<and> ratio (tierLoop r price acc) = ratio acc + tier_price price (nat r)"
  using assms
proof (induction r price acc rule: tierLoop.induct)
  case (1 r price acc)
  show ?case
  proof (cases "r \<ge> REF_SCRIPT_TIER_BYTES")
    case True
    then have n: "nat r = 25600 + nat (r - REF_SCRIPT_TIER_BYTES)" by (simp add: REF_SCRIPT_TIER_BYTES_def)
    have "ratio (addTier REF_SCRIPT_TIER_BYTES price acc) = ratio acc + 25600 * ratio price"
      using 1(2,3) by (simp add: ratio_addTier REF_SCRIPT_TIER_BYTES_def)
    with 1(1) [OF True] 1(2-4) True show ?thesis
      unfolding tierLoop.simps [of r] n tier_price_step by (simp add: addTier_def)
  next
    case False
    with 1(2-4) show ?thesis
      unfolding tierLoop.simps [of r]
      by (simp add: ratio_addTier tier_price_small REF_SCRIPT_TIER_BYTES_def) (simp add: addTier_def)
  qed
qed

lemma tier_price_mono: "0 \<le> ratio price \<Longrightarrow> m \<le> n \<Longrightarrow> 0 \<le> tier_price price m \<and> tier_price price m \<le> tier_price price n"
  unfolding tier_price_def by (auto intro!: sum_nonneg sum_mono2)

lemma tier_fee_floor:
  assumes "0 \<le> ra_num price" "0 < ra_den price" "0 \<le> len"
  shows "tierRefScriptFee len price = \<lfloor>tier_price price (nat len)\<rfloor>"
proof -
  define acc where "acc = tierLoop len price \<lparr>ra_num = 0, ra_den = 1\<rparr>"
  have acc: "0 < ra_den acc" "ratio acc = tier_price price (nat len)"
    using tierLoop_price [of price "\<lparr>ra_num = 0, ra_den = 1\<rparr>" len] assms by (simp_all add: acc_def ratio_def)
  have "0 \<le> ratio price" using assms by (simp add: ratio_def)
  then have "0 \<le> ratio acc" using tier_price_mono [of price "nat len" "nat len"] acc(2) by simp
  then have "0 \<le> ra_num acc" using acc(1) by (simp add: ratio_def zero_le_divide_iff)
  then have "ra_num acc sdiv ra_den acc = ra_num acc div ra_den acc"
    using acc(1) by (cases "ra_num acc = 0") (simp_all add: signed_divide_int_def)
  then show ?thesis
    unfolding tierRefScriptFee_def acc_def [symmetric] Let_def acc(2) [symmetric] ratio_def
    by (simp add: floor_divide_of_int_eq)
qed

section \<open>Placeholders cover the size they stand for\<close>

lemma cborHeader_bounds: "1 \<le> cborHeader n \<and> cborHeader n \<le> 5"
  by (simp add: cborHeader_def)

lemma placeholder_size:
  "n \<le> referenceScriptSize (PlutusScript (sizePlaceholderLength n)) \<and> referenceScriptSize (PlutusScript (sizePlaceholderLength n)) \<le> n + 4"
proof (cases "find (\<lambda>k. k + cborHeader k = n) [n - 5..<Suc n]")
  case None
  then have "sizePlaceholderLength n = n - 1" by (simp add: sizePlaceholderLength_def del: upt_Suc)
  then show ?thesis using cborHeader_bounds [of "n - 1"] by (cases n) (simp_all add: cborHeader_def [of 0])
next
  case (Some k)
  then have "k + cborHeader k = n" unfolding find_Some_iff by blast
  moreover from Some have "sizePlaceholderLength n = k" by (simp add: sizePlaceholderLength_def del: upt_Suc)
  ultimately show ?thesis by simp
qed

lemma placeholder_bytes:
  "(\<Sum>n\<leftarrow>sizes. int n) \<le> refScriptBytesOf (map (\<lambda>n. Some (PlutusScript (sizePlaceholderLength n))) sizes) []"
proof (induction sizes)
  case (Cons n sizes)
  then show ?case using placeholder_size [of n] by (simp add: refScriptBytesOf_def)
qed (simp add: refScriptBytesOf_def)

section \<open>Bounds of the buffered units\<close>

lemma round53_bounds:
  assumes "0 \<le> p" "p < 2 ^ 100"
  shows "p - 2 ^ 47 \<le> round53 p" "round53 p \<le> p + 2 ^ 47"
proof -
  define e where "e = nat (bitlen p - 53)"
  have "bitlen p \<le> 100" using assms by (simp add: bitlen_le_iff_power)
  then have e: "(2::int) ^ e \<le> 2 ^ 47" unfolding e_def by (intro power_increasing) auto
  define q m E where "q = p div 2 ^ e" and "m = p mod 2 ^ e" and "E = (2::int) ^ e"
  have "p = q * E + m" "0 \<le> m" "m < E" using div_mult_mod_eq [of p "2 ^ e"] by (simp_all add: q_def m_def E_def)
  then have "p - E \<le> (if 2 * m > E \<or> (2 * m = E \<and> odd q) then q + 1 else q) * E
      \<and> (if 2 * m > E \<or> (2 * m = E \<and> odd q) then q + 1 else q) * E \<le> p + E"
    by (auto simp: distrib_right)
  then have "p - 2 ^ e \<le> round53 p \<and> round53 p \<le> p + 2 ^ e"
    unfolding round53_def e_def [symmetric] Let_def q_def m_def E_def .
  with e show "p - 2 ^ 47 \<le> round53 p" "round53 p \<le> p + 2 ^ 47" by linarith+
qed

lemma ceil_div_bounds:
  fixes R c :: int
  assumes "0 < c"
  shows "R \<le> - ((- R) div c) * c" "- ((- R) div c) * c < R + c"
proof -
  have "(- R) div c * c + (- R) mod c = - R" "0 \<le> (- R) mod c" "(- R) mod c < c" using assms by simp_all
  then show "R \<le> - ((- R) div c) * c" "- ((- R) div c) * c < R + c" unfolding mult_minus_left by linarith+
qed

lemma buffered_bounds:
  assumes "0 \<le> n" "n < 2 ^ 48"
  shows "11 * n \<le> 10 * bufferedUnits n" "10 * bufferedUnits n \<le> 11 * n + 10" "n \<le> bufferedUnits n"
proof -
  have "n * BUFFER_MANTISSA < 2 ^ 48 * 2 ^ 52"
    using assms by (intro mult_strict_mono) (simp_all add: BUFFER_MANTISSA_def)
  then have p: "0 \<le> n * BUFFER_MANTISSA" "n * BUFFER_MANTISSA < 2 ^ 100"
    using assms(1) by (simp_all add: BUFFER_MANTISSA_def)
  define R where "R = round53 (n * BUFFER_MANTISSA)"
  have R: "n * BUFFER_MANTISSA - 2 ^ 47 \<le> R" "R \<le> n * BUFFER_MANTISSA + 2 ^ 47"
    unfolding R_def by (rule round53_bounds [OF p])+
  define B where "B = bufferedUnits n"
  have B: "R \<le> B * 2 ^ 51" "B * 2 ^ 51 < R + 2 ^ 51"
    using ceil_div_bounds [of "2 ^ 51" R] by (simp_all add: B_def bufferedUnits_def R_def)
  have "11 * n \<le> 10 * B" using R(1) B(1) assms unfolding BUFFER_MANTISSA_def by simp
  moreover have "10 * B \<le> 11 * n + 10" using R(2) B(2) assms unfolding BUFFER_MANTISSA_def by simp
  ultimately show "11 * n \<le> 10 * bufferedUnits n" "10 * bufferedUnits n \<le> 11 * n + 10" "n \<le> bufferedUnits n"
    using assms(1) unfolding B_def by linarith+
qed

section \<open>The fee floor covers the stamped units\<close>

text \<open>What the ledger charges for execution units, and the bytes the units take in the redeemers.\<close>

definition scriptFee :: "Rational \<times> Rational \<Rightarrow> ExUnits list \<Rightarrow> int" where
  "scriptFee prices us =
     \<lceil>ratio (fst prices) * of_int (\<Sum>u\<leftarrow>us. eu_mem u) + ratio (snd prices) * of_int (\<Sum>u\<leftarrow>us. eu_cpu u)\<rceil>"

definition unitBytes :: "ExUnits list \<Rightarrow> int" where
  "unitBytes us = (\<Sum>u\<leftarrow>us. cborUIntLength (eu_mem u) + cborUIntLength (eu_cpu u))"

lemma growth_covers:
  assumes "length rdmrs = length targets"
  shows "(\<Sum>u\<leftarrow>targets. f u) \<le> (\<Sum>r\<leftarrow>rdmrs. f (rd_units r)) + growth f rdmrs targets" "0 \<le> growth f rdmrs targets"
  using assms by (induction rdmrs targets rule: list_induct2) (auto simp: growth_def Let_def)

lemma ceilDiv_covers:
  assumes "0 \<le> a" "0 < b"
  shows "(of_int a :: rat) / of_int b \<le> of_int (ceilDiv a b)"
proof -
  have c: "ceilDiv a b = (a + b - 1) div b"
    using assms by (cases "a + b - 1 = 0") (simp_all add: ceilDiv_def signed_divide_int_def)
  have "(a + b - 1) div b * b + (a + b - 1) mod b = a + b - 1" "(a + b - 1) mod b < b" using assms(2) by simp_all
  then have "a \<le> ceilDiv a b * b" unfolding c by linarith
  then have "(of_int a :: rat) \<le> of_int (ceilDiv a b) * of_int b" by (metis of_int_le_iff of_int_mult)
  then show ?thesis using assms(2) by (simp add: divide_le_eq)
qed

lemma price_delta_covers:
  assumes len: "length rdmrs = length targets"
    and pm: "0 \<le> ra_num (fst prices)" "0 < ra_den (fst prices)" and pc: "0 \<le> ra_num (snd prices)" "0 < ra_den (snd prices)"
  shows "scriptFee prices targets \<le> scriptFee prices (map rd_units rdmrs) + exUnitsPriceDelta prices rdmrs targets"
proof -
  let ?dm = "growth eu_mem rdmrs targets" and ?dc = "growth eu_cpu rdmrs targets"
  have d0: "0 \<le> ?dm" "0 \<le> ?dc" using growth_covers(2) [OF len] by blast+
  have "ratio (fst prices) * of_int ?dm + ratio (snd prices) * of_int ?dc \<le> of_int (exUnitsPriceDelta prices rdmrs targets)"
    using ceilDiv_covers [of "?dm * ra_num (fst prices)" "ra_den (fst prices)"]
      ceilDiv_covers [of "?dc * ra_num (snd prices)" "ra_den (snd prices)"] d0 pm pc
    by (simp add: exUnitsPriceDelta_def Let_def ratio_def mult.commute)
  moreover have "ratio (fst prices) * of_int (\<Sum>u\<leftarrow>targets. eu_mem u)
      \<le> ratio (fst prices) * of_int ((\<Sum>r\<leftarrow>rdmrs. eu_mem (rd_units r)) + ?dm)"
    using growth_covers(1) [OF len, of eu_mem] pm by (intro mult_left_mono) (simp_all add: ratio_def)
  moreover have "ratio (snd prices) * of_int (\<Sum>u\<leftarrow>targets. eu_cpu u)
      \<le> ratio (snd prices) * of_int ((\<Sum>r\<leftarrow>rdmrs. eu_cpu (rd_units r)) + ?dc)"
    using growth_covers(1) [OF len, of eu_cpu] pc by (intro mult_left_mono) (simp_all add: ratio_def)
  ultimately have "ratio (fst prices) * of_int (\<Sum>u\<leftarrow>targets. eu_mem u) + ratio (snd prices) * of_int (\<Sum>u\<leftarrow>targets. eu_cpu u)
      \<le> (ratio (fst prices) * of_int (\<Sum>r\<leftarrow>rdmrs. eu_mem (rd_units r)) + ratio (snd prices) * of_int (\<Sum>r\<leftarrow>rdmrs. eu_cpu (rd_units r)))
        + of_int (exUnitsPriceDelta prices rdmrs targets)"
    by (simp add: distrib_left)
  from ceiling_mono [OF this] show ?thesis unfolding scriptFee_def by (simp add: comp_def)
qed

lemma size_delta_covers:
  assumes "length rdmrs = length targets"
  shows "unitBytes targets \<le> unitBytes (map rd_units rdmrs) + exUnitsSizeDelta rdmrs targets"
  using growth_covers(1) [OF assms, of "\<lambda>u. cborUIntLength (eu_mem u)"] growth_covers(1) [OF assms, of "\<lambda>u. cborUIntLength (eu_cpu u)"]
  by (simp add: unitBytes_def exUnitsSizeDelta_def sum_list_addf comp_def)

section \<open>Every stamped unit is certified\<close>

text \<open>What units a redeemer of the second pass may end up with.\<close>

definition certified :: "evaluated_units option \<Rightarrow> (TxRedeemerTag \<times> int) list \<Rightarrow> TxRedeemer \<Rightarrow> ExUnits \<Rightarrow> bool" where
  "certified evaluatedUnits failures r u \<longleftrightarrow>
     (let evaluated = (case evaluatedUnits of None \<Rightarrow> None | Some m \<Rightarrow> mget m (redeemerKey r))
      in (redeemerKey r \<in> set failures \<longrightarrow> evaluated = Some u)
       \<and> (redeemerKey r \<notin> set failures \<longrightarrow> eu_mem (rd_units r) \<le> eu_mem u \<and> eu_cpu (rd_units r) \<le> eu_cpu u)
       \<and> (\<forall>x. evaluated = Some x \<longrightarrow> eu_mem x \<le> eu_mem u \<and> eu_cpu x \<le> eu_cpu u))"

definition units_in_range :: "TxRedeemer \<Rightarrow> bool" where
  "units_in_range r \<longleftrightarrow> 0 \<le> eu_mem (rd_units r) \<and> eu_mem (rd_units r) < 2 ^ 48 \<and> 0 \<le> eu_cpu (rd_units r) \<and> eu_cpu (rd_units r) < 2 ^ 48"

lemma target_certified:
  assumes "targetUnits evaluatedUnits failures r = Inr u" "units_in_range r"
  shows "certified evaluatedUnits failures r u"
  using assms buffered_bounds(3) [of "eu_mem (rd_units r)"] buffered_bounds(3) [of "eu_cpu (rd_units r)"]
  by (auto simp: targetUnits_def certified_def units_in_range_def Let_def maxBig_def applyExUnitBuffer_def
      ABS_MEM_BUFFER_def ABS_CPU_BUFFER_def split: if_splits option.splits)

lemma each_Inr: "each f xs = Inr ys \<longleftrightarrow> list_all2 (\<lambda>x y. f x = Inr y) xs ys"
  by (induction xs arbitrary: ys) (auto simp: sbind_Inr_iff list_all2_Cons1)

lemma targets_certified:
  assumes "resolveTargetExUnits rdmrs evaluatedUnits failures = Inr targets" "list_all units_in_range rdmrs"
  shows "list_all2 (certified evaluatedUnits failures) rdmrs targets"
proof -
  have "list_all2 (\<lambda>r u. targetUnits evaluatedUnits failures r = Inr u) rdmrs targets"
    using assms(1) by (simp add: resolveTargetExUnits_def each_Inr)
  then show ?thesis using assms(2)
    by (auto simp: list_all2_conv_all_nth list_all_length intro: target_certified)
qed

lemma buildScriptTx_parts:
  assumes "buildScriptTx prices perByte g build plain evaluator = Inr tx" "build None = Some (tx1, failures1)" "bt_redeemers tx1 \<noteq> []"
  obtains evaluated targets1 tx2 failures2 targets2 where
    "(case evaluator of None \<Rightarrow> Inr None | Some ev \<Rightarrow> evaluateExUnitsByRedeemer (ev tx1)) = Inr evaluated"
    "resolveTargetExUnits (bt_redeemers tx1) evaluated failures1 = Inr targets1"
    "build (Some (feeFloor prices perByte g (bt_fee tx1) (bt_redeemers tx1) targets1)) = Some (tx2, failures2)"
    "resolveTargetExUnits (bt_redeemers tx2) evaluated failures2 = Inr targets2"
    "tx = stampExecUnits tx2 targets2"
  using assms unfolding buildScriptTx_def by (auto simp: sbind_Inr_iff split: option.splits)

section \<open>Properties\<close>

text \<open>
  C22. The reference-script fee is the ledger's: each byte costs the price times 1.2 for every 25600 bytes
  before it, summed exactly and rounded down once. A script that is known by its size only is never
  charged less than the real one, since its placeholder is at least as long.
\<close>

theorem ref_script_fee_exact:
  assumes "0 \<le> ra_num price" "0 < ra_den price" "0 \<le> len"
  shows "tierRefScriptFee len price = \<lfloor>\<Sum>k<nat len. ratio price * (6 / 5) ^ (k div 25600)\<rfloor>
    \<and> tierRefScriptFee (\<Sum>n\<leftarrow>sizes. int n) price
        \<le> tierRefScriptFee (refScriptBytesOf (map (\<lambda>n. Some (PlutusScript (sizePlaceholderLength n))) sizes) []) price"
proof
  show "tierRefScriptFee len price = \<lfloor>\<Sum>k<nat len. ratio price * (6 / 5) ^ (k div 25600)\<rfloor>"
    using tier_fee_floor [OF assms] by (simp add: tier_price_def)
  have "0 \<le> (\<Sum>n\<leftarrow>sizes. int n)" by (induction sizes) simp_all
  moreover have "0 \<le> ratio price" using assms by (simp add: ratio_def)
  ultimately show "tierRefScriptFee (\<Sum>n\<leftarrow>sizes. int n) price
      \<le> tierRefScriptFee (refScriptBytesOf (map (\<lambda>n. Some (PlutusScript (sizePlaceholderLength n))) sizes) []) price"
    using placeholder_bytes [of sizes] by (simp add: tier_fee_floor assms floor_mono tier_price_mono nat_mono)
qed

theorem ref_script_fee_exact_witness:
  "tierRefScriptFee 30000 \<lparr>ra_num = 15, ra_den = 1\<rparr> = \<lfloor>\<Sum>k<nat 30000. ratio \<lparr>ra_num = 15, ra_den = 1\<rparr> * (6 / 5) ^ (k div 25600)\<rfloor>"
  using ref_script_fee_exact [of "\<lparr>ra_num = 15, ra_den = 1\<rparr>" 30000 "[]"] by simp

text \<open>
  C26. The fee floor of the second pass covers the units it stamps: over the first pass's fee it adds at
  least what the ledger charges more for the stamped units, their longer encoding, and ten bytes.
\<close>

theorem fee_floor_covers_units:
  assumes "length rdmrs = length targets" "0 \<le> perByte"
    and "0 \<le> ra_num pm" "0 < ra_den pm" "0 \<le> ra_num pc" "0 < ra_den pc"
  shows "fee + (scriptFee (pm, pc) targets - scriptFee (pm, pc) (map rd_units rdmrs))
           + (unitBytes targets - unitBytes (map rd_units rdmrs) + g + 10) * perByte
         \<le> feeFloor (pm, pc) perByte g fee rdmrs targets"
proof -
  have "(unitBytes targets - unitBytes (map rd_units rdmrs)) * perByte \<le> exUnitsSizeDelta rdmrs targets * perByte"
    using size_delta_covers [OF assms(1)] assms(2) by (intro mult_right_mono) linarith+
  moreover have "scriptFee (pm, pc) targets - scriptFee (pm, pc) (map rd_units rdmrs) \<le> exUnitsPriceDelta (pm, pc) rdmrs targets"
    using price_delta_covers [OF assms(1), of "(pm, pc)"] assms by simp
  ultimately show ?thesis by (simp add: feeFloor_def distrib_right)
qed

theorem fee_floor_covers_units_witness:
  "200000 + scriptFee (\<lparr>ra_num = 577, ra_den = 10000\<rparr>, \<lparr>ra_num = 721, ra_den = 10000000\<rparr>) [\<lparr>eu_mem = 7000, eu_cpu = 300000\<rparr>]
       - scriptFee (\<lparr>ra_num = 577, ra_den = 10000\<rparr>, \<lparr>ra_num = 721, ra_den = 10000000\<rparr>) [\<lparr>eu_mem = 100, eu_cpu = 90000\<rparr>] + 484
     \<le> feeFloor (\<lparr>ra_num = 577, ra_den = 10000\<rparr>, \<lparr>ra_num = 721, ra_den = 10000000\<rparr>) 44 0 200000
         [\<lparr>rd_tag = Spend, rd_index = 0, rd_units = \<lparr>eu_mem = 100, eu_cpu = 90000\<rparr>\<rparr>] [\<lparr>eu_mem = 7000, eu_cpu = 300000\<rparr>]"
  using fee_floor_covers_units [of "[\<lparr>rd_tag = Spend, rd_index = 0, rd_units = \<lparr>eu_mem = 100, eu_cpu = 90000\<rparr>\<rparr>]"
      "[\<lparr>eu_mem = 7000, eu_cpu = 300000\<rparr>]" 44 "\<lparr>ra_num = 577, ra_den = 10000\<rparr>" "\<lparr>ra_num = 721, ra_den = 10000000\<rparr>" 200000 0]
  by (simp add: unitBytes_def cborUIntLength_def)

text \<open>
  C21. A script transaction is only returned with units someone vouches for: a redeemer whose script failed
  locally carries exactly the node's evaluation, every other one at least its local units and at least
  the node's; a failed script without an evaluation, in either pass, ends the build, and so does a
  rejection by the node.
\<close>

theorem stamped_units_certified:
  assumes "buildScriptTx prices perByte g build plain evaluator = Inr tx"
    and "build None = Some (tx1, failures1)" "bt_redeemers tx1 \<noteq> []"
    and "\<forall>fee t fs. build (Some fee) = Some (t, fs) \<longrightarrow> list_all units_in_range (bt_redeemers t)"
  shows "\<exists>fee tx2 failures2 evaluated. build (Some fee) = Some (tx2, failures2) \<and> bt_fee tx = bt_fee tx2
      \<and> (case evaluator of None \<Rightarrow> Inr None | Some ev \<Rightarrow> evaluateExUnitsByRedeemer (ev tx1)) = Inr evaluated
      \<and> list_all (\<lambda>r. redeemerKey r \<in> set failures1 \<longrightarrow> (\<exists>m. evaluated = Some m \<and> mhas m (redeemerKey r))) (bt_redeemers tx1)
      \<and> list_all2 (\<lambda>r s. redeemerKey s = redeemerKey r \<and> certified evaluated failures2 r (rd_units s)) (bt_redeemers tx2) (bt_redeemers tx)"
proof -
  obtain evaluated targets1 tx2 failures2 targets2 where
    ev: "(case evaluator of None \<Rightarrow> Inr None | Some ev \<Rightarrow> evaluateExUnitsByRedeemer (ev tx1)) = Inr evaluated"
    and t1: "resolveTargetExUnits (bt_redeemers tx1) evaluated failures1 = Inr targets1"
    and b2: "build (Some (feeFloor prices perByte g (bt_fee tx1) (bt_redeemers tx1) targets1)) = Some (tx2, failures2)"
    and t2: "resolveTargetExUnits (bt_redeemers tx2) evaluated failures2 = Inr targets2"
    and tx: "tx = stampExecUnits tx2 targets2"
    by (rule buildScriptTx_parts [OF assms(1-3)])
  have "\<exists>m. evaluated = Some m \<and> mhas m (redeemerKey r)" if r: "targetUnits evaluated failures1 r = Inr u" "redeemerKey r \<in> set failures1" for r u
    using r by (auto simp: targetUnits_def Let_def mhas_iff split: option.splits)
  then have "list_all (\<lambda>r. redeemerKey r \<in> set failures1 \<longrightarrow> (\<exists>m. evaluated = Some m \<and> mhas m (redeemerKey r))) (bt_redeemers tx1)"
    using t1 by (auto simp: resolveTargetExUnits_def each_Inr list_all2_conv_all_nth list_all_length)
  moreover have c: "list_all2 (certified evaluated failures2) (bt_redeemers tx2) targets2"
    using targets_certified [OF t2] assms(4) b2 by blast
  then have "list_all2 (\<lambda>r s. redeemerKey s = redeemerKey r \<and> certified evaluated failures2 r (rd_units s)) (bt_redeemers tx2) (bt_redeemers tx)"
    unfolding tx stampExecUnits_def by (auto simp: list_all2_conv_all_nth redeemerKey_def)
  moreover have "bt_fee tx = bt_fee tx2" by (simp add: tx stampExecUnits_def)
  ultimately show ?thesis using ev b2 by blast
qed

text \<open>A build whose one script fails locally in both passes; the node evaluates it.\<close>

definition demo_redeemer :: TxRedeemer where
  "demo_redeemer = \<lparr>rd_tag = Spend, rd_index = 0, rd_units = \<lparr>eu_mem = 0, eu_cpu = 0\<rparr>\<rparr>"

definition demo_build :: "int option \<Rightarrow> (built_tx \<times> (TxRedeemerTag \<times> int) list) option" where
  "demo_build fee = Some (\<lparr>bt_fee = nullish fee 170000, bt_redeemers = [demo_redeemer]\<rparr>, [(Spend, 0)])"

definition demo_evaluation :: "built_tx \<Rightarrow> backend_error + ScriptEvaluationResult list" where
  "demo_evaluation tx = Inr [\<lparr>ev_validator = ValidatorText ''spend:0'', ev_memory = 2000, ev_cpu = 600000\<rparr>]"

lemma demo_built:
  "\<exists>tx. buildScriptTx (\<lparr>ra_num = 577, ra_den = 10000\<rparr>, \<lparr>ra_num = 721, ra_den = 10000000\<rparr>) 44 0 demo_build Inr (Some demo_evaluation) = Inr tx"
proof -
  have "\<not> isl (buildScriptTx (\<lparr>ra_num = 577, ra_den = 10000\<rparr>, \<lparr>ra_num = 721, ra_den = 10000000\<rparr>) 44 0 demo_build Inr (Some demo_evaluation))"
    by code_simp
  then show ?thesis by (cases "buildScriptTx (\<lparr>ra_num = 577, ra_den = 10000\<rparr>, \<lparr>ra_num = 721, ra_den = 10000000\<rparr>) 44 0 demo_build Inr (Some demo_evaluation)") auto
qed

theorem stamped_units_certified_witness:
  "\<exists>tx. buildScriptTx (\<lparr>ra_num = 577, ra_den = 10000\<rparr>, \<lparr>ra_num = 721, ra_den = 10000000\<rparr>) 44 0 demo_build Inr (Some demo_evaluation) = Inr tx
     \<and> length (bt_redeemers tx) = 1"
proof -
  obtain tx where tx: "buildScriptTx (\<lparr>ra_num = 577, ra_den = 10000\<rparr>, \<lparr>ra_num = 721, ra_den = 10000000\<rparr>) 44 0 demo_build Inr (Some demo_evaluation) = Inr tx"
    using demo_built ..
  have "\<forall>fee t fs. demo_build (Some fee) = Some (t, fs) \<longrightarrow> list_all units_in_range (bt_redeemers t)"
    by (auto simp: demo_build_def demo_redeemer_def units_in_range_def)
  note c = stamped_units_certified [OF tx _ _ this, of "fst (the (demo_build None))" "snd (the (demo_build None))"]
  have "length (bt_redeemers tx) = 1" using c by (auto simp: demo_build_def list_all2_Cons1)
  with tx show ?thesis by blast
qed

end
