(* ===== verification/PlutusBuild.thy ===== *)
theory PlutusBuild imports TxFunding TxFees begin

text \<open>
  How a BuildPlutusTransaction is put together (\<open>_buildPlutusTransaction\<close> of
  \<open>srv/blockchain/transaction-building/buildooor-tx.ts\<close>): each script input, withdrawal, certificate
  and mint gets its script (inline or from a reference input), the inputs are partitioned, funding and
  collateral are chosen, and the orders for index placeholders are fixed. Parsing scripts and addresses
  and coin selection belong to the builder library, the argument \<open>lib\<close>. Encoding the redeemers, datums
  and outputs and the library's build itself are not part of it.
\<close>

section \<open>The library and the request\<close>

text \<open>
  \<open>lb_script\<close>: \<open>Script.fromCbor\<close>, hash and flat bytes; \<open>lb_emptyScript\<close>: the hash of the V3 script of
  that many zero bytes; \<open>lb_stake\<close>: \<open>StakeAddress.fromString\<close>, whether the
  credential is a script, and its hash; \<open>lb_creds\<close>: payment credential, key hash or not; \<open>lb_keep\<close>:
  \<open>keepRelevant\<close>, the outputs selected for a value.
\<close>

record builder_lib =
  lb_script :: "string \<Rightarrow> (string \<times> nat list) option"
  lb_emptyScript :: "nat \<Rightarrow> string"
  lb_stake :: "string \<Rightarrow> (bool \<times> string) option"
  lb_creds :: "string \<Rightarrow> (bool \<times> string) option"
  lb_minAda :: "string \<Rightarrow> int \<Rightarrow> int"
  lb_keep :: "ledger_value \<Rightarrow> UTxO list \<Rightarrow> UTxO list"
  lb_stakeDeposit :: int

record ScriptInput = InputRef +
  sc_validatorScript :: "string option"
  sc_referenceScript :: "InputRef option"

record WithdrawalInput =
  wi_rewardAddress :: string
  wi_lovelace :: int
  wi_stakingScript :: "string option"
  wi_referenceScript :: "InputRef option"

datatype cert_type = RegisterStake | DeregisterStake

record CertificateInput =
  ct_type :: cert_type
  ct_stakeAddress :: string
  ct_deposit :: "int option"
  ct_stakingScript :: "string option"
  ct_referenceScript :: "InputRef option"

record TxBuildPlutusRequest =
  pr_senderAddress :: string
  pr_requiredSigners :: "string list"
  pr_forceInputs :: "InputRef list"
  pr_protectInputs :: "InputRef list"
  pr_referenceInputs :: "InputRef list"
  pr_mintActions :: "MintAction list"
  pr_scriptInputs :: "ScriptInput list"
  pr_outputs :: "PlutusTxOutput list"
  pr_withdrawals :: "WithdrawalInput list"
  pr_certificates :: "CertificateInput list"

text \<open>\<open>tc_referenceInputUtxos\<close>: the resolved reference inputs, of the caller and of the scripts.\<close>

record TxBuildContext =
  tc_utxos :: "UTxO list"
  tc_referenceInputUtxos :: "UTxO list"

section \<open>Scripts\<close>

text \<open>A Plutus V3 script: its CBOR decodes and the flat code does not start with UPLC 1.0.0.\<close>

definition parsePlutusV3Script :: "builder_lib \<Rightarrow> string \<Rightarrow> backend_error + string" where
  "parsePlutusV3Script lib hex =
     (case lb_script lib hex of
        None \<Rightarrow> Inl invalid
      | Some (h, bytes) \<Rightarrow> if take 3 bytes = [1, 0, 0] then Inl invalid else Inr h)"

text \<open>
  \<open>_buildInputRefScript\<close>: the hash of the reference script an output carries, from the full CBOR or from
  a \<open>scriptRef\<close> longer than a hash; chain data that does not parse is left out. With hash and size only it
  is the placeholder, an empty script of that size, whose hash is that of no real script.
\<close>

definition refScriptHash :: "builder_lib \<Rightarrow> UTxO \<Rightarrow> string option" where
  "refScriptHash lib u =
     (case (case x_scriptRefCbor u of
              Some c \<Rightarrow> Some c
            | None \<Rightarrow> (case x_scriptRef u of Some s \<Rightarrow> if length s > 56 then Some s else None | None \<Rightarrow> None)) of
        Some (c # cs) \<Rightarrow> map_option fst (lb_script lib (c # cs))
      | _ \<Rightarrow> if truthy (x_scriptRef u) \<and> nullish (x_scriptRefSize u) 0 \<noteq> 0
             then Some (lb_emptyScript lib (sizePlaceholderLength (the (x_scriptRefSize u)))) else None)"

datatype script_witness = KeyWitness | Inline string | ByReference UTxO string

definition witness_hash :: "script_witness \<Rightarrow> string option" where
  "witness_hash w = (case w of KeyWitness \<Rightarrow> None | Inline h \<Rightarrow> Some h | ByReference u h \<Rightarrow> Some h)"

text \<open>\<open>referencedByHash\<close>: the scripts the reference inputs carry, the first output of each.\<close>

definition scriptsByHash :: "builder_lib \<Rightarrow> UTxO list \<Rightarrow> (string, UTxO) jmap" where
  "scriptsByHash lib refUtxos =
     fold (\<lambda>u m. case refScriptHash lib u of
         None \<Rightarrow> m | Some h \<Rightarrow> if h = [] \<or> mhas m h then m else mput m h u) refUtxos []"

definition utxosByKey :: "UTxO list \<Rightarrow> (string, UTxO) jmap" where
  "utxosByKey us = fold (\<lambda>u m. mput m (key u) u) us []"

definition resolveScriptWitness ::
  "builder_lib \<Rightarrow> (string, UTxO) jmap \<Rightarrow> (string, UTxO) jmap \<Rightarrow> string option \<Rightarrow> InputRef option \<Rightarrow> backend_error + script_witness" where
  "resolveScriptWitness lib byHash refByKey script referenceScript =
     (if truthy script then
        sbind (parsePlutusV3Script lib (the script)) (\<lambda>h.
          Inr (case mget byHash h of Some u \<Rightarrow> ByReference u h | None \<Rightarrow> Inline h))
      else (case referenceScript of
          None \<Rightarrow> Inr KeyWitness
        | Some r \<Rightarrow> (case mget refByKey (key r) of
              None \<Rightarrow> Inl invalid
            | Some u \<Rightarrow> (case refScriptHash lib u of None \<Rightarrow> Inl invalid | Some h \<Rightarrow> Inr (ByReference u h)))))"

section \<open>Script inputs, withdrawals, certificates, mints\<close>

text \<open>A script input names its validator or the output that carries it; an entry with neither fails.\<close>

definition scriptEntry ::
  "builder_lib \<Rightarrow> (string, UTxO) jmap \<Rightarrow> (string, UTxO) jmap \<Rightarrow> (string, UTxO) jmap \<Rightarrow> ScriptInput \<Rightarrow> backend_error + UTxO \<times> script_witness" where
  "scriptEntry lib utxoByKey byHash refByKey si =
     (case mget utxoByKey (key si) of
        None \<Rightarrow> Inl invalid
      | Some u \<Rightarrow> sbind (resolveScriptWitness lib byHash refByKey (sc_validatorScript si) (sc_referenceScript si))
          (\<lambda>w. if w = KeyWitness then Inl invalid else Inr (u, w)))"

definition withdrawalEntry ::
  "builder_lib \<Rightarrow> (string, UTxO) jmap \<Rightarrow> (string, UTxO) jmap \<Rightarrow> WithdrawalInput
     \<Rightarrow> backend_error + WithdrawalInput \<times> (bool \<times> string) \<times> script_witness" where
  "withdrawalEntry lib byHash refByKey w =
     (case lb_stake lib (wi_rewardAddress w) of
        None \<Rightarrow> Inl invalid
      | Some cred \<Rightarrow>
          sbind (resolveScriptWitness lib byHash refByKey (wi_stakingScript w) (wi_referenceScript w)) (\<lambda>s. Inr (w, cred, s)))"

datatype cert_form = RegistrationDeposit int | StakeRegistration | UnRegistrationDeposit int | StakeDeRegistration

definition certEntry ::
  "builder_lib \<Rightarrow> (string, UTxO) jmap \<Rightarrow> (string, UTxO) jmap \<Rightarrow> CertificateInput
     \<Rightarrow> backend_error + CertificateInput \<times> cert_form \<times> int \<times> script_witness" where
  "certEntry lib byHash refByKey c =
     (case lb_stake lib (ct_stakeAddress c) of
        None \<Rightarrow> Inl invalid
      | Some (isScript, credentialHash) \<Rightarrow>
          sbind (resolveScriptWitness lib byHash refByKey (ct_stakingScript c) (ct_referenceScript c)) (\<lambda>w.
            let scripted = w \<noteq> KeyWitness;
                deposit = nullish (ct_deposit c) (lb_stakeDeposit lib)
            in if isScript \<and> scripted \<and> map_option toLowerCase (witness_hash w) \<noteq> Some (toLowerCase credentialHash) then Inl invalid
               else if isScript \<and> \<not> scripted \<and> ct_type c = DeregisterStake then Inl invalid
               else if \<not> isScript \<and> scripted then Inl invalid
               else Inr (c,
                 (case ct_type c of
                    RegisterStake \<Rightarrow> if scripted then RegistrationDeposit deposit else StakeRegistration
                  | DeregisterStake \<Rightarrow> if ct_deposit c \<noteq> None then UnRegistrationDeposit deposit else StakeDeRegistration),
                 deposit, w)))"

definition mintEntry ::
  "builder_lib \<Rightarrow> (string, UTxO) jmap \<Rightarrow> (string, UTxO) jmap \<Rightarrow> MintAction \<Rightarrow> backend_error + MintAction \<times> string \<times> script_witness" where
  "mintEntry lib byHash refByKey m =
     sbind (resolveScriptWitness lib byHash refByKey (ma_mintingPolicyScript m) (ma_referenceScript m)) (\<lambda>w.
       case witness_hash w of
         None \<Rightarrow> Inl invalid
       | Some h \<Rightarrow> if startsWith (toLowerCase (ma_assetUnit m)) (toLowerCase h) then Inr (m, toLowerCase h, w) else Inl invalid)"

text \<open>One policy runs from one place: once any action of it uses a reference script, all do.\<close>

definition mintRefByPolicy :: "(MintAction \<times> string \<times> script_witness) list \<Rightarrow> (string, UTxO \<times> string) jmap" where
  "mintRefByPolicy es =
     fold (\<lambda>(m, p, w) acc. case w of ByReference u h \<Rightarrow> if mhas acc p then acc else mput acc p (u, h) | _ \<Rightarrow> acc) es []"

definition unifyMints :: "(MintAction \<times> string \<times> script_witness) list \<Rightarrow> (MintAction \<times> string \<times> script_witness) list" where
  "unifyMints es =
     map (\<lambda>(m, p, w). (m, p, case mget (mintRefByPolicy es) p of Some (u, h) \<Rightarrow> ByReference u h | None \<Rightarrow> w)) es"

section \<open>Putting the inputs together\<close>

record plutus_plan =
  pl_scripts :: "(UTxO \<times> script_witness) list"
  pl_withdrawals :: "(WithdrawalInput \<times> (bool \<times> string) \<times> script_witness) list"
  pl_certificates :: "(CertificateInput \<times> cert_form \<times> int \<times> script_witness) list"
  pl_mints :: "(MintAction \<times> string \<times> script_witness) list"
  pl_forced :: "UTxO list"
  pl_selected :: "UTxO list"
  pl_collateral :: "collateral_setup option"
  pl_readonly :: "UTxO list"
  pl_context :: ResolveContext

definition carriers :: "script_witness list \<Rightarrow> UTxO list" where
  "carriers ws = List.map_filter (\<lambda>w. case w of ByReference u h \<Rightarrow> Some u | _ \<Rightarrow> None) ws"

definition ref_of :: "'a InputRef_scheme \<Rightarrow> InputRef" where
  "ref_of r = \<lparr>rf_txHash = rf_txHash r, rf_outputIndex = rf_outputIndex r\<rparr>"

definition lower_ref :: "'a InputRef_scheme \<Rightarrow> InputRef" where
  "lower_ref r = \<lparr>rf_txHash = toLowerCase (rf_txHash r), rf_outputIndex = rf_outputIndex r\<rparr>"

definition withdrawalOrder :: "(WithdrawalInput \<times> (bool \<times> string) \<times> script_witness) list \<Rightarrow> withdrawal_entry list" where
  "withdrawalOrder ws =
     map (\<lambda>(w, (isScript, h), s). \<lparr>wc_credentialHash = toLowerCase h, wc_isScript = isScript, we_scripted = (s \<noteq> KeyWitness)\<rparr>) ws"

definition planFunding ::
  "builder_lib \<Rightarrow> TxBuildPlutusRequest \<Rightarrow> (UTxO \<times> script_witness) list \<Rightarrow> UTxO list
     \<Rightarrow> (WithdrawalInput \<times> (bool \<times> string) \<times> script_witness) list
     \<Rightarrow> (CertificateInput \<times> cert_form \<times> int \<times> script_witness) list \<Rightarrow> ledger_value" where
  "planFunding lib req scripts forced withdrawals certs =
     requiredValue (plutusNeed (pr_outputs req) (map fst scripts @ forced) (pr_mintActions req)
        (map (\<lambda>(w, _). wi_lovelace w) withdrawals)
        (map (\<lambda>(c, _, deposit, _). (ct_type c = RegisterStake, deposit)) certs))"

definition runsScript ::
  "(UTxO \<times> script_witness) list \<Rightarrow> (MintAction \<times> string \<times> script_witness) list \<Rightarrow> script_witness list \<Rightarrow> bool" where
  "runsScript scripts mints others \<longleftrightarrow> scripts \<noteq> [] \<or> mints \<noteq> [] \<or> list_ex (\<lambda>w. w \<noteq> KeyWitness) others"

definition planCollateral ::
  "builder_lib \<Rightarrow> bool \<Rightarrow> UTxO list \<Rightarrow> int \<Rightarrow> UTxO list \<Rightarrow> string \<Rightarrow> backend_error + collateral_setup option \<times> UTxO list" where
  "planCollateral lib runs rest lovelace forced sender =
     (if runs then sbind (setupCollateral (lb_minAda lib) rest lovelace forced sender) (\<lambda>c. Inr (Some c, co_funding c))
      else Inr (None, rest))"

definition planInputs ::
  "builder_lib \<Rightarrow> TxBuildPlutusRequest \<Rightarrow> TxBuildContext \<Rightarrow> bool \<Rightarrow> backend_error + plutus_plan" where
  "planInputs lib req ctx includeRefScriptUtxos =
     (let refs = tc_referenceInputUtxos ctx;
          byHash = scriptsByHash lib refs;
          refByKey = utxosByKey refs;
          scriptKeys = map key (pr_scriptInputs req)
      in sbind (each (scriptEntry lib (utxosByKey (tc_utxos ctx)) byHash refByKey) (pr_scriptInputs req)) (\<lambda>scripts.
         sbind (each (withdrawalEntry lib byHash refByKey) (pr_withdrawals req)) (\<lambda>withdrawals.
         sbind (each (certEntry lib byHash refByKey) (pr_certificates req)) (\<lambda>certs.
         sbind (each (mintEntry lib byHash refByKey) (pr_mintActions req)) (\<lambda>mints0.
         let mints = unifyMints mints0;
             senderUtxos = filter (\<lambda>u. key u \<notin> set scriptKeys) (tc_utxos ctx)
         in sbind (throwIf (list_ex (\<lambda>r. key r \<in> set scriptKeys) (pr_protectInputs req)) invalid) (\<lambda>_.
            sbind (partitionForcedInputs senderUtxos (filter (\<lambda>r. key r \<notin> set scriptKeys) (pr_forceInputs req))
                     (referencedKeys refs [pr_referenceInputs req, List.map_filter sc_referenceScript (pr_scriptInputs req)])
                     (pr_protectInputs req) includeRefScriptUtxos) (\<lambda>(forced, rest).
            sbind (checkForeignForcedInputs (lb_creds lib) forced (pr_senderAddress req) (pr_requiredSigners req) (pr_outputs req)) (\<lambda>_.
            let required = planFunding lib req scripts forced withdrawals certs;
                others = map (\<lambda>(_, _, s). s) withdrawals @ map (\<lambda>(_, _, _, s). s) certs
            in sbind (planCollateral lib (runsScript scripts mints others) rest (qty_of required ''lovelace'') forced (pr_senderAddress req))
                 (\<lambda>(collateral, fundingUtxos).
               let selected = lb_keep lib required fundingUtxos;
                   refScriptUtxos = carriers (map snd scripts @ others @ map (\<lambda>(_, _, s). s) mints);
                   refScriptKeys = jset (map key refScriptUtxos);
                   callerRefUtxos = filter (\<lambda>u. key u \<notin> set refScriptKeys \<and> list_ex (\<lambda>r. key r = key u) (pr_referenceInputs req)) refs
               in sbind (ledgerWithdrawalOrder (withdrawalOrder withdrawals)) (\<lambda>wdrl.
                  Inr \<lparr>pl_scripts = scripts, pl_withdrawals = withdrawals, pl_certificates = certs, pl_mints = mints,
                       pl_forced = forced, pl_selected = selected, pl_collateral = collateral, pl_readonly = callerRefUtxos,
                       pl_context =
                         \<lparr>rc_sortedInputs = sortInputsLikeBuildooor
                            (map ref_of (pr_scriptInputs req) @ map ref_of forced @ map ref_of selected),
                          rc_sortedReferenceInputs = Some (sortInputsLikeBuildooor
                            (map lower_ref callerRefUtxos @ map (\<lambda>k. lower_ref (the (find (\<lambda>u. key u = k) refScriptUtxos))) refScriptKeys)),
                          rc_sortedWithdrawals = Some wdrl\<rparr>\<rparr>))))))))))"

section \<open>The parts of a plan\<close>

lemma plan_parts:
  assumes "planInputs lib req ctx inc = Inr p"
  obtains mints0 rest coll funding where
    "each (scriptEntry lib (utxosByKey (tc_utxos ctx)) (scriptsByHash lib (tc_referenceInputUtxos ctx)) (utxosByKey (tc_referenceInputUtxos ctx)))
       (pr_scriptInputs req) = Inr (pl_scripts p)"
    "each (withdrawalEntry lib (scriptsByHash lib (tc_referenceInputUtxos ctx)) (utxosByKey (tc_referenceInputUtxos ctx))) (pr_withdrawals req) = Inr (pl_withdrawals p)"
    "each (certEntry lib (scriptsByHash lib (tc_referenceInputUtxos ctx)) (utxosByKey (tc_referenceInputUtxos ctx))) (pr_certificates req) = Inr (pl_certificates p)"
    "each (mintEntry lib (scriptsByHash lib (tc_referenceInputUtxos ctx)) (utxosByKey (tc_referenceInputUtxos ctx))) (pr_mintActions req) = Inr mints0"
    "pl_mints p = unifyMints mints0"
    "\<not> list_ex (\<lambda>r. key r \<in> set (map key (pr_scriptInputs req))) (pr_protectInputs req)"
    "partitionForcedInputs (filter (\<lambda>u. key u \<notin> set (map key (pr_scriptInputs req))) (tc_utxos ctx))
       (filter (\<lambda>r. key r \<notin> set (map key (pr_scriptInputs req))) (pr_forceInputs req))
       (referencedKeys (tc_referenceInputUtxos ctx) [pr_referenceInputs req, List.map_filter sc_referenceScript (pr_scriptInputs req)])
       (pr_protectInputs req) inc = Inr (pl_forced p, rest)"
    "planCollateral lib (runsScript (pl_scripts p) (pl_mints p) (map (\<lambda>(_, _, s). s) (pl_withdrawals p) @ map (\<lambda>(_, _, _, s). s) (pl_certificates p)))
       rest (qty_of (planFunding lib req (pl_scripts p) (pl_forced p) (pl_withdrawals p) (pl_certificates p)) ''lovelace'')
       (pl_forced p) (pr_senderAddress req) = Inr (pl_collateral p, funding)"
    "pl_selected p = lb_keep lib (planFunding lib req (pl_scripts p) (pl_forced p) (pl_withdrawals p) (pl_certificates p)) funding"
  using assms unfolding planInputs_def Let_def
  by (elim sbind_Inr_iff [THEN iffD1, elim_format] exE conjE)
     (auto simp: sbind_Inr_iff throwIf_Inr_iff split: prod.splits)

lemma utxosByKey_get: "mget (utxosByKey us) k = Some u \<Longrightarrow> u \<in> set us \<and> key u = k"
proof -
  have "\<forall>k u. mget (fold (\<lambda>u m. mput m (key u) u) us []) k = Some u \<longrightarrow> u \<in> set us \<and> key u = k"
    by (rule fold_invar) (auto split: if_splits)
  then show "mget (utxosByKey us) k = Some u \<Longrightarrow> u \<in> set us \<and> key u = k"
    unfolding utxosByKey_def by blast
qed

lemma script_entries:
  assumes "each (scriptEntry lib (utxosByKey us) byHash refByKey) sis = Inr scripts"
  shows "map (\<lambda>e. key (fst e)) scripts = map key sis" "set (map fst scripts) \<subseteq> set us"
proof -
  have e: "key (fst y) = key x \<and> fst y \<in> set us" if "scriptEntry lib (utxosByKey us) byHash refByKey x = Inr y" for x y
    using that utxosByKey_get [of us "key x"] by (auto simp: scriptEntry_def sbind_Inr_iff split: option.splits if_splits)
  have l: "list_all2 (\<lambda>x y. key (fst y) = key x \<and> fst y \<in> set us) sis scripts"
    using assms unfolding each_Inr by (rule list_all2_mono) (rule e)
  then show "map (\<lambda>e. key (fst e)) scripts = map key sis" by (induction rule: list_all2_induct) auto
  from l show "set (map fst scripts) \<subseteq> set us" by (induction rule: list_all2_induct) auto
qed

lemma partition_parts:
  assumes "partitionForcedInputs us fs referenced protect inc = Inr (forced, rest)"
  shows "forced = filter (\<lambda>u. key u \<in> key ` set fs) us"
    and "rest = filter (\<lambda>u. key u \<notin> key ` set fs \<and> key u \<notin> set referenced \<and> key u \<notin> key ` set protect \<and> (inc \<or> \<not> hasRefScript u)) us"
    and "key ` set fs \<inter> (set referenced \<union> key ` set protect) = {}"
proof -
  have "forced = filter (\<lambda>u. key u \<in> key ` set fs) us
    \<and> rest = filter (\<lambda>u. key u \<notin> key ` set fs \<and> key u \<notin> set referenced \<and> key u \<notin> key ` set protect \<and> (inc \<or> \<not> hasRefScript u)) us
    \<and> key ` set fs \<inter> (set referenced \<union> key ` set protect) = {}"
  proof (cases "fs = [] \<and> referenced = [] \<and> map key protect = [] \<and> \<not> list_ex (\<lambda>u. \<not> inc \<and> hasRefScript u) us")
    case True
    then have "forced = []" "rest = us" using assms by (simp_all add: partitionForcedInputs_def Let_def)
    moreover have "filter (\<lambda>u. inc \<or> \<not> hasRefScript u) us = us" using True by (auto simp: filter_id_conv list_ex_iff)
    ultimately show ?thesis using True by simp
  next
    case False
    with assms show ?thesis
      unfolding partitionForcedInputs_def Let_def
      by (simp only: if_not_P split: if_splits) (auto simp: list_ex_iff intro!: filter_cong)
  qed
  then show "forced = filter (\<lambda>u. key u \<in> key ` set fs) us"
    and "rest = filter (\<lambda>u. key u \<notin> key ` set fs \<and> key u \<notin> set referenced \<and> key u \<notin> key ` set protect \<and> (inc \<or> \<not> hasRefScript u)) us"
    and "key ` set fs \<inter> (set referenced \<union> key ` set protect) = {}" by blast+
qed

lemma collateral_plan:
  assumes "planCollateral lib runs rest l forced sender = Inr (coll, funding)"
  shows "set funding \<subseteq> set rest" "distinct rest \<longrightarrow> distinct funding"
    "runs \<longleftrightarrow> coll \<noteq> None" "\<And>c. coll = Some c \<Longrightarrow> setupCollateral (lb_minAda lib) rest l forced sender = Inr c"
  using assms collateral_parts [of "lb_minAda lib" rest l forced sender]
  by (auto simp: planCollateral_def sbind_Inr_iff split: if_splits)

lemma set_referencedKeys: "set (referencedKeys refs rs) = key ` set refs \<union> key ` set (concat rs)"
  by (auto simp: referencedKeys_def)

text \<open>What a plan spends: every part comes from the context and is told apart by its key.\<close>

lemma plan_pool:
  assumes "planInputs lib req ctx inc = Inr p"
    and keep: "\<forall>v us. set (lb_keep lib v us) \<subseteq> set us \<and> (distinct us \<longrightarrow> distinct (lb_keep lib v us))"
    and "distinct (map key (tc_utxos ctx))"
  shows "map (\<lambda>e. key (fst e)) (pl_scripts p) = map key (pr_scriptInputs req)"
    and "pl_forced p = filter (\<lambda>u. key u \<in> key ` set (pr_forceInputs req) \<and> key u \<notin> key ` set (pr_scriptInputs req)) (tc_utxos ctx)"
    and "\<forall>u \<in> set (pl_selected p). u \<in> set (tc_utxos ctx) \<and> key u \<notin> key ` set (pr_scriptInputs req)
           \<and> key u \<notin> key ` set (pr_forceInputs req) \<and> key u \<notin> key ` set (pr_protectInputs req)
           \<and> key u \<notin> key ` set (tc_referenceInputUtxos ctx) \<and> key u \<notin> key ` set (pr_referenceInputs req)
           \<and> (inc \<or> \<not> hasRefScript u)"
    and "distinct (pl_selected p)"
    and "\<forall>r \<in> set (pr_protectInputs req). key r \<notin> key ` set (pr_scriptInputs req)
           \<and> (key r \<in> key ` set (pr_forceInputs req) \<longrightarrow> key r \<in> key ` set (pr_scriptInputs req))"
    and "\<forall>u \<in> set (pl_forced p). key u \<notin> key ` set (tc_referenceInputUtxos ctx) \<and> key u \<notin> key ` set (pr_referenceInputs req)"
proof -
  obtain mints0 rest coll funding where
    sc: "each (scriptEntry lib (utxosByKey (tc_utxos ctx)) (scriptsByHash lib (tc_referenceInputUtxos ctx)) (utxosByKey (tc_referenceInputUtxos ctx)))
       (pr_scriptInputs req) = Inr (pl_scripts p)"
    and pr: "\<not> list_ex (\<lambda>r. key r \<in> set (map key (pr_scriptInputs req))) (pr_protectInputs req)"
    and pt: "partitionForcedInputs (filter (\<lambda>u. key u \<notin> set (map key (pr_scriptInputs req))) (tc_utxos ctx))
       (filter (\<lambda>r. key r \<notin> set (map key (pr_scriptInputs req))) (pr_forceInputs req))
       (referencedKeys (tc_referenceInputUtxos ctx) [pr_referenceInputs req, List.map_filter sc_referenceScript (pr_scriptInputs req)])
       (pr_protectInputs req) inc = Inr (pl_forced p, rest)"
    and co: "planCollateral lib (runsScript (pl_scripts p) (pl_mints p) (map (\<lambda>(_, _, s). s) (pl_withdrawals p) @ map (\<lambda>(_, _, _, s). s) (pl_certificates p)))
       rest (qty_of (planFunding lib req (pl_scripts p) (pl_forced p) (pl_withdrawals p) (pl_certificates p)) ''lovelace'')
       (pl_forced p) (pr_senderAddress req) = Inr (pl_collateral p, funding)"
    and se: "pl_selected p = lb_keep lib (planFunding lib req (pl_scripts p) (pl_forced p) (pl_withdrawals p) (pl_certificates p)) funding"
    by (rule plan_parts [OF assms(1)])
  show "map (\<lambda>e. key (fst e)) (pl_scripts p) = map key (pr_scriptInputs req)" by (rule script_entries(1) [OF sc])
  note parts = partition_parts [OF pt, unfolded set_referencedKeys]
  show "pl_forced p = filter (\<lambda>u. key u \<in> key ` set (pr_forceInputs req) \<and> key u \<notin> key ` set (pr_scriptInputs req)) (tc_utxos ctx)"
    unfolding parts(1) by (auto intro!: filter_cong)
  have sel: "set (pl_selected p) \<subseteq> set rest" using keep collateral_plan(1) [OF co] unfolding se by blast
  show "\<forall>u \<in> set (pl_selected p). u \<in> set (tc_utxos ctx) \<and> key u \<notin> key ` set (pr_scriptInputs req)
           \<and> key u \<notin> key ` set (pr_forceInputs req) \<and> key u \<notin> key ` set (pr_protectInputs req)
           \<and> key u \<notin> key ` set (tc_referenceInputUtxos ctx) \<and> key u \<notin> key ` set (pr_referenceInputs req)
           \<and> (inc \<or> \<not> hasRefScript u)"
  proof
    fix u assume "u \<in> set (pl_selected p)"
    with sel have "u \<in> set rest" by blast
    then show "u \<in> set (tc_utxos ctx) \<and> key u \<notin> key ` set (pr_scriptInputs req)
           \<and> key u \<notin> key ` set (pr_forceInputs req) \<and> key u \<notin> key ` set (pr_protectInputs req)
           \<and> key u \<notin> key ` set (tc_referenceInputUtxos ctx) \<and> key u \<notin> key ` set (pr_referenceInputs req)
           \<and> (inc \<or> \<not> hasRefScript u)"
      unfolding parts(2) by (auto simp: image_iff; metis)
  qed
  have "distinct (tc_utxos ctx)" using assms(3) by (simp add: distinct_map)
  then have "distinct rest" unfolding parts(2) by simp
  then show "distinct (pl_selected p)" using keep collateral_plan(2) [OF co] unfolding se by blast
  show "\<forall>r \<in> set (pr_protectInputs req). key r \<notin> key ` set (pr_scriptInputs req)
           \<and> (key r \<in> key ` set (pr_forceInputs req) \<longrightarrow> key r \<in> key ` set (pr_scriptInputs req))"
    using pr parts(3) by (force simp: list_ex_iff)
  show "\<forall>u \<in> set (pl_forced p). key u \<notin> key ` set (tc_referenceInputUtxos ctx) \<and> key u \<notin> key ` set (pr_referenceInputs req)"
    using parts(3) unfolding parts(1) by force
qed

text \<open>The outputs a plan spends are told apart, come from the context, and include every named one that is at hand.\<close>

lemma plan_spent:
  assumes "planInputs lib req ctx inc = Inr p"
    and "\<forall>v us. set (lb_keep lib v us) \<subseteq> set us \<and> (distinct us \<longrightarrow> distinct (lb_keep lib v us))"
    and "distinct (map key (tc_utxos ctx))" "distinct (map key (pr_scriptInputs req))"
    and "spent = map fst (pl_scripts p) @ pl_forced p @ pl_selected p"
  shows "distinct (map key spent)" "set spent \<subseteq> set (tc_utxos ctx)"
    "key ` set (pr_forceInputs req) \<inter> key ` set (tc_utxos ctx) \<subseteq> key ` set spent"
    "key ` set spent = key ` set (pr_scriptInputs req) \<union> key ` set (pl_forced p) \<union> key ` set (pl_selected p)"
proof -
  note pool = plan_pool [OF assms(1-3)]
  have inj: "inj_on key (set (tc_utxos ctx))" using assms(3) by (simp add: distinct_map)
  have ks: "map key spent = map key (pr_scriptInputs req) @ map key (pl_forced p) @ map key (pl_selected p)"
    unfolding assms(5) using pool(1) by (simp add: comp_def)
  have forced_sub: "set (pl_forced p) \<subseteq> set (tc_utxos ctx)" unfolding pool(2) by auto
  have sel_sub: "set (pl_selected p) \<subseteq> set (tc_utxos ctx)" using pool(3) by blast
  have "distinct (map key (pl_forced p))" unfolding pool(2) using assms(3) by (simp add: distinct_map inj_on_def)
  moreover have "distinct (map key (pl_selected p))"
    using pool(4) sel_sub inj by (auto simp: distinct_map intro: inj_on_subset)
  moreover have "set (map key (pr_scriptInputs req)) \<inter> set (map key (pl_forced p)) = {}" unfolding pool(2) by (auto simp: image_iff; metis)
  moreover have "set (map key (pr_scriptInputs req)) \<inter> set (map key (pl_selected p)) = {}" using pool(3) by (auto; metis imageI)
  moreover have "set (map key (pl_forced p)) \<inter> set (map key (pl_selected p)) = {}"
  proof -
    have "key ` set (pl_forced p) \<subseteq> key ` set (pr_forceInputs req)" unfolding pool(2) by auto
    moreover have "key ` set (pl_selected p) \<inter> key ` set (pr_forceInputs req) = {}"
      using pool(3) by (intro equals0I) (metis IntE imageE)
    ultimately show ?thesis by auto
  qed
  ultimately show "distinct (map key spent)" unfolding ks using assms(4) by auto
  show keys: "key ` set spent = key ` set (pr_scriptInputs req) \<union> key ` set (pl_forced p) \<union> key ` set (pl_selected p)"
    using arg_cong [OF ks, of set] by (simp add: Un_assoc)
  show "set spent \<subseteq> set (tc_utxos ctx)"
  proof -
    obtain mints0 rest coll funding where
      sc: "each (scriptEntry lib (utxosByKey (tc_utxos ctx)) (scriptsByHash lib (tc_referenceInputUtxos ctx)) (utxosByKey (tc_referenceInputUtxos ctx)))
       (pr_scriptInputs req) = Inr (pl_scripts p)" by (rule plan_parts [OF assms(1)])
    show ?thesis unfolding assms(5) using script_entries(2) [OF sc] forced_sub sel_sub by simp
  qed
  show "key ` set (pr_forceInputs req) \<inter> key ` set (tc_utxos ctx) \<subseteq> key ` set spent"
  proof
    fix k assume k: "k \<in> key ` set (pr_forceInputs req) \<inter> key ` set (tc_utxos ctx)"
    then obtain u where u: "u \<in> set (tc_utxos ctx)" "k = key u" by blast
    show "k \<in> key ` set spent"
    proof (cases "k \<in> key ` set (pr_scriptInputs req)")
      case False
      then have "u \<in> set (pl_forced p)" unfolding pool(2) using u k by simp
      then show ?thesis unfolding keys u(2) by blast
    qed (simp add: keys)
  qed
qed

section \<open>Properties\<close>

text \<open>
  C19. The inputs of a built transaction are kept apart: no output is spent twice, every forced input that
  is at hand is spent, no protected output is spent or put up as collateral from the pool, and neither a
  forced nor a selected input is also a reference input. The library's coin selection is only assumed to
  pick from what it is offered.
\<close>

theorem plan_inputs_separated:
  assumes "planInputs lib req ctx inc = Inr p"
    and "\<forall>v us. set (lb_keep lib v us) \<subseteq> set us \<and> (distinct us \<longrightarrow> distinct (lb_keep lib v us))"
    and "distinct (map key (tc_utxos ctx))" "distinct (map key (pr_scriptInputs req))"
    and "spent = map fst (pl_scripts p) @ pl_forced p @ pl_selected p"
  shows "distinct (map key spent) \<and> key ` set spent \<subseteq> key ` set (tc_utxos ctx)
    \<and> key ` set (pr_forceInputs req) \<inter> key ` set (tc_utxos ctx) \<subseteq> key ` set spent
    \<and> key ` set (pr_protectInputs req) \<inter> key ` set spent = {}
    \<and> key ` (set (pl_forced p) \<union> set (pl_selected p)) \<inter> (key ` set (tc_referenceInputUtxos ctx) \<union> key ` set (pr_referenceInputs req)) = {}"
proof -
  note pool = plan_pool [OF assms(1-3)]
  note spent = plan_spent [OF assms]
  have prot: "key ` set (pr_protectInputs req) \<inter> key ` set spent = {}"
  proof -
    have "key r \<notin> key ` set (pl_forced p)" if "r \<in> set (pr_protectInputs req)" for r
      using pool(5) that unfolding pool(2) by auto
    moreover have "key r \<notin> key ` set (pl_selected p)" if "r \<in> set (pr_protectInputs req)" for r
      using pool(3) that by force
    ultimately show ?thesis unfolding spent(4) using pool(5) by auto
  qed
  have refs: "key ` (set (pl_forced p) \<union> set (pl_selected p)) \<inter> (key ` set (tc_referenceInputUtxos ctx) \<union> key ` set (pr_referenceInputs req)) = {}"
    using pool(3,6) by auto
  from spent(1,3) prot refs image_mono [OF spent(2), of key] show ?thesis by blast
qed

text \<open>
  C20. The value coin selection is asked for is enough: when the selected outputs hold it, the inputs with
  the mint and the withdrawals pay all outputs and deposits, unit by unit (the fee and the change come on
  top, from the library's own margin).
\<close>

theorem plan_funding_covers:
  assumes "planInputs lib req ctx inc = Inr p"
    and "\<forall>u. qty_of (planFunding lib req (pl_scripts p) (pl_forced p) (pl_withdrawals p) (pl_certificates p)) u \<le> heldQty u (pl_selected p)"
    and "toLowerCase u = ''lovelace'' \<longrightarrow> u = ''lovelace''"
  shows "outQty u (pr_outputs req)
      + (if u = ''lovelace'' then \<Sum>(c, _, deposit, _)\<leftarrow>pl_certificates p. if ct_type c = RegisterStake then deposit else - deposit else 0)
    \<le> heldQty u (map fst (pl_scripts p) @ pl_forced p @ pl_selected p) + mintQty u (pr_mintActions req)
      + (if u = ''lovelace'' then \<Sum>(w, _)\<leftarrow>pl_withdrawals p. wi_lovelace w else 0)"
proof -
  let ?need = "plutusNeed (pr_outputs req) (map fst (pl_scripts p) @ pl_forced p) (pr_mintActions req)
        (map (\<lambda>(w, _). wi_lovelace w) (pl_withdrawals p))
        (map (\<lambda>(c, _, deposit, _). (ct_type c = RegisterStake, deposit)) (pl_certificates p))"
  have "max 0 (qty_of ?need u) \<le> heldQty u (pl_selected p)"
    using assms(2) qty_required [OF need_wf assms(3)] unfolding planFunding_def by metis
  then have "qty_of ?need u \<le> heldQty u (pl_selected p)" by simp
  moreover have "(\<Sum>(r, d)\<leftarrow>map (\<lambda>(c, _, deposit, _). (ct_type c = RegisterStake, deposit)) (pl_certificates p). if r then d else - d)
      = (\<Sum>(c, _, deposit, _)\<leftarrow>pl_certificates p. if ct_type c = RegisterStake then deposit else - deposit)"
    by (simp add: comp_def split_def cong: if_cong)
  ultimately show ?thesis unfolding qty_need heldQty_append by (cases "u = ''lovelace''") simp_all
qed

text \<open>A request that spends the script output \<open>a\<close>, forces \<open>b\<close>, protects \<open>c\<close>; coin selection takes all it is offered.\<close>

definition demo_lib :: builder_lib where
  "demo_lib = \<lparr>lb_script = (\<lambda>s. Some (s, [])), lb_emptyScript = (\<lambda>_. ''e''), lb_stake = (\<lambda>_. None), lb_creds = (\<lambda>_. None), lb_minAda = (\<lambda>_ _. 1000000),
     lb_keep = (\<lambda>_ us. us), lb_stakeDeposit = 2000000\<rparr>"

definition demo_ref :: "string \<Rightarrow> InputRef" where
  "demo_ref h = \<lparr>rf_txHash = h, rf_outputIndex = 0\<rparr>"

definition demo_request :: "string list \<Rightarrow> TxBuildPlutusRequest" where
  "demo_request refs =
     \<lparr>pr_senderAddress = ''w'', pr_requiredSigners = [], pr_forceInputs = [demo_ref ''b''], pr_protectInputs = [demo_ref ''c''],
      pr_referenceInputs = map demo_ref refs, pr_mintActions = [],
      pr_scriptInputs = [\<lparr>rf_txHash = ''a'', rf_outputIndex = 0, sc_validatorScript = Some ''v'', sc_referenceScript = None\<rparr>],
      pr_outputs = [\<lparr>ox_address = ''w'', ox_lovelace = 4000000, ox_assets = []\<rparr>], pr_withdrawals = [], pr_certificates = []\<rparr>"

definition demo_context :: "string list \<Rightarrow> TxBuildContext" where
  "demo_context refs = \<lparr>tc_utxos = map (\<lambda>h. demo_utxo h 9000000) [''a'', ''b'', ''c'', ''d''], tc_referenceInputUtxos = map (\<lambda>h. demo_utxo h 9000000) refs\<rparr>"

lemmas demo_defs = demo_lib_def demo_ref_def demo_request_def demo_context_def demo_utxo_def

lemma demo_plan_value:
  "case planInputs demo_lib (demo_request []) (demo_context []) False of Inl _ \<Rightarrow> False
   | Inr p \<Rightarrow> planFunding demo_lib (demo_request []) (pl_scripts p) (pl_forced p) (pl_withdrawals p) (pl_certificates p) = [(''lovelace'', 0)]
       \<and> pl_selected p = [demo_utxo ''d'' 9000000] \<and> pl_certificates p = [] \<and> pl_withdrawals p = []"
  by code_simp

lemma demo_plan:
  obtains p where "planInputs demo_lib (demo_request []) (demo_context []) False = Inr p"
    "planFunding demo_lib (demo_request []) (pl_scripts p) (pl_forced p) (pl_withdrawals p) (pl_certificates p) = [(''lovelace'', 0)]"
    "pl_selected p = [demo_utxo ''d'' 9000000]" "pl_certificates p = []" "pl_withdrawals p = []"
  using demo_plan_value by (cases "planInputs demo_lib (demo_request []) (demo_context []) False") auto

theorem plan_inputs_separated_witness:
  "\<exists>p. planInputs demo_lib (demo_request []) (demo_context []) False = Inr p
     \<and> distinct (map key (map fst (pl_scripts p) @ pl_forced p @ pl_selected p))"
proof -
  obtain p where p: "planInputs demo_lib (demo_request []) (demo_context []) False = Inr p" by (rule demo_plan)
  have "distinct (map key (tc_utxos (demo_context [])))" "distinct (map key (pr_scriptInputs (demo_request [])))"
    by (simp_all add: demo_defs key_def outpoint_inject toLowerCase_def lower_char_def)
  with plan_inputs_separated [OF p _ _ _ refl] p show ?thesis by (auto simp: demo_lib_def)
qed

theorem plan_funding_covers_witness:
  "\<exists>p. planInputs demo_lib (demo_request []) (demo_context []) False = Inr p
     \<and> 4000000 \<le> heldQty ''lovelace'' (map fst (pl_scripts p) @ pl_forced p @ pl_selected p)"
proof -
  obtain p where p: "planInputs demo_lib (demo_request []) (demo_context []) False = Inr p" and f:
    "planFunding demo_lib (demo_request []) (pl_scripts p) (pl_forced p) (pl_withdrawals p) (pl_certificates p) = [(''lovelace'', 0)]"
    "pl_selected p = [demo_utxo ''d'' 9000000]" and n: "pl_certificates p = []" "pl_withdrawals p = []" by (rule demo_plan)
  have "\<forall>u. qty_of (planFunding demo_lib (demo_request []) (pl_scripts p) (pl_forced p) (pl_withdrawals p) (pl_certificates p)) u
      \<le> heldQty u (pl_selected p)"
    using f by (simp add: qty_of_def mget_def heldQty_def demo_utxo_def)
  from plan_funding_covers [OF p this, of "''lovelace''"] p n show ?thesis
    by (simp add: outQty_def mintQty_def unitSum_def demo_request_def)
qed

end
