(* ===== verification/TxMetadata.thy ===== *)
theory TxMetadata imports TxFees Collections begin

text \<open>
  Transaction metadata (\<open>chunkUtf8\<close>, \<open>_jsonToTxMetadatum\<close>, \<open>_mapOdatanoMetadataToLedgerMetadata\<close> of
  \<open>srv/blockchain/transaction-building/buildooor-tx.ts\<close>) and the validity interval of a build. Text is a
  list of characters with their UTF-8 widths; the characters of the model are the code points below 256.
  The library's slot function \<open>posixToSlot\<close> is an argument.
\<close>

section \<open>Chunks\<close>

definition METADATA_BYTE_LIMIT :: nat where "METADATA_BYTE_LIMIT = 64"

text \<open>\<open>Buffer.byteLength(ch, 'utf8')\<close>\<close>

definition utf8_width :: "char \<Rightarrow> nat" where
  "utf8_width c = (if code_unit c < 128 then 1 else 2)"

definition byteLength :: "('c \<Rightarrow> nat) \<Rightarrow> 'c list \<Rightarrow> nat" where
  "byteLength width str = sum_list (map width str)"

fun chunkLoop :: "('c \<Rightarrow> nat) \<Rightarrow> nat \<Rightarrow> 'c list \<Rightarrow> 'c list \<Rightarrow> nat \<Rightarrow> 'c list list \<Rightarrow> 'c list list" where
  "chunkLoop width maxBytes [] cur curBytes done1 = (if length cur > 0 \<or> length done1 = 0 then done1 @ [cur] else done1)"
| "chunkLoop width maxBytes (ch # str) cur curBytes done1 =
     (let chBytes = width ch
      in if curBytes + chBytes > maxBytes then chunkLoop width maxBytes str [ch] chBytes (done1 @ [cur])
         else chunkLoop width maxBytes str (cur @ [ch]) (curBytes + chBytes) done1)"

definition chunkUtf8 :: "('c \<Rightarrow> nat) \<Rightarrow> 'c list \<Rightarrow> nat \<Rightarrow> 'c list list" where
  "chunkUtf8 width str maxBytes = chunkLoop width maxBytes str [] 0 []"

section \<open>Values\<close>

datatype TxMetadatum = MInt int | MText string | MBytes "nat list" | MList "TxMetadatum list"
  | MMap "(TxMetadatum \<times> TxMetadatum) list"

text \<open>\<open>/^0x([0-9a-fA-F]{2})+$/\<close>\<close>

definition is_hex_bytes :: "string \<Rightarrow> bool" where
  "is_hex_bytes s = (case strip_prefix ''0x'' s of
     None \<Rightarrow> False | Some r \<Rightarrow> r \<noteq> [] \<and> even (length r) \<and> list_all is_hex r)"

definition text_metadatum :: "string \<Rightarrow> TxMetadatum" where
  "text_metadatum s =
     (if is_hex_bytes s
      then (let bytes = hex_bytes (drop 2 s)
            in if length bytes \<le> METADATA_BYTE_LIMIT then MBytes bytes
               else MList (map MBytes (chunks METADATA_BYTE_LIMIT bytes)))
      else (let parts = chunkUtf8 utf8_width s METADATA_BYTE_LIMIT
            in if length parts = 1 then MText s else MList (map MText parts)))"

fun jsonToTxMetadatum :: "json \<Rightarrow> backend_error + TxMetadatum"
and metadatumItems :: "json list \<Rightarrow> backend_error + TxMetadatum list"
and metadatumEntries :: "(string \<times> json) list \<Rightarrow> backend_error + (TxMetadatum \<times> TxMetadatum) list"
where
  "jsonToTxMetadatum (JInt n) = Inr (MInt n)"
| "jsonToTxMetadatum (JFrac s) = Inl invalid"
| "jsonToTxMetadatum (JStr s) = Inr (text_metadatum s)"
| "jsonToTxMetadatum (JArr vs) = sbind (metadatumItems vs) (\<lambda>ms. Inr (MList ms))"
| "jsonToTxMetadatum (JObj es) = sbind (metadatumEntries es) (\<lambda>ms. Inr (MMap ms))"
| "jsonToTxMetadatum JNull = Inl invalid"
| "jsonToTxMetadatum (JBool b) = Inl invalid"
| "metadatumItems [] = Inr []"
| "metadatumItems (v # vs) = sbind (jsonToTxMetadatum v) (\<lambda>m. sbind (metadatumItems vs) (\<lambda>ms. Inr (m # ms)))"
| "metadatumEntries [] = Inr []"
| "metadatumEntries (e # es) =
     (if byteLength utf8_width (fst e) > METADATA_BYTE_LIMIT then Inl invalid
      else sbind (jsonToTxMetadatum (snd e)) (\<lambda>m. sbind (metadatumEntries es) (\<lambda>ms. Inr ((MText (fst e), m) # ms))))"

section \<open>Labels\<close>

text \<open>\<open>Object.entries\<close> of the metadata: an array counts by index, a text by character, other values have none.\<close>

definition objectEntries :: "json \<Rightarrow> (string \<times> json) list" where
  "objectEntries v = (case v of
     JObj es \<Rightarrow> es
   | JArr vs \<Rightarrow> zip (map dec [0..<length vs]) vs
   | JStr s \<Rightarrow> zip (map dec [0..<length s]) (map (\<lambda>c. JStr [c]) s)
   | _ \<Rightarrow> [])"

text \<open>The label is \<open>Number(label)\<close>, a double: above \<open>2^53\<close> it is rounded.\<close>

definition storeLabel :: "string \<times> json \<Rightarrow> (int, TxMetadatum) jmap \<Rightarrow> backend_error + (int, TxMetadatum) jmap" where
  "storeLabel e m =
     (if \<not> digits (fst e) then Inl invalid
      else sbind (jsonToTxMetadatum (snd e)) (\<lambda>v. Inr (mput m (round53 (decimal_value (fst e))) v)))"

fun storeLabels :: "(string \<times> json) list \<Rightarrow> (int, TxMetadatum) jmap \<Rightarrow> backend_error + (int, TxMetadatum) jmap" where
  "storeLabels [] m = Inr m"
| "storeLabels (e # es) m = sbind (storeLabel e m) (storeLabels es)"

definition mapOdatanoMetadataToLedgerMetadata :: "json option \<Rightarrow> backend_error + (int, TxMetadatum) jmap" where
  "mapOdatanoMetadataToLedgerMetadata metadataJson =
     (case metadataJson of None \<Rightarrow> Inr [] | Some v \<Rightarrow> storeLabels (objectEntries v) [])"

section \<open>The validity interval\<close>

definition DEFAULT_VALIDITY_START_OFFSET_MS :: int where "DEFAULT_VALIDITY_START_OFFSET_MS = 120000"
definition DEFAULT_VALIDITY_END_OFFSET_MS :: int where "DEFAULT_VALIDITY_END_OFFSET_MS = 3600000"

text \<open>The bounds are \<open>Number\<close> of the request's texts; \<open>None\<close>: absent or empty.\<close>

record validity =
  invalidBefore :: "int option"
  invalidAfter :: "int option"

definition resolveValiditySlots :: "(int \<Rightarrow> int) \<Rightarrow> int \<Rightarrow> int option \<Rightarrow> int option \<Rightarrow> bool \<Rightarrow> validity" where
  "resolveValiditySlots slotOf nowMs startMs endMs script =
     (if \<not> script then \<lparr>invalidBefore = map_option slotOf startMs, invalidAfter = map_option slotOf endMs\<rparr>
      else \<lparr>invalidBefore = Some (slotOf (nullish startMs (nowMs - DEFAULT_VALIDITY_START_OFFSET_MS))),
            invalidAfter = Some (slotOf (nullish endMs (nowMs + DEFAULT_VALIDITY_END_OFFSET_MS)))\<rparr>)"

section \<open>Chunks hold the text and the limit\<close>

lemma byteLength_append [simp]: "byteLength w (a @ b) = byteLength w a + byteLength w b"
  by (simp add: byteLength_def)

lemma chunkLoop_concat: "concat (chunkLoop w n str cur b done1) = concat done1 @ cur @ str"
  by (induction str arbitrary: cur b done1) (auto simp: Let_def)

lemma chunkLoop_limit:
  assumes "\<forall>c \<in> set str. w c \<le> n" "byteLength w cur \<le> n" "list_all (\<lambda>p. byteLength w p \<le> n) done1"
  shows "list_all (\<lambda>p. byteLength w p \<le> n) (chunkLoop w n str cur (byteLength w cur) done1)"
  using assms
proof (induction str arbitrary: cur done1)
  case (Cons ch str)
  have "byteLength w [ch] = w ch" by (simp add: byteLength_def)
  with Cons.IH [of "[ch]" "done1 @ [cur]"] Cons.IH [of "cur @ [ch]" done1] Cons.prems show ?case by (simp add: Let_def)
qed simp

lemma chunkUtf8_spec:
  assumes "\<forall>c \<in> set str. w c \<le> n"
  shows "concat (chunkUtf8 w str n) = str" "list_all (\<lambda>p. byteLength w p \<le> n) (chunkUtf8 w str n)"
  using chunkLoop_limit [OF assms, of "[]" "[]"] by (simp_all add: chunkUtf8_def chunkLoop_concat byteLength_def)

lemma utf8_width_small: "utf8_width c \<le> 64"
  by (simp add: utf8_width_def)

section \<open>What a datum may hold, and what it stands for\<close>

fun within_limits :: "TxMetadatum \<Rightarrow> bool" where
  "within_limits (MInt n) = True"
| "within_limits (MText s) = (byteLength utf8_width s \<le> 64)"
| "within_limits (MBytes bs) = (length bs \<le> 64)"
| "within_limits (MList ms) = list_all within_limits ms"
| "within_limits (MMap es) = list_all (\<lambda>(k, v). within_limits k \<and> within_limits v) es"

definition text_of :: "TxMetadatum \<Rightarrow> string" where
  "text_of m = (case m of MText s \<Rightarrow> s | MList ms \<Rightarrow> concat (map (\<lambda>x. case x of MText s \<Rightarrow> s | _ \<Rightarrow> []) ms) | _ \<Rightarrow> [])"

definition bytes_of_datum :: "TxMetadatum \<Rightarrow> nat list" where
  "bytes_of_datum m = (case m of MBytes s \<Rightarrow> s | MList ms \<Rightarrow> concat (map (\<lambda>x. case x of MBytes s \<Rightarrow> s | _ \<Rightarrow> []) ms) | _ \<Rightarrow> [])"

text \<open>The datum \<open>m\<close> reads back as the JSON value \<open>v\<close>.\<close>

fun stands_for :: "json \<Rightarrow> TxMetadatum \<Rightarrow> bool" where
  "stands_for (JInt n) m = (m = MInt n)"
| "stands_for (JStr s) m = (if is_hex_bytes s then bytes_of_datum m = hex_bytes (drop 2 s) else text_of m = s)"
| "stands_for (JArr vs) m = (case m of MList ms \<Rightarrow> list_all2 stands_for vs ms | _ \<Rightarrow> False)"
| "stands_for (JObj es) m = (case m of MMap ms \<Rightarrow> list_all2 (\<lambda>e (k, x). k = MText (fst e) \<and> stands_for (snd e) x) es ms | _ \<Rightarrow> False)"
| "stands_for _ m = False"

text \<open>Values that have a datum: whole numbers, texts, lists and maps of them with short keys.\<close>

fun encodable :: "json \<Rightarrow> bool" where
  "encodable (JInt n) = True"
| "encodable (JStr s) = True"
| "encodable (JArr vs) = list_all encodable vs"
| "encodable (JObj es) = list_all (\<lambda>(k, v). byteLength utf8_width k \<le> 64 \<and> encodable v) es"
| "encodable _ = False"

lemma text_datum: "within_limits (text_metadatum s) \<and> stands_for (JStr s) (text_metadatum s)"
proof (cases "is_hex_bytes s")
  case True
  have "list_all (\<lambda>c. length c \<le> 64) (chunks 64 bs)" for bs :: "nat list"
    by (auto simp: list_all_iff dest: chunks_length)
  moreover have "concat (map (\<lambda>x. case x of MBytes s \<Rightarrow> s | _ \<Rightarrow> []) (map MBytes ps)) = concat ps" for ps by (induction ps) auto
  ultimately show ?thesis using True concat_chunks [of 64 "hex_bytes (drop 2 s)"]
    by (simp add: text_metadatum_def METADATA_BYTE_LIMIT_def bytes_of_datum_def Let_def list.pred_map comp_def)
next
  case False
  define ps where "ps = chunkUtf8 utf8_width s 64"
  have ps: "concat ps = s" "list_all (\<lambda>p. byteLength utf8_width p \<le> 64) ps"
    unfolding ps_def using chunkUtf8_spec [of s utf8_width 64] utf8_width_small by blast+
  have "byteLength utf8_width s \<le> 64" if "length ps = 1"
    using that ps by (cases ps) auto
  moreover have "concat (map (\<lambda>x. case x of MText s \<Rightarrow> s | _ \<Rightarrow> []) (map MText qs)) = concat qs" for qs by (induction qs) auto
  ultimately show ?thesis using False ps
    by (simp add: text_metadatum_def METADATA_BYTE_LIMIT_def text_of_def ps_def [symmetric] Let_def list.pred_map comp_def)
qed

lemma metadatum_spec:
  "(case jsonToTxMetadatum v of Inl _ \<Rightarrow> \<not> encodable v | Inr m \<Rightarrow> encodable v \<and> within_limits m \<and> stands_for v m)"
  "(case metadatumItems vs of Inl _ \<Rightarrow> \<not> list_all encodable vs
     | Inr ms \<Rightarrow> list_all encodable vs \<and> list_all within_limits ms \<and> list_all2 stands_for vs ms)"
  "(case metadatumEntries es of Inl _ \<Rightarrow> \<not> encodable (JObj es)
     | Inr ms \<Rightarrow> encodable (JObj es) \<and> within_limits (MMap ms) \<and> stands_for (JObj es) (MMap ms))"
proof (induction v and vs and es rule: jsonToTxMetadatum_metadatumItems_metadatumEntries.induct)
  case (3 s)
  then show ?case using text_datum [of s] by simp
next
  case (9 v vs)
  then show ?case by (auto simp: sbind_def split: sum.splits)
next
  case (11 e es)
  then show ?case by (cases e) (auto simp: sbind_def METADATA_BYTE_LIMIT_def split: sum.splits if_splits)
qed (auto simp: sbind_def split: sum.splits)

section \<open>Properties\<close>

text \<open>
  C40. The metadata encoding is exact: a JSON value is accepted just when it is made of whole numbers,
  texts, lists and maps with keys of at most 64 bytes; then no text and no byte string of the datum is
  over the ledger's 64 bytes, and the datum reads back as the value, the pieces of a long text or byte
  string in order.
\<close>

theorem metadata_encoding_exact:
  "case jsonToTxMetadatum v of
     Inl _ \<Rightarrow> \<not> encodable v
   | Inr m \<Rightarrow> encodable v \<and> within_limits m \<and> stands_for v m"
  by (rule metadatum_spec(1))

text \<open>Labels above \<open>2^53\<close> are rounded, so two of them can end up as one.\<close>

lemma large_labels_collide:
  "mapOdatanoMetadataToLedgerMetadata (Some (JObj [(''9007199254740992'', JInt 1), (''9007199254740993'', JInt 2)]))
     = Inr [(9007199254740992, MInt 2)]"
  by code_simp

text \<open>The default interval of a script build holds the present, when slots do not run backwards.\<close>

lemma default_validity_holds_now:
  assumes "mono slotOf" "v = resolveValiditySlots slotOf now None None True"
  shows "the (invalidBefore v) \<le> slotOf now \<and> slotOf now \<le> the (invalidAfter v)"
  using assms by (simp add: resolveValiditySlots_def DEFAULT_VALIDITY_START_OFFSET_MS_def DEFAULT_VALIDITY_END_OFFSET_MS_def monoD)

end
