(* ===== verification/Validators.thy ===== *)
theory Validators imports Json Collections LedgerState begin

text \<open>
  Field validation of requests (\<open>srv/utils/validators.ts\<close>): identifiers, addresses, CBOR hex and the
  inputs of the simple build actions. Bech32 is a library of the program: \<open>vl_decode\<close> gives prefix and
  words, \<open>None\<close> where it throws; \<open>vl_fromWords\<close> the number of bytes, which it refuses to count for words
  with bad padding. A throw that the code does not catch is the result \<open>None\<close>.
\<close>

record validation_env =
  vl_parse :: json_parser
  vl_network :: "Network option"
  vl_decode :: "string \<Rightarrow> (string \<times> nat list) option"
  vl_fromWords :: "nat list \<Rightarrow> nat option"

section \<open>Identifiers\<close>

definition safeTrimString :: "string \<Rightarrow> string option" where
  "safeTrimString s = (let t = trim_text s in if length t > 0 then Some t else None)"

definition tryDecodeBech32WithHrp :: "validation_env \<Rightarrow> string \<Rightarrow> string list \<Rightarrow> nat list option" where
  "tryDecodeBech32WithHrp env s allowedHrp =
     (case vl_decode env s of Some (prefix, words) \<Rightarrow> if prefix \<in> set allowedHrp then Some words else None | None \<Rightarrow> None)"

definition isTxHash :: "string \<Rightarrow> bool" where "isTxHash s = TX_HASH_REGEX s"
definition isAssetUnit :: "string \<Rightarrow> bool" where "isAssetUnit s = ASSET_UNIT_REGEX (trim_text s)"
definition isBlockHash :: "string \<Rightarrow> bool" where "isBlockHash s = HEX_64_REGEX s"
definition isValidCredential :: "string \<Rightarrow> bool" where "isValidCredential s = HEX_56_REGEX s"

definition POOL_ID_BYTES :: nat where "POOL_ID_BYTES = 28"
definition DREP_ID_BYTES :: nat where "DREP_ID_BYTES = 29"
definition MAX_EPOCH :: int where "MAX_EPOCH = 100000"
definition MAX_TX_CBOR_HEX_LENGTH :: nat where "MAX_TX_CBOR_HEX_LENGTH = 131072"
definition MAX_POSIX_MS_DIGITS :: nat where "MAX_POSIX_MS_DIGITS = 13"

text \<open>A decoded payload whose length satisfies \<open>P\<close>; the count is not guarded against the library's throw.\<close>

definition payload :: "validation_env \<Rightarrow> (nat \<Rightarrow> bool) \<Rightarrow> nat list option \<Rightarrow> bool option" where
  "payload env P decoded = (case decoded of None \<Rightarrow> Some False | Some words \<Rightarrow> map_option P (vl_fromWords env words))"

definition isValidPoolId :: "validation_env \<Rightarrow> string \<Rightarrow> bool option" where
  "isValidPoolId env raw =
     (case safeTrimString raw of
        None \<Rightarrow> Some False
      | Some s \<Rightarrow> if \<not> POOL_ID_REGEX s then Some False
                 else payload env (\<lambda>n. n = POOL_ID_BYTES) (tryDecodeBech32WithHrp env s [''pool'']))"

definition isValidDrepId :: "validation_env \<Rightarrow> string \<Rightarrow> bool option" where
  "isValidDrepId env raw =
     (case safeTrimString raw of
        None \<Rightarrow> Some False
      | Some s \<Rightarrow> if \<not> DREP_ID_REGEX s then Some False
                 else payload env (\<lambda>n. n = DREP_ID_BYTES) (tryDecodeBech32WithHrp env s [''drep'']))"

definition lower_alnum :: "char \<Rightarrow> bool" where
  "lower_alnum c \<longleftrightarrow> is_digit c \<or> 97 \<le> code_unit c \<and> code_unit c \<le> 122"

definition HRP_addr :: "Network \<Rightarrow> string \<Rightarrow> bool" where
  "HRP_addr n s = (case strip_prefix (if n = Mainnet then ''addr1'' else ''addr_test1'') s of
     None \<Rightarrow> False | Some r \<Rightarrow> 50 \<le> length r \<and> length r \<le> 100 \<and> list_all lower_alnum r)"

definition HRP_stake :: "Network \<Rightarrow> string \<Rightarrow> bool" where
  "HRP_stake n s = (case strip_prefix (if n = Mainnet then ''stake1'' else ''stake_test1'') s of
     None \<Rightarrow> False | Some r \<Rightarrow> 53 \<le> length r \<and> list_all lower_alnum r)"

definition isValidBech32Address :: "validation_env \<Rightarrow> string \<Rightarrow> bool option" where
  "isValidBech32Address env raw =
     (case (safeTrimString raw, vl_network env) of
        (Some s, Some network) \<Rightarrow>
          if \<not> HRP_addr network s then Some False
          else payload env (\<lambda>n. 29 \<le> n \<and> n \<le> 57) (tryDecodeBech32WithHrp env s [''addr'', ''addr_test''])
      | _ \<Rightarrow> Some False)"

definition isValidBech32StakeAddress :: "validation_env \<Rightarrow> string \<Rightarrow> bool option" where
  "isValidBech32StakeAddress env raw =
     (case (safeTrimString raw, vl_network env) of
        (Some s, Some network) \<Rightarrow>
          if \<not> HRP_stake network s then Some False
          else payload env (\<lambda>n. 1 \<le> n \<and> n \<le> 64) (tryDecodeBech32WithHrp env s [''stake'', ''stake_test''])
      | _ \<Rightarrow> Some False)"

definition isEpochNumber :: "json \<Rightarrow> bool" where
  "isEpochNumber v = (case v of JInt n \<Rightarrow> 0 \<le> n \<and> n \<le> MAX_EPOCH | _ \<Rightarrow> False)"

definition isValidCbor :: "string \<Rightarrow> bool" where
  "isValidCbor raw = (case safeTrimString raw of None \<Rightarrow> False | Some s \<Rightarrow> list_all is_hex s \<and> even (length s))"

definition isValidTxCborHex :: "string \<Rightarrow> bool" where
  "isValidTxCborHex raw \<longleftrightarrow> isValidCbor raw \<and> length (trim_text raw) \<le> MAX_TX_CBOR_HEX_LENGTH"

text \<open>Key hashes of required signers: all texts of 56 hex digits, or a throw.\<close>

definition validateRequiredSigners :: "json \<Rightarrow> string list option" where
  "validateRequiredSigners signers =
     (case signers of
        JArr vs \<Rightarrow> if list_all (\<lambda>v. case v of JStr s \<Rightarrow> ED25519_KEY_HASH_REGEX s | _ \<Rightarrow> False) vs
                  then Some (map (\<lambda>v. case v of JStr s \<Rightarrow> s | _ \<Rightarrow> []) vs) else None
      | _ \<Rightarrow> None)"

section \<open>The inputs of a build action\<close>

text \<open>Texts; \<open>ti_lovelaceAmount\<close> is \<open>String\<close> of the value.\<close>

record TransactionInputs =
  ti_senderAddress :: "string option"
  ti_recipientAddress :: "string option"
  ti_changeAddress :: "string option"
  ti_lovelaceAmount :: "string option"
  ti_signedTxCbor :: "string option"
  ti_metadataJson :: "string option"
  ti_assetsJson :: "string option"
  ti_mintActionsJson :: "string option"
  ti_mintingPolicyScript :: "string option"
  ti_validatorScript :: "string option"
  ti_scriptTxHash :: "string option"
  ti_scriptOutputIndex :: "json option"
  ti_redeemerJson :: "string option"
  ti_datumJson :: "string option"
  ti_referenceScriptHex :: "string option"
  ti_validityStartMs :: "string option"
  ti_validityEndMs :: "string option"

datatype ValidationError = MissingField string | InvalidField string

text \<open>A field by its name, as far as it is compared with \<open>undefined\<close>, \<open>null\<close> and the empty text.\<close>

definition absent :: "TransactionInputs \<Rightarrow> string \<Rightarrow> bool" where
  "absent i f =
     (case map_of [(''senderAddress'', ti_senderAddress i), (''recipientAddress'', ti_recipientAddress i),
        (''changeAddress'', ti_changeAddress i), (''lovelaceAmount'', ti_lovelaceAmount i), (''signedTxCbor'', ti_signedTxCbor i),
        (''metadataJson'', ti_metadataJson i), (''assetsJson'', ti_assetsJson i), (''mintActionsJson'', ti_mintActionsJson i),
        (''mintingPolicyScript'', ti_mintingPolicyScript i), (''validatorScript'', ti_validatorScript i),
        (''scriptTxHash'', ti_scriptTxHash i), (''redeemerJson'', ti_redeemerJson i), (''datumJson'', ti_datumJson i),
        (''referenceScriptHex'', ti_referenceScriptHex i), (''validityStartMs'', ti_validityStartMs i),
        (''validityEndMs'', ti_validityEndMs i),
        (''scriptOutputIndex'', if present (ti_scriptOutputIndex i) then Some ''1'' else None)] f of
        Some (Some s) \<Rightarrow> s = [] | _ \<Rightarrow> True)"

definition positive_text :: "string \<Rightarrow> bool" where
  "positive_text s \<longleftrightarrow> digits s \<and> s \<noteq> ''0''"

definition validatePosixMsField :: "string option \<Rightarrow> string \<Rightarrow> ValidationError option" where
  "validatePosixMsField v field =
     (case v of
        None \<Rightarrow> None
      | Some s \<Rightarrow> if s = [] then None
                 else if \<not> digits s \<or> length s > MAX_POSIX_MS_DIGITS then Some (InvalidField field) else None)"

text \<open>\<open>if (value && !ok(value)) errors.push(\<dots>)\<close>, where the check may throw.\<close>

definition check :: "string \<Rightarrow> (string \<Rightarrow> bool option) \<Rightarrow> string option \<Rightarrow> ValidationError list option" where
  "check field ok v =
     (if truthy v then map_option (\<lambda>b. if b then [] else [InvalidField field]) (ok (the v)) else Some [])"

definition jsonField :: "validation_env \<Rightarrow> nat \<Rightarrow> string \<Rightarrow> bool option" where
  "jsonField env maxDepth s = Some (\<not> isl (validateJsonWithLimits (vl_parse env) s maxDepth))"

definition MAX_CBOR_HEX_LENGTH :: nat where "MAX_CBOR_HEX_LENGTH = 65536"

definition validityErrors :: "string option \<Rightarrow> string option \<Rightarrow> ValidationError list" where
  "validityErrors start end1 =
     (let e1 = validatePosixMsField start ''validityStartMs''; e2 = validatePosixMsField end1 ''validityEndMs''
      in (case e1 of Some e \<Rightarrow> [e] | None \<Rightarrow> []) @ (case e2 of Some e \<Rightarrow> [e] | None \<Rightarrow> [])
         @ (if e1 = None \<and> e2 = None \<and> truthy start \<and> truthy end1 \<and> decimal_value (the start) \<ge> decimal_value (the end1)
            then [InvalidField ''validityEndMs''] else []))"

fun all_errors :: "ValidationError list option list \<Rightarrow> ValidationError list option" where
  "all_errors [] = Some []"
| "all_errors (None # cs) = None"
| "all_errors (Some es # cs) = map_option ((@) es) (all_errors cs)"

definition validateTransactionInputs :: "validation_env \<Rightarrow> TransactionInputs \<Rightarrow> string list \<Rightarrow> ValidationError list option" where
  "validateTransactionInputs env i requiredFields =
     (let missing = map MissingField (filter (absent i) requiredFields)
      in if missing \<noteq> [] then Some missing
         else all_errors
          [check ''senderAddress'' (isValidBech32Address env) (ti_senderAddress i),
           check ''recipientAddress'' (isValidBech32Address env) (ti_recipientAddress i),
           check ''changeAddress'' (isValidBech32Address env) (ti_changeAddress i),
           (case ti_lovelaceAmount i of None \<Rightarrow> Some [] | Some s \<Rightarrow> Some (if positive_text s then [] else [InvalidField ''lovelaceAmount''])),
           check ''signedTxCbor'' (\<lambda>s. Some (isValidCbor s \<and> length s \<le> MAX_CBOR_HEX_LENGTH)) (ti_signedTxCbor i),
           check ''mintingPolicyScript'' (\<lambda>s. Some (isValidCbor s)) (ti_mintingPolicyScript i),
           check ''validatorScript'' (\<lambda>s. Some (isValidCbor s)) (ti_validatorScript i),
           check ''referenceScriptHex'' (\<lambda>s. Some (isValidCbor s)) (ti_referenceScriptHex i),
           check ''scriptTxHash'' (\<lambda>s. Some (isTxHash s)) (ti_scriptTxHash i),
           (if present (ti_scriptOutputIndex i) \<and> as_index (ti_scriptOutputIndex i) = None
            then Some [InvalidField ''scriptOutputIndex''] else Some []),
           check ''metadataJson'' (jsonField env MAX_DEPTH) (ti_metadataJson i),
           check ''assetsJson'' (jsonField env MAX_DEPTH) (ti_assetsJson i),
           check ''mintActionsJson'' (jsonField env MAX_DEPTH) (ti_mintActionsJson i),
           check ''redeemerJson'' (jsonField env PLUTUS_DATA_MAX_DEPTH) (ti_redeemerJson i),
           check ''datumJson'' (jsonField env PLUTUS_DATA_MAX_DEPTH) (ti_datumJson i),
           Some (validityErrors (ti_validityStartMs i) (ti_validityEndMs i))])"

section \<open>What accepted inputs are\<close>

lemma all_errors_none: "all_errors cs = Some [] \<longleftrightarrow> list_all (\<lambda>c. c = Some []) cs"
  by (induction cs rule: all_errors.induct) auto

lemma check_accepts: "check f ok v = Some [] \<longleftrightarrow> (truthy v \<longrightarrow> ok (the v) = Some True)"
  by (auto simp: check_def)

lemma decimal_value_bound:
  assumes "list_all is_digit s"
  shows "0 \<le> decimal_value s \<and> decimal_value s < 10 ^ length s"
  using assms
proof (induction s rule: rev_induct)
  case (snoc c s)
  then have "48 \<le> code_unit c" "code_unit c \<le> 57" by (simp_all add: is_digit_def)
  with snoc show ?case by (simp add: decimal_value_append)
qed (simp add: decimal_value_def)

lemma posix_field_ok:
  "validatePosixMsField v f = None \<Longrightarrow> truthy v \<Longrightarrow> digits (the v) \<and> 0 \<le> decimal_value (the v) \<and> decimal_value (the v) < 10 ^ 13"
proof -
  assume a: "validatePosixMsField v f = None" "truthy v"
  then obtain s where s: "v = Some s" "digits s" "length s \<le> 13"
    by (auto simp: validatePosixMsField_def truthy_def MAX_POSIX_MS_DIGITS_def split: option.splits if_splits)
  then have "list_all is_digit s" by (simp add: digits_def)
  moreover have "(10::int) ^ length s \<le> 10 ^ 13" using s(3) by (intro power_increasing) simp_all
  ultimately show ?thesis using s decimal_value_bound [of s] by force
qed

lemma validity_interval_ok:
  assumes "validityErrors start end1 = []" "truthy start" "truthy end1"
  shows "0 \<le> decimal_value (the start)" "decimal_value (the start) < decimal_value (the end1)" "decimal_value (the end1) < 10 ^ 13"
  using assms posix_field_ok [of start "''validityStartMs''"] posix_field_ok [of end1 "''validityEndMs''"]
  by (auto simp: validityErrors_def Let_def split: option.splits if_splits)

text \<open>
  Two gaps. Texts are trimmed for the check only, so a script with a space before it is accepted and
  then decodes to nothing; and a text of several zeros passes for a positive amount.
\<close>

lemma spaced_script_decodes_to_nothing: "isValidCbor '' 4e4d'' \<and> hex_bytes '' 4e4d'' = []"
  by (simp add: isValidCbor_def safeTrimString_def trim_text_def js_white_def code_unit_def is_hex_def is_lower_hex_def is_digit_def
      hex_digit_def Let_def)

lemma zeros_are_positive: "positive_text ''00'' \<and> decimal_value ''00'' = 0"
  by (simp add: positive_text_def digits_def is_digit_def code_unit_def decimal_value_def)

end
