(* ===== verification/RequestParsers.thy ===== *)
theory RequestParsers imports Validators TxFees TxFunding begin

text \<open>
  The parsers for the JSON fields of the build actions (\<open>srv/utils/tx-request-parsers.ts\<close>), shared by the
  services and the wallet worker. Arguments stand for the libraries: \<open>rq_plutusData\<close>, whether
  \<open>dataFromCbor\<close> reads a text; \<open>rq_scriptHash\<close>, the hash of \<open>Script.fromCbor\<close> over bytes; and
  \<open>rq_bigText\<close>, the text \<open>String(n)\<close> gives a number from \<open>10^21\<close> on.
\<close>

record request_env = validation_env +
  rq_plutusData :: "string \<Rightarrow> bool"
  rq_scriptHash :: "nat list \<Rightarrow> string option"
  rq_bigText :: "int \<Rightarrow> string"

text \<open>Why a field is refused: its JSON, the named part of it, or a throw of a validator.\<close>

datatype request_error = JsonRejected json_error | Rejected string | Thrown

section \<open>Shared parts\<close>

definition read_json :: "'a request_env_scheme \<Rightarrow> string \<Rightarrow> request_error + json" where
  "read_json env s = (case validateJsonWithLimits (vl_parse env) s MAX_DEPTH of Inl e \<Rightarrow> Inl (JsonRejected e) | Inr v \<Rightarrow> Inr v)"

definition read_array :: "'a request_env_scheme \<Rightarrow> string \<Rightarrow> request_error + json list" where
  "read_array env s = sbind (read_json env s) (\<lambda>v. case v of JArr xs \<Rightarrow> Inr xs | _ \<Rightarrow> Inl (Rejected ''array''))"

text \<open>\<open>!entry || typeof entry !== 'object'\<close>; an array has none of the fields read here.\<close>

definition as_entry :: "json \<Rightarrow> request_error + (string \<times> json) list" where
  "as_entry v = (case v of JObj es \<Rightarrow> Inr es | JArr _ \<Rightarrow> Inr [] | _ \<Rightarrow> Inl (Rejected ''object''))"

definition text_field :: "(string \<times> json) list \<Rightarrow> string \<Rightarrow> (string \<Rightarrow> bool) \<Rightarrow> request_error + string" where
  "text_field es f ok = (case as_string (jfield es f) of None \<Rightarrow> Inl (Rejected f) | Some s \<Rightarrow> if ok s then Inr s else Inl (Rejected f))"

definition parsePlutusCbor :: "'a request_env_scheme \<Rightarrow> (string \<times> json) list \<Rightarrow> string \<Rightarrow> request_error + string" where
  "parsePlutusCbor env es f =
     sbind (text_field es f (\<lambda>s. isValidCbor s \<and> rq_plutusData env s)) (\<lambda>s. Inr (toLowerCase s))"

definition parseJsonField :: "'a request_env_scheme \<Rightarrow> (string \<times> json) list \<Rightarrow> string \<Rightarrow> request_error + json" where
  "parseJsonField env es f =
     sbind (text_field es f (\<lambda>_. True)) (\<lambda>s. case validatePlutusJson (vl_parse env) s of Inl e \<Rightarrow> Inl (JsonRejected e) | Inr v \<Rightarrow> Inr v)"

definition has :: "(string \<times> json) list \<Rightarrow> string \<Rightarrow> bool" where
  "has es f = present (jfield es f)"

definition optionally :: "bool \<Rightarrow> request_error + 'a \<Rightarrow> request_error + 'a option" where
  "optionally b r = (if b then sbind r (\<lambda>x. Inr (Some x)) else Inr None)"

definition refuse :: "bool \<Rightarrow> string \<Rightarrow> request_error + unit" where
  "refuse b why = throwIf b (Rejected why)"

text \<open>Entries in order; each sees the keys of those before it.\<close>

fun parse_entries :: "(string list \<Rightarrow> json \<Rightarrow> request_error + 'p) \<Rightarrow> ('p \<Rightarrow> string) \<Rightarrow> string list \<Rightarrow> json list \<Rightarrow> request_error + 'p list" where
  "parse_entries parse_one k seen [] = Inr []"
| "parse_entries parse_one k seen (x # xs) =
     sbind (parse_one seen x) (\<lambda>p. sbind (parse_entries parse_one k (k p # seen) xs) (\<lambda>ps. Inr (p # ps)))"

text \<open>An optional list: absent when the text or the array is empty, refused over its limit.\<close>

definition parse_list ::
  "'a request_env_scheme \<Rightarrow> (string list \<Rightarrow> json \<Rightarrow> request_error + 'p) \<Rightarrow> ('p \<Rightarrow> string) \<Rightarrow> nat option \<Rightarrow> string option \<Rightarrow> request_error + 'p list option" where
  "parse_list env parse_one k limit json =
     (if \<not> truthy json then Inr None
      else sbind (read_array env (the json)) (\<lambda>xs.
        if xs = [] then Inr None
        else if (case limit of None \<Rightarrow> False | Some n \<Rightarrow> length xs > n) then Inl (Rejected ''limit'')
        else sbind (parse_entries parse_one k [] xs) (\<lambda>ps. Inr (Some ps))))"

section \<open>References, signers, assets\<close>

definition utxo_ref :: "(string \<times> json) list \<Rightarrow> request_error + InputRef" where
  "utxo_ref es =
     sbind (text_field es ''txHash'' isTxHash) (\<lambda>h.
       case as_index (jfield es ''outputIndex'') of
         None \<Rightarrow> Inl (Rejected ''outputIndex'')
       | Some i \<Rightarrow> Inr \<lparr>rf_txHash = h, rf_outputIndex = i\<rparr>)"

definition parseUtxoRefArray :: "'a request_env_scheme \<Rightarrow> string option \<Rightarrow> request_error + InputRef list option" where
  "parseUtxoRefArray env json = parse_list env (\<lambda>_ v. sbind (as_entry v) utxo_ref) key None json"

definition parseRequiredSigners :: "'a request_env_scheme \<Rightarrow> string option \<Rightarrow> request_error + string list option" where
  "parseRequiredSigners env json =
     (if \<not> truthy json then Inr None
      else sbind (read_json env (the json)) (\<lambda>v.
        case validateRequiredSigners v of None \<Rightarrow> Inl (Rejected ''requiredSignersJson'') | Some ss \<Rightarrow> Inr (Some ss)))"

record ParsedAsset =
  pa_unit :: string
  pa_quantity :: string

definition parseAsset :: "json \<Rightarrow> request_error + ParsedAsset" where
  "parseAsset v =
     sbind (as_entry v) (\<lambda>es.
     sbind (text_field es ''unit'' (\<lambda>u. toLowerCase u \<noteq> ''lovelace'' \<and> isAssetUnit u)) (\<lambda>u.
     sbind (text_field es ''quantity'' positive_text) (\<lambda>q. Inr \<lparr>pa_unit = u, pa_quantity = q\<rparr>)))"

definition parseAssetsArray :: "'a request_env_scheme \<Rightarrow> string option \<Rightarrow> request_error + ParsedAsset list option" where
  "parseAssetsArray env json =
     (if \<not> truthy json then Inr None
      else sbind (read_array env (the json)) (\<lambda>xs. sbind (each parseAsset xs) (\<lambda>as. Inr (Some as))))"

section \<open>Outputs\<close>

definition MAX_EXTRA_OUTPUTS :: nat where "MAX_EXTRA_OUTPUTS = 32"

record ParsedExtraOutput =
  po_address :: string
  po_lovelaceAmount :: string
  po_assets :: "ParsedAsset list option"
  po_inlineDatum :: "json option"
  po_datumHash :: "string option"
  po_inlineDatumCbor :: "string option"
  po_referenceScript :: "string option"

definition address_field ::
  "(string \<Rightarrow> bool option) \<Rightarrow> (string \<times> json) list \<Rightarrow> string \<Rightarrow> request_error + string" where
  "address_field ok es f =
     (case as_string (jfield es f) of
        None \<Rightarrow> Inl (Rejected f)
      | Some s \<Rightarrow> (case ok s of None \<Rightarrow> Inl Thrown | Some b \<Rightarrow> if b then Inr s else Inl (Rejected f)))"

text \<open>\<open>outputsJson\<close>: whether the list is the outputs of BuildPlutusTransaction.\<close>

definition parseOutput :: "'a request_env_scheme \<Rightarrow> bool \<Rightarrow> json \<Rightarrow> request_error + ParsedExtraOutput" where
  "parseOutput env outputsJson v =
     sbind (as_entry v) (\<lambda>es.
     sbind (address_field (isValidBech32Address (validation_env.truncate env)) es ''address'') (\<lambda>address.
     sbind (text_field es ''lovelaceAmount'' positive_text) (\<lambda>lovelace.
     sbind (optionally (has es ''assets'') (case jfield es ''assets'' of Some (JArr xs) \<Rightarrow> each parseAsset xs | _ \<Rightarrow> Inl (Rejected ''assets''))) (\<lambda>assets.
     sbind (optionally (has es ''inlineDatumJson'') (parseJsonField env es ''inlineDatumJson'')) (\<lambda>inlineDatum.
     sbind (optionally (has es ''inlineDatumCbor'')
             (sbind (refuse (\<not> outputsJson) ''inlineDatumCbor'') (\<lambda>_.
              sbind (refuse (inlineDatum \<noteq> None) ''both datums'') (\<lambda>_. parsePlutusCbor env es ''inlineDatumCbor'')))) (\<lambda>inlineDatumCbor.
     sbind (optionally (has es ''datumHash'')
             (sbind (refuse (\<not> outputsJson) ''datumHash'') (\<lambda>_.
              sbind (text_field es ''datumHash'' (\<lambda>s. length s = 64 \<and> list_all is_hex s)) (\<lambda>h.
              sbind (refuse (inlineDatum \<noteq> None \<or> inlineDatumCbor \<noteq> None) ''both datums'') (\<lambda>_. Inr (toLowerCase h)))))) (\<lambda>datumHash.
     sbind (optionally (has es ''referenceScriptHex'') (text_field es ''referenceScriptHex'' isValidCbor)) (\<lambda>referenceScript.
       Inr \<lparr>po_address = address, po_lovelaceAmount = lovelace, po_assets = assets, po_inlineDatum = inlineDatum,
            po_datumHash = datumHash, po_inlineDatumCbor = inlineDatumCbor, po_referenceScript = referenceScript\<rparr>))))))))"

definition parseOutputList :: "'a request_env_scheme \<Rightarrow> bool \<Rightarrow> string option \<Rightarrow> request_error + ParsedExtraOutput list option" where
  "parseOutputList env outputsJson json = parse_list env (\<lambda>_. parseOutput env outputsJson) (\<lambda>_. []) (Some MAX_EXTRA_OUTPUTS) json"

definition parseExtraOutputs :: "'a request_env_scheme \<Rightarrow> string option \<Rightarrow> request_error + ParsedExtraOutput list option" where
  "parseExtraOutputs env json = parseOutputList env False json"

section \<open>Scripts with their redeemers\<close>

text \<open>\<open>{txHash, outputIndex}\<close> of the output that carries the script.\<close>

definition script_ref :: "(string \<times> json) list \<Rightarrow> request_error + InputRef" where
  "script_ref es =
     (case jfield es ''referenceScript'' of
        Some (JObj fs) \<Rightarrow> (case utxo_ref fs of Inl _ \<Rightarrow> Inl (Rejected ''referenceScript'')
                            | Inr r \<Rightarrow> Inr (r\<lparr>rf_txHash := toLowerCase (rf_txHash r)\<rparr>))
      | _ \<Rightarrow> Inl (Rejected ''referenceScript''))"

text \<open>Parameters of an inline script: a JSON array, absent when it is empty.\<close>

definition script_params :: "'a request_env_scheme \<Rightarrow> (string \<times> json) list \<Rightarrow> request_error + json list option" where
  "script_params env es =
     (if \<not> has es ''scriptParamsJson'' then Inr None
      else sbind (parseJsonField env es ''scriptParamsJson'') (\<lambda>v. case v of
          JArr [] \<Rightarrow> Inr None | JArr xs \<Rightarrow> Inr (Some xs) | _ \<Rightarrow> Inl (Rejected ''scriptParamsJson'')))"

datatype plutus_value = FromJson json | FromCbor string

definition one_redeemer :: "'a request_env_scheme \<Rightarrow> (string \<times> json) list \<Rightarrow> request_error + plutus_value" where
  "one_redeemer env es =
     (if has es ''redeemerJson'' = has es ''redeemerCbor'' then Inl (Rejected ''redeemer'')
      else if has es ''redeemerCbor'' then sbind (parsePlutusCbor env es ''redeemerCbor'') (\<lambda>h. Inr (FromCbor h))
      else sbind (parseJsonField env es ''redeemerJson'') (\<lambda>v. Inr (FromJson v)))"

datatype script_source = InlineScript string "json list option" | ReferenceScript InputRef

definition script_source :: "'a request_env_scheme \<Rightarrow> (string \<times> json) list \<Rightarrow> string \<Rightarrow> bool \<Rightarrow> request_error + script_source" where
  "script_source env es f inline =
     (if inline then
        sbind (text_field es f isValidCbor) (\<lambda>s. sbind (script_params env es) (\<lambda>ps. Inr (InlineScript s ps)))
      else sbind (script_ref es) (\<lambda>r.
        sbind (refuse (has es ''scriptParamsJson'') ''scriptParamsJson'') (\<lambda>_. Inr (ReferenceScript r))))"

definition MAX_SCRIPT_INPUTS :: nat where "MAX_SCRIPT_INPUTS = 16"

record ParsedScriptInput = InputRef +
  ps_script :: script_source
  ps_redeemer :: plutus_value
  ps_datum :: "plutus_value option"

definition parseScriptInput :: "'a request_env_scheme \<Rightarrow> string list \<Rightarrow> json \<Rightarrow> request_error + ParsedScriptInput" where
  "parseScriptInput env seen v =
     sbind (as_entry v) (\<lambda>es.
     sbind (utxo_ref es) (\<lambda>r.
     sbind (refuse (key r \<in> set seen) ''spent twice'') (\<lambda>_.
     sbind (refuse (has es ''validatorScript'' = has es ''referenceScript'') ''script'') (\<lambda>_.
     sbind (script_source env es ''validatorScript'' (has es ''validatorScript'')) (\<lambda>script.
     sbind (one_redeemer env es) (\<lambda>redeemer.
     sbind (refuse (has es ''datumJson'' \<and> has es ''datumCbor'') ''datum'') (\<lambda>_.
     sbind (if has es ''datumCbor'' then sbind (parsePlutusCbor env es ''datumCbor'') (\<lambda>h. Inr (Some (FromCbor h)))
            else if has es ''datumJson'' then sbind (parseJsonField env es ''datumJson'') (\<lambda>d. Inr (Some (FromJson d)))
            else Inr None) (\<lambda>datum.
       Inr \<lparr>rf_txHash = toLowerCase (rf_txHash r), rf_outputIndex = rf_outputIndex r,
            ps_script = script, ps_redeemer = redeemer, ps_datum = datum\<rparr>))))))))"

definition parseScriptInputs :: "'a request_env_scheme \<Rightarrow> string option \<Rightarrow> request_error + ParsedScriptInput list" where
  "parseScriptInputs env json =
     sbind (parse_list env (parseScriptInput env) key (Some MAX_SCRIPT_INPUTS) json) (\<lambda>r. Inr (nullish r []))"

section \<open>Withdrawals and certificates\<close>

definition MAX_WITHDRAWALS :: nat where "MAX_WITHDRAWALS = 16"
definition MAX_CERTIFICATES :: nat where "MAX_CERTIFICATES = 16"

type_synonym staking_witness = "(script_source \<times> plutus_value) option"

definition parseStakingScriptWitness :: "'a request_env_scheme \<Rightarrow> (string \<times> json) list \<Rightarrow> request_error + staking_witness" where
  "parseStakingScriptWitness env es =
     (let hasInline = has es ''stakingScript''; hasRef = has es ''referenceScript''
      in if hasInline \<and> hasRef then Inl (Rejected ''stakingScript'')
         else if hasInline \<or> hasRef then
           sbind (script_source env es ''stakingScript'' hasInline) (\<lambda>script.
           sbind (one_redeemer env es) (\<lambda>redeemer. Inr (Some (script, redeemer))))
         else if has es ''scriptParamsJson'' then Inl (Rejected ''scriptParamsJson'')
         else if has es ''redeemerJson'' \<or> has es ''redeemerCbor'' then Inl (Rejected ''redeemer'')
         else Inr None)"

text \<open>\<open>String(n)\<close> of a whole number.\<close>

definition number_text :: "'a request_env_scheme \<Rightarrow> int \<Rightarrow> string" where
  "number_text env n = (if n < 10 ^ 21 then dec (nat n) else rq_bigText env n)"

record ParsedWithdrawal =
  pw_rewardAddress :: string
  pw_lovelace :: string
  pw_witness :: staking_witness

definition parseWithdrawal :: "'a request_env_scheme \<Rightarrow> string list \<Rightarrow> json \<Rightarrow> request_error + ParsedWithdrawal" where
  "parseWithdrawal env seen v =
     sbind (as_entry v) (\<lambda>es.
     sbind (address_field (isValidBech32StakeAddress (validation_env.truncate env)) es ''rewardAddress'') (\<lambda>a.
     sbind (refuse (toLowerCase a \<in> set seen) ''second time'') (\<lambda>_.
     sbind (case jfield es ''lovelace'' of
              Some (JInt n) \<Rightarrow> if n \<ge> 0 then Inr (number_text env n) else Inl (Rejected ''lovelace'')
            | Some (JStr s) \<Rightarrow> if digits s then Inr s else Inl (Rejected ''lovelace'')
            | _ \<Rightarrow> Inl (Rejected ''lovelace'')) (\<lambda>lovelace.
     sbind (parseStakingScriptWitness env es) (\<lambda>w.
       Inr \<lparr>pw_rewardAddress = toLowerCase a, pw_lovelace = lovelace, pw_witness = w\<rparr>)))))"

definition parseWithdrawals :: "'a request_env_scheme \<Rightarrow> string option \<Rightarrow> request_error + ParsedWithdrawal list option" where
  "parseWithdrawals env json = parse_list env (parseWithdrawal env) pw_rewardAddress (Some MAX_WITHDRAWALS) json"

record ParsedCertificate =
  pc_register :: bool
  pc_stakeAddress :: string
  pc_deposit :: "string option"
  pc_witness :: staking_witness

definition parseCertificate :: "'a request_env_scheme \<Rightarrow> json \<Rightarrow> request_error + ParsedCertificate" where
  "parseCertificate env v =
     sbind (as_entry v) (\<lambda>es.
     sbind (text_field es ''type'' (\<lambda>t. t = ''registerStake'' \<or> t = ''deregisterStake'')) (\<lambda>type.
     sbind (address_field (isValidBech32StakeAddress (validation_env.truncate env)) es ''stakeAddress'') (\<lambda>a.
     sbind (optionally (has es ''deposit'') (case jfield es ''deposit'' of
              Some (JInt n) \<Rightarrow> if n > 0 then Inr (number_text env n) else Inl (Rejected ''deposit'')
            | Some (JStr s) \<Rightarrow> if positive_text s then Inr s else Inl (Rejected ''deposit'')
            | _ \<Rightarrow> Inl (Rejected ''deposit''))) (\<lambda>deposit.
     sbind (parseStakingScriptWitness env es) (\<lambda>w.
       Inr \<lparr>pc_register = (type = ''registerStake''), pc_stakeAddress = toLowerCase a, pc_deposit = deposit, pc_witness = w\<rparr>)))))"

definition parseCertificates :: "'a request_env_scheme \<Rightarrow> string option \<Rightarrow> request_error + ParsedCertificate list option" where
  "parseCertificates env json = parse_list env (\<lambda>_. parseCertificate env) (\<lambda>_. []) (Some MAX_CERTIFICATES) json"

section \<open>Mint actions\<close>

definition MIN_FULL_ASSET_UNIT_LENGTH :: nat where "MIN_FULL_ASSET_UNIT_LENGTH = 57"

text \<open>\<open>/^-?\d+$/\<close> and its value.\<close>

definition signed_value :: "string \<Rightarrow> int option" where
  "signed_value s =
     (case s of
        CHR ''-'' # r \<Rightarrow> if digits r then Some (- decimal_value r) else None
      | r \<Rightarrow> if digits r then Some (decimal_value r) else None)"

definition parseMintActionPolicyFields ::
  "'a request_env_scheme \<Rightarrow> (string \<times> json) list \<Rightarrow> bool \<Rightarrow> request_error + string option \<times> json option" where
  "parseMintActionPolicyFields env es byReference =
     sbind (optionally (has es ''mintingPolicyScript'') (text_field es ''mintingPolicyScript'' isValidCbor)) (\<lambda>script.
     sbind (optionally (has es ''redeemerJson'') (parseJsonField env es ''redeemerJson'')) (\<lambda>redeemer.
       if redeemer \<noteq> None \<and> script = None \<and> \<not> byReference then Inl (Rejected ''redeemerJson'') else Inr (script, redeemer)))"

definition mint_quantity :: "(string \<times> json) list \<Rightarrow> request_error + int" where
  "mint_quantity es =
     (case as_string (jfield es ''quantity'') of
        None \<Rightarrow> Inl (Rejected ''quantity'')
      | Some s \<Rightarrow> (case signed_value s of None \<Rightarrow> Inl (Rejected ''quantity'')
                   | Some q \<Rightarrow> if q = 0 then Inl (Rejected ''quantity'') else Inr q))"

text \<open>The unit and the carrier: the policy of an inline script completes a bare asset name.\<close>

definition mint_unit :: "'a request_env_scheme \<Rightarrow> (string \<times> json) list \<Rightarrow> string option \<Rightarrow> string \<Rightarrow> request_error + string \<times> InputRef option" where
  "mint_unit env es script u =
     (if has es ''referenceScript'' then
        sbind (script_ref es) (\<lambda>r.
        sbind (refuse (length u < MIN_FULL_ASSET_UNIT_LENGTH) ''assetUnit'') (\<lambda>_. Inr (u, Some r)))
      else (case rq_scriptHash env (hex_bytes (the script)) of
          None \<Rightarrow> Inl (Rejected ''mintingPolicyScript'')
        | Some policyId \<Rightarrow>
            if length u < MIN_FULL_ASSET_UNIT_LENGTH then Inr (policyId @ u, None)
            else if startsWith u policyId then Inr (u, None) else Inl (Rejected ''assetUnit'')))"

definition parsePolicyMintAction :: "'a request_env_scheme \<Rightarrow> json \<Rightarrow> request_error + MintAction \<times> json option" where
  "parsePolicyMintAction env v =
     sbind (as_entry v) (\<lambda>es.
     sbind (mint_quantity es) (\<lambda>q.
     sbind (refuse (has es ''mintingPolicyScript'' = has es ''referenceScript'') ''policy'') (\<lambda>_.
     sbind (parseMintActionPolicyFields env es (has es ''referenceScript'')) (\<lambda>fields.
     sbind (text_field es ''assetUnit'' (\<lambda>s. list_all is_hex s \<and> even (length s))) (\<lambda>unit0.
     sbind (mint_unit env es (fst fields) (toLowerCase unit0)) (\<lambda>u.
     sbind (refuse (\<not> isAssetUnit (fst u)) ''assetUnit'') (\<lambda>_.
       Inr (\<lparr>ma_assetUnit = fst u, ma_quantity = q, ma_mintingPolicyScript = (if truthy (fst fields) then fst fields else None),
             ma_referenceScript = (if truthy (fst fields) then None else snd u)\<rparr>, snd fields))))))))"

definition parsePolicyMintActions :: "'a request_env_scheme \<Rightarrow> string option \<Rightarrow> request_error + (MintAction \<times> json option) list option" where
  "parsePolicyMintActions env json = parse_list env (\<lambda>_. parsePolicyMintAction env) (\<lambda>_. []) None json"

section \<open>What a parsed request is\<close>

text \<open>A script comes from one place; its bytes are hex up to surrounding space, its carrier is named by a hash.\<close>

definition source_ok :: "script_source \<Rightarrow> bool" where
  "source_ok s = (case s of InlineScript hex params \<Rightarrow> isValidCbor hex \<and> params \<noteq> Some [] | ReferenceScript r \<Rightarrow> isTxHash (rf_txHash r))"

definition script_input_ok :: "ParsedScriptInput \<Rightarrow> bool" where
  "script_input_ok p \<longleftrightarrow> isTxHash (rf_txHash p) \<and> source_ok (ps_script p)"

definition witness_ok :: "staking_witness \<Rightarrow> bool" where
  "witness_ok w = (case w of None \<Rightarrow> True | Some (s, _) \<Rightarrow> source_ok s)"

definition mint_action_ok :: "'a request_env_scheme \<Rightarrow> MintAction \<Rightarrow> bool" where
  "mint_action_ok env m \<longleftrightarrow> ma_quantity m \<noteq> 0 \<and> isAssetUnit (ma_assetUnit m)
     \<and> (case (ma_mintingPolicyScript m, ma_referenceScript m) of
          (Some s, None) \<Rightarrow> (\<exists>policyId. rq_scriptHash env (hex_bytes s) = Some policyId \<and> startsWith (ma_assetUnit m) policyId)
        | (None, Some r) \<Rightarrow> isTxHash (rf_txHash r) \<and> length (ma_assetUnit m) \<ge> 57
        | _ \<Rightarrow> False)"

lemma text_field_Inr: "text_field es f ok = Inr s \<longleftrightarrow> as_string (jfield es f) = Some s \<and> ok s"
  by (auto simp: text_field_def split: option.splits)

lemma refuse_Inr: "refuse b why = Inr u \<longleftrightarrow> \<not> b"
  by (simp add: refuse_def throwIf_Inr_iff)

lemma optionally_Inr: "optionally b r = Inr x \<longleftrightarrow> (if b then \<exists>y. r = Inr y \<and> x = Some y else x = None)"
  by (auto simp: optionally_def sbind_Inr_iff)

lemmas parser_Inr = sbind_Inr_iff text_field_Inr refuse_Inr optionally_Inr

lemma toLowerCase_hash: "isTxHash h \<Longrightarrow> toLowerCase h = h"
  by (auto simp: isTxHash_def TX_HASH_REGEX_def toLowerCase_def list_all_iff lower_hex_fixed intro: map_idI)

lemma utxo_ref_Inr: "utxo_ref es = Inr r \<Longrightarrow> isTxHash (rf_txHash r)"
  by (auto simp: utxo_ref_def parser_Inr split: option.splits)

lemma script_ref_Inr: "script_ref es = Inr r \<Longrightarrow> isTxHash (rf_txHash r)"
  by (auto simp: script_ref_def toLowerCase_hash dest: utxo_ref_Inr split: option.splits json.splits sum.splits)

lemma script_params_Inr: "script_params env es = Inr ps \<Longrightarrow> ps \<noteq> Some []"
proof -
  assume a: "script_params env es = Inr ps"
  show "ps \<noteq> Some []"
  proof (cases "has es ''scriptParamsJson''")
    case True
    with a obtain v where "(case v of JArr [] \<Rightarrow> Inr None | JArr xs \<Rightarrow> Inr (Some xs) | _ \<Rightarrow> Inl (Rejected ''scriptParamsJson'')) = Inr ps"
      by (auto simp: script_params_def sbind_Inr_iff)
    then show ?thesis by (cases v) (auto split: list.splits)
  qed (use a in \<open>simp add: script_params_def\<close>)
qed

lemma script_source_Inr: "script_source env es f inline = Inr s \<Longrightarrow> source_ok s"
  by (auto simp: script_source_def source_ok_def parser_Inr dest: script_ref_Inr script_params_Inr split: if_splits)

lemma witness_Inr: "parseStakingScriptWitness env es = Inr w \<Longrightarrow> witness_ok w"
  by (auto simp: parseStakingScriptWitness_def witness_ok_def Let_def parser_Inr dest: script_source_Inr split: if_splits)

lemma parse_entries_distinct:
  assumes "\<And>seen x p. parse_one seen x = Inr p \<Longrightarrow> k p \<notin> set seen \<and> Q p"
  shows "parse_entries parse_one k seen xs = Inr ps \<Longrightarrow>
    distinct (map k ps) \<and> k ` set ps \<inter> set seen = {} \<and> list_all Q ps \<and> length ps = length xs"
proof (induction xs arbitrary: seen ps)
  case (Cons x xs)
  then obtain p rest where p: "parse_one seen x = Inr p" "parse_entries parse_one k (k p # seen) xs = Inr rest" "ps = p # rest"
    by (auto simp: sbind_Inr_iff)
  with Cons.IH [OF p(2)] assms [OF p(1)] show ?case by auto
qed simp

lemma parse_entries_all:
  assumes "\<And>seen x p. parse_one seen x = Inr p \<Longrightarrow> Q p"
  shows "parse_entries parse_one k seen xs = Inr ps \<Longrightarrow> list_all Q ps"
  by (induction xs arbitrary: seen ps) (auto simp: sbind_Inr_iff dest: assms)

lemma parse_list_Some:
  assumes "parse_list env parse_one k limit json = Inr (Some ps)"
  obtains xs where "parse_entries parse_one k [] xs = Inr ps" "case limit of None \<Rightarrow> True | Some n \<Rightarrow> length xs \<le> n"
  using assms by (auto simp: parse_list_def sbind_Inr_iff split: if_splits option.splits)

lemma parseScriptInput_Inr:
  assumes "parseScriptInput env seen v = Inr p"
  shows "key p \<notin> set seen \<and> script_input_ok p"
  using assms
  by (auto simp: parseScriptInput_def parser_Inr script_input_ok_def key_def toLowerCase_hash utxo_ref_Inr dest: script_source_Inr)

lemma parseWithdrawal_Inr:
  assumes "parseWithdrawal env seen v = Inr p"
  shows "pw_rewardAddress p \<notin> set seen \<and> witness_ok (pw_witness p)"
  using assms by (auto simp: parseWithdrawal_def parser_Inr dest: witness_Inr)

lemma startsWith_append: "startsWith (p @ s) p"
  by (induction p) (cases s; simp)+

lemma policy_fields_Inr:
  assumes "parseMintActionPolicyFields env es byRef = Inr (script, redeemer)"
  shows "script \<noteq> None \<longleftrightarrow> has es ''mintingPolicyScript''" "\<And>s. script = Some s \<Longrightarrow> s \<noteq> []"
  using assms
  by (auto simp: parseMintActionPolicyFields_def parser_Inr isValidCbor_def safeTrimString_def trim_text_def split: if_splits)

lemma mint_entry_Inr:
  assumes "parsePolicyMintAction env v = Inr p"
  shows "mint_action_ok env (fst p)"
proof -
  obtain es sr u0 q fr where
    x: "has es ''mintingPolicyScript'' \<noteq> has es ''referenceScript''"
    and f0: "parseMintActionPolicyFields env es (has es ''referenceScript'') = Inr sr"
    and mq: "mint_quantity es = Inr q" and full: "isAssetUnit (fst fr)" and r0: "mint_unit env es (fst sr) (toLowerCase u0) = Inr fr"
    and p: "Inr (\<lparr>ma_assetUnit = fst fr, ma_quantity = q, ma_mintingPolicyScript = (if truthy (fst sr) then fst sr else None),
             ma_referenceScript = (if truthy (fst sr) then None else snd fr)\<rparr>, snd sr) = (Inr p :: request_error + _)"
    using assms unfolding parsePolicyMintAction_def sbind_Inr_iff refuse_Inr by blast
  define script u full ref where "script = fst sr" and "u = toLowerCase u0" and "full = fst fr" and "ref = snd fr"
  note names = script_def u_def full_def ref_def
  have f: "parseMintActionPolicyFields env es (has es ''referenceScript'') = Inr (script, snd sr)" using f0 by (simp add: names)
  have r: "mint_unit env es script u = Inr (full, ref)" using r0 by (simp add: names)
  have full: "isAssetUnit full" using full by (simp add: names)
  have p: "fst p = \<lparr>ma_assetUnit = full, ma_quantity = q, ma_mintingPolicyScript = (if truthy script then script else None),
             ma_referenceScript = (if truthy script then None else ref)\<rparr>" using p by (auto simp: names)
  have q: "q \<noteq> 0" using mq by (auto simp: mint_quantity_def split: option.splits if_splits)
  note fields = policy_fields_Inr [OF f]
  show ?thesis
  proof (cases "has es ''referenceScript''")
    case True
    then have "script = None" using fields(1) x by simp
    moreover obtain rr where "script_ref es = Inr rr" "ref = Some rr" "full = u" "57 \<le> length u"
      using r True by (auto simp: mint_unit_def parser_Inr MIN_FULL_ASSET_UNIT_LENGTH_def)
    ultimately show ?thesis using q full by (simp add: p mint_action_ok_def truthy_def script_ref_Inr)
  next
    case False
    then obtain s where s: "script = Some s" "s \<noteq> []" using fields x by auto
    obtain policyId where "rq_scriptHash env (hex_bytes s) = Some policyId" "startsWith full policyId"
      using r False s by (auto simp: mint_unit_def startsWith_append split: option.splits if_splits)
    then show ?thesis using q full s by (simp add: p mint_action_ok_def truthy_def)
  qed
qed

section \<open>Properties\<close>


text \<open>The texts parse to one script input, one withdrawal and one mint action.\<close>

definition demo_json :: "string \<Rightarrow> json option" where
  "demo_json s =
     map_of [(''r'', JObj [(''int'', JInt 0)]),
       (''s'', JArr [JObj [(''txHash'', JStr (replicate 64 CHR ''a'')), (''outputIndex'', JInt 1), (''validatorScript'', JStr ''4e4d''), (''redeemerJson'', JStr ''r'')]]),
       (''w'', JArr [JObj [(''rewardAddress'', JStr (''stake1'' @ replicate 53 CHR ''q'')), (''lovelace'', JInt 0)]]),
       (''m'', JArr [JObj [(''quantity'', JStr ''-2''), (''mintingPolicyScript'', JStr ''4e4d''), (''assetUnit'', JStr ''AA'')]])] s"

definition demo_env :: request_env where
  "demo_env = \<lparr>vl_parse = demo_json, vl_network = Some Mainnet, vl_decode = (\<lambda>_. Some (''stake'', [])), vl_fromWords = (\<lambda>_. Some 29),
     rq_plutusData = (\<lambda>_. True), rq_scriptHash = (\<lambda>_. Some (replicate 56 CHR ''b'')), rq_bigText = (\<lambda>_. [])\<rparr>"

lemmas demo_defs = demo_env_def demo_json_def validateJsonWithLimits_def validatePlutusJson_def MAX_JSON_SIZE_def MAX_DEPTH_def
  PLUTUS_DATA_MAX_DEPTH_def MAX_KEYS_def MAX_ARRAY_LENGTH_def MAX_STRING_LENGTH_def

lemma demo_reads:
  "validateJsonWithLimits (vl_parse demo_env) ''s'' MAX_DEPTH = Inr (the (demo_json ''s''))"
  "validateJsonWithLimits (vl_parse demo_env) ''w'' MAX_DEPTH = Inr (the (demo_json ''w''))"
  "validateJsonWithLimits (vl_parse demo_env) ''m'' MAX_DEPTH = Inr (the (demo_json ''m''))"
  "validatePlutusJson (vl_parse demo_env) ''r'' = Inr (JObj [(''int'', JInt 0)])"
  by (simp_all add: demo_defs)

lemma demo_fields:
  "vl_network (validation_env.truncate demo_env) = Some Mainnet" "vl_decode (validation_env.truncate demo_env) = (\<lambda>_. Some (''stake'', []))"
  "vl_fromWords (validation_env.truncate demo_env) = (\<lambda>_. Some 29)" "rq_scriptHash demo_env = (\<lambda>_. Some (replicate 56 CHR ''b''))"
  by (simp_all add: demo_env_def validation_env.defs)

lemmas demo_steps = demo_fields demo_reads read_array_def read_json_def demo_json_def parse_list_def truthy_def as_entry_def utxo_ref_def text_field_def
  jfield_def as_string_def as_index_def isTxHash_def TX_HASH_REGEX_def has_def present_def refuse_def throwIf_def script_source_def
  isValidCbor_def safeTrimString_def trim_text_def js_white_def code_unit_def is_hex_def is_lower_hex_def is_digit_def
  script_params_def one_redeemer_def parseJsonField_def optionally_def Let_def toLowerCase_def lower_char_def list_all_replicate

lemma demo_parses:
  "\<not> isl (parseScriptInputs demo_env (Some ''s''))"
  "case parseWithdrawals demo_env (Some ''w'') of Inr (Some ws) \<Rightarrow> True | _ \<Rightarrow> False"
  "case parsePolicyMintActions demo_env (Some ''m'') of Inr (Some ms) \<Rightarrow> length ms = 1 | _ \<Rightarrow> False"
  subgoal by (simp add: demo_steps parseScriptInputs_def parseScriptInput_def MAX_SCRIPT_INPUTS_def)
  subgoal by (simp add: demo_steps parseWithdrawals_def parseWithdrawal_def MAX_WITHDRAWALS_def address_field_def number_text_def
      parseStakingScriptWitness_def isValidBech32StakeAddress_def HRP_stake_def lower_alnum_def payload_def tryDecodeBech32WithHrp_def)
  subgoal by (simp add: demo_steps parsePolicyMintActions_def parsePolicyMintAction_def parseMintActionPolicyFields_def signed_value_def mint_quantity_def mint_unit_def
      digits_def decimal_value_def MIN_FULL_ASSET_UNIT_LENGTH_def isAssetUnit_def ASSET_UNIT_REGEX_def)
  done


end
