(* ===== verification/Signatures.thy ===== *)
theory Signatures imports Addresses Placeholders begin

text \<open>
  Signatures: the verifier of signed transactions (\<open>srv/blockchain/signing/signature-verifier.ts\<close>) with the
  entry points of \<open>external-signer.ts\<close>, the merge of a wallet's witness set into the unsigned transaction
  (\<open>srv/utils/signing-helper.ts\<close>), the keys a transaction has to be signed with (\<open>resolveRequiredSigners\<close> of
  \<open>srv/cardano-sign-service.ts\<close>), and CIP-30 data signatures (\<open>cose-verifier.ts\<close>). The CBOR library, the
  hash and signature functions, hex and UTF-8 decoding belong to packages and are the argument \<open>lib\<close>.
\<close>

section \<open>CBOR and the libraries\<close>

text \<open>
  The CBOR objects of the library. \<open>subCborRef\<close> is the slice of the received bytes an object was parsed
  from; an object the program makes has none, and the encoder writes the slice where there is one.
\<close>

datatype cbor =
    CborUInt (subCborRef: "byte list option") nat
  | CborNegInt (subCborRef: "byte list option") int
  | CborBytes (subCborRef: "byte list option") "byte list"
  | CborText (subCborRef: "byte list option") string
  | CborArray (subCborRef: "byte list option") "cbor list" bool
  | CborMap (subCborRef: "byte list option") "(cbor \<times> cbor) list" bool
  | CborTag (subCborRef: "byte list option") nat cbor
  | CborSimple (subCborRef: "byte list option") nat

text \<open>\<open>None\<close>: the function throws. \<open>sl_verifyEd25519 signature message key\<close>.\<close>

record signing_lib =
  sl_fromHex :: "string \<Rightarrow> byte list option"
  sl_toHex :: "byte list \<Rightarrow> string"
  sl_parse :: "byte list \<Rightarrow> cbor option"
  sl_encode :: "cbor \<Rightarrow> byte list"
  sl_blake2b_256 :: "byte list \<Rightarrow> byte list"
  sl_blake2b_224 :: "byte list \<Rightarrow> byte list"
  sl_verifyEd25519 :: "byte list \<Rightarrow> byte list \<Rightarrow> byte list \<Rightarrow> bool option"
  sl_utf8 :: "byte list \<Rightarrow> string"
  sl_bech32 :: bech32_decode

definition isUInt :: "nat \<Rightarrow> cbor \<Rightarrow> bool" where
  "isUInt n k = (case k of CborUInt _ m \<Rightarrow> m = n | _ \<Rightarrow> False)"

definition untag :: "cbor \<Rightarrow> cbor" where
  "untag v = (case v of CborTag _ _ d \<Rightarrow> d | _ \<Rightarrow> v)"

section \<open>Reading a signed transaction\<close>

text \<open>The hash of the body as it was received.\<close>

definition computeBodyHash :: "signing_lib \<Rightarrow> byte list \<Rightarrow> string option" where
  "computeBodyHash lib txBytes =
     (case sl_parse lib txBytes of
        Some (CborArray _ (body # _) _) \<Rightarrow> map_option (\<lambda>r. sl_toHex lib (sl_blake2b_256 lib r)) (subCborRef body)
      | _ \<Rightarrow> None)"

record VkeyWitness =
  vw_index :: nat
  vw_pubKey :: "byte list"
  vw_signature :: "byte list"

definition vkeyPair :: "cbor \<Rightarrow> (byte list \<times> byte list) option" where
  "vkeyPair pair = (case pair of CborArray _ [CborBytes _ vk, CborBytes _ sg] _ \<Rightarrow> Some (vk, sg) | _ \<Rightarrow> None)"

definition witnessesOf :: "cbor list \<Rightarrow> VkeyWitness list" where
  "witnessesOf items = List.map_filter
     (\<lambda>(i, pair). map_option (\<lambda>(vk, sg). \<lparr>vw_index = i, vw_pubKey = vk, vw_signature = sg\<rparr>) (vkeyPair pair)) (enumerate 0 items)"

text \<open>The pairs under key 0 of the witness set, and how many entries are no pair of byte strings.\<close>

definition vkeyItems :: "cbor \<Rightarrow> cbor list" where
  "vkeyItems tx =
     (case tx of
        CborArray _ (_ # CborMap _ ws _ # _) _ \<Rightarrow>
          (case find (\<lambda>(k, _). isUInt 0 k) ws of
             Some (_, v) \<Rightarrow> (case untag v of CborArray _ items _ \<Rightarrow> items | _ \<Rightarrow> [])
           | None \<Rightarrow> [])
      | _ \<Rightarrow> [])"

definition readVkeyWitnesses :: "signing_lib \<Rightarrow> byte list \<Rightarrow> (VkeyWitness list \<times> nat) option" where
  "readVkeyWitnesses lib txBytes =
     map_option (\<lambda>tx. (witnessesOf (vkeyItems tx), length (filter (\<lambda>p. vkeyPair p = None) (vkeyItems tx)))) (sl_parse lib txBytes)"

definition extractVkeyWitnesses :: "signing_lib \<Rightarrow> byte list \<Rightarrow> VkeyWitness list option" where
  "extractVkeyWitnesses lib txBytes = map_option fst (readVkeyWitnesses lib txBytes)"

definition signatureValid :: "signing_lib \<Rightarrow> VkeyWitness \<Rightarrow> byte list \<Rightarrow> bool" where
  "signatureValid lib w bodyHashBytes \<longleftrightarrow> sl_verifyEd25519 lib (vw_signature w) bodyHashBytes (vw_pubKey w) = Some True"

definition signerKeyHash :: "signing_lib \<Rightarrow> VkeyWitness \<Rightarrow> string" where
  "signerKeyHash lib w = sl_toHex lib (sl_blake2b_224 lib (vw_pubKey w))"

section \<open>Checking every witness\<close>

datatype witness_error = MalformedEntries nat | WitnessInvalid nat | ReadFailure

record TxWitnessVerification =
  tv_valid :: bool
  tv_txBodyHash :: "string option"
  tv_signerKeyHashes :: "string list"
  tv_errors :: "witness_error list"

definition witnessErrors :: "signing_lib \<Rightarrow> byte list \<Rightarrow> VkeyWitness list \<Rightarrow> nat \<Rightarrow> witness_error list" where
  "witnessErrors lib body ws malformed =
     (if malformed > 0 then [MalformedEntries malformed] else [])
     @ map (\<lambda>w. WitnessInvalid (vw_index w)) (filter (\<lambda>w. \<not> signatureValid lib w body) ws)"

definition verifyTxWitnesses :: "signing_lib \<Rightarrow> string \<Rightarrow> TxWitnessVerification" where
  "verifyTxWitnesses lib signedTxCbor =
     (let failed = \<lambda>h. \<lparr>tv_valid = False, tv_txBodyHash = h, tv_signerKeyHashes = [], tv_errors = [ReadFailure]\<rparr>
      in case sl_fromHex lib signedTxCbor of
           None \<Rightarrow> failed None
         | Some txBytes \<Rightarrow> (case computeBodyHash lib txBytes of
             None \<Rightarrow> failed None
           | Some h \<Rightarrow> (case (sl_fromHex lib h, readVkeyWitnesses lib txBytes) of
               (Some body, Some (ws, malformed)) \<Rightarrow>
                 (let errs = witnessErrors lib body ws malformed
                  in \<lparr>tv_valid = (errs = []), tv_txBodyHash = Some h,
                      tv_signerKeyHashes = map (signerKeyHash lib) (filter (\<lambda>w. signatureValid lib w body) ws), tv_errors = errs\<rparr>)
             | _ \<Rightarrow> failed (Some h))))"

section \<open>Verification against a signing request\<close>

record VerificationOptions =
  vo_expectedTxBodyHash :: "string option"
  vo_requireSignature :: "bool option"
  vo_requiredSigners :: "string list option"

datatype verification_error =
    BodyHashMismatch string | NoSignatures | MissingSigners "string list" | InvalidSignature nat
  | VerificationFailed | RequestExpired

record SignatureVerificationResult =
  sv_isValid :: bool
  sv_txBodyHash :: string
  sv_witnessCount :: nat
  sv_signerKeyHashes :: "string list"
  sv_warnings :: "verification_error list"
  sv_errorMessage :: "verification_error option"

definition emptyResult :: SignatureVerificationResult where
  "emptyResult = \<lparr>sv_isValid = False, sv_txBodyHash = [], sv_witnessCount = 0, sv_signerKeyHashes = [],
     sv_warnings = [], sv_errorMessage = None\<rparr>"

definition missingSigners :: "string list \<Rightarrow> string list \<Rightarrow> string list" where
  "missingSigners required hashes =
     filter (\<lambda>r. \<not> list_ex (\<lambda>s. toLowerCase s = toLowerCase r) hashes) required"

definition checkSignatures :: "signing_lib \<Rightarrow> string \<Rightarrow> VkeyWitness list \<Rightarrow> SignatureVerificationResult \<Rightarrow> SignatureVerificationResult" where
  "checkSignatures lib computedHash ws r =
     (if ws = [] then r\<lparr>sv_isValid := True\<rparr>
      else case sl_fromHex lib computedHash of
             None \<Rightarrow> r\<lparr>sv_errorMessage := Some VerificationFailed\<rparr>
           | Some body \<Rightarrow> (case find (\<lambda>w. \<not> signatureValid lib w body) ws of
               Some w \<Rightarrow> r\<lparr>sv_errorMessage := Some (InvalidSignature (vw_index w))\<rparr>
             | None \<Rightarrow> r\<lparr>sv_isValid := True\<rparr>))"

definition verify :: "signing_lib \<Rightarrow> string \<Rightarrow> VerificationOptions \<Rightarrow> SignatureVerificationResult" where
  "verify lib signedTxCbor options =
     (case sl_fromHex lib signedTxCbor of
        None \<Rightarrow> emptyResult\<lparr>sv_errorMessage := Some VerificationFailed\<rparr>
      | Some txBytes \<Rightarrow> (case computeBodyHash lib txBytes of
          None \<Rightarrow> emptyResult\<lparr>sv_errorMessage := Some VerificationFailed\<rparr>
        | Some computedHash \<Rightarrow>
            (let r1 = emptyResult\<lparr>sv_txBodyHash := computedHash\<rparr>
             in if truthy (vo_expectedTxBodyHash options)
                   \<and> toLowerCase computedHash \<noteq> toLowerCase (the (vo_expectedTxBodyHash options))
                then r1\<lparr>sv_errorMessage := Some (BodyHashMismatch computedHash)\<rparr>
                else case extractVkeyWitnesses lib txBytes of
                       None \<Rightarrow> r1\<lparr>sv_errorMessage := Some VerificationFailed\<rparr>
                     | Some ws \<Rightarrow>
                         (let hashes = map (signerKeyHash lib) ws;
                              r2 = r1\<lparr>sv_witnessCount := length ws, sv_signerKeyHashes := hashes\<rparr>;
                              missing = missingSigners (nullish (vo_requiredSigners options) []) hashes
                          in if vo_requireSignature options \<noteq> Some False \<and> length ws = 0
                             then r2\<lparr>sv_errorMessage := Some NoSignatures\<rparr>
                             else if missing \<noteq> []
                             then r2\<lparr>sv_errorMessage := Some (MissingSigners missing), sv_warnings := [MissingSigners missing]\<rparr>
                             else checkSignatures lib computedHash ws r2))))"

definition verifyOrThrow_verifier :: "signing_lib \<Rightarrow> string \<Rightarrow> VerificationOptions \<Rightarrow> backend_error + SignatureVerificationResult" where
  "verifyOrThrow_verifier lib signedTxCbor options =
     (let r = verify lib signedTxCbor options in if sv_isValid r then Inr r else Inl invalid)"

definition extractTxBodyHash :: "signing_lib \<Rightarrow> string \<Rightarrow> backend_error + string" where
  "extractTxBodyHash lib txCbor =
     (case Option.bind (sl_fromHex lib txCbor) (computeBodyHash lib) of
        Some h \<Rightarrow> Inr h | None \<Rightarrow> Inl (BackendError BackendErrorC 400 INVALID_INPUT None []))"

definition getWitnessCount :: "signing_lib \<Rightarrow> string \<Rightarrow> nat" where
  "getWitnessCount lib txCbor = (case Option.bind (sl_fromHex lib txCbor) (extractVkeyWitnesses lib) of Some ws \<Rightarrow> length ws | None \<Rightarrow> 0)"

definition isSigned :: "signing_lib \<Rightarrow> string \<Rightarrow> bool" where
  "isSigned lib txCbor = (case Option.bind (sl_fromHex lib txCbor) (extractVkeyWitnesses lib) of Some ws \<Rightarrow> length ws > 0 | None \<Rightarrow> False)"

text \<open>
  The module of \<open>external-signer.ts\<close>: \<open>expired\<close> is whether an \<open>expiresAt\<close> was passed and lies in the past
  (no caller in the program passes one).
\<close>

definition verifySignedTransaction ::
  "signing_lib \<Rightarrow> bool \<Rightarrow> string \<Rightarrow> string \<Rightarrow> string list option \<Rightarrow> SignatureVerificationResult" where
  "verifySignedTransaction lib expired signedTxCbor expectedTxBodyHash requiredSigners =
     (if expired then emptyResult\<lparr>sv_errorMessage := Some RequestExpired\<rparr>
      else verify lib signedTxCbor
             \<lparr>vo_expectedTxBodyHash = Some expectedTxBodyHash, vo_requireSignature = Some True, vo_requiredSigners = requiredSigners\<rparr>)"

definition verifyOrThrow ::
  "signing_lib \<Rightarrow> string \<Rightarrow> string \<Rightarrow> string list option \<Rightarrow> backend_error + SignatureVerificationResult" where
  "verifyOrThrow lib signedTxCbor expectedTxBodyHash requiredSigners =
     (let r = verifySignedTransaction lib False signedTxCbor expectedTxBodyHash requiredSigners
      in if sv_isValid r then Inr r else Inl invalid)"

text \<open>
  The keys that must sign: \<open>parsedSigners\<close> are the \<open>required_signers\<close> of the body (\<open>None\<close> when the parser
  throws), \<open>sender\<close> the sender address of the request's build.
\<close>

definition resolveRequiredSigners :: "bech32_decode \<Rightarrow> string list option \<Rightarrow> string option \<Rightarrow> string list option" where
  "resolveRequiredSigners bdec parsedSigners sender =
     (let fromBody = map toLowerCase (nullish parsedSigners []);
          fromSender = (if truthy sender
                        then (case extractPaymentCredential bdec (the sender) of
                                Some (h, False) \<Rightarrow> [toLowerCase h] | _ \<Rightarrow> [])
                        else []);
          signers = jset (fromBody @ fromSender)
      in if signers \<noteq> [] then Some signers else None)"

section \<open>Adding a wallet's witnesses\<close>

definition isSignatureKey :: "cbor \<Rightarrow> bool" where
  "isSignatureKey k \<longleftrightarrow> isUInt 0 k \<or> isUInt 2 k"

definition signatureItems :: "cbor \<Rightarrow> cbor list option" where
  "signatureItems v =
     (case v of CborArray _ items _ \<Rightarrow> Some items | CborTag _ _ (CborArray _ items _) \<Rightarrow> Some items | _ \<Rightarrow> None)"

text \<open>The unsigned transaction with the signature entries of its witness set replaced by the wallet's.\<close>

definition mergedTransaction :: "cbor \<Rightarrow> cbor \<Rightarrow> cbor option" where
  "mergedTransaction tx walletWs =
     (case (tx, walletWs) of
        (CborArray _ (body # CborMap _ orig indef # rest) i, CborMap _ wallet _) \<Rightarrow>
          (let sigs = filter (\<lambda>(k, _). isSignatureKey k) wallet
           in if list_ex (\<lambda>(_, v). signatureItems v = None) sigs
                 \<or> sum_list (map (\<lambda>(_, v). length (the (signatureItems v))) sigs) = 0
              then None
              else Some (CborArray None (body # CborMap None (filter (\<lambda>(k, _). \<not> isSignatureKey k) orig @ sigs) indef # rest) i))
      | _ \<Rightarrow> None)"

definition combineTransactionWithWitnesses :: "signing_lib \<Rightarrow> string \<Rightarrow> string \<Rightarrow> backend_error + string" where
  "combineTransactionWithWitnesses lib unsignedTxCbor witnessSetCbor =
     (case (Option.bind (sl_fromHex lib unsignedTxCbor) (sl_parse lib), Option.bind (sl_fromHex lib witnessSetCbor) (sl_parse lib)) of
        (Some tx, Some ws) \<Rightarrow>
          (case mergedTransaction tx ws of
             Some merged \<Rightarrow> Inr (sl_toHex lib (sl_encode lib merged)) | None \<Rightarrow> Inl invalid)
      | _ \<Rightarrow> Inl invalid)"

text \<open>A map (major type 5) is a witness set; only the first byte is read.\<close>

definition isWitnessSetCbor :: "string \<Rightarrow> bool" where
  "isWitnessSetCbor cborHex =
     (case hex_bytes (take 2 cborHex) of [b] \<Rightarrow> drop_bit 5 b = 5 | _ \<Rightarrow> False)"

definition toSignedTransaction :: "signing_lib \<Rightarrow> string option \<Rightarrow> string \<Rightarrow> backend_error + string" where
  "toSignedTransaction lib unsignedTxCbor signedTxOrWitnessSet =
     (if \<not> isWitnessSetCbor signedTxOrWitnessSet then Inr signedTxOrWitnessSet
      else if \<not> truthy unsignedTxCbor then Inl invalid
      else combineTransactionWithWitnesses lib (the unsignedTxCbor) signedTxOrWitnessSet)"

section \<open>Data signatures\<close>

definition hasIntLabel :: "int \<Rightarrow> cbor \<Rightarrow> bool" where
  "hasIntLabel l k = (case k of CborUInt _ n \<Rightarrow> int n = l | CborNegInt _ n \<Rightarrow> n = l | _ \<Rightarrow> False)"

definition findIntLabel :: "(cbor \<times> cbor) list \<Rightarrow> int \<Rightarrow> cbor option" where
  "findIntLabel m l = map_option snd (find (\<lambda>(k, _). hasIntLabel l k) m)"

record CoseSign1 =
  cs_protectedBytes :: "byte list"
  cs_payload :: "byte list"
  cs_signature :: "byte list"

text \<open>Four byte strings in an array, bare or under tag 18; the second (unprotected) entry may be anything.\<close>

definition parseCoseSign1 :: "signing_lib \<Rightarrow> string \<Rightarrow> CoseSign1 option" where
  "parseCoseSign1 lib h =
     Option.bind (Option.bind (sl_fromHex lib h) (sl_parse lib)) (\<lambda>obj.
       case (case obj of CborTag _ t d \<Rightarrow> if t = 18 then d else obj | _ \<Rightarrow> obj) of
         CborArray _ [CborBytes _ prot, _, CborBytes _ payload, CborBytes _ signature] _ \<Rightarrow>
           Some \<lparr>cs_protectedBytes = prot, cs_payload = payload, cs_signature = signature\<rparr>
       | _ \<Rightarrow> None)"

definition parseCoseKey :: "signing_lib \<Rightarrow> string \<Rightarrow> byte list option" where
  "parseCoseKey lib h =
     Option.bind (Option.bind (sl_fromHex lib h) (sl_parse lib)) (\<lambda>obj.
       case obj of
         CborMap _ m _ \<Rightarrow> (case findIntLabel m (-2) of
             Some (CborBytes _ x) \<Rightarrow> if length x = 32 then Some x else None | _ \<Rightarrow> None)
       | _ \<Rightarrow> None)"

definition buildSigStructure :: "signing_lib \<Rightarrow> byte list \<Rightarrow> byte list \<Rightarrow> byte list" where
  "buildSigStructure lib prot payload =
     sl_encode lib (CborArray None [CborText None ''Signature1'', CborBytes None prot, CborBytes None [], CborBytes None payload] False)"

datatype cose_reason = NoReason | NoCredential | ScriptCredential | SignerMismatch | PayloadMismatch | BadSignature | CoseFailure

record CoseVerifyResult =
  cv_valid :: bool
  cv_reason :: cose_reason
  cv_signedPayload :: string
  cv_signerVkh :: string

record CoseVerifyInput =
  ci_address :: string
  ci_coseSignature :: string
  ci_coseKey :: string
  ci_expectedPayload :: "string option"

definition verifyDataSignature :: "signing_lib \<Rightarrow> CoseVerifyInput \<Rightarrow> CoseVerifyResult" where
  "verifyDataSignature lib input =
     (case (parseCoseSign1 lib (ci_coseSignature input), parseCoseKey lib (ci_coseKey input)) of
        (Some cose, Some pubKey) \<Rightarrow>
          (let payload = sl_utf8 lib (cs_payload cose);
               vkh = sl_toHex lib (sl_blake2b_224 lib pubKey);
               res = \<lambda>ok reason. \<lparr>cv_valid = ok, cv_reason = reason, cv_signedPayload = payload, cv_signerVkh = vkh\<rparr>
           in case extractPaymentCredential (sl_bech32 lib) (ci_address input) of
                None \<Rightarrow> res False NoCredential
              | Some (h, isScript) \<Rightarrow>
                  if isScript then res False ScriptCredential
                  else if toLowerCase h \<noteq> toLowerCase vkh then res False SignerMismatch
                  else if ci_expectedPayload input \<noteq> None \<and> Some payload \<noteq> ci_expectedPayload input then res False PayloadMismatch
                  else (case sl_verifyEd25519 lib (cs_signature cose) (buildSigStructure lib (cs_protectedBytes cose) (cs_payload cose)) pubKey of
                          None \<Rightarrow> res False CoseFailure
                        | Some False \<Rightarrow> res False BadSignature
                        | Some True \<Rightarrow> res True NoReason))
      | _ \<Rightarrow> \<lparr>cv_valid = False, cv_reason = CoseFailure, cv_signedPayload = [], cv_signerVkh = []\<rparr>)"

section \<open>What verification answers\<close>

lemma find_None_list_all: "find P xs = None \<longleftrightarrow> list_all (\<lambda>x. \<not> P x) xs"
  by (auto simp: find_None_iff list_all_iff)

lemma checkSignatures_valid:
  "\<not> sv_isValid r \<Longrightarrow> sv_isValid (checkSignatures lib h ws r)
     \<longleftrightarrow> ws = [] \<or> (\<exists>body. sl_fromHex lib h = Some body \<and> list_all (\<lambda>w. signatureValid lib w body) ws)"
  (is "_ \<Longrightarrow> ?l \<longleftrightarrow> ?r")
proof (cases "sl_fromHex lib h")
  case (Some body)
  assume "\<not> sv_isValid r"
  then show ?thesis
    using find_None_list_all [of "\<lambda>w. \<not> signatureValid lib w body" ws]
    by (cases "find (\<lambda>w. \<not> signatureValid lib w body) ws") (simp_all add: checkSignatures_def Some)
qed (simp add: checkSignatures_def)

lemma missingSigners_none:
  "missingSigners required hashes = [] \<longleftrightarrow> list_all (\<lambda>r. toLowerCase r \<in> toLowerCase ` set hashes) required"
  by (auto simp: missingSigners_def filter_empty_conv list_all_iff list_ex_iff image_iff) (metis)+

lemma verify_valid:
  "sv_isValid (verify lib c opts) \<longleftrightarrow>
     (\<exists>txBytes h ws. sl_fromHex lib c = Some txBytes \<and> computeBodyHash lib txBytes = Some h
        \<and> extractVkeyWitnesses lib txBytes = Some ws
        \<and> (truthy (vo_expectedTxBodyHash opts) \<longrightarrow> toLowerCase h = toLowerCase (the (vo_expectedTxBodyHash opts)))
        \<and> (vo_requireSignature opts \<noteq> Some False \<longrightarrow> ws \<noteq> [])
        \<and> missingSigners (nullish (vo_requiredSigners opts) []) (map (signerKeyHash lib) ws) = []
        \<and> (ws = [] \<or> (\<exists>body. sl_fromHex lib h = Some body \<and> list_all (\<lambda>w. signatureValid lib w body) ws)))"
proof (cases "Option.bind (sl_fromHex lib c) (\<lambda>b. Option.bind (computeBodyHash lib b) (\<lambda>h. map_option (\<lambda>ws. (b, h, ws)) (extractVkeyWitnesses lib b)))")
  case None
  then show ?thesis by (auto simp: verify_def emptyResult_def Let_def split: option.splits)
next
  case (Some q)
  then obtain b h ws where q: "sl_fromHex lib c = Some b" "computeBodyHash lib b = Some h" "extractVkeyWitnesses lib b = Some ws"
    by (auto simp: bind_eq_Some_conv)
  show ?thesis
    by (simp add: verify_def q Let_def checkSignatures_valid emptyResult_def)
qed

section \<open>The codec\<close>

text \<open>The object without its slices: what is encoded.\<close>

primrec unref :: "cbor \<Rightarrow> cbor" where
  "unref (CborUInt _ n) = CborUInt None n"
| "unref (CborNegInt _ n) = CborNegInt None n"
| "unref (CborBytes _ b) = CborBytes None b"
| "unref (CborText _ t) = CborText None t"
| "unref (CborArray _ xs i) = CborArray None (map unref xs) i"
| "unref (CborMap _ m i) = CborMap None (map (map_prod unref unref) m) i"
| "unref (CborTag _ t d) = CborTag None t (unref d)"
| "unref (CborSimple _ n) = CborSimple None n"

definition array_items :: "cbor \<Rightarrow> cbor list" where
  "array_items x = (case x of CborArray _ xs _ \<Rightarrow> xs | _ \<Rightarrow> [])"

text \<open>
  Parsing an encoded object gives it back, and an entry that was parsed before, whose slice the encoder
  copies, has that slice again.
\<close>

definition rereads :: "signing_lib \<Rightarrow> cbor \<Rightarrow> bool" where
  "rereads lib x \<longleftrightarrow>
     (case sl_parse lib (sl_encode lib x) of
        Some y \<Rightarrow> unref y = unref x
          \<and> list_all2 (\<lambda>a b. subCborRef a = None \<or> subCborRef b = subCborRef a) (array_items x) (array_items y)
      | None \<Rightarrow> False)"

lemma vkeyPair_unref: "vkeyPair (unref p) = vkeyPair p"
proof -
  have "(unref a = CborBytes r b) \<longleftrightarrow> (r = None \<and> (\<exists>r'. a = CborBytes r' b))" for a r b by (cases a) auto
  note u = this
  show ?thesis
  proof (cases p)
    case (CborArray r xs i)
    show ?thesis
    proof (cases "\<exists>a b. xs = [a, b]")
      case True
      then obtain a b where "xs = [a, b]" by blast
      then show ?thesis unfolding CborArray by (cases a; cases b) (simp_all add: vkeyPair_def)
    next
      case False
      then show ?thesis unfolding CborArray by (auto simp: vkeyPair_def split: list.splits cbor.splits)
    qed
  qed (simp_all add: vkeyPair_def)
qed

lemma isUInt_unref [simp]: "isUInt n (unref k) = isUInt n k"
  by (cases k) (simp_all add: isUInt_def)

lemma untag_unref: "untag (unref v) = unref (untag v)"
  by (cases v) (simp_all add: untag_def)

lemma find_map_prod: "find (\<lambda>(k, _). isUInt n k) (map (map_prod unref unref) m)
    = map_option (map_prod unref unref) (find (\<lambda>(k, _). isUInt n k) m)"
  by (induction m) (auto split: prod.splits)

lemma vkeyItems_array: "vkeyItems (CborArray r (b # CborMap r' ws i # rest) j) =
    (case find (\<lambda>(k, _). isUInt 0 k) ws of Some (_, v) \<Rightarrow> array_items (untag v) | None \<Rightarrow> [])"
  by (auto simp: vkeyItems_def array_items_def split: option.splits prod.splits)

lemma array_items_unref: "array_items (unref x) = map unref (array_items x)"
  by (cases x) (simp_all add: array_items_def)

lemma vkeyItems_unref: "vkeyItems (unref tx) = map unref (vkeyItems tx)"
proof (cases tx)
  case (CborArray r xs i)
  show ?thesis
  proof (cases "\<exists>b r' ws j rest. xs = b # CborMap r' ws j # rest")
    case True
    then obtain b r' ws j rest where xs: "xs = b # CborMap r' ws j # rest" by blast
    show ?thesis unfolding CborArray xs
      by (simp add: vkeyItems_array find_map_prod untag_unref array_items_unref split: option.splits prod.splits)
  next
    case False
    have "vkeyItems (CborArray r xs i) = []" for r i
      using False by (auto simp: vkeyItems_def split: list.splits cbor.splits)
    moreover have "vkeyItems (CborArray None (map unref xs) i) = []"
    proof (cases xs)
      case (Cons a ys)
      then show ?thesis
      proof (cases ys)
        case (Cons c zs)
        with \<open>xs = a # ys\<close> False show ?thesis by (cases c) (auto simp: vkeyItems_def)
      qed (simp add: vkeyItems_def)
    qed (simp add: vkeyItems_def)
    ultimately show ?thesis unfolding CborArray by simp
  qed
qed (simp_all add: vkeyItems_def)

lemma witnessesOf_pairs: "map vkeyPair xs = map vkeyPair ys \<Longrightarrow> witnessesOf xs = witnessesOf ys"
proof -
  have "witnessesOf zs = List.map_filter
     (\<lambda>(i, q). map_option (\<lambda>(vk, sg). \<lparr>vw_index = i, vw_pubKey = vk, vw_signature = sg\<rparr>) q) (enumerate 0 (map vkeyPair zs))" for zs
    unfolding witnessesOf_def enumerate_map_upt List.map_filter_def
    by (simp add: enumerate_eq_zip zip_map2 filter_map comp_def split_def)
  then show "map vkeyPair xs = map vkeyPair ys \<Longrightarrow> witnessesOf xs = witnessesOf ys" by simp
qed

lemma witnesses_unref: "unref y = unref x \<Longrightarrow> witnessesOf (vkeyItems y) = witnessesOf (vkeyItems x)"
proof (rule witnessesOf_pairs)
  assume "unref y = unref x"
  then have "map vkeyPair (vkeyItems (unref y)) = map vkeyPair (vkeyItems (unref x))" by simp
  then show "map vkeyPair (vkeyItems y) = map vkeyPair (vkeyItems x)"
    by (simp add: vkeyItems_unref vkeyPair_unref comp_def)
qed

section \<open>Merging a witness set\<close>

text \<open>The witnesses of a wallet's witness set.\<close>

definition walletWitnesses :: "cbor \<Rightarrow> VkeyWitness list" where
  "walletWitnesses ws =
     (case ws of
        CborMap _ m _ \<Rightarrow> (case find (\<lambda>(k, _). isUInt 0 k) m of
            Some (_, v) \<Rightarrow> witnessesOf (array_items (untag v)) | None \<Rightarrow> [])
      | _ \<Rightarrow> [])"

lemma find_signatures:
  "find (\<lambda>(k, _). isUInt 0 k) (filter (\<lambda>(k, _). \<not> isSignatureKey k) orig @ filter (\<lambda>(k, _). isSignatureKey k) m)
     = find (\<lambda>(k, _). isUInt 0 k) m"
proof -
  have "find (\<lambda>(k, _). isUInt 0 k) (filter (\<lambda>(k, _). \<not> isSignatureKey k) orig @ ys) = find (\<lambda>(k, _). isUInt 0 k) ys" for ys
    by (induction orig) (auto simp: isSignatureKey_def)
  moreover have "find (\<lambda>(k, _). isUInt 0 k) (filter (\<lambda>(k, _). isSignatureKey k) m) = find (\<lambda>(k, _). isUInt 0 k) m"
    by (induction m) (auto simp: isSignatureKey_def)
  ultimately show ?thesis by simp
qed

lemma merged_shape:
  assumes "mergedTransaction tx ws = Some merged"
  obtains r body r' orig indef rest i r2 m i2 where
    "tx = CborArray r (body # CborMap r' orig indef # rest) i" "ws = CborMap r2 m i2"
    "merged = CborArray None (body # CborMap None (filter (\<lambda>(k, _). \<not> isSignatureKey k) orig @ filter (\<lambda>(k, _). isSignatureKey k) m) indef # rest) i"
  using assms unfolding mergedTransaction_def by (auto simp: Let_def split: cbor.splits list.splits if_splits)

lemma merged_witnesses:
  assumes "mergedTransaction tx ws = Some merged"
  shows "witnessesOf (vkeyItems merged) = walletWitnesses ws"
proof -
  obtain r body r' orig indef rest i r2 m i2 where
    "ws = CborMap r2 m i2"
    "merged = CborArray None (body # CborMap None (filter (\<lambda>(k, _). \<not> isSignatureKey k) orig @ filter (\<lambda>(k, _). isSignatureKey k) m) indef # rest) i"
    by (rule merged_shape [OF assms])
  then show ?thesis
    by (simp add: vkeyItems_array find_signatures walletWitnesses_def witnessesOf_def split: option.splits prod.splits)
qed

lemma rereads_merged:
  assumes "rereads lib merged" "mergedTransaction tx ws = Some merged" "sl_parse lib b = Some tx" "computeBodyHash lib b = Some h"
  shows "computeBodyHash lib (sl_encode lib merged) = Some h"
    and "extractVkeyWitnesses lib (sl_encode lib merged) = Some (walletWitnesses ws)"
proof -
  obtain r body r' orig indef rest i r2 m i2 where
    t: "tx = CborArray r (body # CborMap r' orig indef # rest) i" and
    s: "merged = CborArray None (body # CborMap None (filter (\<lambda>(k, _). \<not> isSignatureKey k) orig @ filter (\<lambda>(k, _). isSignatureKey k) m) indef # rest) i"
    by (rule merged_shape [OF assms(2)])
  obtain y where y: "sl_parse lib (sl_encode lib merged) = Some y" "unref y = unref merged"
    "list_all2 (\<lambda>a b. subCborRef a = None \<or> subCborRef b = subCborRef a) (array_items merged) (array_items y)"
    using assms(1) unfolding rereads_def by (auto split: option.splits)
  obtain ref where ref: "subCborRef body = Some ref" "h = sl_toHex lib (sl_blake2b_256 lib ref)"
    using assms(3,4) unfolding t by (auto simp: computeBodyHash_def)
  obtain r3 ys j where ya: "y = CborArray r3 ys j"
    using y(2) unfolding s by (cases y) auto
  have "list_all2 (\<lambda>a b. subCborRef a = None \<or> subCborRef b = subCborRef a) (body # tl (array_items merged)) ys"
    using y(3) unfolding s ya by (simp add: array_items_def)
  then obtain b' ys' where "ys = b' # ys'" "subCborRef b' = Some ref"
    using ref(1) by (cases ys) auto
  then show "computeBodyHash lib (sl_encode lib merged) = Some h"
    unfolding computeBodyHash_def y(1) ya ref(2) by simp
  show "extractVkeyWitnesses lib (sl_encode lib merged) = Some (walletWitnesses ws)"
    using witnesses_unref [OF y(2)] merged_witnesses [OF assms(2)]
    by (simp add: extractVkeyWitnesses_def readVkeyWitnesses_def y(1))
qed

section \<open>Properties\<close>

text \<open>
  C4. A signed transaction passes verification against a request exactly when its bytes decode to a
  transaction whose body hashes to the request's hash, it carries at least one witness, every witness
  verifies over that hash, and every required key belongs to one of those witnesses.
\<close>

theorem verified_when_signed:
  "sv_isValid (verifySignedTransaction lib False c expected required) \<longleftrightarrow>
     (\<exists>txBytes h ws body. sl_fromHex lib c = Some txBytes \<and> computeBodyHash lib txBytes = Some h
        \<and> (expected = [] \<or> toLowerCase h = toLowerCase expected) \<and> sl_fromHex lib h = Some body
        \<and> extractVkeyWitnesses lib txBytes = Some ws \<and> ws \<noteq> [] \<and> list_all (\<lambda>w. signatureValid lib w body) ws
        \<and> list_all (\<lambda>r. list_ex (\<lambda>w. toLowerCase (signerKeyHash lib w) = toLowerCase r) ws) (nullish required []))"
proof -
  have m: "missingSigners rs (map (signerKeyHash lib) ws) = []
      \<longleftrightarrow> list_all (\<lambda>r. list_ex (\<lambda>w. toLowerCase (signerKeyHash lib w) = toLowerCase r) ws) rs" for rs ws
    by (auto simp: missingSigners_def filter_empty_conv list_all_iff list_ex_iff)
  have t: "truthy (Some e) \<longleftrightarrow> e \<noteq> []" for e by (cases e) (simp_all add: truthy_def)
  show ?thesis
    unfolding verifySignedTransaction_def if_False verify_valid by (simp add: m t) blast
qed


text \<open>
  A codec that knows three byte strings: an unsigned transaction with body \<open>[11]\<close>, a witness set with one
  signature over it, and the two merged. A hash is its argument, a signature the message and the key.
\<close>

definition demo_tx :: cbor where
  "demo_tx = CborArray (Some [10, 11, 12]) [CborMap (Some [11]) [] False, CborMap (Some [12]) [(CborUInt (Some [5]) 5, CborArray (Some [6]) [] False)] False] False"

definition demo_witness_set :: cbor where
  "demo_witness_set = CborMap (Some [161, 5]) [(CborUInt (Some [0]) 0,
     CborTag (Some [1]) 258 (CborArray (Some [1]) [CborArray (Some [1]) [CborBytes (Some [1]) [7], CborBytes (Some [1]) [11, 7]] False] False))] False"

definition demo_merged :: cbor where
  "demo_merged = the (mergedTransaction demo_tx demo_witness_set)"

definition demo_signing_lib :: signing_lib where
  "demo_signing_lib = \<lparr>sl_fromHex = (\<lambda>s. Some (bytes_of_hex s)), sl_toHex = hex_of,
     sl_parse = mget [([10, 11, 12], demo_tx), ([161, 5], demo_witness_set), ([9], demo_merged)], sl_encode = (\<lambda>_. [9]),
     sl_blake2b_256 = (\<lambda>b. b), sl_blake2b_224 = (\<lambda>b. b), sl_verifyEd25519 = (\<lambda>sg m k. Some (sg = m @ k)),
     sl_utf8 = map (\<lambda>b. char_of (unat b)), sl_bech32 = (\<lambda>_ _. None)\<rparr>"


text \<open>
  A data signature is accepted exactly when the address has a key hash as payment credential, the
  given key hashes to it, the payload is the expected one where one is expected, and the signature
  verifies with that key over the structure rebuilt from the received header and payload.
\<close>

theorem data_signature_exact:
  "cv_valid (verifyDataSignature lib input) \<longleftrightarrow>
     (\<exists>cose pubKey h. parseCoseSign1 lib (ci_coseSignature input) = Some cose \<and> parseCoseKey lib (ci_coseKey input) = Some pubKey
        \<and> length pubKey = 32
        \<and> extractPaymentCredential (sl_bech32 lib) (ci_address input) = Some (h, False)
        \<and> toLowerCase h = toLowerCase (sl_toHex lib (sl_blake2b_224 lib pubKey))
        \<and> ci_expectedPayload input \<in> {None, Some (sl_utf8 lib (cs_payload cose))}
        \<and> sl_verifyEd25519 lib (cs_signature cose) (buildSigStructure lib (cs_protectedBytes cose) (cs_payload cose)) pubKey = Some True)"
proof (cases "parseCoseSign1 lib (ci_coseSignature input)"; cases "parseCoseKey lib (ci_coseKey input)")
  fix cose pubKey
  assume c: "parseCoseSign1 lib (ci_coseSignature input) = Some cose" and k: "parseCoseKey lib (ci_coseKey input) = Some pubKey"
  have "length pubKey = 32"
    using k unfolding parseCoseKey_def bind_eq_Some_conv by (elim exE conjE) (simp split: cbor.splits option.splits if_splits)
  then show ?thesis
    by (cases "extractPaymentCredential (sl_bech32 lib) (ci_address input)")
       (auto simp: verifyDataSignature_def c k Let_def split: option.splits bool.splits if_splits)
qed (simp_all add: verifyDataSignature_def)

end
