(* ===== verification/SigningFlow.thy ===== *)
theory SigningFlow imports Signatures begin

text \<open>
  The life of a signing request: the handlers of \<open>srv/cardano-sign-service.ts\<close> that create, expire, verify
  and claim requests, the statements of \<open>srv/blockchain/cardano-indexer.ts\<close> they run, and the submission in
  three committed phases of \<open>srv/blockchain/signing/submission-finalizer.ts\<close> with deferred submits and the
  re-drive after a restart. A handler whose transaction rolls back is an \<open>Inl\<close>; identifiers and times are
  arguments. Field validation (theory \<open>Validators\<close>), links from addresses to requests, cached address rows,
  texts for people and logging are left out.
\<close>

section \<open>Tables\<close>

datatype SigningStatus = PENDING | SIGNED | VERIFIED | SUBMITTING | SUBMITTED | FAILED | EXPIRED

record SigningRequest =
  sr_id :: string
  sr_build :: "string option"
  sr_txBodyHash :: string
  sr_unsignedTxCbor :: string
  sr_status :: SigningStatus
  sr_createdAt :: time
  sr_expiresAt :: time
  sr_signedTxCbor :: "string option"
  sr_signerType :: "string option"
  sr_signerInfo :: "string option"
  sr_signedAt :: "time option"
  sr_submittedAt :: "time option"
  sr_hsmKeyId :: "string option"
  sr_submission :: "string option"
  sr_errorMessage :: "verification_error option"

record SignatureVerification =
  sf_signingRequest :: string
  sf_signedTxCbor :: string
  sf_isValid :: bool
  sf_txBodyHash :: string
  sf_witnessCount :: nat
  sf_errorMessage :: "verification_error option"

datatype SubmissionStatus = SubmissionPending | SubmissionSubmitted | SubmissionFailed | SubmissionConfirmed

record TransactionSubmission =
  ts_id :: string
  ts_build :: "string option"
  ts_txHash :: string
  ts_signedTxCbor :: string
  ts_status :: SubmissionStatus

record TransactionBuild =
  bd_id :: string
  bd_senderAddress :: string
  bd_unsignedTxCbor :: string
  bd_txBodyHash :: string
  bd_wasSubmitted :: bool

record signing_db =
  db_requests :: "SigningRequest list"
  db_verifications :: "SignatureVerification list"
  db_submissions :: "TransactionSubmission list"
  db_builds :: "TransactionBuild list"

definition rejectInvalid :: backend_error where
  "rejectInvalid = BackendError BackendErrorC 400 INVALID_INPUT None []"

text \<open>\<open>se_requiredSigners\<close>: the key hashes \<open>parseTransaction\<close> finds in an unsigned transaction.\<close>

record signing_env =
  se_lib :: signing_lib
  se_requiredSigners :: "string \<Rightarrow> string list option"

section \<open>Creating and expiring\<close>

definition DEFAULT_SIGNING_TTL_MS :: time where "DEFAULT_SIGNING_TTL_MS = 30 * 60 * 1000"

definition verifyBuildOwnership :: "signing_db \<Rightarrow> string \<Rightarrow> string option \<Rightarrow> backend_error + TransactionBuild" where
  "verifyBuildOwnership db buildId address =
     (case find_row bd_id buildId (db_builds db) of
        None \<Rightarrow> Inl rejectInvalid
      | Some b \<Rightarrow> if truthy address \<and> Some (bd_senderAddress b) \<noteq> address then Inl rejectInvalid else Inr b)"

definition newSigningRequest :: "time \<Rightarrow> string \<Rightarrow> TransactionBuild \<Rightarrow> SigningRequest" where
  "newSigningRequest now uuid b =
     \<lparr>sr_id = uuid, sr_build = Some (bd_id b), sr_txBodyHash = bd_txBodyHash b, sr_unsignedTxCbor = bd_unsignedTxCbor b,
      sr_status = PENDING, sr_createdAt = now, sr_expiresAt = now + DEFAULT_SIGNING_TTL_MS, sr_signedTxCbor = None,
      sr_signerType = None, sr_signerInfo = None, sr_signedAt = None, sr_submittedAt = None, sr_hsmKeyId = None,
      sr_submission = None, sr_errorMessage = None\<rparr>"

definition persistSigningRequest :: "SigningRequest \<Rightarrow> signing_db \<Rightarrow> signing_db" where
  "persistSigningRequest r db = db\<lparr>db_requests := db_requests db @ [r]\<rparr>"

text \<open>\<open>seen\<close> is the table when the handler looked for a pending request of the build.\<close>

definition createSigningRequest ::
  "time \<Rightarrow> string \<Rightarrow> SigningRequest list \<Rightarrow> string \<Rightarrow> signing_db \<Rightarrow> backend_error + SigningRequest \<times> signing_db" where
  "createSigningRequest now uuid seen buildId db =
     (case find_row bd_id buildId (db_builds db) of
        None \<Rightarrow> Inl rejectInvalid
      | Some b \<Rightarrow> (case find (\<lambda>r. sr_build r = Some buildId \<and> sr_status r = PENDING) seen of
            Some r \<Rightarrow> Inr (r, db)
          | None \<Rightarrow> Inr (newSigningRequest now uuid b, persistSigningRequest (newSigningRequest now uuid b) db)))"

definition checkAndExpireSigningRequest :: "time \<Rightarrow> string \<Rightarrow> SigningRequest list \<Rightarrow> SigningRequest list" where
  "checkAndExpireSigningRequest now i =
     update_where (\<lambda>r. sr_id r = i \<and> sr_status r = PENDING \<and> sr_expiresAt r \<le> now) (\<lambda>r. r\<lparr>sr_status := EXPIRED\<rparr>)"

definition getSigningRequest :: "time \<Rightarrow> string \<Rightarrow> signing_db \<Rightarrow> backend_error + signing_db" where
  "getSigningRequest now i db =
     (case find_row sr_id i (db_requests db) of
        None \<Rightarrow> Inl rejectInvalid
      | Some r \<Rightarrow> Inr (if sr_status r = PENDING then db\<lparr>db_requests := checkAndExpireSigningRequest now i (db_requests db)\<rparr> else db))"

text \<open>Before a READ of the table, at most once a minute.\<close>

definition expireAll :: "time \<Rightarrow> SigningRequest list \<Rightarrow> SigningRequest list" where
  "expireAll now = update_where (\<lambda>r. sr_status r = PENDING \<and> sr_expiresAt r \<le> now) (\<lambda>r. r\<lparr>sr_status := EXPIRED\<rparr>)"

definition beforeRead :: "time \<Rightarrow> time \<Rightarrow> signing_db \<Rightarrow> time \<times> signing_db" where
  "beforeRead now lastExpiryCheck db =
     (if now - lastExpiryCheck < 60000 then (lastExpiryCheck, db)
      else (now, db\<lparr>db_requests := expireAll now (db_requests db)\<rparr>))"

section \<open>Verifying\<close>

definition signersFor :: "signing_env \<Rightarrow> signing_db \<Rightarrow> SigningRequest \<Rightarrow> string list option" where
  "signersFor env db r =
     resolveRequiredSigners (sl_bech32 (se_lib env)) (se_requiredSigners env (sr_unsignedTxCbor r))
       (if truthy (sr_build r) then map_option bd_senderAddress (find_row bd_id (the (sr_build r)) (db_builds db)) else None)"

definition ownershipCheck :: "signing_db \<Rightarrow> SigningRequest \<Rightarrow> string option \<Rightarrow> backend_error + unit" where
  "ownershipCheck db r address =
     (if truthy address \<and> truthy (sr_build r)
      then sbind (verifyBuildOwnership db (the (sr_build r)) address) (\<lambda>_. Inr ()) else Inr ())"

definition verification_row :: "string \<Rightarrow> string \<Rightarrow> bool \<Rightarrow> SignatureVerificationResult \<Rightarrow> SignatureVerification" where
  "verification_row i c ok result =
     \<lparr>sf_signingRequest = i, sf_signedTxCbor = c, sf_isValid = ok, sf_txBodyHash = sv_txBodyHash result,
      sf_witnessCount = sv_witnessCount result, sf_errorMessage = (if ok then None else sv_errorMessage result)\<rparr>"

definition persistSignatureVerification ::
  "time \<Rightarrow> string \<Rightarrow> string \<Rightarrow> SignatureVerificationResult \<Rightarrow> string option \<Rightarrow> string option \<Rightarrow> signing_db \<Rightarrow> signing_db" where
  "persistSignatureVerification now i c result signerType signerInfo db =
     (let ok = sv_isValid result in
      db\<lparr>db_verifications := db_verifications db @ [verification_row i c ok result],
         db_requests := update_where (\<lambda>r. sr_id r = i)
           (\<lambda>r. r\<lparr>sr_status := (if ok then VERIFIED else FAILED),
                  sr_signerType := Some (if truthy signerType then the signerType else ''custom''),
                  sr_signerInfo := (if truthy signerInfo then signerInfo else None),
                  sr_signedAt := (if ok then Some now else None),
                  sr_errorMessage := (if ok then None else sv_errorMessage result)\<rparr>) (db_requests db)\<rparr>)"

definition claimable :: "time \<Rightarrow> string \<Rightarrow> SigningStatus set \<Rightarrow> SigningRequest \<Rightarrow> bool" where
  "claimable now i ss r \<longleftrightarrow> sr_id r = i \<and> sr_status r \<in> ss \<and> now < sr_expiresAt r"

text \<open>
  \<open>VerifySignature\<close>: \<open>seen\<close> is the row as read before. Without a pending row that has not expired the request is
  rejected, which also takes back the update to \<open>expired\<close> the handler may have made just before.
\<close>

definition verifySignature ::
  "signing_env \<Rightarrow> time \<Rightarrow> SigningRequest \<Rightarrow> string \<Rightarrow> string option \<Rightarrow> string option \<Rightarrow> string option \<Rightarrow> signing_db
     \<Rightarrow> backend_error + SignatureVerificationResult \<times> signing_db" where
  "verifySignature env now seen input address signerType signerInfo db =
     sbind (ownershipCheck db seen address) (\<lambda>_.
       if \<not> list_ex (claimable now (sr_id seen) {PENDING}) (db_requests db) then Inl rejectInvalid
       else (let db1 = db\<lparr>db_requests := update_where (claimable now (sr_id seen) {PENDING}) (\<lambda>r. r\<lparr>sr_status := SIGNED\<rparr>) (db_requests db)\<rparr>
             in sbind (toSignedTransaction (se_lib env) (Some (sr_unsignedTxCbor seen)) input) (\<lambda>full.
                let result = verifySignedTransaction (se_lib env) False full (sr_txBodyHash seen) (signersFor env db seen)
                in Inr (result, persistSignatureVerification now (sr_id seen) full result signerType signerInfo db1))))"

section \<open>Claiming\<close>

record FinalizeParams =
  fp_signingRequestId :: string
  fp_buildId :: string
  fp_fullSignedTxCbor :: string
  fp_txHash :: string
  fp_verificationResult :: SignatureVerificationResult
  fp_signerType :: "string option"
  fp_signerInfo :: "string option"
  fp_hsmKeyId :: "string option"

definition claimUpdate :: "(string \<times> string option \<times> string option) option \<Rightarrow> SigningRequest \<Rightarrow> SigningRequest" where
  "claimUpdate deferred r =
     (case deferred of
        None \<Rightarrow> r\<lparr>sr_status := SUBMITTING\<rparr>
      | Some (c, st, si) \<Rightarrow> r\<lparr>sr_status := SUBMITTING, sr_signedTxCbor := Some c, sr_signerType := st, sr_signerInfo := si\<rparr>)"

text \<open>
  \<open>SubmitVerifiedTransaction\<close>, phase 1: check the row as read (\<open>seen\<close>), verify, and claim it with one
  conditional update, the last statement. With \<open>deferSubmit\<close> the signed bytes are stored with the claim.
\<close>

definition submitPhase1 ::
  "signing_env \<Rightarrow> time \<Rightarrow> SigningRequest \<Rightarrow> string \<Rightarrow> bool \<Rightarrow> string option \<Rightarrow> string option \<Rightarrow> string option \<Rightarrow> signing_db
     \<Rightarrow> backend_error + FinalizeParams \<times> signing_db" where
  "submitPhase1 env now seen input deferSubmit address signerType signerInfo db =
     sbind (throwIf (sr_expiresAt seen \<le> now) rejectInvalid) (\<lambda>_.
     sbind (throwIf (sr_status seen \<notin> {PENDING, VERIFIED}) rejectInvalid) (\<lambda>_.
     sbind (ownershipCheck db seen address) (\<lambda>_.
     sbind (throwIf (\<not> truthy (sr_build seen)) rejectInvalid) (\<lambda>_.
     sbind (toSignedTransaction (se_lib env) (Some (sr_unsignedTxCbor seen)) input) (\<lambda>full.
     sbind (verifyOrThrow (se_lib env) full (sr_txBodyHash seen) (signersFor env db seen)) (\<lambda>result.
     let P = claimable now (sr_id seen) {PENDING, VERIFIED}
     in if \<not> list_ex P (db_requests db) then Inl rejectInvalid
        else Inr (\<lparr>fp_signingRequestId = sr_id seen, fp_buildId = the (sr_build seen), fp_fullSignedTxCbor = full,
                   fp_txHash = sr_txBodyHash seen, fp_verificationResult = result,
                   fp_signerType = signerType, fp_signerInfo = signerInfo, fp_hsmKeyId = None\<rparr>,
                  db\<lparr>db_requests := update_where P (claimUpdate (if deferSubmit then Some (full, signerType, signerInfo) else None)) (db_requests db)\<rparr>)))))))"

section \<open>Signing with the HSM\<close>

text \<open>The key in the module: its address, signing an unsigned transaction, its identifier.\<close>

record hsm_signer =
  hs_address :: string
  hs_sign :: "string \<Rightarrow> string \<Rightarrow> backend_error + string"
  hs_keyIdentifier :: string

definition hsmInfo :: "hsm_signer \<Rightarrow> string" where
  "hsmInfo hsm = ''HSM key: '' @ hs_keyIdentifier hsm"

text \<open>What both HSM actions begin with: a new request, the signature, its verification.\<close>

definition hsmSign ::
  "signing_env \<Rightarrow> time \<Rightarrow> string \<Rightarrow> hsm_signer \<Rightarrow> string \<Rightarrow> string option \<Rightarrow> signing_db
     \<Rightarrow> backend_error + SigningRequest \<times> string \<times> SignatureVerificationResult \<times> signing_db" where
  "hsmSign env now uuid hsm buildId address db =
     sbind (verifyBuildOwnership db buildId address) (\<lambda>b.
     sbind (throwIf (bd_senderAddress b \<noteq> hs_address hsm) rejectInvalid) (\<lambda>_.
     let r = newSigningRequest now uuid b
     in sbind (hs_sign hsm (bd_unsignedTxCbor b) (bd_txBodyHash b)) (\<lambda>c.
        let result = verifySignedTransaction (se_lib env) False c (bd_txBodyHash b) None
        in sbind (throwIf (\<not> sv_isValid result) rejectInvalid) (\<lambda>_.
           Inr (r, c, result, persistSigningRequest r db)))))"

definition signWithHsm ::
  "signing_env \<Rightarrow> time \<Rightarrow> string \<Rightarrow> hsm_signer \<Rightarrow> string \<Rightarrow> string option \<Rightarrow> signing_db \<Rightarrow> backend_error + signing_db" where
  "signWithHsm env now uuid hsm buildId address db =
     sbind (hsmSign env now uuid hsm buildId address db) (\<lambda>(r, c, result, db1).
       let db2 = persistSignatureVerification now (sr_id r) c result (Some ''hsm'') (Some (hsmInfo hsm)) db1
       in Inr (db2\<lparr>db_requests := update_where (\<lambda>x. sr_id x = sr_id r) (\<lambda>x. x\<lparr>sr_hsmKeyId := Some (hs_keyIdentifier hsm)\<rparr>) (db_requests db2)\<rparr>))"

definition hsmPhase1 ::
  "signing_env \<Rightarrow> time \<Rightarrow> string \<Rightarrow> hsm_signer \<Rightarrow> string \<Rightarrow> bool \<Rightarrow> string option \<Rightarrow> signing_db
     \<Rightarrow> backend_error + FinalizeParams \<times> signing_db" where
  "hsmPhase1 env now uuid hsm buildId deferSubmit address db =
     sbind (hsmSign env now uuid hsm buildId address db) (\<lambda>(r, c, result, db1).
       Inr (\<lparr>fp_signingRequestId = sr_id r, fp_buildId = buildId, fp_fullSignedTxCbor = c, fp_txHash = sr_txBodyHash r,
             fp_verificationResult = result, fp_signerType = Some ''hsm'', fp_signerInfo = Some (hsmInfo hsm),
             fp_hsmKeyId = (if deferSubmit then None else Some (hs_keyIdentifier hsm))\<rparr>,
            db1\<lparr>db_requests := update_where (\<lambda>x. sr_id x = sr_id r)
              (\<lambda>x. claimUpdate (if deferSubmit then Some (c, Some ''hsm'', Some (hsmInfo hsm)) else None)
                     (x\<lparr>sr_hsmKeyId := Some (hs_keyIdentifier hsm)\<rparr>)) (db_requests db1)\<rparr>))"

section \<open>Submitting\<close>

text \<open>
  The third phase, one transaction: verification, submission, request and build; \<open>subId\<close> is the new
  submission's id. The HSM key is set again by the caller's \<open>afterFinalize\<close>.
\<close>

definition indexVerifiedTransactionSubmission :: "time \<Rightarrow> string \<Rightarrow> FinalizeParams \<Rightarrow> signing_db \<Rightarrow> signing_db" where
  "indexVerifiedTransactionSubmission now subId fp db =
     db\<lparr>db_verifications := db_verifications db
          @ [verification_row (fp_signingRequestId fp) (fp_fullSignedTxCbor fp) True (fp_verificationResult fp)],
        db_submissions := db_submissions db
          @ [\<lparr>ts_id = subId, ts_build = Some (fp_buildId fp), ts_txHash = fp_txHash fp, ts_signedTxCbor = fp_fullSignedTxCbor fp,
              ts_status = SubmissionSubmitted\<rparr>],
        db_requests := update_where (\<lambda>r. sr_id r = fp_signingRequestId fp)
          (\<lambda>r. r\<lparr>sr_status := SUBMITTED,
                 sr_signerType := Some (if truthy (fp_signerType fp) then the (fp_signerType fp) else ''custom''),
                 sr_signerInfo := (if truthy (fp_signerInfo fp) then fp_signerInfo fp else None),
                 sr_signedAt := Some now, sr_submittedAt := Some now, sr_submission := Some subId\<rparr>) (db_requests db),
        db_builds := update_where (\<lambda>b. bd_id b = fp_buildId fp) (\<lambda>b. b\<lparr>bd_wasSubmitted := True\<rparr>) (db_builds db)\<rparr>"

definition finalizeSubmitted :: "time \<Rightarrow> string \<Rightarrow> FinalizeParams \<Rightarrow> signing_db \<Rightarrow> signing_db" where
  "finalizeSubmitted now subId fp db =
     (let db1 = indexVerifiedTransactionSubmission now subId fp db
      in case fp_hsmKeyId fp of
           None \<Rightarrow> db1
         | Some k \<Rightarrow> db1\<lparr>db_requests := update_where (\<lambda>r. sr_id r = fp_signingRequestId fp) (\<lambda>r. r\<lparr>sr_hsmKeyId := Some k\<rparr>) (db_requests db1)\<rparr>)"

definition markRequestFailed :: "string \<Rightarrow> signing_db \<Rightarrow> signing_db" where
  "markRequestFailed i db = db\<lparr>db_requests := update_where (\<lambda>r. sr_id r = i) (\<lambda>r. r\<lparr>sr_status := FAILED\<rparr>) (db_requests db)\<rparr>"

text \<open>The answer of the client: accepted, already submitted, or any other error; and what follows from it.\<close>

datatype submit_answer = Accepted | AlreadySubmitted | SubmitError backend_error

definition answer_of :: "backend_error + unit \<Rightarrow> submit_answer" where
  "answer_of r = (case r of Inr _ \<Rightarrow> Accepted
     | Inl e \<Rightarrow> if instanceof e TransactionAlreadySubmittedC then AlreadySubmitted else SubmitError e)"

text \<open>After a restart: a stored signed transaction of a claimed row is verified again and submitted.\<close>

definition redriveParams :: "signing_lib \<Rightarrow> SigningRequest \<Rightarrow> backend_error + FinalizeParams" where
  "redriveParams lib r =
     sbind (verifyOrThrow lib (nullish (sr_signedTxCbor r) []) (sr_txBodyHash r) None) (\<lambda>result.
       Inr \<lparr>fp_signingRequestId = sr_id r, fp_buildId = nullish (sr_build r) [], fp_fullSignedTxCbor = nullish (sr_signedTxCbor r) [],
            fp_txHash = sr_txBodyHash r, fp_verificationResult = result, fp_signerType = sr_signerType r,
            fp_signerInfo = sr_signerInfo r, fp_hsmKeyId = None\<rparr>)"

definition interrupted :: "SigningRequest \<Rightarrow> bool" where
  "interrupted r \<longleftrightarrow> sr_status r = SUBMITTING \<and> sr_signedTxCbor r \<noteq> None"

section \<open>Submissions without a signing request\<close>

text \<open>
  \<open>submitRecorded\<close>: the row is committed as pending before the network call and its outcome afterwards; a
  resubmit of a transaction that has a submitted row already drops its own. The returned value is the answer
  of the call, whose errors are thrown again.
\<close>

definition persistTransactionSubmission :: "string \<Rightarrow> string \<Rightarrow> string \<Rightarrow> string option \<Rightarrow> signing_db \<Rightarrow> signing_db" where
  "persistTransactionSubmission subId signedTxCbor txHash buildId db =
     db\<lparr>db_submissions := db_submissions db
          @ [\<lparr>ts_id = subId, ts_build = (if truthy buildId then buildId else None), ts_txHash = txHash, ts_signedTxCbor = signedTxCbor,
              ts_status = SubmissionPending\<rparr>],
        db_builds := (if truthy buildId
                      then update_where (\<lambda>b. bd_id b = the buildId) (\<lambda>b. b\<lparr>bd_wasSubmitted := True\<rparr>) (db_builds db) else db_builds db)\<rparr>"

definition updateSubmissionStatus :: "string \<Rightarrow> SubmissionStatus \<Rightarrow> signing_db \<Rightarrow> signing_db" where
  "updateSubmissionStatus i status db =
     db\<lparr>db_submissions := update_where (\<lambda>r. ts_id r = i) (\<lambda>r. r\<lparr>ts_status := status\<rparr>) (db_submissions db)\<rparr>"

definition dropDuplicateSubmission :: "string \<Rightarrow> string \<Rightarrow> signing_db \<Rightarrow> bool \<times> signing_db" where
  "dropDuplicateSubmission i txHash db =
     (if list_ex (\<lambda>r. ts_txHash r = txHash \<and> ts_status r \<in> {SubmissionSubmitted, SubmissionConfirmed} \<and> ts_id r \<noteq> i) (db_submissions db)
      then (True, db\<lparr>db_submissions := delete_where (\<lambda>r. ts_id r = i) (db_submissions db)\<rparr>) else (False, db))"

definition recordOutcome :: "string \<Rightarrow> string \<Rightarrow> submit_answer \<Rightarrow> signing_db \<Rightarrow> signing_db" where
  "recordOutcome i txHash answer db =
     (case answer of
        Accepted \<Rightarrow> updateSubmissionStatus i SubmissionSubmitted db
      | AlreadySubmitted \<Rightarrow> (case dropDuplicateSubmission i txHash db of
            (True, db') \<Rightarrow> db' | (False, db') \<Rightarrow> updateSubmissionStatus i SubmissionSubmitted db')
      | SubmitError _ \<Rightarrow> updateSubmissionStatus i SubmissionFailed db)"

definition submitRecorded :: "string \<Rightarrow> string \<Rightarrow> string \<Rightarrow> string option \<Rightarrow> submit_answer \<Rightarrow> signing_db \<Rightarrow> signing_db" where
  "submitRecorded i signedTxCbor txHash buildId answer db =
     recordOutcome i txHash answer (persistTransactionSubmission i signedTxCbor txHash buildId db)"

lemma update_last: "ts_id x = i \<Longrightarrow> i \<notin> ts_id ` set t \<Longrightarrow> update_where (\<lambda>r. ts_id r = i) f (t @ [x]) = t @ [f x]"
  by (induction t) (auto simp: update_where_def)

lemma delete_last: "ts_id x = i \<Longrightarrow> i \<notin> ts_id ` set t \<Longrightarrow> delete_where (\<lambda>r. ts_id r = i) (t @ [x]) = t"
  by (auto simp: delete_where_def filter_id_conv image_iff)

text \<open>What a submission leaves: one row with the outcome, and none for a resubmit of a recorded transaction.\<close>

lemma submitRecorded_rows:
  assumes "i \<notin> ts_id ` set (db_submissions db)"
  shows "db_submissions (submitRecorded i c h b answer db) =
    (if answer = AlreadySubmitted \<and> list_ex (\<lambda>r. ts_txHash r = h \<and> ts_status r \<in> {SubmissionSubmitted, SubmissionConfirmed}) (db_submissions db)
     then db_submissions db
     else db_submissions db @ [\<lparr>ts_id = i, ts_build = (if truthy b then b else None), ts_txHash = h, ts_signedTxCbor = c,
       ts_status = (case answer of SubmitError _ \<Rightarrow> SubmissionFailed | _ \<Rightarrow> SubmissionSubmitted)\<rparr>])"
proof -
  have "list_ex (\<lambda>r. ts_txHash r = h \<and> ts_status r \<in> {SubmissionSubmitted, SubmissionConfirmed} \<and> ts_id r \<noteq> i) (db_submissions db)
    \<longleftrightarrow> list_ex (\<lambda>r. ts_txHash r = h \<and> ts_status r \<in> {SubmissionSubmitted, SubmissionConfirmed}) (db_submissions db)"
    using assms by (auto simp: list_ex_iff)
  then show ?thesis
    using update_last [OF _ assms] delete_last [OF _ assms]
    by (cases answer) (simp_all add: submitRecorded_def recordOutcome_def persistTransactionSubmission_def dropDuplicateSubmission_def
        updateSubmissionStatus_def)
qed

section \<open>Many requests at once\<close>

text \<open>
  The service: the tables, the rows requests have read so far, the submissions under way and their stage, and
  what the network has been sent (request and bytes), what it has taken, and which requests were claimed.
  Every phase is one committed transaction; between any two anything else may happen. \<open>Lost\<close> is a crash or a
  failing write. A deferred submit is the same flight, begun once its caller has committed. All builds
  ever made are in the table from the start.
\<close>

datatype stage = ToSend | ToFinalize | ToFail

record flow =
  fl_db :: signing_db
  fl_read :: "SigningRequest list"
  fl_flight :: "(FinalizeParams \<times> stage) list"
  fl_sent :: "(string \<times> string) list"
  fl_taken :: "string list"
  fl_claims :: "string list"

definition flow_start :: "TransactionBuild list \<Rightarrow> flow" where
  "flow_start builds = \<lparr>fl_db = \<lparr>db_requests = [], db_verifications = [], db_submissions = [], db_builds = builds\<rparr>,
     fl_read = [], fl_flight = [], fl_sent = [], fl_taken = [], fl_claims = []\<rparr>"

definition send :: "submit_answer \<Rightarrow> FinalizeParams \<Rightarrow> (FinalizeParams \<times> stage) list \<Rightarrow> (FinalizeParams \<times> stage) list \<Rightarrow> flow \<Rightarrow> flow" where
  "send answer fp xs ys s =
     (let failed = (case answer of SubmitError _ \<Rightarrow> True | _ \<Rightarrow> False) in
      s\<lparr>fl_flight := xs @ (fp, if failed then ToFail else ToFinalize) # ys,
        fl_sent := (fp_signingRequestId fp, fp_fullSignedTxCbor fp) # fl_sent s,
        fl_taken := (if failed then fl_taken s else fp_fullSignedTxCbor fp # fl_taken s)\<rparr>)"

inductive flow_step :: "signing_env \<Rightarrow> flow \<Rightarrow> flow \<Rightarrow> bool" for env where
  Read: "r \<in> set (db_requests (fl_db s)) \<Longrightarrow> flow_step env s (s\<lparr>fl_read := r # fl_read s\<rparr>)"
| Create: "createSigningRequest now uuid seen buildId (fl_db s) = Inr (r, db') \<Longrightarrow> uuid \<notin> sr_id ` set (db_requests (fl_db s))
    \<Longrightarrow> flow_step env s (s\<lparr>fl_db := db'\<rparr>)"
| Get: "getSigningRequest now i (fl_db s) = Inr db' \<Longrightarrow> flow_step env s (s\<lparr>fl_db := db'\<rparr>)"
| List: "beforeRead now lastExpiryCheck (fl_db s) = (lastExpiryCheck', db') \<Longrightarrow> flow_step env s (s\<lparr>fl_db := db'\<rparr>)"
| Verify: "seen \<in> set (fl_read s) \<Longrightarrow> verifySignature env now seen input address signerType signerInfo (fl_db s) = Inr (result, db')
    \<Longrightarrow> flow_step env s (s\<lparr>fl_db := db'\<rparr>)"
| Claim: "seen \<in> set (fl_read s) \<Longrightarrow> submitPhase1 env now seen input deferSubmit address signerType signerInfo (fl_db s) = Inr (fp, db')
    \<Longrightarrow> flow_step env s (s\<lparr>fl_db := db', fl_flight := (fp, ToSend) # fl_flight s, fl_claims := fp_signingRequestId fp # fl_claims s\<rparr>)"
| HsmSign: "signWithHsm env now uuid hsm buildId address (fl_db s) = Inr db' \<Longrightarrow> uuid \<notin> sr_id ` set (db_requests (fl_db s))
    \<Longrightarrow> flow_step env s (s\<lparr>fl_db := db'\<rparr>)"
| HsmClaim: "hsmPhase1 env now uuid hsm buildId deferSubmit address (fl_db s) = Inr (fp, db') \<Longrightarrow> uuid \<notin> sr_id ` set (db_requests (fl_db s))
    \<Longrightarrow> flow_step env s (s\<lparr>fl_db := db', fl_flight := (fp, ToSend) # fl_flight s, fl_claims := fp_signingRequestId fp # fl_claims s\<rparr>)"
| Send: "fl_flight s = xs @ (fp, ToSend) # ys \<Longrightarrow> flow_step env s (send answer fp xs ys s)"
| Finalize: "fl_flight s = xs @ (fp, ToFinalize) # ys
    \<Longrightarrow> flow_step env s (s\<lparr>fl_db := finalizeSubmitted now subId fp (fl_db s), fl_flight := xs @ ys\<rparr>)"
| MarkFailed: "fl_flight s = xs @ (fp, ToFail) # ys
    \<Longrightarrow> flow_step env s (s\<lparr>fl_db := markRequestFailed (fp_signingRequestId fp) (fl_db s), fl_flight := xs @ ys\<rparr>)"
| Lost: "fl_flight s = xs @ f # ys \<Longrightarrow> flow_step env s (s\<lparr>fl_flight := xs @ ys\<rparr>)"
| Redrive: "r \<in> set (fl_read s) \<Longrightarrow> interrupted r \<Longrightarrow> redriveParams (se_lib env) r = Inr fp
    \<Longrightarrow> flow_step env s (s\<lparr>fl_flight := (fp, ToSend) # fl_flight s\<rparr>)"

section \<open>How rows change\<close>

definition claimed :: "SigningRequest \<Rightarrow> bool" where
  "claimed r \<longleftrightarrow> sr_status r \<in> {SUBMITTING, SUBMITTED, FAILED}"

text \<open>What never changes in a row, and that a claim is not taken back.\<close>

definition row_le :: "SigningRequest \<Rightarrow> SigningRequest \<Rightarrow> bool" where
  "row_le r r' \<longleftrightarrow> sr_id r' = sr_id r \<and> sr_build r' = sr_build r \<and> sr_txBodyHash r' = sr_txBodyHash r
     \<and> sr_unsignedTxCbor r' = sr_unsignedTxCbor r \<and> (sr_hsmKeyId r' = None \<longrightarrow> sr_hsmKeyId r = None) \<and> (claimed r \<longrightarrow> claimed r')"

lemma row_le_refl [simp]: "row_le r r"
  by (simp add: row_le_def)

lemma row_le_trans: "row_le a b \<Longrightarrow> row_le b c \<Longrightarrow> row_le a c"
  by (simp add: row_le_def)

definition sender_of :: "signing_db \<Rightarrow> string \<Rightarrow> string option" where
  "sender_of db i = map_option bd_senderAddress (find_row bd_id i (db_builds db))"

definition db_le :: "signing_db \<Rightarrow> signing_db \<Rightarrow> bool" where
  "db_le db db' \<longleftrightarrow> (\<forall>i r. find_row sr_id i (db_requests db) = Some r
       \<longrightarrow> (\<exists>r'. find_row sr_id i (db_requests db') = Some r' \<and> row_le r r'))
     \<and> sender_of db' = sender_of db \<and> set (db_submissions db) \<subseteq> set (db_submissions db')"

lemma db_le_refl: "db_le db db"
  by (auto simp: db_le_def)

lemma db_le_trans: "db_le a b \<Longrightarrow> db_le b c \<Longrightarrow> db_le a c"
  unfolding db_le_def by (metis (no_types, lifting) row_le_trans subset_trans)

text \<open>The bytes verify against the row: with the required keys, or with its own key for a row the HSM signed.\<close>

definition signed_for :: "signing_env \<Rightarrow> signing_db \<Rightarrow> SigningRequest \<Rightarrow> string \<Rightarrow> bool" where
  "signed_for env db r c \<longleftrightarrow>
     sv_isValid (verifySignedTransaction (se_lib env) False c (sr_txBodyHash r)
       (if sr_hsmKeyId r = None then signersFor env db r else None))"

lemma signed_without: "sv_isValid (verifySignedTransaction lib False c h required)
    \<Longrightarrow> sv_isValid (verifySignedTransaction lib False c h None)"
  unfolding verifySignedTransaction_def if_False verify_valid by (auto simp: missingSigners_def)

lemma signersFor_le:
  assumes "sender_of db' = sender_of db" "row_le r r'"
  shows "signersFor env db' r' = signersFor env db r"
  using assms by (simp add: signersFor_def sender_of_def row_le_def fun_eq_iff)

lemma signed_for_le:
  assumes "db_le db db'" "row_le r r'" "signed_for env db r c"
  shows "signed_for env db' r' c"
proof -
  have s: "signersFor env db' r' = signersFor env db r" using assms(1,2) by (intro signersFor_le) (simp_all add: db_le_def)
  have h: "sr_txBodyHash r' = sr_txBodyHash r" "sr_hsmKeyId r' = None \<longrightarrow> sr_hsmKeyId r = None" using assms(2) by (simp_all add: row_le_def)
  show ?thesis
    using assms(3) h signed_without [of "se_lib env" c "sr_txBodyHash r"] unfolding signed_for_def s by (auto split: if_splits)
qed

lemma update_db_le:
  assumes "db_requests db' = update_where P f (db_requests db)" "\<And>r. sr_id (f r) = sr_id r"
    and "\<And>r. r \<in> set (db_requests db) \<Longrightarrow> P r \<Longrightarrow> row_le r (f r)"
    and "sender_of db' = sender_of db" "set (db_submissions db) \<subseteq> set (db_submissions db')"
  shows "db_le db db'"
  unfolding db_le_def assms(1,4)
proof (intro conjI allI impI)
  fix i r
  assume r: "find_row sr_id i (db_requests db) = Some r"
  then have "r \<in> set (db_requests db)" by (blast dest: find_row_SomeD)
  with r assms(2,3) show "\<exists>r'. find_row sr_id i (update_where P f (db_requests db)) = Some r' \<and> row_le r r'"
    by (simp add: find_row_update_where)
qed (simp_all add: assms(5))

lemma append_db_le:
  assumes "db_requests db' = db_requests db @ [r]" "sender_of db' = sender_of db" "set (db_submissions db) \<subseteq> set (db_submissions db')"
  shows "db_le db db'"
  using assms by (auto simp: db_le_def find_row_append)

section \<open>The invariant\<close>

definition row_fine :: "signing_env \<Rightarrow> flow \<Rightarrow> SigningRequest \<Rightarrow> bool" where
  "row_fine env s r \<longleftrightarrow>
     (\<forall>c. sr_signedTxCbor r = Some c \<longrightarrow> signed_for env (fl_db s) r c)
     \<and> (sr_status r = SUBMITTED \<longrightarrow>
         (\<exists>sub \<in> set (db_submissions (fl_db s)). sr_submission r = Some (ts_id sub) \<and> ts_txHash sub = sr_txBodyHash r
            \<and> (sr_id r, ts_signedTxCbor sub) \<in> set (fl_sent s) \<and> ts_signedTxCbor sub \<in> set (fl_taken s)))"

definition read_fine :: "signing_env \<Rightarrow> signing_db \<Rightarrow> SigningRequest \<Rightarrow> bool" where
  "read_fine env db q \<longleftrightarrow> (\<exists>r. find_row sr_id (sr_id q) (db_requests db) = Some r \<and> row_le q r)
     \<and> (\<forall>c. sr_signedTxCbor q = Some c \<longrightarrow> signed_for env db q c)"

definition sent_fine :: "signing_env \<Rightarrow> signing_db \<Rightarrow> string \<times> string \<Rightarrow> bool" where
  "sent_fine env db e \<longleftrightarrow> (\<exists>r. find_row sr_id (fst e) (db_requests db) = Some r \<and> signed_for env db r (snd e))"

definition flight_fine :: "signing_env \<Rightarrow> signing_db \<Rightarrow> FinalizeParams \<Rightarrow> bool" where
  "flight_fine env db fp \<longleftrightarrow> (\<exists>r. find_row sr_id (fp_signingRequestId fp) (db_requests db) = Some r \<and> claimed r
     \<and> signed_for env db r (fp_fullSignedTxCbor fp) \<and> fp_txHash fp = sr_txBodyHash r)"

definition claim_fine :: "signing_db \<Rightarrow> string \<Rightarrow> bool" where
  "claim_fine db i \<longleftrightarrow> (\<exists>r. find_row sr_id i (db_requests db) = Some r \<and> claimed r)"

definition flow_inv :: "signing_env \<Rightarrow> flow \<Rightarrow> bool" where
  "flow_inv env s \<longleftrightarrow>
     distinct (map sr_id (db_requests (fl_db s))) \<and> distinct (fl_claims s)
     \<and> (\<forall>r \<in> set (db_requests (fl_db s)). row_fine env s r)
     \<and> (\<forall>q \<in> set (fl_read s). read_fine env (fl_db s) q)
     \<and> (\<forall>e \<in> set (fl_sent s). sent_fine env (fl_db s) e)
     \<and> (\<forall>fp st. (fp, st) \<in> set (fl_flight s) \<longrightarrow> flight_fine env (fl_db s) fp
          \<and> (st = ToFinalize \<longrightarrow> (fp_signingRequestId fp, fp_fullSignedTxCbor fp) \<in> set (fl_sent s) \<and> fp_fullSignedTxCbor fp \<in> set (fl_taken s)))
     \<and> (\<forall>i \<in> set (fl_claims s). claim_fine (fl_db s) i)"

lemma fine_le:
  assumes "db_le db db'"
  shows "read_fine env db q \<Longrightarrow> read_fine env db' q" "sent_fine env db e \<Longrightarrow> sent_fine env db' e"
    "flight_fine env db fp \<Longrightarrow> flight_fine env db' fp" "claim_fine db i \<Longrightarrow> claim_fine db' i"
proof -
  have up: "\<exists>r'. find_row sr_id k (db_requests db') = Some r' \<and> row_le r r'" if "find_row sr_id k (db_requests db) = Some r" for k r
    using assms that by (simp add: db_le_def)
  show "read_fine env db' q" if q: "read_fine env db q"
  proof -
    obtain r where "find_row sr_id (sr_id q) (db_requests db) = Some r" "row_le q r" using q by (auto simp: read_fine_def)
    then show ?thesis using up row_le_trans signed_for_le [OF assms row_le_refl] q unfolding read_fine_def by blast
  qed
  show "sent_fine env db' e" if "sent_fine env db e" using that up signed_for_le [OF assms] unfolding sent_fine_def by blast
  show "flight_fine env db' fp" if fp: "flight_fine env db fp"
  proof -
    obtain r where r: "find_row sr_id (fp_signingRequestId fp) (db_requests db) = Some r" "claimed r"
      "signed_for env db r (fp_fullSignedTxCbor fp)" "fp_txHash fp = sr_txBodyHash r" using fp by (auto simp: flight_fine_def)
    obtain r' where r': "find_row sr_id (fp_signingRequestId fp) (db_requests db') = Some r'" "row_le r r'" using up [OF r(1)] by blast
    with r show ?thesis using signed_for_le [OF assms r'(2)] unfolding flight_fine_def row_le_def by auto
  qed
  show "claim_fine db' i" if "claim_fine db i" using that up unfolding claim_fine_def row_le_def by blast
qed

text \<open>A change of the tables that submits nothing: new rows are not submitted, stored bytes verify.\<close>

definition quiet_row :: "signing_env \<Rightarrow> signing_db \<Rightarrow> signing_db \<Rightarrow> SigningRequest \<Rightarrow> bool" where
  "quiet_row env db db' r' \<longleftrightarrow> r' \<in> set (db_requests db)
     \<or> sr_status r' \<noteq> SUBMITTED \<and> ((\<exists>r \<in> set (db_requests db). row_le r r' \<and> sr_signedTxCbor r' = sr_signedTxCbor r)
          \<or> (\<forall>c. sr_signedTxCbor r' = Some c \<longrightarrow> signed_for env db' r' c))"

definition quiet :: "signing_env \<Rightarrow> signing_db \<Rightarrow> signing_db \<Rightarrow> bool" where
  "quiet env db db' \<longleftrightarrow> db_le db db' \<and> distinct (map sr_id (db_requests db'))
     \<and> (\<forall>r' \<in> set (db_requests db'). quiet_row env db db' r')"

lemma quiet_inv:
  assumes "flow_inv env s" "quiet env (fl_db s) db'"
  shows "flow_inv env (s\<lparr>fl_db := db'\<rparr>)"
proof -
  have le: "db_le (fl_db s) db'" using assms(2) by (simp add: quiet_def)
  have sub: "set (db_submissions (fl_db s)) \<subseteq> set (db_submissions db')" using le by (simp add: db_le_def)
  have rows: "row_fine env (s\<lparr>fl_db := db'\<rparr>) r'" if r': "r' \<in> set (db_requests db')" for r'
  proof -
    have old: "row_fine env s r" if "r \<in> set (db_requests (fl_db s))" for r using assms(1) that by (simp add: flow_inv_def)
    have q: "quiet_row env (fl_db s) db' r'" using assms(2) r' by (simp add: quiet_def)
    then consider "r' \<in> set (db_requests (fl_db s))"
      | r where "r \<in> set (db_requests (fl_db s))" "row_le r r'" "sr_signedTxCbor r' = sr_signedTxCbor r" "sr_status r' \<noteq> SUBMITTED"
      | "\<forall>c. sr_signedTxCbor r' = Some c \<longrightarrow> signed_for env db' r' c" "sr_status r' \<noteq> SUBMITTED"
      unfolding quiet_row_def by blast
    then show ?thesis
    proof cases
      case 1
      then show ?thesis using old [OF 1] sub signed_for_le [OF le row_le_refl] unfolding row_fine_def by auto
    next
      case 2
      then show ?thesis using old [OF 2(1)] signed_for_le [OF le 2(2)] unfolding row_fine_def by auto
    qed (simp add: row_fine_def)
  qed
  show ?thesis
    using assms rows fine_le [OF le] unfolding flow_inv_def quiet_def by (auto split: prod.splits)
qed

lemma quiet_update:
  assumes "distinct (map sr_id (db_requests db))" "db_requests db' = update_where P f (db_requests db)" "\<And>r. sr_id (f r) = sr_id r"
    and "\<And>r. r \<in> set (db_requests db) \<Longrightarrow> P r \<Longrightarrow> row_le r (f r) \<and> sr_status (f r) \<noteq> SUBMITTED
       \<and> (sr_signedTxCbor (f r) = sr_signedTxCbor r \<or> (\<forall>c. sr_signedTxCbor (f r) = Some c \<longrightarrow> signed_for env db' (f r) c))"
    and "sender_of db' = sender_of db" "db_submissions db' = db_submissions db"
  shows "quiet env db db'"
  unfolding quiet_def
proof (intro conjI ballI)
  show "db_le db db'" by (rule update_db_le [OF assms(2,3)]) (use assms(4-6) in auto)
  show "distinct (map sr_id (db_requests db'))" unfolding assms(2) using assms(1,3) by (simp add: update_where_keys)
  fix r'
  assume "r' \<in> set (db_requests db')"
  then obtain r where "r \<in> set (db_requests db)" "r' = (if P r then f r else r)" unfolding assms(2) set_update_where by blast
  then show "quiet_row env db db' r'" using assms(4) unfolding quiet_row_def by (cases "P r") auto
qed

lemma quiet_append:
  assumes "distinct (map sr_id (db_requests db))" "db_requests db' = db_requests db @ [r]" "sr_id r \<notin> sr_id ` set (db_requests db)"
    and "sr_status r \<noteq> SUBMITTED" "\<forall>c. sr_signedTxCbor r = Some c \<longrightarrow> signed_for env db' r c"
    and "sender_of db' = sender_of db" "db_submissions db' = db_submissions db"
  shows "quiet env db db'"
  using append_db_le [OF assms(2,6)] assms unfolding quiet_def quiet_row_def by auto

lemma quiet_refl: "distinct (map sr_id (db_requests db)) \<Longrightarrow> quiet env db db"
  by (simp add: quiet_def db_le_refl quiet_row_def)

lemma update_fresh: "sr_id r \<notin> sr_id ` set t \<Longrightarrow> update_where (\<lambda>x. sr_id x = sr_id r) f (t @ [r]) = t @ [f r]"
  by (induction t) (auto simp: update_where_def)

section \<open>Every step keeps it\<close>

lemma claimed_simps [simp]:
  "claimed (r\<lparr>sr_status := x\<rparr>) \<longleftrightarrow> x \<in> {SUBMITTING, SUBMITTED, FAILED}" "claimed (r\<lparr>sr_hsmKeyId := k\<rparr>) = claimed r"
  by (simp_all add: claimed_def)

lemma expire_quiet:
  assumes "distinct (map sr_id (db_requests db))" "\<And>r. P r \<Longrightarrow> sr_status r = PENDING"
  shows "quiet env db (db\<lparr>db_requests := update_where P (\<lambda>r. r\<lparr>sr_status := EXPIRED\<rparr>) (db_requests db)\<rparr>)"
  by (rule quiet_update [where P = P and f = "\<lambda>r. r\<lparr>sr_status := EXPIRED\<rparr>"])
     (use assms in \<open>auto simp: row_le_def claimed_def sender_of_def fun_eq_iff\<close>)

lemma create_quiet:
  assumes "distinct (map sr_id (db_requests db))" "createSigningRequest now uuid seen b db = Inr (r, db')" "uuid \<notin> sr_id ` set (db_requests db)"
  shows "quiet env db db'"
proof (cases "db' = db")
  case True
  then show ?thesis using assms(1) by (simp add: quiet_def db_le_refl quiet_row_def)
next
  case False
  then obtain bd where "db' = persistSigningRequest (newSigningRequest now uuid bd) db"
    using assms(2) by (auto simp: createSigningRequest_def split: option.splits)
  then show ?thesis
    by (intro quiet_append [where r = "newSigningRequest now uuid bd"])
       (use assms in \<open>simp_all add: persistSigningRequest_def newSigningRequest_def sender_of_def fun_eq_iff\<close>)
qed

text \<open>A row that is read keeps its identity; a claimable row of that id is the one in the table.\<close>

lemma verify_quiet:
  assumes d: "distinct (map sr_id (db_requests db))"
    and v: "verifySignature env now seen input address signerType signerInfo db = Inr (result, db')"
  shows "quiet env db db'"
proof -
  let ?P = "claimable now (sr_id seen) {PENDING}"
  obtain full where r: "list_ex ?P (db_requests db)"
    "db' = persistSignatureVerification now (sr_id seen) full result signerType signerInfo
       (db\<lparr>db_requests := update_where ?P (\<lambda>r. r\<lparr>sr_status := SIGNED\<rparr>) (db_requests db)\<rparr>)"
    using v unfolding verifySignature_def by (auto simp: sbind_Inr_iff Let_def split: if_splits)
  obtain p where p: "p \<in> set (db_requests db)" "?P p" using r(1) by (auto simp: list_ex_iff)
  have one: "r = p" if "r \<in> set (db_requests db)" "sr_id r = sr_id seen" for r
    using d p that unfolding claimable_def distinct_map by (metis inj_onD)
  define f where "f = (\<lambda>r::SigningRequest. r\<lparr>sr_status := (if sv_isValid result then VERIFIED else FAILED),
                  sr_signerType := Some (if truthy signerType then the signerType else ''custom''),
                  sr_signerInfo := (if truthy signerInfo then signerInfo else None),
                  sr_signedAt := (if sv_isValid result then Some now else None),
                  sr_errorMessage := (if sv_isValid result then None else sv_errorMessage result)\<rparr>)"
  have "db_requests db' = update_where (\<lambda>r. sr_id r = sr_id seen) f (db_requests db)"
    unfolding r(2) persistSignatureVerification_def Let_def f_def update_where_def by (auto simp: claimable_def)
  then show ?thesis
  proof (rule quiet_update [OF d])
    show "sr_id (f r) = sr_id r" for r by (simp add: f_def)
    fix r
    assume "r \<in> set (db_requests db)" "sr_id r = sr_id seen"
    then have "sr_status r = PENDING" using one p(2) by (auto simp: claimable_def)
    then show "row_le r (f r) \<and> sr_status (f r) \<noteq> SUBMITTED
        \<and> (sr_signedTxCbor (f r) = sr_signedTxCbor r \<or> (\<forall>c. sr_signedTxCbor (f r) = Some c \<longrightarrow> signed_for env db' (f r) c))"
      by (simp add: f_def row_le_def claimed_def)
  qed (simp_all add: r(2) persistSignatureVerification_def Let_def sender_of_def fun_eq_iff)
qed

lemma hsmSign_parts:
  assumes "hsmSign env now uuid hsm b address db = Inr (r, c, result, db1)"
  shows "\<exists>bd. r = newSigningRequest now uuid bd" "db1 = persistSigningRequest r db"
    "sv_isValid (verifySignedTransaction (se_lib env) False c (sr_txBodyHash r) None)"
  using assms unfolding hsmSign_def by (auto simp: sbind_Inr_iff throwIf_Inr_iff Let_def newSigningRequest_def)

lemma markFailed_quiet:
  assumes "distinct (map sr_id (db_requests db))"
  shows "quiet env db (markRequestFailed i db)"
  by (rule quiet_update [where P = "\<lambda>r. sr_id r = i" and f = "\<lambda>r. r\<lparr>sr_status := FAILED\<rparr>"])
     (use assms in \<open>auto simp: markRequestFailed_def row_le_def sender_of_def fun_eq_iff\<close>)

lemma read_row:
  assumes "distinct (map sr_id (db_requests db))" "read_fine env db q" "r \<in> set (db_requests db)" "sr_id r = sr_id q"
  shows "row_le q r"
  using assms find_row_unique [of sr_id "db_requests db"] unfolding read_fine_def by (metis option.inject)

lemma claimUpdate_row:
  "sr_id (claimUpdate d r) = sr_id r" "row_le r (claimUpdate d r)" "claimed (claimUpdate d r)"
  "sr_status (claimUpdate d r) = SUBMITTING"
  "sr_signedTxCbor (claimUpdate d r) = (case d of None \<Rightarrow> sr_signedTxCbor r | Some (c, _) \<Rightarrow> Some c)"
  by (auto simp: claimUpdate_def row_le_def claimed_def split: option.splits)

lemma verifyOrThrow_Inr: "verifyOrThrow lib c h required = Inr result
    \<Longrightarrow> sv_isValid (verifySignedTransaction lib False c h required)"
  by (simp add: verifyOrThrow_def Let_def split: if_splits)

lemma claim_parts:
  assumes "submitPhase1 env now seen input deferSubmit address signerType signerInfo db = Inr (fp, db')"
  defines "P \<equiv> claimable now (sr_id seen) {PENDING, VERIFIED}"
    and "d \<equiv> if deferSubmit then Some (fp_fullSignedTxCbor fp, signerType, signerInfo) else None"
  shows "list_ex P (db_requests db)" "db' = db\<lparr>db_requests := update_where P (claimUpdate d) (db_requests db)\<rparr>"
    "fp_signingRequestId fp = sr_id seen" "fp_txHash fp = sr_txBodyHash seen" "signed_for env db seen (fp_fullSignedTxCbor fp)"
proof -
  obtain full result where v: "verifyOrThrow (se_lib env) full (sr_txBodyHash seen) (signersFor env db seen) = Inr result"
    and x: "list_ex P (db_requests db)"
    and fp: "fp = \<lparr>fp_signingRequestId = sr_id seen, fp_buildId = the (sr_build seen), fp_fullSignedTxCbor = full,
                   fp_txHash = sr_txBodyHash seen, fp_verificationResult = result,
                   fp_signerType = signerType, fp_signerInfo = signerInfo, fp_hsmKeyId = None\<rparr>"
    and db': "db' = db\<lparr>db_requests := update_where P (claimUpdate (if deferSubmit then Some (full, signerType, signerInfo) else None)) (db_requests db)\<rparr>"
    using assms(1) unfolding submitPhase1_def P_def sbind_Inr_iff Let_def by (auto split: if_splits)
  show "list_ex P (db_requests db)" by (rule x)
  show "db' = db\<lparr>db_requests := update_where P (claimUpdate d) (db_requests db)\<rparr>" unfolding db' d_def fp by simp
  show "signed_for env db seen (fp_fullSignedTxCbor fp)"
    using verifyOrThrow_Inr [OF v] signed_without unfolding signed_for_def fp by (auto split: if_splits)
  show "fp_signingRequestId fp = sr_id seen" "fp_txHash fp = sr_txBodyHash seen" by (simp_all add: fp)
qed

text \<open>The row a claim changes, and what is known of it afterwards.\<close>

lemma claim_effect:
  assumes d: "distinct (map sr_id (db_requests db))" and q: "read_fine env db seen"
    and c: "submitPhase1 env now seen input deferSubmit address signerType signerInfo db = Inr (fp, db')"
  shows "quiet env db db'" "flight_fine env db' fp" "claim_fine db' (fp_signingRequestId fp)"
    "\<exists>r. find_row sr_id (fp_signingRequestId fp) (db_requests db) = Some r \<and> \<not> claimed r"
proof -
  let ?P = "claimable now (sr_id seen) {PENDING, VERIFIED}"
  let ?f = "claimUpdate (if deferSubmit then Some (fp_fullSignedTxCbor fp, signerType, signerInfo) else None)"
  note parts = claim_parts [OF c]
  have req: "db_requests db' = update_where ?P ?f (db_requests db)" unfolding parts(2) by simp
  have le: "db_le db db'"
    by (rule update_db_le [OF req claimUpdate_row(1) claimUpdate_row(2)]) (simp_all add: parts(2) sender_of_def fun_eq_iff)
  have seen_le: "row_le seen r" if "r \<in> set (db_requests db)" "?P r" for r
    using read_row [OF d q] that by (simp add: claimable_def)
  have new: "signed_for env db' (?f r) (fp_fullSignedTxCbor fp)" if "r \<in> set (db_requests db)" "?P r" for r
    using signed_for_le [OF le row_le_trans [OF seen_le [OF that] claimUpdate_row(2)] parts(5)] .
  show "quiet env db db'"
  proof (rule quiet_update [OF d req claimUpdate_row(1)])
    fix r
    assume r: "r \<in> set (db_requests db)" "?P r"
    show "row_le r (?f r) \<and> sr_status (?f r) \<noteq> SUBMITTED
       \<and> (sr_signedTxCbor (?f r) = sr_signedTxCbor r \<or> (\<forall>c. sr_signedTxCbor (?f r) = Some c \<longrightarrow> signed_for env db' (?f r) c))"
      using new [OF r] by (cases deferSubmit) (simp_all add: claimUpdate_row)
  qed (simp_all add: parts(2) sender_of_def fun_eq_iff)
  obtain p where p: "p \<in> set (db_requests db)" "?P p" using parts(1) by (auto simp: list_ex_iff)
  have fp: "find_row sr_id (fp_signingRequestId fp) (db_requests db) = Some p"
    using find_row_unique [OF d] p parts(3) by (simp add: claimable_def)
  then show "\<exists>r. find_row sr_id (fp_signingRequestId fp) (db_requests db) = Some r \<and> \<not> claimed r"
    using p(2) by (auto simp: claimable_def claimed_def)
  have fp': "find_row sr_id (fp_signingRequestId fp) (db_requests db') = Some (?f p)"
    unfolding req using fp p(2) by (simp add: find_row_update_where claimUpdate_row(1))
  then show "claim_fine db' (fp_signingRequestId fp)" unfolding claim_fine_def using claimUpdate_row(3) by blast
  have "sr_txBodyHash (?f p) = sr_txBodyHash seen"
    using row_le_trans [OF seen_le [OF p] claimUpdate_row(2)] by (simp add: row_le_def)
  then show "flight_fine env db' fp"
    unfolding flight_fine_def using fp' new [OF p] claimUpdate_row(3) parts(4) by auto
qed

lemma signWithHsm_quiet:
  assumes d: "distinct (map sr_id (db_requests db))" and h: "signWithHsm env now uuid hsm b address db = Inr db'"
    and u: "uuid \<notin> sr_id ` set (db_requests db)"
  shows "quiet env db db'"
proof -
  obtain r c result db1 where s: "hsmSign env now uuid hsm b address db = Inr (r, c, result, db1)"
    and db': "db' = (let db2 = persistSignatureVerification now (sr_id r) c result (Some ''hsm'') (Some (hsmInfo hsm)) db1
       in db2\<lparr>db_requests := update_where (\<lambda>x. sr_id x = sr_id r) (\<lambda>x. x\<lparr>sr_hsmKeyId := Some (hs_keyIdentifier hsm)\<rparr>) (db_requests db2)\<rparr>)"
    using h unfolding signWithHsm_def by (auto simp: sbind_Inr_iff Let_def)
  obtain bd where r: "r = newSigningRequest now uuid bd" using hsmSign_parts(1) [OF s] by blast
  have fresh: "sr_id r \<notin> sr_id ` set (db_requests db)" using u by (simp add: r newSigningRequest_def)
  have "\<exists>r'. db_requests db' = db_requests db @ [r'] \<and> sr_id r' = sr_id r \<and> sr_status r' \<noteq> SUBMITTED \<and> sr_signedTxCbor r' = None"
    unfolding db' hsmSign_parts(2) [OF s] persistSignatureVerification_def persistSigningRequest_def Let_def
    using update_fresh [OF fresh] update_fresh [of "r\<lparr>sr_status := x, sr_signerType := a, sr_signerInfo := e, sr_signedAt := f, sr_errorMessage := g\<rparr>" "db_requests db" for x a e f g] fresh
    by (simp add: r newSigningRequest_def)
  then obtain r' where x: "db_requests db' = db_requests db @ [r']" "sr_id r' = sr_id r" "sr_status r' \<noteq> SUBMITTED" "sr_signedTxCbor r' = None" by blast
  have "sender_of db' = sender_of db" "db_submissions db' = db_submissions db"
    by (simp_all add: db' hsmSign_parts(2) [OF s] persistSignatureVerification_def persistSigningRequest_def Let_def sender_of_def fun_eq_iff)
  then show ?thesis using fresh x by (intro quiet_append [OF d x(1)]) simp_all
qed

lemma hsmClaim_effect:
  assumes d: "distinct (map sr_id (db_requests db))" and h: "hsmPhase1 env now uuid hsm b deferSubmit address db = Inr (fp, db')"
    and u: "uuid \<notin> sr_id ` set (db_requests db)"
  shows "quiet env db db'" "flight_fine env db' fp" "claim_fine db' (fp_signingRequestId fp)"
    "find_row sr_id (fp_signingRequestId fp) (db_requests db) = None"
proof -
  obtain r c result db1 where s: "hsmSign env now uuid hsm b address db = Inr (r, c, result, db1)"
    and fp: "fp = \<lparr>fp_signingRequestId = sr_id r, fp_buildId = b, fp_fullSignedTxCbor = c, fp_txHash = sr_txBodyHash r,
             fp_verificationResult = result, fp_signerType = Some ''hsm'', fp_signerInfo = Some (hsmInfo hsm),
             fp_hsmKeyId = (if deferSubmit then None else Some (hs_keyIdentifier hsm))\<rparr>"
    and db': "db' = db1\<lparr>db_requests := update_where (\<lambda>x. sr_id x = sr_id r)
              (\<lambda>x. claimUpdate (if deferSubmit then Some (c, Some ''hsm'', Some (hsmInfo hsm)) else None)
                     (x\<lparr>sr_hsmKeyId := Some (hs_keyIdentifier hsm)\<rparr>)) (db_requests db1)\<rparr>"
    using h unfolding hsmPhase1_def by (auto simp: sbind_Inr_iff)
  define r' where "r' = claimUpdate (if deferSubmit then Some (c, Some ''hsm'', Some (hsmInfo hsm)) else None)
                     (r\<lparr>sr_hsmKeyId := Some (hs_keyIdentifier hsm)\<rparr>)"
  obtain bd where r: "r = newSigningRequest now uuid bd" using hsmSign_parts(1) [OF s] by blast
  have fresh: "sr_id r \<notin> sr_id ` set (db_requests db)" using u by (simp add: r newSigningRequest_def)
  have req: "db_requests db' = db_requests db @ [r']"
    unfolding db' hsmSign_parts(2) [OF s] persistSigningRequest_def r'_def by (simp add: update_fresh [OF fresh])
  have i: "sr_id r' = sr_id r" by (simp add: r'_def claimUpdate_row)
  have le: "row_le (r\<lparr>sr_hsmKeyId := Some (hs_keyIdentifier hsm)\<rparr>) r'" unfolding r'_def by (rule claimUpdate_row(2))
  then have k: "sr_hsmKeyId r' \<noteq> None" "sr_txBodyHash r' = sr_txBodyHash r" by (simp_all add: row_le_def)
  then have sg: "signed_for env db' r' c" using hsmSign_parts(3) [OF s] by (auto simp: signed_for_def)
  have cl: "claimed r'" unfolding r'_def by (rule claimUpdate_row(3))
  show "quiet env db db'"
  proof (rule quiet_append [OF d req])
    show "\<forall>c'. sr_signedTxCbor r' = Some c' \<longrightarrow> signed_for env db' r' c'"
      using sg by (auto simp: r'_def claimUpdate_row r newSigningRequest_def split: if_splits)
  qed (use fresh i in \<open>simp_all add: r'_def claimUpdate_row(4) db' hsmSign_parts(2) [OF s] persistSigningRequest_def sender_of_def fun_eq_iff\<close>)
  have f: "find_row sr_id (sr_id r) (db_requests db') = Some r'"
    using fresh i unfolding req find_row_append by (simp add: find_row_None_iff [THEN iffD2])
  then show "flight_fine env db' fp" "claim_fine db' (fp_signingRequestId fp)"
    using sg cl k(2) by (simp_all add: flight_fine_def claim_fine_def fp)
  show "find_row sr_id (fp_signingRequestId fp) (db_requests db) = None" using fresh by (simp add: fp find_row_None_iff)
qed

lemma submitted_row:
  assumes "finalizeSubmitted now subId fp db = db'"
  defines "f \<equiv> \<lambda>r. (case fp_hsmKeyId fp of None \<Rightarrow> id | Some k \<Rightarrow> (\<lambda>r. r\<lparr>sr_hsmKeyId := Some k\<rparr>))
          (r\<lparr>sr_status := SUBMITTED,
                 sr_signerType := Some (if truthy (fp_signerType fp) then the (fp_signerType fp) else ''custom''),
                 sr_signerInfo := (if truthy (fp_signerInfo fp) then fp_signerInfo fp else None),
                 sr_signedAt := Some now, sr_submittedAt := Some now, sr_submission := Some subId\<rparr>)"
  shows "db_requests db' = update_where (\<lambda>r. sr_id r = fp_signingRequestId fp) f (db_requests db)"
    "sr_id (f r) = sr_id r" "row_le r (f r)" "sr_submission (f r) = Some subId" "sr_signedTxCbor (f r) = sr_signedTxCbor r"
    "sender_of db' = sender_of db"
    "db_submissions db' = db_submissions db @ [\<lparr>ts_id = subId, ts_build = Some (fp_buildId fp), ts_txHash = fp_txHash fp,
       ts_signedTxCbor = fp_fullSignedTxCbor fp, ts_status = SubmissionSubmitted\<rparr>]"
proof -
  show "db_requests db' = update_where (\<lambda>r. sr_id r = fp_signingRequestId fp) f (db_requests db)"
    unfolding assms(1) [symmetric] f_def finalizeSubmitted_def indexVerifiedTransactionSubmission_def Let_def update_where_def
    by (cases "fp_hsmKeyId fp") auto
  show "sr_id (f r) = sr_id r" "row_le r (f r)" "sr_submission (f r) = Some subId" "sr_signedTxCbor (f r) = sr_signedTxCbor r"
    unfolding f_def by (cases "fp_hsmKeyId fp"; simp add: row_le_def claimed_def)+
  have "map_option bd_senderAddress (find_row bd_id i (update_where (\<lambda>b. bd_id b = fp_buildId fp) (\<lambda>b. b\<lparr>bd_wasSubmitted := True\<rparr>) (db_builds db)))
      = map_option bd_senderAddress (find_row bd_id i (db_builds db))" for i
    by (simp add: find_row_update_where option.map_comp comp_def) (auto intro: option.map_cong)
  then show "sender_of db' = sender_of db"
    unfolding assms(1) [symmetric] finalizeSubmitted_def indexVerifiedTransactionSubmission_def Let_def sender_of_def fun_eq_iff
    by (cases "fp_hsmKeyId fp") simp_all
  show "db_submissions db' = db_submissions db @ [\<lparr>ts_id = subId, ts_build = Some (fp_buildId fp), ts_txHash = fp_txHash fp,
       ts_signedTxCbor = fp_fullSignedTxCbor fp, ts_status = SubmissionSubmitted\<rparr>]"
    unfolding assms(1) [symmetric] finalizeSubmitted_def indexVerifiedTransactionSubmission_def Let_def
    by (cases "fp_hsmKeyId fp") simp_all
qed

lemma finalize_inv:
  assumes inv: "flow_inv env s" and fl: "fl_flight s = xs @ (fp, ToFinalize) # ys"
  shows "flow_inv env (s\<lparr>fl_db := finalizeSubmitted now subId fp (fl_db s), fl_flight := xs @ ys\<rparr>)"
proof -
  define db' where "db' = finalizeSubmitted now subId fp (fl_db s)"
  note sub = submitted_row [OF db'_def [symmetric]]
  have le: "db_le (fl_db s) db'" by (rule update_db_le [OF sub(1)]) (auto simp: sub(2,3,6,7))
  have old: "row_fine env s r" if "r \<in> set (db_requests (fl_db s))" for r using inv that by (simp add: flow_inv_def)
  have fp: "flight_fine env (fl_db s) fp" "(fp_signingRequestId fp, fp_fullSignedTxCbor fp) \<in> set (fl_sent s)"
    "fp_fullSignedTxCbor fp \<in> set (fl_taken s)" using inv fl by (auto simp: flow_inv_def)
  have d: "distinct (map sr_id (db_requests (fl_db s)))" using inv by (simp add: flow_inv_def)
  have hash: "sr_txBodyHash r = fp_txHash fp" if "r \<in> set (db_requests (fl_db s))" "sr_id r = fp_signingRequestId fp" for r
    using fp(1) find_row_unique [OF d that] by (auto simp: flight_fine_def)
  have rows: "row_fine env (s\<lparr>fl_db := db', fl_flight := xs @ ys\<rparr>) r'" if r': "r' \<in> set (db_requests db')" for r'
  proof -
    from r' obtain r where r: "r \<in> set (db_requests (fl_db s))" and
      cases: "(sr_id r \<noteq> fp_signingRequestId fp \<and> r' = r) \<or> (sr_id r = fp_signingRequestId fp \<and> sr_id r' = sr_id r \<and> row_le r r'
         \<and> sr_submission r' = Some subId \<and> sr_signedTxCbor r' = sr_signedTxCbor r)"
      unfolding sub(1) set_update_where using sub(2-5) by (auto split: if_splits)
    have bytes: "\<forall>c. sr_signedTxCbor r' = Some c \<longrightarrow> signed_for env db' r' c"
      using cases old [OF r] signed_for_le [OF le] row_le_refl unfolding row_fine_def by metis
    from cases show ?thesis
    proof
      assume c: "sr_id r \<noteq> fp_signingRequestId fp \<and> r' = r"
      then show ?thesis using old [OF r] bytes unfolding row_fine_def by (auto simp: sub(7))
    next
      assume c: "sr_id r = fp_signingRequestId fp \<and> sr_id r' = sr_id r \<and> row_le r r'
         \<and> sr_submission r' = Some subId \<and> sr_signedTxCbor r' = sr_signedTxCbor r"
      then show ?thesis using bytes fp(2,3) hash [OF r] unfolding row_fine_def by (simp add: sub(7) row_le_def)
    qed
  qed
  have "distinct (map sr_id (db_requests db'))" unfolding sub(1) using d sub(2) by (simp add: update_where_keys)
  then show ?thesis
    using inv rows fine_le [OF le] fl unfolding flow_inv_def db'_def [symmetric] by auto
qed

lemma step_inv:
  assumes "flow_step env s s'" "flow_inv env s"
  shows "flow_inv env s'"
proof -
  have d: "distinct (map sr_id (db_requests (fl_db s)))" using assms(2) by (simp add: flow_inv_def)
  have fresh_claim: "flow_inv env (s\<lparr>fl_db := db', fl_flight := (fp, ToSend) # fl_flight s, fl_claims := fp_signingRequestId fp # fl_claims s\<rparr>)"
    if "quiet env (fl_db s) db'" "flight_fine env db' fp" "claim_fine db' (fp_signingRequestId fp)" "\<not> claim_fine (fl_db s) (fp_signingRequestId fp)" for db' fp
  proof -
    have "fp_signingRequestId fp \<notin> set (fl_claims s)" using assms(2) that(4) by (auto simp: flow_inv_def)
    then show ?thesis using quiet_inv [OF assms(2) that(1)] that(2,3) by (auto simp: flow_inv_def row_fine_def)
  qed
  have read: "read_fine env (fl_db s) q" if "q \<in> set (fl_read s)" for q using assms(2) that by (simp add: flow_inv_def)
  from assms(1) show ?thesis
  proof cases
    case (Read r)
    have "row_fine env s r" using assms(2) Read(2) by (simp add: flow_inv_def)
    then have "read_fine env (fl_db s) r"
      using find_row_unique [OF d Read(2)] by (auto simp: row_fine_def read_fine_def)
    then show ?thesis unfolding Read(1) using assms(2) by (auto simp: flow_inv_def row_fine_def)
  next
    case Create
    then show ?thesis using quiet_inv [OF assms(2) create_quiet [OF d]] by blast
  next
    case (Get now i db')
    have "db' = fl_db s \<or> db' = (fl_db s)\<lparr>db_requests := checkAndExpireSigningRequest now i (db_requests (fl_db s))\<rparr>"
      using Get(2) by (auto simp: getSigningRequest_def split: option.splits if_splits)
    then have "quiet env (fl_db s) db'"
      unfolding checkAndExpireSigningRequest_def using quiet_refl [OF d] expire_quiet [OF d] by fastforce
    then show ?thesis unfolding Get(1) using quiet_inv [OF assms(2)] by blast
  next
    case (List now l l' db')
    have "db' = fl_db s \<or> db' = (fl_db s)\<lparr>db_requests := expireAll now (db_requests (fl_db s))\<rparr>"
      using List(2) by (auto simp: beforeRead_def split: if_splits)
    then have "quiet env (fl_db s) db'"
      unfolding expireAll_def using quiet_refl [OF d] expire_quiet [OF d] by fastforce
    then show ?thesis unfolding List(1) using quiet_inv [OF assms(2)] by blast
  next
    case Verify
    then show ?thesis using quiet_inv [OF assms(2) verify_quiet [OF d]] by blast
  next
    case (Claim seen now input deferSubmit address signerType signerInfo fp db')
    note e = claim_effect [OF d read [OF Claim(2)] Claim(3)]
    show ?thesis unfolding Claim(1) by (rule fresh_claim [OF e(1-3)]) (use e(4) in \<open>auto simp: claim_fine_def\<close>)
  next
    case HsmSign
    then show ?thesis using quiet_inv [OF assms(2) signWithHsm_quiet [OF d]] by blast
  next
    case (HsmClaim now uuid hsm b deferSubmit address fp db')
    note e = hsmClaim_effect [OF d HsmClaim(2,3)]
    show ?thesis unfolding HsmClaim(1) by (rule fresh_claim [OF e(1-3)]) (simp add: e(4) claim_fine_def)
  next
    case (Send xs fp ys answer)
    have fp: "flight_fine env (fl_db s) fp" using assms(2) Send(2) by (auto simp: flow_inv_def)
    then have "sent_fine env (fl_db s) (fp_signingRequestId fp, fp_fullSignedTxCbor fp)" by (auto simp: flight_fine_def sent_fine_def)
    then show ?thesis unfolding Send(1) send_def Let_def
      using assms(2) fp Send(2) by (auto simp: flow_inv_def row_fine_def split: submit_answer.splits)
  next
    case Finalize
    then show ?thesis using finalize_inv [OF assms(2)] by blast
  next
    case (MarkFailed xs fp ys)
    then show ?thesis
      using quiet_inv [OF assms(2) markFailed_quiet [OF d, of env "fp_signingRequestId fp"]] by (auto simp: flow_inv_def row_fine_def)
  next
    case Lost
    then show ?thesis using assms(2) by (auto simp: flow_inv_def row_fine_def)
  next
    case (Redrive r fp)
    have q: "read_fine env (fl_db s) r" by (rule read [OF Redrive(2)])
    obtain c where c: "sr_signedTxCbor r = Some c" "sr_status r = SUBMITTING" using Redrive(3) by (auto simp: interrupted_def)
    obtain x where x: "find_row sr_id (sr_id r) (db_requests (fl_db s)) = Some x" "row_le r x" using q by (auto simp: read_fine_def)
    have "signed_for env (fl_db s) x c"
      using q c(1) signed_for_le [OF db_le_refl x(2)] by (simp add: read_fine_def)
    moreover have "claimed r" using c(2) by (simp add: claimed_def)
    moreover have "fp_signingRequestId fp = sr_id r" "fp_fullSignedTxCbor fp = c" "fp_txHash fp = sr_txBodyHash r"
      using Redrive(4) c(1) by (auto simp: redriveParams_def sbind_Inr_iff)
    ultimately have "flight_fine env (fl_db s) fp" using x by (auto simp: flight_fine_def row_le_def)
    then show ?thesis unfolding Redrive(1) using assms(2) by (auto simp: flow_inv_def row_fine_def)
  qed
qed

lemma flow_invariant:
  assumes "(flow_step env)\<^sup>*\<^sup>* (flow_start builds) s"
  shows "flow_inv env s"
  using assms
proof (induction rule: rtranclp_induct)
  case base
  show ?case by (simp add: flow_start_def flow_inv_def)
qed (rule step_inv)

section \<open>Properties\<close>

text \<open>
  C2. Whatever the service sends for a signing request, also from deferred submits and after restarts, is a
  transaction that verifies against that request: its body hash is the request's and every witness verifies;
  every required key is among the signers, unless the HSM signed the request.
\<close>

theorem sent_bytes_verified:
  assumes "(flow_step env)\<^sup>*\<^sup>* (flow_start builds) s" "(i, c) \<in> set (fl_sent s)"
  shows "\<exists>r \<in> set (db_requests (fl_db s)). sr_id r = i
    \<and> sv_isValid (verifySignedTransaction (se_lib env) False c (sr_txBodyHash r) (if sr_hsmKeyId r = None then signersFor env (fl_db s) r else None))"
proof -
  have "sent_fine env (fl_db s) (i, c)" using flow_invariant [OF assms(1)] assms(2) by (simp add: flow_inv_def)
  then show ?thesis unfolding sent_fine_def signed_for_def by (auto dest: find_row_SomeD)
qed

text \<open>
  C3. A signing request is claimed for submission at most once, however many handlers work on it, and a
  request stands as submitted only with the record of a submission of its transaction whose bytes were sent
  for this request and taken by the network.
\<close>

theorem request_claimed_once:
  assumes "(flow_step env)\<^sup>*\<^sup>* (flow_start builds) s"
  shows "distinct (fl_claims s)
    \<and> (\<forall>r \<in> set (db_requests (fl_db s)). sr_status r = SUBMITTED \<longrightarrow>
        (\<exists>sub \<in> set (db_submissions (fl_db s)). sr_submission r = Some (ts_id sub) \<and> ts_txHash sub = sr_txBodyHash r
           \<and> (sr_id r, ts_signedTxCbor sub) \<in> set (fl_sent s) \<and> ts_signedTxCbor sub \<in> set (fl_taken s)))"
  using flow_invariant [OF assms] by (simp add: flow_inv_def row_fine_def)

text \<open>One request from its creation to the record of its submission, signed by a wallet.\<close>

definition demo_build :: TransactionBuild where
  "demo_build = \<lparr>bd_id = ''b'', bd_senderAddress = ''addr'', bd_unsignedTxCbor = ''0a0b0c'', bd_txBodyHash = ''0b'', bd_wasSubmitted = False\<rparr>"

definition demo_env :: signing_env where
  "demo_env = \<lparr>se_lib = demo_signing_lib, se_requiredSigners = (\<lambda>_. Some [''07''])\<rparr>"

definition demo_request :: SigningRequest where
  "demo_request = newSigningRequest 0 ''q'' demo_build"

definition demo_created :: flow where
  "demo_created = (flow_start [demo_build])\<lparr>fl_db := persistSigningRequest demo_request (fl_db (flow_start [demo_build]))\<rparr>"

definition demo_claim :: "FinalizeParams \<times> signing_db" where
  "demo_claim = (case submitPhase1 demo_env 1 demo_request ''a105'' True None None None (fl_db demo_created) of Inr x \<Rightarrow> x)"

definition demo_sent :: flow where
  "demo_sent = send Accepted (fst demo_claim) [] []
     (demo_created\<lparr>fl_read := [demo_request], fl_db := snd demo_claim, fl_flight := [(fst demo_claim, ToSend)], fl_claims := [''q'']\<rparr>)"

definition demo_done :: flow where
  "demo_done = demo_sent\<lparr>fl_db := finalizeSubmitted 2 ''s'' (fst demo_claim) (fl_db demo_sent), fl_flight := []\<rparr>"

lemma demo_claimed: "submitPhase1 demo_env 1 demo_request ''a105'' True None None None (fl_db demo_created) = Inr demo_claim"
proof -
  have "\<not> isl (submitPhase1 demo_env 1 demo_request ''a105'' True None None None (fl_db demo_created))" by code_simp
  then show ?thesis unfolding demo_claim_def by (auto split: sum.splits)
qed

lemma demo_reach: "(flow_step demo_env)\<^sup>*\<^sup>* (flow_start [demo_build]) demo_sent" "flow_step demo_env demo_sent demo_done"
proof -
  have "createSigningRequest 0 ''q'' [] ''b'' (fl_db (flow_start [demo_build])) = Inr (demo_request, fl_db demo_created)" by code_simp
  then have "flow_step demo_env (flow_start [demo_build]) ((flow_start [demo_build])\<lparr>fl_db := fl_db demo_created\<rparr>)"
    by (rule Create) (simp add: flow_start_def)
  then have "flow_step demo_env (flow_start [demo_build]) demo_created" by (simp add: demo_created_def)
  moreover have r: "flow_step demo_env demo_created (demo_created\<lparr>fl_read := demo_request # fl_read demo_created\<rparr>)"
    by (rule Read) (simp add: demo_created_def persistSigningRequest_def)
  moreover have "flow_step demo_env (demo_created\<lparr>fl_read := demo_request # fl_read demo_created\<rparr>)
     (demo_created\<lparr>fl_read := [demo_request], fl_db := snd demo_claim, fl_flight := [(fst demo_claim, ToSend)], fl_claims := [''q'']\<rparr>)"
  proof -
    let ?s = "demo_created\<lparr>fl_read := demo_request # fl_read demo_created\<rparr>"
    have "submitPhase1 demo_env 1 demo_request ''a105'' True None None None (fl_db ?s) = Inr (fst demo_claim, snd demo_claim)"
      using demo_claimed by simp
    then have "flow_step demo_env ?s (?s\<lparr>fl_db := snd demo_claim, fl_flight := (fst demo_claim, ToSend) # fl_flight ?s,
        fl_claims := fp_signingRequestId (fst demo_claim) # fl_claims ?s\<rparr>)"
      by (rule Claim [rotated]) simp
    moreover have "fp_signingRequestId (fst demo_claim) = ''q''" by code_simp
    ultimately show ?thesis by (simp add: demo_created_def flow_start_def)
  qed
  moreover have "flow_step demo_env (demo_created\<lparr>fl_read := [demo_request], fl_db := snd demo_claim, fl_flight := [(fst demo_claim, ToSend)], fl_claims := [''q'']\<rparr>) demo_sent"
    unfolding demo_sent_def by (rule Send) simp
  ultimately show "(flow_step demo_env)\<^sup>*\<^sup>* (flow_start [demo_build]) demo_sent"
    by (meson converse_rtranclp_into_rtranclp r_into_rtranclp)
  show "flow_step demo_env demo_sent demo_done"
    unfolding demo_done_def by (rule Finalize [where xs = "[]" and ys = "[]", simplified]) (simp add: demo_sent_def send_def Let_def)
qed

theorem sent_bytes_verified_witness:
  "\<exists>r \<in> set (db_requests (fl_db demo_sent)). sr_id r = ''q''
    \<and> sv_isValid (verifySignedTransaction (se_lib demo_env) False ''09'' (sr_txBodyHash r)
         (if sr_hsmKeyId r = None then signersFor demo_env (fl_db demo_sent) r else None))"
proof -
  have "(''q'', ''09'') \<in> set (fl_sent demo_sent)" by code_simp
  then show ?thesis by (rule sent_bytes_verified [OF demo_reach(1)])
qed

theorem request_claimed_once_witness:
  "distinct (fl_claims demo_done) \<and> list_ex (\<lambda>r. sr_status r = SUBMITTED) (db_requests (fl_db demo_done))"
proof -
  have "(flow_step demo_env)\<^sup>*\<^sup>* (flow_start [demo_build]) demo_done"
    using demo_reach by (rule rtranclp.rtrancl_into_rtrancl)
  then have "distinct (fl_claims demo_done)" using request_claimed_once by blast
  moreover have "list_ex (\<lambda>r. sr_status r = SUBMITTED) (db_requests (fl_db demo_done))" by code_simp
  ultimately show ?thesis by blast
qed

section \<open>What the code allows\<close>

text \<open>
  A pending request past its deadline is answered again by \<open>CreateSigningRequest\<close>, which does not look at
  the deadline, and can then be neither verified nor submitted.
\<close>

lemma stale_request_returned:
  assumes "find_row bd_id b (db_builds db) \<noteq> None" "distinct (map sr_id (db_requests db))"
    and "find (\<lambda>r. sr_build r = Some b \<and> sr_status r = PENDING) (db_requests db) = Some r" "sr_expiresAt r \<le> now"
  shows "createSigningRequest now uuid (db_requests db) b db = Inr (r, db)"
    "isl (verifySignature env now r input None st si db)" "isl (submitPhase1 env now r input deferSubmit None st si db)"
proof -
  show "createSigningRequest now uuid (db_requests db) b db = Inr (r, db)"
    using assms by (auto simp: createSigningRequest_def)
  have r: "r \<in> set (db_requests db)" using assms(3) by (auto simp: find_Some_iff)
  have "\<not> list_ex (claimable now (sr_id r) {PENDING}) (db_requests db)"
    using assms(2,4) r unfolding list_ex_iff claimable_def distinct_map by (metis inj_onD not_less)
  then show "isl (verifySignature env now r input None st si db)"
    by (simp add: verifySignature_def ownershipCheck_def truthy_def)
  show "isl (submitPhase1 env now r input deferSubmit None st si db)"
    using assms(4) by (simp add: submitPhase1_def)
qed

text \<open>
  The re-drive and the submission it repeats can overlap: when the repeated one fails for any reason, the
  request is marked failed whatever it says by then, also submitted.
\<close>

lemma redrive_overwrites_submitted:
  assumes "r \<in> set (fl_read s)" "interrupted r" "redriveParams (se_lib env) r = Inr fp"
  shows "\<exists>s'. (flow_step env)\<^sup>*\<^sup>* s s' \<and> fl_taken s' = fl_taken s \<and> db_submissions (fl_db s') = db_submissions (fl_db s)
    \<and> (\<forall>x \<in> set (db_requests (fl_db s')). sr_id x = sr_id r \<longrightarrow> sr_status x = FAILED)"
proof -
  have i: "fp_signingRequestId fp = sr_id r" using assms(3) by (auto simp: redriveParams_def sbind_Inr_iff)
  define s1 where "s1 = s\<lparr>fl_flight := (fp, ToSend) # fl_flight s\<rparr>"
  define s2 where "s2 = send (SubmitError rejectInvalid) fp [] (fl_flight s) s1"
  define s3 where "s3 = s2\<lparr>fl_db := markRequestFailed (fp_signingRequestId fp) (fl_db s2), fl_flight := [] @ fl_flight s\<rparr>"
  have "flow_step env s s1" unfolding s1_def by (rule Redrive [OF assms])
  moreover have "flow_step env s1 s2" unfolding s2_def by (rule Send) (simp add: s1_def)
  moreover have "flow_step env s2 s3" unfolding s3_def by (rule MarkFailed) (simp add: s2_def send_def)
  ultimately have "(flow_step env)\<^sup>*\<^sup>* s s3" by (meson converse_rtranclp_into_rtranclp r_into_rtranclp)
  moreover have "fl_taken s3 = fl_taken s" "db_submissions (fl_db s3) = db_submissions (fl_db s)"
    by (simp_all add: s3_def s2_def s1_def send_def markRequestFailed_def)
  moreover have "\<forall>x \<in> set (db_requests (fl_db s3)). sr_id x = sr_id r \<longrightarrow> sr_status x = FAILED"
    by (auto simp: s3_def markRequestFailed_def set_update_where i)
  ultimately show ?thesis by blast
qed

end
