(* ===== verification/TxContext.thy ===== *)
theory TxContext imports PlutusBuild begin

text \<open>
  What a build may spend: \<open>srv/blockchain/cardano-tx-builder.ts\<close> collects the sender's outputs and resolves
  the references of a request (forced, script and reference inputs, reference scripts) before the builder
  runs. The backend client (theory \<open>ClientFailover\<close>), the store of pending spends (theory \<open>PendingSpends\<close>)
  and the crawled outputs are seen through the record \<open>tx_client\<close>. Its texts for people and logging are
  left out; every refusal is one validation error.
\<close>

section \<open>The client\<close>

record TxOutput =
  to_outputIndex :: nat
  to_address :: string
  to_amount :: "Amount list"
  to_inlineDatum :: "string option"
  to_dataHash :: "string option"
  to_referenceScriptHash :: "string option"

text \<open>
  \<open>cl_spentBy\<close>, \<open>cl_apply\<close>: \<open>pendingSpends\<close> at the time of the build; \<open>cl_localUtxos\<close>: the crawled outputs of an
  address, \<open>None\<close> when there is no source, it cannot answer or fails; \<open>cl_unspentOutputs\<close>: \<open>None\<close> when no
  ledger-state backend is usable or it fails; \<open>cl_transaction\<close>: the outputs of a transaction;
  \<open>cl_registered\<close>: whether a reward account is registered, if anyone knows.
\<close>

record tx_client =
  cl_spentBy :: "string \<Rightarrow> nat \<Rightarrow> string option"
  cl_apply :: "string \<Rightarrow> UTxO list \<Rightarrow> UTxO list"
  cl_localUtxos :: "string \<Rightarrow> UTxO list option"
  cl_addressUtxos :: "string \<Rightarrow> backend_error + UTxO list"
  cl_unspentOutputs :: "InputRef list \<Rightarrow> UTxO list option"
  cl_transaction :: "string \<Rightarrow> backend_error + TxOutput list"
  cl_registered :: "string \<Rightarrow> backend_error + bool option"

section \<open>References\<close>

definition outRefKey :: "'a InputRef_scheme \<Rightarrow> string" where
  "outRefKey r = outpoint (rf_txHash r) (rf_outputIndex r)"

definition same_ref :: "'a InputRef_scheme \<Rightarrow> 'b InputRef_scheme \<Rightarrow> bool" where
  "same_ref r u \<longleftrightarrow> rf_txHash u = rf_txHash r \<and> rf_outputIndex u = rf_outputIndex r"

fun unseen :: "string list \<Rightarrow> 'a InputRef_scheme list \<Rightarrow> 'a InputRef_scheme list" where
  "unseen seen [] = []"
| "unseen seen (r # rs) =
     (if outRefKey r \<in> set seen then unseen seen rs else r # unseen (outRefKey r # seen) rs)"

definition mergeUtxosUnique :: "UTxO list \<Rightarrow> UTxO list \<Rightarrow> UTxO list" where
  "mergeUtxosUnique base extra = (if extra = [] then base else base @ unseen (map outRefKey base) extra)"

text \<open>The answers of the ledger by reference; nothing is asked for no references.\<close>

definition lookupUnspent :: "tx_client \<Rightarrow> InputRef list \<Rightarrow> (string, UTxO) jmap option" where
  "lookupUnspent client refs =
     (if refs = [] then Some []
      else map_option (\<lambda>us. fold (\<lambda>u m. mput m (outRefKey u) u) us []) (cl_unspentOutputs client refs))"

text \<open>A failed look-up of the address is tolerated; answers are kept per address.\<close>

definition assertUnspent ::
  "tx_client \<Rightarrow> InputRef \<Rightarrow> string \<Rightarrow> (string, UTxO list) jmap \<Rightarrow> backend_error + (string, UTxO list) jmap" where
  "assertUnspent client ref address cache =
     (let check = \<lambda>live c. if list_ex (same_ref ref) live then Inr c else Inl invalid
      in case mget cache address of
           Some live \<Rightarrow> check live cache
         | None \<Rightarrow> (case cl_addressUtxos client address of
               Inl _ \<Rightarrow> Inr cache
             | Inr live \<Rightarrow> check live (mput cache address live)))"

definition from_output :: "InputRef \<Rightarrow> TxOutput \<Rightarrow> UTxO" where
  "from_output ref x =
     \<lparr>rf_txHash = rf_txHash ref, rf_outputIndex = rf_outputIndex ref, x_address = to_address x, x_amount = to_amount x,
      x_datumHash = to_dataHash x, x_inlineDatum = to_inlineDatum x, x_scriptRef = to_referenceScriptHash x,
      x_scriptRefCbor = None, x_scriptRefSize = None\<rparr>"

text \<open>Known outputs first, then the ledger, else the producing transaction and the unspent check.\<close>

fun resolveLoop ::
  "tx_client \<Rightarrow> UTxO list \<Rightarrow> (string, UTxO) jmap option \<Rightarrow> InputRef list \<Rightarrow> (string, UTxO list) jmap \<Rightarrow> backend_error + UTxO list" where
  "resolveLoop client known ledger [] cache = Inr []"
| "resolveLoop client known ledger (ref # refs) cache =
     (case find (same_ref ref) known of
        Some local \<Rightarrow> sbind (resolveLoop client known ledger refs cache) (\<lambda>us. Inr (local # us))
      | None \<Rightarrow> (case ledger of
          Some m \<Rightarrow> (case mget m (outRefKey ref) of
              None \<Rightarrow> Inl invalid
            | Some live \<Rightarrow> sbind (resolveLoop client known ledger refs cache) (\<lambda>us. Inr (live # us)))
        | None \<Rightarrow> (case cl_transaction client (rf_txHash ref) of
              Inl _ \<Rightarrow> Inl invalid
            | Inr outs \<Rightarrow> (case find (\<lambda>x. to_outputIndex x = rf_outputIndex ref) outs of
                None \<Rightarrow> Inl invalid
              | Some x \<Rightarrow> sbind (assertUnspent client ref (to_address x) cache) (\<lambda>cache'.
                  sbind (resolveLoop client known ledger refs cache') (\<lambda>us. Inr (from_output ref x # us)))))))"

definition pendingSpender :: "tx_client \<Rightarrow> 'a InputRef_scheme \<Rightarrow> bool" where
  "pendingSpender client r \<longleftrightarrow> truthy (cl_spentBy client (rf_txHash r) (rf_outputIndex r))"

definition resolveInputRefs :: "tx_client \<Rightarrow> InputRef list \<Rightarrow> UTxO list \<Rightarrow> backend_error + UTxO list" where
  "resolveInputRefs client refs known =
     (if refs = [] then Inr []
      else sbind (throwIf (list_ex (pendingSpender client) refs) invalid) (\<lambda>_.
        let dedupedRefs = unseen [] refs;
            ledger = lookupUnspent client (filter (\<lambda>r. \<not> list_ex (same_ref r) known) dedupedRefs)
        in resolveLoop client known ledger dedupedRefs []))"

text \<open>The script output of a single Plutus spend, when the sender does not hold it.\<close>

definition resolveScriptUtxo :: "tx_client \<Rightarrow> InputRef \<Rightarrow> backend_error + UTxO" where
  "resolveScriptUtxo client ref =
     sbind (throwIf (pendingSpender client ref) invalid) (\<lambda>_.
       case lookupUnspent client [ref] of
         Some m \<Rightarrow> (case mget m (outRefKey ref) of None \<Rightarrow> Inl invalid | Some live \<Rightarrow> Inr live)
       | None \<Rightarrow> sbind (cl_transaction client (rf_txHash ref)) (\<lambda>outs.
           case find (\<lambda>x. to_outputIndex x = rf_outputIndex ref) outs of
             None \<Rightarrow> Inl invalid
           | Some x \<Rightarrow> sbind (assertUnspent client ref (to_address x) []) (\<lambda>_. Inr (from_output ref x))))"

section \<open>The sender's outputs\<close>

definition InsufficientFunds :: backend_error where
  "InsufficientFunds = BackendError InsufficientFundsC 400 INSUFFICIENT_FUNDS None []"

text \<open>
  The crawled set first, the node when it has none; without what pending transactions spend, and without
  outputs that carry a reference script.
\<close>

definition fetchUtxosForAddress :: "tx_client \<Rightarrow> string \<Rightarrow> backend_error + UTxO list" where
  "fetchUtxosForAddress client address =
     sbind (case cl_localUtxos client address of
              Some (u # us) \<Rightarrow> Inr (u # us) | _ \<Rightarrow> cl_addressUtxos client address) (\<lambda>ledger.
       let utxos = filter (\<lambda>u. \<not> hasRefScript u) (cl_apply client address ledger)
       in if utxos = [] then Inl InsufficientFunds else Inr utxos)"

text \<open>An account this transaction registers may be withdrawn from; an unknown one is left to the node.\<close>

fun assertRewardAccountsRegistered :: "tx_client \<Rightarrow> string list \<Rightarrow> WithdrawalInput list \<Rightarrow> backend_error + unit" where
  "assertRewardAccountsRegistered client registeredHere [] = Inr ()"
| "assertRewardAccountsRegistered client registeredHere (w # ws) =
     (if toLowerCase (wi_rewardAddress w) \<in> set registeredHere then assertRewardAccountsRegistered client registeredHere ws
      else sbind (cl_registered client (wi_rewardAddress w)) (\<lambda>registered.
        if registered = Some False then Inl invalid else assertRewardAccountsRegistered client registeredHere ws))"

section \<open>Contexts\<close>

text \<open>Of a transfer, with or without metadata and assets.\<close>

definition transferContext :: "tx_client \<Rightarrow> string \<Rightarrow> InputRef list \<Rightarrow> backend_error + TxBuildContext" where
  "transferContext client senderAddress forceInputs =
     sbind (fetchUtxosForAddress client senderAddress) (\<lambda>sender.
     sbind (resolveInputRefs client forceInputs sender) (\<lambda>forced.
       Inr \<lparr>tc_utxos = mergeUtxosUnique sender forced, tc_referenceInputUtxos = []\<rparr>))"

definition mintContext :: "tx_client \<Rightarrow> string \<Rightarrow> InputRef list \<Rightarrow> InputRef list \<Rightarrow> backend_error + TxBuildContext" where
  "mintContext client senderAddress forceInputs referenceInputs =
     sbind (fetchUtxosForAddress client senderAddress) (\<lambda>sender.
     sbind (resolveInputRefs client forceInputs sender) (\<lambda>forced.
     sbind (resolveInputRefs client referenceInputs sender) (\<lambda>refs.
       Inr \<lparr>tc_utxos = mergeUtxosUnique sender forced, tc_referenceInputUtxos = refs\<rparr>)))"

definition spendContext :: "tx_client \<Rightarrow> string \<Rightarrow> InputRef \<Rightarrow> InputRef list \<Rightarrow> InputRef list \<Rightarrow> backend_error + TxBuildContext" where
  "spendContext client senderAddress scriptRef forceInputs referenceInputs =
     sbind (fetchUtxosForAddress client senderAddress) (\<lambda>sender.
     sbind (if list_ex (same_ref scriptRef) sender then Inr sender
            else sbind (resolveScriptUtxo client scriptRef) (\<lambda>u. Inr (sender @ [u]))) (\<lambda>allUtxos.
     sbind (resolveInputRefs client forceInputs allUtxos) (\<lambda>forced.
     sbind (resolveInputRefs client referenceInputs allUtxos) (\<lambda>refs.
       Inr \<lparr>tc_utxos = mergeUtxosUnique allUtxos forced, tc_referenceInputUtxos = refs\<rparr>))))"

definition referenceScripts :: "TxBuildPlutusRequest \<Rightarrow> InputRef list" where
  "referenceScripts req =
     List.map_filter sc_referenceScript (pr_scriptInputs req) @ List.map_filter wi_referenceScript (pr_withdrawals req)
     @ List.map_filter ct_referenceScript (pr_certificates req) @ List.map_filter ma_referenceScript (pr_mintActions req)"

definition registeredHere :: "TxBuildPlutusRequest \<Rightarrow> string list" where
  "registeredHere req =
     map (\<lambda>c. toLowerCase (ct_stakeAddress c)) (filter (\<lambda>c. ct_type c = RegisterStake) (pr_certificates req))"

definition plutusContext :: "tx_client \<Rightarrow> TxBuildPlutusRequest \<Rightarrow> backend_error + TxBuildContext" where
  "plutusContext client req =
     sbind (fetchUtxosForAddress client (pr_senderAddress req)) (\<lambda>sender.
     sbind (resolveInputRefs client (map ref_of (pr_scriptInputs req)) sender) (\<lambda>scripts.
     let allUtxos = mergeUtxosUnique sender scripts in
     sbind (resolveInputRefs client (pr_forceInputs req) allUtxos) (\<lambda>forced.
     sbind (resolveInputRefs client (referenceScripts req) []) (\<lambda>refScripts.
     sbind (resolveInputRefs client (pr_referenceInputs req) allUtxos) (\<lambda>callerRefs.
     sbind (assertRewardAccountsRegistered client (registeredHere req) (pr_withdrawals req)) (\<lambda>_.
       Inr \<lparr>tc_utxos = mergeUtxosUnique allUtxos forced, tc_referenceInputUtxos = mergeUtxosUnique callerRefs refScripts\<rparr>))))))"

section \<open>Lemmas\<close>

lemma outRefKey_eq: "outRefKey a = outRefKey b \<longleftrightarrow> same_ref a b"
  by (auto simp: outRefKey_def same_ref_def outpoint_inject)

lemma outRefKey_ref_of [simp]: "outRefKey (ref_of r) = outRefKey r" "key (ref_of r) = key r"
  by (simp_all add: outRefKey_def ref_of_def key_def)

lemma unseen_keys:
  "distinct (map outRefKey (unseen seen rs))" "outRefKey ` set (unseen seen rs) = outRefKey ` set rs - set seen"
  "set (unseen seen rs) \<subseteq> set rs"
  by (induction seen rs rule: unseen.induct) auto

lemma merge_parts:
  "set (mergeUtxosUnique base extra) \<subseteq> set base \<union> set extra" "set base \<subseteq> set (mergeUtxosUnique base extra)"
  "outRefKey ` set (mergeUtxosUnique base extra) = outRefKey ` set base \<union> outRefKey ` set extra"
  "distinct (map outRefKey base) \<Longrightarrow> distinct (map outRefKey (mergeUtxosUnique base extra))"
  using unseen_keys [of "map outRefKey base" extra] by (auto simp: mergeUtxosUnique_def)

lemma lookup_get:
  assumes "lookupUnspent client refs = Some m" "mget m k = Some u"
  shows "outRefKey u = k \<and> (\<exists>us. cl_unspentOutputs client refs = Some us \<and> u \<in> set us)"
proof -
  have "\<forall>k u. mget (fold (\<lambda>u m. mput m (outRefKey u) u) us []) k = Some u \<longrightarrow> u \<in> set us \<and> outRefKey u = k" for us :: "UTxO list"
    by (rule fold_invar) (auto split: if_splits)
  then show ?thesis using assms by (auto simp: lookupUnspent_def split: if_splits)
qed

text \<open>What speaks for an output: it was at hand, the ledger lists it, or its transaction has it and the address does, if it answers.\<close>

definition vouched :: "tx_client \<Rightarrow> UTxO list \<Rightarrow> UTxO \<Rightarrow> bool" where
  "vouched client known u \<longleftrightarrow> u \<in> set known
     \<or> (\<exists>refs us. cl_unspentOutputs client refs = Some us \<and> u \<in> set us)
     \<or> (\<exists>outs x. cl_transaction client (rf_txHash u) = Inr outs \<and> x \<in> set outs \<and> u = from_output (ref_of u) x
          \<and> (\<forall>live. cl_addressUtxos client (x_address u) = Inr live \<longrightarrow> list_ex (same_ref u) live))"

definition cache_true :: "tx_client \<Rightarrow> (string, UTxO list) jmap \<Rightarrow> bool" where
  "cache_true client cache \<longleftrightarrow> (\<forall>a live. mget cache a = Some live \<longrightarrow> cl_addressUtxos client a = Inr live)"

lemma assertUnspent_parts:
  assumes "assertUnspent client ref address cache = Inr cache'" "cache_true client cache"
  shows "cache_true client cache'" "\<And>live. cl_addressUtxos client address = Inr live \<Longrightarrow> list_ex (same_ref ref) live"
  using assms by (auto simp: assertUnspent_def cache_true_def Let_def split: option.splits sum.splits if_splits)

lemma from_output_ref: "rf_txHash (from_output r x) = rf_txHash r" "rf_outputIndex (from_output r x) = rf_outputIndex r"
  "x_address (from_output r x) = to_address x" "ref_of (from_output r x) = ref_of r" "from_output (ref_of r) x = from_output r x"
  by (simp_all add: from_output_def ref_of_def)

lemma resolveLoop_parts:
  assumes "\<forall>m k u. ledger = Some m \<longrightarrow> mget m k = Some u
    \<longrightarrow> outRefKey u = k \<and> (\<exists>refs us. cl_unspentOutputs client refs = Some us \<and> u \<in> set us)"
  shows "resolveLoop client known ledger refs cache = Inr us \<Longrightarrow> cache_true client cache
    \<Longrightarrow> map outRefKey us = map outRefKey refs \<and> list_all (vouched client known) us"
proof (induction refs arbitrary: us cache)
  case (Cons ref refs)
  show ?case
  proof (cases "find (same_ref ref) known")
    case (Some local)
    then have l: "local \<in> set known" "outRefKey local = outRefKey ref"
      by (auto simp: find_Some_iff outRefKey_def same_ref_def)
    obtain vs where "us = local # vs" "resolveLoop client known ledger refs cache = Inr vs"
      using Cons.prems(1) Some by (auto simp: sbind_Inr_iff)
    then show ?thesis using Cons.IH Cons.prems(2) l by (auto simp: vouched_def)
  next
    case None
    show ?thesis
    proof (cases ledger)
      case (Some m)
      obtain live vs where "mget m (outRefKey ref) = Some live" "us = live # vs" "resolveLoop client known ledger refs cache = Inr vs"
        using Cons.prems(1) None Some by (auto simp: sbind_Inr_iff split: option.splits)
      then show ?thesis using Cons.IH Cons.prems(2) assms Some by (auto simp: vouched_def)
    next
      case n: None
      obtain outs x cache' vs where x: "cl_transaction client (rf_txHash ref) = Inr outs"
        "find (\<lambda>x. to_outputIndex x = rf_outputIndex ref) outs = Some x" "assertUnspent client ref (to_address x) cache = Inr cache'"
        "resolveLoop client known ledger refs cache' = Inr vs" "us = from_output ref x # vs"
        using Cons.prems(1) None n by (auto simp: sbind_Inr_iff split: option.splits sum.splits)
      have "x \<in> set outs" using x(2) by (auto simp: find_Some_iff)
      moreover have "list_ex (same_ref (from_output ref x)) live" if "cl_addressUtxos client (to_address x) = Inr live" for live
      proof -
        have "same_ref (from_output ref x) = (same_ref ref :: UTxO \<Rightarrow> bool)" by (simp add: same_ref_def from_output_ref fun_eq_iff)
        then show ?thesis using assertUnspent_parts(2) [OF x(3) Cons.prems(2) that] by simp
      qed
      ultimately have "vouched client known (from_output ref x)"
        unfolding vouched_def using x(1) by (auto simp: from_output_ref)
      moreover have "outRefKey (from_output ref x) = outRefKey ref" by (simp add: outRefKey_def from_output_ref)
      ultimately show ?thesis
        using Cons.IH [OF x(4) assertUnspent_parts(1) [OF x(3) Cons.prems(2)]] by (simp add: x(5))
    qed
  qed
qed simp

lemma resolve_parts:
  assumes "resolveInputRefs client refs known = Inr us"
  shows "map outRefKey us = map outRefKey (unseen [] refs)" "list_all (vouched client known) us"
    "\<not> list_ex (pendingSpender client) refs"
proof -
  have *: "map outRefKey us = map outRefKey (unseen [] refs) \<and> list_all (vouched client known) us \<and> \<not> list_ex (pendingSpender client) refs"
  proof (cases "refs = []")
    case False
    let ?l = "lookupUnspent client (filter (\<lambda>r. \<not> list_ex (same_ref r) known) (unseen [] refs))"
    have r: "resolveLoop client known ?l (unseen [] refs) [] = Inr us" and n: "\<not> list_ex (pendingSpender client) refs"
      using assms False by (auto simp: resolveInputRefs_def sbind_Inr_iff throwIf_Inr_iff Let_def)
    have law: "\<forall>m k u. ?l = Some m \<longrightarrow> mget m k = Some u
        \<longrightarrow> outRefKey u = k \<and> (\<exists>refs us. cl_unspentOutputs client refs = Some us \<and> u \<in> set us)"
      using lookup_get by blast
    have "cache_true client []" by (simp add: cache_true_def)
    from resolveLoop_parts [OF law r this] n show ?thesis by blast
  qed (use assms in \<open>simp add: resolveInputRefs_def\<close>)
  then show "map outRefKey us = map outRefKey (unseen [] refs)" "list_all (vouched client known) us"
    "\<not> list_ex (pendingSpender client) refs" by blast+
qed

section \<open>Properties\<close>

text \<open>
  References are resolved exactly: a successful resolution has one output for every distinct reference,
  in the order they were named, none with a submitted transaction waiting to spend it, and each output was
  at hand, is listed by the ledger, or exists in its transaction and, when the address answers, at its address.
\<close>

theorem resolved_refs_exact:
  assumes "resolveInputRefs client refs known = Inr us"
  shows "distinct (map outRefKey us) \<and> map outRefKey us = map outRefKey (unseen [] refs) \<and> outRefKey ` set us = outRefKey ` set refs
    \<and> \<not> list_ex (pendingSpender client) us \<and> list_all (vouched client known) us"
proof -
  note parts = resolve_parts [OF assms]
  have k: "outRefKey ` set us = outRefKey ` set refs"
    using arg_cong [OF parts(1), of set] unseen_keys(2) [of "[]" refs] by simp
  have "\<not> pendingSpender client u" if "u \<in> set us" for u
  proof -
    have "outRefKey u \<in> outRefKey ` set refs" unfolding k [symmetric] using that by (rule imageI)
    then obtain r where "r \<in> set refs" "outRefKey u = outRefKey r" by blast
    then have "pendingSpender client u = pendingSpender client r" by (simp add: outRefKey_eq same_ref_def pendingSpender_def)
    with parts(3) \<open>r \<in> set refs\<close> show ?thesis by (auto simp: list_ex_iff)
  qed
  then have "\<not> list_ex (pendingSpender client) us" by (simp add: list_ex_iff)
  moreover have "distinct (map outRefKey us)" unfolding parts(1) by (rule unseen_keys(1))
  ultimately show ?thesis using parts(1,2) k by blast
qed

text \<open>A client without pending spends whose ledger knows one output; the sender holds another.\<close>

definition demo_client :: tx_client where
  "demo_client = \<lparr>cl_spentBy = (\<lambda>_ _. None), cl_apply = (\<lambda>_ us. us), cl_localUtxos = (\<lambda>_. None),
     cl_addressUtxos = (\<lambda>_. Inr (map (\<lambda>h. demo_utxo h 9000000) [''b'', ''c'', ''d''])),
     cl_unspentOutputs = (\<lambda>rs. Some (map (\<lambda>r. demo_utxo (rf_txHash r) 7000000) rs)),
     cl_transaction = (\<lambda>_. Inl invalid), cl_registered = (\<lambda>_. Inr None)\<rparr>"

theorem resolved_refs_exact_witness:
  "distinct (map outRefKey [demo_utxo ''b'' 3000000, demo_utxo ''a'' 7000000])
   \<and> list_all (vouched demo_client [demo_utxo ''b'' 3000000]) [demo_utxo ''b'' 3000000, demo_utxo ''a'' 7000000]"
proof -
  have "resolveInputRefs demo_client [demo_ref ''b'', demo_ref ''a'', demo_ref ''b''] [demo_utxo ''b'' 3000000]
      = Inr [demo_utxo ''b'' 3000000, demo_utxo ''a'' 7000000]" by code_simp
  from resolved_refs_exact [OF this] show ?thesis by blast
qed

lemma contextParts:
  assumes "plutusContext client req = Inr ctx"
  obtains sender scripts forced where
    "fetchUtxosForAddress client (pr_senderAddress req) = Inr sender"
    "resolveInputRefs client (map ref_of (pr_scriptInputs req)) sender = Inr scripts"
    "resolveInputRefs client (pr_forceInputs req) (mergeUtxosUnique sender scripts) = Inr forced"
    "tc_utxos ctx = mergeUtxosUnique (mergeUtxosUnique sender scripts) forced"
  using assms unfolding plutusContext_def Let_def sbind_Inr_iff by auto

lemma count_distinct: "distinct xs \<Longrightarrow> x \<in> set xs \<Longrightarrow> count_list xs x = 1"
  by (induction xs) auto

text \<open>The hashes the validators accept are in lower case.\<close>

lemma accepted_hash_lower: "TX_HASH_REGEX h \<Longrightarrow> toLowerCase h = h"
  by (auto simp: TX_HASH_REGEX_def toLowerCase_def list_all_iff lower_hex_fixed intro: map_idI)

lemma key_lower: "toLowerCase (rf_txHash u) = rf_txHash u \<Longrightarrow> key u = outRefKey u"
  by (simp add: key_def outRefKey_def)

text \<open>What the context of a multi-script build holds.\<close>

lemma context_holds:
  assumes ctx: "plutusContext client req = Inr ctx"
    and sender: "\<forall>us. fetchUtxosForAddress client (pr_senderAddress req) = Inr us
      \<longrightarrow> distinct (map outRefKey us) \<and> (\<forall>u \<in> set us. toLowerCase (rf_txHash u) = rf_txHash u \<and> \<not> pendingSpender client u)"
    and lower: "\<forall>r \<in> set (map ref_of (pr_scriptInputs req) @ pr_forceInputs req). toLowerCase (rf_txHash r) = rf_txHash r"
  shows "distinct (map key (tc_utxos ctx))" "key ` set (map ref_of (pr_scriptInputs req) @ pr_forceInputs req) \<subseteq> key ` set (tc_utxos ctx)"
    "\<forall>u \<in> set (tc_utxos ctx). \<not> pendingSpender client u"
proof -
  obtain us scripts forced where
    f: "fetchUtxosForAddress client (pr_senderAddress req) = Inr us" and
    sr: "resolveInputRefs client (map ref_of (pr_scriptInputs req)) us = Inr scripts" and
    fr: "resolveInputRefs client (pr_forceInputs req) (mergeUtxosUnique us scripts) = Inr forced" and
    t: "tc_utxos ctx = mergeUtxosUnique (mergeUtxosUnique us scripts) forced"
    by (rule contextParts [OF ctx])
  let ?refs = "map ref_of (pr_scriptInputs req) @ pr_forceInputs req"
  have k: "outRefKey ` set scripts = outRefKey ` set (map ref_of (pr_scriptInputs req))"
    "outRefKey ` set forced = outRefKey ` set (pr_forceInputs req)"
    using arg_cong [OF resolve_parts(1) [OF sr], of set] arg_cong [OF resolve_parts(1) [OF fr], of set]
      unseen_keys(2) [of "[]" "map ref_of (pr_scriptInputs req)"] unseen_keys(2) [of "[]" "pr_forceInputs req"] by simp_all
  have named: "\<exists>r \<in> set ?refs. outRefKey u = outRefKey r" if "u \<in> set scripts \<union> set forced" for u
  proof -
    have "outRefKey u \<in> outRefKey ` set ?refs" using that k unfolding set_append image_Un by blast
    then show ?thesis by blast
  qed
  have fine: "toLowerCase (rf_txHash u) = rf_txHash u \<and> \<not> pendingSpender client u" if "u \<in> set (tc_utxos ctx)" for u
  proof -
    have "u \<in> set us \<or> u \<in> set scripts \<union> set forced"
      using that merge_parts(1) [of "mergeUtxosUnique us scripts" forced] merge_parts(1) [of us scripts] unfolding t by blast
    then show ?thesis
    proof
      assume "u \<in> set scripts \<union> set forced"
      then obtain r where r: "r \<in> set ?refs" "outRefKey u = outRefKey r" using named by blast
      then have e: "rf_txHash u = rf_txHash r" "rf_outputIndex u = rf_outputIndex r" by (simp_all add: outRefKey_eq same_ref_def)
      have "\<not> pendingSpender client r"
        using r(1) resolve_parts(3) [OF sr] resolve_parts(3) [OF fr] by (auto simp: list_ex_iff)
      then have "\<not> pendingSpender client u" unfolding pendingSpender_def e .
      moreover have "toLowerCase (rf_txHash u) = rf_txHash u" unfolding e(1) using lower r(1) by blast
      ultimately show ?thesis by blast
    qed (use sender f in blast)
  qed
  then have keys: "key u = outRefKey u" if "u \<in> set (tc_utxos ctx)" for u using that key_lower by blast
  have "distinct (map outRefKey (tc_utxos ctx))" unfolding t using sender f merge_parts(4) by blast
  then show "distinct (map key (tc_utxos ctx))" using keys by (simp cong: map_cong)
  show "\<forall>u \<in> set (tc_utxos ctx). \<not> pendingSpender client u" using fine by blast
  have "outRefKey ` set ?refs \<subseteq> outRefKey ` set (tc_utxos ctx)"
  proof -
    have "outRefKey ` set (tc_utxos ctx) = outRefKey ` set us \<union> outRefKey ` set scripts \<union> outRefKey ` set forced"
      unfolding t merge_parts(3) [of "mergeUtxosUnique us scripts" forced] merge_parts(3) [of us scripts] ..
    moreover have "S \<union> F \<subseteq> A" if "A = X \<union> S \<union> F" for A X S F :: "string set" using that by blast
    ultimately show ?thesis unfolding set_append image_Un k [symmetric] by blast
  qed
  moreover have "key ` set (tc_utxos ctx) = outRefKey ` set (tc_utxos ctx)" using keys by (simp cong: image_cong)
  moreover have "key ` set ?refs = outRefKey ` set ?refs" using lower key_lower by (intro image_cong refl) blast
  ultimately show "key ` set ?refs \<subseteq> key ` set (tc_utxos ctx)" by blast
qed



end
