(* ===== verification/Spec2Isabelle.thy ===== *)
theory Spec2Isabelle
  imports CircuitBreaker RateLimiter TrackerDepth WalletWorker PendingSpends SyncState LedgerSums GrantEnforce CrawlerLoop ClientFailover BlockIndex PlutusBuild TxMetadata RequestParsers SigningFlow TxContext
begin

text \<open>
  Verification of ODATANO, an OData server for the Cardano blockchain (TypeScript, \<open>srv/\<close>).

  The program. A client (\<open>blockchain/cardano-client.ts\<close>) answers chain queries through several backends
  with fail-over and a circuit breaker each. A crawler (\<open>blockchain/crawler\<close>) follows the chain, stores blocks
  and transactions (\<open>blockchain/cardano-indexer.ts\<close>) and keeps the set of unspent outputs
  (\<open>blockchain/ledger-state.ts\<close>); it undoes blocks of abandoned forks. Build actions parse a request,
  collect inputs, plan and build a transaction (\<open>blockchain/cardano-tx-builder.ts\<close>,
  \<open>blockchain/transaction-building\<close>). A built transaction is signed outside or by an HSM, verified and
  submitted (\<open>cardano-sign-service.ts\<close>, \<open>blockchain/signing\<close>), or a wallet worker does all of it for a queued
  job and follows it to its confirmation (\<open>blockchain/wallet-worker\<close>). Agent grants let a token act within
  limits (\<open>utils/agent-grants.ts\<close>).

  Conventions (theory \<open>Prelude\<close>). A table of the database is a list of rows and a statement a function on it;
  conditional updates test the row in the statement itself, so interleavings of handlers are sequences of
  statements. A JavaScript map is an association list in insertion order. A thrown error is the left side
  of a sum. Counters, slots and milliseconds are integers, quantities (BigInt) too. Times, fresh identifiers,
  answers of the network and of the database are arguments, so a theorem holds for all of them. Functions
  of packages (bech32, CBOR, hashes, signatures, coin selection, script parsing) are arguments or records of
  functions; where a theorem relies on one of their documented properties it is a named assumption.
\<close>

section \<open>Resilience\<close>

text \<open>
  \<^item> \<open>CircuitBreaker\<close> (\<open>circuit-breaker.ts\<close>): the manager as a map from backend to its entry. An open circuit
    admits nothing before its timeout, it recovers after enough successes, and per backend it implements an
    abstract machine of three states, in any interleaving with late results.
  \<^item> \<open>RateLimiter\<close> (\<open>utils/rate-limiter.ts\<close>): no window ever grants a key more than its limit, over any
    run in which no key is evicted to make room; eviction forgets the hits of the oldest key.
  \<^item> \<open>Errors\<close> (\<open>utils/errors.ts\<close>): classes, their \<open>instanceof\<close> order and the normalisation of whatever a
    backend throws, hint by hint in the order of the code.
  \<^item> \<open>PendingSpends\<close> (\<open>pending-spends.ts\<close>, \<open>request-coalescer.ts\<close>): what a submitted transaction spends stays
    blocked until it expires or is listed; at most one request per key is in flight.
  \<^item> \<open>ClientFailover\<close> (\<open>cardano-client.ts\<close>): routing of a call over live and historical backends, as the code
    loops, equals a judgement over the list of candidates; a rejected submission stays rejected. The waits
    of the initialisation are counts, a time-out is an outcome of the call.
\<close>

section \<open>Following the chain\<close>

text \<open>
  \<^item> \<open>Lease\<close>, \<open>SyncState\<close> (\<open>crawler/sync-state.ts\<close>): the compare-and-swap lease is a locale, interpreted on the
    crawler's and the importer's cursor and on wallet leases; two instances never both hold one.
  \<^item> \<open>LedgerState\<close>, \<open>LedgerSums\<close> (\<open>ledger-state.ts\<close>): applying a block keeps the sums of every address right
    and undoing it restores the tables row for row; the backfill of credentials ends for every chunk size
    and leaves none without (the loop is a partial function; that it returns is proved, since every round
    fills a row). No other definition has fuel; the remaining loops recurse on their data.
  \<^item> \<open>TransactionRows\<close>, \<open>CrawlerReorg\<close> (\<open>transaction-rows.ts\<close>, \<open>handleReorg\<close>): a reorganisation deletes exactly
    what follows the fork and gives back the ledger before the abandoned block.
  \<^item> \<open>CrawlerPersist\<close>, \<open>CrawlerLoop\<close> (\<open>crawler.ts\<close>): the bounded retries of storing a block, with the latch for a
    block whose data is refused; starting, halting and choosing a source.
  \<^item> \<open>Addresses\<close>, \<open>ChainMappers\<close> (\<open>utils/mappers.ts\<close>): CIP-19 addresses over bytes, the canonical view of a
    reported transaction and its rows. \<open>BlockIndex\<close> (\<open>indexBlockFull\<close>): whatever other forks left under
    its numbers, a stored transaction has its own rows and no other.
  \<^item> \<open>Collections\<close>: chunks, pages, slots, epochs and times.
\<close>

section \<open>Building transactions\<close>

text \<open>
  \<^item> \<open>Texts\<close>, \<open>Json\<close>, \<open>Validators\<close>, \<open>RequestParsers\<close> (\<open>utils/const.ts\<close>, \<open>utils/validators.ts\<close>,
    \<open>utils/tx-request-parsers.ts\<close>): what is accepted is well-formed.
  \<^item> \<open>Placeholders\<close> (\<open>utils/plutus-placeholders.ts\<close>): indices of inputs and withdrawals as the ledger counts.
  \<^item> \<open>TxContext\<close> (\<open>cardano-tx-builder.ts\<close>): the sender's outputs and the resolution of references, once each
    and none already spent by a pending transaction.
  \<^item> \<open>TxFunding\<close>, \<open>PlutusBuild\<close> (\<open>buildooor-tx.ts\<close>): forced inputs, collateral, the value to be funded, and the
    plan of a multi-script build. Composed with \<open>TxContext\<close>: every named input is spent exactly once.
  \<^item> \<open>TxFees\<close> (\<open>buildooor-fee-patch.ts\<close>, \<open>utils/reference-script.ts\<close>): reference-script fees against the
    ledger's price by the byte, the fee floor of the second pass, and who vouches for execution units. The
    tier loop ends because every round takes a tier off the rest.
  \<^item> \<open>TxMetadata\<close>: JSON metadata as a datum, with its inverse; validity intervals.
\<close>

section \<open>Signing, submitting, confirming\<close>

text \<open>
  \<^item> \<open>Signatures\<close> (\<open>signing/signature-verifier.ts\<close>, \<open>utils/signing-helper.ts\<close>, \<open>signing/cose-verifier.ts\<close>): what
    verification accepts, that merging a wallet's witnesses keeps the signed body, and data signatures.
  \<^item> \<open>SigningFlow\<close> (\<open>cardano-sign-service.ts\<close>, \<open>signing/submission-finalizer.ts\<close>): any number of handlers on the
    tables of signing requests, submissions and builds, as a step relation with crashes, failing writes and
    re-drives. Only verified bytes are sent, and each request is claimed once.
  \<^item> \<open>JobStore\<close>, \<open>JobLifecycle\<close> (\<open>wallet-worker/job-store.ts\<close>): jobs, wallets and leases; keyed submissions are
    idempotent and a job's states only advance.
  \<^item> \<open>WalletWorker\<close> (\<open>wallet-worker/wallet-worker.ts\<close>): any number of instances, statement by statement, with
    crashes; a job never sends two different transactions.
  \<^item> \<open>ConfirmationTracker\<close>, \<open>TrackerDepth\<close> (\<open>wallet-worker/confirmation-tracker.ts\<close>): one terminal event per job, and
    a confirmation only at the configured depth below a tip.
\<close>

section \<open>Agent grants\<close>

text \<open>
  \<open>AgentGrants\<close>, \<open>GrantBudget\<close>, \<open>GrantTokens\<close>, \<open>GrantUsage\<close>, \<open>GrantAdmin\<close>, \<open>GrantEnforce\<close> (\<open>utils/agent-grants.ts\<close>,
  \<open>utils/agent-token-auth.ts\<close>): rows stay well-formed, a day's budget is never overspent while the clocks
  agree on the day, a cached row is that of the stored grant, buffered usage is not lost, and a request with
  a token is admitted only within its grant.
\<close>

section \<open>What the model shows the code to do wrong\<close>

text \<open>
  Each theory ends with lemmas on behaviour that differs from the comments or the guides: a substring hint
  that takes an unknown transaction for a known one (\<open>ClientFailover\<close>), the fall-backs of a driver without
  row counts (\<open>JobLifecycle\<close>), a cache entry dropped before the revoke commits (\<open>GrantTokens\<close>), a clock
  that runs behind (\<open>GrantBudget\<close>), amounts of zero written with several digits and scripts written with
  spaces (\<open>Validators\<close>), labels beyond 2^53 (\<open>TxMetadata\<close>), collateral counted as spent (\<open>ChainMappers\<close>), an
  expired signing request handed out again and a re-drive that marks a submitted request failed
  (\<open>SigningFlow\<close>), and others.
\<close>

section \<open>Not modelled\<close>

text \<open>
  The backends themselves (\<open>blockchain/backends\<close>) and the handlers of the read services: requests to other
  servers and the renaming of fields. The passes of \<open>buildooor-tx.ts\<close> that assemble objects of the builder
  library and the bytes of caller datums, which that library encodes. Reads that fetch on a miss and upsert
  the answer; imports and backfills as streams (the ledger's own part is modelled); the reassembly of
  stored transactions. Keys, the HSM and encryption at rest. Configuration, start-up, timers, logging and
  texts written for people. The user interface, scripts and tests. Where a modelled part calls one of
  these, its answer is an argument.
\<close>

end
